(* ===== verification/Prelude.thy ===== *)
theory Prelude
  imports Main
begin

text \<open>
  What every component shares: Python exceptions as values, the result type
  \<open>'a res\<close> with its sequencing combinators, and generic facts on lists and maps.

  An exception is its class and its message.  A function that may raise returns \<open>Inl\<close>
  of the exception, one that returns a value gives \<open>Inr\<close>.  The checks at the head of
  a Python constructor are a list for \<open>checks\<close>: pairs of the condition under which the
  source raises and the exception it raises, in the order of the source, so that the
  first condition that holds decides.

  The collection \<open>res_iff\<close> holds the equivalences that take a successful run of a
  composed operation apart into the successes of its parts.
\<close>

section \<open>Exceptions and results\<close>

datatype exc_class =
    ValueError
  | TypeError
  | KeyError
  | IndexError
  | RuntimeError
  | AssertionError
  | OverflowError
  | FileNotFoundError
  | FileExistsError
  | OrderDomainError
  | OrderAdmissionError
  | OrderReconciliationError
  | BarPathError
  | LiquidityAllocationError
  | ZeroDivisionError
  | StopIteration

datatype exc = Raise (exc_of: exc_class) (msg_of: string)

abbreviation value_error :: "string \<Rightarrow> exc" where
  "value_error m \<equiv> Raise ValueError m"

type_synonym 'a res = "exc + 'a"

named_theorems res_iff \<open>inversion of successful results\<close>
named_theorems f64_eval \<open>evaluation of floats that are small integers\<close>

text \<open>\<open>except ValueError\<close> also catches the subclasses of \<open>ValueError\<close>.\<close>

fun is_value_error :: "exc \<Rightarrow> bool" where
  "is_value_error (Raise c m) \<longleftrightarrow>
     c \<in> {ValueError, OrderDomainError, OrderAdmissionError, OrderReconciliationError, BarPathError,
       LiquidityAllocationError}"

definition bindr :: "'a res \<Rightarrow> ('a \<Rightarrow> 'b res) \<Rightarrow> 'b res" where
  "bindr m f = (case m of Inl e \<Rightarrow> Inl e | Inr x \<Rightarrow> f x)"

lemma bindr_simps [simp]:
  "bindr (Inl e) f = Inl e"
  "bindr (Inr x) f = f x"
  by (simp_all add: bindr_def)

text \<open>Evaluation enters the continuation only with a value.\<close>

lemma bindr_case [code_unfold]: "bindr m f = (case m of Inl e \<Rightarrow> Inl e | Inr x \<Rightarrow> f x)"
  by (simp add: bindr_def)

lemma bindr_Inr [res_iff]: "bindr m f = Inr y \<longleftrightarrow> (\<exists>x. m = Inr x \<and> f x = Inr y)"
  by (cases m) simp_all

lemma bindr_Inl: "bindr m f = Inl e \<longleftrightarrow> m = Inl e \<or> (\<exists>x. m = Inr x \<and> f x = Inl e)"
  by (cases m) simp_all

lemma bindr_cong [fundef_cong]:
  assumes "m = m'" and "\<And>x. m' = Inr x \<Longrightarrow> f x = f' x"
  shows "bindr m f = bindr m' f'"
  using assms by (cases m') simp_all

lemma bindr_assoc: "bindr (bindr m f) g = bindr m (\<lambda>x. bindr (f x) g)"
  by (cases m) simp_all

text \<open>\<open>raise \<dots> from error\<close>: replace a \<open>ValueError\<close> by another exception.\<close>

definition rewrap :: "(string \<Rightarrow> exc) \<Rightarrow> 'a res \<Rightarrow> 'a res" where
  "rewrap h m = (case m of
      Inl e \<Rightarrow> if is_value_error e then Inl (h (msg_of e)) else Inl e
    | Inr x \<Rightarrow> Inr x)"

lemma rewrap_Inr [res_iff]: "rewrap h m = Inr x \<longleftrightarrow> m = Inr x"
  by (cases m) (auto simp: rewrap_def)

lemma rewrap_simp [simp]: "rewrap h (Inr x) = Inr x"
  by (simp add: rewrap_def)

fun checks :: "(bool \<times> exc) list \<Rightarrow> unit res" where
  "checks [] = Inr ()"
| "checks ((b, e) # cs) = (if b then Inl e else checks cs)"

text \<open>
  A list of checks is taken apart one check at a time, and only where its success is
  the question; its branches are not unfolded elsewhere.
\<close>

lemma checks_Inr_simps [simp]:
  "checks [] = Inr u"
  "checks ((b, e) # cs) = Inr u \<longleftrightarrow> \<not> b \<and> checks cs = Inr u"
  by auto

declare checks.simps(2) [simp del]

lemma checks_Cons_True: "b \<Longrightarrow> checks ((b, e) # cs) = Inl e"
  by (simp add: checks.simps)

lemma checks_Cons_False: "\<not> b \<Longrightarrow> checks ((b, e) # cs) = checks cs"
  by (simp add: checks.simps)

lemma checks_Inl_mem: "checks cs = Inl e \<Longrightarrow> (True, e) \<in> set cs"
  by (induction cs rule: checks.induct) (auto simp: checks.simps split: if_splits)

lemma checks_append: "checks (cs @ ds) = bindr (checks cs) (\<lambda>_. checks ds)"
  by (induction cs rule: checks.induct) (auto simp: checks.simps)

fun mapr :: "('a \<Rightarrow> 'b res) \<Rightarrow> 'a list \<Rightarrow> 'b list res" where
  "mapr f [] = Inr []"
| "mapr f (x # xs) = bindr (f x) (\<lambda>y. bindr (mapr f xs) (\<lambda>ys. Inr (y # ys)))"

lemma mapr_Inr_list_all2: "mapr f xs = Inr ys \<longleftrightarrow> list_all2 (\<lambda>x y. f x = Inr y) xs ys"
  by (induction xs arbitrary: ys) (auto simp: res_iff list_all2_Cons1)

lemma mapr_length: "mapr f xs = Inr ys \<Longrightarrow> length ys = length xs"
  by (auto simp: mapr_Inr_list_all2 list_all2_lengthD)

lemma mapr_cong [fundef_cong]:
  assumes "xs = ys" and "\<And>x. x \<in> set ys \<Longrightarrow> f x = g x"
  shows "mapr f xs = mapr g ys"
  using assms(2) unfolding assms(1) by (induction ys) simp_all

fun foldr_res :: "('s \<Rightarrow> 'a \<Rightarrow> 's res) \<Rightarrow> 's \<Rightarrow> 'a list \<Rightarrow> 's res" where
  "foldr_res f s [] = Inr s"
| "foldr_res f s (x # xs) = bindr (f s x) (\<lambda>s'. foldr_res f s' xs)"

lemma foldr_res_inv:
  assumes "foldr_res f s xs = Inr t" and "P s"
    and "\<And>s x s'. P s \<Longrightarrow> x \<in> set xs \<Longrightarrow> f s x = Inr s' \<Longrightarrow> P s'"
  shows "P t"
  using assms
proof (induction xs arbitrary: s)
  case Nil
  then show ?case by simp
next
  case (Cons x xs)
  from Cons.prems(1) obtain s' where s': "f s x = Inr s'" and rest: "foldr_res f s' xs = Inr t"
    by (auto simp: res_iff)
  have "P s'" by (rule Cons.prems(3) [OF Cons.prems(2) _ s']) simp
  then show ?case using rest Cons.prems(3) by (intro Cons.IH [of s']) auto
qed

lemma foldr_res_cong [fundef_cong]:
  assumes "s = s'" and "xs = ys" and "\<And>t x. x \<in> set ys \<Longrightarrow> f t x = g t x"
  shows "foldr_res f s xs = foldr_res g s' ys"
  using assms(3) unfolding assms(1,2) by (induction ys arbitrary: s') (simp_all cong: bindr_cong)

lemma foldr_res_ok:
  assumes "P s" and "\<And>s x. P s \<Longrightarrow> x \<in> set xs \<Longrightarrow> \<exists>t. f s x = Inr t \<and> P t"
  shows "\<exists>t. foldr_res f s xs = Inr t \<and> P t"
  using assms
proof (induction xs arbitrary: s)
  case (Cons x xs)
  then obtain t where "f s x = Inr t" "P t" by (meson list.set_intros(1))
  then show ?case using Cons.IH [of t] Cons.prems(2) by auto
qed simp

text \<open>\<open>any(f(x) for x in xs)\<close>: stops at the first true answer or the first exception.\<close>

fun any_res :: "('a \<Rightarrow> bool res) \<Rightarrow> 'a list \<Rightarrow> bool res" where
  "any_res f [] = Inr False"
| "any_res f (x # xs) = bindr (f x) (\<lambda>b. if b then Inr True else any_res f xs)"

lemma any_res_False [res_iff]: "any_res f xs = Inr False \<longleftrightarrow> (\<forall>x \<in> set xs. f x = Inr False)"
  by (induction xs) (auto simp: res_iff)

lemma any_res_True: "any_res f xs = Inr True \<Longrightarrow> \<exists>x \<in> set xs. f x = Inr True"
  by (induction xs) (auto simp: res_iff split: if_splits)

section \<open>Lists\<close>

definition has_dup :: "'a list \<Rightarrow> bool" where
  "has_dup xs \<longleftrightarrow> card (set xs) \<noteq> length xs"

lemma has_dup_iff [simp]: "has_dup xs \<longleftrightarrow> \<not> distinct xs"
  using distinct_card [of xs] card_distinct [of xs] by (auto simp: has_dup_def)

lemma has_dup_code [code]: "has_dup xs \<longleftrightarrow> \<not> distinct xs"
  by (rule has_dup_iff)

end
