(* ===== verification/Float64.thy ===== *)
theory Float64
  imports Prelude Complex_Main
begin

text \<open>
  Python's \<open>float\<close>: IEEE 754 binary64 with rounding to nearest, ties to even, over
  exact rationals.  A float is a finite value \<open>F q\<close>, the negative zero, an infinity or
  a NaN.  Every operation computes the exact rational result and rounds it once
  (\<open>rnd\<close>), as IEEE 754 prescribes.  The theory also holds what the program uses of
  the standard library on floats: \<open>math.isfinite\<close>, \<open>copysign\<close>, \<open>ulp\<close>,
  \<open>nextafter\<close> towards zero, \<open>isclose\<close>, \<open>float(Fraction)\<close>, and the shortest decimal
  that rounds back to a float, which is what \<open>repr\<close> and \<open>str\<close> print.

  The lemmas show that rounding is the identity on floats, monotone, and that at most 17
  decimal digits print a float so that it reads back unchanged.
\<close>

section \<open>Integer logarithm of a rational\<close>

function dlen :: "int \<Rightarrow> int \<Rightarrow> nat" where
  "dlen b n = (if b \<le> 1 \<or> n \<le> 0 then 0 else Suc (dlen b (n div b)))"
  by pat_completeness auto
termination
  by (relation "measure (\<lambda>(b, n). nat n)")
     (auto simp: nat_less_eq_zless intro: int_div_less_self)

declare dlen.simps [simp del]

definition ilog :: "nat \<Rightarrow> rat \<Rightarrow> int" where
  "ilog b q = (case quotient_of q of (n, d) \<Rightarrow>
     let k = int (dlen (int b) n) - int (dlen (int b) d)
     in if of_nat b powi k \<le> q then k else k - 1)"

text \<open>For evaluation, an integer power of an integer base is one fraction.\<close>

definition ipow :: "int \<Rightarrow> int \<Rightarrow> rat" where
  "ipow b k = (if 0 \<le> k then of_int (b ^ nat k) else 1 / of_int (b ^ nat (- k)))"

lemma powi_ipow [code_unfold]:
  "(2::rat) powi k = ipow 2 k" "(10::rat) powi k = ipow 10 k"
  "rat_of_nat b powi k = ipow (int b) k"
  by (simp_all add: ipow_def power_int_def power_one_over inverse_eq_divide)

text \<open>The binary length of an integer is read off its numeral.\<close>

primrec num_bits :: "num \<Rightarrow> nat" where
  "num_bits num.One = 1"
| "num_bits (num.Bit0 m) = Suc (num_bits m)"
| "num_bits (num.Bit1 m) = Suc (num_bits m)"

lemma dlen_2_numeral: "dlen 2 (numeral m) = num_bits m"
proof (induction m)
  case One
  show ?case by (simp add: dlen.simps)
next
  case (Bit0 m)
  have "(numeral (num.Bit0 m) :: int) div 2 = numeral m" by simp
  then show ?case by (subst dlen.simps) (simp add: Bit0)
next
  case (Bit1 m)
  have "(numeral (num.Bit1 m) :: int) div 2 = numeral m" by simp
  then show ?case by (subst dlen.simps) (simp add: Bit1)
qed

lemma dlen_code [code]:
  "dlen b 0 = 0" "dlen b (Int.Neg m) = 0"
  "dlen b (Int.Pos m) = (if b \<le> 1 then 0 else if b = 2 then num_bits m
     else Suc (dlen b (Int.Pos m div b)))"
proof -
  show "dlen b 0 = 0" "dlen b (Int.Neg m) = 0" by (subst dlen.simps, simp)+
  show "dlen b (Int.Pos m) = (if b \<le> 1 then 0 else if b = 2 then num_bits m
     else Suc (dlen b (Int.Pos m div b)))"
    by (cases "b = 2") (simp add: dlen_2_numeral, subst dlen.simps, simp)
qed

text \<open>Evaluation computes powers by repeated squaring.\<close>

fun square_power :: "int \<Rightarrow> int \<Rightarrow> int" where
  "square_power b k = (if k \<le> 0 then 1
     else let h = square_power b (k div 2) in if even k then h * h else b * (h * h))"
declare square_power.simps [simp del]

lemma square_power: "square_power b k = b ^ nat k"
proof (induction b k rule: square_power.induct)
  case (1 b k)
  show ?case
  proof (cases "k \<le> 0")
    case False
    have k: "nat k = nat (k div 2) + nat (k div 2) + (if even k then 0 else 1)"
      using False by (auto elim!: evenE oddE)
    have "b ^ nat k = b ^ nat (k div 2) * b ^ nat (k div 2) * (if even k then 1 else b)"
      by (simp only: k power_add) simp
    then show ?thesis by (subst square_power.simps) (use False 1 in \<open>simp add: Let_def\<close>)
  qed (simp add: square_power.simps)
qed

lemma ipow_code [code]:
  "ipow b k = (if 0 \<le> k then of_int (square_power b k) else 1 / of_int (square_power b (- k)))"
  by (simp add: ipow_def square_power)

lemma powi_split: "(x::rat) \<noteq> 0 \<Longrightarrow> x powi (int m - int n) = x ^ m / x ^ n"
  by (simp add: power_int_diff)

lemma dlen_bounds:
  "1 < b \<Longrightarrow> 0 < n \<Longrightarrow> 0 < dlen b n \<and> b ^ (dlen b n - 1) \<le> n \<and> n < b ^ dlen b n"
proof (induction b n rule: dlen.induct)
  case (1 b n)
  have eq: "dlen b n = Suc (dlen b (n div b))" using 1 by (subst dlen.simps) simp
  show ?case
  proof (cases "n < b")
    case True
    then have "dlen b (n div b) = 0" using 1 by (subst dlen.simps) simp
    then show ?thesis using True 1 eq by simp
  next
    case False
    then have "0 < n div b" using 1 by (simp add: pos_imp_zdiv_pos_iff)
    with 1 have IH: "0 < dlen b (n div b)" "b ^ (dlen b (n div b) - 1) \<le> n div b"
      "n div b < b ^ dlen b (n div b)" by auto
    then obtain k where k: "dlen b (n div b) = Suc k" by (metis gr0_conv_Suc)
    have "b ^ Suc k \<le> b * (n div b)" using IH(2) 1 by (simp add: k)
    also have "\<dots> \<le> n" using 1 by (metis le_add_same_cancel1 mult_div_mod_eq pos_mod_sign less_trans zero_less_one)
    finally have lo: "b ^ Suc k \<le> n" .
    have "n < b * (n div b + 1)" using 1 by (smt (verit) mult_div_mod_eq pos_mod_bound distrib_left mult_cancel_left2)
    also have "\<dots> \<le> b * b ^ Suc k" using IH(3) 1 by (intro mult_left_mono) (simp_all add: k)
    finally show ?thesis using lo by (simp add: eq k)
  qed
qed

lemma dlen_rat_bounds:
  assumes "1 < b" and "0 < (n::int)"
  shows "0 < dlen (int b) n"
    and "rat_of_nat b ^ (dlen (int b) n - 1) \<le> of_int n"
    and "of_int n < rat_of_nat b ^ dlen (int b) n"
proof -
  have ib: "1 < int b" using assms by simp
  note nb = dlen_bounds [OF ib assms(2)]
  show "0 < dlen (int b) n" using nb by simp
  have eq: "rat_of_nat b ^ k = of_int (int b ^ k)" for k by simp
  show "rat_of_nat b ^ (dlen (int b) n - 1) \<le> of_int n"
    unfolding eq of_int_le_iff using nb by simp
  show "of_int n < rat_of_nat b ^ dlen (int b) n"
    unfolding eq of_int_less_iff using nb by simp
qed

lemma ilog_bounds:
  assumes "1 < b" and "0 < q"
  shows "of_nat b powi ilog b q \<le> q \<and> q < of_nat b powi (ilog b q + 1)"
proof -
  obtain n d where nd: "quotient_of q = (n, d)" by force
  have d: "0 < d" and q: "q = of_int n / of_int d"
    using quotient_of_denom_pos [OF nd] quotient_of_div [OF nd] by auto
  have n: "0 < n" using assms(2) d by (simp add: q zero_less_divide_iff)
  define N where "N = dlen (int b) n"
  define D where "D = dlen (int b) d"
  note rn = dlen_rat_bounds(2,3) [OF assms(1) n, folded N_def]
  note rd = dlen_rat_bounds(2,3) [OF assms(1) d, folded D_def]
  have N0: "0 < N" and D0: "0 < D"
    using dlen_rat_bounds(1) [OF assms(1)] n d by (auto simp: N_def D_def)
  have b0: "(0::rat) < of_nat b" using assms by simp
  have up: "q < of_nat b powi (int N - int D + 1)"
  proof -
    have "q * rat_of_nat b ^ (D - 1) \<le> q * of_int d"
      using rd assms by simp
    also have "\<dots> = of_int n" using d by (simp add: q)
    also have "\<dots> < rat_of_nat b ^ N" by (rule rn)
    finally have "q < rat_of_nat b ^ N / rat_of_nat b ^ (D - 1)"
      using b0 by (simp add: pos_less_divide_eq)
    then show ?thesis using b0 D0 powi_split [of "of_nat b" N "D - 1"]
      by (simp add: of_nat_diff algebra_simps)
  qed
  have lo: "of_nat b powi (int N - int D - 1) \<le> q"
  proof -
    have "rat_of_nat b ^ (N - 1) \<le> of_int n" by (rule rn)
    also have "\<dots> = q * of_int d" using d by (simp add: q)
    also have "\<dots> \<le> q * rat_of_nat b ^ D" using rd assms by simp
    finally have "rat_of_nat b ^ (N - 1) / rat_of_nat b ^ D \<le> q"
      using b0 by (simp add: pos_divide_le_eq)
    then show ?thesis using b0 N0 powi_split [of "of_nat b" "N - 1" D]
      by (simp add: of_nat_diff algebra_simps)
  qed
  show ?thesis using up lo by (auto simp: ilog_def nd N_def [symmetric] D_def [symmetric] Let_def)
qed

lemma powi_less_mono:
  assumes "1 < b" and "(rat_of_nat b) powi i < of_nat b powi j" shows "i < j"
proof (rule ccontr)
  assume "\<not> i < j"
  then have "rat_of_nat b powi j \<le> of_nat b powi i"
    using assms(1) by (intro power_int_increasing) auto
  with assms(2) show False by simp
qed

lemma ilog_unique:
  assumes b: "1 < b" and lo: "of_nat b powi k \<le> q" and up: "q < of_nat b powi (k + 1)"
  shows "ilog b q = k"
proof -
  have "0 < rat_of_nat b powi k" using b by simp
  with lo have "0 < q" by linarith
  from ilog_bounds [OF b this] lo up
  have "rat_of_nat b powi ilog b q < of_nat b powi (k + 1)"
    and "rat_of_nat b powi k < of_nat b powi (ilog b q + 1)" by linarith+
  then have "ilog b q < k + 1" and "k < ilog b q + 1" using powi_less_mono [OF b] by blast+
  then show ?thesis by linarith
qed

section \<open>Rounding a rational to an integer, half to even\<close>

definition rne :: "rat \<Rightarrow> int" where
  "rne q = (let f = \<lfloor>q\<rfloor>; r = q - of_int f in
     if r < 1/2 then f else if 1/2 < r then f + 1 else if even f then f else f + 1)"

lemma rne_of_int [simp]: "rne (of_int z) = z"
  by (simp add: rne_def)

lemma rne_close: "\<bar>of_int (rne q) - q\<bar> \<le> 1/2"
proof -
  define f where "f = \<lfloor>q\<rfloor>"
  have f: "of_int f \<le> q" "q < of_int f + 1"
    using floor_correct [of q] by (simp_all add: f_def)
  consider "rne q = f" "q - of_int f \<le> 1/2" | "rne q = f + 1" "1/2 \<le> q - of_int f"
    by (cases "q - of_int f < 1/2"; cases "1/2 < q - of_int f"; cases "even f")
       (auto simp: rne_def Let_def f_def)
  then show ?thesis using f by cases auto
qed

lemma rne_unique:
  assumes "\<bar>q - of_int z\<bar> < 1/2" shows "rne q = z"
proof -
  have "\<bar>of_int (rne q) - q\<bar> \<le> 1/2" by (rule rne_close)
  with assms have "\<bar>(of_int (rne q) :: rat) - of_int z\<bar> < 1" by linarith
  then have "rat_of_int \<bar>rne q - z\<bar> < of_int 1" by simp
  then have "\<bar>rne q - z\<bar> < 1" by (simp only: of_int_less_iff)
  then show ?thesis by simp
qed

lemma rne_range: "\<lfloor>q\<rfloor> \<le> rne q \<and> rne q \<le> \<lfloor>q\<rfloor> + 1"
  by (simp add: rne_def Let_def)

lemma rne_mono: assumes "p \<le> q" shows "rne p \<le> rne q"
proof (cases "\<lfloor>p\<rfloor> = \<lfloor>q\<rfloor>")
  case True
  with assms show ?thesis by (simp add: rne_def Let_def)
next
  case False
  with floor_mono [OF assms] have "\<lfloor>p\<rfloor> + 1 \<le> \<lfloor>q\<rfloor>" by linarith
  with rne_range [of p] rne_range [of q] show ?thesis by linarith
qed

lemma rne_nonneg: "0 \<le> q \<Longrightarrow> 0 \<le> rne q"
  using rne_mono [of 0 q] rne_of_int [of 0] by simp

lemma rne_minus_half: "0 \<le> q \<Longrightarrow> q < 1/2 \<Longrightarrow> rne q = 0"
  by (rule rne_unique) simp


section \<open>Rounding a magnitude to binary64\<close>

text \<open>
  \<open>fexp q\<close> is the exponent of the unit in the last place of the binade of \<open>q\<close>, at
  least the one of the subnormal numbers; \<open>rmag\<close> rounds a non-negative rational to a
  multiple of that unit.  Overflow is left to the caller.
\<close>

definition fexp :: "rat \<Rightarrow> int" where
  "fexp q = max (ilog 2 q) (-1022) - 52"

definition rmag :: "rat \<Rightarrow> rat" where
  "rmag q = (if q \<le> 0 then 0 else of_int (rne (q / 2 powi fexp q)) * 2 powi fexp q)"

definition rep :: "rat \<Rightarrow> bool" where
  "rep q \<longleftrightarrow> 0 \<le> q \<and> rmag q = q"

lemma powi2_pos [simp]: "(0::rat) < 2 powi k"
  by simp

lemma powi2_add: "(2::rat) powi (i + j) = 2 powi i * 2 powi j"
  by (simp add: power_int_add)

lemma powi2_mono: "i \<le> j \<Longrightarrow> (2::rat) powi i \<le> 2 powi j"
  by (intro power_int_increasing) auto

lemma powi2_less: "(2::rat) powi i < 2 powi j \<Longrightarrow> i < j"
  using powi_less_mono [of 2 i j] by simp

lemma powi2_le_iff: "(2::rat) powi i \<le> 2 powi j \<longleftrightarrow> i \<le> j"
proof
  assume le: "(2::rat) powi i \<le> 2 powi j"
  show "i \<le> j"
  proof (rule ccontr)
    assume "\<not> i \<le> j"
    then have "(2::rat) powi j < 2 powi i" by (intro power_int_strict_increasing) auto
    with le show False by simp
  qed
qed (rule powi2_mono)

lemma ilog2_bounds: "0 < q \<Longrightarrow> 2 powi ilog 2 q \<le> q \<and> q < 2 powi (ilog 2 q + 1)"
  using ilog_bounds [of 2 q] by simp

lemma ilog2_mono: assumes "0 < p" "p \<le> q" shows "ilog 2 p \<le> ilog 2 q"
proof -
  from assms have "(2::rat) powi ilog 2 p < 2 powi (ilog 2 q + 1)"
    using ilog2_bounds [of p] ilog2_bounds [of q] by linarith
  then show ?thesis using powi2_less by fastforce
qed

lemma fexp_mono: "0 < p \<Longrightarrow> p \<le> q \<Longrightarrow> fexp p \<le> fexp q"
  using ilog2_mono [of p q] by (simp add: fexp_def)

lemma fexp_upper: assumes "0 < q" shows "q < 2 powi (fexp q + 53)"
proof -
  have "q < 2 powi (ilog 2 q + 1)" using ilog2_bounds [OF assms] by simp
  also have "\<dots> \<le> 2 powi (fexp q + 53)" by (rule powi2_mono) (simp add: fexp_def)
  finally show ?thesis .
qed

lemma fexp_lower: assumes "0 < q" and "-1074 < fexp q" shows "2 powi (fexp q + 52) \<le> q"
proof -
  have "fexp q + 52 = ilog 2 q" using assms(2) by (auto simp: fexp_def max_def split: if_splits)
  then show ?thesis using ilog2_bounds [OF assms(1)] by simp
qed

lemma fexp_ge: "-1074 \<le> fexp q"
  by (simp add: fexp_def)

lemma fexp_unique:
  assumes "0 < q" and "q < 2 powi (k + 53)" and "-1074 \<le> k"
    and "-1074 < k \<Longrightarrow> 2 powi (k + 52) \<le> q"
  shows "fexp q = k"
proof (rule antisym)
  have "2 powi ilog 2 q < (2::rat) powi (k + 53)"
    using ilog2_bounds [OF assms(1)] assms(2) by linarith
  then show le: "fexp q \<le> k" using powi2_less [of "ilog 2 q" "k + 53"] assms(3)
    by (simp add: fexp_def)
  show "k \<le> fexp q"
  proof (cases "-1074 < k")
    case True
    have "2 powi (k + 52) < (2::rat) powi (ilog 2 q + 1)"
      using ilog2_bounds [OF assms(1)] assms(4) [OF True] by linarith
    then show ?thesis using powi2_less [of "k + 52" "ilog 2 q + 1"] by (simp add: fexp_def)
  next
    case False
    with assms(3) show ?thesis using fexp_ge [of q] by linarith
  qed
qed

lemma powi2_two: "(2::rat) powi (k + 53) = 2 ^ 53 * 2 powi k" "(2::rat) powi (k + 52) = 2 ^ 52 * 2 powi k"
  by (simp_all add: power_int_add)

lemma rmag_int:
  assumes "0 < q" obtains M where "rmag q = of_int M * 2 powi fexp q" "0 \<le> M" "M \<le> 2 ^ 53"
    "M = rne (q / 2 powi fexp q)"
proof
  let ?M = "rne (q / 2 powi fexp q)"
  show "rmag q = of_int ?M * 2 powi fexp q" using assms by (simp add: rmag_def)
  show "0 \<le> ?M" using assms by (intro rne_nonneg) simp
  have "q / 2 powi fexp q \<le> of_int (2 ^ 53)"
    using fexp_upper [OF assms] by (simp add: powi2_two pos_divide_le_eq)
  then show "?M \<le> 2 ^ 53" using rne_mono rne_of_int by metis
qed simp

lemma rmag_dyadic:
  assumes M: "0 \<le> M" "M \<le> 2 ^ 53" and e: "-1074 \<le> e"
  shows "rmag (of_int M * 2 powi e) = of_int M * 2 powi e"
proof -
  have main: "rmag (of_int N * 2 powi k) = of_int N * 2 powi k"
    if N: "0 < N" "N < 2 ^ 53" and k: "-1074 \<le> k" for N k
  proof -
    let ?q = "rat_of_int N * 2 powi k"
    have pos: "0 < ?q" using N by simp
    have "rat_of_int N < of_int (2 ^ 53)" using N(2) by (simp only: of_int_less_iff)
    then have "?q < 2 powi (k + 53)" by (simp add: powi2_two)
    then have "2 powi ilog 2 ?q < (2::rat) powi (k + 53)"
      using ilog2_bounds [OF pos] by linarith
    then have le: "fexp ?q \<le> k" using powi2_less k by (fastforce simp: fexp_def)
    define f where "f = fexp ?q"
    define d where "d = nat (k - f)"
    have kf: "(2::rat) powi k = 2 ^ d * 2 powi f"
      using le powi2_add [of "int d" f] by (simp add: d_def f_def power_int_def)
    have "?q / 2 powi f = of_int (N * 2 ^ d)" by (simp add: kf)
    then have "rne (?q / 2 powi f) = N * 2 ^ d" by (metis rne_of_int)
    then have "rmag ?q = of_int (N * 2 ^ d) * 2 powi f"
      using pos by (simp add: rmag_def f_def)
    also have "\<dots> = ?q" by (simp add: kf)
    finally show ?thesis .
  qed
  consider "M = 0" | "0 < M" "M < 2 ^ 53" | "M = 2 ^ 53" using M by linarith
  then show ?thesis
  proof cases
    case 1 then show ?thesis by (simp add: rmag_def)
  next
    case 2 then show ?thesis using main e by blast
  next
    case 3
    have "rmag (of_int (2 ^ 52) * 2 powi (e + 1)) = of_int (2 ^ 52) * 2 powi (e + 1)"
      by (rule main) (use e in auto)
    moreover have "of_int (2 ^ 52) * (2::rat) powi (e + 1) = of_int M * 2 powi e"
      by (simp add: 3 power_int_add)
    ultimately show ?thesis by simp
  qed
qed

lemma rmag_nonneg [simp]: "0 \<le> rmag q"
proof (cases "0 < q")
  case True then show ?thesis by (metis rmag_int mult_nonneg_nonneg of_int_0_le_iff powi2_pos less_imp_le)
qed (simp add: rmag_def)

lemma rmag_rep [simp]: "rep (rmag q)"
proof (cases "0 < q")
  case True
  then obtain M where "rmag q = of_int M * 2 powi fexp q" "0 \<le> M" "M \<le> 2 ^ 53"
    by (rule rmag_int)
  then show ?thesis using rmag_dyadic fexp_ge by (simp add: rep_def)
qed (simp add: rmag_def rep_def)

lemma rep_0 [simp]: "rep 0"
  by (simp add: rep_def rmag_def)

lemma rmag_0 [simp]: "rmag 0 = 0"
  by (simp add: rmag_def)

lemma rep_rmag: "rep q \<Longrightarrow> rmag q = q"
  by (simp add: rep_def)

lemma rmag_mono: assumes "p \<le> q" shows "rmag p \<le> rmag q"
proof (cases "0 < p")
  case True
  then have q: "0 < q" using assms by simp
  obtain M where M: "rmag p = of_int M * 2 powi fexp p" "M \<le> 2 ^ 53" "M = rne (p / 2 powi fexp p)"
    by (rule rmag_int [OF True])
  obtain N where N: "rmag q = of_int N * 2 powi fexp q" "N = rne (q / 2 powi fexp q)"
    by (rule rmag_int [OF q])
  show ?thesis
  proof (cases "fexp p = fexp q")
    case True
    have "M \<le> N" unfolding M N True using assms by (intro rne_mono divide_right_mono) auto
    then show ?thesis by (simp add: M N True)
  next
    case False
    then have lt: "fexp p + 1 \<le> fexp q" using fexp_mono [OF \<open>0 < p\<close> assms] by linarith
    then have "-1074 < fexp q" using fexp_ge [of p] by linarith
    then have "of_int (2 ^ 52) \<le> q / 2 powi fexp q"
      using fexp_lower [OF q] by (simp add: powi2_two pos_le_divide_eq)
    then have "2 ^ 52 \<le> N" unfolding N using rne_mono rne_of_int by metis
    then have N52: "(2::rat) ^ 52 \<le> of_int N" by (metis of_int_le_iff of_int_numeral of_int_power)
    have "rat_of_int M \<le> 2 ^ 53" using M(2) by (metis of_int_le_iff of_int_numeral of_int_power)
    then have "rmag p \<le> 2 ^ 53 * 2 powi fexp p" by (simp add: M)
    also have "\<dots> = 2 ^ 52 * 2 powi (fexp p + 1)" by (simp add: power_int_add)
    also have "\<dots> \<le> 2 ^ 52 * 2 powi fexp q" using lt by (simp add: powi2_mono)
    also have "\<dots> \<le> rmag q" using N52 by (simp add: N)
    finally show ?thesis .
  qed
next
  case False
  then have "rmag p = 0" by (simp add: rmag_def)
  then show ?thesis by simp
qed

lemma rmag_close: assumes "0 < q" shows "\<bar>rmag q - q\<bar> \<le> 2 powi fexp q / 2"
proof -
  let ?u = "(2::rat) powi fexp q"
  have "rmag q - q = (of_int (rne (q / ?u)) - q / ?u) * ?u"
    unfolding rmag_def left_diff_distrib using assms by simp
  then have "\<bar>rmag q - q\<bar> = \<bar>of_int (rne (q / ?u)) - q / ?u\<bar> * ?u"
    by (simp only: abs_mult abs_of_pos [OF powi2_pos])
  also have "\<dots> \<le> 1/2 * ?u"
    by (rule mult_right_mono [OF rne_close]) (rule less_imp_le [OF powi2_pos])
  also have "\<dots> = ?u / 2" by (simp only: times_divide_eq_left mult_1_left)
  finally show ?thesis .
qed

section \<open>The shortest decimal that rounds to a float\<close>

text \<open>
  \<open>digits_at n q\<close> looks for a decimal of \<open>n\<close> significant digits that rounds to \<open>q\<close>
  and, of the two neighbours of \<open>q\<close>, takes the closer (the even one at a tie).  The
  result is the pair of the decimal mantissa and the decimal exponent.
\<close>

definition digits_at :: "nat \<Rightarrow> rat \<Rightarrow> (int \<times> int) option" where
  "digits_at n q = (let j = ilog 10 q - int n + 1; s = 10 powi j; lo = \<lfloor>q / s\<rfloor>;
     below = (rmag (of_int lo * s) = q); above = (rmag (of_int (lo + 1) * s) = q)
     in if below \<and> above then Some (rne (q / s), j)
        else if below then Some (lo, j)
        else if above then Some (lo + 1, j) else None)"

fun digits_search :: "nat \<Rightarrow> nat \<Rightarrow> rat \<Rightarrow> (int \<times> int) option" where
  "digits_search 0 n q = None"
| "digits_search (Suc k) n q =
     (case digits_at n q of Some r \<Rightarrow> Some r | None \<Rightarrow> digits_search k (Suc n) q)"

definition shortest :: "rat \<Rightarrow> (int \<times> int) option" where
  "shortest q = digits_search 17 1 q"

definition dec_value :: "int \<times> int \<Rightarrow> rat" where
  "dec_value r = of_int (fst r) * 10 powi snd r"

lemma dev_scaled:
  assumes "q = of_int M * 2 powi k" and "\<bar>c - q\<bar> < 1/2 * (2::rat) powi k"
  shows "\<bar>c / 2 powi k - of_int M\<bar> < 1/2"
proof -
  let ?u = "(2::rat) powi k"
  have "c - q = (c / ?u - of_int M) * ?u"
    by (simp add: assms(1) left_diff_distrib)
  then have "\<bar>c - q\<bar> = \<bar>c / ?u - of_int M\<bar> * ?u"
    by (simp only: abs_mult abs_of_pos [OF powi2_pos])
  with assms(2) show ?thesis by (metis mult_less_cancel_right_pos powi2_pos)
qed

lemma rmag_absorb:
  assumes q: "rep q" "0 < q" and c: "2 ^ 53 * \<bar>c - q\<bar> * 2 < q"
  shows "rmag c = q"
proof -
  define f where "f = fexp q"
  let ?u = "(2::rat) powi f"
  obtain M where M: "q = of_int M * ?u" "0 \<le> M" "M \<le> 2 ^ 53"
    using rmag_int [OF q(2)] rep_rmag [OF q(1)] unfolding f_def by metis
  have up: "q < 2 powi (f + 53)" using fexp_upper [OF q(2)] by (simp add: f_def)
  have fge: "-1074 \<le> f" using fexp_ge [of q] by (simp add: f_def)
  have "rat_of_int M < of_int (2 ^ 53)" using up by (simp add: M(1) powi2_two)
  then have M1: "M < 2 ^ 53" by (simp only: of_int_less_iff)
  have c0: "0 < c"
  proof (rule ccontr)
    assume "\<not> 0 < c"
    then have "q \<le> \<bar>c - q\<bar>" by linarith
    then have "2 ^ 53 * q * 2 \<le> 2 ^ 53 * \<bar>c - q\<bar> * 2" by simp
    with c have "2 ^ 53 * q * 2 < q" by linarith
    with q(2) show False by simp
  qed
  have dev: "\<bar>c / ?u - of_int M\<bar> < 1/2"
  proof (rule dev_scaled)
    show "q = of_int M * ?u" by (rule M(1))
    have "2 ^ 53 * \<bar>c - q\<bar> * 2 < 2 ^ 53 * ?u"
      using c up by (simp add: powi2_two)
    then show "\<bar>c - q\<bar> < 1/2 * ?u" by simp
  qed
  show ?thesis
  proof (cases "fexp c = f")
    case True
    have "rne (c / ?u) = M" using dev by (rule rne_unique)
    then show ?thesis using c0 by (simp add: rmag_def True M(1))
  next
    case False
    have small: "c < 2 powi (f + 53)"
    proof -
      have "c / ?u < of_int M + 1/2" using dev by linarith
      moreover have "rat_of_int M \<le> of_int (2 ^ 53 - 1)" using M1 by (simp only: of_int_le_iff)
      ultimately have "c / ?u < 2 ^ 53" by simp
      then show ?thesis by (simp add: powi2_two pos_divide_less_eq)
    qed
    from fexp_unique [OF c0 small fge] False
    have hi: "-1074 < f" and below: "c < 2 powi (f + 52)" by force+
    have "2 powi (f + 52) \<le> q" using fexp_lower [OF q(2)] hi by (simp add: f_def)
    then have "rat_of_int (2 ^ 52) \<le> of_int M" by (simp add: M(1) powi2_two)
    then have M52: "2 ^ 52 \<le> M" by (simp only: of_int_le_iff)
    have "c / ?u < 2 ^ 52" using below by (simp add: powi2_two pos_divide_less_eq)
    then have "rat_of_int M < 2 ^ 52 + 1" using dev by linarith
    then have "rat_of_int M < of_int (2 ^ 52 + 1)" by simp
    then have "M < 2 ^ 52 + 1" by (simp only: of_int_less_iff)
    then have Meq: "M = 2 ^ 52" using M52 by simp
    let ?k = "f - 1"
    have half: "?u = 2 * 2 powi ?k" using powi2_add [of 1 ?k] by simp
    have k: "fexp c = ?k"
    proof (rule fexp_unique [OF c0])
      show "c < 2 powi (?k + 53)" using below by (simp add: algebra_simps)
      show "-1074 \<le> ?k" using hi by simp
      have "2 ^ 53 * \<bar>c - q\<bar> * 2 < q" by (rule c)
      then have "\<bar>c - q\<bar> * 2 < q" using q(2) by simp
      then have "q \<le> c * 2" by (simp add: abs_if split: if_splits)
      moreover have "q = 2 * 2 powi (?k + 52)"
        unfolding powi2_two by (simp add: M(1) Meq half)
      ultimately show "2 powi (?k + 52) \<le> c" by linarith
    qed
    have qk: "q = 2 ^ 53 * 2 powi ?k" by (simp add: M(1) Meq half)
    have "\<bar>c / 2 powi ?k - of_int (2 ^ 53)\<bar> < 1/2"
    proof (rule dev_scaled)
      show "q = of_int (2 ^ 53) * 2 powi ?k" by (simp add: qk)
      have "2 ^ 53 * \<bar>c - q\<bar> * 2 < 2 ^ 53 * 2 powi ?k" using c by (simp only: qk)
      then show "\<bar>c - q\<bar> < 1/2 * 2 powi ?k" by simp
    qed
    then have "rne (c / 2 powi ?k) = 2 ^ 53" by (rule rne_unique)
    then show ?thesis using c0 by (simp add: rmag_def k M(1) Meq half)
  qed
qed

lemma ilog10_bounds: "0 < q \<Longrightarrow> 10 powi ilog 10 q \<le> q \<and> q < 10 powi (ilog 10 q + 1)"
  using ilog_bounds [of 10 q] by simp

text \<open>Seventeen significant digits always suffice.\<close>

lemma digits_at_17:
  assumes q: "rep q" "0 < q" shows "\<exists>r. digits_at 17 q = Some r"
proof -
  define s where "s = (10::rat) powi (ilog 10 q - 16)"
  define lo where "lo = \<lfloor>q / s\<rfloor>"
  have s0: "0 < s" by (simp add: s_def)
  have q17: "q \<ge> 10 ^ 16 * s"
    using ilog10_bounds [OF q(2)] power_int_add [of "10::rat" "ilog 10 q - 16" 16]
    by (simp add: s_def)
  have near: "rmag c = q" if "\<bar>c - q\<bar> \<le> s / 2" for c
  proof (rule rmag_absorb [OF q])
    have "2 ^ 53 * \<bar>c - q\<bar> * 2 \<le> 2 ^ 53 * s" using that by simp
    also have "\<dots> < 10 ^ 16 * s" using s0 by simp
    finally show "2 ^ 53 * \<bar>c - q\<bar> * 2 < q" using q17 by linarith
  qed
  have "of_int lo \<le> q / s" "q / s < of_int (lo + 1)"
    using floor_correct [of "q / s"] by (simp_all add: lo_def)
  then have fl: "of_int lo * s \<le> q" "q < of_int (lo + 1) * s"
    using s0 by (simp_all only: pos_le_divide_eq pos_divide_less_eq)
  have "rmag (of_int lo * s) = q \<or> rmag (of_int (lo + 1) * s) = q"
  proof (cases "q - of_int lo * s \<le> s / 2")
    case True
    then have "\<bar>of_int lo * s - q\<bar> \<le> s / 2" using fl(1) by linarith
    then show ?thesis using near by blast
  next
    case False
    have "of_int (lo + 1) * s = of_int lo * s + s" by (simp add: algebra_simps)
    with False fl(2) have "\<bar>of_int (lo + 1) * s - q\<bar> \<le> s / 2" by linarith
    then show ?thesis using near by blast
  qed
  then show ?thesis
    by (auto simp: digits_at_def Let_def s_def [symmetric] lo_def [symmetric])
qed

lemma digits_search_finds:
  "digits_at (n + k) q = Some r \<Longrightarrow> \<exists>r'. digits_search (Suc k) n q = Some r'"
proof (induction k arbitrary: n)
  case (Suc k)
  then show ?case using Suc.IH [of "Suc n"] by (simp split: option.splits)
qed simp

theorem shortest_total: assumes "rep q" and "0 < q" shows "\<exists>r. shortest q = Some r"
proof -
  obtain r where "digits_at (1 + 16) q = Some r" using digits_at_17 [OF assms] by auto
  from digits_search_finds [OF this] show ?thesis by (simp add: shortest_def)
qed

lemma digits_at_value: assumes "digits_at n q = Some r" shows "rmag (dec_value r) = q"
proof -
  define s where "s = (10::rat) powi (ilog 10 q - int n + 1)"
  have "rmag (of_int (rne (q / s)) * s) = q"
    if "rmag (of_int \<lfloor>q / s\<rfloor> * s) = q" and "rmag (of_int (\<lfloor>q / s\<rfloor> + 1) * s) = q"
  proof -
    have "rne (q / s) = \<lfloor>q / s\<rfloor> \<or> rne (q / s) = \<lfloor>q / s\<rfloor> + 1"
      using rne_range [of "q / s"] by linarith
    then show ?thesis using that by auto
  qed
  then show ?thesis using assms
    by (auto simp: digits_at_def Let_def dec_value_def s_def split: if_splits)
qed

lemma digits_search_value: "digits_search k n q = Some r \<Longrightarrow> rmag (dec_value r) = q"
  by (induction k n q rule: digits_search.induct)
     (auto split: option.splits dest: digits_at_value)

theorem shortest_reads_back: "shortest q = Some r \<Longrightarrow> rmag (dec_value r) = q"
  unfolding shortest_def by (rule digits_search_value)

section \<open>Float values\<close>

datatype f64 = F rat | NegZero | PosInf | NegInf | NaN

text \<open>\<open>is_f64\<close>: the value is one of binary64 (a datatype value \<open>F q\<close> may hold any rational).\<close>

definition max_f64 :: rat where
  "max_f64 = of_int ((2 ^ 32) ^ 32)"

lemma max_f64_eq: "max_f64 = 2 powi 1024"
  by (simp add: max_f64_def)

fun is_f64 :: "f64 \<Rightarrow> bool" where
  "is_f64 (F q) \<longleftrightarrow> rep \<bar>q\<bar> \<and> \<bar>q\<bar> < max_f64"
| "is_f64 _ \<longleftrightarrow> True"

fun val :: "f64 \<Rightarrow> rat" where
  "val (F q) = q"
| "val _ = 0"

fun isfinite :: "f64 \<Rightarrow> bool" where
  "isfinite (F q) \<longleftrightarrow> True"
| "isfinite NegZero \<longleftrightarrow> True"
| "isfinite _ \<longleftrightarrow> False"

fun signbit :: "f64 \<Rightarrow> bool" where
  "signbit (F q) \<longleftrightarrow> q < 0"
| "signbit NegZero \<longleftrightarrow> True"
| "signbit NegInf \<longleftrightarrow> True"
| "signbit _ \<longleftrightarrow> False"

definition rnd :: "rat \<Rightarrow> f64" where
  "rnd q = (let m = rmag \<bar>q\<bar> in
     if 0 \<le> q then (if m < max_f64 then F m else PosInf)
     else if m = 0 then NegZero
     else if m < max_f64 then F (- m) else NegInf)"

definition signed_zero :: "bool \<Rightarrow> f64" where
  "signed_zero s = (if s then NegZero else F 0)"

definition signed_inf :: "bool \<Rightarrow> f64" where
  "signed_inf s = (if s then NegInf else PosInf)"

fun fneg :: "f64 \<Rightarrow> f64" where
  "fneg (F q) = (if q = 0 then NegZero else F (- q))"
| "fneg NegZero = F 0"
| "fneg PosInf = NegInf"
| "fneg NegInf = PosInf"
| "fneg NaN = NaN"

fun fabs :: "f64 \<Rightarrow> f64" where
  "fabs (F q) = F \<bar>q\<bar>"
| "fabs NegZero = F 0"
| "fabs NaN = NaN"
| "fabs _ = PosInf"

definition fadd :: "f64 \<Rightarrow> f64 \<Rightarrow> f64" where
  "fadd x y = (if x = NaN \<or> y = NaN then NaN
     else if \<not> isfinite x \<and> \<not> isfinite y then (if x = y then x else NaN)
     else if \<not> isfinite x then x
     else if \<not> isfinite y then y
     else if x = NegZero \<and> y = NegZero then NegZero
     else rnd (val x + val y))"

definition fsub :: "f64 \<Rightarrow> f64 \<Rightarrow> f64" where
  "fsub x y = fadd x (fneg y)"

definition fmul :: "f64 \<Rightarrow> f64 \<Rightarrow> f64" where
  "fmul x y = (let s = (signbit x \<noteq> signbit y) in
     if x = NaN \<or> y = NaN then NaN
     else if \<not> isfinite x \<or> \<not> isfinite y then
       (if isfinite x \<and> val x = 0 \<or> isfinite y \<and> val y = 0 then NaN else signed_inf s)
     else if val x = 0 \<or> val y = 0 then signed_zero s
     else rnd (val x * val y))"

text \<open>
  Division as the hardware does it (and as numpy does); Python's own \<open>/\<close> raises
  \<open>ZeroDivisionError\<close> first, which its users here exclude.
\<close>

definition fdiv :: "f64 \<Rightarrow> f64 \<Rightarrow> f64" where
  "fdiv x y = (let s = (signbit x \<noteq> signbit y) in
     if x = NaN \<or> y = NaN then NaN
     else if \<not> isfinite x then (if isfinite y then signed_inf s else NaN)
     else if \<not> isfinite y then signed_zero s
     else if val y = 0 then (if val x = 0 then NaN else signed_inf s)
     else if val x = 0 then signed_zero s
     else rnd (val x / val y))"

text \<open>Comparisons: false on a NaN; the two zeros are equal.\<close>

fun ext_le :: "f64 \<Rightarrow> f64 \<Rightarrow> bool" where
  "ext_le NaN _ \<longleftrightarrow> False"
| "ext_le _ NaN \<longleftrightarrow> False"
| "ext_le NegInf _ \<longleftrightarrow> True"
| "ext_le _ PosInf \<longleftrightarrow> True"
| "ext_le PosInf _ \<longleftrightarrow> False"
| "ext_le _ NegInf \<longleftrightarrow> False"
| "ext_le x y \<longleftrightarrow> val x \<le> val y"

definition fle :: "f64 \<Rightarrow> f64 \<Rightarrow> bool" where
  "fle x y \<longleftrightarrow> ext_le x y"

definition flt :: "f64 \<Rightarrow> f64 \<Rightarrow> bool" where
  "flt x y \<longleftrightarrow> ext_le x y \<and> \<not> ext_le y x"

definition feq :: "f64 \<Rightarrow> f64 \<Rightarrow> bool" where
  "feq x y \<longleftrightarrow> ext_le x y \<and> ext_le y x"

lemma fle_fin [simp]: "isfinite x \<Longrightarrow> isfinite y \<Longrightarrow> fle x y \<longleftrightarrow> val x \<le> val y"
  by (cases x; cases y) (auto simp: fle_def)

lemma flt_fin [simp]: "isfinite x \<Longrightarrow> isfinite y \<Longrightarrow> flt x y \<longleftrightarrow> val x < val y"
  by (cases x; cases y) (auto simp: flt_def)

lemma feq_fin [simp]: "isfinite x \<Longrightarrow> isfinite y \<Longrightarrow> feq x y \<longleftrightarrow> val x = val y"
  by (cases x; cases y) (auto simp: feq_def)

text \<open>Python's \<open>max(a, b)\<close> and \<open>min(a, b)\<close>: the first argument unless the other beats it.\<close>

definition fmax :: "f64 \<Rightarrow> f64 \<Rightarrow> f64" where
  "fmax a b = (if flt a b then b else a)"

definition fmin :: "f64 \<Rightarrow> f64 \<Rightarrow> f64" where
  "fmin a b = (if flt b a then b else a)"

text \<open>\<open>math.copysign(1.0, x)\<close>.\<close>

definition sign1 :: "f64 \<Rightarrow> f64" where
  "sign1 x = (if signbit x then F (-1) else F 1)"

text \<open>\<open>math.ulp\<close>.\<close>

fun ulp :: "f64 \<Rightarrow> f64" where
  "ulp (F q) = (if q = 0 then F (2 powi (-1074)) else F (2 powi fexp \<bar>q\<bar>))"
| "ulp NegZero = F (2 powi (-1074))"
| "ulp NaN = NaN"
| "ulp _ = PosInf"

text \<open>The next smaller magnitude: \<open>math.nextafter(x, 0.0)\<close>.\<close>

definition pred_mag :: "rat \<Rightarrow> rat" where
  "pred_mag q = (if q \<le> 2 powi (-1022) then max 0 (q - 2 powi (-1074))
     else if q = 2 powi ilog 2 q then q - 2 powi (fexp q - 1)
     else q - 2 powi fexp q)"

fun toward_zero :: "f64 \<Rightarrow> f64" where
  "toward_zero (F q) =
     (if q = 0 then F 0
      else if 0 < q then F (pred_mag q)
      else if pred_mag (- q) = 0 then NegZero else F (- pred_mag (- q)))"
| "toward_zero NegZero = F 0"
| "toward_zero PosInf = F (rmag (max_f64 - 2 powi 970))"
| "toward_zero NegInf = F (- rmag (max_f64 - 2 powi 970))"
| "toward_zero NaN = NaN"

text \<open>\<open>math.isclose(a, b, rel_tol=0.0, abs_tol=t)\<close>.\<close>

definition isclose_abs :: "f64 \<Rightarrow> f64 \<Rightarrow> f64 \<Rightarrow> bool" where
  "isclose_abs a b t \<longleftrightarrow> feq a b \<or>
     (\<not> (a \<in> {PosInf, NegInf} \<or> b \<in> {PosInf, NegInf}) \<and>
      (fle (fabs (fsub b a)) (fabs (fmul (F 0) b)) \<or> fle (fabs (fsub b a)) (fabs (fmul (F 0) a)) \<or>
       fle (fabs (fsub b a)) t))"

text \<open>
  \<open>Fraction(str(x))\<close> for a finite \<open>x\<close>: the value of the decimal that \<open>str\<close> prints,
  and \<open>float(fraction)\<close>, which raises \<open>OverflowError\<close> past the largest float.
\<close>

definition dec_mag :: "rat \<Rightarrow> rat" where
  "dec_mag q = (if q = 0 then 0 else case shortest q of Some r \<Rightarrow> dec_value r | None \<Rightarrow> 0)"

fun dec_of_float :: "f64 \<Rightarrow> rat" where
  "dec_of_float (F q) = (if q < 0 then - dec_mag (- q) else dec_mag q)"
| "dec_of_float _ = 0"

definition float_of_fraction :: "rat \<Rightarrow> f64 res" where
  "float_of_fraction q = (let x = rnd q in
     if isfinite x then Inr x
     else Inl (Raise OverflowError ''integer division result too large for a float''))"

section \<open>Facts on float values\<close>

lemma max_f64_pos [simp]: "0 < max_f64"
  by (simp add: max_f64_def)

lemma rnd_0 [simp]: "rnd 0 = F 0"
  by (simp add: rnd_def rmag_def)

lemma rnd_is_f64 [simp]: "is_f64 (rnd q)"
  by (simp add: rnd_def Let_def)

lemma rnd_rep: "rep \<bar>q\<bar> \<Longrightarrow> \<bar>q\<bar> < max_f64 \<Longrightarrow> rnd q = F q"
  using rep_rmag [of "\<bar>q\<bar>"] by (auto simp: rnd_def Let_def)

lemma rnd_val: "is_f64 x \<Longrightarrow> isfinite x \<Longrightarrow> x \<noteq> NegZero \<Longrightarrow> rnd (val x) = x"
  by (cases x) (auto intro: rnd_rep)

lemma abs_val_rnd: "isfinite (rnd q) \<Longrightarrow> \<bar>val (rnd q)\<bar> = rmag \<bar>q\<bar>"
  using rmag_nonneg [of "\<bar>q\<bar>"] by (auto simp: rnd_def Let_def split: if_splits)

lemma val_rnd_nonneg: "0 \<le> q \<Longrightarrow> 0 \<le> val (rnd q)"
  by (simp add: rnd_def Let_def)

lemma val_rnd_nonpos: "q \<le> 0 \<Longrightarrow> val (rnd q) \<le> 0"
  by (cases "q = 0") (auto simp: rnd_def Let_def)

lemma rnd_mono: "p \<le> q \<Longrightarrow> fle (rnd p) (rnd q)"
proof -
  assume le: "p \<le> q"
  consider "0 \<le> p" | "p < 0" "0 \<le> q" | "q < 0" using le by linarith
  then show ?thesis
  proof cases
    case 1
    then have "rmag \<bar>p\<bar> \<le> rmag \<bar>q\<bar>" using le by (intro rmag_mono) simp
    then show ?thesis using 1 le by (auto simp: rnd_def Let_def fle_def)
  next
    case 2
    have "- rmag (- p) \<le> 0" "0 \<le> rmag q" by simp_all
    then have "- rmag (- p) \<le> rmag q" by linarith
    then show ?thesis using 2 by (auto simp: rnd_def Let_def fle_def)
  next
    case 3
    then have "rmag \<bar>q\<bar> \<le> rmag \<bar>p\<bar>" using le by (intro rmag_mono) simp
    moreover have "0 \<le> rmag \<bar>p\<bar>" "0 \<le> rmag \<bar>q\<bar>" by simp_all
    ultimately show ?thesis using 3 le by (auto simp: rnd_def Let_def fle_def)
  qed
qed

lemma val_rnd_mono:
  "p \<le> q \<Longrightarrow> isfinite (rnd p) \<Longrightarrow> isfinite (rnd q) \<Longrightarrow> val (rnd p) \<le> val (rnd q)"
  using rnd_mono [of p q] by simp

subsection \<open>Reading a printed float back\<close>

lemma dec_mag_reads_back: "rep q \<Longrightarrow> rmag (dec_mag q) = q"
proof (cases "q = 0")
  case False
  assume r: "rep q"
  with False have "0 < q" by (simp add: rep_def)
  with shortest_total [OF r] obtain s where "shortest q = Some s" by blast
  with False shortest_reads_back show ?thesis by (simp add: dec_mag_def)
qed (simp add: dec_mag_def rmag_def)

lemma dec_mag_nonneg: "rep q \<Longrightarrow> 0 \<le> dec_mag q"
  using dec_mag_reads_back [of q] by (cases "0 \<le> dec_mag q") (auto simp: rmag_def dec_mag_def)

lemma abs_dec_of_float: "is_f64 (F q) \<Longrightarrow> \<bar>dec_of_float (F q)\<bar> = dec_mag \<bar>q\<bar>"
  using dec_mag_nonneg [of "\<bar>q\<bar>"] by auto

lemma dec_of_float_sign:
  "is_f64 (F q) \<Longrightarrow> (0 \<le> q \<longrightarrow> 0 \<le> dec_of_float (F q)) \<and> (q < 0 \<longrightarrow> dec_of_float (F q) < 0)"
proof -
  assume a: "is_f64 (F q)"
  have "dec_mag (- q) \<noteq> 0" if "q < 0"
    using dec_mag_reads_back [of "- q"] a that by (auto simp: rmag_def)
  then show ?thesis using a dec_mag_nonneg [of "\<bar>q\<bar>"] by (auto simp: order.order_iff_strict)
qed

theorem rnd_dec_of_float:
  assumes "is_f64 x" and "isfinite x" and "x \<noteq> NegZero"
  shows "rnd (dec_of_float x) = x"
proof -
  obtain q where x: "x = F q" using assms by (cases x) auto
  have "rmag (dec_mag \<bar>q\<bar>) = \<bar>q\<bar>" using assms(1) by (intro dec_mag_reads_back) (simp add: x)
  moreover have "\<bar>dec_of_float (F q)\<bar> = dec_mag \<bar>q\<bar>" using abs_dec_of_float assms(1) x by blast
  ultimately show ?thesis
    using dec_of_float_sign [of q] assms(1) by (auto simp: x rnd_def Let_def)
qed

lemma dec_of_float_0_iff: "is_f64 x \<Longrightarrow> isfinite x \<Longrightarrow> dec_of_float x = 0 \<longleftrightarrow> val x = 0"
  by (metis dec_of_float.simps(1,2) dec_mag_def isfinite.elims(2) neg_equal_0_iff_equal
    rnd_0 rnd_dec_of_float f64.distinct(1) val.simps(1,2) less_irrefl)

subsection \<open>The next float towards zero\<close>

lemma pred_mag_bounds:
  assumes "0 < q" shows "0 \<le> pred_mag q \<and> (pred_mag q = 0 \<or> pred_mag q \<le> q - 2 powi (-1074))"
proof (cases "q \<le> 2 powi (-1022)")
  case False
  then have q: "2 powi (-1022) < q" by simp
  then have "(2::rat) powi (-1022) < 2 powi (ilog 2 q + 1)" using ilog2_bounds [OF assms] by linarith
  then have il: "-1022 \<le> ilog 2 q" using powi2_less by fastforce
  then have fx: "fexp q = ilog 2 q - 52" by (simp add: fexp_def)
  have step: "2 powi fexp q \<le> q"
  proof -
    have "(2::rat) powi fexp q \<le> 2 powi ilog 2 q" by (rule powi2_mono) (simp add: fx)
    then show ?thesis using ilog2_bounds [OF assms] by linarith
  qed
  show ?thesis
  proof (cases "q = 2 powi ilog 2 q")
    case True
    then have "ilog 2 q \<noteq> -1022" using q by auto
    then have "-1074 \<le> fexp q - 1" using il by (simp add: fx)
    then have "(2::rat) powi (-1074) \<le> 2 powi (fexp q - 1)" by (rule powi2_mono)
    moreover have "(2::rat) powi (fexp q - 1) \<le> 2 powi fexp q" by (rule powi2_mono) simp
    ultimately show ?thesis using step False True by (simp add: pred_mag_def)
  next
    case notpow: False
    have "(2::rat) powi (-1074) \<le> 2 powi fexp q" by (rule powi2_mono [OF fexp_ge])
    then show ?thesis using step False notpow by (simp add: pred_mag_def)
  qed
qed (auto simp: pred_mag_def max_def)

lemma pred_mag_less: "0 < q \<Longrightarrow> pred_mag q < q"
  using pred_mag_bounds [of q] powi2_pos [of "-1074"] by linarith

lemma pred_mag_rep: assumes q: "rep q" "0 < q" shows "rep (pred_mag q)"
proof -
  define f where "f = fexp q"
  obtain M where M: "q = of_int M * 2 powi f" "0 \<le> M" "M \<le> 2 ^ 53"
    using rmag_int [OF q(2)] rep_rmag [OF q(1)] unfolding f_def by metis
  have fge: "-1074 \<le> f" using fexp_ge by (simp add: f_def)
  have M0: "0 < M" using q(2) M by (simp add: zero_less_mult_iff)
  have dyad: "rep (of_int N * 2 powi e)" if "0 \<le> N" "N \<le> 2 ^ 53" "-1074 \<le> e" for N e
    using rmag_dyadic [OF that] that by (simp add: rep_def)
  have dec: "q - 2 powi f = of_int (M - 1) * 2 powi f"
    by (simp add: M(1) left_diff_distrib)
  show ?thesis
  proof (cases "q \<le> 2 powi (-1022)")
    case True
    then have "2 powi ilog 2 q \<le> (2::rat) powi (-1022)" using ilog2_bounds [OF q(2)] by linarith
    then have "ilog 2 q \<le> -1022" by (simp only: powi2_le_iff)
    then have f: "f = -1074" by (simp add: f_def fexp_def)
    have "0 \<le> q - 2 powi (-1074)" using dec M0 unfolding f by simp
    then have "pred_mag q = of_int (M - 1) * 2 powi (-1074)"
      using True dec by (simp add: pred_mag_def f)
    moreover have "rep (of_int (M - 1) * 2 powi (-1074))" by (rule dyad) (use M0 M(3) in auto)
    ultimately show ?thesis by metis
  next
    case False
    show ?thesis
    proof (cases "q = 2 powi ilog 2 q")
      case True
      then have "-1022 < ilog 2 q" using False powi2_mono [of "ilog 2 q" "-1022"] by force
      then have f: "f = ilog 2 q - 52" "-1074 \<le> f - 1" by (auto simp: f_def fexp_def)
      have "q = 2 ^ 53 * 2 powi (f - 1)"
        using True powi2_two(1) [of "f - 1"] by (simp add: f(1) algebra_simps)
      then have "pred_mag q = of_int (2 ^ 53 - 1) * 2 powi (f - 1)"
        using False True by (simp add: pred_mag_def f_def left_diff_distrib)
      then show ?thesis using dyad [of "2 ^ 53 - 1" "f - 1"] f(2) by simp
    next
      case np: False
      then have "pred_mag q = of_int (M - 1) * 2 powi f"
        using False dec by (simp add: pred_mag_def f_def)
      then show ?thesis using dyad [of "M - 1" f] M0 M(3) fge by simp
    qed
  qed
qed

lemma toward_zero_is_f64 [simp]: assumes "is_f64 x" "isfinite x" shows "is_f64 (toward_zero x) \<and> isfinite (toward_zero x)"
proof (cases x)
  case (F q)
  have "is_f64 (F (pred_mag \<bar>q\<bar>))" if "q \<noteq> 0"
    using pred_mag_rep [of "\<bar>q\<bar>"] pred_mag_less [of "\<bar>q\<bar>"] pred_mag_bounds [of "\<bar>q\<bar>"] assms that
    by (auto simp: F)
  then show ?thesis by (auto simp: F)
qed (use assms in auto)

subsection \<open>Rounding errors\<close>

lemma rmag_near:
  assumes "0 < q" and "q < 2 powi (k + 53)" and "-1074 \<le> k"
  shows "\<bar>rmag q - q\<bar> \<le> 2 powi k / 2"
proof -
  have "fexp q \<le> k"
  proof (rule ccontr)
    assume "\<not> fexp q \<le> k"
    then have "2 powi (fexp q + 52) \<le> q" using assms by (intro fexp_lower) simp_all
    then have "(2::rat) powi (fexp q + 52) < 2 powi (k + 53)" using assms(2) by (rule le_less_trans)
    then show False using \<open>\<not> fexp q \<le> k\<close> powi2_less by force
  qed
  then have "(2::rat) powi fexp q \<le> 2 powi k" by (rule powi2_mono)
  then show ?thesis using rmag_close [OF assms(1)] by linarith
qed

lemma rnd_near:
  assumes "0 \<le> q" and "q < 2 powi (k + 53)" and "-1074 \<le> k" and "k \<le> 900"
  shows "isfinite (rnd q) \<and> \<bar>val (rnd q) - q\<bar> \<le> 2 powi k / 2"
proof (cases "q = 0")
  case False
  then have q: "0 < q" using assms(1) by simp
  have near: "\<bar>rmag q - q\<bar> \<le> 2 powi k / 2" by (rule rmag_near [OF q assms(2,3)])
  have "(2::rat) powi k \<le> 2 powi 900" "(2::rat) powi (k + 53) \<le> 2 powi 953"
    using assms(4) by (intro powi2_mono; simp)+
  moreover have "(2::rat) powi 900 + 2 powi 953 < max_f64" by (simp add: max_f64_eq)
  ultimately have "rmag q < max_f64" using near assms(2) by linarith
  then show ?thesis using near q by (simp add: rnd_def)
qed simp

lemma fdiv_fin:
  assumes "isfinite x" "isfinite y" "val x \<noteq> 0" "val y \<noteq> 0"
  shows "fdiv x y = rnd (val x / val y)"
  using assms by (cases x; cases y) (simp_all add: fdiv_def)

lemma rnd_of_int: assumes "\<bar>n\<bar> \<le> 2 ^ 53" shows "rnd (of_int n) = F (of_int n)"
proof -
  have "rmag (of_int \<bar>n\<bar> * 2 powi 0) = of_int \<bar>n\<bar> * 2 powi 0" using assms by (intro rmag_dyadic) simp_all
  then have "rep \<bar>rat_of_int n\<bar>" unfolding rep_def by simp
  moreover have "rat_of_int \<bar>n\<bar> \<le> of_int (2 ^ 53)" using assms by (simp only: of_int_le_iff)
  then have "\<bar>rat_of_int n\<bar> < max_f64" by (simp add: max_f64_def)
  ultimately show ?thesis by (rule rnd_rep)
qed

section \<open>Evaluation of small integers\<close>

text \<open>
  Rounding, representability and the printed decimal are the identity on small integers: concrete
  inputs made of them are evaluated without computing exponents.
\<close>

definition small :: "rat \<Rightarrow> bool" where
  "small q = (case quotient_of q of (n, d) \<Rightarrow> d = 1 \<and> \<bar>n\<bar> \<le> 1125899906842624)"

lemma small_int: "small q \<Longrightarrow> \<exists>n. q = of_int n \<and> \<bar>n\<bar> \<le> 2 ^ 50"
  using quotient_of_div [of q] by (cases "quotient_of q") (auto simp: small_def)

lemma int_f64: assumes "\<bar>n\<bar> \<le> 2 ^ 53" shows "rep \<bar>of_int n\<bar>" "\<bar>rat_of_int n\<bar> < max_f64"
proof -
  have "is_f64 (F (of_int n))" using rnd_is_f64 [of "of_int n"] rnd_of_int [OF assms] by simp
  then show "rep \<bar>of_int n\<bar>" "\<bar>rat_of_int n\<bar> < max_f64" by simp_all
qed

lemma digits_search_at: "digits_search k n q = Some r \<Longrightarrow> \<exists>m. digits_at m q = Some r"
  by (induction k n q rule: digits_search.induct) (auto split: option.splits)

lemma digits_at_int:
  assumes "digits_at m (of_int n) = Some (c, j)" and n: "0 < n" "n \<le> 2 ^ 50"
  shows "dec_value (c, j) = of_int n"
proof (cases "0 \<le> j")
  case True
  define v where "v = c * 10 ^ nat j"
  have v: "dec_value (c, j) = of_int v" using True by (simp add: dec_value_def v_def power_int_def)
  have r: "rmag (of_int v) = of_int n" using digits_at_value [OF assms(1)] v by simp
  have "v \<le> 2 ^ 53"
  proof (rule ccontr)
    assume "\<not> v \<le> 2 ^ 53"
    then have "rat_of_int (2 ^ 53) \<le> of_int v" by (simp only: of_int_le_iff)
    then have "rmag (rat_of_int (2 ^ 53)) \<le> rmag (of_int v)" by (rule rmag_mono)
    also have "rmag (rat_of_int (2 ^ 53)) = of_int (2 ^ 53)" using int_f64(1) [of "2 ^ 53"] by (simp add: rep_rmag)
    finally have "rat_of_int (2 ^ 53) \<le> of_int n" by (simp only: r)
    then have "(2::int) ^ 53 \<le> n" by (simp only: of_int_le_iff)
    then show False using n by simp
  qed
  moreover have "0 \<le> v"
  proof (rule ccontr)
    assume "\<not> 0 \<le> v"
    then show False using r n by (auto simp: rmag_def)
  qed
  ultimately have "rmag (of_int v) = of_int v" using int_f64(1) [of v] by (intro rep_rmag) simp
  then show ?thesis using r v by simp
next
  case False
  define s N where "s = (10::rat) powi j" and "N = n * 10 ^ nat (- j)"
  have s: "of_int n / s = of_int N" "s \<noteq> 0"
    using False by (simp_all add: s_def N_def power_int_def inverse_eq_divide power_one_over)
  then have N: "of_int N * s = of_int n" by (metis nonzero_divide_eq_eq)
  have j: "ilog 10 (of_int n) - int m + 1 = j" using assms(1)
    by (auto simp: digits_at_def Let_def split: if_splits)
  have "rmag (of_int n) = of_int n" using n int_f64(1) [of n] by (intro rep_rmag) simp
  then have "c = N" using assms(1)
    unfolding digits_at_def j Let_def s_def [symmetric] s(1) floor_of_int rne_of_int N by (auto split: if_splits)
  then show ?thesis using N by (simp add: dec_value_def s_def)
qed

lemma dec_mag_int: assumes "0 \<le> n" "n \<le> 2 ^ 50" shows "dec_mag (of_int n) = of_int n"
proof (cases "n = 0")
  case False
  then have "rep (of_int n)" "(0::rat) < of_int n" using assms int_f64(1) [of n] by simp_all
  then obtain c j where r: "shortest (of_int n) = Some (c, j)" using shortest_total by fast
  then obtain m where "digits_at m (of_int n) = Some (c, j)" unfolding shortest_def using digits_search_at by blast
  from digits_at_int [OF this] show ?thesis using r assms False by (simp add: dec_mag_def)
qed (simp add: dec_mag_def)

lemma small_numeral [f64_eval]:
  "small 0" "small 1" "small (- 1)"
  "small (numeral k) \<longleftrightarrow> numeral k \<le> (1125899906842624 :: int)"
  "small (- numeral k) \<longleftrightarrow> numeral k \<le> (1125899906842624 :: int)"
  by (simp_all add: small_def)

lemma small_f64 [f64_eval]:
  "small q \<Longrightarrow> rnd q = F q" "small q \<Longrightarrow> is_f64 (F q) = True" "small q \<Longrightarrow> dec_of_float (F q) = q"
proof -
  assume "small q"
  then obtain n where n: "q = of_int n" "\<bar>n\<bar> \<le> 2 ^ 50" using small_int by blast
  then have "\<bar>n\<bar> \<le> 2 ^ 53" by simp
  with n show "rnd q = F q" "is_f64 (F q) = True" using int_f64 rnd_of_int by simp_all
  show "dec_of_float (F q) = q" using n dec_mag_int [of n] dec_mag_int [of "- n"] by (cases "n < 0") simp_all
qed

lemma small_nonneg [f64_eval]:
  assumes "small q" shows "0 \<le> q \<Longrightarrow> dec_mag q = q" "0 \<le> q \<Longrightarrow> rep q = True" "(q < max_f64) = True"
proof -
  obtain n where n: "q = of_int n" "\<bar>n\<bar> \<le> 2 ^ 50" using assms small_int by blast
  then have f: "rep \<bar>q\<bar>" "\<bar>q\<bar> < max_f64" using int_f64 [of n] by simp_all
  then show "0 \<le> q \<Longrightarrow> rep q = True" "(q < max_f64) = True" by simp_all
  show "0 \<le> q \<Longrightarrow> dec_mag q = q" using n dec_mag_int [of n] by simp
qed

lemma float_ops_F [f64_eval]:
  "fadd (F a) (F b) = rnd (a + b)" "fsub (F a) (F b) = rnd (a - b)"
  "a \<noteq> 0 \<Longrightarrow> b \<noteq> 0 \<Longrightarrow> fmul (F a) (F b) = rnd (a * b)"
  "0 \<le> a \<Longrightarrow> fmul (F a) (F 0) = F 0" "0 \<le> a \<Longrightarrow> fmul (F 0) (F a) = F 0"
  "a \<noteq> 0 \<Longrightarrow> b \<noteq> 0 \<Longrightarrow> fdiv (F a) (F b) = rnd (a / b)"
  "fmax (F a) (F b) = (if a < b then F b else F a)" "fmin (F a) (F b) = (if b < a then F b else F a)"
  by (auto simp: fadd_def fsub_def fmul_def fdiv_def fmax_def fmin_def signed_zero_def Let_def)


text \<open>An offset of at most a half, such as the quantity tolerance, does not reach the next integer.\<close>

lemma half_rep: assumes "\<bar>n\<bar> \<le> 2 ^ 50" shows "rep \<bar>of_int n + 1 / 2\<bar>" "\<bar>rat_of_int n + 1 / 2\<bar> < max_f64"
proof -
  let ?M = "\<bar>2 * n + 1\<bar>"
  have v: "\<bar>rat_of_int n + 1 / 2\<bar> = of_int ?M * 2 powi (- 1)"
  proof -
    have "rat_of_int n + 1 / 2 = of_int (2 * n + 1) * (1 / 2)" by (simp add: field_simps)
    then show ?thesis by (simp only: abs_mult of_int_abs) simp
  qed
  have "rmag (of_int ?M * 2 powi (- 1)) = of_int ?M * 2 powi (- 1)" using assms by (intro rmag_dyadic) simp_all
  then show "rep \<bar>of_int n + 1 / 2\<bar>" unfolding Float64.rep_def v [symmetric] by simp
  have "\<bar>rat_of_int n\<bar> \<le> of_int (2 ^ 50)" using assms by (simp only: of_int_le_iff flip: of_int_abs)
  then show "\<bar>rat_of_int n + 1 / 2\<bar> < max_f64" by (simp add: max_f64_def)
qed

lemma half_plus: "small q \<Longrightarrow> rnd (q + 1 / 2) = F (q + 1 / 2)"
  using small_int [of q] half_rep by (auto intro: rnd_rep)

lemma plus_tolerance:
  assumes "small a" and "0 < t" "t \<le> 1 / 2"
  shows "isfinite (rnd (a + t)) \<and> a \<le> val (rnd (a + t)) \<and> val (rnd (a + t)) \<le> a + 1 / 2"
proof -
  have "fle (rnd a) (rnd (a + t))" "fle (rnd (a + t)) (rnd (a + 1 / 2))" using assms(2,3) by (auto intro: rnd_mono)
  then have r: "fle (F a) (rnd (a + t))" "fle (rnd (a + t)) (F (a + 1 / 2))"
    by (simp_all add: small_f64(1) [OF assms(1)] half_plus [OF assms(1)])
  then show ?thesis by (cases "rnd (a + t)") (auto simp: fle_def)
qed

lemma minus_tolerance:
  assumes "small a" and "0 < t" "t \<le> 1 / 2"
  shows "isfinite (rnd (a - t)) \<and> a - 1 / 2 \<le> val (rnd (a - t)) \<and> val (rnd (a - t)) \<le> a"
proof -
  have "rnd (a - 1 / 2) = F (a - 1 / 2)"
  proof -
    obtain n where n: "a = of_int n" "\<bar>n\<bar> \<le> 2 ^ 50" using assms(1) small_int by blast
    have "rnd (- (- a + 1 / 2)) = F (- (- a + 1 / 2))"
      using half_rep [of "- n"] n by (intro rnd_rep) (simp_all add: abs_minus_commute [of "1 / 2"])
    then show ?thesis by simp
  qed
  moreover have "fle (rnd (a - t)) (rnd a)" "fle (rnd (a - 1 / 2)) (rnd (a - t))" using assms(2,3) by (auto intro: rnd_mono)
  ultimately have r: "fle (rnd (a - t)) (F a)" "fle (F (a - 1 / 2)) (rnd (a - t))"
    by (simp_all add: small_f64(1) [OF assms(1)])
  then show ?thesis by (cases "rnd (a - t)") (auto simp: fle_def)
qed

lemma small_less: "small a \<Longrightarrow> small b \<Longrightarrow> a < b \<Longrightarrow> a + 1 / 2 < b"
proof -
  assume "small a" "small b" and less: "a < b"
  then obtain m n where i: "a = of_int m" "b = of_int n" using small_int by blast
  then have "m + 1 \<le> n" using less by simp
  then have "of_int (m + 1) \<le> b" using i by (simp only: of_int_le_iff)
  then show ?thesis using i by simp
qed

end
