(* ===== verification/Text.thy ===== *)
theory Text
  imports Prelude Complex_Main
begin

text \<open>
  Python strings as the program uses them, and the printed forms of integers and
  fractions.  A character stands for the code point of its number, so strings are those
  over the code points 0 to 255; \<open>str.strip\<close> removes the white space of that range.

  The main fact is that \<open>str(Fraction)\<close> reads back: \<open>parse_fraction\<close> of a printed
  fraction is the fraction.
\<close>

section \<open>Characters\<close>

definition code :: "char \<Rightarrow> int" where
  "code c = of_char c"

definition is_digit :: "char \<Rightarrow> bool" where
  "is_digit c \<longleftrightarrow> 48 \<le> code c \<and> code c \<le> 57"

definition is_lower_hex :: "char \<Rightarrow> bool" where
  "is_lower_hex c \<longleftrightarrow> is_digit c \<or> 97 \<le> code c \<and> code c \<le> 102"

definition is_lower :: "char \<Rightarrow> bool" where
  "is_lower c \<longleftrightarrow> 97 \<le> code c \<and> code c \<le> 122"

definition is_upper :: "char \<Rightarrow> bool" where
  "is_upper c \<longleftrightarrow> 65 \<le> code c \<and> code c \<le> 90"

definition is_alnum :: "char \<Rightarrow> bool" where
  "is_alnum c \<longleftrightarrow> is_digit c \<or> is_lower c \<or> is_upper c"

definition is_space :: "char \<Rightarrow> bool" where
  "is_space c \<longleftrightarrow> 9 \<le> code c \<and> code c \<le> 13 \<or> 28 \<le> code c \<and> code c \<le> 32 \<or>
     code c = 133 \<or> code c = 160"

section \<open>String methods\<close>

definition lstrip :: "string \<Rightarrow> string" where
  "lstrip s = dropWhile is_space s"

definition rstrip :: "string \<Rightarrow> string" where
  "rstrip s = rev (dropWhile is_space (rev s))"

definition strip :: "string \<Rightarrow> string" where
  "strip s = rstrip (lstrip s)"

lemma dropWhile_rev_Nil: "dropWhile P (rev xs) = [] \<longleftrightarrow> (\<forall>x \<in> set xs. P x)"
  by (simp add: dropWhile_eq_Nil_conv)

lemma strip_Nil_iff: "strip s = [] \<longleftrightarrow> (\<forall>c \<in> set s. is_space c)"
proof -
  have "(\<forall>c \<in> set (dropWhile is_space s). is_space c) \<longleftrightarrow> (\<forall>c \<in> set s. is_space c)"
  proof
    assume a: "\<forall>c \<in> set (dropWhile is_space s). is_space c"
    have "dropWhile is_space s = []"
    proof (rule ccontr)
      assume n: "dropWhile is_space s \<noteq> []"
      then have "\<not> is_space (hd (dropWhile is_space s))" by (rule hd_dropWhile)
      with a n show False by simp
    qed
    then show "\<forall>c \<in> set s. is_space c" by (simp add: dropWhile_eq_Nil_conv)
  qed (metis set_dropWhileD)
  then show ?thesis by (simp add: strip_def rstrip_def lstrip_def dropWhile_eq_Nil_conv)
qed

text \<open>\<open>not value.strip()\<close>: nothing is left of the text.\<close>

definition blank :: "string \<Rightarrow> bool" where
  "blank s \<longleftrightarrow> list_all is_space s"

lemma blank_strip: "blank s \<longleftrightarrow> strip s = []"
  by (simp add: blank_def strip_Nil_iff list_all_iff)

fun starts_with :: "string \<Rightarrow> string \<Rightarrow> bool" where
  "starts_with s [] \<longleftrightarrow> True"
| "starts_with [] (c # cs) \<longleftrightarrow> False"
| "starts_with (d # s) (c # cs) \<longleftrightarrow> d = c \<and> starts_with s cs"

lemma starts_with_iff: "starts_with s p \<longleftrightarrow> (\<exists>t. s = p @ t)"
  by (induction s p rule: starts_with.induct) auto

section \<open>Printed integers\<close>

definition digit_char :: "int \<Rightarrow> char" where
  "digit_char d = ''0123456789'' ! nat d"

function nat_str :: "int \<Rightarrow> string" where
  "nat_str n = (if n < 10 then [digit_char n] else nat_str (n div 10) @ [digit_char (n mod 10)])"
  by pat_completeness auto
termination
  by (relation "measure nat") (auto simp: nat_less_eq_zless)

declare nat_str.simps [simp del]

definition int_str :: "int \<Rightarrow> string" where
  "int_str n = (if n < 0 then CHR ''-'' # nat_str (- n) else nat_str n)"

fun parse_digits :: "int \<Rightarrow> string \<Rightarrow> int option" where
  "parse_digits acc [] = Some acc"
| "parse_digits acc (c # cs) =
     (if is_digit c then parse_digits (10 * acc + (code c - 48)) cs else None)"

definition parse_nat :: "string \<Rightarrow> int option" where
  "parse_nat s = (if s = [] then None else parse_digits 0 s)"

lemma int_below_ten:
  assumes "0 \<le> d" and "d < (10::int)"
  shows "d \<in> {0, 1, 2, 3, 4, 5, 6, 7, 8, 9}"
  using assms by (simp only: insert_iff empty_iff) presburger

lemma digit_char_code:
  assumes "0 \<le> d" "d < 10"
  shows "is_digit (digit_char d) \<and> code (digit_char d) - 48 = d"
  using int_below_ten [OF assms] by (auto simp: digit_char_def is_digit_def code_def)

lemma parse_digits_append:
  "parse_digits acc (s @ t) = Option.bind (parse_digits acc s) (\<lambda>a. parse_digits a t)"
  by (induction acc s rule: parse_digits.induct) auto

lemma parse_digits_nat_str: "0 \<le> n \<Longrightarrow> parse_digits 0 (nat_str n) = Some n"
proof (induction n rule: nat_str.induct)
  case (1 n)
  show ?case
  proof (cases "n < 10")
    case True
    then show ?thesis using 1 digit_char_code [of n] by (subst nat_str.simps) simp
  next
    case False
    then have IH: "parse_digits 0 (nat_str (n div 10)) = Some (n div 10)"
      using 1 by (simp add: pos_imp_zdiv_nonneg_iff)
    have d: "is_digit (digit_char (n mod 10))" "code (digit_char (n mod 10)) - 48 = n mod 10"
      using digit_char_code [of "n mod 10"] by auto
    have "parse_digits 0 (nat_str n) = Some (10 * (n div 10) + n mod 10)"
      using False d by (subst nat_str.simps) (simp add: parse_digits_append IH)
    then show ?thesis by simp
  qed
qed

lemma nat_str_not_Nil [simp]: "nat_str n \<noteq> []"
  by (subst nat_str.simps) simp

lemma parse_nat_str: "0 \<le> n \<Longrightarrow> parse_nat (nat_str n) = Some n"
  by (simp add: parse_nat_def parse_digits_nat_str)

lemma nat_str_digits: "0 \<le> n \<Longrightarrow> \<forall>c \<in> set (nat_str n). is_digit c"
proof (induction n rule: nat_str.induct)
  case (1 n)
  show ?case
  proof (cases "n < 10")
    case True
    then show ?thesis using 1 digit_char_code [of n] by (subst nat_str.simps) simp
  next
    case False
    then have "\<forall>c \<in> set (nat_str (n div 10)). is_digit c"
      using 1 by (simp add: pos_imp_zdiv_nonneg_iff)
    moreover have "is_digit (digit_char (n mod 10))" using digit_char_code [of "n mod 10"] by simp
    ultimately show ?thesis using False by (subst nat_str.simps) simp
  qed
qed

definition parse_int :: "string \<Rightarrow> int option" where
  "parse_int s = (case s of
      [] \<Rightarrow> None
    | c # cs \<Rightarrow> if c = CHR ''-'' then map_option uminus (parse_nat cs) else parse_nat s)"

lemma minus_not_digit: "\<not> is_digit (CHR ''-'')"
  by (simp add: is_digit_def code_def)

lemma slash_not_digit: "\<not> is_digit (CHR ''/'')"
  by (simp add: is_digit_def code_def)

lemma parse_int_str: "parse_int (int_str n) = Some n"
proof (cases "n < 0")
  case True
  then show ?thesis by (simp add: int_str_def parse_int_def parse_nat_str)
next
  case False
  then have "hd (nat_str n) \<noteq> CHR ''-''"
    using nat_str_digits [of n] minus_not_digit by (metis hd_in_set nat_str_not_Nil not_less)
  then show ?thesis using False parse_nat_str [of n]
    by (auto simp: int_str_def parse_int_def split: list.split)
qed

lemma int_str_inj: "int_str m = int_str n \<Longrightarrow> m = n"
  by (metis parse_int_str option.inject)

section \<open>Printed fractions\<close>

text \<open>
  \<open>str(Fraction)\<close>: the numerator, and the denominator after a slash unless it is 1.
  \<open>parse_fraction\<close> reads that form and no other spelling that \<open>Fraction(str)\<close>
  accepts; its only user rejects every other spelling.
\<close>

definition fraction_str :: "rat \<Rightarrow> string" where
  "fraction_str q = (case quotient_of q of (n, d) \<Rightarrow>
     if d = 1 then int_str n else int_str n @ ''/'' @ int_str d)"

definition parse_fraction :: "string \<Rightarrow> rat option" where
  "parse_fraction s =
     (let num = takeWhile (\<lambda>c. c \<noteq> CHR ''/'') s; rest = dropWhile (\<lambda>c. c \<noteq> CHR ''/'') s in
      case parse_int num of
        None \<Rightarrow> None
      | Some n \<Rightarrow> (case rest of
            [] \<Rightarrow> Some (of_int n)
          | _ # den \<Rightarrow> (case parse_nat den of
                None \<Rightarrow> None
              | Some d \<Rightarrow> if d = 0 then None else Some (of_int n / of_int d))))"

lemma int_str_no_slash: "CHR ''/'' \<notin> set (int_str n)"
  using nat_str_digits [of n] nat_str_digits [of "- n"] slash_not_digit
  by (auto simp: int_str_def)

lemma takeWhile_no_slash:
  "CHR ''/'' \<notin> set s \<Longrightarrow> takeWhile (\<lambda>c. c \<noteq> CHR ''/'') (s @ ''/'' @ t) = s"
  "CHR ''/'' \<notin> set s \<Longrightarrow> dropWhile (\<lambda>c. c \<noteq> CHR ''/'') (s @ ''/'' @ t) = CHR ''/'' # t"
  by (induction s) auto

theorem parse_fraction_str: "parse_fraction (fraction_str q) = Some q"
proof -
  obtain n d where nd: "quotient_of q = (n, d)" by force
  have d: "0 < d" and q: "q = of_int n / of_int d"
    using quotient_of_denom_pos [OF nd] quotient_of_div [OF nd] by auto
  show ?thesis
  proof (cases "d = 1")
    case True
    have tw: "takeWhile (\<lambda>c. c \<noteq> CHR ''/'') (int_str n) = int_str n"
      and dw: "dropWhile (\<lambda>c. c \<noteq> CHR ''/'') (int_str n) = []"
      using int_str_no_slash [of n] by (auto simp: takeWhile_eq_all_conv dropWhile_eq_Nil_conv)
    have fs: "fraction_str q = int_str n" by (simp add: fraction_str_def nd True)
    show ?thesis unfolding parse_fraction_def fs Let_def tw dw parse_int_str by (simp add: q True)
  next
    case False
    have "parse_nat (int_str d) = Some d" using d by (simp add: int_str_def parse_nat_str)
    moreover have fs: "fraction_str q = int_str n @ ''/'' @ int_str d"
      by (simp add: fraction_str_def nd False)
    ultimately show ?thesis using d
      unfolding parse_fraction_def fs Let_def takeWhile_no_slash [OF int_str_no_slash] parse_int_str
      by (simp add: q)
  qed
qed

lemma fraction_str_inj [simp]: "fraction_str p = fraction_str q \<longleftrightarrow> p = q"
  by (metis parse_fraction_str option.inject)

end
