(* ===== verification/Quantities.thy ===== *)
theory Quantities
  imports Float64 Text
begin

text \<open>
  \<open>trade_rl/simulation/quantities.py\<close>: exact decimal quantities and their conservative
  projection to floats.  A Python \<open>Fraction\<close> is a \<open>rat\<close>.  The caches of the source
  (\<open>lru_cache\<close>) change no result and are not modelled.

  The lemmas show that a float survives the trip through its exact decimal, that a
  projection never exceeds the exact magnitude, and that the loop that guarantees this
  takes at most one step.
\<close>

section \<open>Operations\<close>

definition exact_quantity :: "f64 \<Rightarrow> rat res" where
  "exact_quantity x = (if isfinite x then Inr (dec_of_float x)
     else Inl (value_error ''quantity must be finite''))"

text \<open>The loop \<open>while abs(exact_quantity(result)) > abs(value): result = nextafter(result, 0.0)\<close>.\<close>

lemma toward_zero_measure:
  assumes "\<bar>dec_of_float x\<bar> > \<bar>v\<bar>"
  shows "nat \<lceil>\<bar>val (toward_zero x)\<bar> * 2 powi 1074\<rceil> < nat \<lceil>\<bar>val x\<bar> * 2 powi 1074\<rceil>"
proof -
  obtain q where x: "x = F q" and q: "q \<noteq> 0"
  proof (cases x)
    case (F q)
    then show ?thesis using assms that by (cases "q = 0") (auto simp: dec_mag_def)
  qed (use assms in auto)
  have a: "0 < \<bar>q\<bar>" using q by simp
  have vt: "\<bar>val (toward_zero x)\<bar> = pred_mag \<bar>q\<bar>"
    using pred_mag_bounds [of "\<bar>q\<bar>"] q by (auto simp: x)
  have unit: "2 powi (-1074) * 2 powi 1074 = (1::rat)"
    by (simp only: powi2_add [symmetric]) simp
  have pos: "0 < \<lceil>\<bar>q\<bar> * 2 powi 1074\<rceil>" using a by (simp only: zero_less_ceiling zero_less_mult_iff powi2_pos) simp
  consider "pred_mag \<bar>q\<bar> = 0" | "pred_mag \<bar>q\<bar> \<le> \<bar>q\<bar> - 2 powi (-1074)"
    using pred_mag_bounds [OF a] by blast
  then have "\<lceil>pred_mag \<bar>q\<bar> * 2 powi 1074\<rceil> < \<lceil>\<bar>q\<bar> * 2 powi 1074\<rceil>"
  proof cases
    case 1 then show ?thesis using pos by simp
  next
    case 2
    have "pred_mag \<bar>q\<bar> * 2 powi 1074 \<le> (\<bar>q\<bar> - 2 powi (-1074)) * 2 powi 1074"
      using 2 by (rule mult_right_mono) (rule less_imp_le [OF powi2_pos])
    also have "\<dots> = \<bar>q\<bar> * 2 powi 1074 - 1" by (simp only: left_diff_distrib unit)
    finally show ?thesis by linarith
  qed
  then show ?thesis using pos by (simp add: vt) (simp add: x)
qed

function project_loop :: "rat \<Rightarrow> f64 \<Rightarrow> f64" where
  "project_loop v x = (if \<bar>dec_of_float x\<bar> > \<bar>v\<bar> then project_loop v (toward_zero x) else x)"
  by pat_completeness auto
termination
  by (relation "measure (\<lambda>(v, x). nat \<lceil>\<bar>val x\<bar> * 2 powi 1074\<rceil>)")
     (simp, simp only: in_measure prod.case toward_zero_measure)

declare project_loop.simps [simp del]

definition project_quantity :: "rat \<Rightarrow> f64 res" where
  "project_quantity v = (case float_of_fraction v of
      Inl e \<Rightarrow> Inl (value_error ''quantity is outside finite float range'')
    | Inr x \<Rightarrow> if isfinite x then Inr (project_loop v x)
              else Inl (value_error ''quantity is outside finite float range''))"

definition parse_quantity :: "string \<Rightarrow> rat res" where
  "parse_quantity s = (case parse_fraction s of
      None \<Rightarrow> Inl (value_error ''invalid exact quantity'')
    | Some q \<Rightarrow> if fraction_str q \<noteq> s then Inl (value_error ''exact quantity must be canonical'')
               else bindr (project_quantity q) (\<lambda>_. Inr q))"

definition quantize_quantity :: "f64 \<Rightarrow> f64 \<Rightarrow> (f64 \<times> int option) res" where
  "quantize_quantity x lot_size =
     bindr (exact_quantity x) (\<lambda>quantity.
     bindr (exact_quantity lot_size) (\<lambda>step.
     if step < 0 then Inl (value_error ''lot size must be non-negative'')
     else if step = 0 then Inr (x, None)
     else (let count = \<lfloor>\<bar>quantity\<bar> / step\<rfloor> * (if quantity < 0 then -1 else 1)
           in bindr (project_quantity (of_int count * step)) (\<lambda>p. Inr (p, Some count)))))"

definition accepted_fill_quantity :: "f64 \<Rightarrow> f64 \<Rightarrow> int option \<Rightarrow> rat res" where
  "accepted_fill_quantity quantity lot_size lot_count =
     bindr (exact_quantity quantity) (\<lambda>v.
     case lot_count of
       None \<Rightarrow> if \<not> feq lot_size (F 0) then Inl (value_error ''quantized fill requires its lot count'')
               else Inr v
     | Some n \<Rightarrow>
         if n = 0 then Inl (value_error ''filled lot count must be a nonzero integer'')
         else bindr (exact_quantity lot_size) (\<lambda>step.
           if step \<le> 0 then Inl (value_error ''quantized fill requires a positive lot size'')
           else (let exact = of_int n * step in
             bindr (project_quantity exact) (\<lambda>p.
               if \<not> feq p quantity
               then Inl (value_error ''fill quantity differs from its exact lot evidence'')
               else Inr exact))))"

section \<open>The projection\<close>

lemma project_loop_le: "\<bar>dec_of_float (project_loop v x)\<bar> \<le> \<bar>v\<bar>"
proof (induction v x rule: project_loop.induct)
  case (1 v x)
  then show ?case by (cases "\<bar>dec_of_float x\<bar> > \<bar>v\<bar>") (simp_all add: project_loop.simps [of v x])
qed

lemma project_loop_stop: "\<bar>dec_of_float x\<bar> \<le> \<bar>v\<bar> \<Longrightarrow> project_loop v x = x"
  by (simp add: project_loop.simps [of v x])

lemma project_loop_is_f64:
  "is_f64 x \<Longrightarrow> isfinite x \<Longrightarrow> is_f64 (project_loop v x) \<and> isfinite (project_loop v x)"
proof (induction v x rule: project_loop.induct)
  case (1 v x)
  then show ?case using toward_zero_is_f64 [of x]
    by (cases "\<bar>dec_of_float x\<bar> > \<bar>v\<bar>") (simp_all add: project_loop.simps [of v x])
qed

text \<open>One step towards zero is enough: the decimal of the smaller float rounds to that float.\<close>

lemma dec_toward_zero_le:
  assumes x: "rnd v = x" "isfinite x" and over: "\<bar>v\<bar> < \<bar>dec_of_float x\<bar>"
  shows "\<bar>dec_of_float (toward_zero x)\<bar> \<le> \<bar>v\<bar>"
proof (rule ccontr)
  assume "\<not> ?thesis"
  then have gt: "\<bar>v\<bar> < \<bar>dec_of_float (toward_zero x)\<bar>" by simp
  obtain q where xq: "x = F q" and q: "q \<noteq> 0"
  proof (cases x)
    case (F q)
    then show ?thesis using over that by (cases "q = 0") (auto simp: dec_mag_def)
  qed (use over in auto)
  have fq: "is_f64 (F q)" using rnd_is_f64 [of v] by (simp add: x(1) xq)
  have ax: "rmag \<bar>v\<bar> = \<bar>q\<bar>" using abs_val_rnd [of v] x by (simp add: xq)
  let ?p = "pred_mag \<bar>q\<bar>"
  have rp: "rep ?p" using fq q by (intro pred_mag_rep) auto
  have lt: "?p < \<bar>q\<bar>" using q by (intro pred_mag_less) simp
  have "\<bar>dec_of_float (toward_zero x)\<bar> = dec_mag ?p"
    using q dec_mag_nonneg [OF rp] rp pred_mag_bounds [of "\<bar>q\<bar>"]
    by (auto simp: xq dec_mag_def)
  with gt have "\<bar>v\<bar> \<le> dec_mag ?p" by simp
  then have "rmag \<bar>v\<bar> \<le> rmag (dec_mag ?p)" by (rule rmag_mono)
  also have "\<dots> = ?p" by (rule dec_mag_reads_back [OF rp])
  finally show False using lt ax by simp
qed

lemma project_loop_steps:
  assumes "rnd v = x" and "isfinite x"
  shows "project_loop v x \<in> {x, toward_zero x}"
proof (cases "\<bar>dec_of_float x\<bar> > \<bar>v\<bar>")
  case True
  then have "project_loop v (toward_zero x) = toward_zero x"
    using dec_toward_zero_le [OF assms] by (intro project_loop_stop)
  then show ?thesis using True by (simp add: project_loop.simps [of v x])
qed (simp add: project_loop_stop)

lemma project_quantity_Inr:
  "project_quantity v = Inr r \<longleftrightarrow> isfinite (rnd v) \<and> r = project_loop v (rnd v)"
  by (auto simp: project_quantity_def float_of_fraction_def Let_def)

lemma project_quantity_le: "project_quantity v = Inr r \<Longrightarrow> \<bar>dec_of_float r\<bar> \<le> \<bar>v\<bar>"
  by (auto simp: project_quantity_Inr project_loop_le)

lemma project_quantity_f64: "project_quantity v = Inr r \<Longrightarrow> is_f64 r \<and> isfinite r"
  by (auto simp: project_quantity_Inr project_loop_is_f64)

lemma project_quantity_0 [simp]: "project_quantity 0 = Inr (F 0)"
proof -
  have "project_loop 0 (F 0) = F 0" by (rule project_loop_stop) (simp add: dec_mag_def)
  then show ?thesis by (simp add: project_quantity_Inr)
qed

lemma project_dec_of_float:
  assumes "is_f64 x" "isfinite x" "x \<noteq> NegZero"
  shows "project_quantity (dec_of_float x) = Inr x"
  using rnd_dec_of_float [OF assms] assms(2) project_loop_stop [of x "dec_of_float x"]
  by (simp add: project_quantity_Inr)

lemma exact_quantity_Inr [res_iff]: "exact_quantity x = Inr q \<longleftrightarrow> isfinite x \<and> q = dec_of_float x"
  by (auto simp: exact_quantity_def)

lemma toward_zero_sign:
  "isfinite x \<Longrightarrow> (0 \<le> val x \<longrightarrow> 0 \<le> val (toward_zero x)) \<and> (val x \<le> 0 \<longrightarrow> val (toward_zero x) \<le> 0)"
proof (cases x)
  case (F q)
  then show ?thesis using pred_mag_bounds [of "\<bar>q\<bar>"] by auto
qed auto

lemma project_quantity_sign:
  assumes "project_quantity v = Inr r"
  shows "(0 \<le> v \<longrightarrow> 0 \<le> val r) \<and> (v \<le> 0 \<longrightarrow> val r \<le> 0)"
proof -
  from assms have fin: "isfinite (rnd v)" and "r = project_loop v (rnd v)"
    by (auto simp: project_quantity_Inr)
  then have "r = rnd v \<or> r = toward_zero (rnd v)" using project_loop_steps [OF refl fin] by simp
  then show ?thesis using toward_zero_sign [OF fin] val_rnd_nonneg [of v] val_rnd_nonpos [of v] by auto
qed

section \<open>Quantity text and lots\<close>

lemma parse_quantity_Inr [res_iff]:
  "parse_quantity s = Inr q \<longleftrightarrow> s = fraction_str q \<and> (\<exists>r. project_quantity q = Inr r)"
proof
  assume "parse_quantity s = Inr q"
  then show "s = fraction_str q \<and> (\<exists>r. project_quantity q = Inr r)"
    by (auto simp: parse_quantity_def res_iff split: option.splits if_splits)
next
  assume "s = fraction_str q \<and> (\<exists>r. project_quantity q = Inr r)"
  then show "parse_quantity s = Inr q"
    by (auto simp: parse_quantity_def parse_fraction_str)
qed

lemma quantize_count:
  assumes "quantize_quantity x lot = Inr (p, Some n)"
  shows "0 < dec_of_float lot"
    and "\<bar>of_int n * dec_of_float lot\<bar> \<le> \<bar>dec_of_float x\<bar>"
    and "\<bar>dec_of_float x\<bar> < \<bar>of_int n * dec_of_float lot\<bar> + dec_of_float lot"
    and "of_int n * dec_of_float lot * dec_of_float x \<ge> 0"
    and "project_quantity (of_int n * dec_of_float lot) = Inr p"
proof -
  let ?s = "dec_of_float lot" and ?q = "dec_of_float x"
  define k where "k = \<lfloor>\<bar>?q\<bar> / ?s\<rfloor>"
  from assms have s: "0 < ?s" and n: "n = k * (if ?q < 0 then -1 else 1)"
    and pr: "project_quantity (of_int n * ?s) = Inr p"
    by (auto simp: quantize_quantity_def res_iff Let_def not_less k_def split: if_splits)
  have k: "0 \<le> k" using s by (simp add: k_def)
  have "of_int k \<le> \<bar>?q\<bar> / ?s" "\<bar>?q\<bar> / ?s < of_int k + 1"
    using floor_correct [of "\<bar>?q\<bar> / ?s"] by (simp_all add: k_def)
  then have fl: "of_int k * ?s \<le> \<bar>?q\<bar>" "\<bar>?q\<bar> < (of_int k + 1) * ?s"
    using s by (simp_all only: pos_le_divide_eq pos_divide_less_eq)
  have ab: "\<bar>of_int n * ?s\<bar> = of_int k * ?s" using s k by (simp add: n abs_mult)
  show "0 < ?s" by (rule s)
  show "\<bar>of_int n * ?s\<bar> \<le> \<bar>?q\<bar>" using fl(1) by (simp only: ab)
  show "\<bar>?q\<bar> < \<bar>of_int n * ?s\<bar> + ?s" using fl(2) by (simp only: ab distrib_right mult_1_left)
  show "of_int n * ?s * ?q \<ge> 0" using s k by (cases "?q < 0") (simp_all add: n zero_le_mult_iff mult_le_0_iff)
  show "project_quantity (of_int n * ?s) = Inr p" by (rule pr)
qed

lemma accepted_of_quantized:
  assumes "quantize_quantity x lot = Inr (p, Some n)" and "n \<noteq> 0" and "isfinite lot"
  shows "accepted_fill_quantity p lot (Some n) = Inr (of_int n * dec_of_float lot)"
proof -
  note q = quantize_count [OF assms(1)]
  have p: "isfinite p" using project_quantity_f64 [OF q(5)] by simp
  then have "feq p p" by simp
  with p q assms show ?thesis
    by (simp add: accepted_fill_quantity_def exact_quantity_def)
qed

lemma accepted_fill_project:
  assumes "accepted_fill_quantity x lot (Some n) = Inr a"
  shows "a = of_int n * dec_of_float lot \<and> n \<noteq> 0 \<and> 0 < dec_of_float lot \<and>
    (\<exists>p. project_quantity a = Inr p \<and> feq p x)"
  using assms by (auto simp: accepted_fill_quantity_def res_iff Let_def split: if_splits)

lemma accepted_fill_no_lot:
  "accepted_fill_quantity x lot None = Inr a \<Longrightarrow> a = dec_of_float x \<and> isfinite x"
  by (auto simp: accepted_fill_quantity_def res_iff split: if_splits)

lemma exact_small [f64_eval]: "small q \<Longrightarrow> exact_quantity (F q) = Inr q" "small q \<Longrightarrow> project_quantity q = Inr (F q)"
proof -
  assume q: "small q"
  show "exact_quantity (F q) = Inr q" using small_f64(3) [OF q] by (simp add: exact_quantity_def del: dec_of_float.simps)
  then show "project_quantity q = Inr (F q)" using project_dec_of_float [of "F q"] small_f64 [OF q] by simp
qed

end
