(* ===== verification/Sha256.thy ===== *)
theory Sha256
  imports Text "HOL-Library.Word"
begin

text \<open>
  \<open>hashlib.sha256(data).hexdigest()\<close> of the Python standard library, on a byte string
  held as a list of 8-bit characters: padding, the 64 rounds per 512-bit block on 32-bit
  words with wrap-around, and the hexadecimal digest.  The development uses no property
  of the hash but the shape of its result.
\<close>

unbundle bit_operations_syntax

type_synonym u32 = "32 word"

text \<open>
  The constants are the leading 32 bits of the fractional parts of roots of the first primes:
  cube roots of 64 primes for the rounds, square roots of 8 for the initial state.
  \<open>int_root k n b r\<close> completes \<open>r\<close> by its \<open>b\<close> low bits to the integer \<open>k\<close>-th root of \<open>n\<close>.
\<close>

fun int_root :: "nat \<Rightarrow> int \<Rightarrow> nat \<Rightarrow> int \<Rightarrow> int" where
  "int_root k n 0 r = r"
| "int_root k n (Suc b) r = (let s = r + 2 ^ b in int_root k n b (if s ^ k \<le> n then s else r))"

definition primes_to :: "int \<Rightarrow> int list" where
  "primes_to m = filter (\<lambda>n. list_all (\<lambda>d. n mod d \<noteq> 0) [2 .. n - 1]) [2 .. m]"

definition root_fraction :: "nat \<Rightarrow> int \<Rightarrow> u32" where
  "root_fraction k p = word_of_int (int_root k (p * 2 ^ (32 * k)) 40 0)"

definition sha_k :: "u32 list" where
  "sha_k = map (root_fraction 3) (primes_to 311)"

definition sha_h0 :: "u32 list" where
  "sha_h0 = map (root_fraction 2) (primes_to 19)"

definition sha_pad :: "string \<Rightarrow> int list" where
  "sha_pad m = (let n = length m; z = (119 - n mod 64) mod 64; bits = 8 * int n in
     map code m @ [128] @ replicate z 0 @
     map (\<lambda>k. bits div 256 ^ k mod 256) [7, 6, 5, 4, 3, 2, 1, 0])"

fun words_of :: "int list \<Rightarrow> u32 list" where
  "words_of (a # b # c # d # rest) =
     word_of_int (((a * 256 + b) * 256 + c) * 256 + d) # words_of rest"
| "words_of _ = []"

definition small_sigma0 :: "u32 \<Rightarrow> u32" where
  "small_sigma0 x = word_rotr 7 x XOR word_rotr 18 x XOR drop_bit 3 x"

definition small_sigma1 :: "u32 \<Rightarrow> u32" where
  "small_sigma1 x = word_rotr 17 x XOR word_rotr 19 x XOR drop_bit 10 x"

definition big_sigma0 :: "u32 \<Rightarrow> u32" where
  "big_sigma0 x = word_rotr 2 x XOR word_rotr 13 x XOR word_rotr 22 x"

definition big_sigma1 :: "u32 \<Rightarrow> u32" where
  "big_sigma1 x = word_rotr 6 x XOR word_rotr 11 x XOR word_rotr 25 x"

text \<open>The message schedule, newest word first.\<close>

fun schedule :: "nat \<Rightarrow> u32 list \<Rightarrow> u32 list" where
  "schedule 0 ws = ws"
| "schedule (Suc n) ws =
     schedule n ((small_sigma1 (ws ! 1) + ws ! 6 + small_sigma0 (ws ! 14) + ws ! 15) # ws)"

definition round_step :: "u32 list \<Rightarrow> u32 \<times> u32 \<Rightarrow> u32 list" where
  "round_step v kw = (case v of
     [a, b, c, d, e, f, g, h] \<Rightarrow>
       let t1 = h + big_sigma1 e + ((e AND f) XOR (NOT e AND g)) + fst kw + snd kw;
           t2 = big_sigma0 a + ((a AND b) XOR (a AND c) XOR (b AND c))
       in [t1 + t2, a, b, c, d + t1, e, f, g]
   | _ \<Rightarrow> v)"

definition compress :: "u32 list \<Rightarrow> u32 list \<Rightarrow> u32 list" where
  "compress h block =
     map2 (+) h (foldl round_step h (zip sha_k (rev (schedule 48 (rev block)))))"

function blocks_fold :: "u32 list \<Rightarrow> u32 list \<Rightarrow> u32 list" where
  "blocks_fold h ws = (if ws = [] then h else blocks_fold (compress h (take 16 ws)) (drop 16 ws))"
  by pat_completeness auto
termination by (relation "measure (\<lambda>(h, ws). length ws)") auto

declare blocks_fold.simps [simp del]

definition hex_digit :: "int \<Rightarrow> char" where
  "hex_digit d = ''0123456789abcdef'' ! nat d"

definition word_hex :: "u32 \<Rightarrow> string" where
  "word_hex w = map (\<lambda>k. hex_digit (uint w div 16 ^ k mod 16)) [7, 6, 5, 4, 3, 2, 1, 0]"

definition sha256_hex :: "string \<Rightarrow> string" where
  "sha256_hex m = concat (map word_hex (blocks_fold sha_h0 (words_of (sha_pad m))))"

section \<open>The digest is 64 lowercase hexadecimal digits\<close>

lemma round_step_length: "length v = 8 \<Longrightarrow> length (round_step v kw) = 8"
  by (auto simp: round_step_def Let_def split: list.splits)

lemma foldl_round_length: "length v = 8 \<Longrightarrow> length (foldl round_step v xs) = 8"
  by (induction xs arbitrary: v) (simp_all add: round_step_length)

lemma compress_length: "length h = 8 \<Longrightarrow> length (compress h b) = 8"
  by (simp add: compress_def foldl_round_length)

lemma blocks_fold_length: "length h = 8 \<Longrightarrow> length (blocks_fold h ws) = 8"
proof (induction h ws rule: blocks_fold.induct)
  case (1 h ws)
  then show ?case
    by (subst blocks_fold.simps) (simp add: compress_length)
qed

lemma hex_digit_lower: assumes "0 \<le> d" and "d < 16" shows "is_lower_hex (hex_digit d)"
proof -
  have "d \<in> {0, 1, 2, 3, 4, 5, 6, 7, 8, 9, 10, 11, 12, 13, 14, 15}"
    using assms by (simp only: insert_iff empty_iff) presburger
  then show ?thesis
    by (auto simp: hex_digit_def is_lower_hex_def is_digit_def code_def)
qed

lemma word_hex_shape: "length (word_hex w) = 8 \<and> list_all is_lower_hex (word_hex w)"
  by (simp add: word_hex_def hex_digit_lower)

lemma concat_length_8: "length (concat (map word_hex ws)) = 8 * length ws"
  by (induction ws) (simp_all add: word_hex_shape)

lemma sha256_hex_shape: "length (sha256_hex m) = 64 \<and> list_all is_lower_hex (sha256_hex m)"
proof
  have "length (blocks_fold sha_h0 (words_of (sha_pad m))) = 8"
    by (rule blocks_fold_length) code_simp
  then show "length (sha256_hex m) = 64" by (simp add: sha256_hex_def concat_length_8)
  show "list_all is_lower_hex (sha256_hex m)"
    using word_hex_shape by (auto simp: sha256_hex_def list_all_iff)
qed

end
