(* ===== verification/Json.thy ===== *)
theory Json
  imports Float64 Sha256 "HOL-Library.List_Lexorder" "HOL-Library.Char_ord"
begin

text \<open>
  \<open>trade_rl/artifacts/canonical.py\<close> and \<open>trade_rl/artifacts/hashing.py\<close>: the
  conversion of Python values to JSON trees, the canonical byte encoding (sorted keys, no
  white space, no ASCII escapes, UTF-8) and the content digest.

  \<open>pyobj\<close> is the shape of a Python value that \<open>to_json_value\<close> tells apart; a
  datetime is the number of microseconds since 1970-01-01 UTC, or naive.  \<open>json\<close> is a
  JSON value tree; a dict is the list of its entries in insertion order, with distinct
  keys.
\<close>

section \<open>Value trees\<close>

datatype json =
    JNull
  | JBool bool
  | JInt int
  | JFloat f64
  | JStr string
  | JList "json list"
  | JObj "(string \<times> json) list"

datatype pyobj =
    PNone
  | PBool bool
  | PInt int
  | PFloat f64
  | PStr string
  | PDatetime "int option"
  | PEnum pyobj
  | PPath string
  | PDataclass "(string \<times> pyobj) list"
  | PMapping "(pyobj \<times> pyobj) list"
  | PSequence "pyobj list"
  | PBytes string
  | POther string

section \<open>Printed datetimes\<close>

definition pad_left :: "nat \<Rightarrow> string \<Rightarrow> string" where
  "pad_left n s = replicate (n - length s) CHR ''0'' @ s"

text \<open>Year, month and day of a day number (days since 1970-01-01), proleptic Gregorian.\<close>

definition civil_of_days :: "int \<Rightarrow> int \<times> int \<times> int" where
  "civil_of_days days = (let z = days + 719468; era = z div 146097; doe = z - era * 146097;
     yoe = (doe - doe div 1460 + doe div 36524 - doe div 146096) div 365;
     doy = doe - (365 * yoe + yoe div 4 - yoe div 100); mp = (5 * doy + 2) div 153;
     d = doy - (153 * mp + 2) div 5 + 1; m = (if mp < 10 then mp + 3 else mp - 9);
     y = yoe + era * 400 + (if m \<le> 2 then 1 else 0) in (y, m, d))"

definition isoformat_utc :: "int \<Rightarrow> string" where
  "isoformat_utc us = (case civil_of_days (us div 86400000000) of (y, m, d) \<Rightarrow>
     let t = us mod 86400000000; s = t div 1000000; frac = t mod 1000000 in
     pad_left 4 (int_str y) @ ''-'' @ pad_left 2 (int_str m) @ ''-'' @ pad_left 2 (int_str d) @ ''T'' @
     pad_left 2 (int_str (s div 3600)) @ '':'' @ pad_left 2 (int_str (s div 60 mod 60)) @ '':'' @
     pad_left 2 (int_str (s mod 60)) @
     (if frac = 0 then [] else ''.'' @ pad_left 6 (int_str frac)) @ ''+00:00'')"

definition removesuffix :: "string \<Rightarrow> string \<Rightarrow> string" where
  "removesuffix s t = (if starts_with (rev s) (rev t) then take (length s - length t) s else s)"

definition datetime_value :: "int option \<Rightarrow> string res" where
  "datetime_value v = (case v of
      None \<Rightarrow> Inl (Raise ValueError ''datetime values must be timezone-aware'')
    | Some us \<Rightarrow> Inr (removesuffix (isoformat_utc us) ''+00:00'' @ ''Z''))"

section \<open>Conversion\<close>

fun type_name :: "pyobj \<Rightarrow> string" where
  "type_name (PBytes _) = ''bytes''"
| "type_name (POther n) = n"
| "type_name _ = []"

fun to_json_value :: "pyobj \<Rightarrow> json res" where
  "to_json_value PNone = Inr JNull"
| "to_json_value (PBool b) = Inr (JBool b)"
| "to_json_value (PInt n) = Inr (JInt n)"
| "to_json_value (PStr s) = Inr (JStr s)"
| "to_json_value (PFloat x) = (if isfinite x then Inr (JFloat x)
     else Inl (Raise ValueError ''canonical JSON floats must be finite''))"
| "to_json_value (PDatetime t) = bindr (datetime_value t) (\<lambda>s. Inr (JStr s))"
| "to_json_value (PEnum v) = to_json_value v"
| "to_json_value (PPath p) = Inr (JStr p)"
| "to_json_value (PDataclass fs) =
     bindr (mapr (\<lambda>(name, v). bindr (to_json_value v) (\<lambda>j. Inr (name, j))) fs) (\<lambda>js. Inr (JObj js))"
| "to_json_value (PMapping es) =
     bindr (mapr (\<lambda>(k, v). case k of
         PStr name \<Rightarrow> bindr (to_json_value v) (\<lambda>j. Inr (name, j))
       | _ \<Rightarrow> Inl (Raise TypeError ''canonical JSON mapping keys must be strings'')) es)
       (\<lambda>js. Inr (JObj js))"
| "to_json_value (PSequence xs) = bindr (mapr to_json_value xs) (\<lambda>js. Inr (JList js))"
| "to_json_value v =
     Inl (Raise TypeError (''unsupported canonical JSON value: '' @ type_name v))"

section \<open>Text of a JSON tree\<close>

definition hex4 :: "int \<Rightarrow> string" where
  "hex4 n = map (\<lambda>k. hex_digit (n div 16 ^ k mod 16)) [3, 2, 1, 0]"

definition escape_char :: "char \<Rightarrow> string" where
  "escape_char c = (if code c = 34 then [CHR 92, CHR 34]
     else if code c = 92 then [CHR 92, CHR 92]
     else if code c = 8 then [CHR 92, CHR ''b'']
     else if code c = 9 then [CHR 92, CHR ''t'']
     else if code c = 10 then [CHR 92, CHR ''n'']
     else if code c = 12 then [CHR 92, CHR ''f'']
     else if code c = 13 then [CHR 92, CHR ''r'']
     else if code c < 32 then [CHR 92, CHR ''u''] @ hex4 (code c)
     else [c])"

definition json_string :: "string \<Rightarrow> string" where
  "json_string s = [CHR 34] @ concat (map escape_char s) @ [CHR 34]"

text \<open>\<open>float.__repr__\<close> of a finite float, from its shortest digits.\<close>

function strip_zeros :: "int \<Rightarrow> int \<Rightarrow> int \<times> int" where
  "strip_zeros m j = (if 0 < m \<and> m mod 10 = 0 then strip_zeros (m div 10) (j + 1) else (m, j))"
  by pat_completeness auto
termination by (relation "measure (\<lambda>(m, j). nat m)") auto

declare strip_zeros.simps [simp del]

definition repr_mag :: "rat \<Rightarrow> string" where
  "repr_mag q = (case (case shortest q of Some r \<Rightarrow> strip_zeros (fst r) (snd r) | None \<Rightarrow> (0, 0)) of (m, j) \<Rightarrow>
     let ds = nat_str m; n = int (length ds); point = n + j in
     if -4 < point \<and> point \<le> 16 then
       (if point \<le> 0 then ''0.'' @ replicate (nat (- point)) CHR ''0'' @ ds
        else if n \<le> point then ds @ replicate (nat (point - n)) CHR ''0'' @ ''.0''
        else take (nat point) ds @ ''.'' @ drop (nat point) ds)
     else (take 1 ds @ (if n = 1 then [] else ''.'' @ drop 1 ds) @ ''e'' @
       (if point - 1 < 0 then ''-'' else ''+'') @ pad_left 2 (nat_str \<bar>point - 1\<bar>)))"

fun float_repr :: "f64 \<Rightarrow> string" where
  "float_repr (F q) = (if q = 0 then ''0.0'' else if q < 0 then ''-'' @ repr_mag (- q) else repr_mag q)"
| "float_repr NegZero = ''-0.0''"
| "float_repr PosInf = ''inf''"
| "float_repr NegInf = ''-inf''"
| "float_repr NaN = ''nan''"

definition join :: "string \<Rightarrow> string list \<Rightarrow> string" where
  "join sep xs = (case xs of [] \<Rightarrow> [] | y # ys \<Rightarrow> y @ concat (map (\<lambda>z. sep @ z) ys))"

text \<open>
  \<open>json.dumps\<close> with \<open>sort_keys\<close> and the separators \<open>,\<close> and \<open>:\<close>.  It rejects a
  non-finite float (\<open>allow_nan=False\<close>); entries are sorted by key before they are
  encoded.
\<close>

fun dumps :: "json \<Rightarrow> string res" where
  "dumps JNull = Inr ''null''"
| "dumps (JBool b) = Inr (if b then ''true'' else ''false'')"
| "dumps (JInt n) = Inr (int_str n)"
| "dumps (JFloat x) = (if isfinite x then Inr (float_repr x)
     else Inl (Raise ValueError ''Out of range float values are not JSON compliant''))"
| "dumps (JStr s) = Inr (json_string s)"
| "dumps (JList xs) = bindr (mapr dumps xs) (\<lambda>ts. Inr (''['' @ join '','' ts @ '']''))"
| "dumps (JObj es) =
     bindr (mapr (\<lambda>(k, v). bindr (dumps v) (\<lambda>t. Inr (k, t))) es) (\<lambda>kts.
       Inr (''{'' @ join '','' (map (\<lambda>(k, t). json_string k @ '':'' @ t) (sort_key fst kts)) @ ''}''))"

text \<open>UTF-8 of the code points below 256; a byte string is a list of 8-bit characters.\<close>

definition utf8_char :: "char \<Rightarrow> string" where
  "utf8_char c = (if code c < 128 then [c]
     else [char_of (192 + code c div 64), char_of (128 + code c mod 64)])"

definition utf8 :: "string \<Rightarrow> string" where
  "utf8 s = concat (map utf8_char s)"

definition canonical_json_bytes :: "pyobj \<Rightarrow> string res" where
  "canonical_json_bytes v = bindr (to_json_value v) (\<lambda>j. bindr (dumps j) (\<lambda>t. Inr (utf8 t)))"

definition content_digest :: "pyobj \<Rightarrow> string res" where
  "content_digest v = bindr (canonical_json_bytes v) (\<lambda>b. Inr (sha256_hex b))"

end
