(* ===== verification/Validation.thy ===== *)
theory Validation
  imports Text
begin

text \<open>
  \<open>trade_rl/_validation.py\<close>: the checks shared by the research core.  The patterns are
  matched with \<open>fullmatch\<close>, so a trailing newline is refused although the pattern ends
  in \<open>$\<close>.  A datetime is modelled by the presence of its UTC offset.
\<close>

definition is_sha256 :: "string \<Rightarrow> bool" where
  "is_sha256 s \<longleftrightarrow> length s = 64 \<and> list_all is_lower_hex s"

definition is_git_sha :: "string \<Rightarrow> bool" where
  "is_git_sha s \<longleftrightarrow> length s = 40 \<and> list_all is_lower_hex s"

definition require_non_empty :: "string \<Rightarrow> string \<Rightarrow> string res" where
  "require_non_empty field v = (let normalized = strip v in
     if normalized = [] then Inl (Raise ValueError (field @ '' must be non-empty''))
     else Inr normalized)"

definition require_sha256 :: "string \<Rightarrow> string \<Rightarrow> string res" where
  "require_sha256 field v = (if \<not> is_sha256 v
     then Inl (Raise ValueError (field @ '' must be a lowercase SHA-256 digest''))
     else Inr v)"

definition require_git_sha :: "string \<Rightarrow> string \<Rightarrow> string res" where
  "require_git_sha field v = (if \<not> is_git_sha v
     then Inl (Raise ValueError (field @ '' must be a lowercase 40-character Git SHA''))
     else Inr v)"

definition require_aware_datetime :: "string \<Rightarrow> int option \<Rightarrow> int res" where
  "require_aware_datetime field v = (case v of
      None \<Rightarrow> Inl (Raise ValueError (field @ '' must be timezone-aware''))
    | Some us \<Rightarrow> Inr us)"

definition require_unique_non_empty :: "string \<Rightarrow> string list \<Rightarrow> string list res" where
  "require_unique_non_empty field vs =
     (if vs = [] then Inl (Raise ValueError (field @ '' must not be empty''))
      else bindr (mapr (require_non_empty field) vs) (\<lambda>normalized.
        if has_dup normalized
        then Inl (Raise ValueError (field @ '' must contain unique values''))
        else Inr normalized))"

lemma require_sha256_Inr [res_iff]: "require_sha256 field v = Inr w \<longleftrightarrow> is_sha256 v \<and> w = v"
  by (auto simp: require_sha256_def)

lemma require_unique_non_empty_Inr:
  "require_unique_non_empty field vs = Inr ws \<longleftrightarrow>
     vs \<noteq> [] \<and> ws = map strip vs \<and> distinct ws \<and> [] \<notin> set ws"
proof -
  have "mapr (require_non_empty field) vs = Inr ws \<longleftrightarrow> ws = map strip vs \<and> [] \<notin> set ws" for ws
    by (induction vs arbitrary: ws) (auto simp: res_iff require_non_empty_def Let_def split: if_splits)
  then show ?thesis by (auto simp: require_unique_non_empty_def res_iff split: if_splits)
qed

end
