(* ===== verification/OrderIntents.thy ===== *)
theory OrderIntents
  imports Quantities Json Validation
begin

text \<open>
  The first part of \<open>trade_rl/simulation/orders/model.py\<close>: order types and statuses,
  \<open>OrderIntent\<close> with its validated construction and content identity, and its
  reconstruction from an untrusted mapping.

  The keyword arguments of \<open>OrderIntent.create\<close> are the fields of the record it is
  given; the \<open>order_id\<close> of that record is ignored.  Checks of the source that only
  separate \<open>bool\<close> from \<open>int\<close> cannot fail on the typed fields and appear where values
  come from untyped JSON.
\<close>

section \<open>Enumerations\<close>

datatype order_type = MARKET | LIMIT | STOP_MARKET

datatype time_in_force = IOC | DAY | GTC

datatype order_status =
    SUBMITTED | LATENCY_WAIT | ELIGIBLE | TRIGGERED | PARTIALLY_FILLED
  | FILLED | REJECTED | EXPIRED | CANCELLED

fun order_type_value :: "order_type \<Rightarrow> string" where
  "order_type_value MARKET = ''market''"
| "order_type_value LIMIT = ''limit''"
| "order_type_value STOP_MARKET = ''stop_market''"

fun time_in_force_value :: "time_in_force \<Rightarrow> string" where
  "time_in_force_value IOC = ''ioc''"
| "time_in_force_value DAY = ''day''"
| "time_in_force_value GTC = ''gtc''"

fun order_status_value :: "order_status \<Rightarrow> string" where
  "order_status_value SUBMITTED = ''submitted''"
| "order_status_value LATENCY_WAIT = ''latency_wait''"
| "order_status_value ELIGIBLE = ''eligible''"
| "order_status_value TRIGGERED = ''triggered''"
| "order_status_value PARTIALLY_FILLED = ''partially_filled''"
| "order_status_value FILLED = ''filled''"
| "order_status_value REJECTED = ''rejected''"
| "order_status_value EXPIRED = ''expired''"
| "order_status_value CANCELLED = ''cancelled''"

definition status_terminal :: "order_status \<Rightarrow> bool" where
  "status_terminal s \<longleftrightarrow> s \<in> {FILLED, REJECTED, EXPIRED, CANCELLED}"

text \<open>\<open>OrderType(text)\<close> and its kin: the member with that value, or \<open>ValueError\<close>.\<close>

definition enum_of :: "('a \<Rightarrow> string) \<Rightarrow> 'a list \<Rightarrow> string \<Rightarrow> 'a res" where
  "enum_of show_value members s = (case find (\<lambda>m. show_value m = s) members of
      Some m \<Rightarrow> Inr m
    | None \<Rightarrow> Inl (value_error (''is not a valid value: '' @ s)))"

definition order_type_of :: "string \<Rightarrow> order_type res" where
  "order_type_of = enum_of order_type_value [MARKET, LIMIT, STOP_MARKET]"

definition time_in_force_of :: "string \<Rightarrow> time_in_force res" where
  "time_in_force_of = enum_of time_in_force_value [IOC, DAY, GTC]"

definition order_status_of :: "string \<Rightarrow> order_status res" where
  "order_status_of = enum_of order_status_value
     [SUBMITTED, LATENCY_WAIT, ELIGIBLE, TRIGGERED, PARTIALLY_FILLED, FILLED, REJECTED, EXPIRED, CANCELLED]"

lemma order_type_of_value [simp]: "order_type_of (order_type_value t) = Inr t"
  by (cases t) (simp_all add: order_type_of_def enum_of_def)

lemma time_in_force_of_value [simp]: "time_in_force_of (time_in_force_value t) = Inr t"
  by (cases t) (simp_all add: time_in_force_of_def enum_of_def)

lemma order_status_of_value [simp]: "order_status_of (order_status_value t) = Inr t"
  by (cases t) (simp_all add: order_status_of_def enum_of_def)

section \<open>Tolerances and validators\<close>

abbreviation order_error :: "string \<Rightarrow> exc" where
  "order_error m \<equiv> Raise OrderDomainError m"

text \<open>The literal \<open>1e-12\<close>.\<close>

definition tolerance :: f64 where
  "tolerance = rnd (1 / 10 ^ 12)"

lemma tolerance_eq [code]: "tolerance = F (4951760157141521 / 4951760157141521099596496896)"
  by code_simp

lemma near_tolerance [f64_eval]:
  assumes "small a" and "small b"
  shows "flt (fadd (F a) tolerance) (F b) \<longleftrightarrow> a < b" "flt (F a) (fsub (F b) tolerance) \<longleftrightarrow> a < b"
    "fle (F b) (fadd (F a) tolerance) \<longleftrightarrow> b \<le> a" "fle (fsub (F b) tolerance) (F a) \<longleftrightarrow> b \<le> a"
proof -
  let ?t = "4951760157141521 / 4951760157141521099596496896 :: rat"
  have e: "fadd (F a) tolerance = rnd (a + ?t)" "fsub (F b) tolerance = rnd (b - ?t)" by (simp_all add: tolerance_eq float_ops_F)
  have r: "isfinite (rnd (a + ?t))" "a \<le> val (rnd (a + ?t))" "val (rnd (a + ?t)) \<le> a + 1 / 2"
    using plus_tolerance [OF assms(1), of ?t] by simp_all
  have l: "isfinite (rnd (b - ?t))" "b - 1 / 2 \<le> val (rnd (b - ?t))" "val (rnd (b - ?t)) \<le> b"
    using minus_tolerance [OF assms(2), of ?t] by simp_all
  note less = small_less [OF assms]
  show "flt (fadd (F a) tolerance) (F b) \<longleftrightarrow> a < b" "fle (F b) (fadd (F a) tolerance) \<longleftrightarrow> b \<le> a"
    using r less by (cases "a < b"; auto simp: e)+
  show "flt (F a) (fsub (F b) tolerance) \<longleftrightarrow> a < b" "fle (fsub (F b) tolerance) (F a) \<longleftrightarrow> b \<le> a"
    using l less by (cases "a < b"; auto simp: e)+
qed

lemma tolerance_sign [f64_eval]:
  assumes "small a"
  shows "fle (F a) tolerance \<longleftrightarrow> a \<le> 0" "flt tolerance (F a) \<longleftrightarrow> 0 < a" "flt (F a) (fneg tolerance) \<longleftrightarrow> a < 0"
proof -
  let ?t = "4951760157141521 / 4951760157141521099596496896 :: rat"
  have z: "small 0" by (simp add: small_def)
  have t: "val tolerance = ?t" "isfinite tolerance" "fneg tolerance = F (- ?t)" by (simp_all add: tolerance_eq)
  have "0 < a \<Longrightarrow> ?t < a" "a < 0 \<Longrightarrow> a < - ?t"
    using small_less [OF z assms] small_less [OF assms z] by simp_all
  then show "fle (F a) tolerance \<longleftrightarrow> a \<le> 0" "flt tolerance (F a) \<longleftrightarrow> 0 < a" "flt (F a) (fneg tolerance) \<longleftrightarrow> a < 0"
    using t by (cases "0 < a"; cases "a < 0"; simp)+
qed

definition quantity_ulps :: f64 where
  "quantity_ulps = F 32"

text \<open>\<open>_quantity_tolerance(*values)\<close>: the \<open>max\<close> of the literal and the scaled ulps.\<close>

definition quantity_tolerance :: "f64 list \<Rightarrow> f64" where
  "quantity_tolerance values =
     foldl fmax tolerance (map (\<lambda>v. fmul quantity_ulps (ulp (fabs v))) (filter isfinite values))"

definition validate_positive :: "string \<Rightarrow> f64 \<Rightarrow> unit res" where
  "validate_positive name v = (if \<not> isfinite v \<or> fle v (F 0)
     then Inl (order_error (name @ '' must be finite and positive'')) else Inr ())"

definition validate_digest :: "string \<Rightarrow> string \<Rightarrow> unit res" where
  "validate_digest name v = rewrap order_error (bindr (require_sha256 name v) (\<lambda>_. Inr ()))"

definition execution_policy_digest :: "(string \<times> pyobj) list \<Rightarrow> string res" where
  "execution_policy_digest payload =
     bindr (canonical_json_bytes (PMapping (map (\<lambda>(k, v). (PStr k, v)) payload))) (\<lambda>b. Inr (sha256_hex b))"

section \<open>Order intents\<close>

record order_intent =
  oi_order_id :: string
  oi_dataset_id :: string
  oi_target_identity :: string
  oi_execution_policy_digest :: string
  oi_symbol_index :: int
  oi_requested_quantity :: f64
  oi_order_type :: order_type
  oi_time_in_force :: time_in_force
  oi_limit_price :: "f64 option"
  oi_stop_price :: "f64 option"
  oi_submit_index :: int
  oi_eligible_index :: int
  oi_expiry_index :: "int option"
  oi_submission_reference_price :: f64
  oi_decision_equity :: f64
  oi_replaced_order_id :: "string option"
  oi_reduce_only :: bool

definition intent_post_init :: "order_intent \<Rightarrow> order_intent res" where
  "intent_post_init i = (if oi_reduce_only i \<and> oi_order_type i \<noteq> MARKET
     then Inl (order_error ''reduce_only supports only MARKET orders'') else Inr i)"

definition create_price_checks :: "order_intent \<Rightarrow> unit res" where
  "create_price_checks i = (case oi_order_type i of
      MARKET \<Rightarrow> if oi_limit_price i \<noteq> None \<or> oi_stop_price i \<noteq> None
        then Inl (order_error ''market orders may not define limit or stop prices'') else Inr ()
    | LIMIT \<Rightarrow> (case oi_limit_price i of
          None \<Rightarrow> Inl (order_error ''limit_price is required for limit orders'')
        | Some p \<Rightarrow> bindr (validate_positive ''limit_price'' p) (\<lambda>_.
            if oi_stop_price i \<noteq> None
            then Inl (order_error ''limit orders may not define stop_price'') else Inr ()))
    | STOP_MARKET \<Rightarrow> (case oi_stop_price i of
          None \<Rightarrow> Inl (order_error ''stop_price is required for stop-market orders'')
        | Some p \<Rightarrow> bindr (validate_positive ''stop_price'' p) (\<lambda>_.
            if oi_limit_price i \<noteq> None
            then Inl (order_error ''stop-market orders may not define limit_price'') else Inr ())))"

definition create_checks :: "order_intent \<Rightarrow> unit res" where
  "create_checks i =
     bindr (checks [(oi_dataset_id i = [], order_error ''dataset_id must be non-empty''),
                    (oi_target_identity i = [], order_error ''target_identity must be non-empty'')]) (\<lambda>_.
     bindr (validate_digest ''execution_policy_digest'' (oi_execution_policy_digest i)) (\<lambda>_.
     bindr (checks [
        (oi_symbol_index i < 0, order_error ''symbol_index must be a non-negative integer''),
        (\<not> isfinite (oi_requested_quantity i) \<or> fle (fabs (oi_requested_quantity i)) tolerance,
           order_error ''requested_quantity must be finite and non-zero''),
        (oi_submit_index i < 0, order_error ''submit_index must be a non-negative integer''),
        (oi_eligible_index i < oi_submit_index i,
           order_error ''eligible_index must not precede submit_index''),
        (case oi_expiry_index i of None \<Rightarrow> False | Some e \<Rightarrow> e < oi_eligible_index i,
           order_error ''expiry_index must not precede eligible_index''),
        (oi_time_in_force i = DAY \<and> oi_expiry_index i = None,
           order_error ''day orders require an expiry_index'')]) (\<lambda>_.
     bindr (validate_positive ''submission_reference_price'' (oi_submission_reference_price i)) (\<lambda>_.
     bindr (validate_positive ''decision_equity'' (oi_decision_equity i)) (\<lambda>_.
     bindr (create_price_checks i) (\<lambda>_.
     (case oi_replaced_order_id i of None \<Rightarrow> Inr ()
      | Some r \<Rightarrow> validate_digest ''replaced_order_id'' r)))))))"

fun opt_obj :: "('a \<Rightarrow> pyobj) \<Rightarrow> 'a option \<Rightarrow> pyobj" where
  "opt_obj f None = PNone"
| "opt_obj f (Some x) = f x"

definition identity_payload :: "order_intent \<Rightarrow> pyobj" where
  "identity_payload i = PMapping ([
     (PStr ''dataset_id'', PStr (oi_dataset_id i)),
     (PStr ''decision_equity'', PFloat (oi_decision_equity i)),
     (PStr ''eligible_index'', PInt (oi_eligible_index i)),
     (PStr ''execution_policy_digest'', PStr (oi_execution_policy_digest i)),
     (PStr ''expiry_index'', opt_obj PInt (oi_expiry_index i)),
     (PStr ''limit_price'', opt_obj PFloat (oi_limit_price i)),
     (PStr ''order_type'', PStr (order_type_value (oi_order_type i))),
     (PStr ''replaced_order_id'', opt_obj PStr (oi_replaced_order_id i)),
     (PStr ''requested_quantity'', PFloat (oi_requested_quantity i)),
     (PStr ''schema_version'', PStr ''order_intent_v1''),
     (PStr ''stop_price'', opt_obj PFloat (oi_stop_price i)),
     (PStr ''submission_reference_price'', PFloat (oi_submission_reference_price i)),
     (PStr ''submit_index'', PInt (oi_submit_index i)),
     (PStr ''symbol_index'', PInt (oi_symbol_index i)),
     (PStr ''target_identity'', PStr (oi_target_identity i)),
     (PStr ''time_in_force'', PStr (time_in_force_value (oi_time_in_force i)))]
     @ (if oi_reduce_only i then [(PStr ''reduce_only'', PBool True)] else []))"

definition order_intent_create :: "order_intent \<Rightarrow> order_intent res" where
  "order_intent_create i =
     bindr (create_checks i) (\<lambda>_.
     bindr (canonical_json_bytes (identity_payload i)) (\<lambda>b.
     intent_post_init (i\<lparr>oi_order_id := sha256_hex b\<rparr>)))"

section \<open>Untyped mappings\<close>

text \<open>
  The accessors \<open>string\<close>, \<open>integer\<close>, \<open>number\<close> and their optional forms of the
  \<open>from_mapping\<close> constructors, on a JSON object.  A JSON \<open>true\<close> is no integer and no
  number; \<open>float(n)\<close> of a huge integer raises \<open>OverflowError\<close>.
\<close>

type_synonym json_object = "(string \<times> json) list"

definition item :: "json_object \<Rightarrow> string \<Rightarrow> json res" where
  "item value field = (case map_of value field of
      None \<Rightarrow> Inl (Raise KeyError field) | Some j \<Rightarrow> Inr j)"

definition float_of_int :: "int \<Rightarrow> f64 res" where
  "float_of_int n = (let x = rnd (of_int n) in if isfinite x then Inr x
     else Inl (Raise OverflowError ''int too large to convert to float''))"

definition as_string :: "string \<Rightarrow> json \<Rightarrow> string res" where
  "as_string field j = (case j of JStr s \<Rightarrow> Inr s
     | _ \<Rightarrow> Inl (order_error (field @ '' must be a string'')))"

definition as_optional_string :: "string \<Rightarrow> json \<Rightarrow> string option res" where
  "as_optional_string field j = (case j of JNull \<Rightarrow> Inr None | JStr s \<Rightarrow> Inr (Some s)
     | _ \<Rightarrow> Inl (order_error (field @ '' must be a string or null'')))"

definition as_integer :: "string \<Rightarrow> json \<Rightarrow> int res" where
  "as_integer field j = (case j of JInt n \<Rightarrow> Inr n
     | _ \<Rightarrow> Inl (order_error (field @ '' must be an integer'')))"

definition as_optional_integer :: "string \<Rightarrow> json \<Rightarrow> int option res" where
  "as_optional_integer field j = (case j of JNull \<Rightarrow> Inr None | JInt n \<Rightarrow> Inr (Some n)
     | _ \<Rightarrow> Inl (order_error (field @ '' must be an integer or null'')))"

definition as_number :: "string \<Rightarrow> json \<Rightarrow> f64 res" where
  "as_number field j = (case j of JFloat x \<Rightarrow> Inr x | JInt n \<Rightarrow> float_of_int n
     | _ \<Rightarrow> Inl (order_error (field @ '' must be numeric'')))"

definition as_optional_number :: "string \<Rightarrow> json \<Rightarrow> f64 option res" where
  "as_optional_number field j = (case j of JNull \<Rightarrow> Inr None | JFloat x \<Rightarrow> Inr (Some x)
     | JInt n \<Rightarrow> bindr (float_of_int n) (\<lambda>x. Inr (Some x))
     | _ \<Rightarrow> Inl (order_error (field @ '' must be numeric or null'')))"

definition field :: "(string \<Rightarrow> json \<Rightarrow> 'a res) \<Rightarrow> json_object \<Rightarrow> string \<Rightarrow> 'a res" where
  "field reader value name = bindr (item value name) (reader name)"

text \<open>\<open>set(value) not in (required, required | {"reduce_only"})\<close> and the flag itself.\<close>

definition closure_ok :: "string list \<Rightarrow> string \<Rightarrow> json_object \<Rightarrow> bool" where
  "closure_ok required extra value \<longleftrightarrow>
     set (map fst value) = set required \<or> set (map fst value) = insert extra (set required)"

definition read_reduce_only :: "json_object \<Rightarrow> bool res" where
  "read_reduce_only value = (case map_of value ''reduce_only'' of
      None \<Rightarrow> Inr False
    | Some (JBool b) \<Rightarrow> Inr b
    | Some _ \<Rightarrow> Inl (order_error ''reduce_only must be a boolean''))"

definition intent_fields :: "string list" where
  "intent_fields = [''decision_equity'', ''dataset_id'', ''eligible_index'',
     ''execution_policy_digest'', ''expiry_index'', ''limit_price'', ''order_id'', ''order_type'',
     ''replaced_order_id'', ''requested_quantity'', ''stop_price'', ''submission_reference_price'',
     ''submit_index'', ''symbol_index'', ''target_identity'', ''time_in_force'']"

fun opt_json :: "('a \<Rightarrow> json) \<Rightarrow> 'a option \<Rightarrow> json" where
  "opt_json f None = JNull"
| "opt_json f (Some x) = f x"

text \<open>\<open>canonical_payload\<close>: \<open>asdict\<close> of the intent; a string enum is its text.\<close>

definition intent_payload :: "order_intent \<Rightarrow> json_object" where
  "intent_payload i = [
     (''order_id'', JStr (oi_order_id i)),
     (''dataset_id'', JStr (oi_dataset_id i)),
     (''target_identity'', JStr (oi_target_identity i)),
     (''execution_policy_digest'', JStr (oi_execution_policy_digest i)),
     (''symbol_index'', JInt (oi_symbol_index i)),
     (''requested_quantity'', JFloat (oi_requested_quantity i)),
     (''order_type'', JStr (order_type_value (oi_order_type i))),
     (''time_in_force'', JStr (time_in_force_value (oi_time_in_force i))),
     (''limit_price'', opt_json JFloat (oi_limit_price i)),
     (''stop_price'', opt_json JFloat (oi_stop_price i)),
     (''submit_index'', JInt (oi_submit_index i)),
     (''eligible_index'', JInt (oi_eligible_index i)),
     (''expiry_index'', opt_json JInt (oi_expiry_index i)),
     (''submission_reference_price'', JFloat (oi_submission_reference_price i)),
     (''decision_equity'', JFloat (oi_decision_equity i)),
     (''replaced_order_id'', opt_json JStr (oi_replaced_order_id i))]
     @ (if oi_reduce_only i then [(''reduce_only'', JBool True)] else [])"

definition order_intent_from_mapping :: "json_object \<Rightarrow> order_intent res" where
  "order_intent_from_mapping value =
     (if \<not> closure_ok intent_fields ''reduce_only'' value
      then Inl (order_error ''order intent field closure mismatch'') else
      bindr (read_reduce_only value) (\<lambda>reduce_only.
      bindr (rewrap (\<lambda>_. order_error ''order intent enum value is unsupported'')
        (bindr (bindr (field as_string value ''order_type'') order_type_of) (\<lambda>ot.
         bindr (bindr (field as_string value ''time_in_force'') time_in_force_of) (\<lambda>tf.
         Inr (ot, tf))))) (\<lambda>(ot, tf).
      bindr (field as_string value ''dataset_id'') (\<lambda>dataset_id.
      bindr (field as_string value ''target_identity'') (\<lambda>target_identity.
      bindr (field as_string value ''execution_policy_digest'') (\<lambda>digest.
      bindr (field as_integer value ''symbol_index'') (\<lambda>symbol_index.
      bindr (field as_number value ''requested_quantity'') (\<lambda>requested_quantity.
      bindr (field as_optional_number value ''limit_price'') (\<lambda>limit_price.
      bindr (field as_optional_number value ''stop_price'') (\<lambda>stop_price.
      bindr (field as_integer value ''submit_index'') (\<lambda>submit_index.
      bindr (field as_integer value ''eligible_index'') (\<lambda>eligible_index.
      bindr (field as_optional_integer value ''expiry_index'') (\<lambda>expiry_index.
      bindr (field as_number value ''submission_reference_price'') (\<lambda>reference_price.
      bindr (field as_number value ''decision_equity'') (\<lambda>decision_equity.
      bindr (field as_optional_string value ''replaced_order_id'') (\<lambda>replaced_order_id.
      bindr (order_intent_create \<lparr>oi_order_id = [], oi_dataset_id = dataset_id,
         oi_target_identity = target_identity, oi_execution_policy_digest = digest,
         oi_symbol_index = symbol_index, oi_requested_quantity = requested_quantity,
         oi_order_type = ot, oi_time_in_force = tf, oi_limit_price = limit_price,
         oi_stop_price = stop_price, oi_submit_index = submit_index,
         oi_eligible_index = eligible_index, oi_expiry_index = expiry_index,
         oi_submission_reference_price = reference_price, oi_decision_equity = decision_equity,
         oi_replaced_order_id = replaced_order_id, oi_reduce_only = reduce_only\<rparr>) (\<lambda>restored.
      bindr (field as_string value ''order_id'') (\<lambda>order_id.
      if oi_order_id restored \<noteq> order_id
      then Inl (order_error ''order intent identity digest mismatch'')
      else Inr restored))))))))))))))))))"

section \<open>Facts\<close>

lemma reader_simps [simp]:
  "as_string f (JStr s) = Inr s"
  "as_optional_string f (opt_json JStr so) = Inr so"
  "as_integer f (JInt n) = Inr n"
  "as_optional_integer f (opt_json JInt io) = Inr io"
  "as_number f (JFloat x) = Inr x"
  "as_optional_number f (opt_json JFloat xo) = Inr xo"
  by (simp_all add: as_string_def as_optional_string_def as_integer_def as_optional_integer_def
      as_number_def as_optional_number_def)
     (cases so; cases io; cases xo; simp)+

text \<open>A created intent carries the digest of its identity payload and satisfies every check.\<close>

definition intent_wf :: "order_intent \<Rightarrow> bool" where
  "intent_wf i \<longleftrightarrow> order_intent_create i = Inr i"

lemma create_checks_id [simp]: "create_checks (i\<lparr>oi_order_id := d\<rparr>) = create_checks i"
  by (simp add: create_checks_def create_price_checks_def
      cong: option.case_cong order_type.case_cong)

lemma identity_payload_id [simp]: "identity_payload (i\<lparr>oi_order_id := d\<rparr>) = identity_payload i"
  by (simp add: identity_payload_def)

lemma create_idem: "order_intent_create (i\<lparr>oi_order_id := d\<rparr>) = order_intent_create i"
  by (simp add: order_intent_create_def)

lemma create_Inr_wf: "order_intent_create i = Inr j \<Longrightarrow> intent_wf j \<and> (\<exists>d. j = i\<lparr>oi_order_id := d\<rparr>)"
proof -
  assume a: "order_intent_create i = Inr j"
  then obtain d where j: "j = i\<lparr>oi_order_id := d\<rparr>"
    by (auto simp: order_intent_create_def res_iff intent_post_init_def split: if_splits)
  with a create_idem [of d i] show ?thesis by (auto simp: intent_wf_def)
qed

lemma order_id_update_same: "i\<lparr>oi_order_id := d\<rparr> = i \<longleftrightarrow> oi_order_id i = d" for i :: order_intent
  by (cases i) auto

lemma intent_wf_iff:
  "intent_wf i \<longleftrightarrow> create_checks i = Inr () \<and> (oi_reduce_only i \<longrightarrow> oi_order_type i = MARKET) \<and>
     (\<exists>b. canonical_json_bytes (identity_payload i) = Inr b \<and> oi_order_id i = sha256_hex b)"
  by (auto simp: intent_wf_def order_intent_create_def res_iff intent_post_init_def
      order_id_update_same)

lemma create_checks_facts:
  assumes "create_checks i = Inr ()"
  shows "0 \<le> oi_symbol_index i \<and> 0 \<le> oi_submit_index i \<and> oi_submit_index i \<le> oi_eligible_index i \<and>
    (\<forall>e. oi_expiry_index i = Some e \<longrightarrow> oi_eligible_index i \<le> e) \<and>
    isfinite (oi_requested_quantity i) \<and> \<not> fle (fabs (oi_requested_quantity i)) tolerance \<and>
    create_price_checks i = Inr ()"
  using assms by (simp add: create_checks_def res_iff split: option.splits)

lemma create_price_facts:
  assumes "create_price_checks i = Inr ()"
  shows "(oi_order_type i = LIMIT \<longleftrightarrow> oi_limit_price i \<noteq> None) \<and>
    (oi_order_type i = STOP_MARKET \<longleftrightarrow> oi_stop_price i \<noteq> None)"
  using assms by (simp add: create_price_checks_def res_iff split: order_type.splits option.splits if_splits)

lemma intent_wf_id: "intent_wf i \<Longrightarrow> is_sha256 (oi_order_id i)"
  using sha256_hex_shape by (auto simp: intent_wf_iff is_sha256_def)

lemmas intent_wf_facts = create_checks_facts create_price_facts intent_wf_id

text \<open>
  Serialisation: the constructor reads back what \<open>canonical_payload\<close> writes, and
  whatever it reads carries the digest of its own content.
\<close>

lemma closure_payload: "closure_ok intent_fields ''reduce_only'' (intent_payload i)"
  by (cases "oi_reduce_only i") (auto simp: closure_ok_def intent_fields_def intent_payload_def)

lemma read_reduce_only_payload: "read_reduce_only (intent_payload i) = Inr (oi_reduce_only i)"
  by (simp add: read_reduce_only_def intent_payload_def)

lemma payload_fields:
  "field as_string (intent_payload i) ''order_id'' = Inr (oi_order_id i)"
  "field as_string (intent_payload i) ''dataset_id'' = Inr (oi_dataset_id i)"
  "field as_string (intent_payload i) ''target_identity'' = Inr (oi_target_identity i)"
  "field as_string (intent_payload i) ''execution_policy_digest'' = Inr (oi_execution_policy_digest i)"
  "field as_integer (intent_payload i) ''symbol_index'' = Inr (oi_symbol_index i)"
  "field as_number (intent_payload i) ''requested_quantity'' = Inr (oi_requested_quantity i)"
  "field as_string (intent_payload i) ''order_type'' = Inr (order_type_value (oi_order_type i))"
  "field as_string (intent_payload i) ''time_in_force'' = Inr (time_in_force_value (oi_time_in_force i))"
  "field as_optional_number (intent_payload i) ''limit_price'' = Inr (oi_limit_price i)"
  "field as_optional_number (intent_payload i) ''stop_price'' = Inr (oi_stop_price i)"
  "field as_integer (intent_payload i) ''submit_index'' = Inr (oi_submit_index i)"
  "field as_integer (intent_payload i) ''eligible_index'' = Inr (oi_eligible_index i)"
  "field as_optional_integer (intent_payload i) ''expiry_index'' = Inr (oi_expiry_index i)"
  "field as_number (intent_payload i) ''submission_reference_price'' = Inr (oi_submission_reference_price i)"
  "field as_number (intent_payload i) ''decision_equity'' = Inr (oi_decision_equity i)"
  "field as_optional_string (intent_payload i) ''replaced_order_id'' = Inr (oi_replaced_order_id i)"
  by (simp_all add: field_def item_def intent_payload_def)

lemma from_mapping_payload: "order_intent_from_mapping (intent_payload i) =
  bindr (order_intent_create i) (\<lambda>j. if oi_order_id j \<noteq> oi_order_id i
     then Inl (order_error ''order intent identity digest mismatch'') else Inr j)"
proof -
  have "order_intent_create \<lparr>oi_order_id = [], oi_dataset_id = oi_dataset_id i,
         oi_target_identity = oi_target_identity i, oi_execution_policy_digest = oi_execution_policy_digest i,
         oi_symbol_index = oi_symbol_index i, oi_requested_quantity = oi_requested_quantity i,
         oi_order_type = oi_order_type i, oi_time_in_force = oi_time_in_force i, oi_limit_price = oi_limit_price i,
         oi_stop_price = oi_stop_price i, oi_submit_index = oi_submit_index i,
         oi_eligible_index = oi_eligible_index i, oi_expiry_index = oi_expiry_index i,
         oi_submission_reference_price = oi_submission_reference_price i, oi_decision_equity = oi_decision_equity i,
         oi_replaced_order_id = oi_replaced_order_id i, oi_reduce_only = oi_reduce_only i\<rparr> = order_intent_create i"
    using create_idem [of "[]" i] by (cases i) simp
  then show ?thesis
    unfolding order_intent_from_mapping_def
    by (simp add: closure_payload read_reduce_only_payload payload_fields)
qed

lemma intent_payload_roundtrip: "intent_wf i \<Longrightarrow> order_intent_from_mapping (intent_payload i) = Inr i"
  by (simp add: from_mapping_payload intent_wf_def)

lemma from_mapping_wf: "order_intent_from_mapping v = Inr i \<Longrightarrow>
  intent_wf i \<and> field as_string v ''order_id'' = Inr (oi_order_id i)"
  unfolding order_intent_from_mapping_def
  by (auto simp: res_iff split: if_splits dest!: create_Inr_wf)
end
