(* ===== verification/PendingOrders.thy ===== *)
theory PendingOrders
  imports OrderIntents
begin

text \<open>
  \<open>PendingOrder\<close> of \<open>trade_rl/simulation/orders/model.py\<close>: the state of one order,
  its validation, its transitions and its reconstruction from an untrusted mapping.

  The exact cumulative fill is kept, as in the source, as the text of a fraction; the two
  float quantities are projections of it.  A valid state is one that the constructor
  accepts unchanged (\<open>pending_ok\<close>).  The lemmas give the success condition and the
  result of every transition, the exact conservation of the requested quantity, and the
  state machine of the order as a step relation.
\<close>

section \<open>State and validation\<close>

record pending_order =
  po_intent :: order_intent
  po_remaining_quantity :: f64
  po_cumulative_filled_quantity :: f64
  po_cumulative_filled_notional :: f64
  po_status :: order_status
  po_trigger_index :: "int option"
  po_last_processed_index :: "int option"
  po_terminal_reason :: "string option"
  po_evidence_version :: int
  po_exact :: "string option"

definition po_requested :: "pending_order \<Rightarrow> f64" where
  "po_requested p = oi_requested_quantity (po_intent p)"

definition po_terminal :: "pending_order \<Rightarrow> bool" where
  "po_terminal p \<longleftrightarrow> status_terminal (po_status p)"

definition po_order_id :: "pending_order \<Rightarrow> string" where
  "po_order_id p = oi_order_id (po_intent p)"

text \<open>\<open>not reason\<close>: absent or empty.\<close>

definition no_reason :: "string option \<Rightarrow> bool" where
  "no_reason r \<longleftrightarrow> (case r of None \<Rightarrow> True | Some s \<Rightarrow> s = [])"

definition wrong_direction :: "f64 \<Rightarrow> f64 \<Rightarrow> bool" where
  "wrong_direction v requested \<longleftrightarrow> flt tolerance (fabs v) \<and> signbit v \<noteq> signbit requested"

definition pending_quantity_checks :: "pending_order \<Rightarrow> unit res" where
  "pending_quantity_checks p =
    (let rem = po_remaining_quantity p; cum = po_cumulative_filled_quantity p;
         notional = po_cumulative_filled_notional p; req = po_requested p; expected = fadd cum rem
     in checks [
      (\<not> isfinite rem, order_error ''remaining_quantity must be finite''),
      (\<not> isfinite cum, order_error ''cumulative_filled_quantity must be finite''),
      (\<not> isfinite notional, order_error ''cumulative_filled_notional must be finite''),
      (\<not> isclose_abs expected req (quantity_tolerance [req, cum, rem, expected]),
         order_error ''requested quantity identity is inconsistent''),
      (wrong_direction rem req, order_error ''remaining_quantity has the wrong direction''),
      (wrong_direction cum req, order_error ''cumulative_filled_quantity has the wrong direction''),
      (flt notional (F 0), order_error ''cumulative_filled_notional must be non-negative'')])"

definition pending_status_checks :: "pending_order \<Rightarrow> unit res" where
  "pending_status_checks p = checks [
      (po_evidence_version p < 0, order_error ''evidence_version must be non-negative''),
      (po_terminal p \<and> no_reason (po_terminal_reason p),
         order_error ''terminal orders require a terminal_reason''),
      (\<not> po_terminal p \<and> po_terminal_reason p \<noteq> None,
         order_error ''active orders may not have a terminal_reason'')]"

text \<open>
  The evidence check of \<open>__post_init__\<close>: with a stored exact quantity both projections
  must equal the reporting floats; the second is evaluated only if the first agrees.
\<close>

definition exact_view_check :: "pending_order \<Rightarrow> rat \<Rightarrow> rat \<Rightarrow> unit res" where
  "exact_view_check p cumulative remaining =
     (if po_exact p = None then Inr () else
      bindr (project_quantity cumulative) (\<lambda>c.
      if \<not> feq c (po_cumulative_filled_quantity p)
      then Inl (order_error ''exact pending quantity differs from its reporting view'') else
      bindr (project_quantity remaining) (\<lambda>r.
      if \<not> feq r (po_remaining_quantity p)
      then Inl (order_error ''exact pending quantity differs from its reporting view'') else Inr ())))"

definition pending_post_init :: "pending_order \<Rightarrow> pending_order res" where
  "pending_post_init p =
     bindr (pending_quantity_checks p) (\<lambda>_.
     bindr (pending_status_checks p) (\<lambda>_.
     bindr (rewrap (\<lambda>_. order_error ''invalid exact cumulative quantity'')
       (case po_exact p of None \<Rightarrow> exact_quantity (po_cumulative_filled_quantity p)
        | Some s \<Rightarrow> parse_quantity s)) (\<lambda>cumulative.
     bindr (exact_quantity (po_requested p)) (\<lambda>requested.
     bindr (exact_view_check p cumulative (requested - cumulative)) (\<lambda>_.
     bindr (project_quantity cumulative) (\<lambda>c.
     bindr (project_quantity (requested - cumulative)) (\<lambda>r.
     Inr (p\<lparr>po_exact := Some (fraction_str cumulative),
            po_cumulative_filled_quantity := c,
            po_remaining_quantity := r\<rparr>))))))))"

definition pending_from_intent :: "order_intent \<Rightarrow> pending_order res" where
  "pending_from_intent i = pending_post_init
     \<lparr>po_intent = i, po_remaining_quantity = oi_requested_quantity i,
      po_cumulative_filled_quantity = F 0, po_cumulative_filled_notional = F 0,
      po_status = SUBMITTED, po_trigger_index = None, po_last_processed_index = None,
      po_terminal_reason = None, po_evidence_version = 0, po_exact = None\<rparr>"

section \<open>Transitions\<close>

definition ensure_active :: "pending_order \<Rightarrow> unit res" where
  "ensure_active p = (if po_terminal p
     then Inl (order_error ''terminal order state cannot be mutated'') else Inr ())"

definition validate_processing_index :: "pending_order \<Rightarrow> int \<Rightarrow> unit res" where
  "validate_processing_index p idx = checks [
     (idx < oi_submit_index (po_intent p), order_error ''processing_index precedes order submission''),
     (case po_last_processed_index p of None \<Rightarrow> False | Some l \<Rightarrow> idx < l,
        order_error ''processing_index must be monotonic'')]"

definition transition ::
  "order_status \<Rightarrow> int \<Rightarrow> string option \<Rightarrow> int option \<Rightarrow> pending_order \<Rightarrow> pending_order res" where
  "transition status idx reason trigger p =
     bindr (ensure_active p) (\<lambda>_.
     bindr (validate_processing_index p idx) (\<lambda>_.
     bindr (checks [
        (status_terminal status \<and> no_reason reason,
           order_error ''terminal transitions require a reason''),
        (\<not> status_terminal status \<and> reason \<noteq> None,
           order_error ''active transitions may not define a terminal reason'')]) (\<lambda>_.
     pending_post_init (p\<lparr>po_status := status,
       po_trigger_index := (case trigger of None \<Rightarrow> po_trigger_index p | Some t \<Rightarrow> Some t),
       po_last_processed_index := Some idx, po_terminal_reason := reason,
       po_evidence_version := po_evidence_version p + 1\<rparr>))))"

definition mark_latency_wait :: "int \<Rightarrow> pending_order \<Rightarrow> pending_order res" where
  "mark_latency_wait idx p = (if po_status p \<notin> {SUBMITTED, LATENCY_WAIT}
     then Inl (order_error ''invalid state transition to latency_wait'')
     else transition LATENCY_WAIT idx None None p)"

definition mark_eligible :: "int \<Rightarrow> pending_order \<Rightarrow> pending_order res" where
  "mark_eligible idx p = (if idx < oi_eligible_index (po_intent p)
     then Inl (order_error ''order is not eligible at this processing_index'')
     else if po_status p \<notin> {SUBMITTED, LATENCY_WAIT, ELIGIBLE}
     then Inl (order_error ''invalid state transition to eligible'')
     else transition ELIGIBLE idx None None p)"

definition mark_triggered :: "int \<Rightarrow> pending_order \<Rightarrow> pending_order res" where
  "mark_triggered idx p = (if po_status p \<notin> {ELIGIBLE, TRIGGERED, PARTIALLY_FILLED}
     then Inl (order_error ''invalid state transition to triggered'')
     else transition TRIGGERED idx None
       (Some (case po_trigger_index p of None \<Rightarrow> idx | Some t \<Rightarrow> t)) p)"

definition reject :: "int \<Rightarrow> string \<Rightarrow> pending_order \<Rightarrow> pending_order res" where
  "reject idx reason p = transition REJECTED idx (Some reason) None p"

definition expire :: "int \<Rightarrow> string \<Rightarrow> pending_order \<Rightarrow> pending_order res" where
  "expire idx reason p = transition EXPIRED idx (Some reason) None p"

definition cancel :: "int \<Rightarrow> string \<Rightarrow> pending_order \<Rightarrow> pending_order res" where
  "cancel idx reason p = transition CANCELLED idx (Some reason) None p"

definition fill_checks :: "f64 \<Rightarrow> f64 \<Rightarrow> pending_order \<Rightarrow> unit res" where
  "fill_checks quantity notional p = (let rem = po_remaining_quantity p in checks [
     (\<not> isfinite quantity \<or> fle (fabs quantity) tolerance,
        order_error ''fill quantity must be finite and non-zero''),
     (signbit quantity \<noteq> signbit rem,
        order_error ''fill quantity direction does not match remaining quantity''),
     (flt (fadd (fabs rem) (quantity_tolerance
            [po_requested p, rem, po_cumulative_filled_quantity p, quantity])) (fabs quantity),
        order_error ''fill quantity exceeds remaining quantity''),
     (\<not> isfinite notional \<or> flt notional (F 0),
        order_error ''fill notional must be finite and non-negative'')])"

text \<open>The state an accepted fill leads to, before the constructor validates it.\<close>

definition filled_state :: "rat \<Rightarrow> f64 \<Rightarrow> int \<Rightarrow> pending_order \<Rightarrow> pending_order res" where
  "filled_state exact_cumulative notional idx p =
     bindr (exact_quantity (po_requested p)) (\<lambda>requested.
     bindr (project_quantity exact_cumulative) (\<lambda>cum.
     bindr (project_quantity (requested - exact_cumulative)) (\<lambda>rem.
     let common = p\<lparr>po_cumulative_filled_notional := fadd (po_cumulative_filled_notional p) notional,
                    po_last_processed_index := Some idx,
                    po_evidence_version := po_evidence_version p + 1\<rparr>
     in if fle (fabs rem) (quantity_tolerance [po_requested p, cum, rem])
        then Inr (common\<lparr>po_remaining_quantity := F 0,
          po_cumulative_filled_quantity := po_requested p, po_exact := Some (fraction_str requested),
          po_status := FILLED, po_terminal_reason := Some ''filled''\<rparr>)
        else Inr (common\<lparr>po_remaining_quantity := rem,
          po_cumulative_filled_quantity := cum, po_exact := Some (fraction_str exact_cumulative),
          po_status := PARTIALLY_FILLED, po_terminal_reason := None\<rparr>))))"

definition apply_fill ::
  "f64 \<Rightarrow> f64 \<Rightarrow> int \<Rightarrow> f64 \<Rightarrow> int option \<Rightarrow> pending_order \<Rightarrow> pending_order res" where
  "apply_fill quantity notional idx lot_size lot_count p =
     bindr (ensure_active p) (\<lambda>_.
     bindr (validate_processing_index p idx) (\<lambda>_.
     bindr (fill_checks quantity notional p) (\<lambda>_.
     bindr (accepted_fill_quantity quantity lot_size lot_count) (\<lambda>accepted.
     case po_exact p of
       None \<Rightarrow> Inl (Raise AssertionError [])
     | Some s \<Rightarrow>
         bindr (parse_quantity s) (\<lambda>stored.
         bindr (filled_state (stored + accepted) notional idx p) pending_post_init)))))"

section \<open>Reconstruction\<close>

definition pending_fields :: "string list" where
  "pending_fields = [''cumulative_filled_notional'', ''cumulative_filled_quantity'',
     ''evidence_version'', ''intent'', ''last_processed_index'', ''remaining_quantity'',
     ''status'', ''terminal_reason'', ''trigger_index'']"

definition pending_from_mapping :: "json_object \<Rightarrow> pending_order res" where
  "pending_from_mapping value =
     (if \<not> closure_ok pending_fields ''exact_cumulative_filled_quantity'' value
      then Inl (order_error ''pending order field closure mismatch'') else
      bindr (item value ''intent'') (\<lambda>raw_intent.
      case raw_intent of JObj intent_value \<Rightarrow>
        bindr (item value ''terminal_reason'') (\<lambda>raw_reason.
        bindr (case map_of value ''exact_cumulative_filled_quantity'' of
            None \<Rightarrow> Inr None
          | Some (JStr s) \<Rightarrow> Inr (Some s)
          | Some _ \<Rightarrow> Inl (order_error ''exact cumulative quantity must be a string'')) (\<lambda>raw_exact.
        bindr (as_optional_string ''terminal_reason'' raw_reason) (\<lambda>reason.
        bindr (bindr (item value ''status'') (\<lambda>j. case j of JStr s \<Rightarrow> Inr s
            | _ \<Rightarrow> Inl (order_error ''status must be a string''))) (\<lambda>raw_status.
        bindr (rewrap (\<lambda>_. order_error ''pending order status is unsupported'')
            (order_status_of raw_status)) (\<lambda>status.
        bindr (order_intent_from_mapping intent_value) (\<lambda>intent.
        bindr (field as_number value ''remaining_quantity'') (\<lambda>rem.
        bindr (field as_number value ''cumulative_filled_quantity'') (\<lambda>cum.
        bindr (field as_number value ''cumulative_filled_notional'') (\<lambda>notional.
        bindr (field as_optional_integer value ''trigger_index'') (\<lambda>trigger.
        bindr (field as_optional_integer value ''last_processed_index'') (\<lambda>last_index.
        bindr (field as_integer value ''evidence_version'') (\<lambda>version.
        pending_post_init \<lparr>po_intent = intent, po_remaining_quantity = rem,
          po_cumulative_filled_quantity = cum, po_cumulative_filled_notional = notional,
          po_status = status, po_trigger_index = trigger, po_last_processed_index = last_index,
          po_terminal_reason = reason, po_evidence_version = version, po_exact = raw_exact\<rparr>))))))))))))
      | _ \<Rightarrow> Inl (order_error ''pending order intent must be an object'')))"

section \<open>Valid states\<close>

definition requested_ok :: "order_intent \<Rightarrow> bool" where
  "requested_ok i \<longleftrightarrow> is_f64 (oi_requested_quantity i) \<and> isfinite (oi_requested_quantity i) \<and>
     \<not> fle (fabs (oi_requested_quantity i)) tolerance"

definition pending_ok :: "pending_order \<Rightarrow> bool" where
  "pending_ok p \<longleftrightarrow> requested_ok (po_intent p) \<and> pending_post_init p = Inr p"

text \<open>The exact filled and unfilled quantities a state stands for.\<close>

definition exact_cumulative :: "pending_order \<Rightarrow> rat" where
  "exact_cumulative p = (case po_exact p of None \<Rightarrow> 0
     | Some s \<Rightarrow> (case parse_fraction s of None \<Rightarrow> 0 | Some q \<Rightarrow> q))"

definition exact_remaining :: "pending_order \<Rightarrow> rat" where
  "exact_remaining p = dec_of_float (po_requested p) - exact_cumulative p"

lemma set_exact_same: "po_exact p = Some s \<Longrightarrow> p\<lparr>po_exact := Some s\<rparr> = p" for p :: pending_order
  by (cases p) simp

lemma exact_cumulative_str:
  "po_exact p = Some (fraction_str c) \<Longrightarrow> exact_cumulative p = c"
  by (simp add: exact_cumulative_def parse_fraction_str)

lemma tolerance_pos: "0 < val tolerance" "isfinite tolerance"
  by (simp_all add: tolerance_eq)

lemma requested_ok_facts:
  assumes "requested_ok i"
  shows "project_quantity (dec_of_float (oi_requested_quantity i)) = Inr (oi_requested_quantity i)"
    and "oi_requested_quantity i \<noteq> NegZero"
proof -
  show nz: "oi_requested_quantity i \<noteq> NegZero"
    using assms tolerance_pos by (auto simp: requested_ok_def)
  then show "project_quantity (dec_of_float (oi_requested_quantity i)) = Inr (oi_requested_quantity i)"
    using assms by (intro project_dec_of_float) (auto simp: requested_ok_def)
qed

text \<open>A record that already carries the projections of its exact quantity is a fixed point.\<close>

lemma post_init_projected:
  assumes "po_exact p = Some (fraction_str c)" and "isfinite (po_requested p)"
    and "project_quantity c = Inr (po_cumulative_filled_quantity p)"
    and "project_quantity (dec_of_float (po_requested p) - c) = Inr (po_remaining_quantity p)"
  shows "pending_post_init p =
    bindr (pending_quantity_checks p) (\<lambda>_. bindr (pending_status_checks p) (\<lambda>_. Inr p))"
proof -
  have "parse_quantity (fraction_str c) = Inr c" using assms(3) by (simp add: res_iff)
  moreover have "exact_view_check p c (dec_of_float (po_requested p) - c) = Inr ()"
    using assms project_quantity_f64 by (auto simp: exact_view_check_def)
  moreover have "exact_quantity (po_requested p) = Inr (dec_of_float (po_requested p))"
    using assms(2) by (simp add: res_iff)
  ultimately show ?thesis using assms by (simp add: pending_post_init_def set_exact_same)
qed

lemma post_init_Inr:
  assumes "pending_post_init p = Inr q"
  obtains c where "q = p\<lparr>po_exact := Some (fraction_str c), po_cumulative_filled_quantity := po_cumulative_filled_quantity q,
      po_remaining_quantity := po_remaining_quantity q\<rparr>"
    and "project_quantity c = Inr (po_cumulative_filled_quantity q)"
    and "project_quantity (dec_of_float (po_requested p) - c) = Inr (po_remaining_quantity q)"
    and "isfinite (po_requested p)"
    and "pending_quantity_checks p = Inr ()" and "pending_status_checks p = Inr ()"
  using assms by (auto simp: pending_post_init_def res_iff)

lemma pending_ok_iff:
  "pending_ok p \<longleftrightarrow> requested_ok (po_intent p) \<and>
     pending_quantity_checks p = Inr () \<and> pending_status_checks p = Inr () \<and>
     po_exact p = Some (fraction_str (exact_cumulative p)) \<and>
     project_quantity (exact_cumulative p) = Inr (po_cumulative_filled_quantity p) \<and>
     project_quantity (exact_remaining p) = Inr (po_remaining_quantity p)"
    (is "_ \<longleftrightarrow> ?R")
proof
  assume ok: "pending_ok p"
  then obtain c where c: "p = p\<lparr>po_exact := Some (fraction_str c), po_cumulative_filled_quantity := po_cumulative_filled_quantity p,
      po_remaining_quantity := po_remaining_quantity p\<rparr>"
    and pc: "project_quantity c = Inr (po_cumulative_filled_quantity p)"
      "project_quantity (dec_of_float (po_requested p) - c) = Inr (po_remaining_quantity p)"
    and ch: "pending_quantity_checks p = Inr ()" "pending_status_checks p = Inr ()"
    unfolding pending_ok_def by (elim conjE post_init_Inr)
  have ex: "po_exact p = Some (fraction_str c)" by (subst c) simp
  have "requested_ok (po_intent p)" using ok by (simp add: pending_ok_def)
  then show ?R using pc ch ex
    by (simp add: exact_remaining_def exact_cumulative_str [OF ex])
next
  assume r: ?R
  then have "isfinite (po_requested p)" by (simp add: requested_ok_def po_requested_def)
  with r have "pending_post_init p = Inr p"
    by (simp add: post_init_projected [of p "exact_cumulative p"] exact_remaining_def)
  with r show "pending_ok p" by (simp add: pending_ok_def)
qed

lemma pending_ok_requested: "pending_ok p \<Longrightarrow> isfinite (po_requested p)"
  by (simp add: pending_ok_def requested_ok_def po_requested_def)

text \<open>The reporting floats never overstate the exact quantities.\<close>

lemma pending_ok_conservative:
  assumes "pending_ok p"
  shows "\<bar>dec_of_float (po_cumulative_filled_quantity p)\<bar> \<le> \<bar>exact_cumulative p\<bar>"
    and "\<bar>dec_of_float (po_remaining_quantity p)\<bar> \<le> \<bar>exact_remaining p\<bar>"
proof -
  show "\<bar>dec_of_float (po_cumulative_filled_quantity p)\<bar> \<le> \<bar>exact_cumulative p\<bar>"
    by (rule project_quantity_le) (use assms in \<open>simp add: pending_ok_iff\<close>)
  show "\<bar>dec_of_float (po_remaining_quantity p)\<bar> \<le> \<bar>exact_remaining p\<bar>"
    by (rule project_quantity_le) (use assms in \<open>simp add: pending_ok_iff\<close>)
qed

section \<open>Success and result of the transitions\<close>

lemma quantity_checks_cong:
  assumes "po_intent q = po_intent p" "po_remaining_quantity q = po_remaining_quantity p"
    "po_cumulative_filled_quantity q = po_cumulative_filled_quantity p"
    "po_cumulative_filled_notional q = po_cumulative_filled_notional p"
  shows "pending_quantity_checks q = pending_quantity_checks p"
  using assms by (simp add: pending_quantity_checks_def po_requested_def)

definition index_ok :: "pending_order \<Rightarrow> int \<Rightarrow> bool" where
  "index_ok p idx \<longleftrightarrow> oi_submit_index (po_intent p) \<le> idx \<and>
     (case po_last_processed_index p of None \<Rightarrow> True | Some l \<Rightarrow> l \<le> idx)"

lemma validate_processing_index_Inr [res_iff]:
  "validate_processing_index p idx = Inr u \<longleftrightarrow> index_ok p idx"
  by (auto simp: validate_processing_index_def index_ok_def split: option.splits)

lemma ensure_active_Inr [res_iff]: "ensure_active p = Inr u \<longleftrightarrow> \<not> po_terminal p"
  by (simp add: ensure_active_def)

definition moved :: "order_status \<Rightarrow> int \<Rightarrow> string option \<Rightarrow> int option \<Rightarrow> pending_order \<Rightarrow> pending_order" where
  "moved status idx reason trigger p = p\<lparr>po_status := status,
       po_trigger_index := (case trigger of None \<Rightarrow> po_trigger_index p | Some t \<Rightarrow> Some t),
       po_last_processed_index := Some idx, po_terminal_reason := reason,
       po_evidence_version := po_evidence_version p + 1\<rparr>"

definition reason_ok :: "order_status \<Rightarrow> string option \<Rightarrow> bool" where
  "reason_ok status reason \<longleftrightarrow> (if status_terminal status then \<not> no_reason reason else reason = None)"

lemma moved_simps [simp]:
  "po_intent (moved st idx r t p) = po_intent p"
  "po_status (moved st idx r t p) = st"
  "po_exact (moved st idx r t p) = po_exact p"
  "po_remaining_quantity (moved st idx r t p) = po_remaining_quantity p"
  "po_cumulative_filled_quantity (moved st idx r t p) = po_cumulative_filled_quantity p"
  "po_cumulative_filled_notional (moved st idx r t p) = po_cumulative_filled_notional p"
  "po_last_processed_index (moved st idx r t p) = Some idx"
  "po_terminal_reason (moved st idx r t p) = r"
  "po_evidence_version (moved st idx r t p) = po_evidence_version p + 1"
  "po_trigger_index (moved st idx r t p) = (case t of None \<Rightarrow> po_trigger_index p | Some x \<Rightarrow> Some x)"
  by (simp_all add: moved_def)

lemma moved_ok:
  assumes "pending_ok p" and "reason_ok st r"
  shows "pending_ok (moved st idx r t p)"
proof -
  let ?q = "moved st idx r t p"
  have "pending_quantity_checks ?q = pending_quantity_checks p" by (rule quantity_checks_cong) simp_all
  moreover have "pending_status_checks ?q = Inr ()"
    using assms by (auto simp: pending_ok_iff pending_status_checks_def po_terminal_def reason_ok_def split: if_splits)
  moreover have "exact_cumulative ?q = exact_cumulative p" "exact_remaining ?q = exact_remaining p"
    by (simp_all add: exact_cumulative_def exact_remaining_def po_requested_def)
  ultimately show ?thesis using assms(1)
    unfolding pending_ok_iff [of p] pending_ok_iff [of ?q] by simp
qed

lemma transition_Inr:
  assumes "pending_ok p"
  shows "transition st idx r t p = Inr q \<longleftrightarrow>
    \<not> po_terminal p \<and> index_ok p idx \<and> reason_ok st r \<and> q = moved st idx r t p"
proof -
  have "pending_post_init (moved st idx r t p) = Inr (moved st idx r t p)" if "reason_ok st r"
    using moved_ok [OF assms that] by (simp add: pending_ok_def)
  then show ?thesis
    by (auto simp: transition_def res_iff reason_ok_def moved_def [symmetric])
qed

lemma transition_ok:
  "pending_ok p \<Longrightarrow> transition st idx r t p = Inr q \<Longrightarrow> pending_ok q \<and> po_intent q = po_intent p"
  by (auto simp: transition_Inr moved_ok)

section \<open>Fills\<close>

lemma filled_state_cases:
  assumes "filled_state c notional idx p = Inr q"
  obtains (filled) rem cum where "project_quantity (dec_of_float (po_requested p) - c) = Inr rem"
      "project_quantity c = Inr cum"
      "fle (fabs rem) (quantity_tolerance [po_requested p, cum, rem])"
      "po_status q = FILLED" "po_terminal_reason q = Some ''filled''"
      "po_exact q = Some (fraction_str (dec_of_float (po_requested p)))"
      "po_remaining_quantity q = F 0" "po_cumulative_filled_quantity q = po_requested p"
  | (partial) "project_quantity (dec_of_float (po_requested p) - c) = Inr (po_remaining_quantity q)"
      "project_quantity c = Inr (po_cumulative_filled_quantity q)"
      "\<not> fle (fabs (po_remaining_quantity q)) (quantity_tolerance
         [po_requested p, po_cumulative_filled_quantity q, po_remaining_quantity q])"
      "po_status q = PARTIALLY_FILLED" "po_terminal_reason q = None"
      "po_exact q = Some (fraction_str c)"
proof -
  obtain cum rem where pc: "project_quantity c = Inr cum"
    and pr: "project_quantity (dec_of_float (po_requested p) - c) = Inr rem"
    using assms by (auto simp: filled_state_def res_iff)
  show thesis
  proof (cases "fle (fabs rem) (quantity_tolerance [po_requested p, cum, rem])")
    case True
    then show thesis using assms pc pr
      by (intro filled [OF pr pc True]) (auto simp: filled_state_def res_iff Let_def)
  next
    case False
    then show thesis using assms pc pr
      by (intro partial) (auto simp: filled_state_def res_iff Let_def)
  qed
qed

lemma filled_state_frame:
  assumes "filled_state c notional idx p = Inr q"
  shows "po_intent q = po_intent p \<and> po_trigger_index q = po_trigger_index p \<and>
    po_last_processed_index q = Some idx \<and> po_evidence_version q = po_evidence_version p + 1 \<and>
    po_cumulative_filled_notional q = fadd (po_cumulative_filled_notional p) notional"
  using assms by (auto simp: filled_state_def res_iff Let_def split: if_splits)

lemma filled_state_projected:
  assumes ok: "requested_ok (po_intent p)" and "filled_state c notional idx p = Inr q"
  shows "\<exists>d. po_exact q = Some (fraction_str d) \<and> isfinite (po_requested q) \<and>
    project_quantity d = Inr (po_cumulative_filled_quantity q) \<and>
    project_quantity (dec_of_float (po_requested q) - d) = Inr (po_remaining_quantity q)"
proof -
  have req: "po_requested q = po_requested p" "isfinite (po_requested p)"
    using filled_state_frame [OF assms(2)] ok by (simp_all add: po_requested_def requested_ok_def)
  from assms(2) show ?thesis
  proof (cases rule: filled_state_cases)
    case filled
    then show ?thesis using req requested_ok_facts(1) [OF ok, folded po_requested_def]
      by (intro exI [of _ "dec_of_float (po_requested p)"]) (simp add: req)
  next
    case partial
    then show ?thesis using req by auto
  qed
qed

lemma apply_fill_Inr:
  assumes ok: "pending_ok p" and "apply_fill quantity notional idx lot n p = Inr q"
  obtains a where "accepted_fill_quantity quantity lot n = Inr a"
    and "\<not> po_terminal p" and "index_ok p idx" and "fill_checks quantity notional p = Inr ()"
    and "filled_state (exact_cumulative p + a) notional idx p = Inr q" and "pending_ok q"
proof -
  have ex: "po_exact p = Some (fraction_str (exact_cumulative p))" using ok by (simp add: pending_ok_iff)
  obtain a p1 where a: "accepted_fill_quantity quantity lot n = Inr a" "\<not> po_terminal p"
      "index_ok p idx" "fill_checks quantity notional p = Inr ()"
    and p1: "filled_state (exact_cumulative p + a) notional idx p = Inr p1" "pending_post_init p1 = Inr q"
    using assms(2) ex by (auto simp: apply_fill_def res_iff split: option.splits)
  have req: "requested_ok (po_intent p)" using ok by (simp add: pending_ok_def)
  obtain d where "po_exact p1 = Some (fraction_str d)" "isfinite (po_requested p1)"
    "project_quantity d = Inr (po_cumulative_filled_quantity p1)"
    "project_quantity (dec_of_float (po_requested p1) - d) = Inr (po_remaining_quantity p1)"
    using filled_state_projected [OF req p1(1)] by blast
  note pj = post_init_projected [OF this]
  have "q = p1" using p1(2) unfolding pj by (auto simp: res_iff)
  moreover have "requested_ok (po_intent p1)" using filled_state_frame [OF p1(1)] req by simp
  ultimately show thesis using a p1 that by (simp add: pending_ok_def)
qed

lemma apply_fill_ok:
  assumes "pending_ok p" and "apply_fill quantity notional idx lot n p = Inr q"
  shows "pending_ok q \<and> po_intent q = po_intent p"
proof -
  obtain a where "filled_state (exact_cumulative p + a) notional idx p = Inr q" "pending_ok q"
    by (rule apply_fill_Inr [OF assms])
  then show ?thesis using filled_state_frame by blast
qed

text \<open>A partial fill adds exactly the accepted quantity; a completing one fills the order exactly.\<close>

lemma apply_fill_exact:
  assumes "pending_ok p" and "apply_fill quantity notional idx lot n p = Inr q"
    and "accepted_fill_quantity quantity lot n = Inr a"
  shows "(po_status q = PARTIALLY_FILLED \<and> exact_cumulative q = exact_cumulative p + a) \<or>
    (po_status q = FILLED \<and> exact_remaining q = 0 \<and> po_remaining_quantity q = F 0)"
proof -
  obtain b where b: "accepted_fill_quantity quantity lot n = Inr b"
    and fs: "filled_state (exact_cumulative p + b) notional idx p = Inr q"
    by (rule apply_fill_Inr [OF assms(1,2)])
  have req: "po_requested q = po_requested p"
    using filled_state_frame [OF fs] by (simp add: po_requested_def)
  from fs show ?thesis
  proof (cases rule: filled_state_cases)
    case filled
    then show ?thesis using req by (simp add: exact_remaining_def exact_cumulative_str [OF filled(6)])
  next
    case partial
    then show ?thesis using b assms(3) by (simp add: exact_cumulative_str [OF partial(6)])
  qed
qed

lemma quantity_tolerance_ge: "\<not> fle x (quantity_tolerance vs) \<Longrightarrow> isfinite x \<Longrightarrow> \<not> fle x tolerance"
proof -
  have mono: "isfinite x \<Longrightarrow> fle x t \<Longrightarrow> isfinite t \<or> t = PosInf \<Longrightarrow> fle x (foldl fmax t ys)" for t ys
  proof (induction ys arbitrary: t)
    case (Cons y ys)
    have "fle x (fmax t y) \<and> (isfinite (fmax t y) \<or> fmax t y = PosInf)"
      using Cons.prems by (cases x; cases t; cases y) (auto simp: fmax_def fle_def flt_def)
    then show ?case using Cons by simp
  qed simp
  assume "\<not> fle x (quantity_tolerance vs)" "isfinite x"
  then show ?thesis using mono tolerance_pos(2) unfolding quantity_tolerance_def by blast
qed

section \<open>The order as a state machine\<close>

datatype order_action =
    Latency_Wait int
  | Eligible int
  | Trigger int
  | Fill f64 f64 int f64 "int option"
  | Reject int string
  | Expire int string
  | Cancel int string

inductive order_step :: "pending_order \<Rightarrow> order_action \<Rightarrow> pending_order \<Rightarrow> bool" where
  latency_wait: "mark_latency_wait i p = Inr q \<Longrightarrow> order_step p (Latency_Wait i) q"
| eligible: "mark_eligible i p = Inr q \<Longrightarrow> order_step p (Eligible i) q"
| trigger: "mark_triggered i p = Inr q \<Longrightarrow> order_step p (Trigger i) q"
| fill: "apply_fill x n i lot k p = Inr q \<Longrightarrow> order_step p (Fill x n i lot k) q"
| reject: "reject i r p = Inr q \<Longrightarrow> order_step p (Reject i r) q"
| expire: "expire i r p = Inr q \<Longrightarrow> order_step p (Expire i r) q"
| cancel: "cancel i r p = Inr q \<Longrightarrow> order_step p (Cancel i r) q"

inductive_simps order_step_simps [simp]:
  "order_step p (Latency_Wait i) q" "order_step p (Eligible i) q" "order_step p (Trigger i) q"
  "order_step p (Fill x n i lot k) q" "order_step p (Reject i r) q" "order_step p (Expire i r) q"
  "order_step p (Cancel i r) q"

fun action_index :: "order_action \<Rightarrow> int" where
  "action_index (Latency_Wait i) = i"
| "action_index (Eligible i) = i"
| "action_index (Trigger i) = i"
| "action_index (Fill _ _ i _ _) = i"
| "action_index (Reject i _) = i"
| "action_index (Expire i _) = i"
| "action_index (Cancel i _) = i"

inductive order_reachable :: "order_intent \<Rightarrow> pending_order \<Rightarrow> bool" for i where
  start: "requested_ok i \<Longrightarrow> pending_from_intent i = Inr p \<Longrightarrow> order_reachable i p"
| step: "order_reachable i p \<Longrightarrow> order_step p a q \<Longrightarrow> order_reachable i q"

text \<open>A step that is not a fill is a guarded \<open>moved\<close>.\<close>

lemma order_step_moved:
  assumes "pending_ok p" and "order_step p a q" and "\<And>x n i lot k. a \<noteq> Fill x n i lot k"
  obtains st r t where "q = moved st (action_index a) r t p" "\<not> po_terminal p"
    "index_ok p (action_index a)" "reason_ok st r" "st \<noteq> FILLED" "st \<noteq> PARTIALLY_FILLED" "st \<noteq> SUBMITTED"
    "st = ELIGIBLE \<longrightarrow> oi_eligible_index (po_intent p) \<le> action_index a"
    "t = None \<or> t = po_trigger_index p \<or> t = Some (action_index a)"
  using assms
  by (cases a) (force simp: mark_latency_wait_def mark_eligible_def mark_triggered_def reject_def
      expire_def cancel_def transition_Inr split: if_splits option.splits)+

lemma order_step_frame:
  assumes "pending_ok p" and "order_step p a q"
  shows "pending_ok q \<and> po_intent q = po_intent p \<and> \<not> po_terminal p \<and> index_ok p (action_index a) \<and>
    po_last_processed_index q = Some (action_index a) \<and>
    po_evidence_version q = po_evidence_version p + 1"
proof (cases "\<exists>x n i lot k. a = Fill x n i lot k")
  case True
  then obtain x n i lot k where a: "a = Fill x n i lot k" by blast
  with assms(2) have f: "apply_fill x n i lot k p = Inr q" by simp
  obtain b where "filled_state (exact_cumulative p + b) n i p = Inr q" "\<not> po_terminal p"
    "index_ok p i" "pending_ok q"
    by (rule apply_fill_Inr [OF assms(1) f])
  then show ?thesis using filled_state_frame by (auto simp: a)
next
  case False
  then obtain st r t where "q = moved st (action_index a) r t p" "\<not> po_terminal p"
    "index_ok p (action_index a)" "reason_ok st r"
    using order_step_moved [OF assms] by metis
  then show ?thesis using moved_ok [OF assms(1)] by simp
qed

text \<open>A terminal state has no step, and every state but the first has processed an index.\<close>

lemma terminal_stuck: "pending_ok p \<Longrightarrow> po_terminal p \<Longrightarrow> \<not> order_step p a q"
  using order_step_frame by blast

definition order_inv :: "order_intent \<Rightarrow> pending_order \<Rightarrow> bool" where
  "order_inv i p \<longleftrightarrow> pending_ok p \<and> po_intent p = i \<and> 0 \<le> po_evidence_version p \<and>
     (po_status p = SUBMITTED \<longleftrightarrow> po_evidence_version p = 0) \<and>
     (po_last_processed_index p = None \<longleftrightarrow> po_evidence_version p = 0) \<and>
     (\<forall>l. po_last_processed_index p = Some l \<longrightarrow> oi_submit_index i \<le> l \<and>
        (po_status p = ELIGIBLE \<longrightarrow> oi_eligible_index i \<le> l) \<and>
        (\<forall>t. po_trigger_index p = Some t \<longrightarrow> oi_submit_index i \<le> t \<and> t \<le> l)) \<and>
     (po_trigger_index p \<noteq> None \<longrightarrow> po_evidence_version p \<noteq> 0)"

lemma from_intent_state:
  assumes ok: "requested_ok i" and p: "pending_from_intent i = Inr p"
  shows "p = \<lparr>po_intent = i, po_remaining_quantity = oi_requested_quantity i,
      po_cumulative_filled_quantity = F 0, po_cumulative_filled_notional = F 0,
      po_status = SUBMITTED, po_trigger_index = None, po_last_processed_index = None,
      po_terminal_reason = None, po_evidence_version = 0, po_exact = Some (fraction_str 0)\<rparr>"
proof -
  have "dec_of_float (F 0) = 0" by (simp add: dec_mag_def)
  then show ?thesis using p requested_ok_facts(1) [OF ok]
    by (auto simp: pending_from_intent_def pending_post_init_def po_requested_def
        res_iff)
qed

lemma from_intent_ok:
  assumes ok: "requested_ok i" and p: "pending_from_intent i = Inr p"
  shows "pending_ok p"
proof -
  note st = from_intent_state [OF assms]
  let ?raw = "p\<lparr>po_exact := None\<rparr>"
  have "pending_from_intent i = pending_post_init ?raw"
    by (simp add: pending_from_intent_def st)
  with p have raw: "pending_post_init ?raw = Inr p" by (metis (no_types))
  have "pending_quantity_checks ?raw = Inr ()" "pending_status_checks ?raw = Inr ()"
    by (rule post_init_Inr [OF raw], assumption)+
  then have ch: "pending_quantity_checks p = Inr ()" "pending_status_checks p = Inr ()"
    by (simp_all add: pending_quantity_checks_def pending_status_checks_def po_requested_def
        po_terminal_def)
  have ex: "po_exact p = Some (fraction_str 0)" by (simp add: st)
  then have "exact_cumulative p = 0" by (rule exact_cumulative_str)
  then show ?thesis unfolding pending_ok_iff
    using ch ex ok requested_ok_facts(1) [OF ok]
    by (simp add: exact_remaining_def po_requested_def st)
qed

lemma order_step_trigger:
  assumes "pending_ok p" and "order_step p a q"
  shows "po_trigger_index q = po_trigger_index p \<or> po_trigger_index q = Some (action_index a)"
    and "po_status q \<noteq> SUBMITTED"
    and "po_status q = ELIGIBLE \<Longrightarrow> oi_eligible_index (po_intent p) \<le> action_index a"
proof -
  have "(po_trigger_index q = po_trigger_index p \<or> po_trigger_index q = Some (action_index a)) \<and>
    po_status q \<noteq> SUBMITTED \<and> (po_status q = ELIGIBLE \<longrightarrow> oi_eligible_index (po_intent p) \<le> action_index a)"
  proof (cases "\<exists>x n i lot k. a = Fill x n i lot k")
    case True
    then obtain x n i lot k where a: "a = Fill x n i lot k" by blast
    with assms(2) have f: "apply_fill x n i lot k p = Inr q" by simp
    obtain b where fs: "filled_state (exact_cumulative p + b) n i p = Inr q"
      by (rule apply_fill_Inr [OF assms(1) f])
    then have "po_status q = FILLED \<or> po_status q = PARTIALLY_FILLED"
      by (cases rule: filled_state_cases) auto
    then show ?thesis using filled_state_frame [OF fs] by auto
  next
    case False
    obtain st r t where "q = moved st (action_index a) r t p" "st \<noteq> SUBMITTED"
      "st = ELIGIBLE \<longrightarrow> oi_eligible_index (po_intent p) \<le> action_index a"
      "t = None \<or> t = po_trigger_index p \<or> t = Some (action_index a)"
      using order_step_moved [OF assms] False by metis
    then show ?thesis by (auto split: option.splits)
  qed
  then show "po_trigger_index q = po_trigger_index p \<or> po_trigger_index q = Some (action_index a)"
    and "po_status q \<noteq> SUBMITTED"
    and "po_status q = ELIGIBLE \<Longrightarrow> oi_eligible_index (po_intent p) \<le> action_index a" by auto
qed

lemma order_step_inv: assumes inv: "order_inv i p" and st: "order_step p a q" shows "order_inv i q"
proof -
  let ?k = "action_index a"
  have ok: "pending_ok p" using inv by (simp add: order_inv_def)
  note fr = order_step_frame [OF ok st] and tr = order_step_trigger [OF ok st]
  have i: "po_intent p = i" and v: "0 \<le> po_evidence_version p" using inv by (simp_all add: order_inv_def)
  have s: "oi_submit_index i \<le> ?k"
    and l: "\<And>l. po_last_processed_index p = Some l \<Longrightarrow> l \<le> ?k"
    using fr i by (auto simp: index_ok_def)
  have t: "oi_submit_index i \<le> t \<and> t \<le> ?k" if "po_trigger_index q = Some t" for t
  proof (cases "po_trigger_index q = Some ?k")
    case False
    with that tr(1) have pt: "po_trigger_index p = Some t" by auto
    with inv obtain l' where "po_last_processed_index p = Some l'"
      by (cases "po_last_processed_index p") (auto simp: order_inv_def)
    with inv pt have "po_last_processed_index p = Some l'" "oi_submit_index i \<le> t" "t \<le> l'"
      by (auto simp: order_inv_def)
    with l show ?thesis by force
  qed (use that s in auto)
  show ?thesis unfolding order_inv_def using fr tr(2,3) i v s t by auto
qed

lemma reachable_inv: "order_reachable i p \<Longrightarrow> order_inv i p"
proof (induction rule: order_reachable.induct)
  case (start p)
  then show ?case using from_intent_ok [OF start] from_intent_state [OF start]
    by (simp add: order_inv_def)
qed (rule order_step_inv)


section \<open>Sequences of fills\<close>

type_synonym fill = "f64 \<times> f64 \<times> int \<times> f64 \<times> int option"

definition apply_fills :: "fill list \<Rightarrow> pending_order \<Rightarrow> pending_order res" where
  "apply_fills fs p = foldr_res (\<lambda>p (x, n, i, lot, k). apply_fill x n i lot k p) p fs"

definition accepted_amount :: "fill \<Rightarrow> rat" where
  "accepted_amount f = (case f of (x, n, i, lot, k) \<Rightarrow>
     (case accepted_fill_quantity x lot k of Inr a \<Rightarrow> a | Inl e \<Rightarrow> 0))"

lemma apply_fills_simps [simp]:
  "apply_fills [] p = Inr p"
  "apply_fills ((x, n, i, lot, k) # fs) p = bindr (apply_fill x n i lot k p) (apply_fills fs)"
  by (simp_all add: apply_fills_def fun_eq_iff bindr_def split: sum.splits)

lemma apply_fills_ok:
  "apply_fills fs p = Inr q \<Longrightarrow> pending_ok p \<Longrightarrow> pending_ok q \<and> po_intent q = po_intent p"
proof (induction fs arbitrary: p)
  case (Cons f fs)
  obtain x n i lot k where f: "f = (x, n, i, lot, k)" by (cases f)
  then obtain r where "apply_fill x n i lot k p = Inr r" "apply_fills fs r = Inr q"
    using Cons.prems(1) by (auto simp: res_iff)
  then show ?case using Cons.IH [of r] apply_fill_ok Cons.prems(2) by metis
qed simp

text \<open>
  The stored fraction after any number of partial fills is the exact sum of the accepted
  quantities: no rounding accumulates.
\<close>

lemma apply_fills_exact:
  "apply_fills fs p = Inr q \<Longrightarrow> pending_ok p \<Longrightarrow> \<not> po_terminal q \<Longrightarrow>
     exact_cumulative q = exact_cumulative p + sum_list (map accepted_amount fs)"
proof (induction fs arbitrary: p)
  case (Cons f fs)
  obtain x n i lot k where f: "f = (x, n, i, lot, k)" by (cases f)
  then obtain r where r: "apply_fill x n i lot k p = Inr r" "apply_fills fs r = Inr q"
    using Cons.prems(1) by (auto simp: res_iff)
  have rok: "pending_ok r" using apply_fill_ok [OF Cons.prems(2) r(1)] by simp
  obtain a where a: "accepted_fill_quantity x lot k = Inr a" by (rule apply_fill_Inr [OF Cons.prems(2) r(1)])
  have "po_status r \<noteq> FILLED"
  proof
    assume "po_status r = FILLED"
    then have t: "po_terminal r" by (simp add: po_terminal_def status_terminal_def)
    show False
    proof (cases fs)
      case Nil
      then show False using r(2) t Cons.prems(3) by simp
    next
      case (Cons g gs)
      obtain y m j l c where "g = (y, m, j, l, c)" by (cases g)
      then show False using r(2) Cons t by (auto simp: apply_fill_def res_iff)
    qed
  qed
  then have "exact_cumulative r = exact_cumulative p + a"
    using apply_fill_exact [OF Cons.prems(2) r(1) a] by auto
  then show ?case using Cons.IH [OF r(2) rok Cons.prems(3)] f a by (simp add: accepted_amount_def)
qed simp

end
