(* ===== verification/OrderBooks.thy ===== *)
theory OrderBooks
  imports PendingOrders "HOL-Library.Multiset"
begin

text \<open>
  \<open>TerminalOrderArchive\<close> and \<open>OrderBookState\<close> of
  \<open>trade_rl/simulation/orders/model.py\<close>.

  The archive is the source's linked list of immutable nodes; \<open>No_Node\<close> is the tail
  \<open>None\<close>.  A node carries the identity the allocator gave it, because
  \<open>suffix_since\<close> compares nodes with \<open>is\<close>; operations that allocate take that identity
  as an argument.  The locale \<open>submit_summary\<close> states what the order book relies on when
  it admits generated orders without rescanning the archive.
\<close>

section \<open>The terminal archive\<close>

datatype archive =
    No_Node
  | Node (node_id: nat) (node_order: pending_order) (node_previous: archive)
      (node_length: int) (node_max_submit: int) (node_ids: "string set")

definition submit_of :: "pending_order \<Rightarrow> int" where
  "submit_of p = oi_submit_index (po_intent p)"

fun archive_max_submit :: "archive \<Rightarrow> int" where
  "archive_max_submit No_Node = -1"
| "archive_max_submit (Node _ _ _ _ m _) = m"

fun archive_ids_at_max :: "archive \<Rightarrow> string set" where
  "archive_ids_at_max No_Node = {}"
| "archive_ids_at_max (Node _ _ _ _ _ ids) = ids"

fun archive_len :: "archive \<Rightarrow> int" where
  "archive_len No_Node = 0"
| "archive_len (Node _ _ _ n _ _) = n"

definition next_node :: "nat \<Rightarrow> archive \<Rightarrow> pending_order \<Rightarrow> archive" where
  "next_node new previous order =
    (let submit = submit_of order; previous_max = archive_max_submit previous;
         previous_ids = archive_ids_at_max previous;
         (m, ids) = (if previous_max < submit then (submit, {po_order_id order})
           else if submit = previous_max then (previous_max, insert (po_order_id order) previous_ids)
           else (previous_max, previous_ids))
     in Node new order previous (archive_len previous + 1) m ids)"

definition archive_append :: "nat \<Rightarrow> pending_order \<Rightarrow> archive \<Rightarrow> archive" where
  "archive_append new order a = next_node new a order"

text \<open>The constructor; its nodes get the identities \<open>new, new + 1, \<dots>\<close>.\<close>

fun archive_extend :: "nat \<Rightarrow> archive \<Rightarrow> pending_order list \<Rightarrow> archive" where
  "archive_extend new a [] = a"
| "archive_extend new a (p # ps) = archive_extend (Suc new) (next_node new a p) ps"

definition archive_init :: "nat \<Rightarrow> pending_order list \<Rightarrow> archive" where
  "archive_init new orders = archive_extend new No_Node orders"

text \<open>The \<open>while\<close> loop of \<open>__iter__\<close> collects the orders from the tail backwards.\<close>

fun walk_back :: "archive \<Rightarrow> pending_order list \<Rightarrow> pending_order list" where
  "walk_back No_Node acc = acc"
| "walk_back (Node _ p prev _ _ _) acc = walk_back prev (acc @ [p])"

definition archive_list :: "archive \<Rightarrow> pending_order list" where
  "archive_list a = rev (walk_back a [])"

text \<open>\<open>node is other\<close>.\<close>

fun same_node :: "archive \<Rightarrow> archive \<Rightarrow> bool" where
  "same_node No_Node No_Node = True"
| "same_node (Node i _ _ _ _ _) (Node j _ _ _ _ _) = (i = j)"
| "same_node _ _ = False"

fun walk_until :: "archive \<Rightarrow> archive \<Rightarrow> pending_order list \<Rightarrow> pending_order list res" where
  "walk_until stop No_Node acc = (if same_node No_Node stop then Inr acc
     else Inl (order_error ''previous terminal archive is not an ancestor''))"
| "walk_until stop (Node i p prev n m ids) acc = (if same_node (Node i p prev n m ids) stop then Inr acc
     else walk_until stop prev (acc @ [p]))"

definition suffix_since :: "archive \<Rightarrow> archive \<Rightarrow> pending_order list res" where
  "suffix_since a previous = bindr (walk_until previous a []) (\<lambda>s. Inr (rev s))"

fun steps_back :: "nat \<Rightarrow> archive \<Rightarrow> pending_order res" where
  "steps_back _ No_Node = Inl (Raise AssertionError [])"
| "steps_back 0 (Node _ p _ _ _ _) = Inr p"
| "steps_back (Suc k) (Node _ _ prev _ _ _) = steps_back k prev"

definition archive_getitem :: "archive \<Rightarrow> int \<Rightarrow> pending_order res" where
  "archive_getitem a index = (let size = archive_len a;
       resolved = (if index < 0 then index + size else index)
     in if \<not> (0 \<le> resolved \<and> resolved < size)
        then Inl (Raise IndexError ''terminal order archive index out of range'')
        else steps_back (nat (size - 1 - resolved)) a)"

section \<open>The order book\<close>

record order_book =
  ob_active :: "pending_order list"
  ob_terminal :: archive

definition book_post_init :: "nat \<Rightarrow> pending_order list \<Rightarrow> archive + pending_order list \<Rightarrow> order_book res" where
  "book_post_init new active terminal =
    (let archive = (case terminal of Inl a \<Rightarrow> a | Inr ps \<Rightarrow> archive_init new ps);
         all_orders = active @ archive_list archive
     in bindr (checks [
        (has_dup (map po_order_id all_orders), order_error ''duplicate order IDs are not allowed''),
        (list_ex po_terminal active, order_error ''active_orders may not contain terminal orders''),
        (list_ex (\<lambda>p. \<not> po_terminal p) (archive_list archive),
           order_error ''terminal_orders must contain only terminal orders'')]) (\<lambda>_.
     Inr \<lparr>ob_active = active, ob_terminal = archive\<rparr>))"

definition empty_book :: "order_book res" where
  "empty_book = book_post_init 0 [] (Inr [])"

definition active_for_symbol :: "int \<Rightarrow> order_book \<Rightarrow> pending_order list" where
  "active_for_symbol s b = filter (\<lambda>p. oi_symbol_index (po_intent p) = s) (ob_active b)"

text \<open>\<open>values[i] += x\<close> of a numpy vector, where a negative index counts from the end.\<close>

definition add_at :: "f64 list \<Rightarrow> int \<Rightarrow> f64 \<Rightarrow> f64 list res" where
  "add_at values i x = (let n = int (length values); k = (if i < 0 then i + n else i)
     in if k < 0 \<or> n \<le> k then Inl (Raise IndexError ''index out of bounds'')
        else Inr (values[nat k := fadd (values ! nat k) x]))"

definition active_remaining_quantities :: "int \<Rightarrow> order_book \<Rightarrow> f64 list res" where
  "active_remaining_quantities n_symbols b = (if n_symbols \<le> 0
     then Inl (order_error ''n_symbols must be a positive integer'')
     else foldr_res (\<lambda>values p.
         if n_symbols \<le> oi_symbol_index (po_intent p)
         then Inl (order_error ''active order symbol is outside n_symbols'')
         else add_at values (oi_symbol_index (po_intent p)) (po_remaining_quantity p))
       (replicate (nat n_symbols) (F 0)) (ob_active b))"

definition book_add :: "pending_order list \<Rightarrow> order_book \<Rightarrow> order_book res" where
  "book_add orders b = (if list_ex po_terminal orders
     then Inl (order_error ''cannot add terminal orders as active'')
     else book_post_init 0 (ob_active b @ orders) (Inl (ob_terminal b)))"

definition latest_submit :: "order_book \<Rightarrow> int" where
  "latest_submit b = foldl max (archive_max_submit (ob_terminal b)) (map submit_of (ob_active b))"

definition add_generated :: "pending_order list \<Rightarrow> order_book \<Rightarrow> order_book res" where
  "add_generated orders b =
    (let archive = ob_terminal b; ids = map po_order_id orders;
         existing = map po_order_id (ob_active b)
     in bindr (checks [
        (list_ex po_terminal orders, order_error ''cannot add terminal orders as active''),
        (has_dup ids \<or> list_ex (\<lambda>i. i \<in> set existing) ids,
           order_error ''duplicate order IDs are not allowed''),
        (list_ex (\<lambda>p. submit_of p < latest_submit b \<or>
             (submit_of p = archive_max_submit archive \<and> po_order_id p \<in> archive_ids_at_max archive)) orders,
           order_error ''generated order identity is not monotonic'')]) (\<lambda>_.
     Inr \<lparr>ob_active = ob_active b @ orders, ob_terminal = archive\<rparr>))"

fun index_of_id :: "string \<Rightarrow> pending_order list \<Rightarrow> nat option" where
  "index_of_id i [] = None"
| "index_of_id i (p # ps) = (if po_order_id p = i then Some 0 else map_option Suc (index_of_id i ps))"

definition book_replace :: "nat \<Rightarrow> pending_order \<Rightarrow> order_book \<Rightarrow> order_book res" where
  "book_replace new updated b =
    (case index_of_id (po_order_id updated) (ob_active b) of
       None \<Rightarrow> Inl (order_error ''cannot replace unknown active order'')
     | Some k \<Rightarrow> let rest = take k (ob_active b) @ drop (Suc k) (ob_active b) in
         if po_terminal updated
         then Inr \<lparr>ob_active = rest, ob_terminal = archive_append new updated (ob_terminal b)\<rparr>
         else Inr \<lparr>ob_active = take k rest @ updated # drop k rest, ob_terminal = ob_terminal b\<rparr>)"

section \<open>The archive as a sequence\<close>

lemma walk_back_acc: "walk_back a acc = acc @ walk_back a []"
proof (induction a arbitrary: acc)
  case (Node i p prev n m ids)
  show ?case using Node.IH [of "acc @ [p]"] Node.IH [of "[p]"] by simp
qed simp

lemma archive_list_simps [simp]:
  "archive_list No_Node = []"
  "archive_list (Node i p prev n m ids) = archive_list prev @ [p]"
  using walk_back_acc [of prev "[p]"] by (simp_all add: archive_list_def)

lemma archive_list_next [simp]: "archive_list (next_node new a p) = archive_list a @ [p]"
  by (simp add: next_node_def Let_def split: prod.splits)

lemma archive_list_append [simp]: "archive_list (archive_append new p a) = archive_list a @ [p]"
  by (simp add: archive_append_def)

lemma archive_list_extend [simp]: "archive_list (archive_extend new a ps) = archive_list a @ ps"
  by (induction new a ps rule: archive_extend.induct) simp_all

lemma archive_list_init [simp]: "archive_list (archive_init new ps) = ps"
  by (simp add: archive_init_def)

text \<open>An archive that the operations can build: every node is a \<open>next_node\<close>.\<close>

fun archive_ok :: "archive \<Rightarrow> bool" where
  "archive_ok No_Node \<longleftrightarrow> True"
| "archive_ok (Node i p prev n m ids) \<longleftrightarrow> archive_ok prev \<and> Node i p prev n m ids = next_node i prev p"

lemma archive_ok_next [simp]: "archive_ok (next_node new a p) \<longleftrightarrow> archive_ok a"
  by (cases "next_node new a p") (auto simp: next_node_def Let_def split: prod.splits)

lemma archive_ok_extend [simp]: "archive_ok (archive_extend new a ps) \<longleftrightarrow> archive_ok a"
  by (induction new a ps rule: archive_extend.induct) simp_all

text \<open>
  The interface the order book relies on: a sequence of orders that grows at its end and
  summarises the largest submission index with the identities that have it.
\<close>

locale submit_summary =
  fixes elems :: "'a \<Rightarrow> 'o list" and none :: 'a and snoc :: "nat \<Rightarrow> 'a \<Rightarrow> 'o \<Rightarrow> 'a"
    and submit :: "'o \<Rightarrow> int" and ident :: "'o \<Rightarrow> 'i"
    and latest :: "'a \<Rightarrow> int" and latest_ids :: "'a \<Rightarrow> 'i set" and size_of :: "'a \<Rightarrow> int"
    and built :: "'a \<Rightarrow> bool"
  assumes built_cases: "built a \<Longrightarrow> a = none \<or> (\<exists>i b x. a = snoc i b x \<and> built b)"
    and elems_none: "elems none = []"
    and elems_snoc: "elems (snoc i b x) = elems b @ [x]"
    and latest_none: "latest none = -1"
    and latest_snoc: "latest (snoc i b x) = max (latest b) (submit x)"
    and ids_none: "latest_ids none = {}"
    and ids_snoc: "latest_ids (snoc i b x) =
      (if latest b < submit x then {ident x}
       else if submit x = latest b then insert (ident x) (latest_ids b) else latest_ids b)"
    and size_none: "size_of none = 0"
    and size_snoc: "size_of (snoc i b x) = size_of b + 1"
begin

lemma built_induct [consumes 1, case_names none snoc]:
  assumes "built a" and none: "P none" and snoc: "\<And>i b x. built b \<Longrightarrow> P b \<Longrightarrow> P (snoc i b x)"
  shows "P a"
  using assms(1)
proof (induction "length (elems a)" arbitrary: a)
  case 0
  then show ?case using built_cases [of a] none by (auto simp: elems_snoc)
next
  case (Suc n)
  consider "a = none" | i b x where "a = snoc i b x" "built b" using built_cases Suc.prems by blast
  then show ?case
  proof cases
    case 2
    with Suc have "P b" by (simp add: elems_snoc)
    with snoc 2 show ?thesis by simp
  qed (simp add: none)
qed

lemma size_elems: "built a \<Longrightarrow> size_of a = int (length (elems a))"
  by (induction rule: built_induct) (simp_all add: size_none size_snoc elems_none elems_snoc)

lemma latest_elems: "built a \<Longrightarrow> latest a = foldl max (-1) (map submit (elems a))"
  by (induction rule: built_induct) (simp_all add: latest_none latest_snoc elems_none elems_snoc)

lemma latest_ge: "built a \<Longrightarrow> x \<in> set (elems a) \<Longrightarrow> submit x \<le> latest a"
  by (induction rule: built_induct) (auto simp: latest_snoc elems_none elems_snoc)

lemma ids_elems:
  "built a \<Longrightarrow> (\<forall>x \<in> set (elems a). 0 \<le> submit x) \<Longrightarrow>
   latest_ids a = ident ` {x \<in> set (elems a). submit x = latest a}"
proof (induction rule: built_induct)
  case none
  then show ?case by (simp add: ids_none elems_none)
next
  case (snoc i b x)
  have "submit y \<noteq> submit x" if "latest b < submit x" "y \<in> set (elems b)" for y
    using latest_ge [OF snoc.hyps] that by force
  then have "{y. (y = x \<or> y \<in> set (elems b)) \<and> submit y = submit x} = {x}" if "latest b < submit x"
    using that by auto
  then show ?case using snoc
    by (auto simp: ids_snoc latest_snoc elems_snoc max_def)
qed

text \<open>An identity that passes the monotonicity test is nowhere in the archive.\<close>

lemma fresh_identity:
  assumes "built a" and "\<forall>y \<in> set (elems a). 0 \<le> submit y"
    and "latest a \<le> submit x" and "\<not> (submit x = latest a \<and> ident x \<in> latest_ids a)"
    and "\<And>y. y \<in> set (elems a) \<Longrightarrow> ident y = ident x \<Longrightarrow> submit y = submit x"
  shows "ident x \<notin> ident ` set (elems a)"
proof
  assume "ident x \<in> ident ` set (elems a)"
  then obtain y where y: "y \<in> set (elems a)" "ident y = ident x" by auto
  then have "submit y = submit x" by (rule assms(5))
  moreover have "submit y \<le> latest a" using latest_ge assms(1) y by blast
  ultimately have "submit y = latest a" "submit x = latest a" using assms(3) by simp_all
  then show False using y assms(4) ids_elems [OF assms(1,2)] by (auto simp: image_iff)
qed

end

lemma next_node_max [simp]: "archive_max_submit (next_node i b p) = max (archive_max_submit b) (submit_of p)"
  by (simp add: next_node_def Let_def)

lemma next_node_ids: "archive_ids_at_max (next_node i b p) =
  (if archive_max_submit b < submit_of p then {po_order_id p}
   else if submit_of p = archive_max_submit b then insert (po_order_id p) (archive_ids_at_max b)
   else archive_ids_at_max b)"
  by (simp add: next_node_def Let_def)

lemma next_node_len [simp]: "archive_len (next_node i b p) = archive_len b + 1"
  by (simp add: next_node_def Let_def split: prod.splits)

lemma archive_ok_cases: "archive_ok a \<Longrightarrow> a = No_Node \<or> (\<exists>i b p. a = next_node i b p \<and> archive_ok b)"
  by (cases a) auto

interpretation terminal: submit_summary archive_list No_Node next_node submit_of po_order_id
    archive_max_submit archive_ids_at_max archive_len archive_ok
  by unfold_locales (auto simp: next_node_ids dest: archive_ok_cases)


text \<open>Positions: \<open>archive[k]\<close> is element \<open>k\<close>, a negative index counts from the end.\<close>

lemma steps_back_nth: "k < length (archive_list a) \<Longrightarrow>
    steps_back k a = Inr (archive_list a ! (length (archive_list a) - 1 - k))"
proof (induction k a rule: steps_back.induct)
  case (3 k i p prev n m ids)
  then show ?case by (simp add: nth_append)
qed simp_all

lemma archive_getitem_eq:
  assumes "archive_ok a"
  shows "archive_getitem a k = (let n = int (length (archive_list a)); j = (if k < 0 then k + n else k) in
    if 0 \<le> j \<and> j < n then Inr (archive_list a ! nat j)
    else Inl (Raise IndexError ''terminal order archive index out of range''))"
proof -
  let ?n = "length (archive_list a)"
  have n: "archive_len a = int ?n" using assms by (rule terminal.size_elems)
  have "steps_back (nat (int ?n - 1 - j)) a = Inr (archive_list a ! nat j)" if "0 \<le> j" "j < int ?n" for j
  proof -
    have "nat (int ?n - 1 - j) < ?n" "?n - 1 - nat (int ?n - 1 - j) = nat j" using that by auto
    then show ?thesis using steps_back_nth [of "nat (int ?n - 1 - j)" a] by simp
  qed
  then show ?thesis by (simp add: archive_getitem_def n Let_def)
qed

text \<open>
  Two archives of one program are coherent when a shared identity means a shared node;
  within one, a node's identity does not recur in its prefix.
\<close>

fun nodes_of :: "archive \<Rightarrow> archive list" where
  "nodes_of No_Node = []"
| "nodes_of (Node i p prev n m ids) = Node i p prev n m ids # nodes_of prev"

definition coherent :: "archive \<Rightarrow> archive \<Rightarrow> bool" where
  "coherent a b \<longleftrightarrow> (\<forall>x \<in> set (nodes_of a). \<forall>y \<in> set (nodes_of b). node_id x = node_id y \<longrightarrow> x = y)"

lemma walk_until_acc: "walk_until stop a acc = bindr (walk_until stop a []) (\<lambda>s. Inr (acc @ s))"
proof (induction a arbitrary: acc)
  case (Node i p prev n m ids)
  show ?case using Node.IH [of "acc @ [p]"] Node.IH [of "[p]"]
    by (cases "walk_until stop prev []") (simp_all del: same_node.simps)
qed simp

lemma suffix_since_simps:
  "suffix_since No_Node stop = (if same_node No_Node stop then Inr []
     else Inl (order_error ''previous terminal archive is not an ancestor''))"
  "suffix_since (Node i p prev n m ids) stop = (if same_node (Node i p prev n m ids) stop then Inr []
     else bindr (suffix_since prev stop) (\<lambda>s. Inr (s @ [p])))"
  using walk_until_acc [of stop prev "[p]"]
  by (cases "walk_until stop prev []"; simp add: suffix_since_def del: same_node.simps)+

lemma same_node_eq: "coherent a b \<Longrightarrow> same_node a b \<longleftrightarrow> a = b"
  by (cases a; cases b) (auto simp: coherent_def)

text \<open>
  Whatever it returns is exactly what the ancestor lacks; it answers iff the ancestor's
  tail is one of the archive's own prefixes.
\<close>

lemma suffix_since_sound:
  "coherent a b \<Longrightarrow> suffix_since a b = Inr s \<Longrightarrow> archive_list a = archive_list b @ s"
proof (induction a arbitrary: s)
  case No_Node
  then show ?case by (simp add: suffix_since_simps same_node_eq split: if_splits)
next
  case (Node i p prev n m ids)
  have "coherent prev b" using Node.prems(1) by (simp add: coherent_def)
  then show ?case using Node same_node_eq [OF Node.prems(1)]
    by (auto simp: suffix_since_simps res_iff simp del: same_node.simps split: if_splits)
qed

lemma suffix_since_complete:
  "coherent a b \<Longrightarrow> (\<exists>s. suffix_since a b = Inr s) \<longleftrightarrow> b = No_Node \<or> b \<in> set (nodes_of a)"
proof (induction a)
  case No_Node
  then show ?case by (auto simp: suffix_since_simps same_node_eq)
next
  case (Node i p prev n m ids)
  have "coherent prev b" using Node.prems(1) by (simp add: coherent_def)
  then show ?case using Node.IH same_node_eq [OF Node.prems(1)]
    by (auto simp: suffix_since_simps res_iff simp del: same_node.simps)
qed

lemma suffix_since_extend:
  assumes "coherent (archive_extend new a ps) a"
  shows "suffix_since (archive_extend new a ps) a = Inr ps"
proof -
  have "a = No_Node \<or> a \<in> set (nodes_of (archive_extend new a ps))"
  proof -
    have "b = No_Node \<or> b \<in> set (nodes_of a) \<Longrightarrow> b = No_Node \<or> b \<in> set (nodes_of (archive_extend new a ps))" for b
      by (induction new a ps rule: archive_extend.induct) (auto simp: next_node_def Let_def split: prod.splits)
    then show ?thesis by (cases a) auto
  qed
  then obtain s where s: "suffix_since (archive_extend new a ps) a = Inr s"
    using suffix_since_complete [OF assms] by blast
  then show ?thesis using suffix_since_sound [OF assms s] by simp
qed


section \<open>Valid books\<close>

definition book_ids :: "order_book \<Rightarrow> string list" where
  "book_ids b = map po_order_id (ob_active b @ archive_list (ob_terminal b))"

definition book_ok :: "order_book \<Rightarrow> bool" where
  "book_ok b \<longleftrightarrow> archive_ok (ob_terminal b) \<and> distinct (book_ids b) \<and>
     (\<forall>p \<in> set (ob_active b). pending_ok p \<and> \<not> po_terminal p) \<and>
     (\<forall>p \<in> set (archive_list (ob_terminal b)). pending_ok p \<and> po_terminal p)"

lemma book_post_init_Inr [res_iff]:
  "book_post_init new active (Inl a) = Inr b \<longleftrightarrow> b = \<lparr>ob_active = active, ob_terminal = a\<rparr> \<and>
     distinct (book_ids b) \<and> (\<forall>p \<in> set active. \<not> po_terminal p) \<and>
     (\<forall>p \<in> set (archive_list a). po_terminal p)"
  by (auto simp: book_post_init_def res_iff book_ids_def Let_def list_ex_iff
      simp del: map_append distinct_append)

lemma book_add_Inr:
  "book_add orders b = Inr c \<longleftrightarrow> c = b\<lparr>ob_active := ob_active b @ orders\<rparr> \<and>
     distinct (book_ids c) \<and> (\<forall>p \<in> set (ob_active c). \<not> po_terminal p) \<and>
     (\<forall>p \<in> set (archive_list (ob_terminal b)). po_terminal p)"
  by (cases b) (auto simp: book_add_def res_iff list_ex_iff)

lemma book_add_ok:
  assumes "book_ok b" and "book_add orders b = Inr c" and "\<forall>p \<in> set orders. pending_ok p"
  shows "book_ok c"
  using assms by (auto simp: book_ok_def book_add_Inr)

lemma add_generated_Inr:
  "add_generated orders b = Inr c \<longleftrightarrow> c = b\<lparr>ob_active := ob_active b @ orders\<rparr> \<and>
     (\<forall>p \<in> set orders. \<not> po_terminal p) \<and> distinct (map po_order_id orders) \<and>
     (\<forall>p \<in> set orders. po_order_id p \<notin> po_order_id ` set (ob_active b) \<and> latest_submit b \<le> submit_of p \<and>
        \<not> (submit_of p = archive_max_submit (ob_terminal b) \<and>
           po_order_id p \<in> archive_ids_at_max (ob_terminal b)))"
  by (cases b) (auto simp: add_generated_def res_iff list_ex_iff Let_def not_less)

lemma foldl_max_Max: "foldl max a xs = Max (set (a # xs))" for a :: int
proof -
  have "(\<lambda>x s. max s x) = (max :: int \<Rightarrow> int \<Rightarrow> int)" by (auto simp: max.commute)
  then show ?thesis unfolding Max.set_eq_fold foldl_conv_fold by simp
qed

lemma foldl_max_ge: "a \<le> foldl max a xs" "x \<in> set xs \<Longrightarrow> x \<le> foldl max a xs" for a :: int
  unfolding foldl_max_Max by (auto intro: Max_ge)

text \<open>Equal identities have equal submission indices: the identity digests the index.\<close>

definition ids_determine_submit :: "pending_order list \<Rightarrow> bool" where
  "ids_determine_submit ps \<longleftrightarrow>
     (\<forall>p \<in> set ps. \<forall>q \<in> set ps. po_order_id p = po_order_id q \<longrightarrow> submit_of p = submit_of q)"

definition all_orders :: "order_book \<Rightarrow> pending_order list" where
  "all_orders b = ob_active b @ archive_list (ob_terminal b)"

lemma set_all_orders: "set (all_orders b) = set (ob_active b) \<union> set (archive_list (ob_terminal b))"
  by (simp add: all_orders_def)

lemma add_generated_add:
  assumes ok: "book_ok b" and nn: "\<forall>p \<in> set (all_orders b @ orders). 0 \<le> submit_of p"
    and inj: "ids_determine_submit (all_orders b @ orders)"
    and gen: "add_generated orders b = Inr c"
  shows "book_add orders b = Inr c"
proof -
  note g = gen [unfolded add_generated_Inr]
  have fresh: "po_order_id p \<notin> po_order_id ` set (archive_list (ob_terminal b))" if p: "p \<in> set orders" for p
  proof (rule terminal.fresh_identity)
    show "archive_ok (ob_terminal b)" using ok by (simp add: book_ok_def)
    show "\<forall>y \<in> set (archive_list (ob_terminal b)). 0 \<le> submit_of y" using nn by (simp add: set_all_orders)
    show "archive_max_submit (ob_terminal b) \<le> submit_of p"
      using g p foldl_max_ge(1) unfolding latest_submit_def by (meson order_trans)
    show "\<not> (submit_of p = archive_max_submit (ob_terminal b) \<and> po_order_id p \<in> archive_ids_at_max (ob_terminal b))"
      using g p by blast
    show "submit_of y = submit_of p" if "y \<in> set (archive_list (ob_terminal b))" "po_order_id y = po_order_id p" for y
      using inj p that unfolding ids_determine_submit_def by (auto simp: set_all_orders)
  qed
  have "po_order_id ` set orders \<inter> po_order_id ` set (ob_active b) = {}"
    "po_order_id ` set orders \<inter> po_order_id ` set (archive_list (ob_terminal b)) = {}"
    using g fresh by blast+
  then show ?thesis unfolding book_add_Inr using g ok
    by (simp add: book_ids_def book_ok_def Int_Un_distrib Int_Un_distrib2 Int_commute ball_Un)
qed

lemma add_generated_monotone:
  assumes "add_generated orders b = Inr c" and "p \<in> set orders" and "q \<in> set (ob_active b)"
  shows "submit_of q \<le> submit_of p"
proof -
  have "submit_of q \<le> latest_submit b" unfolding latest_submit_def using assms(3) by (intro foldl_max_ge(2)) simp
  then show ?thesis using assms(1,2) unfolding add_generated_Inr by (meson order_trans)
qed

lemma index_of_id_Some:
  "index_of_id i ps = Some k \<Longrightarrow> k < length ps \<and> po_order_id (ps ! k) = i \<and>
     ps = take k ps @ ps ! k # drop (Suc k) ps"
  by (induction ps arbitrary: k) (auto split: if_splits)

lemma index_of_id_None: "index_of_id i ps = None \<longleftrightarrow> i \<notin> po_order_id ` set ps"
  by (induction ps) auto

text \<open>The outcome of a replacement, in terms of the list around the replaced order.\<close>

lemma book_replace_Inr:
  assumes "book_replace new q b = Inr c"
  obtains l p r where "ob_active b = l @ p # r" "po_order_id p = po_order_id q"
    "c = (if po_terminal q then \<lparr>ob_active = l @ r, ob_terminal = archive_append new q (ob_terminal b)\<rparr>
          else b\<lparr>ob_active := l @ q # r\<rparr>)"
proof -
  obtain k where k: "index_of_id (po_order_id q) (ob_active b) = Some k"
    using assms by (auto simp: book_replace_def split: option.splits)
  note i = index_of_id_Some [OF k]
  show thesis
    by (rule that [of "take k (ob_active b)" "ob_active b ! k" "drop (Suc k) (ob_active b)"])
      (use i assms k in \<open>auto simp: book_replace_def Let_def min_def split: if_splits\<close>)
qed

lemma book_replace_total:
  "(\<exists>c. book_replace new q b = Inr c) \<longleftrightarrow> po_order_id q \<in> po_order_id ` set (ob_active b)"
  using index_of_id_None [of "po_order_id q" "ob_active b"]
  by (cases "index_of_id (po_order_id q) (ob_active b)") (auto simp: book_replace_def Let_def)

lemma book_replace_ids:
  assumes "book_replace new q b = Inr c"
  shows "mset (book_ids c) = mset (book_ids b)"
proof -
  obtain l p r where "ob_active b = l @ p # r" "po_order_id p = po_order_id q"
    "c = (if po_terminal q then \<lparr>ob_active = l @ r, ob_terminal = archive_append new q (ob_terminal b)\<rparr>
          else b\<lparr>ob_active := l @ q # r\<rparr>)"
    using assms by (rule book_replace_Inr)
  then show ?thesis by (auto simp: book_ids_def)
qed

lemma book_replace_ok:
  assumes ok: "book_ok b" and q: "pending_ok q" and c: "book_replace new q b = Inr c"
  shows "book_ok c"
proof -
  obtain l p r where c': "ob_active b = l @ p # r" "po_order_id p = po_order_id q"
    "c = (if po_terminal q then \<lparr>ob_active = l @ r, ob_terminal = archive_append new q (ob_terminal b)\<rparr>
          else b\<lparr>ob_active := l @ q # r\<rparr>)"
    using c by (rule book_replace_Inr)
  have "distinct (book_ids c)"
    using book_replace_ids [OF c] ok unfolding book_ok_def by (metis mset_eq_imp_distinct_iff)
  then show ?thesis using ok q c' by (auto simp: book_ok_def archive_append_def)
qed

section \<open>Runs of the order book\<close>

text \<open>What the simulator does to a book: admit new orders, advance one active order.\<close>

inductive book_step :: "order_book \<Rightarrow> order_book \<Rightarrow> bool" where
  admit: "\<forall>p \<in> set orders. \<exists>i. requested_ok i \<and> pending_from_intent i = Inr p \<Longrightarrow>
     book_add orders b = Inr c \<Longrightarrow> book_step b c"
| advance: "p \<in> set (ob_active b) \<Longrightarrow> order_step p a q \<Longrightarrow> book_replace new q b = Inr c \<Longrightarrow> book_step b c"

inductive book_reachable :: "order_book \<Rightarrow> bool" where
  empty: "empty_book = Inr b \<Longrightarrow> book_reachable b"
| step: "book_reachable b \<Longrightarrow> book_step b c \<Longrightarrow> book_reachable c"

lemma empty_book_eq: "empty_book = Inr \<lparr>ob_active = [], ob_terminal = No_Node\<rparr>"
  by (simp add: empty_book_def book_post_init_def archive_init_def checks_Cons_False)

lemma book_step_ok: "book_step b c \<Longrightarrow> book_ok b \<Longrightarrow> book_ok c"
proof (induction rule: book_step.induct)
  case (admit orders b c)
  then show ?case using from_intent_ok by (blast intro: book_add_ok)
next
  case (advance p b a q new c)
  then have "pending_ok q" using order_step_frame by (auto simp: book_ok_def)
  with advance show ?case by (blast intro: book_replace_ok)
qed

lemma book_reachable_inv: "book_reachable b \<Longrightarrow> book_ok b"
proof (induction rule: book_reachable.induct)
  case (empty b)
  then show ?case by (auto simp: empty_book_eq book_ok_def book_ids_def)
qed (rule book_step_ok)

text \<open>Archived orders stay: the archive only grows, at its end, by the order just completed.\<close>

lemma book_step_archive:
  "book_step b c \<Longrightarrow> \<exists>s. archive_list (ob_terminal c) = archive_list (ob_terminal b) @ s \<and> length s \<le> 1"
proof (induction rule: book_step.induct)
  case (admit orders b c)
  then show ?case by (auto simp: book_add_Inr)
next
  case (advance p b a q new c)
  from advance(3) show ?case by (rule book_replace_Inr) auto
qed

end
