(* ===== verification/OrderEvents.thy ===== *)
theory OrderEvents
  imports OrderIntents
begin

text \<open>
  \<open>OrderEvent\<close> of \<open>trade_rl/simulation/orders/model.py\<close>: the evidence record of one
  step of an order, its validation, its payload and its reconstruction from an untrusted
  mapping.  The lemmas show that the two are inverse on valid events and that a
  reconstructed event satisfies every check of the constructor.
\<close>

record order_event =
  oe_schema_version :: string
  oe_sequence :: int
  oe_order_id :: string
  oe_replaced_order_id :: "string option"
  oe_dataset_id :: string
  oe_execution_policy_digest :: string
  oe_symbol_index :: int
  oe_event_type :: string
  oe_processing_index :: int
  oe_timestamp_ns :: int
  oe_previous_status :: order_status
  oe_new_status :: order_status
  oe_requested_quantity :: f64
  oe_remaining_quantity :: f64
  oe_filled_quantity :: f64
  oe_execution_price :: "f64 option"
  oe_filled_notional :: f64
  oe_capacity_before :: f64
  oe_capacity_after :: f64
  oe_participation_rate :: f64
  oe_trigger_segment :: "string option"
  oe_available_volume_fraction :: f64
  oe_reason :: "string option"
  oe_path_mode :: string
  oe_path_points :: "f64 list"
  oe_reduce_only :: bool

definition event_types :: "string list" where
  "event_types = [''submitted'', ''latency_wait'', ''eligible'', ''triggered'', ''no_fill'',
     ''partial_fill'', ''filled'', ''rejected'', ''expired'', ''cancelled'']"

definition within_unit :: "f64 \<Rightarrow> bool" where
  "within_unit x \<longleftrightarrow> fle (F 0) x \<and> fle x (F 1)"

definition event_number_checks :: "order_event \<Rightarrow> unit res" where
  "event_number_checks e = checks ([
      (\<not> isfinite (oe_requested_quantity e), order_error ''requested_quantity must be finite''),
      (\<not> isfinite (oe_remaining_quantity e), order_error ''remaining_quantity must be finite''),
      (\<not> isfinite (oe_filled_quantity e), order_error ''filled_quantity must be finite''),
      (\<not> isfinite (oe_filled_notional e), order_error ''filled_notional must be finite''),
      (\<not> isfinite (oe_capacity_before e), order_error ''capacity_before must be finite''),
      (\<not> isfinite (oe_capacity_after e), order_error ''capacity_after must be finite''),
      (\<not> isfinite (oe_participation_rate e), order_error ''participation_rate must be finite''),
      (\<not> isfinite (oe_available_volume_fraction e),
         order_error ''available_volume_fraction must be finite''),
      (fle (fabs (oe_requested_quantity e)) tolerance, order_error ''requested_quantity must be non-zero''),
      (flt (oe_filled_notional e) (F 0), order_error ''filled_notional must be non-negative''),
      (flt (oe_capacity_before e) (F 0) \<or> flt (oe_capacity_after e) (F 0),
         order_error ''event capacities must be non-negative''),
      (\<not> within_unit (oe_participation_rate e), order_error ''participation_rate must be within [0, 1]''),
      (\<not> within_unit (oe_available_volume_fraction e),
         order_error ''available_volume_fraction must be within [0, 1]''),
      (case oe_execution_price e of None \<Rightarrow> False | Some p \<Rightarrow> \<not> isfinite p,
         order_error ''execution_price must be finite when present''),
      (case oe_execution_price e of None \<Rightarrow> False | Some p \<Rightarrow> fle p (F 0),
         order_error ''execution_price must be positive when present'')])"

definition event_path_checks :: "order_event \<Rightarrow> unit res" where
  "event_path_checks e = checks [
      (\<not> list_all isfinite (oe_path_points e), order_error ''path_points must be finite''),
      (oe_path_points e \<noteq> [] \<and> (length (oe_path_points e) \<noteq> 4 \<or>
          list_ex (\<lambda>p. fle p (F 0)) (oe_path_points e)),
         order_error ''path_points must be four positive prices''),
      (oe_path_mode e \<notin> set [''optimistic'', ''neutral'', ''conservative''],
         order_error ''path_mode is unsupported'')]"

definition event_post_init :: "order_event \<Rightarrow> order_event res" where
  "event_post_init e =
     bindr (checks [
        (oe_schema_version e \<noteq> ''order_event_v1'', order_error ''order event schema is unsupported''),
        (oe_sequence e < 0, order_error ''event sequence must be non-negative''),
        (oe_dataset_id e = [], order_error ''dataset_id must be non-empty'')]) (\<lambda>_.
     bindr (validate_digest ''order_id'' (oe_order_id e)) (\<lambda>_.
     bindr (validate_digest ''execution_policy_digest'' (oe_execution_policy_digest e)) (\<lambda>_.
     bindr (case oe_replaced_order_id e of None \<Rightarrow> Inr ()
        | Some r \<Rightarrow> validate_digest ''replaced_order_id'' r) (\<lambda>_.
     bindr (checks [
        (oe_symbol_index e < 0, order_error ''symbol_index must be a non-negative integer''),
        (oe_processing_index e < 0, order_error ''processing_index must be a non-negative integer''),
        (oe_timestamp_ns e < 0, order_error ''timestamp_ns must be a non-negative integer''),
        (oe_event_type e \<notin> set event_types, order_error ''event_type is unsupported'')]) (\<lambda>_.
     bindr (event_number_checks e) (\<lambda>_.
     bindr (event_path_checks e) (\<lambda>_. Inr e)))))))"

section \<open>Payload and reconstruction\<close>

definition event_fields :: "string list" where
  "event_fields = [''available_volume_fraction'', ''capacity_after'', ''capacity_before'', ''dataset_id'',
     ''event_type'', ''execution_policy_digest'', ''execution_price'', ''filled_notional'',
     ''filled_quantity'', ''new_status'', ''order_id'', ''participation_rate'', ''path_mode'',
     ''path_points'', ''previous_status'', ''processing_index'', ''reason'', ''remaining_quantity'',
     ''replaced_order_id'', ''requested_quantity'', ''schema_version'', ''sequence'', ''symbol_index'',
     ''timestamp_ns'', ''trigger_segment'']"

definition event_payload :: "order_event \<Rightarrow> json_object" where
  "event_payload e = [
     (''schema_version'', JStr (oe_schema_version e)),
     (''sequence'', JInt (oe_sequence e)),
     (''order_id'', JStr (oe_order_id e)),
     (''replaced_order_id'', opt_json JStr (oe_replaced_order_id e)),
     (''dataset_id'', JStr (oe_dataset_id e)),
     (''execution_policy_digest'', JStr (oe_execution_policy_digest e)),
     (''symbol_index'', JInt (oe_symbol_index e)),
     (''event_type'', JStr (oe_event_type e)),
     (''processing_index'', JInt (oe_processing_index e)),
     (''timestamp_ns'', JInt (oe_timestamp_ns e)),
     (''previous_status'', JStr (order_status_value (oe_previous_status e))),
     (''new_status'', JStr (order_status_value (oe_new_status e))),
     (''requested_quantity'', JFloat (oe_requested_quantity e)),
     (''remaining_quantity'', JFloat (oe_remaining_quantity e)),
     (''filled_quantity'', JFloat (oe_filled_quantity e)),
     (''execution_price'', opt_json JFloat (oe_execution_price e)),
     (''filled_notional'', JFloat (oe_filled_notional e)),
     (''capacity_before'', JFloat (oe_capacity_before e)),
     (''capacity_after'', JFloat (oe_capacity_after e)),
     (''participation_rate'', JFloat (oe_participation_rate e)),
     (''trigger_segment'', opt_json JStr (oe_trigger_segment e)),
     (''available_volume_fraction'', JFloat (oe_available_volume_fraction e)),
     (''reason'', opt_json JStr (oe_reason e)),
     (''path_mode'', JStr (oe_path_mode e)),
     (''path_points'', JList (map JFloat (oe_path_points e)))]
     @ (if oe_reduce_only e then [(''reduce_only'', JBool True)] else [])"

definition as_price :: "json \<Rightarrow> f64 option res" where
  "as_price j = (case j of
      JNull \<Rightarrow> Inr None
    | JFloat x \<Rightarrow> Inr (Some x)
    | JInt n \<Rightarrow> bindr (float_of_int n) (\<lambda>x. Inr (Some x))
    | _ \<Rightarrow> Inl (order_error ''execution_price must be numeric or null''))"

fun is_number :: "json \<Rightarrow> bool" where
  "is_number (JInt _) = True"
| "is_number (JFloat _) = True"
| "is_number _ = False"

text \<open>The type test of \<open>path_points\<close> runs first, the conversions when the event is built.\<close>

definition as_points :: "json \<Rightarrow> json list res" where
  "as_points j = (case j of
      JList xs \<Rightarrow> if list_all is_number xs then Inr xs
        else Inl (order_error ''path_points must be a numeric list'')
    | _ \<Rightarrow> Inl (order_error ''path_points must be a numeric list''))"

definition price_type_check :: "json \<Rightarrow> unit res" where
  "price_type_check j = (if j = JNull \<or> is_number j then Inr ()
     else Inl (order_error ''execution_price must be numeric or null''))"

definition event_from_mapping :: "json_object \<Rightarrow> order_event res" where
  "event_from_mapping value =
     (if \<not> closure_ok event_fields ''reduce_only'' value
      then Inl (order_error ''order event field closure mismatch'') else
      bindr (read_reduce_only value) (\<lambda>reduce_only.
      bindr (item value ''execution_price'') (\<lambda>raw_price.
      bindr (price_type_check raw_price) (\<lambda>_.
      bindr (item value ''path_points'') (\<lambda>raw_points.
      bindr (as_points raw_points) (\<lambda>point_items.
      bindr (rewrap (\<lambda>_. order_error ''event status is unsupported'')
        (bindr (bindr (field as_string value ''previous_status'') order_status_of) (\<lambda>ps.
         bindr (bindr (field as_string value ''new_status'') order_status_of) (\<lambda>ns. Inr (ps, ns)))))
        (\<lambda>(previous, new).
      bindr (field as_string value ''schema_version'') (\<lambda>schema.
      bindr (field as_integer value ''sequence'') (\<lambda>sequence.
      bindr (field as_string value ''order_id'') (\<lambda>order_id.
      bindr (field as_optional_string value ''replaced_order_id'') (\<lambda>replaced.
      bindr (field as_string value ''dataset_id'') (\<lambda>dataset_id.
      bindr (field as_string value ''execution_policy_digest'') (\<lambda>digest.
      bindr (field as_integer value ''symbol_index'') (\<lambda>symbol_index.
      bindr (field as_string value ''event_type'') (\<lambda>event_type.
      bindr (field as_integer value ''processing_index'') (\<lambda>processing_index.
      bindr (field as_integer value ''timestamp_ns'') (\<lambda>timestamp_ns.
      bindr (field as_number value ''requested_quantity'') (\<lambda>requested.
      bindr (field as_number value ''remaining_quantity'') (\<lambda>remaining.
      bindr (field as_number value ''filled_quantity'') (\<lambda>filled.
      bindr (as_price raw_price) (\<lambda>price.
      bindr (field as_number value ''filled_notional'') (\<lambda>notional.
      bindr (field as_number value ''capacity_before'') (\<lambda>before.
      bindr (field as_number value ''capacity_after'') (\<lambda>after.
      bindr (field as_number value ''participation_rate'') (\<lambda>participation.
      bindr (field as_optional_string value ''trigger_segment'') (\<lambda>segment.
      bindr (field as_number value ''available_volume_fraction'') (\<lambda>volume_fraction.
      bindr (field as_optional_string value ''reason'') (\<lambda>reason.
      bindr (field as_string value ''path_mode'') (\<lambda>path_mode.
      bindr (mapr (as_number ''path_points'') point_items) (\<lambda>points.
      event_post_init \<lparr>oe_schema_version = schema, oe_sequence = sequence, oe_order_id = order_id,
        oe_replaced_order_id = replaced, oe_dataset_id = dataset_id, oe_execution_policy_digest = digest,
        oe_symbol_index = symbol_index, oe_event_type = event_type, oe_processing_index = processing_index,
        oe_timestamp_ns = timestamp_ns, oe_previous_status = previous, oe_new_status = new,
        oe_requested_quantity = requested, oe_remaining_quantity = remaining,
        oe_filled_quantity = filled, oe_execution_price = price, oe_filled_notional = notional,
        oe_capacity_before = before, oe_capacity_after = after, oe_participation_rate = participation,
        oe_trigger_segment = segment, oe_available_volume_fraction = volume_fraction,
        oe_reason = reason, oe_path_mode = path_mode, oe_path_points = points,
        oe_reduce_only = reduce_only\<rparr>))))))))))))))))))))))))))))))"

section \<open>Facts\<close>

definition event_wf :: "order_event \<Rightarrow> bool" where
  "event_wf e \<longleftrightarrow> event_post_init e = Inr e"

lemma event_post_init_same: "event_post_init e = Inr f \<Longrightarrow> f = e \<and> event_wf e"
  by (auto simp: event_post_init_def event_wf_def res_iff)

lemma event_closure: "closure_ok event_fields ''reduce_only'' (event_payload e)"
  by (cases "oe_reduce_only e") (auto simp: closure_ok_def event_fields_def event_payload_def)

lemma event_reduce_only: "read_reduce_only (event_payload e) = Inr (oe_reduce_only e)"
  by (simp add: read_reduce_only_def event_payload_def)

lemma event_items:
  "item (event_payload e) ''execution_price'' = Inr (opt_json JFloat (oe_execution_price e))"
  "item (event_payload e) ''path_points'' = Inr (JList (map JFloat (oe_path_points e)))"
  by (simp_all add: item_def event_payload_def)

lemma event_string_fields:
  "field as_string (event_payload e) ''schema_version'' = Inr (oe_schema_version e)"
  "field as_string (event_payload e) ''order_id'' = Inr (oe_order_id e)"
  "field as_optional_string (event_payload e) ''replaced_order_id'' = Inr (oe_replaced_order_id e)"
  "field as_string (event_payload e) ''dataset_id'' = Inr (oe_dataset_id e)"
  "field as_string (event_payload e) ''execution_policy_digest'' = Inr (oe_execution_policy_digest e)"
  "field as_string (event_payload e) ''event_type'' = Inr (oe_event_type e)"
  "field as_string (event_payload e) ''previous_status'' = Inr (order_status_value (oe_previous_status e))"
  "field as_string (event_payload e) ''new_status'' = Inr (order_status_value (oe_new_status e))"
  "field as_optional_string (event_payload e) ''trigger_segment'' = Inr (oe_trigger_segment e)"
  "field as_optional_string (event_payload e) ''reason'' = Inr (oe_reason e)"
  "field as_string (event_payload e) ''path_mode'' = Inr (oe_path_mode e)"
  by (simp_all add: field_def item_def event_payload_def)

lemma event_number_fields:
  "field as_integer (event_payload e) ''sequence'' = Inr (oe_sequence e)"
  "field as_integer (event_payload e) ''symbol_index'' = Inr (oe_symbol_index e)"
  "field as_integer (event_payload e) ''processing_index'' = Inr (oe_processing_index e)"
  "field as_integer (event_payload e) ''timestamp_ns'' = Inr (oe_timestamp_ns e)"
  "field as_number (event_payload e) ''requested_quantity'' = Inr (oe_requested_quantity e)"
  "field as_number (event_payload e) ''remaining_quantity'' = Inr (oe_remaining_quantity e)"
  "field as_number (event_payload e) ''filled_quantity'' = Inr (oe_filled_quantity e)"
  "field as_number (event_payload e) ''filled_notional'' = Inr (oe_filled_notional e)"
  "field as_number (event_payload e) ''capacity_before'' = Inr (oe_capacity_before e)"
  "field as_number (event_payload e) ''capacity_after'' = Inr (oe_capacity_after e)"
  "field as_number (event_payload e) ''participation_rate'' = Inr (oe_participation_rate e)"
  "field as_number (event_payload e) ''available_volume_fraction'' = Inr (oe_available_volume_fraction e)"
  by (simp_all add: field_def item_def event_payload_def)

lemma price_payload [simp]:
  "price_type_check (opt_json JFloat x) = Inr ()" "as_price (opt_json JFloat x) = Inr x"
  by (cases x; simp add: price_type_check_def as_price_def)+

lemma points_payload [simp]:
  "as_points (JList (map JFloat xs)) = Inr (map JFloat xs)"
  "mapr (as_number f) (map JFloat xs) = Inr xs"
  by (simp add: as_points_def list_all_iff) (induction xs; simp)

lemma event_from_payload: "event_from_mapping (event_payload e) = event_post_init e"
  unfolding event_from_mapping_def
  by (cases e) (simp add: event_closure event_reduce_only event_items event_string_fields event_number_fields)

lemma event_from_mapping_wf: "event_from_mapping v = Inr e \<Longrightarrow> event_wf e"
  unfolding event_from_mapping_def by (auto simp: res_iff split: if_splits dest: event_post_init_same)

lemma validate_digest_Inr [res_iff]: "validate_digest f v = Inr u \<longleftrightarrow> is_sha256 v"
  by (auto simp: validate_digest_def res_iff)

lemma event_wf_facts:
  assumes "event_wf e"
  shows "0 \<le> oe_sequence e \<and> is_sha256 (oe_order_id e) \<and> 0 \<le> oe_symbol_index e \<and>
    0 \<le> oe_processing_index e \<and> oe_event_type e \<in> set event_types \<and>
    within_unit (oe_participation_rate e) \<and> within_unit (oe_available_volume_fraction e) \<and>
    \<not> flt (oe_filled_notional e) (F 0) \<and> \<not> flt (oe_capacity_before e) (F 0) \<and>
    \<not> flt (oe_capacity_after e) (F 0) \<and> (oe_path_points e \<noteq> [] \<longrightarrow> length (oe_path_points e) = 4)"
  using assms by (auto simp: event_wf_def event_post_init_def event_number_checks_def event_path_checks_def res_iff)

end
