(* ===== verification/BarPath.thy ===== *)
theory BarPath
  imports PendingOrders
begin

text \<open>
  \<open>trade_rl/simulation/bar_path.py\<close>: the deterministic path through one OHLC bar and
  the evaluation of an order's trigger against it.  The lemmas show which points a path
  visits, that every execution price lies inside the bar and respects the order's limit
  or stop, exactly when a limit or stop is reached, and that the path modes are ordered.
\<close>

section \<open>Paths and decisions\<close>

datatype path_mode = OPTIMISTIC | NEUTRAL | CONSERVATIVE

datatype trigger_segment = OPEN | FIRST_EXTREME | SECOND_EXTREME | CLOSE

abbreviation path_error :: "string \<Rightarrow> exc" where
  "path_error m \<equiv> Raise BarPathError m"

fun volume_fraction_for_segment :: "trigger_segment \<Rightarrow> f64" where
  "volume_fraction_for_segment OPEN = F 1"
| "volume_fraction_for_segment FIRST_EXTREME = F (1 / 2)"
| "volume_fraction_for_segment SECOND_EXTREME = F (1 / 4)"
| "volume_fraction_for_segment CLOSE = F 0"

record bar_path =
  bp_mode :: path_mode
  bp_points :: "f64 list"
  bp_mixed_direction_fallback :: bool

definition bad_price :: "f64 \<Rightarrow> bool" where
  "bad_price x \<longleftrightarrow> \<not> isfinite x \<or> fle x (F 0)"

definition bar_path_post_init :: "bar_path \<Rightarrow> bar_path res" where
  "bar_path_post_init b = bindr (checks [
     (length (bp_points b) \<noteq> 4, path_error ''bar path must contain open, two extremes, and close''),
     (list_ex bad_price (bp_points b), path_error ''bar path points must be finite and positive'')])
     (\<lambda>_. Inr b)"

record trigger_decision =
  td_executable :: bool
  td_triggered :: bool
  td_execution_price :: "f64 option"
  td_segment :: "trigger_segment option"
  td_available_volume_fraction :: f64
  td_reason :: "string option"

definition decision_post_init :: "trigger_decision \<Rightarrow> trigger_decision res" where
  "decision_post_init d = bindr (checks [
     (td_executable d \<and> td_execution_price d = None,
        path_error ''executable trigger decisions require a price''),
     (case td_execution_price d of None \<Rightarrow> False | Some p \<Rightarrow> bad_price p,
        path_error ''execution price must be finite and positive''),
     (\<not> (fle (F 0) (td_available_volume_fraction d) \<and> fle (td_available_volume_fraction d) (F 1)),
        path_error ''available volume fraction must be within [0, 1]'')]) (\<lambda>_. Inr d)"

definition neutral_points :: "f64 \<Rightarrow> f64 \<Rightarrow> f64 \<Rightarrow> f64 \<Rightarrow> f64 list" where
  "neutral_points open_price high low close =
     (if fle (fsub open_price low) (fsub high open_price)
      then [open_price, low, high, close] else [open_price, high, low, close])"

definition select_bar_path ::
  "f64 \<Rightarrow> f64 \<Rightarrow> f64 \<Rightarrow> f64 \<Rightarrow> path_mode \<Rightarrow> int set \<Rightarrow> bar_path res" where
  "select_bar_path open_price high low close mode active =
    (let mixed = (active = {-1, 1}) in
     bindr (checks [
       (list_ex bad_price [open_price, high, low, close],
          path_error ''OHLC values must be finite and positive''),
       (flt (fmin open_price close) low \<or> flt high (fmax open_price close) \<or> flt high low,
          path_error ''OHLC values are internally inconsistent''),
       (\<not> active \<subseteq> {-1, 1}, path_error ''active directions must contain only -1 and 1'')]) (\<lambda>_.
     if mode = NEUTRAL \<or> mixed \<or> active = {}
     then bar_path_post_init \<lparr>bp_mode = NEUTRAL,
       bp_points = neutral_points open_price high low close, bp_mixed_direction_fallback = mixed\<rparr>
     else let up = 0 < the_elem active;
       (first, second) = (if mode = CONSERVATIVE then (if up then (high, low) else (low, high))
                          else (if up then (low, high) else (high, low)))
     in bar_path_post_init \<lparr>bp_mode = mode, bp_points = [open_price, first, second, close],
       bp_mixed_direction_fallback = False\<rparr>))"

section \<open>Triggers\<close>

definition segment_for_index :: "nat \<Rightarrow> trigger_segment" where
  "segment_for_index index = [FIRST_EXTREME, SECOND_EXTREME, CLOSE] ! (index - 1)"

definition touches :: "f64 \<Rightarrow> bool \<Rightarrow> f64 \<Rightarrow> f64 \<Rightarrow> bool" where
  "touches level upward s e \<longleftrightarrow>
     (if upward then flt s level \<and> fle level e else flt level s \<and> fle e level)"

text \<open>The loop over \<open>index\<close>; \<open>s\<close> is \<open>points[index - 1]\<close>.\<close>

fun touch_from :: "nat \<Rightarrow> f64 \<Rightarrow> bool \<Rightarrow> f64 \<Rightarrow> f64 list \<Rightarrow> (nat \<times> trigger_segment) option" where
  "touch_from index level upward s [] = None"
| "touch_from index level upward s (e # rest) =
     (if touches level upward s e then Some (index, segment_for_index index)
      else touch_from (Suc index) level upward e rest)"

definition first_directional_touch :: "f64 list \<Rightarrow> f64 \<Rightarrow> bool \<Rightarrow> (nat \<times> trigger_segment) option" where
  "first_directional_touch points level upward = touch_from 1 level upward (hd points) (tl points)"

definition decision_at_open :: "f64 \<Rightarrow> bool \<Rightarrow> trigger_decision res" where
  "decision_at_open price triggered = decision_post_init
     \<lparr>td_executable = True, td_triggered = triggered, td_execution_price = Some price,
      td_segment = Some OPEN, td_available_volume_fraction = volume_fraction_for_segment OPEN,
      td_reason = None\<rparr>"

definition no_touch :: "trigger_decision res" where
  "no_touch = decision_post_init
     \<lparr>td_executable = False, td_triggered = False, td_execution_price = None, td_segment = None,
      td_available_volume_fraction = F 0, td_reason = Some ''not_touched''\<rparr>"

definition decision_at :: "f64 \<Rightarrow> bool \<Rightarrow> trigger_segment \<Rightarrow> trigger_decision res" where
  "decision_at price triggered segment = decision_post_init
     \<lparr>td_executable = True, td_triggered = triggered, td_execution_price = Some price,
      td_segment = Some segment, td_available_volume_fraction = volume_fraction_for_segment segment,
      td_reason = None\<rparr>"

definition evaluate_limit :: "bool \<Rightarrow> f64 \<Rightarrow> bar_path \<Rightarrow> trigger_decision res" where
  "evaluate_limit buy limit path = (let open_price = hd (bp_points path) in
     if (buy \<and> fle open_price limit) \<or> (\<not> buy \<and> fle limit open_price)
     then decision_at_open open_price False
     else (case first_directional_touch (bp_points path) limit (\<not> buy) of
         None \<Rightarrow> no_touch
       | Some (_, segment) \<Rightarrow> decision_at limit False segment))"

definition stop_price_at :: "bool \<Rightarrow> f64 \<Rightarrow> nat \<Rightarrow> bar_path \<Rightarrow> f64" where
  "stop_price_at buy stop index path = (if bp_mode path = CONSERVATIVE
     then foldl (if buy then fmax else fmin) stop (drop index (bp_points path)) else stop)"

definition evaluate_stop :: "bool \<Rightarrow> bool \<Rightarrow> f64 \<Rightarrow> bar_path \<Rightarrow> trigger_decision res" where
  "evaluate_stop armed buy stop path = (let open_price = hd (bp_points path) in
     if armed then decision_at_open open_price True
     else if (buy \<and> fle stop open_price) \<or> (\<not> buy \<and> fle open_price stop)
     then decision_at_open open_price True
     else (case first_directional_touch (bp_points path) stop buy of
         None \<Rightarrow> no_touch
       | Some (index, segment) \<Rightarrow> decision_at (stop_price_at buy stop index path) True segment))"

definition evaluate_trigger :: "pending_order \<Rightarrow> bar_path \<Rightarrow> trigger_decision res" where
  "evaluate_trigger order path =
    (let intent = po_intent order; buy = flt (F 0) (po_remaining_quantity order) in
     if po_terminal order then Inl (path_error ''terminal orders cannot be evaluated'')
     else if po_status order \<notin> {ELIGIBLE, TRIGGERED, PARTIALLY_FILLED}
     then Inl (path_error ''order must be eligible before trigger evaluation'')
     else (case oi_order_type intent of
         MARKET \<Rightarrow> decision_at_open (hd (bp_points path)) False
       | LIMIT \<Rightarrow> (case oi_limit_price intent of
           None \<Rightarrow> Inl (Raise AssertionError []) | Some limit \<Rightarrow> evaluate_limit buy limit path)
       | STOP_MARKET \<Rightarrow> (case oi_stop_price intent of
           None \<Rightarrow> Inl (Raise AssertionError [])
         | Some stop \<Rightarrow> evaluate_stop (po_status order \<in> {TRIGGERED, PARTIALLY_FILLED} \<and>
             po_trigger_index order \<noteq> None) buy stop path)))"

section \<open>Selected paths\<close>

text \<open>A bar that passes the checks, as the source states them, over rationals.\<close>

definition bar_ok :: "f64 \<Rightarrow> f64 \<Rightarrow> f64 \<Rightarrow> f64 \<Rightarrow> bool" where
  "bar_ok o' h l c \<longleftrightarrow> (\<forall>x \<in> set [o', h, l, c]. isfinite x \<and> 0 < val x) \<and>
     val l \<le> val o' \<and> val l \<le> val c \<and> val o' \<le> val h \<and> val c \<le> val h"

lemma bad_price_iff: "bad_price x \<longleftrightarrow> \<not> (isfinite x \<and> 0 < val x)"
  by (cases "isfinite x") (auto simp: bad_price_def)

lemma bar_checks: "checks [
       (list_ex bad_price [o', h, l, c], e1),
       (flt (fmin o' c) l \<or> flt h (fmax o' c) \<or> flt h l, e2), (b, e3)] = Inr u \<longleftrightarrow>
     bar_ok o' h l c \<and> \<not> b"
  by (auto simp: bad_price_iff bar_ok_def fmin_def fmax_def)

definition path_points_ok :: "f64 \<Rightarrow> f64 \<Rightarrow> f64 \<Rightarrow> f64 \<Rightarrow> f64 list \<Rightarrow> bool" where
  "path_points_ok o' h l c ps \<longleftrightarrow> ps = [o', h, l, c] \<or> ps = [o', l, h, c]"

lemma path_post_init_ok:
  "bar_ok o' h l c \<Longrightarrow> path_points_ok o' h l c (bp_points b) \<Longrightarrow> bar_path_post_init b = Inr b"
  by (auto simp: bar_path_post_init_def path_points_ok_def bar_ok_def bad_price_iff checks_Cons_False)

definition selected_path :: "f64 \<Rightarrow> f64 \<Rightarrow> f64 \<Rightarrow> f64 \<Rightarrow> path_mode \<Rightarrow> int set \<Rightarrow> bar_path" where
  "selected_path o' h l c m ds = (if m = NEUTRAL \<or> ds = {-1, 1} \<or> ds = {} then
        \<lparr>bp_mode = NEUTRAL, bp_points = neutral_points o' h l c, bp_mixed_direction_fallback = (ds = {-1, 1})\<rparr>
      else \<lparr>bp_mode = m, bp_points = (if (m = CONSERVATIVE) = (0 < the_elem ds)
         then [o', h, l, c] else [o', l, h, c]), bp_mixed_direction_fallback = False\<rparr>)"

lemma selected_path_points: "path_points_ok o' h l c (bp_points (selected_path o' h l c m ds))"
  by (simp add: path_points_ok_def neutral_points_def selected_path_def)

lemma select_bar_path_Inr:
  "select_bar_path o' h l c m ds = Inr b \<longleftrightarrow> bar_ok o' h l c \<and> ds \<subseteq> {-1, 1} \<and> b = selected_path o' h l c m ds"
proof -
  have eq: "select_bar_path o' h l c m ds = bindr (checks [
       (list_ex bad_price [o', h, l, c], path_error ''OHLC values must be finite and positive''),
       (flt (fmin o' c) l \<or> flt h (fmax o' c) \<or> flt h l,
          path_error ''OHLC values are internally inconsistent''),
       (\<not> ds \<subseteq> {-1, 1}, path_error ''active directions must contain only -1 and 1'')])
       (\<lambda>_. bar_path_post_init (selected_path o' h l c m ds))"
    unfolding select_bar_path_def selected_path_def Let_def by (rule bindr_cong) simp_all
  have fine: "bar_path_post_init (selected_path o' h l c m ds) = Inr (selected_path o' h l c m ds)"
    if "bar_ok o' h l c" using that selected_path_points by (rule path_post_init_ok)
  show ?thesis
  proof (cases "bar_ok o' h l c \<and> ds \<subseteq> {-1, 1}")
    case True
    then show ?thesis unfolding eq bindr_Inr bar_checks using fine by auto
  next
    case False
    then show ?thesis unfolding eq bindr_Inr bar_checks by blast
  qed
qed

lemma selected_points:
  assumes "select_bar_path o' h l c m ds = Inr b"
  shows "bar_ok o' h l c" and "path_points_ok o' h l c (bp_points b)"
  using assms by (simp_all add: select_bar_path_Inr selected_path_points)

section \<open>Touches\<close>

lemma touch_from_Some:
  "touch_from n level up s ps = Some (k, seg) \<Longrightarrow>
     n \<le> k \<and> k - n < length ps \<and> seg = segment_for_index k \<and>
     touches level up ((s # ps) ! (k - n)) (ps ! (k - n))"
proof (induction n level up s ps rule: touch_from.induct)
  case (2 n level up s e rest)
  show ?case
  proof (cases "touches level up s e")
    case False
    with 2 have i: "Suc n \<le> k \<and> k - Suc n < length rest \<and> seg = segment_for_index k \<and>
      touches level up ((e # rest) ! (k - Suc n)) (rest ! (k - Suc n))" by simp
    from i have "Suc n \<le> k" by blast
    then have "k - n = Suc (k - Suc n)" by arith
    with i show ?thesis by simp
  qed (use 2 in auto)
qed simp

text \<open>Starting on the near side, the level is touched iff some later point reaches it.\<close>

lemma touch_from_iff:
  assumes "isfinite level" and "\<forall>x \<in> set (s # ps). isfinite x"
    and "if up then val s < val level else val level < val s"
  shows "touch_from n level up s ps = None \<longleftrightarrow>
    (\<forall>x \<in> set ps. if up then val x < val level else val level < val x)"
  using assms(2,3)
proof (induction ps arbitrary: n s)
  case (Cons e rest)
  then show ?case using Cons.IH [of e "Suc n"] assms(1) by (auto simp: touches_def split: if_splits)
qed simp

section \<open>Decisions\<close>

definition placed :: "f64 \<Rightarrow> bool \<Rightarrow> trigger_segment \<Rightarrow> trigger_decision" where
  "placed price triggered segment = \<lparr>td_executable = True, td_triggered = triggered,
      td_execution_price = Some price, td_segment = Some segment,
      td_available_volume_fraction = volume_fraction_for_segment segment, td_reason = None\<rparr>"

definition untouched :: trigger_decision where
  "untouched = \<lparr>td_executable = False, td_triggered = False, td_execution_price = None, td_segment = None,
      td_available_volume_fraction = F 0, td_reason = Some ''not_touched''\<rparr>"

lemma placed_simps [simp]:
  "td_executable (placed p t g)" "td_triggered (placed p t g) = t"
  "td_execution_price (placed p t g) = Some p" "td_segment (placed p t g) = Some g"
  "td_available_volume_fraction (placed p t g) = volume_fraction_for_segment g"
  "\<not> td_executable untouched" "td_execution_price untouched = None" "\<not> td_triggered untouched"
  "td_available_volume_fraction untouched = F 0"
  by (simp_all add: placed_def untouched_def)

lemma decision_Inr [simp]:
  "decision_at p t g = Inr d \<longleftrightarrow> isfinite p \<and> 0 < val p \<and> d = placed p t g"
  "decision_at_open p t = Inr d \<longleftrightarrow> isfinite p \<and> 0 < val p \<and> d = placed p t OPEN"
  "no_touch = Inr d \<longleftrightarrow> d = untouched"
proof -
  have "isfinite (volume_fraction_for_segment g)" "0 \<le> val (volume_fraction_for_segment g)"
    "val (volume_fraction_for_segment g) \<le> 1" for g by (cases g; simp)+
  then show "decision_at p t g = Inr d \<longleftrightarrow> isfinite p \<and> 0 < val p \<and> d = placed p t g"
    "decision_at_open p t = Inr d \<longleftrightarrow> isfinite p \<and> 0 < val p \<and> d = placed p t OPEN"
    by (auto simp: decision_at_def decision_at_open_def decision_post_init_def res_iff placed_def bad_price_iff)
  show "no_touch = Inr d \<longleftrightarrow> d = untouched"
    by (auto simp: no_touch_def decision_post_init_def res_iff untouched_def)
qed

lemma touch_down:
  assumes "bar_ok o' h l c" and "path_points_ok o' h l c ps" and "isfinite level" and "val level < val o'"
  shows "first_directional_touch ps level False = None \<longleftrightarrow> val level < val l"
  using assms touch_from_iff [of level "hd ps" "tl ps" False 1]
  by (auto simp: path_points_ok_def bar_ok_def first_directional_touch_def)

lemma touch_up:
  assumes "bar_ok o' h l c" and "path_points_ok o' h l c ps" and "isfinite level" and "val o' < val level"
  shows "first_directional_touch ps level True = None \<longleftrightarrow> val h < val level"
  using assms touch_from_iff [of level "hd ps" "tl ps" True 1]
  by (auto simp: path_points_ok_def bar_ok_def first_directional_touch_def)

text \<open>
  A limit order executes on a bar exactly when the bar trades at its limit or better, at a
  price inside the bar that is never worse than the limit.
\<close>

lemma evaluate_limit_iff:
  assumes bar: "bar_ok o' h l c" and pts: "path_points_ok o' h l c (bp_points path)"
    and lim: "isfinite limit" "0 < val limit" and d: "evaluate_limit buy limit path = Inr d"
  shows "td_executable d \<longleftrightarrow> (if buy then val l \<le> val limit else val limit \<le> val h)"
    and "td_execution_price d = Some p \<Longrightarrow> isfinite p \<and> val l \<le> val p \<and> val p \<le> val h \<and>
      (if buy then val p \<le> val limit else val limit \<le> val p)"
proof -
  have o': "hd (bp_points path) = o'" "isfinite o'" "isfinite h" "isfinite l"
    using bar pts by (auto simp: path_points_ok_def bar_ok_def)
  have "(td_executable d \<longleftrightarrow> (if buy then val l \<le> val limit else val limit \<le> val h)) \<and>
    (\<forall>p. td_execution_price d = Some p \<longrightarrow> isfinite p \<and> val l \<le> val p \<and> val p \<le> val h \<and>
      (if buy then val p \<le> val limit else val limit \<le> val p))"
  proof (cases "if buy then val o' \<le> val limit else val limit \<le> val o'")
    case True
    then show ?thesis using d bar lim o' by (auto simp: evaluate_limit_def bar_ok_def split: if_splits)
  next
    case False
    then show ?thesis
      using d bar lim o' touch_down [OF bar pts lim(1)] touch_up [OF bar pts lim(1)]
      by (auto simp: evaluate_limit_def bar_ok_def not_le split: if_splits option.splits)
  qed
  then show "td_executable d \<longleftrightarrow> (if buy then val l \<le> val limit else val limit \<le> val h)"
    and "td_execution_price d = Some p \<Longrightarrow> isfinite p \<and> val l \<le> val p \<and> val p \<le> val h \<and>
      (if buy then val p \<le> val limit else val limit \<le> val p)" by blast+
qed

lemma fold_extreme:
  fixes f :: "f64 \<Rightarrow> f64 \<Rightarrow> f64"
  assumes "f = (if up then fmax else fmin)" and "\<forall>x \<in> set (s # xs). isfinite x"
  shows "foldl f s xs \<in> set (s # xs) \<and>
    (if up then val s \<le> val (foldl f s xs) else val (foldl f s xs) \<le> val s)"
  using assms(2)
proof (induction xs arbitrary: s)
  case (Cons x xs)
  have "f s x \<in> {s, x}" "if up then val s \<le> val (f s x) else val (f s x) \<le> val s"
    using assms(1) Cons.prems by (auto simp: fmax_def fmin_def)
  moreover have "foldl f (f s x) xs \<in> set (f s x # xs) \<and>
    (if up then val (f s x) \<le> val (foldl f (f s x) xs) else val (foldl f (f s x) xs) \<le> val (f s x))"
    by (rule Cons.IH) (use Cons.prems calculation(1) in auto)
  ultimately show ?case by (auto split: if_splits)
qed simp

text \<open>
  A stop that was not armed before triggers exactly when the bar reaches it, at a price
  inside the bar that is never better for the order than the stop.
\<close>

lemma stop_price_bounds:
  assumes bar: "bar_ok o' h l c" and pts: "path_points_ok o' h l c (bp_points path)"
    and st: "isfinite stop" "val l \<le> val stop" "val stop \<le> val h"
  shows "isfinite (stop_price_at buy stop k path) \<and> val l \<le> val (stop_price_at buy stop k path) \<and>
    val (stop_price_at buy stop k path) \<le> val h \<and>
    (if buy then val stop \<le> val (stop_price_at buy stop k path)
     else val (stop_price_at buy stop k path) \<le> val stop)"
proof -
  have "\<forall>x \<in> set (bp_points path). isfinite x \<and> val l \<le> val x \<and> val x \<le> val h"
    using bar pts by (auto simp: path_points_ok_def bar_ok_def)
  then have "\<forall>x \<in> set (stop # drop k (bp_points path)). isfinite x \<and> val l \<le> val x \<and> val x \<le> val h"
    using st set_drop_subset [of k "bp_points path"] by auto
  then show ?thesis
    using fold_extreme [of "if buy then fmax else fmin" buy stop "drop k (bp_points path)"] st
    by (auto simp: stop_price_at_def split: if_splits)
qed

lemma evaluate_stop_iff:
  assumes bar: "bar_ok o' h l c" and pts: "path_points_ok o' h l c (bp_points path)"
    and st: "isfinite stop" "0 < val stop" and d: "evaluate_stop False buy stop path = Inr d"
  shows "td_executable d \<longleftrightarrow> (if buy then val stop \<le> val h else val l \<le> val stop)"
    and "td_triggered d = td_executable d"
    and "td_execution_price d = Some p \<Longrightarrow> isfinite p \<and> val l \<le> val p \<and> val p \<le> val h \<and>
      (if buy then val stop \<le> val p else val p \<le> val stop)"
proof -
  have o': "hd (bp_points path) = o'" "isfinite o'" "isfinite h" "isfinite l"
    using bar pts by (auto simp: path_points_ok_def bar_ok_def)
  note sp = stop_price_bounds [OF bar pts st(1)]
  have "(td_executable d \<longleftrightarrow> (if buy then val stop \<le> val h else val l \<le> val stop)) \<and>
    td_triggered d = td_executable d \<and>
    (\<forall>p. td_execution_price d = Some p \<longrightarrow> isfinite p \<and> val l \<le> val p \<and> val p \<le> val h \<and>
      (if buy then val stop \<le> val p else val p \<le> val stop))"
  proof (cases "if buy then val stop \<le> val o' else val o' \<le> val stop")
    case True
    then show ?thesis using d bar st o' by (auto simp: evaluate_stop_def bar_ok_def split: if_splits)
  next
    case far: False
    show ?thesis
    proof (cases "first_directional_touch (bp_points path) stop buy")
      case None
      then show ?thesis
        using far d bar o' touch_down [OF bar pts st(1)] touch_up [OF bar pts st(1)] st
        by (cases buy) (auto simp: evaluate_stop_def not_le)
    next
      case (Some t)
      then have "val l \<le> val stop" "val stop \<le> val h"
        using far bar touch_down [OF bar pts st(1)] touch_up [OF bar pts st(1)]
        by (cases buy; force simp: bar_ok_def)+
      then show ?thesis using far d Some sp st o'
        by (cases t; cases buy) (auto simp: evaluate_stop_def)
    qed
  qed
  then show "td_executable d \<longleftrightarrow> (if buy then val stop \<le> val h else val l \<le> val stop)"
    and "td_triggered d = td_executable d"
    and "td_execution_price d = Some p \<Longrightarrow> isfinite p \<and> val l \<le> val p \<and> val p \<le> val h \<and>
      (if buy then val stop \<le> val p else val p \<le> val stop)" by blast+
qed

text \<open>
  The order of the modes: the conservative path of a limit order visits the far extreme
  first, so it never leaves the order more of the bar's volume than the optimistic one.
\<close>

lemma limit_volume_order:
  assumes bar: "bar_ok o' h l c" and lim: "isfinite limit" "0 < val limit"
    and far: "bp_points p = (if buy then [o', h, l, c] else [o', l, h, c])"
    and near: "bp_points q = (if buy then [o', l, h, c] else [o', h, l, c])"
    and d: "evaluate_limit buy limit p = Inr d" "evaluate_limit buy limit q = Inr e"
  shows "val (td_available_volume_fraction d) \<le> val (td_available_volume_fraction e)"
proof -
  have fin: "isfinite o'" "isfinite h" "isfinite l" "isfinite c" "val l \<le> val o'" "val l \<le> val c"
    "val o' \<le> val h" "val c \<le> val h" using bar by (auto simp: bar_ok_def)
  show ?thesis using d far near fin lim
    by (cases buy)
      (auto simp: evaluate_limit_def first_directional_touch_def touches_def segment_for_index_def
        split: if_splits)
qed

end
