(* ===== verification/Tasks.thy ===== *)
theory Tasks
  imports Json Validation "HOL-Library.Product_Lexorder"
begin

text \<open>
  \<open>tools/agent_repo/coordination/model.py\<close>: the immutable contracts of coordinated
  tasks, their validation, the canonical payload of a task packet and its digest.

  Enumerations are datatypes whose \<open>_value\<close> functions give the texts of the source;
  \<open>Enum(text)\<close> is \<open>member_of\<close>.  Fields are typed, so that the checks of the source that
  only reject values of another type appear where values come from JSON.
\<close>

section \<open>Enumerations\<close>

datatype execution_mode = READ_ONLY | WRITE

datatype task_phase = PLANNED | READY | EXECUTING | REVIEW | VERIFICATION | INTEGRATION | COMPLETE

datatype task_condition = HEALTHY | BLOCKED | STALE | FAILED | CONFLICTED

datatype risk_level = LOW | MEDIUM | HIGH

datatype dependency_kind = HARD_DEP | EVIDENCE_DEP | INTEGRATION_DEP

datatype evidence_kind = REVIEW_EV | TEST_EV | CI_EV | ARTIFACT_EV | INTEGRATION_EV | POST_MERGE_EV

datatype evidence_result = PASS | FAIL

datatype capability =
    REPOSITORY_READ | LEASE_BRANCH_WRITE | DRAFT_PR_WRITE | ISSUE_COMMENT_WRITE | REVIEW_WRITE
  | CI_READ | ARTIFACT_READ | INTEGRATION_WRITE | MERGE_WRITE

fun execution_mode_value :: "execution_mode \<Rightarrow> string" where
  "execution_mode_value READ_ONLY = ''read_only''"
| "execution_mode_value WRITE = ''write''"

fun task_phase_value :: "task_phase \<Rightarrow> string" where
  "task_phase_value PLANNED = ''planned''"
| "task_phase_value READY = ''ready''"
| "task_phase_value EXECUTING = ''executing''"
| "task_phase_value REVIEW = ''review''"
| "task_phase_value VERIFICATION = ''verification''"
| "task_phase_value INTEGRATION = ''integration''"
| "task_phase_value COMPLETE = ''complete''"

fun task_condition_value :: "task_condition \<Rightarrow> string" where
  "task_condition_value HEALTHY = ''healthy''"
| "task_condition_value BLOCKED = ''blocked''"
| "task_condition_value STALE = ''stale''"
| "task_condition_value FAILED = ''failed''"
| "task_condition_value CONFLICTED = ''conflicted''"

fun risk_level_value :: "risk_level \<Rightarrow> string" where
  "risk_level_value LOW = ''low''"
| "risk_level_value MEDIUM = ''medium''"
| "risk_level_value HIGH = ''high''"

fun dependency_kind_value :: "dependency_kind \<Rightarrow> string" where
  "dependency_kind_value HARD_DEP = ''hard''"
| "dependency_kind_value EVIDENCE_DEP = ''evidence''"
| "dependency_kind_value INTEGRATION_DEP = ''integration''"

fun evidence_kind_value :: "evidence_kind \<Rightarrow> string" where
  "evidence_kind_value REVIEW_EV = ''review''"
| "evidence_kind_value TEST_EV = ''test''"
| "evidence_kind_value CI_EV = ''ci''"
| "evidence_kind_value ARTIFACT_EV = ''artifact''"
| "evidence_kind_value INTEGRATION_EV = ''integration''"
| "evidence_kind_value POST_MERGE_EV = ''post_merge''"

fun capability_value :: "capability \<Rightarrow> string" where
  "capability_value REPOSITORY_READ = ''repository_read''"
| "capability_value LEASE_BRANCH_WRITE = ''lease_branch_write''"
| "capability_value DRAFT_PR_WRITE = ''draft_pr_write''"
| "capability_value ISSUE_COMMENT_WRITE = ''issue_comment_write''"
| "capability_value REVIEW_WRITE = ''review_write''"
| "capability_value CI_READ = ''ci_read''"
| "capability_value ARTIFACT_READ = ''artifact_read''"
| "capability_value INTEGRATION_WRITE = ''integration_write''"
| "capability_value MERGE_WRITE = ''merge_write''"

section \<open>Patterns\<close>

definition is_task_char :: "char \<Rightarrow> bool" where
  "is_task_char c \<longleftrightarrow> is_alnum c \<or> code c = 46 \<or> code c = 95 \<or> code c = 45"

definition is_task_id :: "string \<Rightarrow> bool" where
  "is_task_id s \<longleftrightarrow> s \<noteq> [] \<and> is_alnum (hd s) \<and> list_all is_task_char s"

definition is_namespace_char :: "char \<Rightarrow> bool" where
  "is_namespace_char c \<longleftrightarrow> is_lower c \<or> is_digit c \<or> code c = 95 \<or> code c = 45"

text \<open>\<open>str.partition(":")\<close>.\<close>

definition partition_colon :: "string \<Rightarrow> string \<times> string \<times> string" where
  "partition_colon s = (let head = takeWhile (\<lambda>c. code c \<noteq> 58) s; rest = dropWhile (\<lambda>c. code c \<noteq> 58) s
     in (head, take 1 rest, drop 1 rest))"

text \<open>\<open>^[a-z][a-z0-9_-]*:.+$\<close>, where \<open>.\<close> is any character but a line feed.\<close>

definition is_resource_key :: "string \<Rightarrow> bool" where
  "is_resource_key s = (case partition_colon s of (ns, sep, v) \<Rightarrow>
     sep \<noteq> [] \<and> ns \<noteq> [] \<and> is_lower (hd ns) \<and> list_all is_namespace_char ns \<and>
     v \<noteq> [] \<and> list_all (\<lambda>c. code c \<noteq> 10) v)"

section \<open>Contracts\<close>

record write_scope =
  ws_allow :: "string list"
  ws_deny :: "string list"

definition write_scope_post_init :: "write_scope \<Rightarrow> write_scope res" where
  "write_scope_post_init w = bindr (checks [
     (has_dup (ws_allow w), value_error ''duplicate write allow path''),
     (has_dup (ws_deny w), value_error ''duplicate write deny path''),
     (list_ex blank (ws_allow w @ ws_deny w), value_error ''write scope paths must be non-empty'')])
     (\<lambda>_. Inr w)"

definition write_scope_payload :: "write_scope \<Rightarrow> json" where
  "write_scope_payload w = JObj [(''allow'', JList (map JStr (sort (ws_allow w)))),
     (''deny'', JList (map JStr (sort (ws_deny w))))]"

record task_dependency =
  td_task_id :: string
  td_kind :: dependency_kind
  td_requires_phase :: task_phase

definition task_dependency_post_init :: "task_dependency \<Rightarrow> task_dependency res" where
  "task_dependency_post_init d = (if \<not> is_task_id (td_task_id d)
     then Inl (value_error ''dependency task_id is invalid'') else Inr d)"

definition dependency_payload :: "task_dependency \<Rightarrow> json" where
  "dependency_payload d = JObj [(''task_id'', JStr (td_task_id d)),
     (''kind'', JStr (dependency_kind_value (td_kind d))),
     (''requires_phase'', JStr (task_phase_value (td_requires_phase d)))]"

record task_packet =
  tp_task_id :: string
  tp_task_revision :: int
  tp_parent_issue :: "int option"
  tp_title :: string
  tp_objective :: string
  tp_execution_mode :: execution_mode
  tp_non_goals :: "string list"
  tp_dependencies :: "task_dependency list"
  tp_write_scope :: write_scope
  tp_resource_keys :: "string list"
  tp_capabilities :: "capability list"
  tp_acceptance_criteria :: "string list"
  tp_test_oracle :: "string list"
  tp_base_sha :: string
  tp_risk :: risk_level
  tp_deliverable :: string

definition require_full_sha :: "string \<Rightarrow> string \<Rightarrow> unit res" where
  "require_full_sha field v = (if is_git_sha v then Inr ()
     else Inl (value_error (field @ '' must be a lowercase 40-hex Git SHA'')))"

definition require_digest :: "string \<Rightarrow> string \<Rightarrow> unit res" where
  "require_digest field v = (if is_sha256 v then Inr ()
     else Inl (value_error (field @ '' must be a lowercase 64-hex SHA-256 digest'')))"

text \<open>The loop over the resource keys stops at the first that does not match.\<close>

definition resource_key_check :: "string list \<Rightarrow> unit res" where
  "resource_key_check keys = (case find (\<lambda>k. \<not> is_resource_key k) keys of
      None \<Rightarrow> Inr () | Some k \<Rightarrow> Inl (value_error (''invalid resource key: '' @ k)))"

definition write_capabilities :: "capability list" where
  "write_capabilities = [LEASE_BRANCH_WRITE, DRAFT_PR_WRITE, INTEGRATION_WRITE, MERGE_WRITE]"

definition mode_check :: "task_packet \<Rightarrow> unit res" where
  "mode_check p = (if tp_execution_mode p = READ_ONLY
     then checks [
       (ws_allow (tp_write_scope p) \<noteq> [],
          value_error ''read_only task cannot declare writable allow paths''),
       (list_ex (\<lambda>c. c \<in> set (tp_capabilities p)) write_capabilities,
          value_error ''read_only task cannot request write capabilities'')]
     else if ws_allow (tp_write_scope p) = []
     then Inl (value_error ''write task requires at least one allow path'') else Inr ())"

definition task_packet_post_init :: "task_packet \<Rightarrow> task_packet res" where
  "task_packet_post_init p = (let dep_ids = map td_task_id (tp_dependencies p) in
     bindr (checks [
       (\<not> is_task_id (tp_task_id p), value_error ''task_id must be a non-empty stable identifier''),
       (tp_task_revision p < 1, value_error ''task_revision must be a positive integer''),
       (case tp_parent_issue p of None \<Rightarrow> False | Some n \<Rightarrow> n < 1,
          value_error ''parent_issue must be a positive integer''),
       (blank (tp_objective p), value_error ''objective must be non-empty''),
       (blank (tp_title p), value_error ''title must be non-empty'')]) (\<lambda>_.
     bindr (require_full_sha ''base_sha'' (tp_base_sha p)) (\<lambda>_.
     bindr (checks [
       (has_dup dep_ids, value_error ''duplicate dependency task_id''),
       (tp_task_id p \<in> set dep_ids, value_error ''task cannot depend on itself''),
       (has_dup (tp_resource_keys p), value_error ''duplicate resource key''),
       (has_dup (tp_capabilities p), value_error ''duplicate capability'')]) (\<lambda>_.
     bindr (resource_key_check (tp_resource_keys p)) (\<lambda>_.
     bindr (mode_check p) (\<lambda>_. Inr p))))))"

definition dependency_key :: "task_dependency \<Rightarrow> string \<times> string \<times> string" where
  "dependency_key d = (td_task_id d, dependency_kind_value (td_kind d),
     task_phase_value (td_requires_phase d))"

definition task_payload :: "task_packet \<Rightarrow> (string \<times> json) list" where
  "task_payload p = [
     (''schema'', JStr ''agent_task_v1''),
     (''task_id'', JStr (tp_task_id p)),
     (''task_revision'', JInt (tp_task_revision p)),
     (''parent_issue'', case tp_parent_issue p of None \<Rightarrow> JNull | Some n \<Rightarrow> JInt n),
     (''objective'', JStr (tp_objective p)),
     (''execution_mode'', JStr (execution_mode_value (tp_execution_mode p))),
     (''non_goals'', JList (map JStr (tp_non_goals p))),
     (''dependencies'', JList (map dependency_payload (sort_key dependency_key (tp_dependencies p)))),
     (''write_scope'', write_scope_payload (tp_write_scope p)),
     (''resource_keys'', JList (map JStr (sort (tp_resource_keys p)))),
     (''capabilities'', JList (map JStr (sort (map capability_value (tp_capabilities p))))),
     (''acceptance_criteria'', JList (map JStr (tp_acceptance_criteria p))),
     (''test_oracle'', JList (map JStr (tp_test_oracle p))),
     (''base_sha'', JStr (tp_base_sha p)),
     (''risk'', JStr (risk_level_value (tp_risk p))),
     (''deliverable'', JStr (tp_deliverable p))]"

text \<open>
  \<open>json.dumps\<close> of a tree without floats cannot fail (\<open>dumps_float_free\<close>); \<open>encoded\<close> is
  its text, in UTF-8.
\<close>

fun float_free :: "json \<Rightarrow> bool" where
  "float_free (JFloat _) \<longleftrightarrow> False"
| "float_free (JList xs) \<longleftrightarrow> list_all float_free xs"
| "float_free (JObj es) \<longleftrightarrow> list_all (\<lambda>(k, v). float_free v) es"
| "float_free _ \<longleftrightarrow> True"

definition encoded :: "json \<Rightarrow> string" where
  "encoded j = (case dumps j of Inr t \<Rightarrow> utf8 t | Inl e \<Rightarrow> [])"

definition contract_digest :: "task_packet \<Rightarrow> string" where
  "contract_digest p = sha256_hex (encoded (JObj (task_payload p)))"

record task_status =
  ts_phase :: task_phase
  ts_condition :: task_condition
  ts_reason :: "string option"

definition blank_option :: "string option \<Rightarrow> bool" where
  "blank_option v \<longleftrightarrow> (case v of None \<Rightarrow> False | Some s \<Rightarrow> blank s)"

definition task_status_post_init :: "task_status \<Rightarrow> task_status res" where
  "task_status_post_init s = (if blank_option (ts_reason s)
     then Inl (value_error ''status reason must be non-empty when provided'') else Inr s)"

record evidence_record =
  ev_kind :: evidence_kind
  ev_task_id :: string
  ev_task_revision :: int
  ev_task_contract_digest :: string
  ev_base_sha :: string
  ev_head_sha :: string
  ev_identifier :: string
  ev_result :: evidence_result
  ev_main_sha :: "string option"

definition evidence_post_init :: "evidence_record \<Rightarrow> evidence_record res" where
  "evidence_post_init e =
     bindr (checks [
       (\<not> is_task_id (ev_task_id e), value_error ''task_id is invalid''),
       (ev_task_revision e < 1, value_error ''task_revision must be a positive integer'')]) (\<lambda>_.
     bindr (require_digest ''task_contract_digest'' (ev_task_contract_digest e)) (\<lambda>_.
     bindr (require_full_sha ''base_sha'' (ev_base_sha e)) (\<lambda>_.
     bindr (require_full_sha ''head_sha'' (ev_head_sha e)) (\<lambda>_.
     bindr (checks [(blank (ev_identifier e), value_error ''evidence identifier must be non-empty'')]) (\<lambda>_.
     bindr (case ev_main_sha e of None \<Rightarrow> Inr () | Some s \<Rightarrow> require_full_sha ''main_sha'' s) (\<lambda>_.
     bindr (checks [(ev_kind e \<in> {INTEGRATION_EV, POST_MERGE_EV} \<and> ev_main_sha e = None,
       value_error ''main_sha is required for integration evidence'')]) (\<lambda>_. Inr e)))))))"

section \<open>Facts\<close>

lemma require_full_sha_Inr [res_iff]: "require_full_sha f v = Inr u \<longleftrightarrow> is_git_sha v"
  by (simp add: require_full_sha_def)

lemma require_digest_Inr [res_iff]: "require_digest f v = Inr u \<longleftrightarrow> is_sha256 v"
  by (simp add: require_digest_def)

lemma resource_key_check_Inr [res_iff]: "resource_key_check ks = Inr u \<longleftrightarrow> (\<forall>k \<in> set ks. is_resource_key k)"
  by (auto simp: resource_key_check_def find_None_iff find_Some_iff split: option.splits)

definition packet_wf :: "task_packet \<Rightarrow> bool" where
  "packet_wf p \<longleftrightarrow> task_packet_post_init p = Inr p"

lemma packet_post_init_same: "task_packet_post_init p = Inr q \<Longrightarrow> q = p \<and> packet_wf p"
  by (auto simp: task_packet_post_init_def packet_wf_def res_iff Let_def)

lemma packet_wf_facts:
  assumes "packet_wf p"
  shows "is_task_id (tp_task_id p) \<and> 1 \<le> tp_task_revision p \<and> is_git_sha (tp_base_sha p) \<and>
    distinct (map td_task_id (tp_dependencies p)) \<and> tp_task_id p \<notin> td_task_id ` set (tp_dependencies p) \<and>
    distinct (tp_resource_keys p) \<and> (\<forall>k \<in> set (tp_resource_keys p). is_resource_key k) \<and>
    (tp_execution_mode p = READ_ONLY \<longrightarrow> ws_allow (tp_write_scope p) = [] \<and>
       set write_capabilities \<inter> set (tp_capabilities p) = {}) \<and>
    (tp_execution_mode p = WRITE \<longrightarrow> ws_allow (tp_write_scope p) \<noteq> [])"
  using assms
  by (cases "tp_execution_mode p")
    (auto simp: packet_wf_def task_packet_post_init_def res_iff Let_def mode_check_def list_ex_iff)

lemma mapr_ex: "(\<And>x. x \<in> set xs \<Longrightarrow> \<exists>y. f x = Inr y) \<Longrightarrow> \<exists>ys. mapr f xs = Inr ys"
  by (induction xs) (simp, fastforce)

lemma dumps_float_free: "float_free j \<Longrightarrow> \<exists>t. dumps j = Inr t"
proof (induction j rule: float_free.induct)
  case (2 xs)
  then have "\<exists>ts. mapr dumps xs = Inr ts" by (intro mapr_ex) (simp add: list_all_iff)
  then show ?case by auto
next
  case (3 es)
  have "\<exists>ts. mapr (\<lambda>(k, v). bindr (dumps v) (\<lambda>t. Inr (k, t))) es = Inr ts"
  proof (rule mapr_ex)
    fix e assume e: "e \<in> set es"
    obtain k v where kv: "e = (k, v)" by (cases e)
    then obtain t where "dumps v = Inr t" using 3 e by (fastforce simp: list_all_iff)
    then show "\<exists>y. (\<lambda>(k, v). bindr (dumps v) (\<lambda>t. Inr (k, t))) e = Inr y" using kv by simp
  qed
  then show ?case by auto
qed simp_all

lemma task_payload_float_free: "float_free (JObj (task_payload p))"
  by (auto simp: task_payload_def list_all_iff dependency_payload_def write_scope_payload_def
      split: option.splits)

lemma contract_digest_encodes:
  obtains t where "dumps (JObj (task_payload p)) = Inr t" and "contract_digest p = sha256_hex (utf8 t)"
  using dumps_float_free [OF task_payload_float_free, of p]
  by (auto simp: contract_digest_def encoded_def)

lemma contract_digest_shape: "is_sha256 (contract_digest p)"
  using sha256_hex_shape by (simp add: contract_digest_def is_sha256_def)

text \<open>What the digest does not depend on: the title, and the order of the unordered collections.\<close>

lemma contract_digest_title [simp]: "contract_digest (p\<lparr>tp_title := t\<rparr>) = contract_digest p"
  by (simp add: contract_digest_def task_payload_def)

end
