(* ===== verification/Conflicts.thy ===== *)
theory Conflicts
  imports Tasks
begin

text \<open>
  \<open>tools/agent_repo/coordination/conflicts.py\<close>: the conflict level of two tasks from
  their resource keys.  The lemmas compare the nested loops with their early returns to a
  maximum over all pairs of keys, and show that two answers for the same two tasks agree
  whatever the order of the arguments.
\<close>

section \<open>Levels\<close>

datatype conflict_level = NO_CONFLICT | SOFT | HARD

instantiation conflict_level :: linorder
begin

fun level_rank :: "conflict_level \<Rightarrow> nat" where
  "level_rank NO_CONFLICT = 0"
| "level_rank SOFT = 1"
| "level_rank HARD = 2"

definition less_eq_conflict_level :: "conflict_level \<Rightarrow> conflict_level \<Rightarrow> bool" where
  "a \<le> b \<longleftrightarrow> level_rank a \<le> level_rank b"

definition less_conflict_level :: "conflict_level \<Rightarrow> conflict_level \<Rightarrow> bool" where
  "a < b \<longleftrightarrow> level_rank a < level_rank b"

lemma level_rank_inj: "level_rank a = level_rank b \<Longrightarrow> a = b"
  by (cases a; cases b) simp_all

instance
  by standard (auto simp: less_eq_conflict_level_def less_conflict_level_def intro: level_rank_inj)

end

section \<open>Resource keys\<close>

definition allowed_namespaces :: "string list" where
  "allowed_namespaces = [''file'', ''authority'', ''identity'', ''schema'', ''workflow'', ''artifact'',
     ''side-effect'']"

definition hard_namespaces :: "string list" where
  "hard_namespaces = [''identity'', ''schema'', ''side-effect'']"

definition soft_namespaces :: "string list" where
  "soft_namespaces = [''authority'', ''workflow'', ''artifact'']"

definition split_key :: "string \<Rightarrow> (string \<times> string) res" where
  "split_key key = (case partition_colon key of (namespace, separator, v) \<Rightarrow>
     if separator = [] \<or> namespace \<notin> set allowed_namespaces \<or> v = []
     then Inl (value_error (''unknown resource namespace: '' @ key)) else Inr (namespace, v))"

definition is_slash :: "char \<Rightarrow> bool" where
  "is_slash c \<longleftrightarrow> code c = 47"

definition rstrip_slash :: "string \<Rightarrow> string" where
  "rstrip_slash s = rev (dropWhile is_slash (rev s))"

definition strip_slash :: "string \<Rightarrow> string" where
  "strip_slash s = rstrip_slash (dropWhile is_slash s)"

fun split_slash :: "string \<Rightarrow> string list" where
  "split_slash [] = [[]]"
| "split_slash (c # s) = (if is_slash c then [] # split_slash s
     else (c # hd (split_slash s)) # tl (split_slash s))"

definition ends_with :: "string \<Rightarrow> string \<Rightarrow> bool" where
  "ends_with s suffix \<longleftrightarrow> starts_with (rev s) (rev suffix)"

definition drop_suffix :: "string \<Rightarrow> string \<Rightarrow> string" where
  "drop_suffix suffix s = (if ends_with s suffix
     then rstrip_slash (take (length s - length suffix) s) else s)"

definition path_prefix :: "string \<Rightarrow> string res" where
  "path_prefix v =
    (let normalized = strip_slash (map (\<lambda>c. if code c = 92 then CHR ''/'' else c) v)
     in if normalized = [] \<or> ''..'' \<in> set (split_slash normalized)
        then Inl (value_error (''invalid file resource key: '' @ v))
        else Inr (drop_suffix ''/*'' (drop_suffix ''/**'' normalized)))"

definition prefixes_overlap :: "string \<Rightarrow> string \<Rightarrow> bool" where
  "prefixes_overlap l r \<longleftrightarrow> l = r \<or> starts_with l (r @ ''/'') \<or> starts_with r (l @ ''/'')"

definition file_overlap :: "string \<Rightarrow> string \<Rightarrow> bool res" where
  "file_overlap left right = bindr (path_prefix left) (\<lambda>l. bindr (path_prefix right) (\<lambda>r.
     Inr (prefixes_overlap l r)))"

section \<open>Classification\<close>

type_synonym resource = "string \<times> string"

text \<open>The body of the inner loop for two keys of one task each.\<close>

definition pair_level :: "resource \<Rightarrow> resource \<Rightarrow> conflict_level res" where
  "pair_level l r =
     (if fst l \<noteq> fst r then Inr NO_CONFLICT
      else if fst l = ''file'' then bindr (file_overlap (snd l) (snd r)) (\<lambda>b.
        Inr (if b then HARD else NO_CONFLICT))
      else if snd l \<noteq> snd r then Inr NO_CONFLICT
      else if fst l \<in> set hard_namespaces then Inr HARD
      else if fst l \<in> set soft_namespaces then Inr SOFT
      else Inr NO_CONFLICT)"

text \<open>The two loops over the pairs: a hard pair returns at once, a soft one is remembered.\<close>

fun scan_pairs :: "conflict_level \<Rightarrow> (resource \<times> resource) list \<Rightarrow> conflict_level res" where
  "scan_pairs level [] = Inr level"
| "scan_pairs level ((l, r) # rest) = bindr (pair_level l r) (\<lambda>c.
     if c = HARD then Inr HARD
     else scan_pairs (if c = SOFT then SOFT else level) rest)"

definition all_pairs :: "resource list \<Rightarrow> resource list \<Rightarrow> (resource \<times> resource) list" where
  "all_pairs ls rs = concat (map (\<lambda>l. map (\<lambda>r. (l, r)) rs) ls)"

definition shared_side_effect :: "resource list \<Rightarrow> resource list \<Rightarrow> bool" where
  "shared_side_effect ls rs \<longleftrightarrow>
     list_ex (\<lambda>(l, r). fst l = fst r \<and> fst r = ''side-effect'' \<and> snd l = snd r) (all_pairs ls rs)"

definition classify_conflict :: "task_packet \<Rightarrow> task_packet \<Rightarrow> conflict_level res" where
  "classify_conflict left right =
     bindr (mapr split_key (tp_resource_keys left)) (\<lambda>left_keys.
     bindr (mapr split_key (tp_resource_keys right)) (\<lambda>right_keys.
     if tp_execution_mode left = READ_ONLY \<and> tp_execution_mode right = READ_ONLY \<and>
        \<not> shared_side_effect left_keys right_keys
     then Inr NO_CONFLICT
     else scan_pairs NO_CONFLICT (all_pairs left_keys right_keys)))"

section \<open>The level as a maximum\<close>

lemma prefixes_overlap_sym: "prefixes_overlap l r = prefixes_overlap r l"
  by (auto simp: prefixes_overlap_def)

lemma file_overlap_sym: "file_overlap v w = Inr b \<Longrightarrow> file_overlap w v = Inr b"
  by (auto simp: file_overlap_def res_iff prefixes_overlap_sym)

lemma pair_level_sym: "pair_level l r = Inr c \<Longrightarrow> pair_level r l = Inr c"
proof (cases "fst l = fst r")
  case True
  then obtain ns v w where lr: "l = (ns, v)" "r = (ns, w)" by (cases l; cases r) simp
  assume a: "pair_level l r = Inr c"
  show "pair_level r l = Inr c"
  proof (cases "ns = ''file''")
    case True
    then obtain b where "file_overlap v w = Inr b" "c = (if b then HARD else NO_CONFLICT)"
      using a lr by (auto simp: pair_level_def res_iff)
    then show ?thesis using file_overlap_sym [of v w b] True lr by (simp add: pair_level_def)
  next
    case False
    then show ?thesis using a lr by (cases "v = w") (simp_all add: pair_level_def)
  qed
qed (simp add: pair_level_def)

definition has_hard :: "(resource \<times> resource) list \<Rightarrow> bool" where
  "has_hard ps \<longleftrightarrow> (\<exists>(l, r) \<in> set ps. pair_level l r = Inr HARD)"

definition has_soft :: "(resource \<times> resource) list \<Rightarrow> bool" where
  "has_soft ps \<longleftrightarrow> (\<exists>(l, r) \<in> set ps. pair_level l r = Inr SOFT)"

lemma has_pairs_Cons:
  "has_hard ((l, r) # ps) \<longleftrightarrow> pair_level l r = Inr HARD \<or> has_hard ps"
  "has_soft ((l, r) # ps) \<longleftrightarrow> pair_level l r = Inr SOFT \<or> has_soft ps"
  by (simp_all add: has_hard_def has_soft_def)

lemma scan_pairs_level:
  "scan_pairs level ps = Inr c \<Longrightarrow> level \<noteq> HARD \<Longrightarrow>
     c = (if has_hard ps then HARD else if has_soft ps then SOFT else level)"
proof (induction ps arbitrary: level)
  case (Cons p rest)
  obtain l r where p: "p = (l, r)" by (cases p)
  from Cons.prems p obtain d where d: "pair_level l r = Inr d" by (auto simp: res_iff)
  show ?case using Cons.prems Cons.IH [of SOFT] Cons.IH [of level] d p
    by (cases d) (simp_all add: has_pairs_Cons)
qed (simp add: has_hard_def has_soft_def)

lemma set_all_pairs [simp]: "set (all_pairs ls rs) = set ls \<times> set rs"
  by (auto simp: all_pairs_def)

lemma has_level_swap:
  assumes "\<exists>(l, r) \<in> set (all_pairs ls rs). pair_level l r = Inr c"
  shows "\<exists>(l, r) \<in> set (all_pairs rs ls). pair_level l r = Inr c"
proof -
  obtain l r where "l \<in> set ls" "r \<in> set rs" "pair_level l r = Inr c" using assms by auto
  then show ?thesis using pair_level_sym [of l r c] by (intro bexI [of _ "(r, l)"]) simp_all
qed

lemma has_level_sym:
  "has_hard (all_pairs ls rs) = has_hard (all_pairs rs ls)"
  "has_soft (all_pairs ls rs) = has_soft (all_pairs rs ls)"
  unfolding has_hard_def has_soft_def using has_level_swap by blast+

lemma shared_side_effect_iff:
  "shared_side_effect ls rs \<longleftrightarrow> (\<exists>v. (''side-effect'', v) \<in> set ls \<and> (''side-effect'', v) \<in> set rs)"
  by (force simp: shared_side_effect_def list_ex_iff)

text \<open>The answer for the keys \<open>ls\<close> and \<open>rs\<close>, without loops.\<close>

definition spec_level :: "bool \<Rightarrow> resource list \<Rightarrow> resource list \<Rightarrow> conflict_level" where
  "spec_level both_read_only ls rs =
     (if both_read_only \<and> \<not> shared_side_effect ls rs then NO_CONFLICT
      else if has_hard (all_pairs ls rs) then HARD
      else if has_soft (all_pairs ls rs) then SOFT else NO_CONFLICT)"

lemma classify_conflict_Inr:
  assumes "classify_conflict a b = Inr c"
  obtains ls rs where "mapr split_key (tp_resource_keys a) = Inr ls"
    and "mapr split_key (tp_resource_keys b) = Inr rs"
    and "c = spec_level (tp_execution_mode a = READ_ONLY \<and> tp_execution_mode b = READ_ONLY) ls rs"
  using assms
  by (auto simp: classify_conflict_def res_iff spec_level_def split: if_splits dest: scan_pairs_level)

lemma spec_level_sym: "spec_level ro ls rs = spec_level ro rs ls"
  using has_level_sym [of ls rs]
  by (auto simp: spec_level_def shared_side_effect_iff)

lemma classify_conflict_agree:
  assumes "classify_conflict a b = Inr c" and "classify_conflict b a = Inr d"
  shows "c = d"
proof -
  obtain ls rs where 1: "mapr split_key (tp_resource_keys a) = Inr ls"
    "mapr split_key (tp_resource_keys b) = Inr rs"
    "c = spec_level (tp_execution_mode a = READ_ONLY \<and> tp_execution_mode b = READ_ONLY) ls rs"
    by (rule classify_conflict_Inr [OF assms(1)])
  obtain ls' rs' where 2: "mapr split_key (tp_resource_keys b) = Inr ls'"
    "mapr split_key (tp_resource_keys a) = Inr rs'"
    "d = spec_level (tp_execution_mode b = READ_ONLY \<and> tp_execution_mode a = READ_ONLY) ls' rs'"
    by (rule classify_conflict_Inr [OF assms(2)])
  have "ls' = rs" "rs' = ls" using 1 2 by simp_all
  with 1 2 show ?thesis using spec_level_sym [of _ ls rs] by (simp add: conj_commute)
qed

text \<open>Keys that the classification accepts: a known namespace, and a valid path for a file.\<close>

definition valid_key :: "string \<Rightarrow> bool" where
  "valid_key k \<longleftrightarrow> (\<exists>ns v. split_key k = Inr (ns, v) \<and> (ns = ''file'' \<longrightarrow> (\<exists>p. path_prefix v = Inr p)))"

definition keys_valid :: "task_packet \<Rightarrow> bool" where
  "keys_valid p \<longleftrightarrow> (\<forall>k \<in> set (tp_resource_keys p). valid_key k)"

lemma scan_pairs_total:
  "(\<And>l r. (l, r) \<in> set ps \<Longrightarrow> \<exists>c. pair_level l r = Inr c) \<Longrightarrow> \<exists>c. scan_pairs level ps = Inr c"
proof (induction ps arbitrary: level)
  case (Cons p rest)
  obtain l r where p: "p = (l, r)" by (cases p)
  obtain c where "pair_level l r = Inr c" using Cons.prems p by (metis list.set_intros(1))
  moreover have "\<exists>c. scan_pairs level rest = Inr c" for level
    by (rule Cons.IH) (use Cons.prems in simp)
  ultimately show ?case using p by simp
qed simp

lemma classify_conflict_total:
  assumes "keys_valid a" and "keys_valid b"
  shows "\<exists>c. classify_conflict a b = Inr c"
proof -
  have keys: "\<exists>ks. mapr split_key (tp_resource_keys p) = Inr ks \<and>
      (\<forall>(ns, v) \<in> set ks. ns = ''file'' \<longrightarrow> (\<exists>q. path_prefix v = Inr q))" if p: "keys_valid p" for p
  proof -
    have v: "\<exists>y. split_key k = Inr y" if "k \<in> set (tp_resource_keys p)" for k
      using p that by (auto simp: keys_valid_def valid_key_def)
    obtain ks where ks: "mapr split_key (tp_resource_keys p) = Inr ks"
      using mapr_ex [of "tp_resource_keys p" split_key] v by blast
    have "\<exists>q. path_prefix v = Inr q" if m: "(''file'', v) \<in> set ks" for v
    proof -
      obtain i where "i < length ks" "ks ! i = (''file'', v)" using m by (auto simp: in_set_conv_nth)
      then have "tp_resource_keys p ! i \<in> set (tp_resource_keys p)"
        "split_key (tp_resource_keys p ! i) = Inr (''file'', v)"
        using ks by (auto simp: mapr_Inr_list_all2 list_all2_conv_all_nth)
      then show ?thesis using p by (auto simp: keys_valid_def valid_key_def)
    qed
    with ks show ?thesis by auto
  qed
  obtain ls rs where ks: "mapr split_key (tp_resource_keys a) = Inr ls" "mapr split_key (tp_resource_keys b) = Inr rs"
    and ok: "\<forall>(ns, v) \<in> set ls. ns = ''file'' \<longrightarrow> (\<exists>q. path_prefix v = Inr q)"
      "\<forall>(ns, v) \<in> set rs. ns = ''file'' \<longrightarrow> (\<exists>q. path_prefix v = Inr q)"
    using keys [OF assms(1)] keys [OF assms(2)] by blast
  have "\<exists>c. pair_level l r = Inr c" if "(l, r) \<in> set (all_pairs ls rs)" for l r
    using that ok by (cases l; cases r) (fastforce simp: pair_level_def file_overlap_def)
  then obtain c where "scan_pairs NO_CONFLICT (all_pairs ls rs) = Inr c"
    using scan_pairs_total by blast
  then show ?thesis using ks by (simp add: classify_conflict_def)
qed

text \<open>Equal exclusive resources are a hard conflict whenever one of the tasks writes.\<close>

lemma shared_hard:
  assumes "classify_conflict a b = Inr c"
    and "k \<in> set (tp_resource_keys a)" "k \<in> set (tp_resource_keys b)"
    and "split_key k = Inr (ns, v)" and "ns \<in> set (''file'' # hard_namespaces)"
    and "tp_execution_mode a = WRITE \<or> tp_execution_mode b = WRITE \<or> ns = ''side-effect''"
    and "ns = ''file'' \<longrightarrow> (\<exists>p. path_prefix v = Inr p)"
  shows "c = HARD"
proof -
  obtain ls rs where l: "mapr split_key (tp_resource_keys a) = Inr ls"
    "mapr split_key (tp_resource_keys b) = Inr rs"
    "c = spec_level (tp_execution_mode a = READ_ONLY \<and> tp_execution_mode b = READ_ONLY) ls rs"
    by (rule classify_conflict_Inr [OF assms(1)])
  have mem: "mapr split_key ks = Inr js \<Longrightarrow> k \<in> set ks \<Longrightarrow> (ns, v) \<in> set js" for ks js
    using assms(4) by (induction ks arbitrary: js) (auto simp: res_iff)
  have "pair_level (ns, v) (ns, v) = Inr HARD"
    using assms(5,7) by (auto simp: pair_level_def file_overlap_def prefixes_overlap_def hard_namespaces_def)
  then have "has_hard (all_pairs ls rs)"
    using mem [OF l(1) assms(2)] mem [OF l(2) assms(3)] by (auto simp: has_hard_def)
  moreover have "shared_side_effect ls rs" if "ns = ''side-effect''"
    using mem [OF l(1) assms(2)] mem [OF l(2) assms(3)] that by (auto simp: shared_side_effect_iff)
  ultimately show ?thesis using assms(6) l(3) by (auto simp: spec_level_def)
qed

end
