(* ===== verification/Dependencies.thy ===== *)
theory Dependencies
  imports Tasks
begin

text \<open>
  \<open>tools/agent_repo/coordination/dependencies.py\<close>: the dependency graph of the tasks.
  The graph is the list of its packets; building it checks distinct identities, known
  dependencies and, by depth-first search, the absence of cycles.

  The recursion of the search terminates because the path grows inside the known tasks.
  The lemmas show that it accepts exactly the acyclic graphs, and that the worklist of
  \<open>descendant_count\<close> collects exactly the transitive dependents.
\<close>

section \<open>The graph\<close>

fun phase_order :: "task_phase \<Rightarrow> int" where
  "phase_order PLANNED = 0"
| "phase_order READY = 1"
| "phase_order EXECUTING = 2"
| "phase_order REVIEW = 3"
| "phase_order VERIFICATION = 4"
| "phase_order INTEGRATION = 5"
| "phase_order COMPLETE = 6"

instantiation task_phase :: linorder
begin

definition less_eq_task_phase :: "task_phase \<Rightarrow> task_phase \<Rightarrow> bool" where
  "a \<le> b \<longleftrightarrow> phase_order a \<le> phase_order b"

definition less_task_phase :: "task_phase \<Rightarrow> task_phase \<Rightarrow> bool" where
  "a < b \<longleftrightarrow> phase_order a < phase_order b"

lemma phase_order_inj: "phase_order a = phase_order b \<Longrightarrow> a = b"
  by (cases a; cases b) simp_all

instance
  by standard (auto simp: less_eq_task_phase_def less_task_phase_def intro: phase_order_inj)

end

type_synonym task_graph = "(string \<times> task_packet) list"

definition graph_of :: "task_packet list \<Rightarrow> task_graph" where
  "graph_of packets = map (\<lambda>p. (tp_task_id p, p)) packets"

definition unknown_dependency :: "task_packet list \<Rightarrow> (string \<times> string) option" where
  "unknown_dependency packets =
    (case concat (map (\<lambda>p. map (\<lambda>d. (td_task_id d, tp_task_id p))
        (filter (\<lambda>d. td_task_id d \<notin> tp_task_id ` set packets) (tp_dependencies p))) packets) of
       [] \<Rightarrow> None | x # _ \<Rightarrow> Some x)"

lemma map_of_keys: "map_of g t = Some p \<Longrightarrow> t \<in> fst ` set g"
  by (metis domI dom_map_of_conv_image_fst)

text \<open>
  \<open>visit\<close>: \<open>visiting\<close> is the set of the source, \<open>visited\<close> its second set, returned updated.
\<close>

function visit :: "task_graph \<Rightarrow> string list \<Rightarrow> string list \<Rightarrow> string \<Rightarrow> string list res" where
  "visit g visiting visited t =
     (if t \<in> set visiting then Inl (value_error ''dependency graph contains a cycle'')
      else if t \<in> set visited then Inr visited
      else (case map_of g t of
          None \<Rightarrow> Inl (Raise KeyError t)
        | Some p \<Rightarrow> bindr
            (foldr_res (\<lambda>seen d. visit g (t # visiting) seen (td_task_id d)) visited (tp_dependencies p))
            (\<lambda>seen. Inr (t # seen))))"
  by pat_completeness auto

termination
proof (relation "measure (\<lambda>(g, visiting, _, _). card (fst ` set g - set visiting))", goal_cases)
  case (2 g visiting visited t p seen d)
  then have "t \<in> fst ` set g - set visiting" using map_of_keys by auto
  then have "fst ` set g - set (t # visiting) \<subset> fst ` set g - set visiting" by auto
  then show ?case by (simp add: psubset_card_mono)
qed simp

declare visit.simps [simp del]

definition assert_acyclic :: "task_graph \<Rightarrow> unit res" where
  "assert_acyclic g = bindr (foldr_res (visit g []) [] (sort (map fst g))) (\<lambda>_. Inr ())"

definition dependency_graph :: "task_packet list \<Rightarrow> task_graph res" where
  "dependency_graph packets =
     (if has_dup (map tp_task_id packets)
      then Inl (value_error ''duplicate task_id in dependency graph'')
      else (case unknown_dependency packets of
          Some (dep, owner) \<Rightarrow> Inl (value_error (''unknown dependency '' @ dep @ '' for '' @ owner))
        | None \<Rightarrow> bindr (assert_acyclic (graph_of packets)) (\<lambda>_. Inr (graph_of packets))))"

section \<open>Queries\<close>

type_synonym status_map = "(string \<times> task_status) list"

definition packet_at :: "task_graph \<Rightarrow> string \<Rightarrow> task_packet res" where
  "packet_at g t = (case map_of g t of None \<Rightarrow> Inl (Raise KeyError t) | Some p \<Rightarrow> Inr p)"

definition hard_satisfied :: "status_map \<Rightarrow> task_dependency \<Rightarrow> bool" where
  "hard_satisfied statuses d = (case map_of statuses (td_task_id d) of
      None \<Rightarrow> False
    | Some s \<Rightarrow> ts_condition s = HEALTHY \<and> \<not> phase_order (ts_phase s) < phase_order (td_requires_phase d))"

definition execution_dependencies_satisfied :: "task_graph \<Rightarrow> string \<Rightarrow> status_map \<Rightarrow> bool res" where
  "execution_dependencies_satisfied g t statuses = bindr (packet_at g t) (\<lambda>p.
     Inr (list_all (hard_satisfied statuses) (filter (\<lambda>d. td_kind d = HARD_DEP) (tp_dependencies p))))"

definition evidence_dependencies_satisfied :: "task_graph \<Rightarrow> string \<Rightarrow> string list \<Rightarrow> bool res" where
  "evidence_dependencies_satisfied g t evidence_ids = bindr (packet_at g t) (\<lambda>p.
     Inr (list_all (\<lambda>d. td_task_id d \<in> set evidence_ids)
       (filter (\<lambda>d. td_kind d = EVIDENCE_DEP) (tp_dependencies p))))"

definition integration_satisfied :: "status_map \<Rightarrow> task_dependency \<Rightarrow> bool" where
  "integration_satisfied statuses d = (case map_of statuses (td_task_id d) of
      None \<Rightarrow> False | Some s \<Rightarrow> ts_condition s = HEALTHY \<and> ts_phase s = COMPLETE)"

definition integration_dependencies_satisfied :: "task_graph \<Rightarrow> string \<Rightarrow> status_map \<Rightarrow> bool res" where
  "integration_dependencies_satisfied g t statuses = bindr (packet_at g t) (\<lambda>p.
     Inr (list_all (integration_satisfied statuses)
       (filter (\<lambda>d. td_kind d = INTEGRATION_DEP) (tp_dependencies p))))"

text \<open>
  The worklist: \<open>frontier\<close> is a stack with its top at the end of the source's list, here
  at the head; \<open>scan_dependents\<close> is the inner loop over the candidates.
\<close>

definition depends_on :: "task_packet \<Rightarrow> string \<Rightarrow> bool" where
  "depends_on p t \<longleftrightarrow> list_ex (\<lambda>d. td_task_id d = t) (tp_dependencies p)"

fun scan_dependents ::
  "string \<Rightarrow> task_packet list \<Rightarrow> string list \<times> string list \<Rightarrow> string list \<times> string list" where
  "scan_dependents parent [] (found, frontier) = (found, frontier)"
| "scan_dependents parent (c # cs) (found, frontier) =
     (if tp_task_id c \<in> set found then scan_dependents parent cs (found, frontier)
      else if depends_on c parent
      then scan_dependents parent cs (tp_task_id c # found, tp_task_id c # frontier)
      else scan_dependents parent cs (found, frontier))"

definition new_dependents :: "string \<Rightarrow> task_packet list \<Rightarrow> string list \<Rightarrow> string set" where
  "new_dependents parent cs found = {tp_task_id c | c. c \<in> set cs \<and> depends_on c parent} - set found"

lemma new_dependents_Cons: "new_dependents parent (c # cs) found =
  (if tp_task_id c \<notin> set found \<and> depends_on c parent
   then insert (tp_task_id c) (new_dependents parent cs (tp_task_id c # found))
   else new_dependents parent cs found)"
  by (auto simp: new_dependents_def)

lemma scan_dependents_found:
  assumes "scan_dependents parent cs (found, frontier) = (found', frontier')"
  shows "\<exists>new. found' = new @ found \<and> frontier' = new @ frontier \<and> set new = new_dependents parent cs found"
  using assms
proof (induction cs arbitrary: found frontier)
  case Nil
  then show ?case by (simp add: new_dependents_def)
next
  case (Cons c cs)
  show ?case
  proof (cases "tp_task_id c \<notin> set found \<and> depends_on c parent")
    case True
    with Cons.prems have "scan_dependents parent cs (tp_task_id c # found, tp_task_id c # frontier) = (found', frontier')"
      by simp
    from Cons.IH [OF this] obtain new where
      "found' = new @ tp_task_id c # found" "frontier' = new @ tp_task_id c # frontier"
      "set new = new_dependents parent cs (tp_task_id c # found)" by blast
    then show ?thesis using True
      by (intro exI [of _ "new @ [tp_task_id c]"]) (simp add: new_dependents_Cons)
  next
    case False
    with Cons.prems have "scan_dependents parent cs (found, frontier) = (found', frontier')"
      by (auto split: if_splits)
    from Cons.IH [OF this] False show ?thesis by (auto simp: new_dependents_Cons)
  qed
qed

function collect :: "task_graph \<Rightarrow> string list \<times> string list \<Rightarrow> string list" where
  "collect g (found, []) = found"
| "collect g (found, parent # frontier) = collect g (scan_dependents parent (map snd g) (found, frontier))"
  by pat_completeness auto

termination
proof (relation "measures [\<lambda>(g, found, _). card (tp_task_id ` snd ` set g - set found),
    \<lambda>(_, _, frontier). length frontier]", goal_cases)
  case (2 g found parent frontier)
  obtain found' frontier' where s: "scan_dependents parent (map snd g) (found, frontier) = (found', frontier')"
    by (cases "scan_dependents parent (map snd g) (found, frontier)")
  then obtain new where n: "found' = new @ found" "frontier' = new @ frontier"
    "set new = new_dependents parent (map snd g) found"
    using scan_dependents_found by blast
  show ?case
  proof (cases new)
    case Nil
    then show ?thesis using n s by simp
  next
    case (Cons x xs)
    then have "x \<in> set new" by simp
    then have "x \<in> tp_task_id ` snd ` set g - set found" using n(3) by (auto simp: new_dependents_def)
    moreover have "x \<in> set found'" using n Cons by simp
    moreover have "set found \<subseteq> set found'" using n by auto
    ultimately have "tp_task_id ` snd ` set g - set found' \<subset> tp_task_id ` snd ` set g - set found" by blast
    then show ?thesis using s by (simp add: psubset_card_mono)
  qed
qed simp

definition descendant_count :: "task_graph \<Rightarrow> string \<Rightarrow> int" where
  "descendant_count g t = int (card (set (collect g ([], [t]))))"


section \<open>The search accepts exactly the acyclic graphs\<close>

definition dep_rel :: "task_graph \<Rightarrow> (string \<times> string) set" where
  "dep_rel g = {(t, td_task_id d) | t p d. map_of g t = Some p \<and> d \<in> set (tp_dependencies p)}"

text \<open>What the search has finished with is closed under dependencies and free of cycles.\<close>

definition finished :: "task_graph \<Rightarrow> string list \<Rightarrow> bool" where
  "finished g seen \<longleftrightarrow> (\<forall>t \<in> set seen. dep_rel g `` {t} \<subseteq> set seen \<and> (t, t) \<notin> (dep_rel g)\<^sup>+)"

lemma finished_trancl:
  assumes "finished g seen" and "t \<in> set seen" and "(t, u) \<in> (dep_rel g)\<^sup>+"
  shows "u \<in> set seen"
  using assms(3,1,2) by (induction rule: trancl_induct) (auto simp: finished_def)

lemma visit_sound:
  "visit g visiting visited t = Inr seen \<Longrightarrow> finished g visited \<Longrightarrow>
     set visited \<subseteq> set seen \<and> t \<in> set seen \<and> set seen \<inter> set visiting \<subseteq> set visited \<and> finished g seen"
proof (induction g visiting visited t arbitrary: seen rule: visit.induct)
  case (1 g visiting visited t)
  have ns: "t \<notin> set visiting" using "1.prems"(1) by (auto simp: visit.simps [of g visiting visited t])
  show ?case
  proof (cases "t \<in> set visited")
    case True
    then show ?thesis using "1.prems" ns by (simp add: visit.simps [of g visiting visited t])
  next
    case False
    then obtain p out where p: "map_of g t = Some p" and seen: "seen = t # out"
      and loop: "foldr_res (\<lambda>seen d. visit g (t # visiting) seen (td_task_id d)) visited (tp_dependencies p) = Inr out"
      using "1.prems"(1) ns by (auto simp: visit.simps [of g visiting visited t] res_iff split: option.splits)
    have step: "\<And>ds s o'. set ds \<subseteq> set (tp_dependencies p) \<Longrightarrow> finished g s \<Longrightarrow>
        foldr_res (\<lambda>seen d. visit g (t # visiting) seen (td_task_id d)) s ds = Inr o' \<Longrightarrow>
        set s \<subseteq> set o' \<and> td_task_id ` set ds \<subseteq> set o' \<and> set o' \<inter> set (t # visiting) \<subseteq> set s \<and> finished g o'"
      (is "\<And>ds s o'. _ \<Longrightarrow> _ \<Longrightarrow> ?loop s ds = _ \<Longrightarrow> _")
    proof -
      fix ds s o'
      show "set ds \<subseteq> set (tp_dependencies p) \<Longrightarrow> finished g s \<Longrightarrow> ?loop s ds = Inr o' \<Longrightarrow>
        set s \<subseteq> set o' \<and> td_task_id ` set ds \<subseteq> set o' \<and> set o' \<inter> set (t # visiting) \<subseteq> set s \<and> finished g o'"
      proof (induction ds arbitrary: s)
        case (Cons d ds)
        then obtain s1 where s1: "visit g (t # visiting) s (td_task_id d) = Inr s1" "?loop s1 ds = Inr o'"
          by (auto simp: res_iff)
        have d: "d \<in> set (tp_dependencies p)" using Cons.prems by simp
        have "set s \<subseteq> set s1 \<and> td_task_id d \<in> set s1 \<and> set s1 \<inter> set (t # visiting) \<subseteq> set s \<and> finished g s1"
          using "1.IH" [OF ns False p d] s1(1) Cons.prems(2) by blast
        moreover have "set s1 \<subseteq> set o' \<and> td_task_id ` set ds \<subseteq> set o' \<and>
          set o' \<inter> set (t # visiting) \<subseteq> set s1 \<and> finished g o'"
          using Cons.IH [of s1] Cons.prems(1) s1(2) calculation by auto
        ultimately show ?case by auto
      qed simp
    qed
    have out: "set visited \<subseteq> set out" "td_task_id ` set (tp_dependencies p) \<subseteq> set out"
      "set out \<inter> set (t # visiting) \<subseteq> set visited" "finished g out"
      using step [OF subset_refl "1.prems"(2) loop] by auto
    have succ: "dep_rel g `` {t} \<subseteq> set out" using out(2) p by (auto simp: dep_rel_def)
    have "t \<notin> set out" using out(3) False by auto
    have "(t, t) \<notin> (dep_rel g)\<^sup>+"
    proof
      assume "(t, t) \<in> (dep_rel g)\<^sup>+"
      then obtain u where u: "(t, u) \<in> dep_rel g" "u = t \<or> (u, t) \<in> (dep_rel g)\<^sup>+"
        by (meson tranclD rtranclD)
      then have "u \<in> set out" using succ by auto
      then have "t \<in> set out" using u(2) finished_trancl [OF out(4)] by blast
      with \<open>t \<notin> set out\<close> show False by simp
    qed
    then have "finished g seen" using out(4) succ seen by (auto simp: finished_def)
    then show ?thesis using out seen ns by auto
  qed
qed

lemma visit_complete:
  assumes acyc: "acyclic (dep_rel g)" and known: "\<And>t u. (t, u) \<in> dep_rel g \<Longrightarrow> u \<in> fst ` set g"
  shows "t \<in> fst ` set g \<Longrightarrow> \<forall>v \<in> set visiting. (v, t) \<in> (dep_rel g)\<^sup>+ \<Longrightarrow> \<exists>seen. visit g visiting visited t = Inr seen"
  using assms
proof (induction g visiting visited t rule: visit.induct)
  case (1 g visiting visited t)
  have ns: "t \<notin> set visiting" using "1.prems"(2,3) by (auto simp: acyclic_def)
  show ?case
  proof (cases "t \<in> set visited")
    case True
    then show ?thesis using ns by (simp add: visit.simps [of g visiting visited t])
  next
    case False
    obtain p where p: "map_of g t = Some p" using "1.prems"(1) by (metis map_of_eq_None_iff option.exhaust)
    have "\<exists>o'. foldr_res (\<lambda>seen d. visit g (t # visiting) seen (td_task_id d)) visited (tp_dependencies p) = Inr o' \<and> True"
    proof (rule foldr_res_ok, rule TrueI)
      fix s d assume d: "d \<in> set (tp_dependencies p)"
      then have e: "(t, td_task_id d) \<in> dep_rel g" using p by (auto simp: dep_rel_def)
      then have "\<forall>v \<in> set (t # visiting). (v, td_task_id d) \<in> (dep_rel g)\<^sup>+"
        using "1.prems"(2) by (auto intro: trancl_into_trancl)
      then show "\<exists>o'. visit g (t # visiting) s (td_task_id d) = Inr o' \<and> True"
        using "1.IH" [OF ns False p d] "1.prems"(3,4) e by blast
    qed
    then show ?thesis using ns False p by (auto simp: visit.simps [of g visiting visited t])
  qed
qed

lemma assert_acyclic_iff:
  assumes known: "\<And>t u. (t, u) \<in> dep_rel g \<Longrightarrow> u \<in> fst ` set g"
  shows "assert_acyclic g = Inr () \<longleftrightarrow> acyclic (dep_rel g)"
proof
  assume "acyclic (dep_rel g)"
  then have "\<exists>o'. foldr_res (visit g []) [] (sort (map fst g)) = Inr o' \<and> True"
    by (intro foldr_res_ok) (use visit_complete [OF _ known] in auto)
  then show "assert_acyclic g = Inr ()" by (auto simp: assert_acyclic_def)
next
  assume "assert_acyclic g = Inr ()"
  then obtain seen where run: "foldr_res (visit g []) [] (sort (map fst g)) = Inr seen"
    by (auto simp: assert_acyclic_def res_iff)
  have "set s \<subseteq> set o' \<and> set ts \<subseteq> set o' \<and> finished g o'"
    if "foldr_res (visit g []) s ts = Inr o'" "finished g s" for s ts o'
    using that
  proof (induction ts arbitrary: s)
    case (Cons t ts)
    then obtain s1 where "visit g [] s t = Inr s1" "foldr_res (visit g []) s1 ts = Inr o'" by (auto simp: res_iff)
    then show ?case using Cons.IH [of s1] Cons.prems(2) visit_sound [of g "[]" s t s1] by auto
  qed simp
  from this [OF run] have fin: "finished g seen" "fst ` set g \<subseteq> set seen" by (auto simp: finished_def)
  have dom: "t \<in> fst ` set g" if "(t, u) \<in> (dep_rel g)\<^sup>+" for t u
    using that by (induction rule: converse_trancl_induct) (auto simp: dep_rel_def dest: map_of_keys)
  then show "acyclic (dep_rel g)" using fin unfolding acyclic_def finished_def by blast
qed


section \<open>Built graphs\<close>

lemma map_of_graph: "distinct (map tp_task_id ps) \<Longrightarrow> map_of (graph_of ps) t = Some p \<longleftrightarrow> p \<in> set ps \<and> tp_task_id p = t"
  by (subst map_of_eq_Some_iff) (auto simp: graph_of_def comp_def)

lemma graph_of_keys [simp]: "fst ` set (graph_of ps) = tp_task_id ` set ps" "map snd (graph_of ps) = ps"
  by (force simp: graph_of_def, simp add: graph_of_def comp_def)

lemma unknown_dependency_None:
  "unknown_dependency ps = None \<longleftrightarrow> (\<forall>p \<in> set ps. \<forall>d \<in> set (tp_dependencies p). td_task_id d \<in> tp_task_id ` set ps)"
proof -
  have "(case xs of [] \<Rightarrow> None | x # _ \<Rightarrow> Some x) = None \<longleftrightarrow> xs = []" for xs :: "(string \<times> string) list"
    by (cases xs) simp_all
  then show ?thesis unfolding unknown_dependency_def
    by (simp add: filter_empty_conv del: image_iff)
qed

lemma graph_closed:
  assumes "distinct (map tp_task_id ps)" and "unknown_dependency ps = None"
  shows "(t, u) \<in> dep_rel (graph_of ps) \<Longrightarrow> u \<in> fst ` set (graph_of ps)"
  using assms by (auto simp: dep_rel_def map_of_graph unknown_dependency_None)

lemma dependency_graph_Inr:
  "dependency_graph ps = Inr g \<longleftrightarrow> g = graph_of ps \<and> distinct (map tp_task_id ps) \<and>
     (\<forall>p \<in> set ps. \<forall>d \<in> set (tp_dependencies p). td_task_id d \<in> tp_task_id ` set ps) \<and>
     acyclic (dep_rel g)"
proof (cases "distinct (map tp_task_id ps) \<and> unknown_dependency ps = None")
  case True
  then have "assert_acyclic (graph_of ps) = Inr () \<longleftrightarrow> acyclic (dep_rel (graph_of ps))"
    using graph_closed by (intro assert_acyclic_iff) blast
  then show ?thesis using True unknown_dependency_None [of ps]
    by (auto simp: dependency_graph_def res_iff)
next
  case False
  then show ?thesis by (auto simp: dependency_graph_def unknown_dependency_None [symmetric] split: option.splits)
qed

section \<open>Counting the transitive dependents\<close>

text \<open>\<open>dependents g t\<close>: the tasks from which a chain of dependencies leads to \<open>t\<close>.\<close>

definition dependents :: "task_graph \<Rightarrow> string \<Rightarrow> string set" where
  "dependents g t = {c. (c, t) \<in> (dep_rel g)\<^sup>+}"

definition direct_dependents :: "task_packet list \<Rightarrow> string \<Rightarrow> string set" where
  "direct_dependents ps t = {tp_task_id c | c. c \<in> set ps \<and> depends_on c t}"

lemma direct_dep_rel:
  "distinct (map tp_task_id ps) \<Longrightarrow> c \<in> direct_dependents ps t \<longleftrightarrow> (c, t) \<in> dep_rel (graph_of ps)"
  by (auto simp: direct_dependents_def dep_rel_def map_of_graph depends_on_def list_ex_iff)

lemma collect_inv:
  assumes "\<And>x. x \<in> insert t (set found) - set frontier \<Longrightarrow> direct_dependents (map snd g) x \<subseteq> set found"
    and "\<And>x. x \<in> set found \<Longrightarrow> P x" and "P' t" and "\<And>x. P x \<Longrightarrow> P' x"
    and "set frontier \<subseteq> insert t (set found)"
    and "\<And>x y. P' x \<Longrightarrow> y \<in> direct_dependents (map snd g) x \<Longrightarrow> P y"
  shows "(\<forall>x \<in> insert t (set (collect g (found, frontier))).
      direct_dependents (map snd g) x \<subseteq> set (collect g (found, frontier))) \<and>
    (\<forall>x \<in> set (collect g (found, frontier)). P x)"
  using assms
proof (induction g "(found, frontier)" arbitrary: found frontier rule: collect.induct)
  case (2 g found parent frontier)
  obtain found' frontier' where s: "scan_dependents parent (map snd g) (found, frontier) = (found', frontier')"
    by (cases "scan_dependents parent (map snd g) (found, frontier)")
  then obtain new where n: "found' = new @ found" "frontier' = new @ frontier"
    "set new = direct_dependents (map snd g) parent - set found"
    using scan_dependents_found unfolding new_dependents_def direct_dependents_def by blast
  have Pp: "P' parent" using "2.prems"(2-5) by auto
  have "(\<forall>x \<in> insert t (set (collect g (found', frontier'))).
      direct_dependents (map snd g) x \<subseteq> set (collect g (found', frontier'))) \<and>
    (\<forall>x \<in> set (collect g (found', frontier')). P x)"
  proof (rule "2.hyps" [OF s])
    fix x assume x: "x \<in> insert t (set found') - set frontier'"
    show "direct_dependents (map snd g) x \<subseteq> set found'"
    proof (cases "x = parent")
      case True
      then show ?thesis using n by auto
    next
      case False
      then have "x \<in> insert t (set found) - set (parent # frontier)" using x n by auto
      then show ?thesis using "2.prems"(1) n by auto
    qed
  next
    show "\<And>x. x \<in> set found' \<Longrightarrow> P x" using n "2.prems"(2,6) Pp by auto
    show "set frontier' \<subseteq> insert t (set found')" using n "2.prems"(5) by auto
  qed (use "2.prems" in blast)+
  then show ?case using s by simp
qed auto

lemma collect_dependents:
  assumes "distinct (map tp_task_id ps)"
  shows "set (collect (graph_of ps) ([], [t])) = dependents (graph_of ps) t"
proof -
  let ?g = "graph_of ps" and ?found = "set (collect (graph_of ps) ([], [t]))"
  have "(\<forall>x \<in> insert t ?found. direct_dependents (map snd ?g) x \<subseteq> ?found) \<and>
    (\<forall>x \<in> ?found. x \<in> dependents ?g t)"
    by (rule collect_inv [where P' = "\<lambda>x. (x, t) \<in> (dep_rel ?g)\<^sup>*"])
      (auto simp: dependents_def direct_dep_rel [OF assms] intro: rtrancl_into_trancl2)
  then have closed: "\<And>x y. x \<in> insert t ?found \<Longrightarrow> (y, x) \<in> dep_rel ?g \<Longrightarrow> y \<in> ?found"
    and sub: "?found \<subseteq> dependents ?g t"
    unfolding direct_dep_rel [OF assms, symmetric] by (simp_all del: collect.simps) blast+
  have "c \<in> ?found" if "(c, t) \<in> (dep_rel ?g)\<^sup>+" for c
    using that by (induction rule: converse_trancl_induct) (use closed in auto)
  with sub show ?thesis by (auto simp: dependents_def)
qed

lemma descendant_count_eq:
  "distinct (map tp_task_id ps) \<Longrightarrow> descendant_count (graph_of ps) t = int (card (dependents (graph_of ps) t))"
  by (simp add: descendant_count_def collect_dependents del: collect.simps)

text \<open>A task has strictly more dependents than any task that depends on it.\<close>

lemma finite_dependents: "distinct (map tp_task_id ps) \<Longrightarrow> finite (dependents (graph_of ps) t)"
  by (simp add: collect_dependents [symmetric])

lemma descendant_count_less:
  assumes d: "distinct (map tp_task_id ps)" and "acyclic (dep_rel (graph_of ps))"
    and "(c, t) \<in> dep_rel (graph_of ps)"
  shows "descendant_count (graph_of ps) c < descendant_count (graph_of ps) t"
proof -
  have "c \<in> dependents (graph_of ps) t - dependents (graph_of ps) c"
    using assms(2,3) by (auto simp: dependents_def acyclic_def)
  moreover have "dependents (graph_of ps) c \<subseteq> dependents (graph_of ps) t"
    using assms(3) by (auto simp: dependents_def intro: trancl_into_trancl)
  ultimately have "dependents (graph_of ps) c \<subset> dependents (graph_of ps) t" by blast
  then show ?thesis using descendant_count_eq [OF d] finite_dependents [OF d] by (simp add: psubset_card_mono)
qed

text \<open>The hard-dependency query, over the packet of the task.\<close>

lemma execution_satisfied_iff:
  assumes "distinct (map tp_task_id ps)" and "p \<in> set ps"
  shows "execution_dependencies_satisfied (graph_of ps) (tp_task_id p) statuses = Inr b \<longleftrightarrow>
    b = (\<forall>d \<in> set (tp_dependencies p). td_kind d = HARD_DEP \<longrightarrow> (\<exists>s. map_of statuses (td_task_id d) = Some s \<and>
      ts_condition s = HEALTHY \<and> td_requires_phase d \<le> ts_phase s))"
proof -
  have "packet_at (graph_of ps) (tp_task_id p) = Inr p"
    using map_of_graph [OF assms(1), of "tp_task_id p" p] assms(2) by (simp add: packet_at_def)
  moreover have "hard_satisfied statuses d \<longleftrightarrow> (\<exists>s. map_of statuses (td_task_id d) = Some s \<and>
      ts_condition s = HEALTHY \<and> td_requires_phase d \<le> ts_phase s)" for d
    by (auto simp: hard_satisfied_def less_eq_task_phase_def split: option.splits)
  ultimately show ?thesis by (auto simp: execution_dependencies_satisfied_def list_all_iff)
qed

end
