(* ===== verification/Scheduler.thy ===== *)
theory Scheduler
  imports Conflicts Dependencies "HOL-Library.Sublist"
begin

text \<open>
  \<open>tools/agent_repo/coordination/scheduler.py\<close>: the selection of tasks that may start
  together.  The interface to the conflict classification is the locale
  \<open>conflict_levels\<close>: two answers about the same pair agree.  Within it the greedy
  selection is shown free of hard conflicts and maximal; the interpretation rests on
  \<open>classify_conflict\<close>.
\<close>

section \<open>Greedy selection\<close>

definition is_hard :: "('a \<Rightarrow> 'a \<Rightarrow> conflict_level res) \<Rightarrow> 'a \<Rightarrow> 'a \<Rightarrow> bool res" where
  "is_hard level a b = bindr (level a b) (\<lambda>c. Inr (c = HARD))"

fun greedy :: "('a \<Rightarrow> 'a \<Rightarrow> conflict_level res) \<Rightarrow> 'a list \<Rightarrow> 'a list \<Rightarrow> 'a list res" where
  "greedy level selected [] = Inr selected"
| "greedy level selected (c # cs) = bindr (any_res (is_hard level c) selected) (\<lambda>clash.
     greedy level (if clash then selected else selected @ [c]) cs)"

lemma is_hard_Inr [res_iff]: "is_hard level a b = Inr h \<longleftrightarrow> (\<exists>c. level a b = Inr c \<and> h = (c = HARD))"
  by (auto simp: is_hard_def res_iff)

lemma greedy_subset: "greedy level sel cs = Inr out \<Longrightarrow> \<exists>new. out = sel @ new \<and> subseq new cs"
proof (induction cs arbitrary: sel)
  case (Cons c cs)
  then obtain b where run: "greedy level (if b then sel else sel @ [c]) cs = Inr out" by (auto simp: res_iff)
  then obtain new where "out = (if b then sel else sel @ [c]) @ new" "subseq new cs" using Cons.IH by blast
  then show ?case by (cases b) (auto intro: subseq_Cons')
qed simp

locale conflict_levels =
  fixes level :: "'a \<Rightarrow> 'a \<Rightarrow> conflict_level res"
  assumes agree: "level a b = Inr c \<Longrightarrow> level b a = Inr d \<Longrightarrow> c = d"
begin

definition compatible :: "'a \<Rightarrow> 'a \<Rightarrow> bool" where
  "compatible a b \<longleftrightarrow> level a b \<noteq> Inr HARD \<and> level b a \<noteq> Inr HARD"

lemma not_hard_compatible: "is_hard level a b = Inr False \<Longrightarrow> compatible a b"
  using agree by (auto simp: res_iff compatible_def)

lemma greedy_pairwise:
  "greedy level sel cs = Inr out \<Longrightarrow> sorted_wrt compatible sel \<Longrightarrow> sorted_wrt compatible out"
proof (induction cs arbitrary: sel)
  case (Cons c cs)
  then obtain b where b: "any_res (is_hard level c) sel = Inr b"
    and run: "greedy level (if b then sel else sel @ [c]) cs = Inr out" by (auto simp: res_iff)
  have "compatible x c" if "\<not> b" "x \<in> set sel" for x
    using b that not_hard_compatible [of c x] by (auto simp: res_iff compatible_def)
  then have "sorted_wrt compatible (if b then sel else sel @ [c])"
    using Cons.prems(2) by (simp add: sorted_wrt_append)
  then show ?case using Cons.IH run by blast
qed simp

lemma greedy_conflict_free: "greedy level [] cs = Inr out \<Longrightarrow> sorted_wrt compatible out"
  by (rule greedy_pairwise [where sel = "[]"]) simp_all

text \<open>Whatever is left out has a hard conflict with a selected task.\<close>

lemma greedy_maximal:
  "greedy level sel cs = Inr out \<Longrightarrow> c \<in> set cs \<Longrightarrow> c \<in> set out \<or> (\<exists>s \<in> set out. level c s = Inr HARD)"
proof (induction cs arbitrary: sel)
  case (Cons x cs)
  then obtain b where b: "any_res (is_hard level x) sel = Inr b"
    and run: "greedy level (if b then sel else sel @ [x]) cs = Inr out" by (auto simp: res_iff)
  obtain new where out: "out = (if b then sel else sel @ [x]) @ new" using greedy_subset [OF run] by blast
  show ?case
  proof (cases "c \<in> set cs")
    case False
    then have "c = x" using Cons.prems(2) by simp
    then show ?thesis using b out any_res_True [of "is_hard level x" sel]
      by (cases b) (auto simp: res_iff)
  qed (use Cons.IH run in blast)
qed simp

text \<open>The first candidate is always selected.\<close>

lemma greedy_first: "greedy level [] (c # cs) = Inr out \<Longrightarrow> \<exists>rest. out = c # rest"
  using greedy_subset [of level "[c]" cs out] by auto

end

interpretation task_conflicts: conflict_levels classify_conflict
  by unfold_locales (rule classify_conflict_agree)

section \<open>Ready tasks\<close>

fun risk_order :: "risk_level \<Rightarrow> int" where
  "risk_order LOW = 0"
| "risk_order MEDIUM = 1"
| "risk_order HIGH = 2"

instantiation risk_level :: linorder
begin

definition less_eq_risk_level :: "risk_level \<Rightarrow> risk_level \<Rightarrow> bool" where
  "a \<le> b \<longleftrightarrow> risk_order a \<le> risk_order b"

definition less_risk_level :: "risk_level \<Rightarrow> risk_level \<Rightarrow> bool" where
  "a < b \<longleftrightarrow> risk_order a < risk_order b"

lemma risk_order_inj: "risk_order a = risk_order b \<Longrightarrow> a = b"
  by (cases a; cases b) simp_all

instance
  by standard (auto simp: less_eq_risk_level_def less_risk_level_def intro: risk_order_inj)

end

text \<open>\<open>set(xs) - set(known)\<close>, and its smallest element if there is one.\<close>

definition first_unknown :: "string list \<Rightarrow> string list \<Rightarrow> string option" where
  "first_unknown xs known = (case sort (filter (\<lambda>x. x \<notin> set known) xs) of [] \<Rightarrow> None | x # _ \<Rightarrow> Some x)"

definition require_known :: "string \<Rightarrow> string list \<Rightarrow> string list \<Rightarrow> unit res" where
  "require_known what xs known = (case first_unknown xs known of
      None \<Rightarrow> Inr () | Some x \<Rightarrow> Inl (value_error (what @ '' references unknown task: '' @ x)))"

definition active_tasks :: "task_graph \<Rightarrow> status_map \<Rightarrow> task_packet list" where
  "active_tasks g statuses = List.map_filter (\<lambda>(t, s).
     if ts_phase s = EXECUTING \<and> ts_condition s = HEALTHY then map_of g t else None) statuses"

text \<open>One turn of the loop over the packets: is the packet a candidate?\<close>

definition is_candidate ::
  "task_graph \<Rightarrow> status_map \<Rightarrow> string list \<Rightarrow> task_packet \<Rightarrow> bool res" where
  "is_candidate g statuses leased p = (case map_of statuses (tp_task_id p) of
      None \<Rightarrow> Inl (value_error (''missing status for task: '' @ tp_task_id p))
    | Some s \<Rightarrow>
        if ts_phase s \<noteq> READY \<or> ts_condition s \<noteq> HEALTHY \<or> tp_task_id p \<in> set leased then Inr False
        else bindr (execution_dependencies_satisfied g (tp_task_id p) statuses) (\<lambda>ok.
          if \<not> ok then Inr False
          else bindr (any_res (is_hard classify_conflict p) (active_tasks g statuses)) (\<lambda>clash.
            Inr (\<not> clash))))"

fun filter_res :: "('a \<Rightarrow> bool res) \<Rightarrow> 'a list \<Rightarrow> 'a list res" where
  "filter_res f [] = Inr []"
| "filter_res f (x # xs) = bindr (f x) (\<lambda>b. bindr (filter_res f xs) (\<lambda>ys. Inr (if b then x # ys else ys)))"

definition schedule_key :: "task_graph \<Rightarrow> task_packet \<Rightarrow> int \<times> int \<times> string" where
  "schedule_key g p = (- descendant_count g (tp_task_id p), risk_order (tp_risk p), tp_task_id p)"

definition ready_packets ::
  "task_packet list \<Rightarrow> status_map \<Rightarrow> string list \<Rightarrow> task_packet list res" where
  "ready_packets packets statuses leased =
     bindr (dependency_graph packets) (\<lambda>g.
     bindr (require_known ''status'' (map fst statuses) (map fst g)) (\<lambda>_.
     bindr (require_known ''lease'' leased (map fst g)) (\<lambda>_.
     bindr (filter_res (is_candidate g statuses leased) packets) (\<lambda>candidates.
     greedy classify_conflict [] (sort_key (schedule_key g) candidates)))))"

definition ready_tasks :: "task_packet list \<Rightarrow> status_map \<Rightarrow> string list \<Rightarrow> string list res" where
  "ready_tasks packets statuses leased =
     bindr (ready_packets packets statuses leased) (\<lambda>ps. Inr (map tp_task_id ps))"

section \<open>Facts\<close>

lemma filter_res_Inr: "filter_res f xs = Inr ys \<longleftrightarrow>
    (\<forall>x \<in> set xs. \<exists>b. f x = Inr b) \<and> ys = filter (\<lambda>x. f x = Inr True) xs"
proof (induction xs arbitrary: ys)
  case (Cons x xs)
  show ?case
  proof (cases "f x")
    case (Inr b)
    then have "filter_res f (x # xs) = Inr ys \<longleftrightarrow>
      (\<exists>zs. filter_res f xs = Inr zs \<and> ys = (if b then x # zs else zs))" by (auto simp: bindr_Inr)
    also have "\<dots> \<longleftrightarrow> (\<forall>x \<in> set xs. \<exists>b. f x = Inr b) \<and>
      ys = (if b then x # filter (\<lambda>x. f x = Inr True) xs else filter (\<lambda>x. f x = Inr True) xs)"
      unfolding Cons.IH by blast
    finally show ?thesis using Inr by simp
  qed simp
qed auto

lemma require_known_Inr [res_iff]: "require_known w xs known = Inr u \<longleftrightarrow> set xs \<subseteq> set known"
proof (cases "sort (filter (\<lambda>x. x \<notin> set known) xs)")
  case Nil
  then have "set (filter (\<lambda>x. x \<notin> set known) xs) = {}" by (metis list.set(1) set_sort)
  then show ?thesis using Nil by (auto simp: require_known_def first_unknown_def)
next
  case (Cons y ys)
  then have "y \<in> set (filter (\<lambda>x. x \<notin> set known) xs)" by (metis list.set_intros(1) set_sort)
  then show ?thesis using Cons by (auto simp: require_known_def first_unknown_def)
qed

lemma distinct_conv_sorted_wrt: "distinct xs \<longleftrightarrow> sorted_wrt (\<noteq>) xs"
  by (induction xs) auto

lemma subseq_facts: "subseq xs ys \<Longrightarrow> set xs \<subseteq> set ys \<and> (sorted_wrt R ys \<longrightarrow> sorted_wrt R xs)"
  by (induction rule: list_emb.induct) auto

text \<open>What makes a packet startable, as a predicate.\<close>

definition startable :: "task_graph \<Rightarrow> status_map \<Rightarrow> string list \<Rightarrow> task_packet \<Rightarrow> bool" where
  "startable g statuses leased p \<longleftrightarrow>
     (\<exists>s. map_of statuses (tp_task_id p) = Some s \<and> ts_phase s = READY \<and> ts_condition s = HEALTHY) \<and>
     tp_task_id p \<notin> set leased \<and>
     execution_dependencies_satisfied g (tp_task_id p) statuses = Inr True \<and>
     (\<forall>r \<in> set (active_tasks g statuses). task_conflicts.compatible p r)"

lemma candidate_startable: "is_candidate g statuses leased p = Inr True \<Longrightarrow> startable g statuses leased p"
  using task_conflicts.not_hard_compatible
  by (auto simp: is_candidate_def startable_def res_iff split: option.splits if_splits)

lemma ready_packets_Inr:
  assumes "ready_packets packets statuses leased = Inr out"
  obtains g cs where "dependency_graph packets = Inr g" "set (map fst statuses) \<subseteq> tp_task_id ` set packets"
    "set leased \<subseteq> tp_task_id ` set packets"
    "cs = filter (\<lambda>p. is_candidate g statuses leased p = Inr True) packets"
    "\<forall>p \<in> set packets. \<exists>b. is_candidate g statuses leased p = Inr b"
    "greedy classify_conflict [] (sort_key (schedule_key g) cs) = Inr out"
proof -
  obtain g cs where g: "dependency_graph packets = Inr g"
    and r: "set (map fst statuses) \<subseteq> set (map fst g)" "set leased \<subseteq> set (map fst g)"
    and cs: "filter_res (is_candidate g statuses leased) packets = Inr cs"
    and out: "greedy classify_conflict [] (sort_key (schedule_key g) cs) = Inr out"
    using assms by (auto simp: ready_packets_def res_iff)
  have "set (map fst g) = tp_task_id ` set packets"
    using g by (auto simp: dependency_graph_Inr)
  with r have r': "set (map fst statuses) \<subseteq> tp_task_id ` set packets" "set leased \<subseteq> tp_task_id ` set packets"
    by simp_all
  show thesis using that [OF g r' _ _ out] cs unfolding filter_res_Inr by blast
qed

lemma ready_packets_startable:
  assumes "ready_packets packets statuses leased = Inr out" and "p \<in> set out"
  shows "p \<in> set packets \<and> startable (graph_of packets) statuses leased p"
proof -
  obtain g cs where g: "dependency_graph packets = Inr g"
    and cs: "cs = filter (\<lambda>p. is_candidate g statuses leased p = Inr True) packets"
    and run: "greedy classify_conflict [] (sort_key (schedule_key g) cs) = Inr out"
    by (rule ready_packets_Inr [OF assms(1)])
  have "g = graph_of packets" using g by (simp add: dependency_graph_Inr)
  moreover have "p \<in> set cs"
    using greedy_subset [OF run] assms(2) subseq_facts [of out "sort_key (schedule_key g) cs"] by auto
  then have "p \<in> set packets" "is_candidate g statuses leased p = Inr True" by (simp_all add: cs)
  ultimately show ?thesis using candidate_startable by blast
qed

lemma ready_packets_conflict_free:
  "ready_packets packets statuses leased = Inr out \<Longrightarrow> sorted_wrt task_conflicts.compatible out"
  by (rule ready_packets_Inr) (auto intro: task_conflicts.greedy_conflict_free)

text \<open>The order of the result is the order of the keys: most dependents, lowest risk, then identity.\<close>

lemma ready_packets_sorted:
  assumes "ready_packets packets statuses leased = Inr out"
  shows "sorted (map (schedule_key (graph_of packets)) out) \<and> distinct (map tp_task_id out)"
proof -
  obtain g cs where g: "dependency_graph packets = Inr g"
    and cs: "cs = filter (\<lambda>p. is_candidate g statuses leased p = Inr True) packets"
    and run: "greedy classify_conflict [] (sort_key (schedule_key g) cs) = Inr out"
    by (rule ready_packets_Inr [OF assms])
  have "g = graph_of packets" and d: "distinct (map tp_task_id packets)" using g by (simp_all add: dependency_graph_Inr)
  have sub: "subseq out (sort_key (schedule_key g) cs)" using greedy_subset [OF run] by auto
  have "distinct (map tp_task_id (sort_key (schedule_key g) cs))"
    using d by (simp add: cs distinct_map) (auto simp: inj_on_def)
  moreover have "sorted (map (schedule_key g) (sort_key (schedule_key g) cs))" by simp
  moreover note subseq_facts [OF subseq_map [OF sub, of "schedule_key g"], of "(\<le>)"]
    subseq_facts [OF subseq_map [OF sub, of tp_task_id], of "(\<noteq>)"]
  ultimately show ?thesis
    unfolding distinct_conv_sorted_wrt \<open>g = graph_of packets\<close> by blast
qed

end
