(* ===== verification/Leases.thy ===== *)
theory Leases
  imports Tasks
begin

text \<open>
  \<open>tools/agent_repo/coordination/leases.py\<close>: fenced leases of write tasks.

  A datetime is the number of microseconds of its instant, or \<open>None\<close> when it is naive; the
  bound of the calendar at the year 9999 is not modelled.  A \<open>timedelta\<close> is its number of
  microseconds; \<open>total_seconds\<close> and \<open>timedelta(seconds=x)\<close> are computed on binary64
  floats as the standard library documents.

  The lemmas give the form of a granted lease, the fence (a branch name determines the
  task and the epoch), the exact round trip of a time to live through the float
  \<open>ttl_seconds\<close>, and the history of a task's leases as a step relation in which no two
  leases are valid at one instant unless one renews the other.
\<close>

section \<open>Durations\<close>

type_synonym datetime = "int option"

definition total_seconds :: "int \<Rightarrow> f64" where
  "total_seconds us = rnd (of_int us / 10 ^ 6)"

definition trunc_rat :: "rat \<Rightarrow> int" where
  "trunc_rat q = (if q < 0 then - \<lfloor>- q\<rfloor> else \<lfloor>q\<rfloor>)"

text \<open>
  \<open>timedelta(seconds=x)\<close>: the whole seconds exactly, the fraction times \<open>1e6\<close> as a
  float, rounded half to even.
\<close>

definition timedelta_seconds :: "f64 \<Rightarrow> int" where
  "timedelta_seconds x = (let whole = trunc_rat (val x);
     us = fmul (F 1000000) (F (val x - of_int whole))
   in whole * 1000000 + rne (val us))"

section \<open>Owners and branches\<close>

definition is_owner_char :: "char \<Rightarrow> bool" where
  "is_owner_char c \<longleftrightarrow> is_task_char c \<or> code c = 32"

definition is_owner :: "string \<Rightarrow> bool" where
  "is_owner s \<longleftrightarrow> s \<noteq> [] \<and> is_alnum (hd s) \<and> list_all is_owner_char s"

fun has_two_dots :: "string \<Rightarrow> bool" where
  "has_two_dots (c # d # s) \<longleftrightarrow> (code c = 46 \<and> code d = 46) \<or> has_two_dots (d # s)"
| "has_two_dots _ \<longleftrightarrow> False"

text \<open>\<open>re.sub("[\<dots>]+", "-", s)\<close>: every maximal run of the characters becomes one dash.\<close>

fun dash_runs :: "(char \<Rightarrow> bool) \<Rightarrow> bool \<Rightarrow> string \<Rightarrow> string" where
  "dash_runs P inside [] = []"
| "dash_runs P inside (c # s) =
     (if P c then (if inside then dash_runs P True s else CHR ''-'' # dash_runs P True s)
      else c # dash_runs P False s)"

definition lower_char :: "char \<Rightarrow> char" where
  "lower_char c = (if is_upper c then char_of (code c + 32) else c)"

definition is_dash :: "char \<Rightarrow> bool" where
  "is_dash c \<longleftrightarrow> code c = 45"

definition strip_dash :: "string \<Rightarrow> string" where
  "strip_dash s = rev (dropWhile is_dash (rev (dropWhile is_dash s)))"

definition owner_slug :: "string \<Rightarrow> string res" where
  "owner_slug owner = (if \<not> is_owner owner \<or> has_two_dots owner
     then Inl (value_error ''owner must contain only safe branch-name characters'')
     else let slug = dash_runs (\<lambda>c. code c = 32 \<or> code c = 46 \<or> code c = 95) False
                       (map lower_char (strip owner));
              slug = strip_dash (dash_runs is_dash False slug)
          in if slug = [] then Inl (value_error ''owner must produce a non-empty branch slug'')
             else Inr slug)"

definition lease_branch_name :: "string \<Rightarrow> int \<Rightarrow> string \<Rightarrow> string res" where
  "lease_branch_name task epoch owner =
     (if \<not> is_task_id task then Inl (value_error ''task_id is invalid for a lease branch'')
      else if epoch < 1 then Inl (value_error ''epoch must be a positive integer'')
      else bindr (owner_slug owner) (\<lambda>slug.
        Inr (''agent/'' @ task @ ''/e'' @ pad_left 4 (int_str epoch) @ ''-'' @ slug)))"

section \<open>Records\<close>

datatype reconciliation_decision = RESUME | SALVAGE | SUPERSEDE | REASSIGN

record lease_record =
  lr_task_id :: string
  lr_task_revision :: int
  lr_task_contract_digest :: string
  lr_base_sha :: string
  lr_owner :: string
  lr_epoch :: int
  lr_lease_branch :: string
  lr_head_sha :: "string option"
  lr_last_heartbeat_at :: datetime
  lr_expires_at :: datetime
  lr_ttl_seconds :: f64

definition require_aware :: "string \<Rightarrow> datetime \<Rightarrow> int res" where
  "require_aware field t = (case t of
      None \<Rightarrow> Inl (value_error (field @ '' must be timezone-aware'')) | Some us \<Rightarrow> Inr us)"

definition optional_sha :: "string \<Rightarrow> string option \<Rightarrow> unit res" where
  "optional_sha field v = (case v of None \<Rightarrow> Inr () | Some s \<Rightarrow> require_full_sha field s)"

definition lease_post_init :: "lease_record \<Rightarrow> lease_record res" where
  "lease_post_init l =
     bindr (checks [
       (\<not> is_task_id (lr_task_id l), value_error ''task_id is invalid''),
       (lr_task_revision l < 1, value_error ''task_revision must be a positive integer'')]) (\<lambda>_.
     bindr (require_digest ''task_contract_digest'' (lr_task_contract_digest l)) (\<lambda>_.
     bindr (require_full_sha ''base_sha'' (lr_base_sha l)) (\<lambda>_.
     bindr (optional_sha ''head_sha'' (lr_head_sha l)) (\<lambda>_.
     bindr (checks [(lr_epoch l < 1, value_error ''epoch must be a positive integer'')]) (\<lambda>_.
     bindr (lease_branch_name (lr_task_id l) (lr_epoch l) (lr_owner l)) (\<lambda>branch.
     bindr (checks [(lr_lease_branch l \<noteq> branch,
       value_error ''lease_branch does not match task/epoch/owner fence'')]) (\<lambda>_.
     bindr (require_aware ''last_heartbeat_at'' (lr_last_heartbeat_at l)) (\<lambda>last_at.
     bindr (require_aware ''expires_at'' (lr_expires_at l)) (\<lambda>expires.
     bindr (checks [
       (\<not> isfinite (lr_ttl_seconds l) \<or> fle (lr_ttl_seconds l) (F 0),
          value_error ''ttl_seconds must be finite and positive''),
       (expires \<le> last_at, value_error ''expires_at must be after last_heartbeat_at''),
       (expires \<noteq> last_at + timedelta_seconds (lr_ttl_seconds l),
          value_error ''expires_at must match last heartbeat plus TTL'')]) (\<lambda>_. Inr l))))))))))"

record lease_reconciliation =
  rc_task_id :: string
  rc_expired_epoch :: int
  rc_observed_branch :: string
  rc_observed_head_sha :: "string option"
  rc_decision :: reconciliation_decision
  rc_pr_ids :: "string list"
  rc_ci_ids :: "string list"
  rc_artifact_ids :: "string list"

definition id_list_checks :: "string \<Rightarrow> string list \<Rightarrow> unit res" where
  "id_list_checks name vs = checks [
     (list_ex blank vs, value_error (''reconciliation '' @ name @ '' entries must be non-empty strings'')),
     (has_dup vs, value_error (''reconciliation '' @ name @ '' contains duplicates''))]"

definition reconciliation_post_init :: "lease_reconciliation \<Rightarrow> lease_reconciliation res" where
  "reconciliation_post_init r =
     bindr (checks [
       (\<not> is_task_id (rc_task_id r), value_error ''reconciliation task_id is invalid''),
       (rc_expired_epoch r < 1, value_error ''reconciliation expired_epoch must be positive''),
       (blank (rc_observed_branch r), value_error ''reconciliation observed_branch must be non-empty'')]) (\<lambda>_.
     bindr (optional_sha ''observed_head_sha'' (rc_observed_head_sha r)) (\<lambda>_.
     bindr (id_list_checks ''pr_ids'' (rc_pr_ids r)) (\<lambda>_.
     bindr (id_list_checks ''ci_ids'' (rc_ci_ids r)) (\<lambda>_.
     bindr (id_list_checks ''artifact_ids'' (rc_artifact_ids r)) (\<lambda>_. Inr r)))))"

section \<open>Granting and renewing\<close>

definition validate_grant_time :: "datetime \<Rightarrow> int \<Rightarrow> (int \<times> f64) res" where
  "validate_grant_time now ttl = bindr (require_aware ''now'' now) (\<lambda>t.
     let s = total_seconds ttl in
     if fle s (F 0) then Inl (value_error ''lease ttl must be positive'') else Inr (t, s))"

definition validate_reconciliation ::
  "lease_record \<Rightarrow> lease_reconciliation option \<Rightarrow> lease_reconciliation res" where
  "validate_reconciliation previous reconciliation = (case reconciliation of
      None \<Rightarrow> Inl (value_error ''expired lease requires reconciliation before reassignment'')
    | Some r \<Rightarrow> if rc_task_id r \<noteq> lr_task_id previous \<or> rc_expired_epoch r \<noteq> lr_epoch previous \<or>
          rc_observed_branch r \<noteq> lr_lease_branch previous
        then Inl (value_error ''reconciliation does not match the expired lease'')
        else Inr r)"

text \<open>The \<open>LeaseRecord\<close> constructor call shared by the three branches of \<open>grant_lease\<close>.\<close>

definition make_lease ::
  "task_packet \<Rightarrow> string \<Rightarrow> int \<Rightarrow> string \<Rightarrow> string option \<Rightarrow> int \<Rightarrow> int \<Rightarrow> f64 \<Rightarrow> lease_record res" where
  "make_lease p owner epoch branch head now ttl seconds = lease_post_init
     \<lparr>lr_task_id = tp_task_id p, lr_task_revision = tp_task_revision p,
      lr_task_contract_digest = contract_digest p, lr_base_sha = tp_base_sha p, lr_owner = owner,
      lr_epoch = epoch, lr_lease_branch = branch, lr_head_sha = head,
      lr_last_heartbeat_at = Some now, lr_expires_at = Some (now + ttl), lr_ttl_seconds = seconds\<rparr>"

text \<open>
  The branches that end a previous lease.  A \<open>LeaseRecord\<close> has an aware \<open>expires_at\<close>, so
  the comparison with \<open>now\<close> is on instants; a naive one raises \<open>TypeError\<close>.
\<close>

definition regrant ::
  "task_packet \<Rightarrow> string \<Rightarrow> int \<Rightarrow> int \<Rightarrow> int \<Rightarrow> f64 \<Rightarrow> lease_record \<Rightarrow>
     lease_reconciliation option \<Rightarrow> lease_record res" where
  "regrant p owner epoch now ttl seconds previous reconciliation =
     bindr (checks [(lr_task_id previous \<noteq> tp_task_id p,
       value_error ''previous lease belongs to a different task'')]) (\<lambda>_.
     bindr (case lr_expires_at previous of Some e \<Rightarrow> Inr e
       | None \<Rightarrow> Inl (Raise TypeError ''can't compare offset-naive and offset-aware datetimes'')) (\<lambda>expires.
     bindr (checks [(now < expires, value_error ''active lease cannot be replaced'')]) (\<lambda>_.
     bindr (validate_reconciliation previous reconciliation) (\<lambda>resolved.
     if rc_decision resolved = RESUME
     then bindr (checks [
         (owner \<noteq> lr_owner previous, value_error ''resume must keep the previous owner''),
         (epoch \<noteq> lr_epoch previous, value_error ''resume must keep the previous epoch''),
         (lr_task_revision previous \<noteq> tp_task_revision p \<or>
          lr_task_contract_digest previous \<noteq> contract_digest p \<or> lr_base_sha previous \<noteq> tp_base_sha p,
            value_error ''resume cannot cross task contract or base changes'')]) (\<lambda>_.
       make_lease p owner epoch (lr_lease_branch previous) (rc_observed_head_sha resolved) now ttl seconds)
     else bindr (checks [(epoch \<noteq> lr_epoch previous + 1,
         value_error ''reassignment must use the next epoch'')]) (\<lambda>_.
       bindr (lease_branch_name (tp_task_id p) epoch owner) (\<lambda>branch.
       bindr (checks [(branch = lr_lease_branch previous,
         value_error ''reassignment must use a new fenced lease branch'')]) (\<lambda>_.
       make_lease p owner epoch branch None now ttl seconds)))))))"

definition grant_lease ::
  "task_packet \<Rightarrow> string \<Rightarrow> int \<Rightarrow> datetime \<Rightarrow> int \<Rightarrow> lease_record option \<Rightarrow>
     lease_reconciliation option \<Rightarrow> lease_record res" where
  "grant_lease p owner epoch now ttl previous reconciliation =
     (if tp_execution_mode p = READ_ONLY
      then Inl (value_error ''read_only tasks do not receive writable leases'') else
      bindr (validate_grant_time now ttl) (\<lambda>(t, seconds).
      bindr (owner_slug owner) (\<lambda>_.
      case previous of
        None \<Rightarrow> if reconciliation \<noteq> None
          then Inl (value_error ''reconciliation is only valid with a previous lease'')
          else bindr (lease_branch_name (tp_task_id p) epoch owner) (\<lambda>branch.
            make_lease p owner epoch branch None t ttl seconds)
      | Some prev \<Rightarrow> regrant p owner epoch t ttl seconds prev reconciliation)))"

definition lease_is_current :: "lease_record \<Rightarrow> task_packet \<Rightarrow> datetime \<Rightarrow> bool res" where
  "lease_is_current l p now = bindr (require_aware ''now'' now) (\<lambda>t.
     if lr_task_id l = tp_task_id p \<and> lr_task_revision l = tp_task_revision p \<and>
        lr_task_contract_digest l = contract_digest p \<and> lr_base_sha l = tp_base_sha p
     then (case (lr_last_heartbeat_at l, lr_expires_at l) of
         (Some a, Some b) \<Rightarrow> Inr (a \<le> t \<and> t < b)
       | _ \<Rightarrow> Inl (Raise TypeError ''can't compare offset-naive and offset-aware datetimes''))
     else Inr False)"

definition heartbeat :: "lease_record \<Rightarrow> string \<Rightarrow> datetime \<Rightarrow> lease_record res" where
  "heartbeat l head observed =
     bindr (require_full_sha ''head_sha'' head) (\<lambda>_.
     bindr (require_aware ''observed_at'' observed) (\<lambda>t.
     case (lr_last_heartbeat_at l, lr_expires_at l) of
       (Some a, Some b) \<Rightarrow>
         bindr (checks [
           (t < a, value_error ''heartbeat time must be monotonic''),
           (b \<le> t, value_error ''expired lease requires reconciliation before heartbeat'')]) (\<lambda>_.
         lease_post_init (l\<lparr>lr_head_sha := Some head, lr_last_heartbeat_at := Some t,
           lr_expires_at := Some (t + timedelta_seconds (lr_ttl_seconds l))\<rparr>))
     | _ \<Rightarrow> Inl (Raise TypeError ''can't compare offset-naive and offset-aware datetimes'')))"


section \<open>The fence\<close>

lemma append_sep_inj:
  assumes "xs @ c # ys = xs' @ c # ys'" and "\<forall>x \<in> set xs. P x" and "\<forall>x \<in> set xs'. P x" and "\<not> P c"
  shows "xs = xs' \<and> ys = ys'"
proof -
  have "takeWhile P (xs @ c # ys) = xs" "takeWhile P (xs' @ c # ys') = xs'"
    using assms(2-4) by (simp_all add: takeWhile_append2)
  then show ?thesis using assms(1) by auto
qed

lemma pad_left_digits: "\<forall>c \<in> set s. is_digit c \<Longrightarrow> \<forall>c \<in> set (pad_left n s). is_digit c"
  by (auto simp: pad_left_def is_digit_def code_def)

lemma pad_left_inj:
  assumes "0 \<le> m" "0 \<le> n" and "pad_left k (int_str m) = pad_left k (int_str n)"
  shows "m = n"
proof -
  have "parse_digits 0 (replicate j CHR ''0'' @ s) = parse_digits 0 s" for j s
    by (induction j) (simp_all add: is_digit_def code_def)
  then have "parse_digits 0 (pad_left k (int_str z)) = Some z" if "0 \<le> z" for z
    using that by (simp add: pad_left_def int_str_def parse_digits_nat_str)
  then show ?thesis using assms by (metis option.inject)
qed

lemma task_id_no_slash: "is_task_id t \<Longrightarrow> \<forall>c \<in> set t. code c \<noteq> 47"
  by (auto simp: is_task_id_def list_all_iff is_task_char_def is_alnum_def is_digit_def is_lower_def is_upper_def)

theorem lease_branch_name_inj:
  assumes "lease_branch_name t e o1 = Inr b" and "lease_branch_name t' e' o2 = Inr b"
  shows "t = t' \<and> e = e'"
proof -
  obtain s s' where s: "is_task_id t" "1 \<le> e" "is_task_id t'" "1 \<le> e'"
    and b: "b = ''agent/'' @ t @ ''/e'' @ pad_left 4 (int_str e) @ ''-'' @ s"
    and b': "b = ''agent/'' @ t' @ ''/e'' @ pad_left 4 (int_str e') @ ''-'' @ s'"
    using assms by (auto simp: lease_branch_name_def res_iff split: if_splits)
  have "t @ CHR ''/'' # CHR ''e'' # pad_left 4 (int_str e) @ ''-'' @ s =
    t' @ CHR ''/'' # CHR ''e'' # pad_left 4 (int_str e') @ ''-'' @ s'" using b b' by simp
  then have t: "t = t' \<and> CHR ''e'' # pad_left 4 (int_str e) @ ''-'' @ s =
    CHR ''e'' # pad_left 4 (int_str e') @ ''-'' @ s'"
    by (rule append_sep_inj [where P = "\<lambda>c. code c \<noteq> 47"])
      (use task_id_no_slash s in \<open>auto simp: code_def\<close>)
  have d: "\<forall>c \<in> set (pad_left 4 (int_str z)). is_digit c" if "1 \<le> z" for z
    using that nat_str_digits [of z] by (intro pad_left_digits) (simp add: int_str_def)
  from t have "pad_left 4 (int_str e) @ CHR ''-'' # s = pad_left 4 (int_str e') @ CHR ''-'' # s'" by simp
  then have "pad_left 4 (int_str e) = pad_left 4 (int_str e') \<and> s = s'"
    by (rule append_sep_inj [where P = is_digit]) (use d s minus_not_digit in auto)
  then show ?thesis using t s pad_left_inj [of e e' 4] by simp
qed

lemma code_lower_char: "is_upper c \<Longrightarrow> code (lower_char c) = code c + 32"
  by (simp add: lower_char_def is_upper_def code_def of_char_of)

lemma alnum_facts:
  assumes "is_alnum c"
  shows "\<not> is_space c" and "is_alnum (lower_char c)"
    and "\<not> is_dash c" and "\<not> (code c = 32 \<or> code c = 46 \<or> code c = 95)"
proof -
  show "\<not> is_space c" "\<not> is_dash c" "\<not> (code c = 32 \<or> code c = 46 \<or> code c = 95)"
    using assms by (auto simp: is_alnum_def is_digit_def is_lower_def is_upper_def is_space_def is_dash_def)
  show "is_alnum (lower_char c)"
  proof (cases "is_upper c")
    case True
    then show ?thesis using code_lower_char [OF True] by (simp add: is_alnum_def is_lower_def is_upper_def)
  qed (use assms in \<open>simp add: lower_char_def\<close>)
qed

lemma rstrip_keeps_head: "\<not> P c \<Longrightarrow> \<exists>t. rev (dropWhile P (rev (c # s))) = c # t"
proof -
  assume c: "\<not> P c"
  have "rev (dropWhile P (rev s @ [c])) = c # rev (dropWhile P (rev s))"
    using c by (cases "\<forall>x \<in> set s. P x") (auto simp: dropWhile_append dropWhile_append1)
  then show "\<exists>t. rev (dropWhile P (rev (c # s))) = c # t" by simp
qed

text \<open>An accepted owner always has a branch slug: the check for an empty one never fires.\<close>

lemma owner_slug_total:
  assumes "is_owner owner" and "\<not> has_two_dots owner"
  shows "\<exists>slug. owner_slug owner = Inr slug"
proof -
  obtain c s where o': "owner = c # s" "is_alnum c" using assms(1) by (cases owner) (auto simp: is_owner_def)
  note ac = alnum_facts [OF o'(2)] and al = alnum_facts [OF alnum_facts(2) [OF o'(2)]]
  obtain t where t: "strip owner = c # t"
    using rstrip_keeps_head [of is_space, OF ac(1), of s] ac(1) by (auto simp: o' strip_def rstrip_def lstrip_def)
  obtain u where u: "dash_runs (\<lambda>c. code c = 32 \<or> code c = 46 \<or> code c = 95) False
      (map lower_char (strip owner)) = lower_char c # u" using al(4) by (simp add: t)
  obtain v where v: "dash_runs is_dash False (lower_char c # u) = lower_char c # v" using al(3) by simp
  obtain w where "strip_dash (lower_char c # v) = lower_char c # w"
    using rstrip_keeps_head [of is_dash, OF al(3), of v] al(3) by (auto simp: strip_dash_def)
  then show ?thesis using assms u v by (simp add: owner_slug_def Let_def)
qed

lemma lease_branch_name_total:
  assumes "is_task_id t" "1 \<le> e" "is_owner owner" "\<not> has_two_dots owner"
  shows "\<exists>b. lease_branch_name t e owner = Inr b"
  using owner_slug_total [OF assms(3,4)] assms(1,2) by (auto simp: lease_branch_name_def)

section \<open>A time to live survives its float\<close>

theorem timedelta_round_trip:
  assumes "0 < us" and "us < 2 ^ 33 * 10 ^ 6"
  shows "timedelta_seconds (total_seconds us) = us"
    and "isfinite (total_seconds us)" and "0 < val (total_seconds us)"
proof -
  define q where "q = (of_int us / 10 ^ 6 :: rat)"
  define v where "v = val (rnd q)"
  have q: "0 \<le> q" "q < 2 powi (-20 + 53)" using assms by (auto simp: q_def divide_less_eq)
  have v: "isfinite (rnd q)" "\<bar>v - q\<bar> \<le> 1 / 2 ^ 21" "0 \<le> v"
    using rnd_near [OF q] val_rnd_nonneg [OF q(1)] by (simp_all add: v_def power_int_def power_one_over)
  have "1 / 10 ^ 6 \<le> q" using assms(1) by (simp add: q_def divide_le_eq)
  moreover have "(1::rat) / 2 ^ 21 < 1 / 10 ^ 6" by simp
  moreover have "q - v \<le> 1 / 2 ^ 21" using v(2) unfolding abs_le_iff by simp
  ultimately have "0 < v" by linarith
  define w where "w = trunc_rat v"
  define f where "f = v - of_int w"
  have f: "0 \<le> f" "f < 1" using v(3) by (auto simp: f_def w_def trunc_rat_def) linarith
  define y where "y = 1000000 * f"
  have y: "0 \<le> y" "y < 2 powi (-33 + 53)" using f by (auto simp: y_def)
  have r: "isfinite (rnd y)" "\<bar>val (rnd y) - y\<bar> \<le> 1 / 2 ^ 34"
    using rnd_near [OF y] by (simp_all add: power_int_def power_one_over)
  have qv: "of_int us = 1000000 * q" by (simp add: q_def)
  have "\<bar>val (rnd y) - of_int (us - w * 1000000)\<bar> < 1 / 2"
  proof -
    have "val (rnd y) - of_int (us - w * 1000000) = (val (rnd y) - y) + 1000000 * (v - q)"
      by (simp add: y_def f_def qv algebra_simps)
    moreover have "\<bar>1000000 * (v - q)\<bar> = 1000000 * \<bar>v - q\<bar>" by (subst abs_mult) simp
    moreover have "1000000 * \<bar>v - q\<bar> \<le> 1000000 * (1 / 2 ^ 21)" by (rule mult_left_mono [OF v(2)]) simp
    moreover have "(1000000::rat) * (1 / 2 ^ 21) + 1 / 2 ^ 34 < 1 / 2" by simp
    ultimately show ?thesis using r(2) by linarith
  qed
  then have "rne (val (rnd y)) = us - w * 1000000" by (intro rne_unique) simp
  moreover have "val (fmul (F 1000000) (F f)) = val (rnd y)"
    by (simp add: fmul_def y_def signed_zero_def)
  moreover have ts: "total_seconds us = rnd q" by (simp add: total_seconds_def q_def)
  ultimately show "timedelta_seconds (total_seconds us) = us"
    by (simp add: timedelta_seconds_def Let_def v_def [symmetric] w_def [symmetric] f_def [symmetric])
  show "isfinite (total_seconds us)" "0 < val (total_seconds us)"
    using v(1) \<open>0 < v\<close> by (simp_all add: ts v_def [symmetric])
qed

section \<open>Valid leases\<close>

definition lease_wf :: "lease_record \<Rightarrow> bool" where
  "lease_wf l \<longleftrightarrow> lease_post_init l = Inr l"

definition lease_start :: "lease_record \<Rightarrow> int" where
  "lease_start l = (case lr_last_heartbeat_at l of Some t \<Rightarrow> t | None \<Rightarrow> 0)"

definition lease_end :: "lease_record \<Rightarrow> int" where
  "lease_end l = (case lr_expires_at l of Some t \<Rightarrow> t | None \<Rightarrow> 0)"

lemma require_aware_Inr [res_iff]: "require_aware f t = Inr us \<longleftrightarrow> t = Some us"
  by (cases t) (auto simp: require_aware_def)

lemma optional_sha_Inr [res_iff]: "optional_sha f v = Inr u \<longleftrightarrow> (\<forall>s. v = Some s \<longrightarrow> is_git_sha s)"
  by (cases v) (simp_all add: optional_sha_def res_iff)

lemma lease_post_init_same: "lease_post_init l = Inr m \<Longrightarrow> m = l \<and> lease_wf l"
  by (auto simp: lease_post_init_def lease_wf_def res_iff)

lemma lease_wf_iff: "lease_wf l \<longleftrightarrow>
    is_task_id (lr_task_id l) \<and> 1 \<le> lr_task_revision l \<and> is_sha256 (lr_task_contract_digest l) \<and>
    is_git_sha (lr_base_sha l) \<and> (\<forall>s. lr_head_sha l = Some s \<longrightarrow> is_git_sha s) \<and> 1 \<le> lr_epoch l \<and>
    lease_branch_name (lr_task_id l) (lr_epoch l) (lr_owner l) = Inr (lr_lease_branch l) \<and>
    isfinite (lr_ttl_seconds l) \<and> 0 < val (lr_ttl_seconds l) \<and>
    lr_last_heartbeat_at l = Some (lease_start l) \<and> lr_expires_at l = Some (lease_end l) \<and>
    lease_start l < lease_end l \<and> lease_end l = lease_start l + timedelta_seconds (lr_ttl_seconds l)"
proof (cases "isfinite (lr_ttl_seconds l)")
  case True
  then show ?thesis
    by (auto simp: lease_wf_def lease_post_init_def res_iff lease_start_def lease_end_def not_le not_less)
qed (simp add: lease_wf_def lease_post_init_def res_iff)

text \<open>The record of one grant, and when it is accepted.\<close>

definition granted ::
  "task_packet \<Rightarrow> string \<Rightarrow> int \<Rightarrow> string \<Rightarrow> string option \<Rightarrow> int \<Rightarrow> int \<Rightarrow> lease_record" where
  "granted p owner epoch branch head now ttl =
     \<lparr>lr_task_id = tp_task_id p, lr_task_revision = tp_task_revision p,
      lr_task_contract_digest = contract_digest p, lr_base_sha = tp_base_sha p, lr_owner = owner,
      lr_epoch = epoch, lr_lease_branch = branch, lr_head_sha = head,
      lr_last_heartbeat_at = Some now, lr_expires_at = Some (now + ttl), lr_ttl_seconds = total_seconds ttl\<rparr>"

lemma granted_simps [simp]:
  "lr_task_id (granted p ow e b h t d) = tp_task_id p" "lr_task_revision (granted p ow e b h t d) = tp_task_revision p"
  "lr_task_contract_digest (granted p ow e b h t d) = contract_digest p"
  "lr_base_sha (granted p ow e b h t d) = tp_base_sha p" "lr_owner (granted p ow e b h t d) = ow"
  "lr_epoch (granted p ow e b h t d) = e" "lr_lease_branch (granted p ow e b h t d) = b"
  "lr_head_sha (granted p ow e b h t d) = h" "lr_last_heartbeat_at (granted p ow e b h t d) = Some t"
  "lr_expires_at (granted p ow e b h t d) = Some (t + d)" "lr_ttl_seconds (granted p ow e b h t d) = total_seconds d"
  "lease_start (granted p ow e b h t d) = t" "lease_end (granted p ow e b h t d) = t + d"
  by (simp_all add: granted_def lease_start_def lease_end_def)

lemma make_lease_Inr: "make_lease p ow e b h t d (total_seconds d) = Inr l \<longleftrightarrow>
    l = granted p ow e b h t d \<and> lease_wf l"
  using lease_post_init_same [of "granted p ow e b h t d" l]
  by (auto simp: make_lease_def granted_def [symmetric] lease_wf_def)

lemma granted_wf:
  assumes "packet_wf p" and "1 \<le> e" and "lease_branch_name (tp_task_id p) e ow = Inr b"
    and "\<forall>s. h = Some s \<longrightarrow> is_git_sha s" and "0 < d" and "d < 2 ^ 33 * 10 ^ 6"
  shows "lease_wf (granted p ow e b h t d)"
  using packet_wf_facts [OF assms(1)] assms timedelta_round_trip [OF assms(5,6)] contract_digest_shape
  by (simp add: lease_wf_iff)

lemma validate_grant_time_Inr [res_iff]:
  "validate_grant_time now ttl = Inr (t, s) \<longleftrightarrow> now = Some t \<and> s = total_seconds ttl \<and> \<not> fle s (F 0)"
  by (auto simp: validate_grant_time_def res_iff Let_def)

text \<open>A first grant of a valid write task succeeds for every accepted owner.\<close>

lemma grant_fresh:
  assumes "packet_wf p" and "tp_execution_mode p = WRITE" and "1 \<le> e"
    and "is_owner ow" and "\<not> has_two_dots ow" and "0 < d" and "d < 2 ^ 33 * 10 ^ 6"
  obtains b where "lease_branch_name (tp_task_id p) e ow = Inr b"
    and "grant_lease p ow e (Some t) d None None = Inr (granted p ow e b None t d)"
proof -
  have tid: "is_task_id (tp_task_id p)" using packet_wf_facts [OF assms(1)] by simp
  obtain b where b: "lease_branch_name (tp_task_id p) e ow = Inr b"
    using lease_branch_name_total [OF tid assms(3-5)] by blast
  obtain sl where sl: "owner_slug ow = Inr sl" using owner_slug_total [OF assms(4,5)] by blast
  note td = timedelta_round_trip [OF assms(6,7)]
  have "validate_grant_time (Some t) d = Inr (t, total_seconds d)"
    using td by (simp add: res_iff)
  moreover have "make_lease p ow e b None t d (total_seconds d) = Inr (granted p ow e b None t d)"
    using granted_wf [OF assms(1,3) b _ assms(6,7)] by (simp add: make_lease_Inr)
  ultimately have "grant_lease p ow e (Some t) d None None = Inr (granted p ow e b None t d)"
    using assms(2) b sl by (simp add: grant_lease_def)
  with b show thesis by (rule that)
qed

text \<open>A grant over a previous lease: only after it expired, and with the fence moved or kept.\<close>

lemma regrant_Inr:
  assumes prev: "lease_wf prev" and g: "grant_lease p ow e now d (Some prev) rc = Inr l"
  obtains t b h where "now = Some t" "l = granted p ow e b h t d" "lease_wf l" "lease_end prev \<le> t"
    "lr_task_id prev = tp_task_id p"
    "(e = lr_epoch prev \<and> ow = lr_owner prev \<and> b = lr_lease_branch prev \<and>
        lr_task_revision prev = tp_task_revision p \<and> lr_task_contract_digest prev = contract_digest p \<and>
        lr_base_sha prev = tp_base_sha p) \<or>
     (e = lr_epoch prev + 1 \<and> h = None)"
proof -
  have ends: "lr_expires_at prev = Some (lease_end prev)" using prev by (simp add: lease_wf_iff)
  obtain t where t: "now = Some t" and r: "regrant p ow e t d (total_seconds d) prev rc = Inr l"
    using g by (auto simp: grant_lease_def res_iff split: if_splits)
  obtain r' where r': "validate_reconciliation prev rc = Inr r'" and same: "lr_task_id prev = tp_task_id p"
    and le: "lease_end prev \<le> t"
    using r by (auto simp: regrant_def res_iff ends)
  show thesis
  proof (cases "rc_decision r' = RESUME")
    case True
    then show thesis using r r' ends t same le
      by (intro that [of t "lr_lease_branch prev" "rc_observed_head_sha r'"])
        (auto simp: regrant_def res_iff make_lease_Inr)
  next
    case False
    then obtain b where "lease_branch_name (tp_task_id p) e ow = Inr b" "e = lr_epoch prev + 1"
      "make_lease p ow e b None t d (total_seconds d) = Inr l"
      using r r' ends by (auto simp: regrant_def res_iff)
    then show thesis using t same le by (intro that [of t b None]) (auto simp: make_lease_Inr)
  qed
qed

lemma heartbeat_Inr:
  assumes "lease_wf l" and "heartbeat l h obs = Inr m"
  obtains t where "obs = Some t" "lease_start l \<le> t" "t < lease_end l" "lease_wf m"
    "m = l\<lparr>lr_head_sha := Some h, lr_last_heartbeat_at := Some t,
       lr_expires_at := Some (t + timedelta_seconds (lr_ttl_seconds l))\<rparr>"
proof -
  have st: "lr_last_heartbeat_at l = Some (lease_start l)" "lr_expires_at l = Some (lease_end l)"
    using assms(1) by (simp_all add: lease_wf_iff)
  obtain t where "obs = Some t" "lease_start l \<le> t" "t < lease_end l" and
    p: "lease_post_init (l\<lparr>lr_head_sha := Some h, lr_last_heartbeat_at := Some t,
       lr_expires_at := Some (t + timedelta_seconds (lr_ttl_seconds l))\<rparr>) = Inr m"
    using assms(2) by (auto simp: heartbeat_def res_iff st)
  then show thesis using lease_post_init_same [OF p] by (intro that) auto
qed

section \<open>The history of one task's leases\<close>

inductive lease_step :: "lease_record \<Rightarrow> lease_record \<Rightarrow> bool" where
  beat: "heartbeat l h obs = Inr m \<Longrightarrow> lease_step l m"
| regrant: "grant_lease p ow e now d (Some l) rc = Inr m \<Longrightarrow> lease_step l m"

text \<open>
  What a later lease owes an earlier one: the same task; an epoch that does not fall; the
  same owner, branch and contract within an epoch; and, in a later epoch, a start after
  the earlier lease has ended.
\<close>

definition succeeds :: "lease_record \<Rightarrow> lease_record \<Rightarrow> bool" where
  "succeeds l m \<longleftrightarrow> lease_wf l \<and> lease_wf m \<and> lr_task_id l = lr_task_id m \<and>
     lease_start l \<le> lease_start m \<and> lease_end l \<le> lease_end m \<and> lr_epoch l \<le> lr_epoch m \<and>
     (lr_epoch l = lr_epoch m \<longrightarrow> lr_owner l = lr_owner m \<and> lr_lease_branch l = lr_lease_branch m \<and>
        lr_task_revision l = lr_task_revision m \<and>
        lr_task_contract_digest l = lr_task_contract_digest m \<and> lr_base_sha l = lr_base_sha m) \<and>
     (lr_epoch l < lr_epoch m \<longrightarrow> lease_end l \<le> lease_start m)"

lemma succeeds_refl: "lease_wf l \<Longrightarrow> succeeds l l"
  by (simp add: succeeds_def)

lemma succeeds_trans:
  assumes lm: "succeeds l m" and mn: "succeeds m n"
  shows "succeeds l n"
proof -
  have ord: "lr_epoch l \<le> lr_epoch m" "lr_epoch m \<le> lr_epoch n" "lease_end l \<le> lease_end m"
    "lease_start l \<le> lease_start m" "lease_start m \<le> lease_start n" "lease_end m \<le> lease_end n"
    using lm mn by (simp_all add: succeeds_def)
  have "lease_end l \<le> lease_start n" if "lr_epoch l < lr_epoch n"
  proof (cases "lr_epoch l < lr_epoch m")
    case True
    then show ?thesis using lm ord by (simp add: succeeds_def)
  next
    case False
    then have "lease_end m \<le> lease_start n" using that ord mn by (simp add: succeeds_def)
    then show ?thesis using ord by simp
  qed
  moreover have "lr_epoch l = lr_epoch m \<and> lr_epoch m = lr_epoch n" if "lr_epoch l = lr_epoch n"
    using that ord by simp
  ultimately show ?thesis using lm mn ord unfolding succeeds_def by simp
qed

lemma lease_step_succeeds: "lease_step l m \<Longrightarrow> lease_wf l \<Longrightarrow> succeeds l m"
proof (induction rule: lease_step.induct)
  case (beat l h obs m)
  obtain t where t: "lease_start l \<le> t" "lease_wf m"
    "m = l\<lparr>lr_head_sha := Some h, lr_last_heartbeat_at := Some t,
       lr_expires_at := Some (t + timedelta_seconds (lr_ttl_seconds l))\<rparr>"
    by (rule heartbeat_Inr [OF beat(2,1)])
  have "lease_end l = lease_start l + timedelta_seconds (lr_ttl_seconds l)"
    using beat(2) by (simp add: lease_wf_iff)
  moreover have "lease_start m = t" "lease_end m = t + timedelta_seconds (lr_ttl_seconds l)"
    by (simp_all add: t(3) lease_start_def lease_end_def)
  ultimately show ?case using beat(2) t by (simp add: succeeds_def)
next
  case (regrant p ow e now d l rc m)
  obtain t b h where m: "m = granted p ow e b h t d" "lease_wf m" "lease_end l \<le> t" "lr_task_id l = tp_task_id p"
    "(e = lr_epoch l \<and> ow = lr_owner l \<and> b = lr_lease_branch l \<and>
        lr_task_revision l = tp_task_revision p \<and> lr_task_contract_digest l = contract_digest p \<and>
        lr_base_sha l = tp_base_sha p) \<or> (e = lr_epoch l + 1 \<and> h = None)"
    by (rule regrant_Inr [OF regrant(2,1)])
  have "lease_start l < lease_end l" "lease_start m < lease_end m"
    using regrant(2) m(2) by (simp_all add: lease_wf_iff)
  then show ?case using m regrant(2) by (auto simp: succeeds_def)
qed

lemma lease_history_succeeds: "lease_step\<^sup>*\<^sup>* l m \<Longrightarrow> lease_wf l \<Longrightarrow> succeeds l m"
proof (induction rule: rtranclp_induct)
  case base
  then show ?case by (rule succeeds_refl)
next
  case (step m n)
  then have "succeeds l m" by simp
  then show ?case using lease_step_succeeds [OF step(2)] succeeds_trans by (simp add: succeeds_def) blast
qed

text \<open>Two leases of one history that are current at the same instant have one holder.\<close>

lemma lease_is_current_iff:
  assumes "lease_wf l"
  shows "lease_is_current l p (Some t) = Inr True \<longleftrightarrow> lr_task_id l = tp_task_id p \<and>
    lr_task_revision l = tp_task_revision p \<and> lr_task_contract_digest l = contract_digest p \<and>
    lr_base_sha l = tp_base_sha p \<and> lease_start l \<le> t \<and> t < lease_end l"
  using assms by (auto simp: lease_is_current_def res_iff lease_wf_iff split: if_splits)

lemma one_holder:
  assumes "lease_step\<^sup>*\<^sup>* l m" and "lease_wf l"
    and "lease_is_current l p (Some t) = Inr True" and "lease_is_current m q (Some t) = Inr True"
  shows "lr_owner l = lr_owner m \<and> lr_epoch l = lr_epoch m \<and> lr_lease_branch l = lr_lease_branch m"
proof -
  have s: "succeeds l m" by (rule lease_history_succeeds [OF assms(1,2)])
  then have "lease_wf m" by (simp add: succeeds_def)
  then have "t < lease_end l" "lease_start m \<le> t"
    using assms(2-4) lease_is_current_iff by blast+
  then have "\<not> lr_epoch l < lr_epoch m" using s by (auto simp: succeeds_def)
  then show ?thesis using s by (simp add: succeeds_def)
qed

end
