(* ===== verification/StatusRecords.thy ===== *)
theory StatusRecords
  imports Leases
begin

text \<open>
  \<open>tools/agent_repo/coordination/github_state.py\<close>: the durable status projection of a
  task, with its payload, and the handoff packet with the check that binds it to a lease.
  Rendering to and parsing from a GitHub comment are not modelled.
\<close>

section \<open>Status records\<close>

record task_status_record =
  sr_task_id :: string
  sr_task_revision :: int
  sr_task_contract_digest :: string
  sr_phase :: task_phase
  sr_condition :: task_condition
  sr_base_sha :: string
  sr_owner :: "string option"
  sr_lease_epoch :: "int option"
  sr_lease_branch :: "string option"
  sr_head_sha :: "string option"
  sr_pr_id :: "string option"
  sr_checkpoint :: "string option"
  sr_blocking_reason :: "string option"
  sr_stale_reason :: "string option"

definition optional_text :: "string \<Rightarrow> string option \<Rightarrow> unit res" where
  "optional_text field v = (if blank_option v
     then Inl (value_error (field @ '' must be non-empty when provided'')) else Inr ())"

text \<open>The lease fields: all absent, or all present and one fence.\<close>

definition lease_field_checks :: "task_status_record \<Rightarrow> unit res" where
  "lease_field_checks r = (case (sr_owner r, sr_lease_epoch r, sr_lease_branch r) of
      (None, None, None) \<Rightarrow> Inr ()
    | (Some owner, Some epoch, Some branch) \<Rightarrow>
        bindr (checks [
          (blank owner, value_error ''lease fields require a non-empty owner''),
          (epoch < 1, value_error ''lease fields require a positive lease_epoch'')]) (\<lambda>_.
        bindr (lease_branch_name (sr_task_id r) epoch owner) (\<lambda>expected.
        checks [(branch \<noteq> expected, value_error ''lease fields contain an invalid fenced branch'')]))
    | _ \<Rightarrow> Inl (value_error ''lease fields owner/lease_epoch/lease_branch must be all present''))"

definition status_record_post_init :: "task_status_record \<Rightarrow> task_status_record res" where
  "status_record_post_init r =
     bindr (checks [
       (\<not> is_task_id (sr_task_id r), value_error ''task_id is invalid''),
       (sr_task_revision r < 1, value_error ''task_revision must be a positive integer'')]) (\<lambda>_.
     bindr (require_digest ''task_contract_digest'' (sr_task_contract_digest r)) (\<lambda>_.
     bindr (require_full_sha ''base_sha'' (sr_base_sha r)) (\<lambda>_.
     bindr (optional_sha ''head_sha'' (sr_head_sha r)) (\<lambda>_.
     bindr (lease_field_checks r) (\<lambda>_.
     bindr (optional_text ''pr_id'' (sr_pr_id r)) (\<lambda>_.
     bindr (optional_text ''checkpoint'' (sr_checkpoint r)) (\<lambda>_.
     bindr (optional_text ''blocking_reason'' (sr_blocking_reason r)) (\<lambda>_.
     bindr (optional_text ''stale_reason'' (sr_stale_reason r)) (\<lambda>_. Inr r)))))))))"

fun null_or :: "('a \<Rightarrow> json) \<Rightarrow> 'a option \<Rightarrow> json" where
  "null_or f None = JNull"
| "null_or f (Some x) = f x"

definition status_record_payload :: "task_status_record \<Rightarrow> (string \<times> json) list" where
  "status_record_payload r = [
     (''task_id'', JStr (sr_task_id r)),
     (''task_revision'', JInt (sr_task_revision r)),
     (''task_contract_digest'', JStr (sr_task_contract_digest r)),
     (''phase'', JStr (task_phase_value (sr_phase r))),
     (''condition'', JStr (task_condition_value (sr_condition r))),
     (''base_sha'', JStr (sr_base_sha r)),
     (''owner'', null_or JStr (sr_owner r)),
     (''lease_epoch'', null_or JInt (sr_lease_epoch r)),
     (''lease_branch'', null_or JStr (sr_lease_branch r)),
     (''head_sha'', null_or JStr (sr_head_sha r)),
     (''pr_id'', null_or JStr (sr_pr_id r)),
     (''checkpoint'', null_or JStr (sr_checkpoint r)),
     (''blocking_reason'', null_or JStr (sr_blocking_reason r)),
     (''stale_reason'', null_or JStr (sr_stale_reason r))]"

section \<open>Handoffs\<close>

record handoff_packet =
  hp_task_id :: string
  hp_task_revision :: int
  hp_task_contract_digest :: string
  hp_lease_epoch :: int
  hp_last_good_head :: string
  hp_verified :: "string list"
  hp_pending :: "string list"
  hp_known_failures :: "string list"
  hp_do_not_repeat :: "string list"
  hp_evidence_ids :: "string list"

definition handoff_list_checks :: "string \<Rightarrow> string list \<Rightarrow> unit res" where
  "handoff_list_checks name vs = checks [
     (list_ex blank vs, value_error (''handoff '' @ name @ '' entries must be non-empty strings'')),
     (has_dup vs, value_error (''handoff '' @ name @ '' contains duplicates''))]"

definition handoff_post_init :: "handoff_packet \<Rightarrow> handoff_packet res" where
  "handoff_post_init h =
     bindr (checks [
       (\<not> is_task_id (hp_task_id h), value_error ''task_id is invalid''),
       (hp_task_revision h < 1, value_error ''task_revision must be a positive integer'')]) (\<lambda>_.
     bindr (require_digest ''task_contract_digest'' (hp_task_contract_digest h)) (\<lambda>_.
     bindr (checks [(hp_lease_epoch h < 1, value_error ''lease_epoch must be a positive integer'')]) (\<lambda>_.
     bindr (require_full_sha ''last_good_head'' (hp_last_good_head h)) (\<lambda>_.
     bindr (handoff_list_checks ''verified'' (hp_verified h)) (\<lambda>_.
     bindr (handoff_list_checks ''pending'' (hp_pending h)) (\<lambda>_.
     bindr (handoff_list_checks ''known_failures'' (hp_known_failures h)) (\<lambda>_.
     bindr (handoff_list_checks ''do_not_repeat'' (hp_do_not_repeat h)) (\<lambda>_.
     bindr (handoff_list_checks ''evidence_ids'' (hp_evidence_ids h)) (\<lambda>_. Inr h)))))))))"

definition validate_handoff :: "handoff_packet \<Rightarrow> task_packet \<Rightarrow> lease_record \<Rightarrow> unit res" where
  "validate_handoff h p l = checks [
     (hp_task_id h \<noteq> tp_task_id p \<or> hp_task_revision h \<noteq> tp_task_revision p \<or>
      hp_task_contract_digest h \<noteq> contract_digest p \<or> lr_task_id l \<noteq> tp_task_id p \<or>
      lr_task_revision l \<noteq> tp_task_revision p \<or> lr_task_contract_digest l \<noteq> contract_digest p \<or>
      lr_base_sha l \<noteq> tp_base_sha p,
        value_error ''handoff task contract does not match current task/lease''),
     (hp_lease_epoch h \<noteq> lr_epoch l, value_error ''handoff lease epoch does not match current lease epoch''),
     (lr_head_sha l = None \<or> Some (hp_last_good_head h) \<noteq> lr_head_sha l,
        value_error ''handoff head does not match current lease head'')]"

section \<open>Facts\<close>

definition record_wf :: "task_status_record \<Rightarrow> bool" where
  "record_wf r \<longleftrightarrow> status_record_post_init r = Inr r"

lemma status_record_same: "status_record_post_init r = Inr q \<Longrightarrow> q = r \<and> record_wf r"
  by (auto simp: status_record_post_init_def record_wf_def res_iff)

lemma lease_field_checks_Inr [res_iff]:
  "lease_field_checks r = Inr u \<longleftrightarrow>
     (sr_owner r = None \<and> sr_lease_epoch r = None \<and> sr_lease_branch r = None) \<or>
     (\<exists>ow e b. sr_owner r = Some ow \<and> sr_lease_epoch r = Some e \<and> sr_lease_branch r = Some b \<and>
        \<not> blank ow \<and> 1 \<le> e \<and> lease_branch_name (sr_task_id r) e ow = Inr b)"
  by (cases "sr_owner r"; cases "sr_lease_epoch r"; cases "sr_lease_branch r")
    (auto simp: lease_field_checks_def res_iff not_less)

lemma record_wf_facts:
  assumes "record_wf r"
  shows "is_task_id (sr_task_id r) \<and> 1 \<le> sr_task_revision r \<and> is_sha256 (sr_task_contract_digest r) \<and>
    is_git_sha (sr_base_sha r) \<and> (\<forall>s. sr_head_sha r = Some s \<longrightarrow> is_git_sha s) \<and>
    lease_field_checks r = Inr ()"
  using assms by (simp add: record_wf_def status_record_post_init_def res_iff)

text \<open>A valid record with a lease names the one branch of its task and epoch.\<close>

lemma record_fence:
  assumes "record_wf r" and "record_wf q" and "sr_lease_branch r = Some b" and "sr_lease_branch q = Some b"
  shows "sr_task_id r = sr_task_id q \<and> sr_lease_epoch r = sr_lease_epoch q"
proof -
  obtain e ow where r: "sr_lease_epoch r = Some e" "lease_branch_name (sr_task_id r) e ow = Inr b"
    using record_wf_facts [OF assms(1)] assms(3) by (auto simp: res_iff)
  obtain e' ow' where q: "sr_lease_epoch q = Some e'" "lease_branch_name (sr_task_id q) e' ow' = Inr b"
    using record_wf_facts [OF assms(2)] assms(4) by (auto simp: res_iff)
  show ?thesis using lease_branch_name_inj [OF r(2) q(2)] r q by simp
qed

lemma validate_handoff_Inr:
  "validate_handoff h p l = Inr u \<longleftrightarrow>
     hp_task_id h = tp_task_id p \<and> hp_task_revision h = tp_task_revision p \<and>
     hp_task_contract_digest h = contract_digest p \<and> lr_task_id l = tp_task_id p \<and>
     lr_task_revision l = tp_task_revision p \<and> lr_task_contract_digest l = contract_digest p \<and>
     lr_base_sha l = tp_base_sha p \<and> hp_lease_epoch h = lr_epoch l \<and>
     lr_head_sha l = Some (hp_last_good_head h)"
  by (auto simp: validate_handoff_def)

text \<open>A handoff accepted for one lease is refused for every later epoch of the task.\<close>

lemma handoff_fenced:
  assumes "validate_handoff h p l = Inr ()" and "lease_step\<^sup>*\<^sup>* l m" and "lease_wf l"
    and "validate_handoff h q m = Inr ()"
  shows "lr_epoch m = lr_epoch l \<and> lr_owner m = lr_owner l \<and> lr_head_sha m = lr_head_sha l"
proof -
  have "lr_epoch m = lr_epoch l" "lr_head_sha m = lr_head_sha l"
    using assms(1,4) by (simp_all add: validate_handoff_Inr)
  then show ?thesis using lease_history_succeeds [OF assms(2,3)] by (simp add: succeeds_def)
qed

end
