(* ===== verification/TaskStates.thy ===== *)
theory TaskStates
  imports Conflicts Dependencies
begin

text \<open>
  \<open>tools/agent_repo/coordination/state.py\<close>: the protocol of task phases and the
  freshness of evidence.  The phase protocol is also a step relation, whose lemmas say
  which phases can follow one another and that every path to completion verifies first.
\<close>

section \<open>Phases\<close>

fun allowed_transitions :: "task_phase \<Rightarrow> task_phase list" where
  "allowed_transitions PLANNED = [READY]"
| "allowed_transitions READY = [EXECUTING]"
| "allowed_transitions EXECUTING = [REVIEW]"
| "allowed_transitions REVIEW = [EXECUTING, VERIFICATION]"
| "allowed_transitions VERIFICATION = [EXECUTING, INTEGRATION, COMPLETE]"
| "allowed_transitions INTEGRATION = [EXECUTING, VERIFICATION, COMPLETE]"
| "allowed_transitions COMPLETE = []"

definition validate_transition :: "task_phase \<Rightarrow> task_phase \<Rightarrow> unit res" where
  "validate_transition current target =
     (if current = COMPLETE then Inl (value_error ''complete is a terminal task phase'')
      else if target \<notin> set (allowed_transitions current)
      then Inl (value_error (''task phase transition is not allowed: '' @ task_phase_value current @
        '' -> '' @ task_phase_value target))
      else Inr ())"

section \<open>Evidence\<close>

definition evidence_is_current ::
  "evidence_record \<Rightarrow> task_packet \<Rightarrow> string \<Rightarrow> string option \<Rightarrow> bool" where
  "evidence_is_current e p head current_main =
     (if ev_task_id e \<noteq> tp_task_id p then False
      else if ev_task_revision e \<noteq> tp_task_revision p then False
      else if ev_task_contract_digest e \<noteq> contract_digest p then False
      else if ev_base_sha e \<noteq> tp_base_sha p then False
      else if ev_head_sha e \<noteq> head then False
      else if ev_kind e \<in> {INTEGRATION_EV, POST_MERGE_EV}
      then current_main \<noteq> None \<and> ev_main_sha e = current_main
      else True)"

definition evidence_is_current_after_peer_integration ::
  "evidence_record \<Rightarrow> task_packet \<Rightarrow> task_packet \<Rightarrow> string \<Rightarrow> string option \<Rightarrow> bool res" where
  "evidence_is_current_after_peer_integration e p peer head current_main =
     (if tp_task_id p = tp_task_id peer
      then Inl (value_error ''peer integration requires a distinct task'')
      else bindr (classify_conflict p peer) (\<lambda>c.
        if c \<noteq> NO_CONFLICT then Inr False
        else Inr (evidence_is_current e p head current_main)))"

definition parent_completion_allowed :: "status_map \<Rightarrow> bool \<Rightarrow> bool \<Rightarrow> bool" where
  "parent_completion_allowed children acceptance invariants \<longleftrightarrow>
     list_all (\<lambda>(t, s). ts_phase s = COMPLETE \<and> ts_condition s = HEALTHY) children \<and> acceptance \<and> invariants"

section \<open>The protocol as a step relation\<close>

inductive phase_step :: "task_phase \<Rightarrow> task_phase \<Rightarrow> bool" where
  "validate_transition a b = Inr () \<Longrightarrow> phase_step a b"

inductive_simps phase_step_simps: "phase_step a b"

lemma validate_transition_Inr [res_iff]:
  "validate_transition a b = Inr u \<longleftrightarrow> b \<in> set (allowed_transitions a)"
  by (cases a) (auto simp: validate_transition_def)

lemma phase_step_iff: "phase_step a b \<longleftrightarrow> b \<in> set (allowed_transitions a)"
  by (simp add: phase_step_simps res_iff)

text \<open>
  A rank that a step raises by at most one, save for the two shortcuts into completion.
\<close>

lemma phase_step_order:
  assumes "phase_step a b"
  shows "a \<noteq> b \<and> (b < a \<longrightarrow> b = EXECUTING \<or> (a = INTEGRATION \<and> b = VERIFICATION)) \<and>
    (b = COMPLETE \<longrightarrow> a \<in> {VERIFICATION, INTEGRATION})"
  by (insert assms, cases a) (auto simp: phase_step_iff less_task_phase_def)

lemma complete_terminal: "\<not> phase_step COMPLETE b"
  by (simp add: phase_step_iff)

text \<open>A run from \<open>PLANNED\<close> has passed every phase before the one it is in, integration aside.\<close>

inductive phase_run :: "task_phase list \<Rightarrow> bool" where
  start: "phase_run [PLANNED]"
| step: "phase_run (a # visited) \<Longrightarrow> phase_step a b \<Longrightarrow> phase_run (b # a # visited)"

inductive_cases phase_run_ConsE: "phase_run (b # visited)"

definition required_before :: "task_phase \<Rightarrow> task_phase list" where
  "required_before b = filter (\<lambda>a. a < b) [PLANNED, READY, EXECUTING, REVIEW, VERIFICATION]"

lemma required_before_simps [simp]:
  "required_before PLANNED = []" "required_before READY = [PLANNED]"
  "required_before EXECUTING = [PLANNED, READY]"
  "required_before REVIEW = [PLANNED, READY, EXECUTING]"
  "required_before VERIFICATION = [PLANNED, READY, EXECUTING, REVIEW]"
  "required_before INTEGRATION = [PLANNED, READY, EXECUTING, REVIEW, VERIFICATION]"
  "required_before COMPLETE = [PLANNED, READY, EXECUTING, REVIEW, VERIFICATION]"
  by (simp_all add: required_before_def less_task_phase_def)

lemma phase_run_required: "phase_run run \<Longrightarrow> set (required_before (hd run)) \<subseteq> set run"
proof (induction rule: phase_run.induct)
  case (step a visited b)
  then show ?case by (cases a; cases b) (auto simp: phase_step_iff)
qed simp

lemma phase_run_complete_once: "phase_run run \<Longrightarrow> COMPLETE \<notin> set (tl run)"
proof (induction rule: phase_run.induct)
  case (step a visited b)
  then show ?case using complete_terminal by auto
qed simp

text \<open>Every phase can still be completed: the protocol has no dead end.\<close>

lemma phase_reaches_complete: "phase_step\<^sup>*\<^sup>* a COMPLETE"
proof -
  have v: "phase_step\<^sup>*\<^sup>* VERIFICATION COMPLETE" by (auto simp: phase_step_iff)
  then have r: "phase_step\<^sup>*\<^sup>* REVIEW COMPLETE"
    by (rule converse_rtranclp_into_rtranclp [rotated]) (simp add: phase_step_iff)
  then have e: "phase_step\<^sup>*\<^sup>* EXECUTING COMPLETE"
    by (rule converse_rtranclp_into_rtranclp [rotated]) (simp add: phase_step_iff)
  then have d: "phase_step\<^sup>*\<^sup>* READY COMPLETE"
    by (rule converse_rtranclp_into_rtranclp [rotated]) (simp add: phase_step_iff)
  then have p: "phase_step\<^sup>*\<^sup>* PLANNED COMPLETE"
    by (rule converse_rtranclp_into_rtranclp [rotated]) (simp add: phase_step_iff)
  have i: "phase_step\<^sup>*\<^sup>* INTEGRATION COMPLETE" by (auto simp: phase_step_iff)
  show ?thesis using v r e d p i by (cases a) auto
qed

section \<open>Freshness\<close>

lemma evidence_is_current_iff:
  "evidence_is_current e p head current_main \<longleftrightarrow>
     ev_task_id e = tp_task_id p \<and> ev_task_revision e = tp_task_revision p \<and>
     ev_task_contract_digest e = contract_digest p \<and> ev_base_sha e = tp_base_sha p \<and>
     ev_head_sha e = head \<and>
     (ev_kind e \<in> {INTEGRATION_EV, POST_MERGE_EV} \<longrightarrow> current_main \<noteq> None \<and> ev_main_sha e = current_main)"
  by (auto simp: evidence_is_current_def)

text \<open>Evidence is for one head only, and integration evidence for one state of main only.\<close>

lemma evidence_one_head:
  "evidence_is_current e p h m \<Longrightarrow> evidence_is_current e p h' m' \<Longrightarrow> h = h'"
  by (simp add: evidence_is_current_iff)

lemma evidence_after_peer:
  "evidence_is_current_after_peer_integration e p q h m = Inr b \<longleftrightarrow>
     tp_task_id p \<noteq> tp_task_id q \<and> (\<exists>c. classify_conflict p q = Inr c \<and>
       b = (c = NO_CONFLICT \<and> evidence_is_current e p h m))"
  by (auto simp: evidence_is_current_after_peer_integration_def res_iff)

end
