(* ===== verification/Enrollment.thy ===== *)
theory Enrollment
  imports StatusRecords TaskStates
begin

text \<open>
  \<open>tools/agent_repo/coordination/enrollment.py\<close>: the preflight of a task's enrollment in
  the registry and the transitions of one registry entry.
\<close>

section \<open>Projections\<close>

definition is_repo_char :: "char \<Rightarrow> bool" where
  "is_repo_char c \<longleftrightarrow> is_task_char c"

definition is_repo_part :: "string \<Rightarrow> bool" where
  "is_repo_part s \<longleftrightarrow> s \<noteq> [] \<and> is_alnum (hd s) \<and> list_all is_repo_char s"

text \<open>\<open>owner/name\<close>: the first slash separates, and no part has another one.\<close>

definition is_repository :: "string \<Rightarrow> bool" where
  "is_repository s = (let owner = takeWhile (\<lambda>c. code c \<noteq> 47) s; rest = dropWhile (\<lambda>c. code c \<noteq> 47) s
     in is_repo_part owner \<and> rest \<noteq> [] \<and> is_repo_part (tl rest))"

record enrollment_projection =
  ep_repository :: string
  ep_issue_number :: int
  ep_issue_node_id :: string
  ep_status :: task_status_record

definition projection_post_init :: "enrollment_projection \<Rightarrow> enrollment_projection res" where
  "projection_post_init e = bindr (checks [
     (\<not> is_repository (ep_repository e), value_error ''repository must be owner/name''),
     (ep_issue_number e < 1 \<or> blank (ep_issue_node_id e),
        value_error ''issue reference must have an immutable node ID and number''),
     (sr_owner (ep_status e) = None \<or> sr_lease_epoch (ep_status e) = None \<or>
      sr_lease_branch (ep_status e) = None \<or> sr_head_sha (ep_status e) = None,
        value_error ''write enrollment requires a complete fenced lease'')]) (\<lambda>_. Inr e)"

definition projection_payload :: "enrollment_projection \<Rightarrow> json" where
  "projection_payload e = JObj [
     (''schema'', JStr ''coordinator_enrollment_projection_v1''),
     (''repository'', JStr (ep_repository e)),
     (''issue_number'', JInt (ep_issue_number e)),
     (''issue_node_id'', JStr (ep_issue_node_id e)),
     (''status'', JObj (status_record_payload (ep_status e)))]"

definition require_exact_sha :: "string \<Rightarrow> string \<Rightarrow> unit res" where
  "require_exact_sha v field = (if is_git_sha v then Inr ()
     else Inl (value_error (field @ '' must be an exact 40-character Git SHA'')))"

definition prepare_enrollment_projection ::
  "task_packet \<Rightarrow> lease_record \<Rightarrow> task_status_record \<Rightarrow> string \<Rightarrow> int \<Rightarrow> string \<Rightarrow> string \<Rightarrow> string \<Rightarrow>
     bool \<Rightarrow> datetime \<Rightarrow> enrollment_projection res" where
  "prepare_enrollment_projection p l s repository issue node main_sha branch_sha is_open now =
     bindr (require_exact_sha main_sha ''current_main_sha'') (\<lambda>_.
     bindr (require_exact_sha branch_sha ''observed_branch_sha'') (\<lambda>_.
     bindr (checks [
       (tp_parent_issue p = None, value_error ''Task issue number must be an exact integer''),
       (\<not> is_open \<or> tp_parent_issue p \<noteq> Some issue,
          value_error ''open immutable Task issue reference does not match contract''),
       (tp_execution_mode p \<noteq> WRITE, value_error ''read_only tasks must not acquire write enrollment''),
       (main_sha \<noteq> tp_base_sha p, value_error ''current main has changed since Task base SHA'')]) (\<lambda>_.
     bindr (lease_is_current l p now) (\<lambda>current.
     bindr (checks [
       (\<not> current, value_error ''lease is expired or does not match Task contract''),
       (lr_head_sha l = None \<or> Some branch_sha \<noteq> lr_head_sha l,
          value_error ''lease branch tip is missing or drifted''),
       (sr_phase s = COMPLETE, value_error ''completed Task cannot be newly enrolled as writable''),
       (sr_task_id s \<noteq> tp_task_id p \<or> sr_task_revision s \<noteq> tp_task_revision p \<or>
        sr_task_contract_digest s \<noteq> contract_digest p \<or> sr_base_sha s \<noteq> tp_base_sha p \<or>
        sr_owner s \<noteq> Some (lr_owner l) \<or> sr_lease_epoch s \<noteq> Some (lr_epoch l) \<or>
        sr_lease_branch s \<noteq> Some (lr_lease_branch l) \<or> sr_head_sha s \<noteq> lr_head_sha l,
          value_error ''Task status, packet and lease do not bind the same snapshot'')]) (\<lambda>_.
     projection_post_init \<lparr>ep_repository = repository, ep_issue_number = issue,
       ep_issue_node_id = node, ep_status = s\<rparr>)))))"

section \<open>Transitions of a registry entry\<close>

definition validate_creation :: "enrollment_projection \<Rightarrow> string list \<Rightarrow> unit res" where
  "validate_creation candidate task_ids = checks [
     (sr_phase (ep_status candidate) = COMPLETE, value_error ''completed Task cannot be newly enrolled''),
     (sr_task_id (ep_status candidate) \<in> set task_ids, value_error ''duplicate Task ID in registry'')]"

definition validate_update ::
  "enrollment_projection \<Rightarrow> enrollment_projection \<Rightarrow> string list \<Rightarrow> unit res" where
  "validate_update previous candidate task_ids =
    (let old = ep_status previous; new = ep_status candidate; t = sr_task_id new in
     bindr (checks [
       (sr_task_id old \<noteq> t \<or> t \<notin> set task_ids,
          value_error ''registry entry is missing or belongs to another Task''),
       (ep_repository previous \<noteq> ep_repository candidate \<or>
        ep_issue_number previous \<noteq> ep_issue_number candidate \<or>
        ep_issue_node_id previous \<noteq> ep_issue_node_id candidate,
          value_error ''immutable Task issue reference changed''),
       (sr_task_revision new < sr_task_revision old, value_error ''Task revision regressed''),
       (sr_task_revision old + 1 < sr_task_revision new, value_error ''Task revision skipped a predecessor''),
       (sr_task_revision old < sr_task_revision new,
          value_error ''Task revision bump requires a new reconciled lease''),
       (sr_base_sha new \<noteq> sr_base_sha old, value_error ''Task base changed without a revision bump''),
       (sr_phase old = COMPLETE, value_error ''complete is a terminal task phase'')]) (\<lambda>_.
     bindr (if sr_phase new \<noteq> sr_phase old then validate_transition (sr_phase old) (sr_phase new)
            else Inr ()) (\<lambda>_.
     bindr (checks [
       (sr_task_revision new = sr_task_revision old \<and>
        sr_task_contract_digest new \<noteq> sr_task_contract_digest old,
          value_error ''Task digest changed without a revision bump'')]) (\<lambda>_.
     case (sr_lease_epoch new, sr_lease_epoch old) of
       (Some e', Some e) \<Rightarrow> checks [
         (e' < e, value_error ''lease epoch regressed''),
         (e' \<noteq> e, value_error ''new lease epoch requires remote side-effect reconciliation''),
         (sr_owner new \<noteq> sr_owner old \<or> sr_lease_branch new \<noteq> sr_lease_branch old,
            value_error ''lease owner or fenced branch changed within an epoch''),
         (sr_head_sha new \<noteq> sr_head_sha old,
            value_error ''branch advance requires verified remote ancestry'')]
     | _ \<Rightarrow> Inl (value_error ''missing write lease epoch'')))))"

definition validate_enrollment_transition ::
  "enrollment_projection option \<Rightarrow> enrollment_projection \<Rightarrow> string list \<Rightarrow> unit res" where
  "validate_enrollment_transition previous candidate task_ids =
     bindr (checks [
       (list_ex (\<lambda>t. t = []) task_ids, value_error ''registry roster is malformed or duplicated''),
       (has_dup task_ids, value_error ''registry roster is malformed or duplicated'')]) (\<lambda>_.
     case previous of
       None \<Rightarrow> validate_creation candidate task_ids
     | Some prev \<Rightarrow> validate_update prev candidate task_ids)"

definition require_local_registry_preflight ::
  "enrollment_projection option \<Rightarrow> enrollment_projection \<Rightarrow> string \<Rightarrow> string \<Rightarrow> string list \<Rightarrow> unit res" where
  "require_local_registry_preflight previous candidate expected observed task_ids =
     bindr (require_exact_sha expected ''expected_registry_oid'') (\<lambda>_.
     bindr (require_exact_sha observed ''observed_registry_oid'') (\<lambda>_.
     bindr (checks [(expected \<noteq> observed,
       value_error ''registry reference changed since expected version'')]) (\<lambda>_.
     validate_enrollment_transition previous candidate task_ids)))"

definition require_enrollment_readback ::
  "enrollment_projection \<Rightarrow> enrollment_projection \<Rightarrow> string \<Rightarrow> string \<Rightarrow> string \<Rightarrow> unit res" where
  "require_enrollment_readback expected observed expected_oid observed_oid branch_sha =
     bindr (require_exact_sha expected_oid ''expected_registry_oid'') (\<lambda>_.
     bindr (require_exact_sha observed_oid ''observed_registry_oid'') (\<lambda>_.
     bindr (require_exact_sha branch_sha ''observed_branch_sha'') (\<lambda>_.
     checks [
       (expected_oid \<noteq> observed_oid, value_error ''registry readback OID changed''),
       (expected \<noteq> observed, value_error ''registry readback record differs from candidate''),
       (sr_head_sha (ep_status expected) \<noteq> Some branch_sha,
          value_error ''lease branch SHA changed during readback'')])))"

section \<open>Facts\<close>

lemma require_exact_sha_Inr [res_iff]: "require_exact_sha v f = Inr u \<longleftrightarrow> is_git_sha v"
  by (simp add: require_exact_sha_def)

lemma projection_post_init_same: "projection_post_init e = Inr f \<Longrightarrow> f = e"
  by (auto simp: projection_post_init_def res_iff)

definition projection_wf :: "enrollment_projection \<Rightarrow> bool" where
  "projection_wf e \<longleftrightarrow> projection_post_init e = Inr e \<and> record_wf (ep_status e)"

text \<open>What an accepted preflight establishes about the snapshots it was given.\<close>

lemma prepare_enrollment_Inr:
  assumes "prepare_enrollment_projection p l s repo issue node main_sha tip is_open (Some t) = Inr e"
    and "lease_wf l"
  shows "e = \<lparr>ep_repository = repo, ep_issue_number = issue, ep_issue_node_id = node, ep_status = s\<rparr> \<and>
    is_open \<and> tp_parent_issue p = Some issue \<and> tp_execution_mode p = WRITE \<and> main_sha = tp_base_sha p \<and>
    lease_is_current l p (Some t) = Inr True \<and> lr_head_sha l = Some tip \<and> sr_phase s \<noteq> COMPLETE \<and>
    sr_task_id s = tp_task_id p \<and> sr_task_contract_digest s = contract_digest p \<and>
    sr_owner s = Some (lr_owner l) \<and> sr_lease_epoch s = Some (lr_epoch l) \<and>
    sr_lease_branch s = Some (lr_lease_branch l) \<and> sr_head_sha s = Some tip"
  using assms(1)
  by (auto simp: prepare_enrollment_projection_def res_iff dest: projection_post_init_same)

text \<open>An accepted update changes the phase along the protocol and nothing of the binding.\<close>

definition same_binding :: "task_status_record \<Rightarrow> task_status_record \<Rightarrow> bool" where
  "same_binding a b \<longleftrightarrow> sr_task_id a = sr_task_id b \<and> sr_task_revision a = sr_task_revision b \<and>
     sr_task_contract_digest a = sr_task_contract_digest b \<and> sr_base_sha a = sr_base_sha b \<and>
     sr_owner a = sr_owner b \<and> sr_lease_epoch a = sr_lease_epoch b \<and>
     sr_lease_branch a = sr_lease_branch b \<and> sr_head_sha a = sr_head_sha b"

lemma validate_update_Inr:
  "validate_update a b ts = Inr u \<longleftrightarrow>
     sr_task_id (ep_status b) \<in> set ts \<and> ep_repository a = ep_repository b \<and>
     ep_issue_number a = ep_issue_number b \<and> ep_issue_node_id a = ep_issue_node_id b \<and>
     same_binding (ep_status a) (ep_status b) \<and> sr_lease_epoch (ep_status a) \<noteq> None \<and>
     sr_phase (ep_status a) \<noteq> COMPLETE \<and>
     (sr_phase (ep_status b) = sr_phase (ep_status a) \<or>
      phase_step (sr_phase (ep_status a)) (sr_phase (ep_status b)))"
proof (cases "sr_lease_epoch (ep_status a)"; cases "sr_lease_epoch (ep_status b)")
  fix e e' assume e: "sr_lease_epoch (ep_status a) = Some e" "sr_lease_epoch (ep_status b) = Some e'"
  have "sr_task_revision (ep_status a) = sr_task_revision (ep_status b) \<longleftrightarrow>
    \<not> sr_task_revision (ep_status b) < sr_task_revision (ep_status a) \<and>
    \<not> sr_task_revision (ep_status a) < sr_task_revision (ep_status b)" by auto
  then show ?thesis using e
    by (auto simp: validate_update_def same_binding_def Let_def bindr_Inr phase_step_iff validate_transition_Inr
        not_less)
qed (simp_all add: validate_update_def same_binding_def Let_def bindr_Inr)

end
