(* ===== verification/Registry.thy ===== *)
theory Registry
  imports Enrollment
begin

text \<open>
  \<open>tools/agent_repo/coordination/registry.py\<close>: the deterministic task registry, its
  canonical bytes and digest, and the plan of one compare-and-swap transition.  Parsing
  registry bytes is not modelled.  The lemmas give what a plan changes, that a plan made
  against an older digest is refused, and the invariants of every registry that plans
  lead to.
\<close>

section \<open>The registry\<close>

record coordinator_registry =
  cr_repository :: string
  cr_entries :: "enrollment_projection list"

definition ep_task_id :: "enrollment_projection \<Rightarrow> string" where
  "ep_task_id e = sr_task_id (ep_status e)"

definition registry_post_init :: "coordinator_registry \<Rightarrow> coordinator_registry res" where
  "registry_post_init r = bindr (checks [
     (\<not> is_repository (cr_repository r), value_error ''registry repository must use owner/name form''),
     (list_ex (\<lambda>e. ep_repository e \<noteq> cr_repository r) (cr_entries r),
        value_error ''registry entry repository differs from registry''),
     (has_dup (map ep_task_id (cr_entries r)), value_error ''registry contains duplicate Task IDs'')])
     (\<lambda>_. Inr (r\<lparr>cr_entries := sort_key ep_task_id (cr_entries r)\<rparr>))"

definition registry_payload :: "coordinator_registry \<Rightarrow> json" where
  "registry_payload r = JObj [
     (''schema'', JStr ''coordinator_registry_v1''),
     (''repository'', JStr (cr_repository r)),
     (''entries'', JList (map projection_payload (cr_entries r)))]"

definition registry_bytes :: "coordinator_registry \<Rightarrow> string" where
  "registry_bytes r = encoded (registry_payload r)"

definition registry_digest :: "coordinator_registry \<Rightarrow> string" where
  "registry_digest r = sha256_hex (registry_bytes r)"

section \<open>Plans\<close>

record registry_plan =
  pl_operation :: string
  pl_task_id :: string
  pl_before_digest :: string
  pl_after_digest :: string
  pl_after_registry :: coordinator_registry
  pl_authoritative_registry_established :: bool
  pl_task_registry_complete :: bool
  pl_cleanup_authorized :: bool

text \<open>The entries after the operation, before the constructor sorts them.\<close>

definition planned_entries ::
  "coordinator_registry \<Rightarrow> enrollment_projection \<Rightarrow> enrollment_projection option \<Rightarrow>
     string \<times> enrollment_projection list" where
  "planned_entries registry candidate previous = (case previous of
      None \<Rightarrow> (''create'', cr_entries registry @ [candidate])
    | Some _ \<Rightarrow> (''update'', map (\<lambda>e. if ep_task_id e = ep_task_id candidate then candidate else e)
        (cr_entries registry)))"

definition plan_registry_transition ::
  "coordinator_registry \<Rightarrow> enrollment_projection \<Rightarrow> string \<Rightarrow> registry_plan res" where
  "plan_registry_transition registry candidate expected =
    (let before = registry_digest registry; t = ep_task_id candidate;
         previous = find (\<lambda>e. ep_task_id e = t) (cr_entries registry) in
     bindr (checks [
       (\<not> is_sha256 expected, value_error ''expected registry digest must be a lowercase SHA-256''),
       (expected \<noteq> before, value_error ''expected registry digest does not match current registry''),
       (ep_repository candidate \<noteq> cr_repository registry,
          value_error ''candidate repository differs from registry'')]) (\<lambda>_.
     bindr (validate_enrollment_transition previous candidate (map ep_task_id (cr_entries registry))) (\<lambda>_.
     bindr (checks [(previous = Some candidate, value_error ''registry transition is a no-op'')]) (\<lambda>_.
     case planned_entries registry candidate previous of (operation, entries) \<Rightarrow>
     bindr (registry_post_init \<lparr>cr_repository = cr_repository registry, cr_entries = entries\<rparr>) (\<lambda>after.
     bindr (checks [(registry_digest after = before, value_error ''registry transition is a no-op'')]) (\<lambda>_.
     Inr \<lparr>pl_operation = operation, pl_task_id = t, pl_before_digest = before,
       pl_after_digest = registry_digest after, pl_after_registry = after,
       pl_authoritative_registry_established = False, pl_task_registry_complete = False,
       pl_cleanup_authorized = False\<rparr>))))))"

section \<open>Valid registries\<close>

definition registry_wf :: "coordinator_registry \<Rightarrow> bool" where
  "registry_wf r \<longleftrightarrow> is_repository (cr_repository r) \<and>
     (\<forall>e \<in> set (cr_entries r). ep_repository e = cr_repository r) \<and>
     distinct (map ep_task_id (cr_entries r)) \<and> sorted (map ep_task_id (cr_entries r))"

definition entry_of :: "coordinator_registry \<Rightarrow> string \<Rightarrow> enrollment_projection option" where
  "entry_of r t = find (\<lambda>e. ep_task_id e = t) (cr_entries r)"

lemma entry_of_Some: "distinct (map ep_task_id (cr_entries r)) \<Longrightarrow>
    entry_of r t = Some e \<longleftrightarrow> e \<in> set (cr_entries r) \<and> ep_task_id e = t"
  unfolding entry_of_def find_Some_iff
  by (auto simp: in_set_conv_nth distinct_conv_nth)

lemma entry_of_None: "entry_of r t = None \<longleftrightarrow> t \<notin> ep_task_id ` set (cr_entries r)"
  by (auto simp: entry_of_def find_None_iff)

lemma registry_post_init_Inr:
  "registry_post_init r = Inr q \<longleftrightarrow> is_repository (cr_repository r) \<and>
     (\<forall>e \<in> set (cr_entries r). ep_repository e = cr_repository r) \<and>
     distinct (map ep_task_id (cr_entries r)) \<and> q = r\<lparr>cr_entries := sort_key ep_task_id (cr_entries r)\<rparr>"
  by (auto simp: registry_post_init_def res_iff list_ex_iff)

lemma distinct_map_sort: "distinct (map f xs) \<Longrightarrow> distinct (map f (sort_key f xs))"
  by (simp add: distinct_map)

lemma registry_post_init_wf: "registry_post_init r = Inr q \<Longrightarrow> registry_wf q \<and> set (cr_entries q) = set (cr_entries r)"
  by (auto simp: registry_post_init_Inr registry_wf_def distinct_map_sort)

text \<open>A valid registry is a fixed point of its constructor: the order is canonical.\<close>

lemma registry_wf_fixed: "registry_wf r \<longleftrightarrow> registry_post_init r = Inr r"
proof
  assume w: "registry_wf r"
  then have "sort_key ep_task_id (cr_entries r) = cr_entries r"
    by (intro sort_key_id_if_sorted) (simp add: registry_wf_def)
  then show "registry_post_init r = Inr r" using w by (simp add: registry_post_init_Inr registry_wf_def)
qed (rule registry_post_init_wf [THEN conjunct1])

section \<open>What a plan changes\<close>

lemma plan_Inr:
  assumes wf: "registry_wf r" and plan: "plan_registry_transition r c d = Inr p"
  shows "d = registry_digest r \<and> pl_before_digest p = registry_digest r \<and>
    pl_after_digest p = registry_digest (pl_after_registry p) \<and> pl_after_digest p \<noteq> pl_before_digest p \<and>
    pl_task_id p = ep_task_id c \<and> registry_wf (pl_after_registry p) \<and>
    cr_repository (pl_after_registry p) = cr_repository r \<and>
    \<not> pl_authoritative_registry_established p \<and> \<not> pl_task_registry_complete p \<and> \<not> pl_cleanup_authorized p"
  using plan
  by (auto simp: plan_registry_transition_def Let_def bindr_Inr registry_post_init_Inr
      dest: registry_post_init_wf split: prod.splits)
    (auto simp: registry_wf_def distinct_map_sort)

lemma plan_parts:
  assumes "plan_registry_transition r c d = Inr p"
  shows "validate_enrollment_transition (entry_of r (ep_task_id c)) c (map ep_task_id (cr_entries r)) = Inr ()"
    and "set (cr_entries (pl_after_registry p)) = set (snd (planned_entries r c (entry_of r (ep_task_id c))))"
  using assms
  by (auto simp: plan_registry_transition_def Let_def bindr_Inr registry_post_init_Inr entry_of_def
      split: prod.splits)

lemma planned_entries_set:
  "set (snd (planned_entries r c (entry_of r (ep_task_id c)))) =
     insert c {e \<in> set (cr_entries r). ep_task_id e \<noteq> ep_task_id c}"
proof (cases "entry_of r (ep_task_id c)")
  case None
  then have "\<forall>e \<in> set (cr_entries r). ep_task_id e \<noteq> ep_task_id c"
    using entry_of_None [of r "ep_task_id c"] by (metis imageI)
  then show ?thesis using None by (auto simp: planned_entries_def)
next
  case (Some e)
  then have "\<exists>x \<in> set (cr_entries r). ep_task_id x = ep_task_id c"
    using entry_of_None [of r "ep_task_id c"] by auto
  then show ?thesis using Some by (auto simp: planned_entries_def)
qed

text \<open>The candidate is installed under its own identity; every other entry is untouched.\<close>

lemma plan_entry:
  assumes wf: "registry_wf r" and plan: "plan_registry_transition r c d = Inr p"
  shows "entry_of (pl_after_registry p) t = (if t = ep_task_id c then Some c else entry_of r t)"
proof -
  have d: "distinct (map ep_task_id (cr_entries (pl_after_registry p)))" "distinct (map ep_task_id (cr_entries r))"
    using plan_Inr [OF wf plan] wf by (simp_all add: registry_wf_def)
  have s: "set (cr_entries (pl_after_registry p)) = insert c {e \<in> set (cr_entries r). ep_task_id e \<noteq> ep_task_id c}"
    using plan_parts(2) [OF plan] planned_entries_set by simp
  show ?thesis
  proof (cases "t = ep_task_id c")
    case True
    then have "entry_of (pl_after_registry p) t = Some c" by (simp add: entry_of_Some [OF d(1)] s)
    then show ?thesis using True by simp
  next
    case False
    show ?thesis
    proof (cases "entry_of r t")
      case None
      then have "entry_of (pl_after_registry p) t = None" using False by (auto simp: entry_of_None s)
      then show ?thesis using False None by simp
    next
      case (Some e)
      then have "entry_of (pl_after_registry p) t = Some e"
        using False by (simp add: entry_of_Some [OF d(1)] entry_of_Some [OF d(2)] s)
      then show ?thesis using False Some by simp
    qed
  qed
qed

lemma validate_transition_cases:
  assumes "validate_enrollment_transition prev c ts = Inr u"
  shows "(case prev of None \<Rightarrow> sr_phase (ep_status c) \<noteq> COMPLETE \<and> ep_task_id c \<notin> set ts
    | Some a \<Rightarrow> validate_update a c ts = Inr ())"
  using assms
  by (auto simp: validate_enrollment_transition_def bindr_Inr validate_creation_def ep_task_id_def
      split: option.splits)

text \<open>A plan computed against a digest that is no longer current is refused.\<close>

lemma stale_plan_refused:
  assumes wf: "registry_wf r" and plan: "plan_registry_transition r c d = Inr p"
  shows "\<exists>m. plan_registry_transition (pl_after_registry p) c' d = Inl (value_error m)"
proof -
  have "d \<noteq> registry_digest (pl_after_registry p)" using plan_Inr [OF wf plan] by metis
  moreover have "is_sha256 d"
    using plan_Inr [OF wf plan] sha256_hex_shape by (simp add: registry_digest_def is_sha256_def)
  ultimately show ?thesis by (simp add: plan_registry_transition_def Let_def checks_Cons_True checks_Cons_False)
qed

section \<open>Reachable registries\<close>

inductive registry_step :: "coordinator_registry \<Rightarrow> coordinator_registry \<Rightarrow> bool" where
  "record_wf (ep_status c) \<Longrightarrow> plan_registry_transition r c d = Inr p \<Longrightarrow> registry_step r (pl_after_registry p)"

text \<open>How the entry of one task may differ between two registries of one history.\<close>

definition entry_follows :: "enrollment_projection option \<Rightarrow> enrollment_projection option \<Rightarrow> bool" where
  "entry_follows a b \<longleftrightarrow> (\<forall>e. a = Some e \<longrightarrow> (\<exists>f. b = Some f \<and> same_binding (ep_status e) (ep_status f) \<and>
     ep_repository e = ep_repository f \<and> ep_issue_number e = ep_issue_number f \<and>
     ep_issue_node_id e = ep_issue_node_id f \<and> phase_step\<^sup>*\<^sup>* (sr_phase (ep_status e)) (sr_phase (ep_status f))))"

lemma entry_follows_refl: "entry_follows a a"
  by (simp add: entry_follows_def same_binding_def)

lemma same_binding_trans: "same_binding a b \<Longrightarrow> same_binding b c \<Longrightarrow> same_binding a c"
  by (simp add: same_binding_def)

lemma entry_follows_trans:
  assumes ab: "entry_follows a b" and bc: "entry_follows b c"
  shows "entry_follows a c"
  unfolding entry_follows_def
proof (intro allI impI)
  fix e assume "a = Some e"
  then obtain f where f: "b = Some f" "same_binding (ep_status e) (ep_status f)"
    "ep_repository e = ep_repository f" "ep_issue_number e = ep_issue_number f"
    "ep_issue_node_id e = ep_issue_node_id f" "phase_step\<^sup>*\<^sup>* (sr_phase (ep_status e)) (sr_phase (ep_status f))"
    using ab unfolding entry_follows_def by blast
  then obtain g where g: "c = Some g" "same_binding (ep_status f) (ep_status g)"
    "ep_repository f = ep_repository g" "ep_issue_number f = ep_issue_number g"
    "ep_issue_node_id f = ep_issue_node_id g" "phase_step\<^sup>*\<^sup>* (sr_phase (ep_status f)) (sr_phase (ep_status g))"
    using bc unfolding entry_follows_def by blast
  show "\<exists>g. c = Some g \<and> same_binding (ep_status e) (ep_status g) \<and> ep_repository e = ep_repository g \<and>
    ep_issue_number e = ep_issue_number g \<and> ep_issue_node_id e = ep_issue_node_id g \<and>
    phase_step\<^sup>*\<^sup>* (sr_phase (ep_status e)) (sr_phase (ep_status g))"
    using f(3-5) g(3-5) same_binding_trans [OF f(2) g(2)] rtranclp_trans [OF f(6) g(6)]
    by (intro exI [of _ g]) (simp add: g(1))
qed

lemma registry_step_follows:
  assumes "registry_step r q" and "registry_wf r"
  shows "registry_wf q \<and> (\<forall>t. entry_follows (entry_of r t) (entry_of q t))"
proof -
  from assms(1) obtain c d p where p: "plan_registry_transition r c d = Inr p" "q = pl_after_registry p"
    by cases auto
  have "entry_follows (entry_of r t) (entry_of q t)" for t
  proof (cases "t = ep_task_id c")
    case True
    show ?thesis
    proof (cases "entry_of r t")
      case (Some e)
      then have "validate_update e c (map ep_task_id (cr_entries r)) = Inr ()"
        using validate_transition_cases [OF plan_parts(1) [OF p(1)]] True by simp
      then have "entry_follows (Some e) (Some c)"
        by (auto simp: validate_update_Inr entry_follows_def)
      then show ?thesis using plan_entry [OF assms(2) p(1)] p(2) True Some by simp
    qed (simp add: entry_follows_def)
  next
    case False
    then show ?thesis using plan_entry [OF assms(2) p(1)] p(2) entry_follows_refl by simp
  qed
  then show ?thesis using plan_Inr [OF assms(2) p(1)] p(2) by blast
qed

lemma registry_history_follows:
  assumes "registry_step\<^sup>*\<^sup>* r q" and "registry_wf r"
  shows "registry_wf q \<and> (\<forall>t. entry_follows (entry_of r t) (entry_of q t))"
  using assms
proof (induction rule: rtranclp_induct)
  case base
  then show ?case by (simp add: entry_follows_refl)
next
  case (step q s)
  then show ?case using registry_step_follows [OF step(2)] entry_follows_trans by blast
qed

end
