(* ===== verification/Dashboard.thy ===== *)
theory Dashboard
  imports Tasks "HOL-Library.Multiset"
begin

text \<open>
  \<open>tools/agent_repo/coordination/dashboard.py\<close>: the operator's summary of the tasks.
  The lemma shows that the text does not depend on the order of the snapshots.
\<close>

record dashboard_snapshot =
  ds_task_id :: string
  ds_title :: string
  ds_phase :: task_phase
  ds_condition :: task_condition
  ds_owner :: "string option"
  ds_pr_id :: "string option"
  ds_dependency_summary :: "string option"
  ds_blocking_reason :: "string option"
  ds_stale_reason :: "string option"

definition snapshot_post_init :: "dashboard_snapshot \<Rightarrow> dashboard_snapshot res" where
  "snapshot_post_init s = bindr (checks [
     (blank (ds_task_id s), value_error ''task_id must be non-empty''),
     (blank (ds_title s), value_error ''title must be non-empty''),
     (blank_option (ds_owner s), value_error ''owner must be non-empty when provided''),
     (blank_option (ds_pr_id s), value_error ''pr_id must be non-empty when provided''),
     (blank_option (ds_dependency_summary s),
        value_error ''dependency_summary must be non-empty when provided''),
     (blank_option (ds_blocking_reason s), value_error ''blocking_reason must be non-empty when provided''),
     (blank_option (ds_stale_reason s), value_error ''stale_reason must be non-empty when provided'')])
     (\<lambda>_. Inr s)"

definition labelled :: "string \<Rightarrow> string option \<Rightarrow> string list" where
  "labelled prefix v = (case v of None \<Rightarrow> [] | Some s \<Rightarrow> [prefix @ s])"

definition snapshot_lines :: "dashboard_snapshot \<Rightarrow> string list" where
  "snapshot_lines s =
     [ds_task_id s @ ''  '' @ task_phase_value (ds_phase s) @ '' / '' @ task_condition_value (ds_condition s),
      ''  title: '' @ ds_title s] @
     labelled ''  owner: '' (ds_owner s) @ labelled ''  PR #'' (ds_pr_id s) @
     labelled ''  dependency: '' (ds_dependency_summary s) @
     labelled ''  blocked: '' (ds_blocking_reason s) @ labelled ''  stale: '' (ds_stale_reason s) @ [[]]"

definition line_feed :: string where
  "line_feed = [CHR 10]"

definition render_dashboard :: "string \<Rightarrow> string \<Rightarrow> dashboard_snapshot list \<Rightarrow> string res" where
  "render_dashboard parent main_sha snapshots =
    (let ordered = sort_key ds_task_id snapshots;
         completed = int (length (filter (\<lambda>s. ds_phase s = COMPLETE) ordered));
         lines = [parent, ''main: '' @ main_sha,
           int_str completed @ '' / '' @ int_str (int (length ordered)) @ '' complete'', []] @
           concat (map snapshot_lines ordered)
     in bindr (checks [
       (blank parent, value_error ''parent_title must be non-empty''),
       (\<not> is_git_sha main_sha, value_error ''main_sha must be a lowercase 40-hex Git SHA''),
       (has_dup (map ds_task_id ordered), value_error ''dashboard contains duplicate task_id'')]) (\<lambda>_.
     Inr (rstrip (join line_feed lines) @ line_feed)))"

lemma sort_key_distinct_unique:
  assumes "mset xs = mset ys" and "distinct (map f xs)"
  shows "sort_key f xs = sort_key f ys"
proof (rule properties_for_sort_key)
  show "mset (sort_key f ys) = mset xs" using assms(1) by simp
  show "sorted (map f (sort_key f ys))" by simp
  have inj: "inj_on f (set xs)" using assms(2) by (simp add: distinct_map)
  have dy: "distinct ys" using assms by (metis distinct_map mset_eq_imp_distinct_iff)
  show "filter (\<lambda>x. f k = f x) (sort_key f ys) = filter (\<lambda>x. f k = f x) xs" if k: "k \<in> set (sort_key f ys)" for k
  proof -
    have "k \<in> set xs" using k assms(1) by (metis mset_eq_setD set_sort)
    then have "filter (\<lambda>x. f k = f x) zs = filter (\<lambda>x. k = x) zs" if "set zs = set xs" for zs
      using inj that by (intro filter_cong) (auto dest: inj_onD)
    moreover have "set (sort_key f ys) = set xs" using assms(1) by (metis mset_eq_setD set_sort)
    moreover have "filter (\<lambda>x. k = x) zs = [k]" if "distinct zs" "k \<in> set zs" for zs :: "'a list"
      using that by (induction zs) (auto simp: filter_empty_conv)
    ultimately show ?thesis using dy assms(2) k \<open>k \<in> set xs\<close> by (simp add: distinct_map)
  qed
qed

lemma render_dashboard_order:
  assumes "mset xs = mset ys"
  shows "render_dashboard parent sha xs = render_dashboard parent sha ys"
proof (cases "distinct (map ds_task_id xs)")
  case True
  then show ?thesis using sort_key_distinct_unique [OF assms True] by (simp add: render_dashboard_def)
next
  case False
  have "distinct (map ds_task_id (sort_key ds_task_id zs)) = distinct (map ds_task_id zs)"
    for zs :: "dashboard_snapshot list"
    by (metis (no_types) mset_eq_imp_distinct_iff mset_map mset_sort)
  moreover have "\<not> distinct (map ds_task_id ys)"
    using False assms by (metis (no_types) mset_eq_imp_distinct_iff mset_map)
  ultimately show ?thesis using False
    by (cases "blank parent"; cases "is_git_sha sha")
      (simp_all add: render_dashboard_def Let_def checks_Cons_True checks_Cons_False)
qed

end
