(* ===== verification/Serde.thy ===== *)
theory Serde
  imports StatusRecords Dashboard
begin

text \<open>
  \<open>tools/agent_repo/coordination/serde.py\<close>: strict decoding of the coordination
  contracts from JSON trees.  An object is the list of its entries, with distinct keys.
  The lemmas relate the decoders to the canonical payloads: a status record is read back
  exactly; a task packet is read back up to the order of its unordered collections, once
  the title that the canonical payload leaves out is supplied.
\<close>

section \<open>Readers\<close>

type_synonym json_fields = "(string \<times> json) list"

definition mapping :: "string \<Rightarrow> json \<Rightarrow> json_fields res" where
  "mapping name v = (case v of JObj es \<Rightarrow> Inr es
     | _ \<Rightarrow> Inl (value_error (name @ '' must be a JSON object'')))"

definition smallest :: "string list \<Rightarrow> string option" where
  "smallest xs = (case sort xs of [] \<Rightarrow> None | x # _ \<Rightarrow> Some x)"

definition strict_fields :: "json_fields \<Rightarrow> string list \<Rightarrow> string \<Rightarrow> unit res" where
  "strict_fields payload expected name =
     (case smallest (filter (\<lambda>k. k \<notin> set expected) (map fst payload)) of
        Some k \<Rightarrow> Inl (value_error (''unknown field in '' @ name @ '': '' @ k))
      | None \<Rightarrow> (case smallest (filter (\<lambda>k. k \<notin> fst ` set payload) expected) of
          Some k \<Rightarrow> Inl (value_error (''missing field in '' @ name @ '': '' @ k))
        | None \<Rightarrow> Inr ()))"

definition read_string :: "string \<Rightarrow> json \<Rightarrow> string res" where
  "read_string name v = (case v of JStr s \<Rightarrow> Inr s | _ \<Rightarrow> Inl (value_error (name @ '' must be a string'')))"

definition read_optional_string :: "string \<Rightarrow> json \<Rightarrow> string option res" where
  "read_optional_string name v = (case v of JNull \<Rightarrow> Inr None
     | _ \<Rightarrow> bindr (read_string name v) (\<lambda>s. Inr (Some s)))"

definition read_integer :: "string \<Rightarrow> json \<Rightarrow> int res" where
  "read_integer name v = (case v of JInt n \<Rightarrow> Inr n | _ \<Rightarrow> Inl (value_error (name @ '' must be an integer'')))"

definition read_optional_integer :: "string \<Rightarrow> json \<Rightarrow> int option res" where
  "read_optional_integer name v = (case v of JNull \<Rightarrow> Inr None
     | _ \<Rightarrow> bindr (read_integer name v) (\<lambda>n. Inr (Some n)))"

definition read_strings :: "string \<Rightarrow> json \<Rightarrow> string list res" where
  "read_strings name v = (case v of JList xs \<Rightarrow> mapr (read_string name) xs
     | _ \<Rightarrow> Inl (value_error (name @ '' must be a JSON array'')))"

text \<open>\<open>Enum(text)\<close>: the member with that value, or \<open>ValueError\<close>.\<close>

definition member_of :: "('a \<Rightarrow> string) \<Rightarrow> 'a list \<Rightarrow> string \<Rightarrow> 'a res" where
  "member_of value_of members s = (case find (\<lambda>m. value_of m = s) members of
      Some m \<Rightarrow> Inr m | None \<Rightarrow> Inl (value_error (s @ '' is not a valid value'')))"

definition read_enum :: "('a \<Rightarrow> string) \<Rightarrow> 'a list \<Rightarrow> string \<Rightarrow> json \<Rightarrow> 'a res" where
  "read_enum value_of members name v = bindr (read_string name v) (member_of value_of members)"

definition read_phase :: "string \<Rightarrow> json \<Rightarrow> task_phase res" where
  "read_phase = read_enum task_phase_value [PLANNED, READY, EXECUTING, REVIEW, VERIFICATION, INTEGRATION, COMPLETE]"

definition read_condition :: "string \<Rightarrow> json \<Rightarrow> task_condition res" where
  "read_condition = read_enum task_condition_value [HEALTHY, BLOCKED, STALE, FAILED, CONFLICTED]"

definition read_risk :: "string \<Rightarrow> json \<Rightarrow> risk_level res" where
  "read_risk = read_enum risk_level_value [LOW, MEDIUM, HIGH]"

definition read_mode :: "string \<Rightarrow> json \<Rightarrow> execution_mode res" where
  "read_mode = read_enum execution_mode_value [READ_ONLY, WRITE]"

definition read_dependency_kind :: "string \<Rightarrow> json \<Rightarrow> dependency_kind res" where
  "read_dependency_kind = read_enum dependency_kind_value [HARD_DEP, EVIDENCE_DEP, INTEGRATION_DEP]"

definition capability_of :: "string \<Rightarrow> capability res" where
  "capability_of = member_of capability_value [REPOSITORY_READ, LEASE_BRANCH_WRITE, DRAFT_PR_WRITE,
     ISSUE_COMMENT_WRITE, REVIEW_WRITE, CI_READ, ARTIFACT_READ, INTEGRATION_WRITE, MERGE_WRITE]"

text \<open>\<open>payload[key]\<close> after \<open>_strict_fields\<close>, and \<open>payload.get(key)\<close>.\<close>

definition at_key :: "json_fields \<Rightarrow> string \<Rightarrow> json res" where
  "at_key payload key = (case map_of payload key of None \<Rightarrow> Inl (Raise KeyError key) | Some j \<Rightarrow> Inr j)"

definition get_key :: "json_fields \<Rightarrow> string \<Rightarrow> json" where
  "get_key payload key = (case map_of payload key of None \<Rightarrow> JNull | Some j \<Rightarrow> j)"

definition field_at :: "(string \<Rightarrow> json \<Rightarrow> 'a res) \<Rightarrow> json_fields \<Rightarrow> string \<Rightarrow> 'a res" where
  "field_at reader payload key = bindr (at_key payload key) (reader key)"

section \<open>Decoders\<close>

definition dependency_from_payload :: "json \<Rightarrow> task_dependency res" where
  "dependency_from_payload v =
     bindr (mapping ''dependency'' v) (\<lambda>payload.
     bindr (strict_fields payload [''task_id'', ''kind'', ''requires_phase''] ''dependency'') (\<lambda>_.
     bindr (bindr (at_key payload ''task_id'') (read_string ''dependency.task_id'')) (\<lambda>t.
     bindr (bindr (at_key payload ''kind'') (read_dependency_kind ''dependency.kind'')) (\<lambda>k.
     bindr (bindr (at_key payload ''requires_phase'') (read_phase ''dependency.requires_phase'')) (\<lambda>ph.
     task_dependency_post_init \<lparr>td_task_id = t, td_kind = k, td_requires_phase = ph\<rparr>)))))"

definition dependencies_from_payload :: "string \<Rightarrow> json \<Rightarrow> task_dependency list res" where
  "dependencies_from_payload name v = (case v of JList xs \<Rightarrow> mapr dependency_from_payload xs
     | _ \<Rightarrow> Inl (value_error ''dependencies must be a JSON array''))"

definition task_packet_fields :: "string list" where
  "task_packet_fields = [''schema'', ''task_id'', ''task_revision'', ''parent_issue'', ''title'',
     ''objective'', ''execution_mode'', ''non_goals'', ''dependencies'', ''write_scope'',
     ''resource_keys'', ''capabilities'', ''acceptance_criteria'', ''test_oracle'', ''base_sha'',
     ''risk'', ''deliverable'']"

definition scope_from_payload :: "json_fields \<Rightarrow> write_scope res" where
  "scope_from_payload scope =
     bindr (bindr (at_key scope ''allow'') (read_strings ''write_scope.allow'')) (\<lambda>allow.
     bindr (bindr (at_key scope ''deny'') (read_strings ''write_scope.deny'')) (\<lambda>deny.
     write_scope_post_init \<lparr>ws_allow = allow, ws_deny = deny\<rparr>))"

definition task_packet_from_payload :: "json \<Rightarrow> task_packet res" where
  "task_packet_from_payload v =
     bindr (mapping ''task packet'' v) (\<lambda>payload.
     bindr (strict_fields payload task_packet_fields ''task packet'') (\<lambda>_.
     bindr (at_key payload ''schema'') (\<lambda>schema.
     bindr (checks [(schema \<noteq> JStr ''agent_task_v1'',
       value_error ''task packet schema must be agent_task_v1'')]) (\<lambda>_.
     bindr (bindr (at_key payload ''write_scope'') (mapping ''write_scope'')) (\<lambda>scope.
     bindr (strict_fields scope [''allow'', ''deny''] ''write_scope'') (\<lambda>_.
     bindr (field_at read_optional_integer payload ''parent_issue'') (\<lambda>parent.
     bindr (field_at read_string payload ''task_id'') (\<lambda>task_id.
     bindr (field_at read_integer payload ''task_revision'') (\<lambda>revision.
     bindr (field_at read_string payload ''title'') (\<lambda>title.
     bindr (field_at read_string payload ''objective'') (\<lambda>objective.
     bindr (field_at read_mode payload ''execution_mode'') (\<lambda>mode.
     bindr (field_at read_strings payload ''non_goals'') (\<lambda>non_goals.
     bindr (field_at dependencies_from_payload payload ''dependencies'') (\<lambda>dependencies.
     bindr (scope_from_payload scope) (\<lambda>write_scope.
     bindr (field_at read_strings payload ''resource_keys'') (\<lambda>resource_keys.
     bindr (bindr (field_at read_strings payload ''capabilities'') (mapr capability_of)) (\<lambda>capabilities.
     bindr (field_at read_strings payload ''acceptance_criteria'') (\<lambda>acceptance.
     bindr (field_at read_strings payload ''test_oracle'') (\<lambda>test_oracle.
     bindr (field_at read_string payload ''base_sha'') (\<lambda>base_sha.
     bindr (field_at read_risk payload ''risk'') (\<lambda>risk.
     bindr (field_at read_string payload ''deliverable'') (\<lambda>deliverable.
     task_packet_post_init \<lparr>tp_task_id = task_id, tp_task_revision = revision, tp_parent_issue = parent,
       tp_title = title, tp_objective = objective, tp_execution_mode = mode, tp_non_goals = non_goals,
       tp_dependencies = dependencies, tp_write_scope = write_scope, tp_resource_keys = resource_keys,
       tp_capabilities = capabilities, tp_acceptance_criteria = acceptance, tp_test_oracle = test_oracle,
       tp_base_sha = base_sha, tp_risk = risk, tp_deliverable = deliverable\<rparr>))))))))))))))))))))))"

definition task_status_from_payload :: "json \<Rightarrow> task_status res" where
  "task_status_from_payload v =
     bindr (mapping ''task status'' v) (\<lambda>payload.
     bindr (strict_fields payload [''phase'', ''condition'', ''reason''] ''task status'') (\<lambda>_.
     bindr (field_at read_phase payload ''phase'') (\<lambda>phase.
     bindr (field_at read_condition payload ''condition'') (\<lambda>condition.
     bindr (field_at read_optional_string payload ''reason'') (\<lambda>reason.
     task_status_post_init \<lparr>ts_phase = phase, ts_condition = condition, ts_reason = reason\<rparr>)))))"

definition status_record_fields :: "string list" where
  "status_record_fields = [''task_id'', ''task_revision'', ''task_contract_digest'', ''phase'', ''condition'',
     ''base_sha'', ''owner'', ''lease_epoch'', ''lease_branch'', ''head_sha'', ''pr_id'', ''checkpoint'',
     ''blocking_reason'', ''stale_reason'']"

definition task_status_record_from_payload :: "json \<Rightarrow> task_status_record res" where
  "task_status_record_from_payload v =
     bindr (mapping ''task status record'' v) (\<lambda>payload.
     bindr (strict_fields payload status_record_fields ''task status record'') (\<lambda>_.
     bindr (field_at read_string payload ''task_id'') (\<lambda>task_id.
     bindr (field_at read_integer payload ''task_revision'') (\<lambda>revision.
     bindr (field_at read_string payload ''task_contract_digest'') (\<lambda>digest.
     bindr (field_at read_phase payload ''phase'') (\<lambda>phase.
     bindr (field_at read_condition payload ''condition'') (\<lambda>condition.
     bindr (field_at read_string payload ''base_sha'') (\<lambda>base_sha.
     bindr (field_at read_optional_string payload ''owner'') (\<lambda>owner.
     bindr (field_at read_optional_integer payload ''lease_epoch'') (\<lambda>epoch.
     bindr (field_at read_optional_string payload ''lease_branch'') (\<lambda>branch.
     bindr (field_at read_optional_string payload ''head_sha'') (\<lambda>head.
     bindr (field_at read_optional_string payload ''pr_id'') (\<lambda>pr_id.
     bindr (field_at read_optional_string payload ''checkpoint'') (\<lambda>checkpoint.
     bindr (field_at read_optional_string payload ''blocking_reason'') (\<lambda>blocking.
     bindr (field_at read_optional_string payload ''stale_reason'') (\<lambda>stale.
     status_record_post_init \<lparr>sr_task_id = task_id, sr_task_revision = revision,
       sr_task_contract_digest = digest, sr_phase = phase, sr_condition = condition,
       sr_base_sha = base_sha, sr_owner = owner, sr_lease_epoch = epoch, sr_lease_branch = branch,
       sr_head_sha = head, sr_pr_id = pr_id, sr_checkpoint = checkpoint, sr_blocking_reason = blocking,
       sr_stale_reason = stale\<rparr>))))))))))))))))"

definition dashboard_fields :: "string list" where
  "dashboard_fields = [''task_id'', ''title'', ''phase'', ''condition'', ''owner'', ''pr_id'',
     ''dependency_summary'', ''blocking_reason'', ''stale_reason'']"

definition dashboard_snapshot_from_payload :: "json \<Rightarrow> dashboard_snapshot res" where
  "dashboard_snapshot_from_payload v =
     bindr (mapping ''dashboard task'' v) (\<lambda>payload.
     bindr (case smallest (filter (\<lambda>k. k \<notin> set dashboard_fields) (map fst payload)) of
         Some k \<Rightarrow> Inl (value_error (''unknown field in dashboard task: '' @ k)) | None \<Rightarrow> Inr ()) (\<lambda>_.
     bindr (case smallest (filter (\<lambda>k. k \<notin> fst ` set payload)
           [''task_id'', ''title'', ''phase'', ''condition'']) of
         Some k \<Rightarrow> Inl (value_error (''missing field in dashboard task: '' @ k)) | None \<Rightarrow> Inr ()) (\<lambda>_.
     bindr (field_at read_string payload ''task_id'') (\<lambda>task_id.
     bindr (field_at read_string payload ''title'') (\<lambda>title.
     bindr (field_at read_phase payload ''phase'') (\<lambda>phase.
     bindr (field_at read_condition payload ''condition'') (\<lambda>condition.
     bindr (read_optional_string ''owner'' (get_key payload ''owner'')) (\<lambda>owner.
     bindr (read_optional_string ''pr_id'' (get_key payload ''pr_id'')) (\<lambda>pr_id.
     bindr (read_optional_string ''dependency_summary'' (get_key payload ''dependency_summary'')) (\<lambda>dep.
     bindr (read_optional_string ''blocking_reason'' (get_key payload ''blocking_reason'')) (\<lambda>blocking.
     bindr (read_optional_string ''stale_reason'' (get_key payload ''stale_reason'')) (\<lambda>stale.
     snapshot_post_init \<lparr>ds_task_id = task_id, ds_title = title, ds_phase = phase,
       ds_condition = condition, ds_owner = owner, ds_pr_id = pr_id, ds_dependency_summary = dep,
       ds_blocking_reason = blocking, ds_stale_reason = stale\<rparr>))))))))))))"

definition packet_sequence :: "json \<Rightarrow> task_packet list res" where
  "packet_sequence v = (case v of JList xs \<Rightarrow> mapr task_packet_from_payload xs
     | _ \<Rightarrow> Inl (value_error ''packets must be a JSON array''))"

definition string_set :: "string \<Rightarrow> json \<Rightarrow> string set res" where
  "string_set name v = bindr (read_strings name v) (\<lambda>xs. Inr (set xs))"

definition status_mapping :: "json \<Rightarrow> (string \<times> task_status) list res" where
  "status_mapping v = bindr (mapping ''statuses'' v) (\<lambda>payload.
     mapr (\<lambda>(k, item). bindr (task_status_from_payload item) (\<lambda>s. Inr (k, s))) (sort_key fst payload))"


section \<open>Reading back canonical payloads\<close>

lemma smallest_None [simp]: "smallest xs = None \<longleftrightarrow> xs = []"
proof (cases "sort xs")
  case Nil
  then have "xs = []" by (metis length_0_conv length_sort)
  then show ?thesis by (simp add: smallest_def)
next
  case (Cons y ys)
  then have "xs \<noteq> []" by auto
  then show ?thesis using Cons by (simp add: smallest_def)
qed

lemma strict_fields_Inr [res_iff]:
  "strict_fields payload expected name = Inr u \<longleftrightarrow> fst ` set payload = set expected"
proof (cases "smallest (filter (\<lambda>k. k \<notin> set expected) (map fst payload))")
  case None
  then have sub: "fst ` set payload \<subseteq> set expected" by (auto simp: filter_empty_conv)
  show ?thesis
  proof (cases "smallest (filter (\<lambda>k. k \<notin> fst ` set payload) expected)")
    case none: None
    then have "set expected \<subseteq> fst ` set payload"
      unfolding smallest_None by (auto simp: filter_empty_conv simp del: image_iff)
    then have "fst ` set payload = set expected" using sub by blast
    then show ?thesis using None none by (simp add: strict_fields_def del: smallest_None)
  next
    case (Some k)
    then have "filter (\<lambda>k. k \<notin> fst ` set payload) expected \<noteq> []" using smallest_None by (metis option.distinct(1))
    then have "fst ` set payload \<noteq> set expected" by (auto simp: filter_empty_conv simp del: image_iff)
    then show ?thesis using None Some by (simp add: strict_fields_def del: smallest_None)
  qed
next
  case (Some k)
  then have "filter (\<lambda>k. k \<notin> set expected) (map fst payload) \<noteq> []" using smallest_None by (metis option.distinct(1))
  then have "fst ` set payload \<noteq> set expected" by (auto simp: filter_empty_conv)
  then show ?thesis using Some by (simp add: strict_fields_def)
qed

lemma read_simps [simp]:
  "read_string n (JStr s) = Inr s" "read_integer n (JInt k) = Inr k"
  "read_optional_string n (null_or JStr so) = Inr so"
  "read_optional_integer n (null_or JInt io) = Inr io"
  "read_optional_string n JNull = Inr None" "read_optional_integer n JNull = Inr None"
  by (simp_all add: read_string_def read_integer_def read_optional_string_def read_optional_integer_def)
    (cases so; cases io; simp add: read_string_def read_integer_def)+

lemma read_optional_simps [simp]:
  "read_optional_string n (JStr s) = Inr (Some s)" "read_optional_integer n (JInt k) = Inr (Some k)"
  by (simp_all add: read_optional_string_def read_optional_integer_def)

lemma read_phase_value [simp]: "read_phase n (JStr (task_phase_value ph)) = Inr ph"
  by (cases ph; simp add: read_phase_def read_enum_def member_of_def)

lemma read_condition_value [simp]: "read_condition n (JStr (task_condition_value c)) = Inr c"
  by (cases c; simp add: read_condition_def read_enum_def member_of_def)

lemma read_risk_value [simp]: "read_risk n (JStr (risk_level_value r)) = Inr r"
  by (cases r; simp add: read_risk_def read_enum_def member_of_def)

lemma read_mode_value [simp]: "read_mode n (JStr (execution_mode_value m)) = Inr m"
  by (cases m; simp add: read_mode_def read_enum_def member_of_def)

lemma read_dependency_kind_value [simp]: "read_dependency_kind n (JStr (dependency_kind_value k)) = Inr k"
  by (cases k; simp add: read_dependency_kind_def read_enum_def member_of_def)

lemma capability_of_value [simp]: "capability_of (capability_value cap) = Inr cap"
  by (cases cap; simp add: capability_of_def member_of_def)

lemma read_strings_map [simp]: "read_strings n (JList (map JStr xs)) = Inr xs"
proof -
  have "mapr (read_string n) (map JStr xs) = Inr xs" by (induction xs) simp_all
  then show ?thesis by (simp add: read_strings_def)
qed

lemma status_record_round_trip:
  "task_status_record_from_payload (JObj (status_record_payload r)) = status_record_post_init r"
proof -
  have "strict_fields (status_record_payload r) status_record_fields n = Inr ()" for n
    by (auto simp: res_iff status_record_payload_def status_record_fields_def)
  then show ?thesis
    by (cases r) (simp add: task_status_record_from_payload_def mapping_def field_at_def at_key_def
        status_record_payload_def)
qed


section \<open>Task packets\<close>

text \<open>The packet the canonical payload stands for: its unordered collections in key order.\<close>

definition sorted_packet :: "task_packet \<Rightarrow> task_packet" where
  "sorted_packet p = p\<lparr>tp_dependencies := sort_key dependency_key (tp_dependencies p),
     tp_write_scope := \<lparr>ws_allow = sort (ws_allow (tp_write_scope p)), ws_deny = sort (ws_deny (tp_write_scope p))\<rparr>,
     tp_resource_keys := sort (tp_resource_keys p),
     tp_capabilities := sort_key capability_value (tp_capabilities p)\<rparr>"

definition parts_wf :: "task_packet \<Rightarrow> bool" where
  "parts_wf p \<longleftrightarrow> (\<forall>d \<in> set (tp_dependencies p). is_task_id (td_task_id d)) \<and>
     write_scope_post_init (tp_write_scope p) = Inr (tp_write_scope p)"

definition titled_payload :: "task_packet \<Rightarrow> json_fields" where
  "titled_payload p = (''title'', JStr (tp_title p)) # task_payload p"

lemma sort_map_key: "sort (map f xs) = map f (sort_key f xs)"
  by (rule properties_for_sort) simp_all

lemma dependency_round_trip:
  "is_task_id (td_task_id d) \<Longrightarrow> dependency_from_payload (dependency_payload d) = Inr d"
proof -
  assume "is_task_id (td_task_id d)"
  moreover have "strict_fields [(''task_id'', JStr (td_task_id d)), (''kind'', JStr (dependency_kind_value (td_kind d))),
    (''requires_phase'', JStr (task_phase_value (td_requires_phase d)))] [''task_id'', ''kind'', ''requires_phase''] n = Inr ()" for n
    by (auto simp: res_iff)
  ultimately show ?thesis
    by (cases d) (simp add: dependency_from_payload_def dependency_payload_def mapping_def at_key_def
        task_dependency_post_init_def)
qed

lemma dependencies_round_trip:
  "\<forall>d \<in> set ds. is_task_id (td_task_id d) \<Longrightarrow>
     dependencies_from_payload n (JList (map dependency_payload ds)) = Inr ds"
proof -
  assume "\<forall>d \<in> set ds. is_task_id (td_task_id d)"
  then have "mapr dependency_from_payload (map dependency_payload ds) = Inr ds"
    by (induction ds) (simp_all add: dependency_round_trip)
  then show ?thesis by (simp add: dependencies_from_payload_def)
qed

lemma capabilities_round_trip: "mapr capability_of (map capability_value cs) = Inr cs"
  by (induction cs) simp_all

lemma sorted_scope_post_init:
  assumes "write_scope_post_init w = Inr w"
  shows "write_scope_post_init \<lparr>ws_allow = sort (ws_allow w), ws_deny = sort (ws_deny w)\<rparr> =
    Inr \<lparr>ws_allow = sort (ws_allow w), ws_deny = sort (ws_deny w)\<rparr>"
  using assms by (simp add: write_scope_post_init_def bindr_Inr list_ex_iff)

lemma titled_fields:
  "strict_fields (titled_payload p) task_packet_fields n = Inr ()"
  "at_key (titled_payload p) ''schema'' = Inr (JStr ''agent_task_v1'')"
  "field_at read_string (titled_payload p) ''title'' = Inr (tp_title p)"
  "field_at read_string (titled_payload p) ''task_id'' = Inr (tp_task_id p)"
  "field_at read_integer (titled_payload p) ''task_revision'' = Inr (tp_task_revision p)"
  "field_at read_optional_integer (titled_payload p) ''parent_issue'' = Inr (tp_parent_issue p)"
  "field_at read_string (titled_payload p) ''objective'' = Inr (tp_objective p)"
  "field_at read_mode (titled_payload p) ''execution_mode'' = Inr (tp_execution_mode p)"
  "field_at read_strings (titled_payload p) ''non_goals'' = Inr (tp_non_goals p)"
  "field_at read_strings (titled_payload p) ''resource_keys'' = Inr (sort (tp_resource_keys p))"
  "field_at read_strings (titled_payload p) ''capabilities'' = Inr (sort (map capability_value (tp_capabilities p)))"
  "field_at read_strings (titled_payload p) ''acceptance_criteria'' = Inr (tp_acceptance_criteria p)"
  "field_at read_strings (titled_payload p) ''test_oracle'' = Inr (tp_test_oracle p)"
  "field_at read_string (titled_payload p) ''base_sha'' = Inr (tp_base_sha p)"
  "field_at read_risk (titled_payload p) ''risk'' = Inr (tp_risk p)"
  "field_at read_string (titled_payload p) ''deliverable'' = Inr (tp_deliverable p)"
  "at_key (titled_payload p) ''write_scope'' = Inr (write_scope_payload (tp_write_scope p))"
  "at_key (titled_payload p) ''dependencies'' =
     Inr (JList (map dependency_payload (sort_key dependency_key (tp_dependencies p))))"
proof -
  show "strict_fields (titled_payload p) task_packet_fields n = Inr ()"
    by (auto simp: res_iff titled_payload_def task_payload_def task_packet_fields_def)
qed (simp_all add: field_at_def at_key_def titled_payload_def task_payload_def split: option.splits)

lemma decode_titled:
  assumes "parts_wf p"
  shows "task_packet_from_payload (JObj (titled_payload p)) = task_packet_post_init (sorted_packet p)"
proof -
  let ?w = "tp_write_scope p"
  have deps: "field_at dependencies_from_payload (titled_payload p) ''dependencies'' =
      Inr (sort_key dependency_key (tp_dependencies p))"
    using assms by (simp add: field_at_def titled_fields dependencies_round_trip parts_wf_def)
  let ?fs = "[(''allow'', JList (map JStr (sort (ws_allow ?w)))), (''deny'', JList (map JStr (sort (ws_deny ?w))))]"
  have scope: "strict_fields ?fs [''allow'', ''deny''] n = Inr ()" for n by (auto simp: res_iff)
  have "scope_from_payload ?fs = Inr \<lparr>ws_allow = sort (ws_allow ?w), ws_deny = sort (ws_deny ?w)\<rparr>"
    using assms sorted_scope_post_init [of ?w] by (simp add: scope_from_payload_def at_key_def parts_wf_def)
  moreover have "\<lparr>tp_task_id = tp_task_id p, tp_task_revision = tp_task_revision p,
      tp_parent_issue = tp_parent_issue p, tp_title = tp_title p, tp_objective = tp_objective p,
      tp_execution_mode = tp_execution_mode p, tp_non_goals = tp_non_goals p,
      tp_dependencies = sort_key dependency_key (tp_dependencies p),
      tp_write_scope = \<lparr>ws_allow = sort (ws_allow ?w), ws_deny = sort (ws_deny ?w)\<rparr>,
      tp_resource_keys = sort (tp_resource_keys p),
      tp_capabilities = sort_key capability_value (tp_capabilities p),
      tp_acceptance_criteria = tp_acceptance_criteria p, tp_test_oracle = tp_test_oracle p,
      tp_base_sha = tp_base_sha p, tp_risk = tp_risk p, tp_deliverable = tp_deliverable p\<rparr> = sorted_packet p"
    by (cases p) (simp add: sorted_packet_def)
  ultimately show ?thesis
    by (simp add: task_packet_from_payload_def mapping_def titled_fields deps scope
        write_scope_payload_def sort_map_key capabilities_round_trip checks_Cons_False)
qed

lemma sorted_packet_wf: "packet_wf p \<Longrightarrow> packet_wf (sorted_packet p)"
proof -
  assume w: "packet_wf p"
  have "distinct (map td_task_id (sort_key dependency_key (tp_dependencies p)))"
    using packet_wf_facts [OF w] by (simp add: distinct_map)
  then show ?thesis using w
    by (cases "tp_execution_mode p")
      (auto simp: packet_wf_def task_packet_post_init_def bindr_Inr require_full_sha_Inr
        resource_key_check_Inr Let_def mode_check_def list_ex_iff sorted_packet_def
        simp flip: set_empty)
qed

lemma sort_key_idem: "sort_key f (sort_key f xs) = sort_key f xs"
  by (intro sort_key_id_if_sorted) simp

lemma sorted_packet_digest: "contract_digest (sorted_packet p) = contract_digest p"
proof -
  have "task_payload (sorted_packet p) = task_payload p"
    by (simp add: task_payload_def sorted_packet_def write_scope_payload_def sort_map_key sort_key_idem)
  then show ?thesis by (simp add: contract_digest_def)
qed

text \<open>The canonical payload itself lacks the title and is refused.\<close>

lemma canonical_payload_refused:
  "task_packet_from_payload (JObj (task_payload p)) =
     Inl (value_error ''missing field in task packet: title'')"
proof -
  have "filter (\<lambda>k. k \<notin> set task_packet_fields) (map fst (task_payload p)) = []"
    by (simp add: task_payload_def task_packet_fields_def)
  moreover have "filter (\<lambda>k. k \<notin> fst ` set (task_payload p)) task_packet_fields = [''title'']"
    by (simp add: task_payload_def task_packet_fields_def)
  ultimately have "strict_fields (task_payload p) task_packet_fields ''task packet'' =
      Inl (value_error ''missing field in task packet: title'')"
    by (simp add: strict_fields_def smallest_def del: smallest_None)
  then show ?thesis by (simp add: task_packet_from_payload_def mapping_def)
qed

end
