(* ===== verification/Examples.thy ===== *)
theory Examples
  imports OrderBooks OrderEvents BarPath Scheduler Registry Serde
begin

text \<open>
  Concrete inputs at which the properties are instantiated: a market order and its fills,
  two task packets, a lease and a registry entry.  Digests stay symbolic; every other
  value is computed.
\<close>

section \<open>Orders\<close>

definition ex_digest :: string where
  "ex_digest = replicate 64 CHR ''a''"

definition ex_raw :: order_intent where
  "ex_raw = \<lparr>oi_order_id = [], oi_dataset_id = ''dataset'', oi_target_identity = ''target'',
     oi_execution_policy_digest = ex_digest, oi_symbol_index = 0, oi_requested_quantity = F 10,
     oi_order_type = MARKET, oi_time_in_force = GTC, oi_limit_price = None, oi_stop_price = None,
     oi_submit_index = 0, oi_eligible_index = 1, oi_expiry_index = None,
     oi_submission_reference_price = F 100, oi_decision_equity = F 1000,
     oi_replaced_order_id = None, oi_reduce_only = False\<rparr>"

definition ex_intent :: order_intent where
  "ex_intent = (case order_intent_create ex_raw of Inr i \<Rightarrow> i | Inl e \<Rightarrow> ex_raw)"

lemma ex_digest_sha [simp]: "is_sha256 ex_digest"
  by code_simp

lemma ex_not_tolerance: "\<not> fle (fabs (F 10)) tolerance"
  by (simp add: f64_eval)

lemma ex_create: "order_intent_create ex_raw = Inr ex_intent"
proof -
  have "create_checks ex_raw = Inr ()"
    using ex_not_tolerance by (simp add: ex_raw_def create_checks_def create_price_checks_def bindr_Inr
        validate_digest_Inr validate_positive_def)
  moreover have "\<exists>b. canonical_json_bytes (identity_payload ex_raw) = Inr b"
    by (simp add: ex_raw_def identity_payload_def canonical_json_bytes_def)
  ultimately have "\<exists>i. order_intent_create ex_raw = Inr i"
    by (auto simp: order_intent_create_def intent_post_init_def ex_raw_def)
  then show ?thesis by (auto simp: ex_intent_def)
qed

lemma ex_intent_wf: "intent_wf ex_intent"
  using create_Inr_wf [OF ex_create] by simp

lemma ex_intent_fields [simp]:
  "oi_requested_quantity ex_intent = F 10" "oi_submit_index ex_intent = 0" "oi_eligible_index ex_intent = 1"
  "oi_order_type ex_intent = MARKET" "oi_symbol_index ex_intent = 0"
proof -
  obtain d where i: "ex_intent = ex_raw\<lparr>oi_order_id := d\<rparr>" using create_Inr_wf [OF ex_create] by blast
  show "oi_requested_quantity ex_intent = F 10" "oi_submit_index ex_intent = 0"
    "oi_eligible_index ex_intent = 1" "oi_order_type ex_intent = MARKET" "oi_symbol_index ex_intent = 0"
    unfolding i by (simp_all add: ex_raw_def)
qed

lemma ex_requested_ok: "requested_ok ex_intent"
  using ex_not_tolerance by (simp add: requested_ok_def f64_eval)

text \<open>A state of the example order with \<open>n\<close> of the 10 units filled.\<close>

definition ex_order :: "rat \<Rightarrow> order_status \<Rightarrow> int \<Rightarrow> f64 \<Rightarrow> pending_order" where
  "ex_order n st v notional = \<lparr>po_intent = ex_intent, po_remaining_quantity = F (10 - n),
     po_cumulative_filled_quantity = F n, po_cumulative_filled_notional = notional, po_status = st,
     po_trigger_index = None, po_last_processed_index = (if v = 0 then None else Some 1),
     po_terminal_reason = (if status_terminal st then Some ''filled'' else None),
     po_evidence_version = v, po_exact = Some (fraction_str n)\<rparr>"

lemma ex_simps [simp]:
  "po_intent (ex_order n st v x) = ex_intent" "po_status (ex_order n st v x) = st"
  "po_evidence_version (ex_order n st v x) = v" "po_exact (ex_order n st v x) = Some (fraction_str n)"
  "po_remaining_quantity (ex_order n st v x) = F (10 - n)" "po_requested (ex_order n st v x) = F 10"
  "po_cumulative_filled_quantity (ex_order n st v x) = F n"
  "po_cumulative_filled_notional (ex_order n st v x) = x"
  "po_last_processed_index (ex_order n st v x) = (if v = 0 then None else Some 1)"
  "po_trigger_index (ex_order n st v x) = None"
  by (simp_all add: ex_order_def po_requested_def)

lemma ex_decimals [simp]: "dec_of_float (F 10) = 10" "dec_of_float (F 4) = 4" "dec_of_float (F 6) = 6"
  "dec_mag 10 = 10" "dec_mag 4 = 4" "dec_mag 6 = 6" "dec_mag 0 = 0"
  by (simp_all add: f64_eval)

lemma ex_projections [simp]: "project_quantity 4 = Inr (F 4)" "project_quantity 6 = Inr (F 6)"
  "project_quantity 10 = Inr (F 10)"
  by (simp_all add: f64_eval)

text \<open>The floats of the example are small enough for the tolerance to be its literal.\<close>

lemma small_tolerance:
  "(\<And>v. v \<in> set vs \<Longrightarrow> isfinite v \<and> \<not> flt tolerance (fmul quantity_ulps (ulp (fabs v)))) \<Longrightarrow>
     quantity_tolerance vs = tolerance"
proof -
  have fold: "(\<And>x. x \<in> set xs \<Longrightarrow> \<not> flt t x) \<Longrightarrow> foldl fmax t xs = t" for t xs
    by (induction xs) (simp_all add: fmax_def)
  assume "\<And>v. v \<in> set vs \<Longrightarrow> isfinite v \<and> \<not> flt tolerance (fmul quantity_ulps (ulp (fabs v)))"
  then show ?thesis unfolding quantity_tolerance_def by (intro fold) auto
qed

lemma zero_tolerance: "\<not> flt tolerance (fmul quantity_ulps (ulp (fabs (F 0))))"
proof -
  have "(2::rat) powi (-1074) \<le> 2 powi (-45)" by (intro powi2_mono) simp
  then have "(32::rat) * 2 powi (-1074) \<le> 32 * 2 powi (-45)" by (intro mult_left_mono) simp_all
  also have "(32::rat) * 2 powi (-45) \<le> 1 / 10 ^ 12" by (simp add: power_int_def power_divide)
  finally have "(32::rat) * 2 powi (-1074) \<le> 1 / 10 ^ 12" .
  then have "fle (rnd (32 * 2 powi (-1074))) tolerance" unfolding tolerance_def by (rule rnd_mono)
  moreover have "fmul quantity_ulps (ulp (fabs (F 0))) = rnd (32 * 2 powi (-1074))"
    by (simp add: fmul_def quantity_ulps_def)
  ultimately show ?thesis using tolerance_pos
    by (cases "rnd (32 * 2 powi (-1074))") (auto simp: fle_def flt_def)
qed

lemma ex_tolerances [simp]:
  "quantity_tolerance [F 10, F 0, F 10, F 10] = tolerance" "quantity_tolerance [F 10, F 10, F 0, F 4] = tolerance"
proof -
  have "\<not> flt tolerance (fmul quantity_ulps (ulp (fabs (F 10))))"
    "\<not> flt tolerance (fmul quantity_ulps (ulp (fabs (F 4))))" by code_simp+
  then show "quantity_tolerance [F 10, F 0, F 10, F 10] = tolerance"
    "quantity_tolerance [F 10, F 10, F 0, F 4] = tolerance"
    using zero_tolerance by (intro small_tolerance; auto)+
qed

lemma ex_sum: "fadd (F 0) (F 10) = F 10" "isclose_abs (F 10) (F 10) tolerance"
  by code_simp+

lemma ex_submitted: "pending_from_intent ex_intent = Inr (ex_order 0 SUBMITTED 0 (F 0))"
proof -
  have q: "pending_quantity_checks (ex_order 0 SUBMITTED 0 (F 0)) = Inr ()"
    using tolerance_pos by (simp add: pending_quantity_checks_def Let_def ex_sum wrong_direction_def)
  have "pending_from_intent ex_intent = pending_post_init (ex_order 0 SUBMITTED 0 (F 0)\<lparr>po_exact := None\<rparr>)"
    by (simp add: pending_from_intent_def ex_order_def status_terminal_def)
  also have "\<dots> = Inr (ex_order 0 SUBMITTED 0 (F 0))"
  proof -
    have "pending_quantity_checks (ex_order 0 SUBMITTED 0 (F 0)\<lparr>po_exact := None\<rparr>) = Inr ()"
      using q quantity_checks_cong [of "ex_order 0 SUBMITTED 0 (F 0)\<lparr>po_exact := None\<rparr>" "ex_order 0 SUBMITTED 0 (F 0)"]
      by simp
    moreover have "dec_of_float (F 0) = 0" by (simp add: dec_mag_def)
    ultimately show ?thesis
      by (simp add: pending_post_init_def pending_status_checks_def po_terminal_def status_terminal_def
          exact_quantity_def exact_view_check_def ex_order_def po_requested_def checks_Cons_False)
  qed
  finally show ?thesis .
qed


lemma ex_reachable: "order_reachable ex_intent (ex_order 0 SUBMITTED 0 (F 0))"
  using ex_requested_ok ex_submitted by (rule order_reachable.start)

lemma ex_submitted_ok: "pending_ok (ex_order 0 SUBMITTED 0 (F 0))"
  by (rule from_intent_ok [OF ex_requested_ok ex_submitted])

text \<open>Eligible at index 1, then 4 of 10 units filled at a price of 100.\<close>

lemma ex_eligible: "mark_eligible 1 (ex_order 0 SUBMITTED 0 (F 0)) = Inr (ex_order 0 ELIGIBLE 1 (F 0))"
  by (simp add: mark_eligible_def transition_Inr [OF ex_submitted_ok] po_terminal_def status_terminal_def
      index_ok_def reason_ok_def moved_def) (simp add: ex_order_def status_terminal_def)

lemma ex_eligible_ok: "pending_ok (ex_order 0 ELIGIBLE 1 (F 0))"
  using transition_ok [OF ex_submitted_ok] ex_eligible by (auto simp: mark_eligible_def split: if_splits)

lemma ex_accepted: "accepted_fill_quantity (F 4) (F 0) None = Inr 4"
  by (simp add: accepted_fill_quantity_def exact_quantity_def)

lemma ex_fill_checks: "fill_checks (F 4) (F 400) (ex_order 0 ELIGIBLE 1 (F 0)) = Inr ()"
proof -
  have "\<not> fle (F 4) tolerance" "\<not> flt (fadd (F 10) tolerance) (F 4)" by (simp_all add: f64_eval)
  then show ?thesis using tolerance_pos by (simp add: fill_checks_def Let_def)
qed

lemma ex_filled_state: "filled_state 4 (F 400) 1 (ex_order 0 ELIGIBLE 1 (F 0)) = Inr (ex_order 4 PARTIALLY_FILLED 2 (F 400))"
proof -
  have "\<not> fle (fabs (F 6)) (quantity_tolerance [F 10, F 4, F 6])" by code_simp
  moreover have "fadd (F 0) (F 400) = F 400" by (simp add: f64_eval)
  ultimately show ?thesis
    by (simp add: filled_state_def exact_quantity_def Let_def) (simp add: ex_order_def status_terminal_def)
qed

lemma ex_fill: "apply_fill (F 4) (F 400) 1 (F 0) None (ex_order 0 ELIGIBLE 1 (F 0)) =
  Inr (ex_order 4 PARTIALLY_FILLED 2 (F 400))"
proof -
  let ?p = "ex_order 0 ELIGIBLE 1 (F 0)" and ?q = "ex_order 4 PARTIALLY_FILLED 2 (F 400)"
  have "parse_quantity (fraction_str 0) = Inr 0" by (simp add: res_iff)
  moreover have "validate_processing_index ?p 1 = Inr ()" by (simp add: res_iff index_ok_def)
  moreover have "ensure_active ?p = Inr ()" by (simp add: res_iff po_terminal_def status_terminal_def)
  moreover have "pending_post_init ?q = Inr ?q"
  proof -
    have "pending_quantity_checks ?q = Inr ()"
      unfolding pending_quantity_checks_def by simp code_simp
    moreover have "pending_status_checks ?q = Inr ()"
      by (simp add: pending_status_checks_def po_terminal_def status_terminal_def ex_order_def)
    moreover have "pending_post_init ?q = bindr (pending_quantity_checks ?q) (\<lambda>_. bindr (pending_status_checks ?q) (\<lambda>_. Inr ?q))"
      by (rule post_init_projected [of _ 4]) simp_all
    ultimately show ?thesis by simp
  qed
  ultimately show ?thesis by (simp add: apply_fill_def ex_fill_checks ex_accepted ex_filled_state)
qed


text \<open>A book that holds the example order, and the event of its submission.\<close>

definition ex_book :: order_book where
  "ex_book = \<lparr>ob_active = [ex_order 0 SUBMITTED 0 (F 0)], ob_terminal = No_Node\<rparr>"

lemma ex_book_reachable: "book_reachable ex_book"
proof (rule book_reachable.step)
  show "book_reachable \<lparr>ob_active = [], ob_terminal = No_Node\<rparr>"
    by (rule book_reachable.empty) (rule empty_book_eq)
  show "book_step \<lparr>ob_active = [], ob_terminal = No_Node\<rparr> ex_book"
  proof (rule book_step.admit)
    show "\<forall>p \<in> set [ex_order 0 SUBMITTED 0 (F 0)]. \<exists>i. requested_ok i \<and> pending_from_intent i = Inr p"
      using ex_requested_ok ex_submitted by auto
    show "book_add [ex_order 0 SUBMITTED 0 (F 0)] \<lparr>ob_active = [], ob_terminal = No_Node\<rparr> = Inr ex_book"
      by (simp add: book_add_Inr ex_book_def book_ids_def po_terminal_def status_terminal_def)
  qed
qed

definition ex_event :: order_event where
  "ex_event = \<lparr>oe_schema_version = ''order_event_v1'', oe_sequence = 0, oe_order_id = ex_digest,
     oe_replaced_order_id = None, oe_dataset_id = ''dataset'', oe_execution_policy_digest = ex_digest,
     oe_symbol_index = 0, oe_event_type = ''submitted'', oe_processing_index = 0, oe_timestamp_ns = 0,
     oe_previous_status = SUBMITTED, oe_new_status = SUBMITTED, oe_requested_quantity = F 10,
     oe_remaining_quantity = F 10, oe_filled_quantity = F 0, oe_execution_price = None,
     oe_filled_notional = F 0, oe_capacity_before = F 0, oe_capacity_after = F 0,
     oe_participation_rate = F 0, oe_trigger_segment = None, oe_available_volume_fraction = F 0,
     oe_reason = None, oe_path_mode = ''neutral'', oe_path_points = [], oe_reduce_only = False\<rparr>"

lemma ex_event_wf: "event_wf ex_event"
  by code_simp

text \<open>A bar that opens at 10, ranges over 8 to 12 and closes at 11.\<close>

lemma ex_bar_ok: "bar_ok (F 10) (F 12) (F 8) (F 11)"
  by (simp add: bar_ok_def)

definition ex_path :: bar_path where
  "ex_path = \<lparr>bp_mode = CONSERVATIVE, bp_points = [F 10, F 12, F 8, F 11], bp_mixed_direction_fallback = False\<rparr>"


section \<open>Coordination\<close>

definition ex_sha :: string where
  "ex_sha = replicate 40 CHR ''b''"

definition ex_packet :: "string \<Rightarrow> string list \<Rightarrow> task_dependency list \<Rightarrow> task_packet" where
  "ex_packet t keys deps = \<lparr>tp_task_id = t, tp_task_revision = 1, tp_parent_issue = Some 7, tp_title = ''title'',
     tp_objective = ''objective'', tp_execution_mode = WRITE, tp_non_goals = [], tp_dependencies = deps,
     tp_write_scope = \<lparr>ws_allow = [''src''], ws_deny = []\<rparr>, tp_resource_keys = keys,
     tp_capabilities = [REPOSITORY_READ], tp_acceptance_criteria = [], tp_test_oracle = [],
     tp_base_sha = ex_sha, tp_risk = LOW, tp_deliverable = ''pull_request''\<rparr>"

definition ex_a :: task_packet where
  "ex_a = ex_packet ''a'' [''file:src/x/**''] []"

definition ex_b :: task_packet where
  "ex_b = ex_packet ''b'' [''file:src/x/y.py''] []"

definition ex_c :: task_packet where
  "ex_c = ex_packet ''c'' [''identity:z''] [\<lparr>td_task_id = ''a'', td_kind = HARD_DEP, td_requires_phase = COMPLETE\<rparr>]"

definition ex_status :: "task_phase \<Rightarrow> task_status" where
  "ex_status ph = \<lparr>ts_phase = ph, ts_condition = HEALTHY, ts_reason = None\<rparr>"

definition ex_statuses :: status_map where
  "ex_statuses = [(''a'', ex_status READY), (''b'', ex_status READY), (''c'', ex_status READY)]"

lemma ex_a_wf: "packet_wf ex_a"
  by code_simp

lemma ex_a_parts: "parts_wf ex_a"
  by code_simp

lemma ex_conflict: "classify_conflict ex_a ex_b = Inr HARD" "classify_conflict ex_b ex_a = Inr HARD"
  "classify_conflict ex_a ex_c = Inr NO_CONFLICT"
  by code_simp+

lemma ex_keys: "split_key ''file:src/x/**'' = Inr (''file'', ''src/x/**'')" "path_prefix ''src/x/**'' = Inr ''src/x''"
  "split_key ''file:src/x/y.py'' = Inr (''file'', ''src/x/y.py'')" "path_prefix ''src/x/y.py'' = Inr ''src/x/y.py''"
  "split_key ''identity:z'' = Inr (''identity'', ''z'')"
  by code_simp+

lemma ex_keys_valid: "keys_valid ex_a" "keys_valid ex_b" "keys_valid ex_c"
  by (simp_all add: keys_valid_def valid_key_def ex_a_def ex_b_def ex_c_def ex_packet_def ex_keys)

lemma ex_graph: "dependency_graph [ex_b, ex_a, ex_c] = Inr (graph_of [ex_b, ex_a, ex_c])"
  by code_simp

lemma ex_ready: "ready_packets [ex_b, ex_a, ex_c] ex_statuses [] = Inr [ex_a]"
  by code_simp

lemma ex_owner: "is_owner ''bot 1''" "\<not> has_two_dots ''bot 1''"
  by code_simp+

definition ex_branch :: string where
  "ex_branch = ''agent/a/e0001-bot-1''"

definition ex_lease :: "int \<Rightarrow> lease_record" where
  "ex_lease t = granted ex_a ''bot 1'' 1 ex_branch None t 60000000"

lemma ex_branch_name: "lease_branch_name ''a'' 1 ''bot 1'' = Inr ex_branch"
  by code_simp

lemma ex_lease_wf: "lease_wf (ex_lease t)"
  unfolding ex_lease_def
  by (rule granted_wf [OF ex_a_wf]) (simp_all add: ex_branch_name [folded ex_a_def] ex_a_def ex_packet_def)

lemma ex_heartbeat: "heartbeat (ex_lease 0) ex_sha (Some 5) = Inr (ex_lease 5\<lparr>lr_head_sha := Some ex_sha\<rparr>)"
proof -
  let ?m = "ex_lease 5\<lparr>lr_head_sha := Some ex_sha\<rparr>"
  have td: "timedelta_seconds (total_seconds 60000000) = 60000000" by (rule timedelta_round_trip) simp_all
  have sha: "is_git_sha ex_sha" by code_simp
  have "lease_wf (granted ex_a ''bot 1'' 1 ex_branch (Some ex_sha) 5 60000000)"
    by (rule granted_wf [OF ex_a_wf]) (use sha in \<open>simp_all add: ex_branch_name ex_a_def ex_packet_def\<close>)
  then have "lease_wf ?m" by (simp add: ex_lease_def granted_def)
  moreover have "?m = ex_lease 0\<lparr>lr_head_sha := Some ex_sha, lr_last_heartbeat_at := Some 5,
      lr_expires_at := Some (5 + timedelta_seconds (total_seconds 60000000))\<rparr>"
    by (simp add: ex_lease_def granted_def td)
  ultimately show ?thesis using sha
    by (simp add: heartbeat_def ex_lease_def lease_wf_def res_iff require_full_sha_def require_aware_def)
qed

text \<open>The example lease after its heartbeat, a handoff of its head, and the task's status record.\<close>

definition ex_beaten :: lease_record where
  "ex_beaten = ex_lease 5\<lparr>lr_head_sha := Some ex_sha\<rparr>"

lemma ex_beaten_step: "lease_step\<^sup>*\<^sup>* (ex_lease 0) ex_beaten"
  using lease_step.beat [OF ex_heartbeat] unfolding ex_beaten_def by blast

lemma ex_beaten_wf: "lease_wf ex_beaten"
  using lease_history_succeeds [OF ex_beaten_step ex_lease_wf] by (simp add: succeeds_def)

definition ex_handoff :: handoff_packet where
  "ex_handoff = \<lparr>hp_task_id = ''a'', hp_task_revision = 1, hp_task_contract_digest = contract_digest ex_a,
     hp_lease_epoch = 1, hp_last_good_head = ex_sha, hp_verified = [], hp_pending = [],
     hp_known_failures = [], hp_do_not_repeat = [], hp_evidence_ids = []\<rparr>"

lemma ex_handoff_valid: "validate_handoff ex_handoff ex_a ex_beaten = Inr ()"
  unfolding validate_handoff_Inr
  by (simp add: ex_handoff_def ex_beaten_def ex_lease_def granted_def) (simp add: ex_a_def ex_packet_def)

definition ex_record :: task_status_record where
  "ex_record = \<lparr>sr_task_id = ''a'', sr_task_revision = 1, sr_task_contract_digest = ex_digest,
     sr_phase = EXECUTING, sr_condition = HEALTHY, sr_base_sha = ex_sha, sr_owner = Some ''bot 1'',
     sr_lease_epoch = Some 1, sr_lease_branch = Some ex_branch, sr_head_sha = None, sr_pr_id = None,
     sr_checkpoint = None, sr_blocking_reason = None, sr_stale_reason = None\<rparr>"

lemma ex_record_wf: "record_wf ex_record"
  by code_simp

definition ex_registry :: coordinator_registry where
  "ex_registry = \<lparr>cr_repository = ''owner/name'', cr_entries = [\<lparr>ep_repository = ''owner/name'',
     ep_issue_number = 7, ep_issue_node_id = ''node'', ep_status = ex_record\<rparr>]\<rparr>"

lemma ex_registry_wf: "registry_wf ex_registry"
  by code_simp

end
