(* ===== verification/Vectors.thy ===== *)
theory Vectors
  imports OrderBooks
begin

text \<open>
  Numpy vectors of \<open>float64\<close> as lists of \<open>f64\<close>.  Elementwise arithmetic is IEEE
  arithmetic on the elements; reductions (\<open>np.sum\<close>) associate their terms in an order that
  numpy chooses, so every definition that uses one takes it as the argument \<open>nsum\<close>.
\<close>

definition vmul :: "f64 list \<Rightarrow> f64 list \<Rightarrow> f64 list" where
  "vmul xs ys = map2 fmul xs ys"

definition vdiv :: "f64 list \<Rightarrow> f64 list \<Rightarrow> f64 list" where
  "vdiv xs ys = map2 fdiv xs ys"

definition all_finite :: "f64 list \<Rightarrow> bool" where
  "all_finite xs \<longleftrightarrow> list_all isfinite xs"

text \<open>\<open>values[i]\<close>: a negative index counts from the end.\<close>

definition vec_at :: "'a list \<Rightarrow> int \<Rightarrow> 'a res" where
  "vec_at xs i = (let n = int (length xs); k = (if i < 0 then i + n else i)
     in if k < 0 \<or> n \<le> k then Inl (Raise IndexError ''index out of bounds'') else Inr (xs ! nat k))"

lemma vec_at_Inr [res_iff]:
  "vec_at xs i = Inr x \<longleftrightarrow> (let k = (if i < 0 then i + int (length xs) else i)
     in 0 \<le> k \<and> k < int (length xs) \<and> x = xs ! nat k)"
  by (auto simp: vec_at_def Let_def)

lemma vmul_length [simp]: "length (vmul xs ys) = min (length xs) (length ys)"
  by (simp add: vmul_def)

text \<open>\<open>float(np.sum(np.abs(quantities * prices * multipliers)))\<close>.\<close>

definition gross_notional :: "(f64 list \<Rightarrow> f64) \<Rightarrow> f64 list \<Rightarrow> f64 list \<Rightarrow> f64 list \<Rightarrow> f64" where
  "gross_notional nsum quantities prices multipliers = nsum (map fabs (vmul (vmul quantities prices) multipliers))"

section \<open>Rounding to integers\<close>

text \<open>Python's \<open>round\<close>, \<open>math.floor\<close> and \<open>math.ceil\<close> of a float.\<close>

definition to_integer :: "(rat \<Rightarrow> int) \<Rightarrow> f64 \<Rightarrow> int res" where
  "to_integer r x = (case x of
      NaN \<Rightarrow> Inl (value_error ''cannot convert float NaN to integer'')
    | PosInf \<Rightarrow> Inl (Raise OverflowError ''cannot convert float infinity to integer'')
    | NegInf \<Rightarrow> Inl (Raise OverflowError ''cannot convert float infinity to integer'')
    | _ \<Rightarrow> Inr (r (val x)))"

definition py_round :: "f64 \<Rightarrow> int res" where
  "py_round = to_integer rne"

definition py_floor :: "f64 \<Rightarrow> int res" where
  "py_floor = to_integer floor"

definition py_ceil :: "f64 \<Rightarrow> int res" where
  "py_ceil = to_integer ceiling"

lemma to_integer_Inr [res_iff]: "to_integer r x = Inr n \<longleftrightarrow> isfinite x \<and> n = r (val x)"
  by (cases x) (auto simp: to_integer_def)

text \<open>\<open>count * x\<close> for an integer \<open>count\<close>: the integer is converted to a float first.\<close>

definition int_times :: "int \<Rightarrow> f64 \<Rightarrow> f64 res" where
  "int_times n x = bindr (float_of_int n) (\<lambda>c. Inr (fmul c x))"

section \<open>Python's \<open>sum\<close> and division\<close>

text \<open>
  The builtin \<open>sum\<close> of floats (Python 3.12): the first item is added to the integer 0, the rest
  with Neumaier's compensation.
\<close>

definition neumaier :: "f64 \<times> f64 \<Rightarrow> f64 \<Rightarrow> f64 \<times> f64" where
  "neumaier = (\<lambda>(s, c) x. let t = fadd s x in
     (t, fadd c (if fle (fabs x) (fabs s) then fadd (fsub s t) x else fadd (fsub x t) s)))"

definition py_sum :: "f64 list \<Rightarrow> f64" where
  "py_sum xs = (case xs of [] \<Rightarrow> F 0
     | x # rest \<Rightarrow> (case foldl neumaier (fadd (F 0) x, F 0) rest of (s, c) \<Rightarrow>
         if \<not> feq c (F 0) \<and> isfinite c then fadd s c else s))"

definition py_div :: "f64 \<Rightarrow> f64 \<Rightarrow> f64 res" where
  "py_div x y = (if feq y (F 0) then Inl (Raise ZeroDivisionError ''float division by zero'') else Inr (fdiv x y))"

end
