(* ===== verification/Admission.thy ===== *)
theory Admission
  imports Vectors
begin

text \<open>
  \<open>trade_rl/simulation/orders/admission.py\<close>: tick grids and the pre-trade admission policy.
  A rejection is a decision with \<open>accepted = False\<close> and its reason; a structurally invalid
  input raises \<open>OrderAdmissionError\<close>.  \<open>refusals\<close> is a run of the source's
  \<open>if condition: return self._reject(reason)\<close> statements.
\<close>

section \<open>Tick grids\<close>

definition projection_tolerance :: "f64 \<Rightarrow> f64 \<Rightarrow> f64" where
  "projection_tolerance price projected = fmul (F 4) (fmax (ulp price) (ulp projected))"

text \<open>\<open>Fraction(str(price)) % Fraction(str(tick)) == 0\<close>.\<close>

definition divides_exactly :: "f64 \<Rightarrow> f64 \<Rightarrow> bool" where
  "divides_exactly tick price \<longleftrightarrow> (let r = dec_of_float price / dec_of_float tick in of_int \<lfloor>r\<rfloor> = r)"

definition price_on_tick_grid :: "f64 \<Rightarrow> f64 \<Rightarrow> bool res" where
  "price_on_tick_grid price tick =
    (if \<not> isfinite price \<or> fle price (F 0) \<or> \<not> isfinite tick \<or> flt tick (F 0) then Inr False
     else if feq tick (F 0) then Inr True
     else if divides_exactly tick price then Inr True
     else bindr (py_round (fdiv price tick)) (\<lambda>nearest_count.
       bindr (int_times nearest_count tick) (\<lambda>projected.
         Inr (fle (fabs (fsub price projected)) (projection_tolerance price projected)))))"

definition snap_count :: "f64 \<Rightarrow> f64 \<Rightarrow> bool \<Rightarrow> int res" where
  "snap_count price tick round_up = (let ratio = fdiv price tick in
     bindr (py_round ratio) (\<lambda>nearest_count.
     bindr (int_times nearest_count tick) (\<lambda>nearest.
       if fle (fabs (fsub price nearest)) (projection_tolerance price nearest) then Inr nearest_count
       else if round_up then py_ceil ratio else py_floor ratio)))"

definition snap_price_to_tick :: "f64 \<Rightarrow> f64 \<Rightarrow> bool \<Rightarrow> f64 res" where
  "snap_price_to_tick price tick round_up =
     bindr (checks [
       (\<not> isfinite price \<or> fle price (F 0), value_error ''price must be finite and positive''),
       (\<not> isfinite tick \<or> flt tick (F 0), value_error ''tick_size must be finite and non-negative'')]) (\<lambda>_.
     if feq tick (F 0) then Inr price
     else bindr (snap_count price tick round_up) (\<lambda>lots.
       if lots \<le> 0 then Inl (value_error ''positive order price has no valid tick-grid projection'')
       else bindr (int_times lots tick) (\<lambda>snapped.
         if \<not> isfinite snapped \<or> fle snapped (F 0)
         then Inl (value_error ''tick-grid projection must remain finite and positive'')
         else Inr snapped)))"

section \<open>The policy\<close>

abbreviation admission_error :: "string \<Rightarrow> exc" where
  "admission_error m \<equiv> Raise OrderAdmissionError m"

record admission_decision =
  ad_accepted :: bool
  ad_reason :: "string option"
  ad_quantity :: f64
  ad_notional :: f64
  ad_exact :: rat

record admission_policy =
  ap_dataset_id :: string
  ap_digest :: string
  ap_allow_short :: bool
  ap_max_leverage :: f64

definition admission_policy_post_init :: "admission_policy \<Rightarrow> admission_policy res" where
  "admission_policy_post_init p = bindr (checks [
     (ap_dataset_id p = [], admission_error ''expected_dataset_id must be non-empty''),
     (length (ap_digest p) \<noteq> 64, admission_error ''expected_execution_policy_digest must be a SHA-256 digest''),
     (\<not> isfinite (ap_max_leverage p) \<or> fle (ap_max_leverage p) (F 0),
        admission_error ''max_leverage must be finite and positive'')]) (\<lambda>_. Inr p)"

text \<open>
  What \<open>evaluate\<close> reads of the book: a \<open>BookState\<close> has exact quantities, the projected
  book of the stateful engine (the protocol \<open>_AdmissionBookView\<close>) has none.
\<close>

record book_view =
  bv_quantities :: "f64 list"
  bv_multipliers :: "f64 list"
  bv_portfolio_value :: f64
  bv_insolvent :: bool
  bv_exact :: "rat list option"

record admission_inputs =
  ai_remaining :: "f64 option"
  ai_processing_index :: int
  ai_asset_active :: bool
  ai_tradable :: bool
  ai_buy_allowed :: bool
  ai_sell_allowed :: bool
  ai_borrow_available :: bool
  ai_tick_size :: f64
  ai_lot_size :: f64
  ai_minimum_notional :: f64
  ai_reference_prices :: "f64 list"
  ai_actual_position :: "rat option"
  ai_minimum_quantity :: f64
  ai_maximum_quantity :: "f64 option"
  ai_market_only :: bool
  ai_allow_over_cap :: bool

definition reject_decision :: "string \<Rightarrow> admission_decision" where
  "reject_decision reason = \<lparr>ad_accepted = False, ad_reason = Some reason, ad_quantity = F 0,
     ad_notional = F 0, ad_exact = 0\<rparr>"

fun refusals :: "(bool \<times> string) list \<Rightarrow> admission_decision res \<Rightarrow> admission_decision res" where
  "refusals [] k = k"
| "refusals ((b, r) # cs) k = (if b then Inr (reject_decision r) else refusals cs k)"

lemma refusals_accepted:
  "ad_accepted d \<Longrightarrow> refusals cs k = Inr d \<longleftrightarrow> (\<forall>c \<in> set cs. \<not> fst c) \<and> k = Inr d"
  by (induction cs k rule: refusals.induct) (auto simp: reject_decision_def)

declare refusals.simps [simp del]

definition admission_shape_checks :: "order_intent \<Rightarrow> book_view \<Rightarrow> admission_inputs \<Rightarrow> unit res" where
  "admission_shape_checks intent book a =
    (let prices = ai_reference_prices a; n = length (bv_quantities book) in checks [
       (length prices \<noteq> n \<or> length (bv_multipliers book) \<noteq> n \<or> prices = [] \<or> \<not> all_finite prices \<or>
          list_ex (\<lambda>p. fle p (F 0)) prices,
          admission_error ''reference_prices must match book symbols and be finite''),
       (int n \<le> oi_symbol_index intent, admission_error ''order symbol is outside the book''),
       (ai_processing_index a < 0, admission_error ''processing_index must be a non-negative integer'')])"

definition requested_of :: "order_intent \<Rightarrow> admission_inputs \<Rightarrow> f64" where
  "requested_of intent a = (case ai_remaining a of None \<Rightarrow> oi_requested_quantity intent | Some r \<Rightarrow> r)"

definition eligibility_refusals :: "admission_policy \<Rightarrow> order_intent \<Rightarrow> admission_inputs \<Rightarrow> (bool \<times> string) list" where
  "eligibility_refusals pol intent a = [
     (oi_dataset_id intent \<noteq> ap_dataset_id pol \<or> oi_execution_policy_digest intent \<noteq> ap_digest pol,
        ''identity_mismatch''),
     (ai_processing_index a < oi_eligible_index intent, ''not_eligible''),
     (case oi_expiry_index intent of None \<Rightarrow> False | Some e \<Rightarrow> e < ai_processing_index a, ''expired''),
     (\<not> ai_asset_active a, ''inactive_asset''),
     (\<not> ai_tradable a, ''non_tradable_market'')]"

definition requested_check :: "order_intent \<Rightarrow> f64 \<Rightarrow> unit res" where
  "requested_check intent requested = checks [
     (\<not> isfinite requested \<or> fle (fabs requested) tolerance \<or>
        \<not> feq (sign1 requested) (sign1 (oi_requested_quantity intent)) \<or>
        flt (fadd (fabs (oi_requested_quantity intent)) tolerance) (fabs requested),
        admission_error ''remaining_quantity must preserve the order direction and bound'')]"

definition bad_rule :: "f64 \<Rightarrow> bool" where
  "bad_rule v \<longleftrightarrow> \<not> isfinite v \<or> flt v (F 0)"

definition rule_refusals :: "order_intent \<Rightarrow> admission_inputs \<Rightarrow> f64 \<Rightarrow> (bool \<times> string) list" where
  "rule_refusals intent a requested = [
     (flt (F 0) requested \<and> \<not> ai_buy_allowed a, ''buy_disabled''),
     (flt requested (F 0) \<and> \<not> ai_sell_allowed a, ''sell_disabled''),
     (ai_market_only a \<and> oi_order_type intent \<noteq> MARKET, ''profile_requires_market_order''),
     (list_ex bad_rule [ai_tick_size a, ai_lot_size a, ai_minimum_notional a, ai_minimum_quantity a],
        ''invalid_execution_rule'')]"

definition bound_price :: "order_intent \<Rightarrow> f64 option" where
  "bound_price intent = (case oi_order_type intent of
      LIMIT \<Rightarrow> oi_limit_price intent | STOP_MARKET \<Rightarrow> oi_stop_price intent | MARKET \<Rightarrow> None)"

definition bound_on_grid :: "order_intent \<Rightarrow> f64 \<Rightarrow> bool res" where
  "bound_on_grid intent tick = (case bound_price intent of
      None \<Rightarrow> Inr True | Some p \<Rightarrow> price_on_tick_grid p tick)"

definition maximum_refusals :: "admission_inputs \<Rightarrow> f64 \<Rightarrow> (bool \<times> string) list res" where
  "maximum_refusals a requested = (case ai_maximum_quantity a of
      None \<Rightarrow> Inr []
    | Some m \<Rightarrow>
        if \<not> isfinite m \<or> fle m (F 0) \<or> flt m (ai_minimum_quantity a) then Inr [(True, ''invalid_execution_rule'')]
        else bindr (exact_quantity requested) (\<lambda>r. bindr (exact_quantity m) (\<lambda>x.
          Inr [(x < \<bar>r\<bar>, ''above_maximum_quantity'')])))"

text \<open>The position a reduce-only order may close.\<close>

definition reducible_position :: "order_intent \<Rightarrow> book_view \<Rightarrow> admission_inputs \<Rightarrow> rat res" where
  "reducible_position intent book a = (case ai_actual_position a of
      Some p \<Rightarrow> Inr p
    | None \<Rightarrow> (case bv_exact book of
        None \<Rightarrow> Inl (admission_error ''actual_position is required for a projected book'')
      | Some xs \<Rightarrow> vec_at xs (oi_symbol_index intent)))"

definition reduce_refusals :: "order_intent \<Rightarrow> book_view \<Rightarrow> admission_inputs \<Rightarrow> f64 \<Rightarrow> (bool \<times> string) list res" where
  "reduce_refusals intent book a requested = (if \<not> oi_reduce_only intent then Inr []
     else bindr (reducible_position intent book a) (\<lambda>position.
       bindr (exact_quantity requested) (\<lambda>request. Inr [
         (position = 0, ''reduce_only_no_position''),
         (0 \<le> position * request, ''reduce_only_wrong_direction''),
         (\<bar>position\<bar> < \<bar>request\<bar>, ''reduce_only_exceeds_position'')])))"

definition short_refusals :: "admission_policy \<Rightarrow> admission_inputs \<Rightarrow> f64 \<Rightarrow> f64 \<Rightarrow> (bool \<times> string) list" where
  "short_refusals pol a current requested = (let projected = fadd current requested in [
     (flt projected (fneg tolerance) \<and> \<not> ap_allow_short pol, ''shorting_disabled''),
     (flt projected (fsub (fmin current (F 0)) tolerance) \<and> \<not> ai_borrow_available a, ''borrow_unavailable'')])"

text \<open>The price the notional of an order is taken at: an unmarketable limit order counts at its limit.\<close>

definition notional_price :: "order_intent \<Rightarrow> f64 \<Rightarrow> f64 \<Rightarrow> f64 res" where
  "notional_price intent quantity price = (case oi_order_type intent of
      LIMIT \<Rightarrow> (case oi_limit_price intent of
          None \<Rightarrow> Inl (Raise AssertionError [])
        | Some limit \<Rightarrow> Inr (if (flt (F 0) quantity \<and> fle price limit) \<or> (flt quantity (F 0) \<and> fle limit price)
            then price else limit))
    | _ \<Rightarrow> Inr price)"

definition leverage_refusals ::
  "admission_policy \<Rightarrow> order_intent \<Rightarrow> book_view \<Rightarrow> admission_inputs \<Rightarrow> f64 list \<Rightarrow> f64 \<Rightarrow> f64 \<Rightarrow> (bool \<times> string) list" where
  "leverage_refusals pol intent book a projected gross current_gross =
    (let equity = bv_portfolio_value book;
         leverage_exceeded = flt (fadd (fmul equity (ap_max_leverage pol)) tolerance) gross;
         over_cap_reduction = (ai_allow_over_cap a \<and> oi_reduce_only intent \<and> oi_order_type intent = MARKET \<and>
           flt gross (fsub current_gross tolerance))
     in [(\<not> all_finite projected \<or> \<not> isfinite gross \<or> \<not> isfinite current_gross, ''pretrade_leverage_exceeded''),
         (bv_insolvent book \<or> \<not> isfinite equity \<or> fle equity tolerance \<or>
            (leverage_exceeded \<and> \<not> over_cap_reduction), ''pretrade_leverage_exceeded'')])"

text \<open>From the rounding to lots to the decision.\<close>

definition admit_quantity ::
  "(f64 list \<Rightarrow> f64) \<Rightarrow> admission_policy \<Rightarrow> order_intent \<Rightarrow> book_view \<Rightarrow> admission_inputs \<Rightarrow> f64 \<Rightarrow>
     admission_decision res" where
  "admit_quantity nsum pol intent book a requested =
    (let symbol = oi_symbol_index intent; prices = ai_reference_prices a;
         quantities = bv_quantities book; multipliers = bv_multipliers book in
     bindr (quantize_quantity requested (ai_lot_size a)) (\<lambda>(admitted, lots).
     refusals [(fle (fabs admitted) tolerance, ''zero_quantity_after_rounding'')] (
     bindr (accepted_fill_quantity admitted (if lots = None then F 0 else ai_lot_size a) lots) (\<lambda>exact.
     bindr (exact_quantity (ai_minimum_quantity a)) (\<lambda>minimum.
     refusals [(\<bar>exact\<bar> < minimum, ''below_minimum_quantity'')] (
     bindr (vec_at prices symbol) (\<lambda>price.
     bindr (vec_at multipliers symbol) (\<lambda>multiplier.
     bindr (notional_price intent admitted price) (\<lambda>at_price.
     let notional = fmul (fmul (fabs admitted) at_price) multiplier in
     refusals [
       (\<not> isfinite notional, ''pretrade_leverage_exceeded''),
       (flt (fadd notional tolerance) (ai_minimum_notional a), ''below_minimum_notional'')] (
     bindr (add_at quantities symbol admitted) (\<lambda>projected.
     refusals (leverage_refusals pol intent book a projected
         (gross_notional nsum projected prices multipliers) (gross_notional nsum quantities prices multipliers))
       (Inr \<lparr>ad_accepted = True, ad_reason = None, ad_quantity = admitted, ad_notional = notional,
          ad_exact = exact\<rparr>))))))))))))"

definition evaluate_admission ::
  "(f64 list \<Rightarrow> f64) \<Rightarrow> admission_policy \<Rightarrow> order_intent \<Rightarrow> book_view \<Rightarrow> admission_inputs \<Rightarrow>
     admission_decision res" where
  "evaluate_admission nsum pol intent book a =
    (let requested = requested_of intent a in
     bindr (admission_shape_checks intent book a) (\<lambda>_.
     refusals (eligibility_refusals pol intent a) (
     bindr (requested_check intent requested) (\<lambda>_.
     refusals (rule_refusals intent a requested) (
     bindr (bound_on_grid intent (ai_tick_size a)) (\<lambda>on_grid.
     refusals [(\<not> on_grid, ''price_not_on_tick'')] (
     bindr (maximum_refusals a requested) (\<lambda>too_large.
     refusals too_large (
     bindr (vec_at (bv_quantities book) (oi_symbol_index intent)) (\<lambda>current.
     bindr (reduce_refusals intent book a requested) (\<lambda>not_reducing.
     refusals not_reducing (
     refusals (short_refusals pol a current requested) (
     admit_quantity nsum pol intent book a requested)))))))))))))"

section \<open>What acceptance guarantees\<close>

lemma quantized_exact:
  assumes q: "quantize_quantity x lot = Inr (admitted, lots)"
    and e: "accepted_fill_quantity admitted (if lots = None then F 0 else lot) lots = Inr exact"
  shows "\<bar>exact\<bar> \<le> \<bar>dec_of_float x\<bar> \<and> 0 \<le> exact * dec_of_float x \<and> (dec_of_float x \<noteq> 0 \<longrightarrow> exact \<noteq> 0)"
proof (cases lots)
  case None
  then have "admitted = x" using q by (auto simp: quantize_quantity_def res_iff Let_def split: if_splits)
  then show ?thesis using e None accepted_fill_no_lot by auto
next
  case (Some n)
  have "exact = of_int n * dec_of_float lot \<and> n \<noteq> 0 \<and> 0 < dec_of_float lot"
    using accepted_fill_project [of admitted lot n exact] e Some by simp
  then show ?thesis using quantize_count [OF q [unfolded Some]] by (auto simp: mult_ac)
qed

lemma admission_accepted:
  assumes "evaluate_admission nsum pol intent book a = Inr d" and "ad_accepted d"
  shows "admission_shape_checks intent book a = Inr ()"
    and "\<forall>c \<in> set (eligibility_refusals pol intent a). \<not> fst c"
    and "requested_check intent (requested_of intent a) = Inr ()"
    and "\<forall>c \<in> set (rule_refusals intent a (requested_of intent a)). \<not> fst c"
    and "bound_on_grid intent (ai_tick_size a) = Inr True"
    and "\<exists>m. maximum_refusals a (requested_of intent a) = Inr m \<and> (\<forall>c \<in> set m. \<not> fst c)"
    and "\<exists>m. reduce_refusals intent book a (requested_of intent a) = Inr m \<and> (\<forall>c \<in> set m. \<not> fst c)"
    and "\<exists>current. vec_at (bv_quantities book) (oi_symbol_index intent) = Inr current \<and>
      (\<forall>c \<in> set (short_refusals pol a current (requested_of intent a)). \<not> fst c)"
    and "admit_quantity nsum pol intent book a (requested_of intent a) = Inr d"
  using assms(1)
  by (auto simp: evaluate_admission_def Let_def bindr_Inr refusals_accepted [OF assms(2)])

lemma admit_quantity_accepted:
  assumes "admit_quantity nsum pol intent book a requested = Inr d" and "ad_accepted d"
  obtains lots projected minimum where
    "quantize_quantity requested (ai_lot_size a) = Inr (ad_quantity d, lots)"
    "accepted_fill_quantity (ad_quantity d) (if lots = None then F 0 else ai_lot_size a) lots = Inr (ad_exact d)"
    "\<not> fle (fabs (ad_quantity d)) tolerance" "exact_quantity (ai_minimum_quantity a) = Inr minimum"
    "minimum \<le> \<bar>ad_exact d\<bar>" "isfinite (ad_notional d)" "ad_reason d = None"
    "\<not> flt (fadd (ad_notional d) tolerance) (ai_minimum_notional a)"
    "add_at (bv_quantities book) (oi_symbol_index intent) (ad_quantity d) = Inr projected"
    "\<forall>c \<in> set (leverage_refusals pol intent book a projected
        (gross_notional nsum projected (ai_reference_prices a) (bv_multipliers book))
        (gross_notional nsum (bv_quantities book) (ai_reference_prices a) (bv_multipliers book))). \<not> fst c"
  using assms(1)
  by (force simp: admit_quantity_def Let_def bindr_Inr refusals_accepted [OF assms(2)] not_less)

lemma requested_dec:
  assumes "requested_check intent r = Inr ()" and "is_f64 r"
  shows "isfinite r \<and> dec_of_float r \<noteq> 0 \<and> (0 < dec_of_float r \<longleftrightarrow> 0 < val r)"
proof -
  have r: "isfinite r" "\<not> fle (fabs r) tolerance" using assms by (simp_all add: requested_check_def)
  then have "val r \<noteq> 0" using tolerance_pos by (cases r) auto
  then show ?thesis using r(1) assms(2) dec_of_float_0_iff [of r] dec_of_float_sign [of "val r"]
    by (cases r) force+
qed

section \<open>Snapped prices are on the grid\<close>

text \<open>A product with a small integer is within a quarter of the factor of its exact value.\<close>

lemma small_multiple_near:
  assumes rep: "rep t" and t: "0 < t" and n: "1 \<le> n" "n \<le> 2 ^ 50"
  shows "\<bar>rmag (of_int n * t) - of_int n * t\<bar> \<le> t / 4"
proof -
  let ?e = "ilog 2 t"
  have b: "2 powi ?e \<le> t" "t < 2 powi (?e + 1)" using ilog2_bounds [OF t] by auto
  show ?thesis
  proof (cases "-1072 \<le> ?e")
    case True
    have "of_int n * t \<le> (2 ^ 50) * t" using n t by (intro mult_right_mono) (simp_all flip: of_int_le_iff)
    also have "\<dots> < 2 ^ 50 * 2 powi (?e + 1)" using b by simp
    also have "\<dots> = 2 powi (?e - 2 + 53)" by (simp add: power_int_add power_int_diff)
    finally have "\<bar>rmag (of_int n * t) - of_int n * t\<bar> \<le> 2 powi (?e - 2) / 2"
      using True n t by (intro rmag_near) simp_all
    also have "\<dots> = 2 powi ?e / 8" by (simp add: power_int_diff)
    finally show ?thesis using b t by linarith
  next
    case False
    then have f: "fexp t = -1074" by (simp add: fexp_def)
    obtain M where M: "rmag t = of_int M * 2 powi fexp t" "0 \<le> M" by (rule rmag_int [OF t])
    then have tM: "t = of_int M * 2 powi (-1074)" using rep_rmag [OF rep] f by simp
    have "t < 2 powi (-1072)" using b(2) False powi2_mono [of "?e + 1" "-1072"] by simp
    also have "(2::rat) powi (-1072) = 4 * 2 powi (-1074)" using powi2_add [of 2 "-1074"] by simp
    finally have "of_int M * (2::rat) powi (-1074) < 4 * 2 powi (-1074)" unfolding tM .
    then have "rat_of_int M < 4" by (simp only: mult_less_cancel_right_pos [OF powi2_pos])
    then have "n * M \<le> 2 ^ 50 * 4" using n M(2) by (intro mult_mono) simp_all
    then have "rmag (of_int (n * M) * 2 powi (-1074)) = of_int (n * M) * 2 powi (-1074)"
      using n M(2) by (intro rmag_dyadic) simp_all
    then have "rmag (of_int n * t) = of_int n * t" by (simp add: tM mult.assoc)
    then show ?thesis using t by simp
  qed
qed

lemma rnd_quarter:
  assumes "\<bar>q - of_int n\<bar> \<le> 1 / 4" and n: "1 \<le> n" "n \<le> 2 ^ 50"
  shows "isfinite (rnd q) \<and> rne (val (rnd q)) = n"
proof -
  have rep: "rnd (of_int m * 2 powi (-2)) = F (of_int m / 4)" if "0 \<le> m" "m \<le> 2 ^ 53" for m
  proof -
    have "rmag (of_int m * 2 powi (-2)) = of_int m * 2 powi (-2)" using that by (intro rmag_dyadic) simp_all
    moreover have eq: "rat_of_int m * 2 powi (-2) = of_int m / 4" by (simp add: power_int_def power2_eq_square)
    moreover have "rat_of_int m / 4 < max_f64"
    proof -
      have "rat_of_int m \<le> of_int (2 ^ 53)" using that by (simp only: of_int_le_iff)
      moreover have "(2::rat) ^ 53 < max_f64" by (simp add: max_f64_def)
      ultimately show ?thesis by simp
    qed
    ultimately have "rep \<bar>rat_of_int m / 4\<bar>" "\<bar>rat_of_int m / 4\<bar> < max_f64"
      using that by (simp_all add: Float64.rep_def)
    then show ?thesis using rnd_rep eq by simp
  qed
  have lo: "rnd (of_int (4 * n - 1) * 2 powi (-2)) = F (of_int n - 1 / 4)"
    and hi: "rnd (of_int (4 * n + 1) * 2 powi (-2)) = F (of_int n + 1 / 4)"
    using rep [of "4 * n - 1"] rep [of "4 * n + 1"] n by (simp_all add: field_simps)
  have p: "(2::rat) powi (-2) = 1 / 4" by (simp add: power_int_def power2_eq_square)
  have "of_int n - 1 / 4 \<le> q" "q \<le> of_int n + 1 / 4" using assms(1) by linarith+
  then have "of_int (4 * n - 1) * 2 powi (-2) \<le> q" "q \<le> of_int (4 * n + 1) * 2 powi (-2)"
    by (simp_all add: p field_simps)
  note bounds = this [THEN rnd_mono]
  then have f: "fle (F (of_int n - 1 / 4)) (rnd q)" "fle (rnd q) (F (of_int n + 1 / 4))"
    using bounds unfolding lo hi by simp_all
  then have fin: "isfinite (rnd q)" by (cases "rnd q") (auto simp: fle_def)
  then have "of_int n - 1 / 4 \<le> val (rnd q)" "val (rnd q) \<le> of_int n + 1 / 4" using f by simp_all
  then have "\<bar>val (rnd q) - of_int n\<bar> < 1 / 2" by linarith
  then show ?thesis using fin rne_unique by blast
qed

lemma grid_multiple:
  assumes tick: "is_f64 tick" "isfinite tick" "0 < val tick" and n: "1 \<le> n" "n \<le> 2 ^ 50"
    and s: "int_times n tick = Inr s" "isfinite s"
  shows "price_on_tick_grid s tick = Inr True"
proof -
  let ?t = "val tick"
  have tF: "tick = F ?t" "rep ?t" using tick by (cases tick; simp)+
  have q: "0 < of_int n * ?t" using n tick by simp
  have "rnd (of_int n) = F (of_int n)" using n by (intro rnd_of_int) simp
  then have s_eq: "s = rnd (of_int n * ?t)"
    using s(1) tick n by (auto simp: int_times_def float_of_int_def Let_def fmul_def)
  have x: "val s = rmag (of_int n * ?t)" using abs_val_rnd [of "of_int n * ?t"] s(2) q val_rnd_nonneg [of "of_int n * ?t"]
    by (simp add: s_eq)
  have near: "\<bar>val s - of_int n * ?t\<bar> \<le> ?t / 4"
    unfolding x by (rule small_multiple_near [OF tF(2) tick(3) n])
  have "1 * ?t \<le> of_int n * ?t" using n tick by (intro mult_right_mono) simp_all
  then have pos: "0 < val s" using near tick(3) by linarith
  have "fdiv s tick = rnd (val s / ?t)" using pos tick s(2) by (simp add: fdiv_fin)
  moreover have "\<bar>val s / ?t - of_int n\<bar> \<le> 1 / 4"
    using near tick(3) by (simp add: abs_le_iff field_simps)
  ultimately have "py_round (fdiv s tick) = Inr n"
    using rnd_quarter [OF _ n] by (simp add: py_round_def to_integer_Inr)
  moreover have "fsub s s = F 0" using pos s(2) by (cases s) (simp_all add: fsub_def fadd_def)
  moreover have "fle (F 0) (projection_tolerance s s)"
  proof -
    have u: "ulp s = F (2 powi fexp (val s))" using pos s(2) by (cases s) simp_all
    have "fle (rnd 0) (rnd (4 * 2 powi fexp (val s)))" by (rule rnd_mono) simp
    then show ?thesis by (simp add: projection_tolerance_def u fmax_def fmul_def)
  qed
  ultimately show ?thesis using pos tick s by (simp add: price_on_tick_grid_def)
qed

lemma snap_count_le:
  assumes "snap_count price tick up = Inr n" and p: "isfinite price" "0 < val price"
    and tick: "isfinite tick" "0 < val tick" and b: "val price \<le> 2 ^ 49 * val tick"
  shows "n \<le> 2 ^ 50"
proof -
  let ?r = "fdiv price tick"
  have r: "?r = rnd (val price / val tick)" using p tick by (simp add: fdiv_fin)
  have "rnd (2 ^ 49) = F (2 ^ 49)" using rnd_of_int [of "2 ^ 49"] by simp
  moreover have "fle ?r (rnd (2 ^ 49))" unfolding r using b tick by (intro rnd_mono) (simp add: field_simps)
  ultimately have le: "fle ?r (F (2 ^ 49))" by simp
  have "isfinite ?r" using assms(1) by (auto simp: snap_count_def py_round_def Let_def res_iff)
  then have v: "val ?r \<le> 2 ^ 49" using le by simp
  have "\<bar>of_int (rne (val ?r)) - val ?r\<bar> \<le> 1 / 2" by (rule rne_close)
  then have "rat_of_int (rne (val ?r)) \<le> val ?r + 1 / 2" by linarith
  also have "\<dots> \<le> of_int (2 ^ 50)" using v by simp
  finally have "rat_of_int (rne (val ?r)) \<le> of_int (2 ^ 50)" .
  then have "rne (val ?r) \<le> 2 ^ 50" by (simp only: of_int_le_iff)
  moreover have "\<lfloor>val ?r\<rfloor> \<le> 2 ^ 50" "\<lceil>val ?r\<rceil> \<le> 2 ^ 50" using v by (simp_all add: floor_le_iff ceiling_le_iff)
  ultimately show ?thesis
    using assms(1) by (auto simp: snap_count_def py_round_def py_floor_def py_ceil_def Let_def res_iff split: if_splits)
qed

lemma snapped_on_grid:
  assumes snap: "snap_price_to_tick price tick up = Inr s"
    and tick: "is_f64 tick" and b: "val price \<le> 2 ^ 49 * val tick \<or> val tick = 0"
  shows "price_on_tick_grid s tick = Inr True \<and> isfinite s \<and> 0 < val s"
proof -
  have p: "isfinite price" "0 < val price" "isfinite tick" "0 \<le> val tick"
    using snap by (auto simp: snap_price_to_tick_def res_iff)
  show ?thesis
  proof (cases "val tick = 0")
    case True
    then show ?thesis using snap p by (auto simp: snap_price_to_tick_def price_on_tick_grid_def res_iff)
  next
    case False
    then have t: "0 < val tick" using p by simp
    then obtain n where n: "snap_count price tick up = Inr n" "0 < n" "int_times n tick = Inr s"
      and s: "isfinite s" "0 < val s"
      using snap p by (auto simp: snap_price_to_tick_def res_iff split: if_splits)
    have "n \<le> 2 ^ 50" using snap_count_le [OF n(1) p(1,2,3) t] b False by blast
    then show ?thesis using grid_multiple [OF tick p(3) t _ _ n(3) s(1)] n(2) s by simp
  qed
qed

end
