(* ===== verification/Accounting.thy ===== *)
theory Accounting
  imports Vectors
begin

text \<open>
  \<open>trade_rl/simulation/accounting.py\<close>: the signed-quantity account \<open>BookState\<close>.  The
  mutable object is the record \<open>book\<close>; a method returns the updated record, or the exception
  it raises.  The constructor's optional multipliers and exact quantities are arguments of
  \<open>account_post_init\<close>, which always stores them, so the methods' assertions on them hold.
  \<open>nsum\<close> and \<open>ndot\<close> stand for numpy's reductions.
\<close>

section \<open>Vectors and proposed equity\<close>

datatype termination_reason =
    MINIMUM_EQUITY | EXECUTION_COST_EXHAUSTION | MARGIN_CALL | LIQUIDATION | DRAWDOWN_STOP | INSOLVENCY

definition min_equity :: f64 where
  "min_equity = F (2 powi (-1022))"

definition finite_vector :: "string \<Rightarrow> f64 list \<Rightarrow> f64 list res" where
  "finite_vector name v = (if v = [] \<or> \<not> all_finite v
     then Inl (value_error (name @ '' must be a non-empty finite vector'')) else Inr v)"

definition fzero :: "f64 \<Rightarrow> bool" where
  "fzero x \<longleftrightarrow> feq x (F 0)"

definition not_positive :: "f64 \<Rightarrow> bool" where
  "not_positive x \<longleftrightarrow> fle x (F 0)"

definition bad_number :: "f64 \<Rightarrow> bool" where
  "bad_number x \<longleftrightarrow> \<not> isfinite x \<or> fzero x"

abbreviation unrepresentable :: exc where
  "unrepresentable \<equiv> value_error ''nonzero target quantity cannot be represented''"

definition target_quantity_from_weight :: "f64 \<Rightarrow> f64 \<Rightarrow> f64 \<Rightarrow> f64 \<Rightarrow> f64 res" where
  "target_quantity_from_weight weight equity price multiplier =
     bindr (checks [
       (\<not> all_finite [weight, equity, price, multiplier], value_error ''target sizing inputs must be finite''),
       (not_positive equity \<or> not_positive price \<or> not_positive multiplier,
          value_error ''target sizing equity, price and multiplier must be positive'')]) (\<lambda>_.
     if fzero weight then Inr (F 0)
     else (let target_value = fmul weight equity; unit_notional = fmul price multiplier;
               quantity = fdiv target_value unit_notional;
               position_value = fmul (fmul quantity price) multiplier
           in bindr (checks [
             (bad_number target_value \<or> \<not> isfinite unit_notional \<or> not_positive unit_notional, unrepresentable),
             (bad_number quantity, unrepresentable),
             (bad_number position_value, unrepresentable)]) (\<lambda>_. Inr quantity)))"

definition cash_interest_amount :: "f64 \<Rightarrow> f64 \<Rightarrow> f64 \<Rightarrow> f64 res" where
  "cash_interest_amount basis annual_rate year_fraction = bindr (checks [
     (\<not> isfinite annual_rate, value_error ''annual_rate must be finite''),
     (\<not> isfinite year_fraction \<or> flt year_fraction (F 0),
        value_error ''year_fraction must be finite and non-negative'')]) (\<lambda>_.
     Inr (fmul (fmul basis annual_rate) year_fraction))"

text \<open>\<open>_require_finite_post_update_equity\<close>.\<close>

definition proposed_equity ::
  "(f64 list \<Rightarrow> f64) \<Rightarrow> f64 \<Rightarrow> f64 list \<Rightarrow> f64 list \<Rightarrow> f64 list \<Rightarrow> f64 res" where
  "proposed_equity nsum cash quantities marks multipliers =
    (let position_values = vmul (vmul quantities marks) multipliers;
         equity = fadd cash (nsum position_values)
     in bindr (checks [
       (\<not> all_finite position_values \<or> \<not> isfinite cash \<or> \<not> isfinite equity,
          value_error ''proposed account state became non-finite''),
       (list_ex (\<lambda>(q, v). \<not> fzero q \<and> fzero v) (zip quantities position_values),
          value_error ''nonzero position value cannot be represented'')]) (\<lambda>_. Inr equity))"

text \<open>\<open>math.fsum\<close> of finite floats: the exact running sum as partials, rounded once at the end.\<close>

fun fsum_insert :: "f64 list \<Rightarrow> f64 list \<Rightarrow> f64 \<Rightarrow> f64 list \<times> f64" where
  "fsum_insert kept [] x = (rev kept, x)"
| "fsum_insert kept (y # ys) x =
    (let (big, small) = (if flt (fabs x) (fabs y) then (y, x) else (x, y));
         hi = fadd big small; lo = fsub small (fsub hi big)
     in fsum_insert (if fzero lo then kept else lo # kept) ys hi)"

definition fsum_step :: "f64 list \<Rightarrow> f64 \<Rightarrow> f64 list res" where
  "fsum_step partials x = (case fsum_insert [] partials x of (kept, hi) \<Rightarrow>
     if fzero hi then Inr kept
     else if \<not> isfinite hi then Inl (Raise OverflowError ''intermediate overflow in fsum'')
     else Inr (kept @ [hi]))"

definition fsum :: "f64 list \<Rightarrow> f64 res" where
  "fsum xs = bindr (foldr_res fsum_step [] xs) (\<lambda>partials. Inr (rnd (sum_list (map val partials))))"

section \<open>The book\<close>

record book =
  bs_quantities :: "f64 list"
  bs_cash :: f64
  bs_marks :: "f64 list"
  bs_peak :: f64
  bs_multipliers :: "f64 list"
  bs_max_drawdown :: f64
  bs_turnover :: f64
  bs_total_cost :: f64
  bs_funding_pnl :: f64
  bs_fill_count :: int
  bs_rebalances :: int
  bs_returns :: "f64 list"
  bs_borrow_cost :: f64
  bs_margin_used :: f64
  bs_maintenance_margin :: f64
  bs_maintenance_requirement :: f64
  bs_margin_deficit :: f64
  bs_insolvent :: bool
  bs_termination :: "termination_reason option"
  bs_exact :: "string list"

definition position_values :: "book \<Rightarrow> f64 list" where
  "position_values b = vmul (vmul (bs_quantities b) (bs_marks b)) (bs_multipliers b)"

definition portfolio_value :: "(f64 list \<Rightarrow> f64) \<Rightarrow> book \<Rightarrow> f64" where
  "portfolio_value nsum b = fadd (bs_cash b) (nsum (position_values b))"

definition book_weights :: "(f64 list \<Rightarrow> f64) \<Rightarrow> book \<Rightarrow> f64 list" where
  "book_weights nsum b = (let value = portfolio_value nsum b in
     if not_positive value \<or> \<not> isfinite value then map (\<lambda>_. F 0) (bs_quantities b)
     else map (\<lambda>v. fdiv v value) (position_values b))"

text \<open>The read-only views of the account.\<close>

definition effective_portfolio_value :: "(f64 list \<Rightarrow> f64) \<Rightarrow> book \<Rightarrow> f64" where
  "effective_portfolio_value nsum b = fmax (portfolio_value nsum b) min_equity"

definition cash_weight :: "(f64 list \<Rightarrow> f64) \<Rightarrow> book \<Rightarrow> f64" where
  "cash_weight nsum b = (let value = portfolio_value nsum b in
     if not_positive value then F 0 else fdiv (bs_cash b) value)"

definition gross_exposure :: "(f64 list \<Rightarrow> f64) \<Rightarrow> book \<Rightarrow> f64" where
  "gross_exposure nsum b = nsum (map fabs (book_weights nsum b))"

definition net_exposure :: "(f64 list \<Rightarrow> f64) \<Rightarrow> book \<Rightarrow> f64" where
  "net_exposure nsum b = nsum (book_weights nsum b)"

definition margin_utilization :: "(f64 list \<Rightarrow> f64) \<Rightarrow> book \<Rightarrow> f64" where
  "margin_utilization nsum b = (let value = portfolio_value nsum b in
     if not_positive value then F 1 else fdiv (bs_margin_used b) value)"

definition terminate :: "termination_reason \<Rightarrow> book \<Rightarrow> book" where
  "terminate reason b = b\<lparr>bs_insolvent := True, bs_termination := Some reason\<rparr>"

text \<open>\<open>_refresh_economic_state\<close>.\<close>

definition refresh :: "(f64 list \<Rightarrow> f64) \<Rightarrow> book \<Rightarrow> book res" where
  "refresh nsum b = (let value = portfolio_value nsum b in
     if \<not> isfinite value then Inl (value_error ''portfolio value became non-finite'')
     else if not_positive value \<and> \<not> bs_insolvent b then Inr (terminate INSOLVENCY b) else Inr b)"

text \<open>\<open>_update_drawdown\<close>.\<close>

definition update_drawdown :: "(f64 list \<Rightarrow> f64) \<Rightarrow> bool \<Rightarrow> book \<Rightarrow> book" where
  "update_drawdown nsum unbounded b =
    (let value = (if unbounded then portfolio_value nsum b else fmax (portfolio_value nsum b) (F 0));
         peak = fmax (bs_peak b) value
     in b\<lparr>bs_peak := peak,
        bs_max_drawdown := fmax (bs_max_drawdown b) (fsub (F 1) (fdiv value (fmax peak min_equity)))\<rparr>)"

definition book_field_checks :: "f64 list \<Rightarrow> f64 list \<Rightarrow> f64 list \<Rightarrow> book \<Rightarrow> unit res" where
  "book_field_checks quantities marks multipliers b =
    (let finite_field = (\<lambda>name x. (\<not> isfinite x, value_error (name @ '' must be finite'')))
     in checks ([
       (length multipliers \<noteq> length quantities \<or> list_ex not_positive multipliers,
          value_error ''contract_multipliers must match quantities and be positive''),
       (list_ex not_positive marks, value_error ''mark_prices must be strictly positive''),
       finite_field ''cash'' (bs_cash b), finite_field ''peak_value'' (bs_peak b),
       finite_field ''max_drawdown'' (bs_max_drawdown b), finite_field ''turnover_total'' (bs_turnover b),
       finite_field ''total_cost'' (bs_total_cost b), finite_field ''funding_pnl'' (bs_funding_pnl b),
       finite_field ''borrow_cost'' (bs_borrow_cost b), finite_field ''margin_used'' (bs_margin_used b),
       finite_field ''maintenance_margin'' (bs_maintenance_margin b),
       finite_field ''maintenance_requirement'' (bs_maintenance_requirement b),
       finite_field ''margin_deficit'' (bs_margin_deficit b),
       (not_positive (bs_peak b), value_error ''peak_value must be positive''),
       (bs_fill_count b < 0 \<or> bs_rebalances b < 0, value_error ''execution counters must be non-negative''),
       (flt (bs_borrow_cost b) (F 0) \<or> flt (bs_margin_used b) (F 0) \<or>
          flt (bs_maintenance_requirement b) (F 0) \<or> flt (bs_margin_deficit b) (F 0),
          value_error ''borrow_cost, margin_used and maintenance_requirement must be non-negative''),
       (\<not> (fle (F 0) (bs_maintenance_margin b) \<and> fle (bs_maintenance_margin b) (F 1)),
          value_error ''maintenance_margin must be within [0, 1]'')]))"

text \<open>The exact strings agree with the reported floats.\<close>

definition exact_agrees :: "string \<times> f64 \<Rightarrow> bool res" where
  "exact_agrees = (\<lambda>(s, q). bindr (parse_quantity s) (\<lambda>v. bindr (project_quantity v) (\<lambda>p. Inr (feq p q))))"

definition exact_strings :: "string list option \<Rightarrow> f64 list \<Rightarrow> string list res" where
  "exact_strings exact quantities = (case exact of
      None \<Rightarrow> bindr (mapr exact_quantity quantities) (\<lambda>vs. Inr (map fraction_str vs))
    | Some ss \<Rightarrow> if length ss \<noteq> length quantities
        then Inl (value_error ''exact quantity state differs from its reporting view'')
        else bindr (any_res (\<lambda>p. bindr (exact_agrees p) (\<lambda>ok. Inr (\<not> ok))) (zip ss quantities)) (\<lambda>bad.
          if bad then Inl (value_error ''exact quantity state differs from its reporting view'') else Inr ss))"

definition account_post_init ::
  "(f64 list \<Rightarrow> f64) \<Rightarrow> f64 list option \<Rightarrow> string list option \<Rightarrow> book \<Rightarrow> book res" where
  "account_post_init nsum multipliers exact b =
     bindr (finite_vector ''quantities'' (bs_quantities b)) (\<lambda>quantities.
     bindr (finite_vector ''mark_prices'' (bs_marks b)) (\<lambda>marks.
     bindr (checks [(length quantities \<noteq> length marks,
       value_error ''quantities and mark_prices must have identical shapes'')]) (\<lambda>_.
     bindr (case multipliers of None \<Rightarrow> Inr (map (\<lambda>_. F 1) quantities)
       | Some m \<Rightarrow> finite_vector ''contract_multipliers'' m) (\<lambda>mults.
     bindr (book_field_checks quantities marks mults b) (\<lambda>_.
     bindr (proposed_equity nsum (bs_cash b) quantities marks mults) (\<lambda>_.
     bindr (exact_strings exact quantities) (\<lambda>strings.
     bindr (refresh nsum (b\<lparr>bs_multipliers := mults, bs_exact := strings\<rparr>)) (\<lambda>c.
       let value = portfolio_value nsum c;
           slack = fmax (fmax tolerance (fmul (fabs value) tolerance)) (fmul (fabs (bs_peak c)) tolerance)
       in if \<not> bs_insolvent c \<and> flt (fadd (bs_peak c) slack) value
          then Inl (value_error ''peak_value cannot be below portfolio_value'') else Inr c))))))))"

definition book_zero ::
  "(f64 list \<Rightarrow> f64) \<Rightarrow> int \<Rightarrow> f64 \<Rightarrow> f64 list option \<Rightarrow> f64 list option \<Rightarrow> book res" where
  "book_zero nsum n_symbols initial_capital initial_prices multipliers =
     bindr (checks [
       (n_symbols \<le> 0, value_error ''n_symbols must be positive''),
       (\<not> isfinite initial_capital \<or> not_positive initial_capital,
          value_error ''initial_capital must be finite and positive'')]) (\<lambda>_.
     bindr (case initial_prices of None \<Rightarrow> Inr (replicate (nat n_symbols) (F 1))
       | Some p \<Rightarrow> finite_vector ''initial_prices'' p) (\<lambda>prices.
     bindr (checks [(int (length prices) \<noteq> n_symbols \<or> list_ex not_positive prices,
       value_error ''initial_prices must match symbols and be positive'')]) (\<lambda>_.
     account_post_init nsum multipliers None
       \<lparr>bs_quantities = replicate (nat n_symbols) (F 0), bs_cash = initial_capital, bs_marks = prices,
        bs_peak = initial_capital, bs_multipliers = [], bs_max_drawdown = F 0, bs_turnover = F 0,
        bs_total_cost = F 0, bs_funding_pnl = F 0, bs_fill_count = 0, bs_rebalances = 0, bs_returns = [],
        bs_borrow_cost = F 0, bs_margin_used = F 0, bs_maintenance_margin = F 0,
        bs_maintenance_requirement = F 0, bs_margin_deficit = F 0, bs_insolvent = False,
        bs_termination = None, bs_exact = []\<rparr>)))"

text \<open>
  \<open>_quantity_values\<close>: the exact quantities, rebased where the public vector was replaced.
  It also stores the strings it returns.
\<close>

definition quantity_value :: "string \<times> f64 \<Rightarrow> rat res" where
  "quantity_value = (\<lambda>(s, current). bindr (parse_quantity s) (\<lambda>exact.
     bindr (project_quantity exact) (\<lambda>p. if feq p current then Inr exact else exact_quantity current)))"

definition quantity_values :: "book \<Rightarrow> (rat list \<times> book) res" where
  "quantity_values b = (if length (bs_exact b) \<noteq> length (bs_quantities b)
     then Inl (value_error ''zip() arguments differ in length'')
     else bindr (mapr quantity_value (zip (bs_exact b) (bs_quantities b))) (\<lambda>values.
       Inr (values, b\<lparr>bs_exact := map fraction_str values\<rparr>)))"

definition set_quantity_values :: "rat list \<Rightarrow> f64 list \<Rightarrow> book \<Rightarrow> book" where
  "set_quantity_values values projected b = b\<lparr>bs_exact := map fraction_str values, bs_quantities := projected\<rparr>"

text \<open>\<open>clone\<close> revalidates: it is the constructor applied to the object's own fields.\<close>

definition clone_book :: "(f64 list \<Rightarrow> f64) \<Rightarrow> book \<Rightarrow> book res" where
  "clone_book nsum b = bindr (quantity_values b) (\<lambda>(_, c).
     account_post_init nsum (Some (bs_multipliers c)) (Some (bs_exact c)) c)"

section \<open>Corporate actions, interest and settlement\<close>

definition apply_split :: "(f64 list \<Rightarrow> f64) \<Rightarrow> f64 list \<Rightarrow> book \<Rightarrow> book res" where
  "apply_split nsum split_factor b =
     bindr (finite_vector ''split_factor'' split_factor) (\<lambda>factors.
     bindr (checks [(length factors \<noteq> length (bs_quantities b) \<or> list_ex not_positive factors,
       value_error ''split_factor must match the book and be positive'')]) (\<lambda>_.
     bindr (quantity_values b) (\<lambda>(values, c).
     bindr (mapr exact_quantity factors) (\<lambda>exact_factors.
     let after = map2 (*) values exact_factors in
     bindr (mapr project_quantity after) (\<lambda>projected.
     let marks = vdiv (bs_marks c) factors in
     bindr (checks [(\<not> all_finite marks \<or> list_ex not_positive marks,
       value_error ''split produced non-finite mark prices'')]) (\<lambda>_.
     bindr (proposed_equity nsum (bs_cash c) projected marks (bs_multipliers c)) (\<lambda>_.
     refresh nsum (set_quantity_values after projected c\<lparr>bs_marks := marks\<rparr>))))))))"

definition apply_dividend ::
  "(f64 list \<Rightarrow> f64) \<Rightarrow> (f64 list \<Rightarrow> f64 list \<Rightarrow> f64) \<Rightarrow> f64 list \<Rightarrow> book \<Rightarrow> (f64 \<times> book) res" where
  "apply_dividend nsum ndot dividend_per_unit b =
     bindr (finite_vector ''dividend_per_unit'' dividend_per_unit) (\<lambda>dividend.
     bindr (checks [(length dividend \<noteq> length (bs_quantities b),
       value_error ''dividend_per_unit must match the book'')]) (\<lambda>_.
     let amount = ndot (vmul (bs_quantities b) (bs_multipliers b)) dividend;
         cash_after = fadd (bs_cash b) amount in
     bindr (proposed_equity nsum cash_after (bs_quantities b) (bs_marks b) (bs_multipliers b)) (\<lambda>_.
     bindr (refresh nsum (b\<lparr>bs_cash := cash_after\<rparr>)) (\<lambda>c. Inr (amount, c)))))"

definition resolved_fraction :: "int option \<Rightarrow> f64 option \<Rightarrow> f64 res" where
  "resolved_fraction periods_per_year year_fraction = (case year_fraction of
      None \<Rightarrow> (case periods_per_year of
          None \<Rightarrow> Inl (value_error ''periods_per_year must be positive'')
        | Some p \<Rightarrow> if p \<le> 0 then Inl (value_error ''periods_per_year must be positive'')
            else bindr (float_of_int p) (\<lambda>x. Inr (fdiv (F 1) x)))
    | Some y \<Rightarrow> if \<not> isfinite y \<or> flt y (F 0)
        then Inl (value_error ''year_fraction must be finite and non-negative'') else Inr y)"

definition apply_cash_interest ::
  "(f64 list \<Rightarrow> f64) \<Rightarrow> f64 \<Rightarrow> int option \<Rightarrow> f64 option \<Rightarrow> book \<Rightarrow> (f64 \<times> book) res" where
  "apply_cash_interest nsum annual_rate periods_per_year year_fraction b =
     bindr (checks [(\<not> isfinite annual_rate, value_error ''annual_rate must be finite'')]) (\<lambda>_.
     bindr (resolved_fraction periods_per_year year_fraction) (\<lambda>fraction.
     bindr (cash_interest_amount (bs_cash b) annual_rate fraction) (\<lambda>amount.
     let cash_after = fadd (bs_cash b) amount in
     bindr (proposed_equity nsum cash_after (bs_quantities b) (bs_marks b) (bs_multipliers b)) (\<lambda>_.
     bindr (refresh nsum (b\<lparr>bs_cash := cash_after\<rparr>)) (\<lambda>c. Inr (amount, c))))))"

text \<open>One leg of a settlement; \<open>None\<close> where the symbol is not settled.\<close>

definition settlement_leg :: "rat \<times> f64 \<times> f64 \<times> f64 \<times> bool \<Rightarrow> f64 option res" where
  "settlement_leg = (\<lambda>(quantity, price, multiplier, recovered, settle).
     if \<not> settle then Inr None
     else if quantity = 0 \<or> fzero recovered then Inr (Some (F 0))
     else bindr (project_quantity quantity) (\<lambda>p.
       if bad_number (fmul (fmul (fmul p price) multiplier) recovered)
       then Inl (value_error ''nonzero settlement proceeds cannot be represented'')
       else bindr (exact_quantity price) (\<lambda>ep. bindr (exact_quantity multiplier) (\<lambda>em.
         bindr (exact_quantity recovered) (\<lambda>er.
         case float_of_fraction (quantity * ep * em * er) of
           Inl _ \<Rightarrow> Inl (value_error ''settlement proceeds cannot be represented'')
         | Inr leg \<Rightarrow> if bad_number leg
             then Inl (value_error ''nonzero settlement proceeds cannot be represented'')
             else Inr (Some leg))))))"

text \<open>\<open>except (OverflowError, ValueError) as error: raise ValueError(m)\<close>, and the finiteness test after it.\<close>

definition finite_fsum :: "string \<Rightarrow> f64 list \<Rightarrow> f64 res" where
  "finite_fsum m legs = (case fsum legs of
      Inl _ \<Rightarrow> Inl (value_error m)
    | Inr sum_value \<Rightarrow> if isfinite sum_value then Inr sum_value else Inl (value_error m))"

definition settle_positions ::
  "(f64 list \<Rightarrow> f64) \<Rightarrow> bool list \<Rightarrow> f64 list \<Rightarrow> f64 list \<Rightarrow> book \<Rightarrow> (f64 \<times> book) res" where
  "settle_positions nsum settled prices recovery b =
     bindr (finite_vector ''settlement_prices'' prices) (\<lambda>price_vector.
     bindr (finite_vector ''recovery'' recovery) (\<lambda>recovery_vector.
     let n = length (bs_quantities b) in
     bindr (checks [
       (length settled \<noteq> n \<or> length price_vector \<noteq> n \<or> length recovery_vector \<noteq> n,
          value_error ''settlement vectors must match the book''),
       (list_ex not_positive price_vector \<or> list_ex (\<lambda>r. flt r (F 0)) recovery_vector \<or>
          list_ex (\<lambda>r. flt (F 1) r) recovery_vector,
          value_error ''settlement prices or recovery are invalid'')]) (\<lambda>_.
     bindr (quantity_values b) (\<lambda>(values, c).
     bindr (mapr settlement_leg
       (zip values (zip price_vector (zip (bs_multipliers c) (zip recovery_vector settled))))) (\<lambda>legs.
     bindr (finite_fsum ''settlement proceeds sum must be finite'' (List.map_filter id legs)) (\<lambda>proceeds.
     let after = map2 (\<lambda>v settle. if settle then 0 else v) values settled in
     bindr (mapr project_quantity after) (\<lambda>projected.
     let cash_after = fadd (bs_cash c) proceeds in
     bindr (proposed_equity nsum cash_after projected price_vector (bs_multipliers c)) (\<lambda>_.
     bindr (refresh nsum (set_quantity_values after projected (c\<lparr>bs_cash := cash_after\<rparr>)\<lparr>bs_marks := price_vector\<rparr>))
       (\<lambda>d. Inr (proceeds, update_drawdown nsum False d))))))))))"

section \<open>Margin and valuation\<close>

definition set_margin ::
  "(f64 list \<Rightarrow> f64) \<Rightarrow> f64 \<Rightarrow> f64 \<Rightarrow> f64 option \<Rightarrow> book \<Rightarrow> book res" where
  "set_margin nsum margin_used maintenance_margin maintenance_requirement b =
     bindr (checks [
       (\<not> isfinite margin_used \<or> flt margin_used (F 0), value_error ''margin_used must be finite and non-negative''),
       (\<not> isfinite maintenance_margin \<or> \<not> (fle (F 0) maintenance_margin \<and> fle maintenance_margin (F 1)),
          value_error ''maintenance_margin must be within [0, 1]'')]) (\<lambda>_.
     let requirement = (case maintenance_requirement of
         None \<Rightarrow> fmul maintenance_margin (nsum (map fabs (position_values b))) | Some r \<Rightarrow> r) in
     bindr (checks [(\<not> isfinite requirement \<or> flt requirement (F 0),
       value_error ''maintenance_requirement must be finite and non-negative'')]) (\<lambda>_.
     let value = portfolio_value nsum b;
         c = b\<lparr>bs_margin_used := margin_used, bs_maintenance_margin := maintenance_margin,
               bs_maintenance_requirement := requirement,
               bs_margin_deficit := fmax (F 0) (fsub requirement (fmax value (F 0)))\<rparr>
     in Inr (if flt (F 0) value \<and> flt (F 0) requirement \<and> flt value (fsub requirement tolerance)
        then terminate MARGIN_CALL c else c)))"

definition book_marks :: "book \<Rightarrow> f64 list \<Rightarrow> f64 list res" where
  "book_marks b mark_prices = bindr (finite_vector ''mark_prices'' mark_prices) (\<lambda>marks.
     bindr (checks [(length marks \<noteq> length (bs_quantities b) \<or> list_ex not_positive marks,
       value_error ''mark_prices must match the book and be positive'')]) (\<lambda>_. Inr marks))"

definition revalue :: "(f64 list \<Rightarrow> f64) \<Rightarrow> f64 list \<Rightarrow> book \<Rightarrow> book res" where
  "revalue nsum mark_prices b =
     bindr (book_marks b mark_prices) (\<lambda>marks.
     bindr (proposed_equity nsum (bs_cash b) (bs_quantities b) marks (bs_multipliers b)) (\<lambda>_.
     refresh nsum (b\<lparr>bs_marks := marks\<rparr>)))"

section \<open>Execution\<close>

definition execution_leg :: "rat \<times> f64 \<times> f64 \<Rightarrow> f64 res" where
  "execution_leg = (\<lambda>(quantity, price, multiplier). bindr (project_quantity quantity) (\<lambda>p.
     Inr (fmul (fmul p price) multiplier)))"

text \<open>\<open>_record_execution\<close>.\<close>

definition execution_marks :: "f64 list \<Rightarrow> f64 list option \<Rightarrow> f64 list res" where
  "execution_marks prices valuation_prices = (case valuation_prices of
      None \<Rightarrow> Inr prices | Some v \<Rightarrow> finite_vector ''valuation_prices'' v)"

definition execution_checks :: "book \<Rightarrow> f64 list \<Rightarrow> f64 list \<Rightarrow> unit res" where
  "execution_checks b prices targets = checks [
     (length prices \<noteq> length (bs_quantities b) \<or> length targets \<noteq> length (bs_quantities b),
        value_error ''execution vectors must match the book''),
     (list_ex not_positive prices, value_error ''fill_prices must be strictly positive'')]"

definition amount_checks :: "f64 list \<Rightarrow> f64 list \<Rightarrow> f64 \<Rightarrow> f64 \<Rightarrow> unit res" where
  "amount_checks prices marks cost_amount turnover = checks [
     (length marks \<noteq> length prices \<or> list_ex not_positive marks,
        value_error ''valuation_prices must match the book and be positive''),
     (\<not> isfinite cost_amount \<or> flt cost_amount (F 0), value_error ''cost_amount must be finite and non-negative''),
     (\<not> isfinite turnover \<or> flt turnover (F 0), value_error ''turnover must be finite and non-negative'')]"

text \<open>The signed notional of all legs, each of which must be representable on its own.\<close>

definition signed_notional :: "rat list \<Rightarrow> f64 list \<Rightarrow> f64 list \<Rightarrow> f64 res" where
  "signed_notional delta prices multipliers =
     bindr (mapr execution_leg (zip delta (zip prices multipliers))) (\<lambda>legs.
     if list_ex (\<lambda>(d, leg). d \<noteq> 0 \<and> bad_number leg) (zip delta legs)
     then Inl (value_error ''nonzero execution leg notional cannot be represented'')
     else finite_fsum ''execution leg notional sum must be finite'' legs)"

definition count_filled :: "rat list \<Rightarrow> int" where
  "count_filled delta = int (length (filter (\<lambda>d. dec_of_float tolerance < \<bar>d\<bar>) delta))"

definition executed_book ::
  "f64 list \<Rightarrow> rat list \<Rightarrow> f64 list \<Rightarrow> f64 \<Rightarrow> f64 \<Rightarrow> f64 \<Rightarrow> int \<Rightarrow> book \<Rightarrow> book" where
  "executed_book targets exact_targets marks cash_after turnover_after cost_after filled b =
     b\<lparr>bs_cash := cash_after, bs_quantities := targets, bs_exact := map fraction_str exact_targets,
       bs_marks := marks, bs_turnover := turnover_after, bs_total_cost := cost_after,
       bs_fill_count := bs_fill_count b + filled,
       bs_rebalances := (if filled = 0 then bs_rebalances b else bs_rebalances b + 1)\<rparr>"

definition record_execution ::
  "(f64 list \<Rightarrow> f64) \<Rightarrow> f64 list \<Rightarrow> rat list \<Rightarrow> rat list \<Rightarrow> f64 \<Rightarrow> f64 \<Rightarrow> f64 list option \<Rightarrow> book \<Rightarrow> book res" where
  "record_execution nsum fill_prices exact_targets delta cost_amount turnover valuation_prices b =
     bindr (finite_vector ''fill_prices'' fill_prices) (\<lambda>prices.
     bindr (mapr project_quantity exact_targets) (\<lambda>targets.
     bindr (execution_checks b prices targets) (\<lambda>_.
     bindr (execution_marks prices valuation_prices) (\<lambda>marks.
     bindr (amount_checks prices marks cost_amount turnover) (\<lambda>_.
     bindr (signed_notional delta prices (bs_multipliers b)) (\<lambda>notional.
     let value_before = portfolio_value nsum b;
         cash_after = fsub (bs_cash b) (fadd notional cost_amount);
         turnover_after = fadd (bs_turnover b) turnover;
         cost_after = fadd (bs_total_cost b) cost_amount in
     bindr (proposed_equity nsum cash_after targets marks (bs_multipliers b)) (\<lambda>_.
     bindr (checks [(\<not> isfinite turnover_after \<or> \<not> isfinite cost_after,
       value_error ''proposed execution must preserve finite account values'')]) (\<lambda>_.
     let c = executed_book targets exact_targets marks cash_after turnover_after cost_after (count_filled delta) b;
         d = (if fle (fsub (fmax value_before (F 0)) tolerance) cost_amount
              then terminate EXECUTION_COST_EXHAUSTION c else c)
     in bindr (refresh nsum d) (\<lambda>e. Inr (update_drawdown nsum False e))))))))))"

definition execute ::
  "(f64 list \<Rightarrow> f64) \<Rightarrow> f64 list \<Rightarrow> f64 list \<Rightarrow> f64 \<Rightarrow> f64 \<Rightarrow> bool \<Rightarrow> book \<Rightarrow> book res" where
  "execute nsum fill_prices target_quantities cost_amount turnover preserve_unchanged_exact b =
     bindr (finite_vector ''target_quantities'' target_quantities) (\<lambda>targets.
     bindr (checks [(length targets \<noteq> length (bs_quantities b),
       value_error ''execution vectors must match the book'')]) (\<lambda>_.
     bindr (quantity_values b) (\<lambda>(previous_values, c).
     bindr (mapr (\<lambda>(target, current, previous).
         if preserve_unchanged_exact \<and> feq target current then Inr previous else exact_quantity target)
       (zip targets (zip (bs_quantities c) previous_values))) (\<lambda>exact_targets.
     record_execution nsum fill_prices exact_targets (map2 (-) exact_targets previous_values)
       cost_amount turnover None c))))"

text \<open>
  A fill without lots that covers the whole projected position consumes the exact position.
\<close>

definition accepted_delta :: "f64 \<Rightarrow> f64 \<Rightarrow> int option \<Rightarrow> rat \<Rightarrow> rat res" where
  "accepted_delta quantity lot_size lots current =
     bindr (accepted_fill_quantity quantity lot_size lots) (\<lambda>accepted.
     if lots \<noteq> None then Inr accepted
     else bindr (project_quantity current) (\<lambda>p.
       Inr (if feq quantity (fneg p) then - current else accepted)))"

definition execute_fill ::
  "(f64 list \<Rightarrow> f64) \<Rightarrow> int \<Rightarrow> f64 \<Rightarrow> f64 list \<Rightarrow> f64 \<Rightarrow> f64 \<Rightarrow> f64 \<Rightarrow> int option \<Rightarrow>
     f64 list option \<Rightarrow> book \<Rightarrow> book res" where
  "execute_fill nsum symbol quantity fill_prices cost_amount turnover lot_size lots valuation_prices b =
    (let n = length (bs_quantities b) in
     bindr (checks [(\<not> (0 \<le> symbol \<and> symbol < int n), value_error ''fill symbol index is outside the book'')]) (\<lambda>_.
     bindr (quantity_values b) (\<lambda>(values, c).
     bindr (accepted_delta quantity lot_size lots (values ! nat symbol)) (\<lambda>accepted.
     record_execution nsum fill_prices (values[nat symbol := values ! nat symbol + accepted])
       ((replicate n 0)[nat symbol := accepted]) cost_amount turnover valuation_prices c))))"

section \<open>Charges and marking\<close>

definition charge_borrow :: "(f64 list \<Rightarrow> f64) \<Rightarrow> f64 \<Rightarrow> book \<Rightarrow> book res" where
  "charge_borrow nsum amount b =
     bindr (checks [(\<not> isfinite amount \<or> flt amount (F 0),
       value_error ''borrow amount must be finite and non-negative'')]) (\<lambda>_.
     let cash_after = fsub (bs_cash b) amount; borrow_after = fadd (bs_borrow_cost b) amount in
     bindr (checks [(\<not> isfinite borrow_after, value_error ''proposed borrow cost became non-finite'')]) (\<lambda>_.
     bindr (proposed_equity nsum cash_after (bs_quantities b) (bs_marks b) (bs_multipliers b)) (\<lambda>_.
     refresh nsum (b\<lparr>bs_cash := cash_after, bs_borrow_cost := borrow_after\<rparr>))))"

definition net_return_of :: "bool \<Rightarrow> f64 \<Rightarrow> f64 \<Rightarrow> f64 res" where
  "net_return_of unbounded proposed starting = (let r = fsub (fdiv proposed starting) (F 1) in
     if \<not> isfinite r then Inl (value_error ''base-bar net return became non-finite'')
     else Inr (if unbounded then r else fmax r (fadd (F (-1)) tolerance)))"

definition projected_drawdown :: "bool \<Rightarrow> f64 \<Rightarrow> book \<Rightarrow> f64" where
  "projected_drawdown unbounded proposed b =
    (let value = (if unbounded then proposed else fmax proposed (F 0)); peak = fmax (bs_peak b) value
     in fmax (bs_max_drawdown b) (fsub (F 1) (fdiv value (fmax peak min_equity))))"

definition mark_to_market ::
  "(f64 list \<Rightarrow> f64) \<Rightarrow> f64 list \<Rightarrow> f64 \<Rightarrow> f64 option \<Rightarrow> bool \<Rightarrow> book \<Rightarrow> (f64 \<times> book) res" where
  "mark_to_market nsum mark_prices funding_amount period_start_value unbounded b =
     bindr (checks [(\<not> isfinite funding_amount, value_error ''funding_amount must be finite'')]) (\<lambda>_.
     let starting = (case period_start_value of None \<Rightarrow> portfolio_value nsum b | Some v \<Rightarrow> v) in
     bindr (checks [(\<not> isfinite starting \<or> not_positive starting,
       value_error ''period_start_value must be finite and positive'')]) (\<lambda>_.
     bindr (book_marks b mark_prices) (\<lambda>marks.
     let proposed_cash = fadd (bs_cash b) funding_amount;
         funding_pnl = fadd (bs_funding_pnl b) funding_amount in
     bindr (proposed_equity nsum proposed_cash (bs_quantities b) marks (bs_multipliers b)) (\<lambda>proposed.
     bindr (checks [(\<not> isfinite funding_pnl,
       value_error ''base-bar portfolio value or funding became non-finite'')]) (\<lambda>_.
     bindr (net_return_of unbounded proposed starting) (\<lambda>net_return.
     bindr (checks [(\<not> isfinite (projected_drawdown unbounded proposed b),
       value_error ''base-bar drawdown became non-finite'')]) (\<lambda>_.
     bindr (revalue nsum marks (b\<lparr>bs_cash := proposed_cash\<rparr>)) (\<lambda>c.
     let d = update_drawdown nsum unbounded c
     in Inr (net_return, d\<lparr>bs_funding_pnl := funding_pnl, bs_returns := bs_returns d @ [net_return]\<rparr>)))))))))"

section \<open>Opening a book at given weights\<close>

definition from_weights ::
  "(f64 list \<Rightarrow> f64) \<Rightarrow> f64 list \<Rightarrow> f64 \<Rightarrow> f64 list \<Rightarrow> f64 option \<Rightarrow> f64 \<Rightarrow> f64 list option \<Rightarrow> book res" where
  "from_weights nsum weights capital prices peak_value max_gross multipliers =
     bindr (finite_vector ''weights'' weights) (\<lambda>ws.
     bindr (finite_vector ''prices'' prices) (\<lambda>ps.
     bindr (checks [
       (length ws \<noteq> length ps \<or> list_ex not_positive ps, value_error ''weights and prices must have identical valid shapes''),
       (\<not> isfinite capital \<or> not_positive capital, value_error ''capital must be finite and positive''),
       (\<not> isfinite max_gross \<or> not_positive max_gross, value_error ''max_gross must be finite and positive'')]) (\<lambda>_.
     bindr (case multipliers of None \<Rightarrow> Inr (map (\<lambda>_. F 1) ps)
       | Some m \<Rightarrow> finite_vector ''contract_multipliers'' m) (\<lambda>ms.
     bindr (checks [
       (length ms \<noteq> length ps \<or> list_ex not_positive ms,
          value_error ''contract_multipliers must match prices and be positive''),
       (flt (fadd max_gross tolerance) (nsum (map fabs ws)), value_error ''initial gross exposure exceeds max_gross'')]) (\<lambda>_.
     bindr (rewrap (\<lambda>_. value_error ''nonzero weighted position cannot be represented'')
       (mapr (\<lambda>(w, p, m). target_quantity_from_weight w capital p m) (zip ws (zip ps ms)))) (\<lambda>quantities.
     let values = vmul (vmul quantities ps) ms;
         cash = fsub capital (nsum values);
         peak = (case peak_value of None \<Rightarrow> capital | Some p \<Rightarrow> p) in
     bindr (checks [
       (list_ex (\<lambda>(w, v). \<not> fzero w \<and> bad_number v) (zip ws values),
          value_error ''nonzero weighted position cannot be represented''),
       (flt peak capital, value_error ''peak_value cannot be below capital'')]) (\<lambda>_.
     account_post_init nsum (Some ms) None
       \<lparr>bs_quantities = quantities, bs_cash = cash, bs_marks = ps, bs_peak = peak, bs_multipliers = [],
        bs_max_drawdown = F 0, bs_turnover = F 0, bs_total_cost = F 0, bs_funding_pnl = F 0,
        bs_fill_count = 0, bs_rebalances = 0, bs_returns = [], bs_borrow_cost = F 0, bs_margin_used = F 0,
        bs_maintenance_margin = F 0, bs_maintenance_requirement = F 0, bs_margin_deficit = F 0,
        bs_insolvent = False, bs_termination = None, bs_exact = []\<rparr>)))))))"

section \<open>Valid books\<close>

definition exact_view :: "string \<Rightarrow> f64 \<Rightarrow> bool" where
  "exact_view s q \<longleftrightarrow> (\<exists>v p. s = fraction_str v \<and> project_quantity v = Inr p \<and> feq p q)"

definition exact_value :: "string \<Rightarrow> rat" where
  "exact_value s = (case parse_fraction s of Some q \<Rightarrow> q | None \<Rightarrow> 0)"

definition exact_values :: "book \<Rightarrow> rat list" where
  "exact_values b = map exact_value (bs_exact b)"

lemma exact_value_str [simp]: "exact_value (fraction_str q) = q"
  by (simp add: exact_value_def parse_fraction_str)

lemma exact_values_str: "map exact_value (map fraction_str qs) = qs"
  by (simp add: comp_def)

text \<open>The vectors of a book fit together, and its exact strings are those its floats report.\<close>

definition book_shape :: "book \<Rightarrow> bool" where
  "book_shape b \<longleftrightarrow> bs_quantities b \<noteq> [] \<and> all_finite (bs_quantities b) \<and>
     length (bs_marks b) = length (bs_quantities b) \<and> length (bs_multipliers b) = length (bs_quantities b) \<and>
     all_finite (bs_marks b) \<and> \<not> list_ex not_positive (bs_marks b) \<and>
     \<not> list_ex not_positive (bs_multipliers b) \<and> list_all2 exact_view (bs_exact b) (bs_quantities b)"

definition equity_ok :: "(f64 list \<Rightarrow> f64) \<Rightarrow> book \<Rightarrow> bool" where
  "equity_ok nsum b \<longleftrightarrow>
     proposed_equity nsum (bs_cash b) (bs_quantities b) (bs_marks b) (bs_multipliers b) = Inr (portfolio_value nsum b)"

definition solvent_or_stopped :: "(f64 list \<Rightarrow> f64) \<Rightarrow> book \<Rightarrow> bool" where
  "solvent_or_stopped nsum b \<longleftrightarrow> bs_insolvent b \<or> \<not> not_positive (portfolio_value nsum b)"

definition book_valid :: "(f64 list \<Rightarrow> f64) \<Rightarrow> book \<Rightarrow> bool" where
  "book_valid nsum b \<longleftrightarrow> book_shape b \<and> equity_ok nsum b \<and> solvent_or_stopped nsum b"

lemma proposed_equity_Inr: "proposed_equity nsum cash q m k = Inr e \<longleftrightarrow>
    e = fadd cash (nsum (vmul (vmul q m) k)) \<and> all_finite (vmul (vmul q m) k) \<and> isfinite cash \<and> isfinite e \<and>
    \<not> list_ex (\<lambda>(x, v). \<not> fzero x \<and> fzero v) (zip q (vmul (vmul q m) k))"
  by (auto simp: proposed_equity_def Let_def res_iff)

lemma equity_okI:
  "proposed_equity nsum (bs_cash b) (bs_quantities b) (bs_marks b) (bs_multipliers b) = Inr e \<Longrightarrow> equity_ok nsum b"
  by (auto simp: equity_ok_def portfolio_value_def position_values_def proposed_equity_Inr)

lemma refresh_Inr [res_iff]: "refresh nsum b = Inr c \<longleftrightarrow> isfinite (portfolio_value nsum b) \<and>
    c = (if not_positive (portfolio_value nsum b) \<and> \<not> bs_insolvent b then terminate INSOLVENCY b else b)"
  by (auto simp: refresh_def Let_def)

lemma terminate_simps [simp]:
  "bs_quantities (terminate r b) = bs_quantities b" "bs_cash (terminate r b) = bs_cash b"
  "bs_marks (terminate r b) = bs_marks b" "bs_multipliers (terminate r b) = bs_multipliers b"
  "bs_exact (terminate r b) = bs_exact b" "bs_insolvent (terminate r b)"
  "bs_fill_count (terminate r b) = bs_fill_count b" "bs_returns (terminate r b) = bs_returns b"
  "portfolio_value nsum (terminate r b) = portfolio_value nsum b" "bs_peak (terminate r b) = bs_peak b"
  "bs_max_drawdown (terminate r b) = bs_max_drawdown b" "bs_funding_pnl (terminate r b) = bs_funding_pnl b"
  "bs_total_cost (terminate r b) = bs_total_cost b"
  by (simp_all add: terminate_def portfolio_value_def position_values_def)

text \<open>Updates that leave the vectors and the cash alone.\<close>

definition same_position :: "book \<Rightarrow> book \<Rightarrow> bool" where
  "same_position b c \<longleftrightarrow> bs_quantities c = bs_quantities b \<and> bs_cash c = bs_cash b \<and> bs_marks c = bs_marks b \<and>
     bs_multipliers c = bs_multipliers b \<and> bs_exact c = bs_exact b \<and> (bs_insolvent b \<longrightarrow> bs_insolvent c)"

lemma same_position_value: "same_position b c \<Longrightarrow> portfolio_value nsum c = portfolio_value nsum b"
  by (simp add: same_position_def portfolio_value_def position_values_def)

lemma same_position_valid: "same_position b c \<Longrightarrow> book_valid nsum b \<Longrightarrow> book_valid nsum c"
  using same_position_value [of b c nsum]
  by (auto simp: book_valid_def book_shape_def equity_ok_def solvent_or_stopped_def same_position_def)

lemma update_drawdown_same: "same_position b (update_drawdown nsum u b)"
  by (simp add: same_position_def update_drawdown_def Let_def)

lemma refresh_same: "refresh nsum b = Inr c \<Longrightarrow> same_position b c"
  by (auto simp: refresh_Inr same_position_def)

lemma refresh_valid:
  assumes "refresh nsum b = Inr c" and "book_shape b" and "equity_ok nsum b"
  shows "book_valid nsum c"
  using assms same_position_value [OF refresh_same [OF assms(1)], of nsum]
  by (auto simp: refresh_Inr book_valid_def book_shape_def equity_ok_def solvent_or_stopped_def)

lemma quantity_value_view:
  "exact_view s q \<Longrightarrow> quantity_value (s, q) = Inr (exact_value s) \<and> fraction_str (exact_value s) = s"
  by (auto simp: exact_view_def quantity_value_def res_iff)

lemma mapr_views:
  "list_all2 exact_view ss qs \<Longrightarrow>
     mapr quantity_value (zip ss qs) = Inr (map exact_value ss) \<and> map fraction_str (map exact_value ss) = ss"
  by (induction rule: list_all2_induct) (simp_all add: quantity_value_view)

lemma quantity_values_shape:
  assumes "book_shape b" shows "quantity_values b = Inr (exact_values b, b)"
proof -
  have "list_all2 exact_view (bs_exact b) (bs_quantities b)" using assms by (simp add: book_shape_def)
  then show ?thesis using mapr_views list_all2_lengthD
    by (fastforce simp: quantity_values_def exact_values_def)
qed

lemma mapr_project_views:
  "mapr project_quantity vs = Inr qs \<Longrightarrow> list_all2 exact_view (map fraction_str vs) qs \<and> all_finite qs \<and>
     length qs = length vs"
proof (induction vs arbitrary: qs)
  case (Cons v vs)
  then obtain p ps where "qs = p # ps" "project_quantity v = Inr p" "mapr project_quantity vs = Inr ps"
    by (auto simp: res_iff)
  then show ?case using Cons.IH project_quantity_f64 [of v p]
    by (auto simp: exact_view_def all_finite_def)
qed (auto simp: all_finite_def)

text \<open>Replacing quantities, cash and marks after the proposed equity was checked gives a valid book.\<close>

lemma replaced_valid:
  assumes "book_shape b"
    and p: "mapr project_quantity vs = Inr qs" and n: "length vs = length (bs_quantities b)"
    and m: "length ms = length (bs_quantities b)" "all_finite ms" "\<not> list_ex not_positive ms"
    and e: "proposed_equity nsum cash qs ms (bs_multipliers b) = Inr v"
    and c: "bs_quantities c = qs" "bs_exact c = map fraction_str vs" "bs_cash c = cash" "bs_marks c = ms"
      "bs_multipliers c = bs_multipliers b" and r: "refresh nsum c = Inr d"
  shows "book_valid nsum d"
proof -
  note q = mapr_project_views [OF p]
  have "book_shape c" using assms(1) q n m c by (auto simp: book_shape_def)
  moreover have "equity_ok nsum c" using e by (intro equity_okI) (simp add: c)
  ultimately show ?thesis by (rule refresh_valid [OF r])
qed

text \<open>Changing cash and marks only.\<close>

lemma recash_valid:
  assumes "book_shape b"
    and m: "length ms = length (bs_quantities b)" "all_finite ms" "\<not> list_ex not_positive ms"
    and e: "proposed_equity nsum cash (bs_quantities b) ms (bs_multipliers b) = Inr v"
    and c: "bs_quantities c = bs_quantities b" "bs_exact c = bs_exact b" "bs_cash c = cash" "bs_marks c = ms"
      "bs_multipliers c = bs_multipliers b" and r: "refresh nsum c = Inr d"
  shows "book_valid nsum d"
proof -
  have "book_shape c" using assms(1) m c by (auto simp: book_shape_def)
  moreover have "equity_ok nsum c" using e by (intro equity_okI) (simp add: c)
  ultimately show ?thesis by (rule refresh_valid [OF r])
qed

lemma finite_vector_Inr [res_iff]: "finite_vector n v = Inr w \<longleftrightarrow> w = v \<and> v \<noteq> [] \<and> all_finite v"
  by (auto simp: finite_vector_def)

lemma mapr_len: "mapr f xs = Inr ys \<Longrightarrow> length ys = length xs"
  by (rule mapr_length)

lemma book_shape_facts:
  assumes "book_shape b"
  shows "length (bs_exact b) = length (bs_quantities b)" "length (exact_values b) = length (bs_quantities b)"
    "length (bs_marks b) = length (bs_quantities b)" "all_finite (bs_marks b)" "\<not> list_ex not_positive (bs_marks b)"
  using assms by (auto simp: book_shape_def exact_values_def dest: list_all2_lengthD)

lemma split_valid:
  assumes "book_shape b" and "apply_split nsum f b = Inr c"
  shows "book_valid nsum c \<and> exact_values c = map2 (*) (exact_values b) (map dec_of_float f) \<and>
    (bs_insolvent b \<longrightarrow> bs_insolvent c)"
proof -
  have ex: "mapr exact_quantity f = Inr gs \<Longrightarrow> gs = map dec_of_float f" for gs
    by (induction f arbitrary: gs) (auto simp: res_iff)
  obtain gs qs d v where g: "mapr exact_quantity f = Inr gs" "length f = length (bs_quantities b)"
    and q: "mapr project_quantity (map2 (*) (exact_values b) gs) = Inr qs"
    and m: "all_finite (vdiv (bs_marks b) f)" "\<not> list_ex not_positive (vdiv (bs_marks b) f)"
    and e: "proposed_equity nsum (bs_cash b) qs (vdiv (bs_marks b) f) (bs_multipliers b) = Inr v"
    and r: "refresh nsum (set_quantity_values (map2 (*) (exact_values b) gs) qs b\<lparr>bs_marks := vdiv (bs_marks b) f\<rparr>) = Inr c"
    using assms(2) by (auto simp: apply_split_def bindr_Inr finite_vector_Inr quantity_values_shape [OF assms(1)] Let_def)
  note n = book_shape_facts [OF assms(1)]
  have l: "length gs = length f" using g(1) by (rule mapr_len)
  have "book_valid nsum c"
    by (rule replaced_valid [OF assms(1) q _ _ m e _ _ _ _ _ r])
      (simp_all add: set_quantity_values_def n l g vdiv_def)
  moreover have "exact_values c = map2 (*) (exact_values b) gs" "bs_insolvent b \<longrightarrow> bs_insolvent c"
    using refresh_same [OF r] by (simp_all add: same_position_def exact_values_def set_quantity_values_def comp_def)
  ultimately show ?thesis using ex [OF g(1)] by simp
qed

lemma dividend_valid:
  assumes "book_shape b" and "apply_dividend nsum ndot dv b = Inr (amount, c)"
  shows "book_valid nsum c \<and> bs_cash c = fadd (bs_cash b) amount \<and> bs_exact c = bs_exact b \<and>
    (bs_insolvent b \<longrightarrow> bs_insolvent c)"
proof -
  let ?d = "b\<lparr>bs_cash := fadd (bs_cash b) amount\<rparr>"
  obtain v where e: "proposed_equity nsum (fadd (bs_cash b) amount) (bs_quantities b) (bs_marks b) (bs_multipliers b) = Inr v"
    and r: "refresh nsum ?d = Inr c"
    using assms(2) by (auto simp: apply_dividend_def bindr_Inr Let_def)
  have "book_valid nsum c"
    by (rule recash_valid [OF assms(1) _ _ _ e _ _ _ _ _ r]) (simp_all add: book_shape_facts [OF assms(1)])
  then show ?thesis using refresh_same [OF r] by (simp add: same_position_def)
qed

lemma interest_valid:
  assumes "book_shape b" and "apply_cash_interest nsum rate periods fraction b = Inr (amount, c)"
  shows "book_valid nsum c \<and> bs_cash c = fadd (bs_cash b) amount \<and> bs_exact c = bs_exact b \<and>
    (bs_insolvent b \<longrightarrow> bs_insolvent c)"
proof -
  let ?d = "b\<lparr>bs_cash := fadd (bs_cash b) amount\<rparr>"
  obtain v where e: "proposed_equity nsum (fadd (bs_cash b) amount) (bs_quantities b) (bs_marks b) (bs_multipliers b) = Inr v"
    and r: "refresh nsum ?d = Inr c"
    using assms(2) by (auto simp: apply_cash_interest_def bindr_Inr Let_def)
  have "book_valid nsum c"
    by (rule recash_valid [OF assms(1) _ _ _ e _ _ _ _ _ r]) (simp_all add: book_shape_facts [OF assms(1)])
  then show ?thesis using refresh_same [OF r] by (simp add: same_position_def)
qed

lemma settle_valid:
  assumes "book_shape b" and "settle_positions nsum sel prices recovery b = Inr (proceeds, c)"
  shows "book_valid nsum c \<and> bs_cash c = fadd (bs_cash b) proceeds \<and>
    exact_values c = map2 (\<lambda>v settle. if settle then 0 else v) (exact_values b) sel \<and>
    (bs_insolvent b \<longrightarrow> bs_insolvent c)"
proof -
  let ?after = "map2 (\<lambda>v settle. if settle then 0 else v) (exact_values b) sel"
  obtain qs v d where n: "length sel = length (bs_quantities b)" "length prices = length (bs_quantities b)"
      "all_finite prices" "\<not> list_ex not_positive prices"
    and q: "mapr project_quantity ?after = Inr qs"
    and e: "proposed_equity nsum (fadd (bs_cash b) proceeds) qs prices (bs_multipliers b) = Inr v"
    and r: "refresh nsum (set_quantity_values ?after qs (b\<lparr>bs_cash := fadd (bs_cash b) proceeds\<rparr>)\<lparr>bs_marks := prices\<rparr>) = Inr d"
    and c: "c = update_drawdown nsum False d"
    using assms(2)
    by (auto simp: settle_positions_def bindr_Inr finite_vector_Inr quantity_values_shape [OF assms(1)] Let_def)
  have "book_valid nsum d"
    by (rule replaced_valid [OF assms(1) q _ n(2,3,4) e _ _ _ _ _ r])
      (simp_all add: set_quantity_values_def n book_shape_facts [OF assms(1)])
  then have "book_valid nsum c" unfolding c by (rule same_position_valid [OF update_drawdown_same])
  moreover have "bs_exact c = map fraction_str ?after" "bs_cash c = fadd (bs_cash b) proceeds" "bs_insolvent b \<longrightarrow> bs_insolvent c"
    using refresh_same [OF r] update_drawdown_same [of d nsum False]
    by (simp_all add: same_position_def set_quantity_values_def c)
  ultimately show ?thesis by (simp add: exact_values_def comp_def)
qed

lemma set_margin_valid:
  assumes "book_valid nsum b" and "set_margin nsum used margin req b = Inr c"
  shows "book_valid nsum c \<and> same_position b c"
proof -
  have "same_position b c"
    using assms(2) by (auto simp: set_margin_def bindr_Inr Let_def same_position_def terminate_def split: if_splits)
  then show ?thesis using same_position_valid assms(1) by blast
qed

lemma revalue_valid:
  assumes "book_shape b" and "revalue nsum marks b = Inr c"
  shows "book_valid nsum c \<and> bs_marks c = marks \<and> bs_cash c = bs_cash b \<and> bs_exact c = bs_exact b \<and>
    bs_quantities c = bs_quantities b \<and> (bs_insolvent b \<longrightarrow> bs_insolvent c)"
proof -
  let ?d = "b\<lparr>bs_marks := marks\<rparr>"
  obtain v where m: "length marks = length (bs_quantities b)" "all_finite marks" "\<not> list_ex not_positive marks"
    and e: "proposed_equity nsum (bs_cash b) (bs_quantities b) marks (bs_multipliers b) = Inr v"
    and r: "refresh nsum ?d = Inr c"
    using assms(2) by (auto simp: revalue_def book_marks_def bindr_Inr finite_vector_Inr)
  have "book_valid nsum c" by (rule recash_valid [OF assms(1) m e _ _ _ _ _ r]) simp_all
  then show ?thesis using refresh_same [OF r] by (simp add: same_position_def)
qed

lemma record_execution_Inr:
  assumes "record_execution nsum prices targets delta cost turnover valuation b = Inr c"
  obtains qs ms notional v d e where "mapr project_quantity targets = Inr qs"
    "length ms = length (bs_quantities b)" "all_finite ms" "\<not> list_ex not_positive ms"
    "length qs = length (bs_quantities b)" "signed_notional delta prices (bs_multipliers b) = Inr notional"
    "proposed_equity nsum (fsub (bs_cash b) (fadd notional cost)) qs ms (bs_multipliers b) = Inr v"
    "refresh nsum d = Inr e" "c = update_drawdown nsum False e"
    "bs_quantities d = qs" "bs_exact d = map fraction_str targets"
    "bs_cash d = fsub (bs_cash b) (fadd notional cost)" "bs_marks d = ms" "bs_multipliers d = bs_multipliers b"
    "bs_insolvent d \<longleftrightarrow> bs_insolvent b \<or> fle (fsub (fmax (portfolio_value nsum b) (F 0)) tolerance) cost"
    "bs_total_cost d = fadd (bs_total_cost b) cost" "bs_fill_count d = bs_fill_count b + count_filled delta"
    "\<not> flt cost (F 0)" "isfinite cost" "\<not> list_ex not_positive prices"
proof -
  let ?c = "\<lambda>qs ms notional. executed_book qs targets ms (fsub (bs_cash b) (fadd notional cost))
    (fadd (bs_turnover b) turnover) (fadd (bs_total_cost b) cost) (count_filled delta) b"
  let ?d = "\<lambda>qs ms notional. if fle (fsub (fmax (portfolio_value nsum b) (F 0)) tolerance) cost
    then terminate EXECUTION_COST_EXHAUSTION (?c qs ms notional) else ?c qs ms notional"
  obtain qs ms notional v e where q: "mapr project_quantity targets = Inr qs"
    and ch: "execution_checks b prices qs = Inr ()" "amount_checks prices ms cost turnover = Inr ()"
    and em: "execution_marks prices valuation = Inr ms" and pr: "all_finite prices"
    and n: "signed_notional delta prices (bs_multipliers b) = Inr notional"
    and pe: "proposed_equity nsum (fsub (bs_cash b) (fadd notional cost)) qs ms (bs_multipliers b) = Inr v"
    and e: "refresh nsum (?d qs ms notional) = Inr e" and c: "c = update_drawdown nsum False e"
    using assms unfolding record_execution_def Let_def bindr_Inr finite_vector_Inr by (auto split del: if_split)
  have m: "all_finite ms" using em pr by (auto simp: execution_marks_def finite_vector_Inr split: option.splits)
  have l: "length qs = length (bs_quantities b)" "length ms = length (bs_quantities b)"
    "\<not> list_ex not_positive ms" "\<not> flt cost (F 0)" "isfinite cost" "\<not> list_ex not_positive prices"
    using ch by (simp_all add: execution_checks_def amount_checks_def)
  show thesis
    by (rule that [OF q l(2) m l(3,1) n pe e c])
      (use l in \<open>simp_all add: executed_book_def terminate_def\<close>)
qed

lemma record_execution_valid:
  assumes "book_shape b" and "length targets = length (bs_quantities b)"
    and "record_execution nsum prices targets delta cost turnover valuation b = Inr c"
  shows "book_valid nsum c \<and> exact_values c = targets \<and> (bs_insolvent b \<longrightarrow> bs_insolvent c) \<and>
    (\<exists>notional. signed_notional delta prices (bs_multipliers b) = Inr notional \<and>
       bs_cash c = fsub (bs_cash b) (fadd notional cost))"
  using assms(3)
proof (rule record_execution_Inr, goal_cases)
  case (1 qs ms notional v d e)
  have e: "book_valid nsum e"
    by (rule replaced_valid [OF assms(1) 1(1) assms(2) 1(2,3,4) 1(7) 1(10,11,12,13,14) 1(8)])
  have "same_position e c" unfolding 1(9) by (rule update_drawdown_same)
  then show ?case using same_position_valid [OF _ e] refresh_same [OF 1(8)] 1
    by (auto simp: same_position_def exact_values_def comp_def)
qed

lemma execute_fill_Inr:
  assumes "book_shape b"
    and "execute_fill nsum symbol quantity prices cost turnover lot lots valuation b = Inr c"
  obtains accepted where "0 \<le> symbol" "symbol < int (length (bs_quantities b))"
    "accepted_delta quantity lot lots (exact_values b ! nat symbol) = Inr accepted"
    "record_execution nsum prices ((exact_values b)[nat symbol := exact_values b ! nat symbol + accepted])
      ((replicate (length (bs_quantities b)) 0)[nat symbol := accepted]) cost turnover valuation b = Inr c"
  using assms(2) by (auto simp: execute_fill_def Let_def bindr_Inr quantity_values_shape [OF assms(1)])

lemma execute_fill_valid:
  assumes "book_shape b"
    and "execute_fill nsum symbol quantity prices cost turnover lot lots valuation b = Inr c"
  shows "book_valid nsum c \<and> (bs_insolvent b \<longrightarrow> bs_insolvent c)"
  using assms(2)
proof (rule execute_fill_Inr [OF assms(1)], goal_cases)
  case (1 accepted)
  then show ?case using record_execution_valid [OF assms(1) _ 1(4)] book_shape_facts(2) [OF assms(1)] by simp
qed

lemma execute_valid:
  assumes "book_shape b" and "execute nsum prices targets cost turnover keep b = Inr c"
  shows "book_valid nsum c \<and> (bs_insolvent b \<longrightarrow> bs_insolvent c)"
proof -
  obtain ts where n: "length targets = length (bs_quantities b)"
    and t: "mapr (\<lambda>(target, current, previous).
         if keep \<and> feq target current then Inr previous else exact_quantity target)
       (zip targets (zip (bs_quantities b) (exact_values b))) = Inr ts"
    and r: "record_execution nsum prices ts (map2 (-) ts (exact_values b)) cost turnover None b = Inr c"
    using assms(2) by (auto simp: execute_def bindr_Inr finite_vector_Inr quantity_values_shape [OF assms(1)])
  have "length ts = length (bs_quantities b)"
    using mapr_len [OF t] n book_shape_facts(2) [OF assms(1)] by simp
  then show ?thesis using record_execution_valid [OF assms(1) _ r] by blast
qed

lemma charge_borrow_valid:
  assumes "book_shape b" and "charge_borrow nsum amount b = Inr c"
  shows "book_valid nsum c \<and> bs_cash c = fsub (bs_cash b) amount \<and> bs_exact c = bs_exact b \<and>
    (bs_insolvent b \<longrightarrow> bs_insolvent c)"
proof -
  let ?d = "b\<lparr>bs_cash := fsub (bs_cash b) amount, bs_borrow_cost := fadd (bs_borrow_cost b) amount\<rparr>"
  obtain v where e: "proposed_equity nsum (fsub (bs_cash b) amount) (bs_quantities b) (bs_marks b) (bs_multipliers b) = Inr v"
    and r: "refresh nsum ?d = Inr c"
    using assms(2) by (auto simp: charge_borrow_def bindr_Inr Let_def)
  have "book_valid nsum c"
    by (rule recash_valid [OF assms(1) _ _ _ e _ _ _ _ _ r]) (simp_all add: book_shape_facts [OF assms(1)])
  then show ?thesis using refresh_same [OF r] by (simp add: same_position_def)
qed

lemma mark_to_market_valid:
  assumes "book_shape b" and "mark_to_market nsum marks funding start unbounded b = Inr (ret, c)"
  shows "book_valid nsum c \<and> bs_cash c = fadd (bs_cash b) funding \<and> bs_exact c = bs_exact b \<and>
    bs_returns c = bs_returns b @ [ret] \<and> (bs_insolvent b \<longrightarrow> bs_insolvent c)"
proof -
  let ?b = "b\<lparr>bs_cash := fadd (bs_cash b) funding\<rparr>"
  obtain d where r: "revalue nsum marks ?b = Inr d"
    and c: "c = (update_drawdown nsum unbounded d)
      \<lparr>bs_funding_pnl := fadd (bs_funding_pnl b) funding, bs_returns := bs_returns (update_drawdown nsum unbounded d) @ [ret]\<rparr>"
    using assms(2) by (auto simp: mark_to_market_def book_marks_def finite_vector_Inr bindr_Inr Let_def)
  have "book_shape ?b" using assms(1) by (simp add: book_shape_def)
  note d = revalue_valid [OF this r]
  have "same_position d c" using update_drawdown_same [of d nsum unbounded] by (simp add: same_position_def c)
  moreover have "bs_returns d = bs_returns b"
    using r by (auto simp: revalue_def bindr_Inr refresh_Inr terminate_def)
  ultimately show ?thesis using d same_position_valid [of d c nsum]
    by (auto simp: same_position_def) (simp_all add: c update_drawdown_def Let_def)
qed

lemma exact_strings_views:
  "exact_strings ex qs = Inr ss \<Longrightarrow> list_all is_f64 qs \<Longrightarrow> all_finite qs \<Longrightarrow> list_all2 exact_view ss qs"
proof (cases ex)
  case None
  assume "exact_strings ex qs = Inr ss" "list_all is_f64 qs" "all_finite qs"
  moreover have "mapr exact_quantity qs = Inr vs \<Longrightarrow> list_all is_f64 qs \<Longrightarrow>
      list_all2 exact_view (map fraction_str vs) qs" for vs
  proof (induction qs arbitrary: vs)
    case (Cons q qs)
    then obtain ws where q: "isfinite q" "vs = dec_of_float q # ws" "mapr exact_quantity qs = Inr ws"
      by (auto simp: res_iff)
    have "\<exists>p. project_quantity (dec_of_float q) = Inr p \<and> feq p q"
      using project_dec_of_float [of q] Cons.prems(2) q(1) by (cases "q = NegZero") auto
    then show ?case using Cons q by (auto simp: exact_view_def)
  qed simp
  ultimately show ?thesis using None by (auto simp: exact_strings_def res_iff)
next
  case (Some ts)
  assume h: "exact_strings ex qs = Inr ss"
  then have l: "length ss = length qs" "ss = ts"
    and a: "any_res (\<lambda>p. bindr (exact_agrees p) (\<lambda>ok. Inr (\<not> ok))) (zip ts qs) = Inr False"
    using Some by (auto simp: exact_strings_def res_iff split: if_splits)
  have "exact_view (ss ! i) (qs ! i)" if "i < length ss" for i
  proof -
    have "(ss ! i, qs ! i) \<in> set (zip ts qs)" using that l by (auto simp: in_set_zip)
    then show ?thesis using a unfolding any_res_False
      by (fastforce simp: exact_agrees_def exact_view_def res_iff)
  qed
  then show ?thesis using l(1) by (simp add: list_all2_conv_all_nth)
qed

lemma post_init_valid:
  assumes "account_post_init nsum mults ex b = Inr c" and f: "list_all is_f64 (bs_quantities b)"
  shows "book_valid nsum c"
proof -
  obtain ms ss v where q: "bs_quantities b \<noteq> []" "all_finite (bs_quantities b)" "all_finite (bs_marks b)"
      "length (bs_quantities b) = length (bs_marks b)"
    and ch: "book_field_checks (bs_quantities b) (bs_marks b) ms b = Inr ()"
    and e: "proposed_equity nsum (bs_cash b) (bs_quantities b) (bs_marks b) ms = Inr v"
    and s: "exact_strings ex (bs_quantities b) = Inr ss"
    and r: "refresh nsum (b\<lparr>bs_multipliers := ms, bs_exact := ss\<rparr>) = Inr c"
    using assms(1) by (auto simp: account_post_init_def bindr_Inr finite_vector_Inr Let_def split: if_splits)
  have "book_shape (b\<lparr>bs_multipliers := ms, bs_exact := ss\<rparr>)"
    using q ch exact_strings_views [OF s f q(2)] by (simp add: book_shape_def book_field_checks_def Let_def)
  moreover have "equity_ok nsum (b\<lparr>bs_multipliers := ms, bs_exact := ss\<rparr>)"
    using e by (intro equity_okI) simp
  ultimately show ?thesis by (rule refresh_valid [OF r])
qed

section \<open>The account as a state machine\<close>

inductive account_step ::
  "(f64 list \<Rightarrow> f64) \<Rightarrow> (f64 list \<Rightarrow> f64 list \<Rightarrow> f64) \<Rightarrow> book \<Rightarrow> book \<Rightarrow> bool" for nsum ndot where
  split: "apply_split nsum f b = Inr c \<Longrightarrow> account_step nsum ndot b c"
| dividend: "apply_dividend nsum ndot dv b = Inr (x, c) \<Longrightarrow> account_step nsum ndot b c"
| interest: "apply_cash_interest nsum r p y b = Inr (x, c) \<Longrightarrow> account_step nsum ndot b c"
| settle: "settle_positions nsum sel ps rs b = Inr (x, c) \<Longrightarrow> account_step nsum ndot b c"
| margin: "set_margin nsum u m q b = Inr c \<Longrightarrow> account_step nsum ndot b c"
| stop: "account_step nsum ndot b (terminate reason b)"
| revalue: "revalue nsum ms b = Inr c \<Longrightarrow> account_step nsum ndot b c"
| execute: "execute nsum ps ts cost t keep b = Inr c \<Longrightarrow> account_step nsum ndot b c"
| fill: "execute_fill nsum i x ps cost t lot lots vp b = Inr c \<Longrightarrow> account_step nsum ndot b c"
| borrow: "charge_borrow nsum x b = Inr c \<Longrightarrow> account_step nsum ndot b c"
| mark: "mark_to_market nsum ms fa start u b = Inr (x, c) \<Longrightarrow> account_step nsum ndot b c"
| drawdown: "account_step nsum ndot b (update_drawdown nsum u b)"

inductive account_reachable ::
  "(f64 list \<Rightarrow> f64) \<Rightarrow> (f64 list \<Rightarrow> f64 list \<Rightarrow> f64) \<Rightarrow> book \<Rightarrow> bool" for nsum ndot where
  opened: "account_post_init nsum mults ex b = Inr c \<Longrightarrow> list_all is_f64 (bs_quantities b) \<Longrightarrow>
    account_reachable nsum ndot c"
| step: "account_reachable nsum ndot b \<Longrightarrow> account_step nsum ndot b c \<Longrightarrow> account_reachable nsum ndot c"

lemma terminate_same: "same_position b (terminate r b)"
  by (simp add: same_position_def)

lemma account_step_valid:
  assumes "account_step nsum ndot b c" and v: "book_valid nsum b"
  shows "book_valid nsum c \<and> (bs_insolvent b \<longrightarrow> bs_insolvent c)"
proof -
  have sh: "book_shape b" using v by (simp add: book_valid_def)
  have same: "same_position b d \<Longrightarrow> book_valid nsum d \<and> (bs_insolvent b \<longrightarrow> bs_insolvent d)" for d
    using same_position_valid [of b d nsum] v by (simp add: same_position_def)
  from assms(1) show ?thesis
  proof cases
    case margin
    then show ?thesis using set_margin_valid [OF v] same by blast
  next
    case stop
    then show ?thesis using same [OF terminate_same] by simp
  next
    case drawdown
    then show ?thesis using same [OF update_drawdown_same] by simp
  next
    case split
    from split_valid [OF sh this] show ?thesis by simp
  next
    case dividend
    from dividend_valid [OF sh this] show ?thesis by simp
  next
    case interest
    from interest_valid [OF sh this] show ?thesis by simp
  next
    case settle
    from settle_valid [OF sh this] show ?thesis by simp
  next
    case revalue
    from revalue_valid [OF sh this] show ?thesis by simp
  next
    case execute
    from execute_valid [OF sh this] show ?thesis by simp
  next
    case fill
    from execute_fill_valid [OF sh this] show ?thesis by simp
  next
    case borrow
    from charge_borrow_valid [OF sh this] show ?thesis by simp
  next
    case mark
    from mark_to_market_valid [OF sh this] show ?thesis by simp
  qed
qed

lemma account_reachable_valid: "account_reachable nsum ndot b \<Longrightarrow> book_valid nsum b"
  by (induction rule: account_reachable.induct) (auto dest: post_init_valid account_step_valid)

end
