(* ===== verification/Reconciliation.thy ===== *)
theory Reconciliation
  imports Admission Accounting "HOL-Library.Product_Lexorder"
begin

text \<open>
  \<open>trade_rl/simulation/orders/reconciliation.py\<close>: from target weights to order intents.  The
  loop over the symbols threads the order book, the cancelled orders, the new intents, and the two
  vectors of the result; \<open>reconcile_symbol\<close> is its body and \<open>new_id\<close> the identity that the
  allocator gives the next archive node.
\<close>

abbreviation reconciliation_error :: "string \<Rightarrow> exc" where
  "reconciliation_error m \<equiv> Raise OrderReconciliationError m"

section \<open>Order prices\<close>

definition type_prices ::
  "order_type \<Rightarrow> f64 \<Rightarrow> f64 \<Rightarrow> f64 \<Rightarrow> f64 \<Rightarrow> (f64 option \<times> f64 option) res" where
  "type_prices order_type quantity reference_price offset_rate tick_size =
    (let buy = flt (F 0) quantity;
         snap = (\<lambda>factor round_up. rewrap reconciliation_error
           (snap_price_to_tick (fmul reference_price factor) tick_size round_up))
     in case order_type of
       MARKET \<Rightarrow> Inr (None, None)
     | LIMIT \<Rightarrow> bindr (snap (if buy then fsub (F 1) offset_rate else fadd (F 1) offset_rate) (\<not> buy))
         (\<lambda>p. Inr (Some p, None))
     | STOP_MARKET \<Rightarrow> bindr (snap (if buy then fadd (F 1) offset_rate else fsub (F 1) offset_rate) buy)
         (\<lambda>p. Inr (None, Some p)))"

section \<open>Inputs\<close>

record reconciliation_inputs =
  ri_dataset_id :: string
  ri_target_identity :: string
  ri_digest :: string
  ri_weights :: "f64 list"
  ri_reference_prices :: "f64 list"
  ri_decision_equity :: f64
  ri_submit_index :: int
  ri_latency_bars :: int
  ri_order_type :: order_type
  ri_time_in_force :: time_in_force
  ri_expiry_index :: "int option"
  ri_offset_rate :: f64
  ri_tick_sizes :: "f64 list option"
  ri_maximum_gross :: f64
  ri_reduce_only_symbols :: "int list option"
  ri_hold_symbols :: "int list"
  ri_valuation_prices :: "f64 list option"

record reconciliation_result =
  rr_order_book :: order_book
  rr_new_intents :: "order_intent list"
  rr_cancelled :: "pending_order list"
  rr_desired :: "f64 list"
  rr_residuals :: "f64 list"

definition ri_eligible_index :: "reconciliation_inputs \<Rightarrow> int" where
  "ri_eligible_index r = ri_submit_index r + ri_latency_bars r"

definition ri_sizing_prices :: "reconciliation_inputs \<Rightarrow> f64 list" where
  "ri_sizing_prices r = (case ri_valuation_prices r of None \<Rightarrow> ri_reference_prices r | Some v \<Rightarrow> v)"

definition ri_ticks :: "reconciliation_inputs \<Rightarrow> f64 list" where
  "ri_ticks r = (case ri_tick_sizes r of None \<Rightarrow> map (\<lambda>_. F 0) (ri_reference_prices r) | Some t \<Rightarrow> t)"

definition validate_reconciliation_digest :: "string \<Rightarrow> unit res" where
  "validate_reconciliation_digest d =
     bindr (rewrap reconciliation_error (require_sha256 ''execution_policy_digest'' d)) (\<lambda>_. Inr ())"

definition scalar_checks :: "reconciliation_inputs \<Rightarrow> unit res" where
  "scalar_checks r =
     bindr (checks [
       (ri_dataset_id r = [], reconciliation_error ''dataset_id must be non-empty''),
       (ri_target_identity r = [], reconciliation_error ''target_identity must be non-empty'')]) (\<lambda>_.
     bindr (validate_reconciliation_digest (ri_digest r)) (\<lambda>_.
     checks [
       (ri_submit_index r < 0, reconciliation_error ''submit_index must be a non-negative integer''),
       (ri_latency_bars r < 0, reconciliation_error ''latency_bars must be a non-negative integer''),
       (\<not> isfinite (ri_offset_rate r) \<or> \<not> (fle (F 0) (ri_offset_rate r) \<and> flt (ri_offset_rate r) (F 1)),
          reconciliation_error ''limit/stop offset must be within [0, 1)''),
       (\<not> isfinite (ri_maximum_gross r) \<or> not_positive (ri_maximum_gross r),
          reconciliation_error ''maximum_gross must be finite and positive''),
       (\<not> isfinite (ri_decision_equity r) \<or> not_positive (ri_decision_equity r),
          reconciliation_error ''decision_equity must be finite and positive''),
       (ri_time_in_force r = DAY \<and> ri_expiry_index r = None,
          reconciliation_error ''day orders require an expiry index''),
       (case ri_expiry_index r of None \<Rightarrow> False | Some e \<Rightarrow> e < ri_eligible_index r,
          reconciliation_error ''expiry index must not precede eligibility'')]))"

definition bad_symbols :: "nat \<Rightarrow> int list \<Rightarrow> bool" where
  "bad_symbols n symbols \<longleftrightarrow> list_ex (\<lambda>i. \<not> (0 \<le> i \<and> i < int n)) symbols \<or> has_dup symbols"

definition vector_checks :: "(f64 list \<Rightarrow> f64) \<Rightarrow> book \<Rightarrow> reconciliation_inputs \<Rightarrow> unit res" where
  "vector_checks nsum b r =
    (let weights = ri_weights r; prices = ri_reference_prices r; sizing = ri_sizing_prices r;
         ticks = ri_ticks r; n = length (bs_quantities b); multipliers = bs_multipliers b
     in checks [
       (length weights \<noteq> n \<or> length prices \<noteq> n \<or> length sizing \<noteq> n \<or> length multipliers \<noteq> n \<or> length ticks \<noteq> n,
          reconciliation_error ''target, price, multiplier and holdings shapes must match''),
       (weights = [] \<or> \<not> all_finite weights \<or> \<not> all_finite prices \<or> list_ex not_positive prices \<or>
          \<not> all_finite sizing \<or> list_ex not_positive sizing \<or> \<not> all_finite multipliers \<or>
          list_ex not_positive multipliers \<or> \<not> all_finite ticks \<or> list_ex (\<lambda>t. flt t (F 0)) ticks,
          reconciliation_error ''target and pricing inputs must be finite''),
       (flt (fadd (ri_maximum_gross r) tolerance) (nsum (map fabs weights)),
          reconciliation_error ''target gross exceeds maximum_gross''),
       (case ri_reduce_only_symbols r of None \<Rightarrow> False
          | Some symbols \<Rightarrow> bad_symbols (length weights) symbols \<or> (symbols \<noteq> [] \<and> ri_order_type r \<noteq> MARKET),
          reconciliation_error ''reduce-only symbols require unique valid indices and MARKET orders''),
       (bad_symbols (length weights) (ri_hold_symbols r),
          reconciliation_error ''exact quantity hold requires unique valid symbol indices''),
       (list_ex (\<lambda>i. \<not> feq (weights ! nat i) (book_weights nsum b ! nat i)) (ri_hold_symbols r),
          reconciliation_error ''exact quantity hold target must equal the current book weight'')])"

text \<open>The first loop: the desired quantity of every symbol.\<close>

definition desired_quantity :: "book \<Rightarrow> reconciliation_inputs \<Rightarrow> nat \<Rightarrow> f64 res" where
  "desired_quantity b r k = (if int k \<in> set (ri_hold_symbols r) then Inr (bs_quantities b ! k)
     else target_quantity_from_weight (ri_weights r ! k) (ri_decision_equity r) (ri_sizing_prices r ! k)
       (bs_multipliers b ! k))"

section \<open>One symbol\<close>

record loop_state =
  ls_book :: order_book
  ls_next_id :: nat
  ls_cancelled :: "pending_order list"
  ls_intents :: "order_intent list"
  ls_residuals :: "f64 list"

text \<open>Whether the order of a symbol may only reduce its position, from the exact quantities.\<close>

definition shrinks :: "rat \<Rightarrow> rat \<Rightarrow> bool" where
  "shrinks current wanted \<longleftrightarrow> \<bar>wanted\<bar> < \<bar>current\<bar>"

definition is_reduce_only :: "reconciliation_inputs \<Rightarrow> bool \<Rightarrow> nat \<Rightarrow> rat \<Rightarrow> rat \<Rightarrow> bool" where
  "is_reduce_only r over_cap k current wanted = (case ri_reduce_only_symbols r of
      None \<Rightarrow> ri_order_type r = MARKET \<and> current \<noteq> 0 \<and>
        (wanted = 0 \<or> (over_cap \<and> wanted \<noteq> 0 \<and> 0 < current * wanted \<and> shrinks current wanted))
    | Some symbols \<Rightarrow> int k \<in> set symbols \<and> current \<noteq> 0 \<and>
        (wanted = 0 \<or> 0 < current * wanted) \<and> shrinks current wanted)"

definition compatible_order :: "reconciliation_inputs \<Rightarrow> bool \<Rightarrow> pending_order \<Rightarrow> bool" where
  "compatible_order r reduce_only p = (let i = po_intent p in
     oi_dataset_id i = ri_dataset_id r \<and> oi_execution_policy_digest i = ri_digest r \<and>
     oi_reduce_only i = reduce_only \<and> oi_order_type i = ri_order_type r \<and>
     oi_time_in_force i = ri_time_in_force r \<and> oi_expiry_index i = ri_expiry_index r)"

text \<open>Cancel the superseded orders in the given order.\<close>

definition cancel_superseded ::
  "int \<Rightarrow> order_book \<times> nat \<times> pending_order list \<Rightarrow> pending_order \<Rightarrow>
     (order_book \<times> nat \<times> pending_order list) res" where
  "cancel_superseded submit_index = (\<lambda>(state, new_id, cancelled) order.
     bindr (cancel submit_index ''superseded'' order) (\<lambda>c.
     bindr (book_replace new_id c state) (\<lambda>s. Inr (s, Suc new_id, cancelled @ [c]))))"

definition intent_of :: "reconciliation_inputs \<Rightarrow> nat \<Rightarrow> f64 \<Rightarrow> f64 option \<Rightarrow> f64 option \<Rightarrow> string option \<Rightarrow> bool \<Rightarrow> order_intent" where
  "intent_of r k residual limit_price stop_price replaced reduce_only =
     \<lparr>oi_order_id = [], oi_dataset_id = ri_dataset_id r, oi_target_identity = ri_target_identity r,
      oi_execution_policy_digest = ri_digest r, oi_symbol_index = int k, oi_requested_quantity = residual,
      oi_order_type = ri_order_type r, oi_time_in_force = ri_time_in_force r, oi_limit_price = limit_price,
      oi_stop_price = stop_price, oi_submit_index = ri_submit_index r, oi_eligible_index = ri_eligible_index r,
      oi_expiry_index = ri_expiry_index r, oi_submission_reference_price = ri_reference_prices r ! k,
      oi_decision_equity = ri_decision_equity r, oi_replaced_order_id = replaced, oi_reduce_only = reduce_only\<rparr>"

text \<open>The part of the body after the decision to replace: cancellations, then the new intent.\<close>

definition replace_orders ::
  "reconciliation_inputs \<Rightarrow> nat \<Rightarrow> f64 \<Rightarrow> bool \<Rightarrow> pending_order list \<Rightarrow> loop_state \<Rightarrow> loop_state res" where
  "replace_orders r k residual reduce_only active s =
    (let ordered = sort_key (\<lambda>p. (oi_eligible_index (po_intent p), po_order_id p)) active;
         replaced = (case ordered of [] \<Rightarrow> None | p # _ \<Rightarrow> Some (po_order_id p)) in
     bindr (foldr_res (cancel_superseded (ri_submit_index r)) (ls_book s, ls_next_id s, ls_cancelled s) ordered)
       (\<lambda>(state, new_id, cancelled).
     let s' = s\<lparr>ls_book := state, ls_next_id := new_id, ls_cancelled := cancelled\<rparr> in
     if fle (fabs residual) tolerance then Inr s'
     else bindr (type_prices (ri_order_type r) residual (ri_reference_prices r ! k) (ri_offset_rate r) (ri_ticks r ! k))
       (\<lambda>(limit_price, stop_price).
     bindr (order_intent_create (intent_of r k residual limit_price stop_price replaced reduce_only)) (\<lambda>i.
     Inr (s'\<lparr>ls_intents := ls_intents s' @ [i], ls_residuals := (ls_residuals s')[k := residual]\<rparr>)))))"

text \<open>Current and wanted exact quantity, reduce-only flag and target delta of a symbol.\<close>

definition symbol_target ::
  "book \<Rightarrow> reconciliation_inputs \<Rightarrow> bool \<Rightarrow> f64 list \<Rightarrow> nat \<Rightarrow> (bool \<times> f64) res" where
  "symbol_target b r over_cap desired k =
    (let current = exact_values b ! k; hold = int k \<in> set (ri_hold_symbols r) in
     bindr (if hold then Inr current else exact_quantity (desired ! k)) (\<lambda>wanted.
     let delta = (if hold then F 0 else fsub (desired ! k) (bs_quantities b ! k));
         reduce_only = is_reduce_only r over_cap k current wanted in
     if reduce_only then bindr (project_quantity (wanted - current)) (\<lambda>p. Inr (True, p))
     else Inr (False, delta)))"

definition reconcile_symbol ::
  "book \<Rightarrow> reconciliation_inputs \<Rightarrow> bool \<Rightarrow> f64 list \<Rightarrow> loop_state \<Rightarrow> nat \<Rightarrow> loop_state res" where
  "reconcile_symbol b r over_cap desired s k =
     bindr (symbol_target b r over_cap desired k) (\<lambda>(reduce_only, target_delta).
     let active = active_for_symbol (int k) (ls_book s);
         residual = py_sum (map po_remaining_quantity active)
     in if int k \<notin> set (ri_hold_symbols r) \<and> list_all (compatible_order r reduce_only) active \<and>
           isclose_abs target_delta residual tolerance
        then Inr s
        else replace_orders r k target_delta reduce_only active s)"

section \<open>The whole target\<close>

definition reference_over_cap :: "(f64 list \<Rightarrow> f64) \<Rightarrow> book \<Rightarrow> reconciliation_inputs \<Rightarrow> bool" where
  "reference_over_cap nsum b r = (let gross = gross_notional nsum (bs_quantities b) (ri_reference_prices r) (bs_multipliers b)
     in isfinite gross \<and> flt (fadd (fmul (ri_decision_equity r) (ri_maximum_gross r)) tolerance) gross)"

definition reconcile_target ::
  "(f64 list \<Rightarrow> f64) \<Rightarrow> nat \<Rightarrow> book \<Rightarrow> order_book \<Rightarrow> reconciliation_inputs \<Rightarrow> reconciliation_result res" where
  "reconcile_target nsum new_id b orders r =
     bindr (scalar_checks r) (\<lambda>_.
     bindr (vector_checks nsum b r) (\<lambda>_.
     let n = length (ri_weights r) in
     bindr (rewrap reconciliation_error (mapr (desired_quantity b r) [0 ..< n])) (\<lambda>desired.
     bindr (quantity_values b) (\<lambda>(_, c).
     bindr (foldr_res (reconcile_symbol c r (reference_over_cap nsum c r) desired)
         \<lparr>ls_book = orders, ls_next_id = new_id, ls_cancelled = [], ls_intents = [],
          ls_residuals = replicate n (F 0)\<rparr> [0 ..< n]) (\<lambda>s.
     Inr \<lparr>rr_order_book = ls_book s, rr_new_intents = ls_intents s, rr_cancelled = ls_cancelled s,
       rr_desired = desired, rr_residuals = ls_residuals s\<rparr>)))))"

section \<open>A declarative plan per symbol\<close>

text \<open>
  The plan of a symbol depends only on the orders the book held for it before the loop: the
  orders to cancel and the intent to submit.  The loop carries out the plans of all symbols.
\<close>

definition keeps_orders ::
  "reconciliation_inputs \<Rightarrow> bool \<Rightarrow> f64 \<Rightarrow> pending_order list \<Rightarrow> nat \<Rightarrow> bool" where
  "keeps_orders r reduce_only delta active k \<longleftrightarrow> int k \<notin> set (ri_hold_symbols r) \<and>
     list_all (compatible_order r reduce_only) active \<and>
     isclose_abs delta (py_sum (map po_remaining_quantity active)) tolerance"

definition superseded_orders :: "pending_order list \<Rightarrow> pending_order list" where
  "superseded_orders active = sort_key (\<lambda>p. (oi_eligible_index (po_intent p), po_order_id p)) active"

definition planned_intent ::
  "reconciliation_inputs \<Rightarrow> nat \<Rightarrow> f64 \<Rightarrow> bool \<Rightarrow> pending_order list \<Rightarrow> order_intent option res" where
  "planned_intent r k delta reduce_only ordered =
    (if fle (fabs delta) tolerance then Inr None
     else bindr (type_prices (ri_order_type r) delta (ri_reference_prices r ! k) (ri_offset_rate r) (ri_ticks r ! k))
       (\<lambda>(limit_price, stop_price).
     bindr (order_intent_create (intent_of r k delta limit_price stop_price
         (case ordered of [] \<Rightarrow> None | p # _ \<Rightarrow> Some (po_order_id p)) reduce_only)) (\<lambda>i. Inr (Some i))))"

definition symbol_plan ::
  "book \<Rightarrow> reconciliation_inputs \<Rightarrow> bool \<Rightarrow> f64 list \<Rightarrow> order_book \<Rightarrow> nat \<Rightarrow>
     (pending_order list \<times> order_intent option) res" where
  "symbol_plan b r over_cap desired orders k =
     bindr (symbol_target b r over_cap desired k) (\<lambda>(reduce_only, delta).
     let active = active_for_symbol (int k) orders; ordered = superseded_orders active in
     if keeps_orders r reduce_only delta active k then Inr ([], None)
     else bindr (mapr (cancel (ri_submit_index r) ''superseded'') ordered) (\<lambda>cancelled.
       bindr (planned_intent r k delta reduce_only ordered) (\<lambda>i. Inr (cancelled, i))))"

definition retire :: "nat \<Rightarrow> pending_order list \<Rightarrow> order_book \<Rightarrow> order_book" where
  "retire new orders b = \<lparr>ob_active = filter (\<lambda>p. po_order_id p \<notin> po_order_id ` set orders) (ob_active b),
     ob_terminal = archive_extend new (ob_terminal b) orders\<rparr>"

definition apply_plan :: "loop_state \<Rightarrow> nat \<Rightarrow> pending_order list \<times> order_intent option \<Rightarrow> loop_state" where
  "apply_plan s k = (\<lambda>(cancelled, i).
     s\<lparr>ls_book := retire (ls_next_id s) cancelled (ls_book s), ls_next_id := ls_next_id s + length cancelled,
       ls_cancelled := ls_cancelled s @ cancelled,
       ls_intents := ls_intents s @ (case i of None \<Rightarrow> [] | Some i \<Rightarrow> [i]),
       ls_residuals := (case i of None \<Rightarrow> ls_residuals s
         | Some i \<Rightarrow> (ls_residuals s)[k := oi_requested_quantity i])\<rparr>)"

subsection \<open>Cancelling\<close>

lemma cancel_Inr:
  assumes "pending_ok p"
  shows "cancel idx ''superseded'' p = Inr c \<longleftrightarrow>
    \<not> po_terminal p \<and> index_ok p idx \<and> c = moved CANCELLED idx (Some ''superseded'') None p"
  using transition_Inr [OF assms] by (simp add: cancel_def reason_ok_def no_reason_def blank_def status_terminal_def)

lemma retire_none: "retire new [] b = b"
  by (simp add: retire_def)

lemma replace_retire:
  assumes "book_ok b" and "p \<in> set (ob_active b)" and "po_order_id c = po_order_id p" and "po_terminal c"
  shows "book_replace new c b = Inr (retire new [c] b)"
proof -
  have d: "distinct (map po_order_id (ob_active b))"
    using assms(1) by (simp add: book_ok_def book_ids_def all_orders_def)
  from assms(2,3) have "\<exists>d. book_replace new c b = Inr d" by (auto simp: book_replace_total)
  then obtain e where e: "book_replace new c b = Inr e" by blast
  from book_replace_Inr [OF e] obtain l q r where split: "ob_active b = l @ q # r" "po_order_id q = po_order_id c"
    "e = \<lparr>ob_active = l @ r, ob_terminal = archive_append new c (ob_terminal b)\<rparr>" using assms(4) by auto
  with d have "po_order_id q \<notin> po_order_id ` set l" "po_order_id q \<notin> po_order_id ` set r"
    by auto
  then have "filter (\<lambda>p. po_order_id p \<noteq> po_order_id c) l = l" "filter (\<lambda>p. po_order_id p \<noteq> po_order_id c) r = r"
    using split(2) by (auto simp: filter_id_conv intro!: rev_image_eqI)
  then show ?thesis using e split by (simp add: retire_def archive_append_def)
qed

lemma retire_Cons: "retire (Suc new) cs (retire new [c] b) = retire new (c # cs) b"
  by (simp add: retire_def conj_commute)

lemma cancel_run:
  assumes "book_ok b" and "set ps \<subseteq> set (ob_active b)" and "distinct (map po_order_id ps)"
  shows "foldr_res (cancel_superseded idx) (b, new, cs) ps =
    bindr (mapr (cancel idx ''superseded'') ps) (\<lambda>ds. Inr (retire new ds b, new + length ds, cs @ ds))"
  using assms
proof (induction ps arbitrary: b new cs)
  case Nil
  show ?case by (simp add: retire_none)
next
  case (Cons p ps)
  then have p: "p \<in> set (ob_active b)" "pending_ok p" by (auto simp: book_ok_def)
  show ?case
  proof (cases "cancel idx ''superseded'' p")
    case (Inl e)
    then show ?thesis by (simp add: cancel_superseded_def)
  next
    case (Inr c)
    then have c: "po_order_id c = po_order_id p" "po_terminal c"
      by (auto simp: cancel_Inr [OF p(2)] po_order_id_def po_terminal_def status_terminal_def)
    from Inr have "pending_ok c" using transition_ok [OF p(2)] by (simp add: cancel_def)
    have rep: "book_replace new c b = Inr (retire new [c] b)" by (rule replace_retire [OF Cons.prems(1) p(1) c])
    then have ok: "book_ok (retire new [c] b)" using book_replace_ok [OF Cons.prems(1) \<open>pending_ok c\<close>] by simp
    have sub: "set ps \<subseteq> set (ob_active (retire new [c] b))"
      using Cons.prems(2,3) c(1) by (auto simp: retire_def intro: rev_image_eqI)
    have "foldr_res (cancel_superseded idx) (retire new [c] b, Suc new, cs @ [c]) ps =
      bindr (mapr (cancel idx ''superseded'') ps) (\<lambda>ds. Inr (retire (Suc new) ds (retire new [c] b),
        Suc new + length ds, (cs @ [c]) @ ds))"
      using Cons.prems(3) by (intro Cons.IH [OF ok sub]) simp
    then show ?thesis by (simp add: cancel_superseded_def Inr rep bindr_assoc retire_Cons)
  qed
qed

subsection \<open>The loop carries out the plans\<close>

lemma create_fields:
  assumes "order_intent_create i = Inr j"
  obtains d where "j = i\<lparr>oi_order_id := d\<rparr>" "intent_wf j"
  using create_Inr_wf [OF assms] by blast

lemma planned_intent_quantity:
  "planned_intent r k delta ro ordered = Inr (Some i) \<Longrightarrow> oi_requested_quantity i = delta"
  by (auto simp: planned_intent_def res_iff intent_of_def split: if_splits elim!: create_fields)

lemma superseded_orders_simps [simp]:
  "set (superseded_orders ps) = set ps" "distinct (map f (superseded_orders ps)) \<longleftrightarrow> distinct (map f ps)"
proof -
  show "set (superseded_orders ps) = set ps" by (simp add: superseded_orders_def)
  have "mset (map f (superseded_orders ps)) = mset (map f ps)" by (simp add: superseded_orders_def)
  then show "distinct (map f (superseded_orders ps)) \<longleftrightarrow> distinct (map f ps)"
    using mset_eq_imp_distinct_iff by blast
qed

lemma active_cancel_run:
  assumes "book_ok b"
  shows "foldr_res (cancel_superseded idx) (b, new, cs) (superseded_orders (active_for_symbol k b)) =
    bindr (mapr (cancel idx ''superseded'') (superseded_orders (active_for_symbol k b)))
      (\<lambda>ds. Inr (retire new ds b, new + length ds, cs @ ds))"
  using assms by (intro cancel_run) (auto simp: active_for_symbol_def book_ok_def book_ids_def
    all_orders_def distinct_map_filter)

lemma replace_orders_plan:
  assumes "book_ok (ls_book s)"
  shows "replace_orders r k delta ro (active_for_symbol (int k) (ls_book s)) s =
    (let ordered = superseded_orders (active_for_symbol (int k) (ls_book s)) in
     bindr (mapr (cancel (ri_submit_index r) ''superseded'') ordered) (\<lambda>cancelled.
     bindr (planned_intent r k delta ro ordered) (\<lambda>i. Inr (apply_plan s k (cancelled, i)))))"
proof -
  have q: "\<And>l st c j. order_intent_create (intent_of r k delta l st c ro) = Inr j \<Longrightarrow> oi_requested_quantity j = delta"
    by (auto simp: intent_of_def elim!: create_fields)
  show ?thesis
    unfolding replace_orders_def Let_def superseded_orders_def [symmetric] active_cancel_run [OF assms] bindr_assoc
    by (intro bindr_cong refl) (auto simp: planned_intent_def apply_plan_def bindr_assoc q split_def
      intro!: bindr_cong)
qed

lemma reconcile_symbol_plan:
  assumes "book_ok (ls_book s)"
  shows "reconcile_symbol b r over_cap desired s k =
    bindr (symbol_plan b r over_cap desired (ls_book s) k) (\<lambda>p. Inr (apply_plan s k p))"
  unfolding reconcile_symbol_def symbol_plan_def bindr_assoc
  by (intro bindr_cong refl) (auto simp: replace_orders_plan [OF assms] keeps_orders_def Let_def bindr_assoc
    apply_plan_def retire_none split_def)

lemma cancelled_orders:
  assumes "mapr (cancel idx ''superseded'') ps = Inr ds" and "\<forall>p \<in> set ps. pending_ok p"
  shows "map po_order_id ds = map po_order_id ps \<and>
    list_all2 (\<lambda>p c. \<not> po_terminal p \<and> index_ok p idx \<and> c = moved CANCELLED idx (Some ''superseded'') None p) ps ds"
  using assms
proof (induction ps arbitrary: ds)
  case (Cons p ps)
  then obtain c cs where "ds = c # cs" "cancel idx ''superseded'' p = Inr c" "mapr (cancel idx ''superseded'') ps = Inr cs"
    by (auto simp: res_iff)
  then show ?case using Cons.IH [of cs] Cons.prems(2) by (auto simp: cancel_Inr po_order_id_def)
qed simp

lemma retire_ok:
  assumes ok: "book_ok b" and ps: "set ps \<subseteq> set (ob_active b)" "distinct (map po_order_id ps)"
    and ds: "mapr (cancel idx ''superseded'') ps = Inr ds"
  shows "book_ok (retire new ds b) \<and> mset (book_ids (retire new ds b)) = mset (book_ids b)"
proof -
  have p_ok: "\<forall>p \<in> set ps. pending_ok p" using ok ps(1) by (auto simp: book_ok_def)
  let ?P = "\<lambda>(c, _ :: nat \<times> pending_order list). book_ok c \<and> mset (book_ids c) = mset (book_ids b)"
  have run: "foldr_res (cancel_superseded idx) (b, new, []) ps = Inr (retire new ds b, new + length ds, ds)"
    using cancel_run [OF ok ps] ds by simp
  have "?P (retire new ds b, new + length ds, ds)"
  proof (rule foldr_res_inv [OF run, where P = ?P])
    show "?P (b, new, [])" using ok by simp
  next
    fix s p s' assume s: "?P s" and "p \<in> set ps" and st: "cancel_superseded idx s p = Inr s'"
    from \<open>p \<in> set ps\<close> p_ok have p: "pending_ok p" by blast
    obtain c n cs where "s = (c, n, cs)" by (cases s)
    with st obtain q d where q: "cancel idx ''superseded'' p = Inr q" and d: "book_replace n q c = Inr d"
      "s' = (d, Suc n, cs @ [q])" by (auto simp: cancel_superseded_def res_iff)
    from q have "pending_ok q" using transition_ok [OF p] by (simp add: cancel_def)
    then show "?P s'" using book_replace_ok [OF _ _ d(1)] book_replace_ids [OF d(1)] s d(2) \<open>s = (c, n, cs)\<close> by simp
  qed
  then show ?thesis by simp
qed

lemma same_id_same_order:
  "book_ok b \<Longrightarrow> p \<in> set (ob_active b) \<Longrightarrow> q \<in> set (ob_active b) \<Longrightarrow> po_order_id p = po_order_id q \<Longrightarrow> p = q"
  by (auto simp: book_ok_def book_ids_def all_orders_def distinct_map dest: inj_onD)

lemma symbol_plan_cancelled:
  assumes "book_ok b" and "symbol_plan c r oc desired b k = Inr (ds, i)"
  shows "ds = [] \<or> mapr (cancel (ri_submit_index r) ''superseded'') (superseded_orders (active_for_symbol (int k) b)) = Inr ds"
  using assms by (auto simp: symbol_plan_def Let_def res_iff split: if_splits prod.splits)

lemma apply_plan_book:
  assumes ok: "book_ok (ls_book s)" and plan: "symbol_plan b r oc desired (ls_book s) k = Inr p"
  shows "book_ok (ls_book (apply_plan s k p)) \<and> mset (book_ids (ls_book (apply_plan s k p))) = mset (book_ids (ls_book s))"
    and "int j \<noteq> int k \<Longrightarrow>
      active_for_symbol (int j) (ls_book (apply_plan s k p)) = active_for_symbol (int j) (ls_book s)"
proof -
  obtain ds i where p: "p = (ds, i)" by (cases p)
  let ?ps = "superseded_orders (active_for_symbol (int k) (ls_book s))"
  have ps: "set ?ps \<subseteq> set (ob_active (ls_book s))" "distinct (map po_order_id ?ps)"
    using ok by (auto simp: active_for_symbol_def book_ok_def book_ids_def all_orders_def distinct_map_filter)
  from symbol_plan_cancelled [OF ok] plan p have ds: "ds = [] \<or> mapr (cancel (ri_submit_index r) ''superseded'') ?ps = Inr ds"
    by blast
  then show "book_ok (ls_book (apply_plan s k p)) \<and> mset (book_ids (ls_book (apply_plan s k p))) = mset (book_ids (ls_book s))"
    using retire_ok [OF ok ps] ok by (auto simp: p apply_plan_def retire_none)
  assume j: "int j \<noteq> int k"
  have "po_order_id x \<notin> po_order_id ` set ds" if x: "x \<in> set (ob_active (ls_book s))"
    "oi_symbol_index (po_intent x) = int j" for x
  proof
    assume x_id: "po_order_id x \<in> po_order_id ` set ds"
    then have "ds \<noteq> []" by auto
    with ds have run: "mapr (cancel (ri_submit_index r) ''superseded'') ?ps = Inr ds" by blast
    have "\<forall>p \<in> set ?ps. pending_ok p" using ps(1) ok by (auto simp: book_ok_def)
    from cancelled_orders [OF run this] have "set (map po_order_id ds) = set (map po_order_id ?ps)" by simp
    with x_id obtain y where "y \<in> set ?ps" "po_order_id x = po_order_id y" by auto
    with same_id_same_order [OF ok x(1)] ps(1) x(2) j show False by (auto simp: active_for_symbol_def)
  qed
  then show "active_for_symbol (int j) (ls_book (apply_plan s k p)) = active_for_symbol (int j) (ls_book s)"
    by (auto simp: p apply_plan_def retire_def active_for_symbol_def intro!: filter_cong)
qed

definition apply_plans :: "loop_state \<Rightarrow> (nat \<times> pending_order list \<times> order_intent option) list \<Rightarrow> loop_state" where
  "apply_plans = foldl (\<lambda>s (k, p). apply_plan s k p)"

lemma apply_plans_simps [simp]:
  "apply_plans s [] = s" "apply_plans s ((k, p) # ps) = apply_plans (apply_plan s k p) ps"
  by (simp_all add: apply_plans_def)

lemma loop_plans:
  assumes "book_ok (ls_book s)" and "distinct ks"
  shows "foldr_res (reconcile_symbol b r oc desired) s ks =
    bindr (mapr (symbol_plan b r oc desired (ls_book s)) ks) (\<lambda>plans. Inr (apply_plans s (zip ks plans)))"
  using assms
proof (induction ks arbitrary: s)
  case (Cons k ks)
  show ?case
  proof (cases "symbol_plan b r oc desired (ls_book s) k")
    case (Inl e)
    then show ?thesis by (simp add: reconcile_symbol_plan [OF Cons.prems(1)])
  next
    case (Inr p)
    note next_ok = apply_plan_book [OF Cons.prems(1) Inr]
    have same: "symbol_plan b r oc desired (ls_book (apply_plan s k p)) j = symbol_plan b r oc desired (ls_book s) j"
      if "j \<in> set ks" for j
    proof -
      have "int j \<noteq> int k" using that Cons.prems(2) by auto
      from next_ok(2) [OF this] show ?thesis by (simp add: symbol_plan_def)
    qed
    have "mapr (symbol_plan b r oc desired (ls_book (apply_plan s k p))) ks = mapr (symbol_plan b r oc desired (ls_book s)) ks"
      by (rule mapr_cong) (simp_all add: same)
    then show ?thesis using Cons.IH [of "apply_plan s k p"] next_ok(1) Cons.prems(2)
      by (simp add: reconcile_symbol_plan [OF Cons.prems(1)] Inr bindr_assoc)
  qed
qed simp

section \<open>The result in closed form\<close>

definition plan_residual :: "pending_order list \<times> order_intent option \<Rightarrow> f64" where
  "plan_residual = (\<lambda>(_, i). case i of None \<Rightarrow> F 0 | Some i \<Rightarrow> oi_requested_quantity i)"

definition planned_result ::
  "nat \<Rightarrow> order_book \<Rightarrow> f64 list \<Rightarrow> (pending_order list \<times> order_intent option) list \<Rightarrow> reconciliation_result" where
  "planned_result new_id orders desired plans =
     \<lparr>rr_order_book = retire new_id (concat (map fst plans)) orders,
      rr_new_intents = List.map_filter snd plans, rr_cancelled = concat (map fst plans),
      rr_desired = desired, rr_residuals = map plan_residual plans\<rparr>"

definition planned_reconciliation ::
  "(f64 list \<Rightarrow> f64) \<Rightarrow> nat \<Rightarrow> book \<Rightarrow> order_book \<Rightarrow> reconciliation_inputs \<Rightarrow> reconciliation_result res" where
  "planned_reconciliation nsum new_id b orders r =
     bindr (scalar_checks r) (\<lambda>_.
     bindr (vector_checks nsum b r) (\<lambda>_.
     let n = length (ri_weights r) in
     bindr (rewrap reconciliation_error (mapr (desired_quantity b r) [0 ..< n])) (\<lambda>desired.
     bindr (quantity_values b) (\<lambda>(_, c).
     bindr (mapr (symbol_plan c r (reference_over_cap nsum c r) desired orders) [0 ..< n]) (\<lambda>plans.
     Inr (planned_result new_id orders desired plans))))))"

lemma archive_extend_append:
  "archive_extend (new + length ps) (archive_extend new a ps) qs = archive_extend new a (ps @ qs)"
proof (induction ps arbitrary: new a)
  case (Cons p ps)
  from Cons.IH [of "Suc new" "next_node new a p"] show ?case by simp
qed simp

lemma retire_append: "retire (new + length cs) ds (retire new cs b) = retire new (cs @ ds) b"
  by (auto simp: retire_def archive_extend_append intro!: filter_cong)

lemma apply_plans_fields:
  assumes "length ks = length plans"
  shows "ls_book (apply_plans s (zip ks plans)) = retire (ls_next_id s) (concat (map fst plans)) (ls_book s)"
    and "ls_cancelled (apply_plans s (zip ks plans)) = ls_cancelled s @ concat (map fst plans)"
    and "ls_intents (apply_plans s (zip ks plans)) = ls_intents s @ List.map_filter snd plans"
    and "length (ls_residuals (apply_plans s (zip ks plans))) = length (ls_residuals s)"
    and "k \<notin> set ks \<Longrightarrow> ls_residuals (apply_plans s (zip ks plans)) ! k = ls_residuals s ! k"
  using assms
proof (induction ks plans arbitrary: s rule: list_induct2)
  case Nil
  { case 1 show ?case by (simp add: retire_none) next case 2 show ?case by simp
  next case 3 show ?case by simp next case 4 show ?case by simp next case 5 show ?case by simp }
next
  case (Cons k ks p ps)
  obtain cs i where p: "p = (cs, i)" by (cases p)
  { case 1 show ?case by (simp add: Cons.IH(1)) (simp add: p apply_plan_def retire_append)
  next case 2 show ?case by (simp add: Cons.IH(2)) (simp add: p apply_plan_def)
  next case 3 show ?case by (simp add: Cons.IH(3)) (simp add: p apply_plan_def map_filter_simps split: option.split)
  next case 4 show ?case by (simp add: Cons.IH(4)) (simp add: p apply_plan_def split: option.split)
  next case 5 then show ?case by (simp add: Cons.IH(5)) (simp add: p apply_plan_def split: option.split) }
qed

lemma apply_plans_residuals:
  assumes "length ks = length plans" and "distinct ks" and "\<forall>k \<in> set ks. k < length (ls_residuals s) \<and> ls_residuals s ! k = F 0"
    and "j < length ks"
  shows "ls_residuals (apply_plans s (zip ks plans)) ! (ks ! j) = plan_residual (plans ! j)"
  using assms
proof (induction ks plans arbitrary: s j rule: list_induct2)
  case (Cons k ks p ps)
  show ?case
  proof (cases j)
    case 0
    then show ?thesis using Cons.prems Cons.hyps
      by (cases p) (auto simp: apply_plans_fields(5) apply_plan_def plan_residual_def split: option.split)
  next
    case (Suc m)
    have "\<forall>x \<in> set ks. x < length (ls_residuals (apply_plan s k p)) \<and> ls_residuals (apply_plan s k p) ! x = F 0"
      using Cons.prems by (cases p) (auto simp: apply_plan_def nth_list_update split: option.split)
    then show ?thesis using Cons.IH [of "apply_plan s k p" m] Cons.prems Suc by simp
  qed
qed simp

theorem reconcile_planned:
  assumes "book_ok orders"
  shows "reconcile_target nsum new_id b orders r = planned_reconciliation nsum new_id b orders r"
proof -
  let ?n = "length (ri_weights r)"
  let ?s = "\<lparr>ls_book = orders, ls_next_id = new_id, ls_cancelled = [], ls_intents = [],
    ls_residuals = replicate ?n (F 0)\<rparr>"
  have res: "ls_residuals (apply_plans ?s (zip [0 ..< ?n] plans)) = map plan_residual plans" if "length plans = ?n" for plans
    using apply_plans_fields(4) [of "[0 ..< ?n]" plans ?s] apply_plans_residuals [of "[0 ..< ?n]" plans ?s] that
    by (intro nth_equalityI) simp_all
  have "foldr_res (reconcile_symbol c r oc desired) ?s [0 ..< ?n] =
      bindr (mapr (symbol_plan c r oc desired orders) [0 ..< ?n]) (\<lambda>plans. Inr (apply_plans ?s (zip [0 ..< ?n] plans)))"
    for c oc desired by (subst loop_plans) (use assms in simp_all)
  then show ?thesis
    unfolding reconcile_target_def planned_reconciliation_def Let_def
    by (auto intro!: bindr_cong simp: bindr_assoc planned_result_def apply_plans_fields res
      dest!: mapr_length)
qed

section \<open>What the plans promise\<close>

lemma reconcile_plans:
  assumes ok: "book_ok orders" and shape: "book_shape b"
    and run: "reconcile_target nsum new_id b orders r = Inr res"
  obtains desired plans where
    "scalar_checks r = Inr ()" "vector_checks nsum b r = Inr ()"
    "mapr (desired_quantity b r) [0 ..< length (ri_weights r)] = Inr desired"
    "mapr (symbol_plan b r (reference_over_cap nsum b r) desired orders) [0 ..< length (ri_weights r)] = Inr plans"
    "res = planned_result new_id orders desired plans"
proof -
  from run have "planned_reconciliation nsum new_id b orders r = Inr res" by (simp add: reconcile_planned [OF ok])
  then show ?thesis
    unfolding planned_reconciliation_def Let_def bindr_Inr rewrap_Inr quantity_values_shape [OF shape]
    using that by (auto simp: bindr_Inr)
qed

lemma created_intent:
  assumes "order_intent_create (intent_of r k q l s rid ro) = Inr j"
  shows "oi_requested_quantity j = q" "oi_reduce_only j = ro" "oi_symbol_index j = int k" "oi_limit_price j = l"
    "oi_stop_price j = s" "oi_order_type j = ri_order_type r" "oi_submit_index j = ri_submit_index r"
    "oi_eligible_index j = ri_eligible_index r" "oi_expiry_index j = ri_expiry_index r"
    "oi_replaced_order_id j = rid" "oi_dataset_id j = ri_dataset_id r"
    "oi_execution_policy_digest j = ri_digest r" "intent_wf j"
proof -
  obtain d where j: "j = (intent_of r k q l s rid ro)\<lparr>oi_order_id := d\<rparr>" and wf: "intent_wf j"
    by (rule create_fields [OF assms])
  show "intent_wf j" by (rule wf)
qed (rule create_fields [OF assms], simp add: intent_of_def)+

lemma planned_intent_Some:
  assumes "planned_intent r k delta ro ordered = Inr (Some i)"
  obtains l s where "type_prices (ri_order_type r) delta (ri_reference_prices r ! k) (ri_offset_rate r) (ri_ticks r ! k) = Inr (l, s)"
    "order_intent_create (intent_of r k delta l s
       (case ordered of [] \<Rightarrow> None | p # _ \<Rightarrow> Some (po_order_id p)) ro) = Inr i"
    "\<not> fle (fabs delta) tolerance"
  using assms by (auto simp: planned_intent_def res_iff split: if_splits)

lemma symbol_plan_Inr:
  assumes "symbol_plan c r oc desired orders k = Inr (ds, i)"
  obtains ro delta where "symbol_target c r oc desired k = Inr (ro, delta)"
    "keeps_orders r ro delta (active_for_symbol (int k) orders) k \<Longrightarrow> ds = [] \<and> i = None"
    "\<not> keeps_orders r ro delta (active_for_symbol (int k) orders) k \<Longrightarrow>
       mapr (cancel (ri_submit_index r) ''superseded'') (superseded_orders (active_for_symbol (int k) orders)) = Inr ds \<and>
       planned_intent r k delta ro (superseded_orders (active_for_symbol (int k) orders)) = Inr i"
  using assms by (auto simp: symbol_plan_def Let_def res_iff split: if_splits)

lemma plan_intent:
  assumes "symbol_plan c r oc desired orders k = Inr (ds, Some i)"
  obtains ro delta where "symbol_target c r oc desired k = Inr (ro, delta)"
    "planned_intent r k delta ro (superseded_orders (active_for_symbol (int k) orders)) = Inr (Some i)"
  using assms by (rule symbol_plan_Inr) (metis option.distinct(1))

lemma target_reduces:
  assumes "symbol_target c r oc desired k = Inr (True, p)"
  shows "is_f64 p \<and> isfinite p \<and> exact_values c ! k \<noteq> 0 \<and> \<bar>dec_of_float p\<bar> \<le> \<bar>exact_values c ! k\<bar> \<and>
    (dec_of_float p \<noteq> 0 \<longrightarrow> exact_values c ! k * dec_of_float p < 0)"
proof -
  let ?x = "exact_values c ! k"
  from assms obtain w where w: "is_reduce_only r oc k ?x w" and p: "project_quantity (w - ?x) = Inr p"
    by (auto simp: symbol_target_def Let_def res_iff split: if_splits)
  from w have x: "?x \<noteq> 0" "w = 0 \<or> 0 < ?x * w" "\<bar>w\<bar> < \<bar>?x\<bar>"
    by (auto simp: is_reduce_only_def shrinks_def split: option.splits)
  have le: "\<bar>w - ?x\<bar> \<le> \<bar>?x\<bar>" using x(2,3) by (auto simp: zero_less_mult_iff)
  have fin: "is_f64 p" "isfinite p" using project_quantity_f64 [OF p] by simp_all
  have "0 \<le> val p \<longrightarrow> 0 \<le> dec_of_float p" "val p < 0 \<longrightarrow> dec_of_float p < 0"
    using fin dec_of_float_sign [of "val p"] by (cases p; force)+
  moreover have "val p \<le> 0 \<longrightarrow> dec_of_float p \<le> 0"
    using calculation dec_of_float_0_iff [OF fin] by (cases "val p = 0") auto
  moreover have "0 < ?x \<longrightarrow> w - ?x \<le> 0" "?x < 0 \<longrightarrow> 0 \<le> w - ?x" using x(2,3) by (auto simp: zero_less_mult_iff)
  ultimately have "dec_of_float p \<noteq> 0 \<longrightarrow> ?x * dec_of_float p < 0"
    using project_quantity_sign [OF p] x(1) by (auto simp: mult_less_0_iff linorder_neq_iff)
  then show ?thesis using fin x(1) project_quantity_le [OF p] le by simp
qed

lemma above_tolerance_dec:
  assumes "\<not> fle (fabs x) tolerance" and "isfinite x" and "is_f64 x"
  shows "dec_of_float x \<noteq> 0"
proof -
  have "val x \<noteq> 0" using assms(1,2) tolerance_pos by (cases x) auto
  then show ?thesis using dec_of_float_0_iff [OF assms(3,2)] by simp
qed

text \<open>A reduce-only intent passes admission's tests against the position it was sized from.\<close>

lemma planned_reduce_admissible:
  assumes plan: "symbol_plan c r oc desired orders k = Inr (ds, Some i)" and ro: "oi_reduce_only i"
    and pos: "ai_actual_position a = Some (exact_values c ! k)"
  shows "\<exists>m. reduce_refusals i view a (oi_requested_quantity i) = Inr m \<and> (\<forall>x \<in> set m. \<not> fst x)"
proof -
  from plan obtain f delta where t: "symbol_target c r oc desired k = Inr (f, delta)" and
    p: "planned_intent r k delta f (superseded_orders (active_for_symbol (int k) orders)) = Inr (Some i)"
    by (rule plan_intent)
  from planned_intent_Some [OF p] obtain l s rid where big: "\<not> fle (fabs delta) tolerance"
    and cr: "order_intent_create (intent_of r k delta l s rid f) = Inr i" by blast
  note i = created_intent [OF cr]
  from t ro i(2) have "symbol_target c r oc desired k = Inr (True, delta)" by simp
  from target_reduces [OF this] have d: "isfinite delta" "exact_values c ! k \<noteq> 0"
    "\<bar>dec_of_float delta\<bar> \<le> \<bar>exact_values c ! k\<bar>" "exact_values c ! k * dec_of_float delta < 0"
    using above_tolerance_dec [OF big] by blast+
  have "exact_quantity (oi_requested_quantity i) = Inr (dec_of_float delta)" using d(1) i(1) by (simp add: res_iff)
  then show ?thesis using d ro pos by (simp add: reduce_refusals_def reducible_position_def not_le not_less)
qed

text \<open>The prices of an intent are on the tick grid it was quoted for.\<close>

lemma planned_on_grid:
  assumes plan: "symbol_plan c r oc desired orders k = Inr (ds, Some i)"
    and tick: "is_f64 (ri_ticks r ! k)"
    and small: "val (ri_ticks r ! k) = 0 \<or>
      val (fmul (ri_reference_prices r ! k) (fsub (F 1) (ri_offset_rate r))) \<le> 2 ^ 49 * val (ri_ticks r ! k) \<and>
      val (fmul (ri_reference_prices r ! k) (fadd (F 1) (ri_offset_rate r))) \<le> 2 ^ 49 * val (ri_ticks r ! k)"
  shows "bound_on_grid i (ri_ticks r ! k) = Inr True"
proof -
  from plan obtain f delta where
    p: "planned_intent r k delta f (superseded_orders (active_for_symbol (int k) orders)) = Inr (Some i)"
    by (rule plan_intent)
  from planned_intent_Some [OF p] obtain l s rid where
    t: "type_prices (ri_order_type r) delta (ri_reference_prices r ! k) (ri_offset_rate r) (ri_ticks r ! k) = Inr (l, s)"
    and cr: "order_intent_create (intent_of r k delta l s rid f) = Inr i" by blast
  note i = created_intent [OF cr]
  have grid: "price_on_tick_grid p (ri_ticks r ! k) = Inr True"
    if "snap_price_to_tick raw (ri_ticks r ! k) up = Inr p"
      "raw = fmul (ri_reference_prices r ! k) (fsub (F 1) (ri_offset_rate r)) \<or>
       raw = fmul (ri_reference_prices r ! k) (fadd (F 1) (ri_offset_rate r))" for raw up p
    using snapped_on_grid [OF that(1) tick] that(2) small by auto
  show ?thesis
  proof (cases "ri_order_type r")
    case MARKET
    then show ?thesis by (simp add: bound_on_grid_def bound_price_def i)
  next
    case LIMIT
    with t obtain p where "l = Some p" "snap_price_to_tick (fmul (ri_reference_prices r ! k)
        (if flt (F 0) delta then fsub (F 1) (ri_offset_rate r) else fadd (F 1) (ri_offset_rate r)))
        (ri_ticks r ! k) (\<not> flt (F 0) delta) = Inr p"
      by (auto simp: type_prices_def Let_def res_iff)
    then show ?thesis using grid LIMIT by (auto simp: bound_on_grid_def bound_price_def i split: if_splits)
  next
    case STOP_MARKET
    with t obtain p where "s = Some p" "snap_price_to_tick (fmul (ri_reference_prices r ! k)
        (if flt (F 0) delta then fadd (F 1) (ri_offset_rate r) else fsub (F 1) (ri_offset_rate r)))
        (ri_ticks r ! k) (flt (F 0) delta) = Inr p"
      by (auto simp: type_prices_def Let_def res_iff)
    then show ?thesis using grid STOP_MARKET by (auto simp: bound_on_grid_def bound_price_def i split: if_splits)
  qed
qed

section \<open>The orders and intents of a run\<close>

lemma mapr_append: "mapr f (xs @ ys) = bindr (mapr f xs) (\<lambda>a. bindr (mapr f ys) (\<lambda>b. Inr (a @ b)))"
proof (induction xs)
  case Nil
  show ?case by (cases "mapr f ys") simp_all
qed (simp add: bindr_assoc)

lemma plans_cancelled:
  assumes ok: "book_ok orders"
  shows "mapr (symbol_plan c r oc desired orders) ks = Inr plans \<Longrightarrow> distinct ks \<Longrightarrow>
    \<exists>ps. set ps \<subseteq> {p \<in> set (ob_active orders). \<exists>k \<in> set ks. oi_symbol_index (po_intent p) = int k} \<and>
      distinct (map po_order_id ps) \<and>
      mapr (cancel (ri_submit_index r) ''superseded'') ps = Inr (concat (map fst plans))"
proof (induction ks arbitrary: plans)
  case Nil
  then show ?case by (intro exI [of _ "[]"]) simp
next
  case (Cons k ks)
  from Cons.prems obtain ds i rest where plan: "symbol_plan c r oc desired orders k = Inr (ds, i)"
    and rest: "mapr (symbol_plan c r oc desired orders) ks = Inr rest" and plans: "plans = (ds, i) # rest"
    by (auto simp: res_iff)
  from Cons.IH [OF rest] Cons.prems(2) obtain ps where ps:
    "set ps \<subseteq> {p \<in> set (ob_active orders). \<exists>k \<in> set ks. oi_symbol_index (po_intent p) = int k}"
    "distinct (map po_order_id ps)" "mapr (cancel (ri_submit_index r) ''superseded'') ps = Inr (concat (map fst rest))"
    by auto
  let ?qs = "superseded_orders (active_for_symbol (int k) orders)"
  have qs: "set ?qs \<subseteq> {p \<in> set (ob_active orders). oi_symbol_index (po_intent p) = int k}" "distinct (map po_order_id ?qs)"
    using ok by (auto simp: active_for_symbol_def book_ok_def book_ids_def all_orders_def distinct_map_filter)
  have dist: "po_order_id ` set ?qs \<inter> po_order_id ` set ps = {}"
    using qs(1) ps(1) Cons.prems(2) same_id_same_order [OF ok] by fastforce
  from symbol_plan_cancelled [OF ok plan] show ?case
  proof
    assume "ds = []"
    then show ?thesis using ps plans by (intro exI [of _ ps]) auto
  next
    assume "mapr (cancel (ri_submit_index r) ''superseded'') ?qs = Inr ds"
    then show ?thesis using ps plans qs dist by (intro exI [of _ "?qs @ ps"]) (auto simp: mapr_append)
  qed
qed

lemma planned_intent_symbol:
  assumes "symbol_plan c r oc desired orders k = Inr (ds, Some i)"
  shows "oi_symbol_index i = int k \<and> intent_wf i \<and> oi_submit_index i = ri_submit_index r \<and>
    oi_eligible_index i = ri_eligible_index r"
proof -
  from assms obtain f delta where
    "planned_intent r k delta f (superseded_orders (active_for_symbol (int k) orders)) = Inr (Some i)"
    by (rule plan_intent)
  then obtain l s rid where "order_intent_create (intent_of r k delta l s rid f) = Inr i"
    by (rule planned_intent_Some)
  from created_intent [OF this] show ?thesis by simp
qed

lemma plans_intents:
  "mapr (symbol_plan c r oc desired orders) ks = Inr plans \<Longrightarrow> sorted_wrt (<) ks \<Longrightarrow>
    sorted_wrt (<) (map oi_symbol_index (List.map_filter snd plans)) \<and>
    oi_symbol_index ` set (List.map_filter snd plans) \<subseteq> int ` set ks \<and>
    (\<forall>i \<in> set (List.map_filter snd plans). \<exists>k \<in> set ks. \<exists>ds. symbol_plan c r oc desired orders k = Inr (ds, Some i) \<and>
       (ds, Some i) \<in> set plans)"
proof (induction ks arbitrary: plans)
  case (Cons k ks)
  from Cons.prems(1) obtain ds i rest where plan: "symbol_plan c r oc desired orders k = Inr (ds, i)"
    and rest: "mapr (symbol_plan c r oc desired orders) ks = Inr rest" and plans: "plans = (ds, i) # rest"
    by (auto simp: res_iff)
  note IH = Cons.IH [OF rest]
  show ?case
  proof (cases i)
    case None
    then show ?thesis using IH Cons.prems(2) plans by (auto simp: map_filter_simps)
  next
    case (Some j)
    with plan have "oi_symbol_index j = int k" using planned_intent_symbol by blast
    then show ?thesis using IH Cons.prems(2) plan plans Some by (auto simp: map_filter_simps)
  qed
qed (simp add: map_filter_simps)

lemma planned_replaces_all:
  assumes ok: "book_ok orders" and plan: "symbol_plan c r oc desired orders k = Inr (ds, Some i)"
  shows "po_order_id ` set ds = po_order_id ` set (active_for_symbol (int k) orders)"
proof -
  have "mapr (cancel (ri_submit_index r) ''superseded'') (superseded_orders (active_for_symbol (int k) orders)) = Inr ds"
    using plan by (rule symbol_plan_Inr) blast
  then have "map po_order_id ds = map po_order_id (superseded_orders (active_for_symbol (int k) orders))"
    using cancelled_orders ok by (auto simp: active_for_symbol_def book_ok_def)
  then have "set (map po_order_id ds) = set (map po_order_id (superseded_orders (active_for_symbol (int k) orders)))"
    by simp
  then show ?thesis by simp
qed

lemma planned_book:
  assumes ok: "book_ok orders" and plans: "mapr (symbol_plan c r oc desired orders) ks = Inr plans" "sorted_wrt (<) ks"
  fixes new
  defines "b \<equiv> retire new (concat (map fst plans)) orders"
  shows "book_ok b" and "mset (book_ids b) = mset (book_ids orders)"
    and "archive_list (ob_terminal b) = archive_list (ob_terminal orders) @ concat (map fst plans)"
    and "x \<in> set (concat (map fst plans)) \<Longrightarrow> \<exists>p \<in> set (ob_active orders). \<not> po_terminal p \<and>
       x = moved CANCELLED (ri_submit_index r) (Some ''superseded'') None p"
    and "i \<in> set (List.map_filter snd plans) \<Longrightarrow> active_for_symbol (oi_symbol_index i) b = []"
proof -
  have "distinct ks" using plans(2) strict_sorted_iff by blast
  from plans_cancelled [OF ok plans(1) this] obtain ps where ps: "set ps \<subseteq> set (ob_active orders)"
    "distinct (map po_order_id ps)" "mapr (cancel (ri_submit_index r) ''superseded'') ps = Inr (concat (map fst plans))"
    by blast
  show "book_ok b" "mset (book_ids b) = mset (book_ids orders)"
    using retire_ok [OF ok ps] by (simp_all add: b_def)
  show "archive_list (ob_terminal b) = archive_list (ob_terminal orders) @ concat (map fst plans)"
    by (simp add: b_def retire_def)
  have ok_ps: "\<forall>p \<in> set ps. pending_ok p" using ps(1) ok by (auto simp: book_ok_def)
  show "\<exists>p \<in> set (ob_active orders). \<not> po_terminal p \<and> x = moved CANCELLED (ri_submit_index r) (Some ''superseded'') None p"
    if "x \<in> set (concat (map fst plans))"
  proof -
    note all = conjunct2 [OF cancelled_orders [OF ps(3) ok_ps]]
    from that obtain n where n: "n < length (concat (map fst plans))" "x = concat (map fst plans) ! n"
      by (metis in_set_conv_nth)
    then have "n < length ps" using list_all2_lengthD [OF all] by simp
    then show ?thesis using list_all2_nthD2 [OF all n(1)] n(2) ps(1) nth_mem [of n ps] by blast
  qed
  assume "i \<in> set (List.map_filter snd plans)"
  with plans_intents [OF plans] obtain k ds where plan: "symbol_plan c r oc desired orders k = Inr (ds, Some i)"
    and mem: "(ds, Some i) \<in> set plans" by blast
  have sub: "po_order_id ` set ds \<subseteq> po_order_id ` set (concat (map fst plans))" using mem by force
  have "po_order_id ` set (active_for_symbol (int k) orders) \<subseteq> po_order_id ` set (concat (map fst plans))"
    using sub planned_replaces_all [OF ok plan] by simp
  then show "active_for_symbol (oi_symbol_index i) b = []"
    using conjunct1 [OF planned_intent_symbol [OF plan]]
    by (auto simp: b_def retire_def active_for_symbol_def filter_empty_conv)
qed

end
