(* ===== verification/FloatFacts.thy ===== *)
theory FloatFacts
  imports Vectors
begin

text \<open>
  Facts on binary64 values that several components share: absolute value and sign transfer,
  monotonicity of the decimal reading and signs of products.
\<close>

section \<open>Absolute value and sign\<close>

definition copysign :: "f64 \<Rightarrow> f64 \<Rightarrow> f64" where
  "copysign x y = (if signbit y then fneg (fabs x) else fabs x)"

lemma fabs_simps [simp]:
  "isfinite (fabs x) \<longleftrightarrow> isfinite x" "is_f64 (fabs x) \<longleftrightarrow> is_f64 x" "fabs (fabs x) = fabs x"
  by (cases x; simp)+

lemma val_fabs [simp]: "isfinite x \<Longrightarrow> val (fabs x) = \<bar>val x\<bar>"
  by (cases x) simp_all

lemma fneg_facts [simp]:
  "isfinite (fneg x) \<longleftrightarrow> isfinite x" "is_f64 (fneg x) \<longleftrightarrow> is_f64 x"
  "isfinite x \<Longrightarrow> val (fneg x) = - val x"
  by (cases x; simp)+

lemma dec_of_fneg [simp]: "is_f64 x \<Longrightarrow> dec_of_float (fneg x) = - dec_of_float x"
proof (cases x)
  case (F q)
  assume "is_f64 x"
  then show ?thesis using dec_of_float_0_iff [of "F 0"] by (cases "q = 0") (auto simp: F dec_mag_def)
qed (simp_all add: dec_mag_def)

lemma dec_of_fabs [simp]: "is_f64 x \<Longrightarrow> dec_of_float (fabs x) = \<bar>dec_of_float x\<bar>"
proof (cases x)
  case (F q)
  assume "is_f64 x"
  then show ?thesis using abs_dec_of_float [of q] by (simp add: F)
qed (simp_all add: dec_mag_def)

lemma copysign_facts:
  assumes "isfinite x"
  shows "isfinite (copysign x y)" "is_f64 (copysign x y) \<longleftrightarrow> is_f64 x" "fabs (copysign x y) = fabs x"
    "\<bar>val (copysign x y)\<bar> = \<bar>val x\<bar>"
proof -
  show "fabs (copysign x y) = fabs x" by (cases x; simp add: copysign_def)
qed (use assms in \<open>auto simp: copysign_def\<close>)

lemma dec_val_sign: "is_f64 x \<Longrightarrow> isfinite x \<Longrightarrow> (0 \<le> dec_of_float x \<longleftrightarrow> 0 \<le> val x) \<and> (dec_of_float x \<le> 0 \<longleftrightarrow> val x \<le> 0)"
proof (cases x)
  case (F q)
  assume "is_f64 x" "isfinite x"
  then show ?thesis using dec_of_float_sign [of q] dec_of_float_0_iff [of x] unfolding F by fastforce
qed simp_all

lemma dec_copysign:
  assumes "is_f64 x" "isfinite x" "is_f64 y" "isfinite y"
  shows "\<bar>dec_of_float (copysign x y)\<bar> = \<bar>dec_of_float x\<bar>" and "0 \<le> dec_of_float (copysign x y) * dec_of_float y"
proof -
  show "\<bar>dec_of_float (copysign x y)\<bar> = \<bar>dec_of_float x\<bar>" using assms by (simp add: copysign_def)
  have "signbit y \<Longrightarrow> dec_of_float y \<le> 0" "\<not> signbit y \<Longrightarrow> 0 \<le> dec_of_float y"
    using dec_val_sign [OF assms(3,4)] assms(4) by (cases y; simp)+
  then show "0 \<le> dec_of_float (copysign x y) * dec_of_float y"
    using assms by (cases "signbit y") (simp_all add: copysign_def zero_le_mult_iff mult_nonneg_nonpos)
qed

section \<open>Decimal reading and products\<close>

text \<open>The exact decimals of floats are ordered as the floats are.\<close>

lemma dec_of_float_val: "isfinite x \<Longrightarrow> dec_of_float x = dec_of_float (F (val x))"
  by (cases x) (auto simp: dec_mag_def)

lemma dec_of_float_mono:
  assumes "is_f64 x" "isfinite x" "is_f64 y" "isfinite y" and "val x \<le> val y"
  shows "dec_of_float x \<le> dec_of_float y"
proof (rule ccontr)
  assume "\<not> ?thesis"
  then have lt: "dec_of_float (F (val y)) < dec_of_float (F (val x))"
    using assms(2,4) by (simp only: dec_of_float_val [symmetric] not_le)
  have f: "is_f64 (F (val x))" "is_f64 (F (val y))" using assms(1-4) by (cases x; cases y; simp add: rep_def)+
  have "rnd (dec_of_float (F (val x))) = F (val x)" "rnd (dec_of_float (F (val y))) = F (val y)"
    using f by (intro rnd_dec_of_float; simp)+
  then have "fle (F (val y)) (F (val x))" using rnd_mono [OF less_imp_le [OF lt]] by (simp only:)
  then have "val y = val x" using assms(5) by simp
  then show False using lt by simp
qed

lemma dec_of_float_strict:
  assumes "is_f64 x" "isfinite x" "is_f64 y" "isfinite y" and "val x < val y"
  shows "dec_of_float x < dec_of_float y"
proof (rule ccontr)
  assume "\<not> ?thesis"
  then have "dec_of_float (F (val x)) = dec_of_float (F (val y))"
    using dec_of_float_mono [OF assms(1-4)] assms by (simp only: dec_of_float_val [symmetric]) simp
  moreover have "is_f64 (F (val x))" "is_f64 (F (val y))" using assms(1-4) by (cases x; cases y; simp add: rep_def)+
  then have "rnd (dec_of_float (F (val x))) = F (val x)" "rnd (dec_of_float (F (val y))) = F (val y)"
    by (intro rnd_dec_of_float; simp)+
  ultimately have "F (val x) = F (val y)" by metis
  then show False using assms(5) by simp
qed

lemma dec_of_float_pos: "is_f64 x \<Longrightarrow> isfinite x \<Longrightarrow> 0 < val x \<Longrightarrow> 0 < dec_of_float x"
  using dec_of_float_sign [of "val x"] dec_of_float_0_iff [of x] by (cases x) auto

lemma fmul_fin: "isfinite x \<Longrightarrow> isfinite y \<Longrightarrow> val x \<noteq> 0 \<Longrightarrow> val y \<noteq> 0 \<Longrightarrow> fmul x y = rnd (val x * val y)"
  by (cases x; cases y) (simp_all add: fmul_def Let_def)

lemma fmul_zero: "isfinite x \<Longrightarrow> isfinite y \<Longrightarrow> val x = 0 \<or> val y = 0 \<Longrightarrow> isfinite (fmul x y) \<and> val (fmul x y) = 0"
  by (cases x; cases y) (auto simp: fmul_def Let_def signed_zero_def)

text \<open>A non-negative float: finite and not below zero, or positive infinity.\<close>

definition nonneg :: "f64 \<Rightarrow> bool" where
  "nonneg x \<longleftrightarrow> x = PosInf \<or> isfinite x \<and> 0 \<le> val x"

lemma nonneg_rnd: "0 \<le> q \<Longrightarrow> nonneg (rnd q)"
  using val_rnd_nonneg [of q] by (auto simp: nonneg_def rnd_def Let_def)

lemma nonneg_fmul:
  assumes "nonneg x" and "isfinite y" and "0 < val y"
  shows "nonneg (fmul x y)"
proof (cases "isfinite x")
  case True
  show ?thesis
  proof (cases "val x = 0")
    case True
    then show ?thesis using fmul_zero [of x y] assms \<open>isfinite x\<close> by (auto simp: nonneg_def)
  next
    case False
    then show ?thesis using fmul_fin [of x y] assms \<open>isfinite x\<close> nonneg_rnd [of "val x * val y"]
      by (auto simp: nonneg_def)
  qed
next
  case False
  then have "x = PosInf" using assms(1) by (simp add: nonneg_def)
  then show ?thesis using assms by (cases y) (auto simp: nonneg_def fmul_def Let_def signed_inf_def)
qed

lemma nonneg_fmax: "nonneg x \<Longrightarrow> nonneg y \<Longrightarrow> nonneg (fmax x y)"
  by (simp add: fmax_def)

lemma nonneg_F [simp]: "nonneg (F q) \<longleftrightarrow> 0 \<le> q"
  by (simp add: nonneg_def)

lemma nonneg_tolerance [simp]: "nonneg tolerance"
  using tolerance_pos by (simp add: nonneg_def)

lemma nonneg_ulp [simp]: "nonneg (ulp (F q))"
  by (simp add: nonneg_def power_int_def)

text \<open>A non-negative slack never puts a float below itself.\<close>

lemma plus_slack [f64_eval]:
  assumes "small p" and "nonneg s" and "q \<le> p"
  shows "flt (fadd (F p) s) (F q) = False"
proof (cases "isfinite s")
  case True
  then have s: "0 \<le> val s" "fadd (F p) s = rnd (p + val s)" using assms(2) by (auto simp: nonneg_def fadd_def)
  have "fle (rnd p) (rnd (p + val s))" using s(1) by (intro rnd_mono) simp
  then show ?thesis using s(2) assms(3) by (cases "rnd (p + val s)") (auto simp: small_f64(1) [OF assms(1)] fle_def flt_def)
next
  case False
  then have "s = PosInf" using assms(2) by (simp add: nonneg_def)
  then show ?thesis by (simp add: fadd_def flt_def)
qed

end
