(* ===== verification/Liquidity.thy ===== *)
theory Liquidity
  imports Accounting FloatFacts "HOL-Library.Product_Lexorder"
begin

text \<open>
  \<open>trade_rl/simulation/liquidity.py\<close>: one pool of capacity per symbol and bar, shared by the
  orders of that symbol in priority order.  \<open>allocate_request\<close> is the body of the loop of
  \<open>allocate_symbol_capacity\<close>; \<open>liquidity_terms\<close> are the keyword arguments of that function
  and \<open>liquidity_pool\<close> the state of its loop.
\<close>

abbreviation liquidity_error :: "string \<Rightarrow> exc" where
  "liquidity_error m \<equiv> Raise LiquidityAllocationError m"

section \<open>Requests\<close>

datatype liquidity_priority =
    PREVIOUSLY_TRIGGERED_STOP | MARKET_PRIORITY | NEWLY_TRIGGERED_STOP | OLDER_LIMIT | NEWER_LIMIT

fun priority_value :: "liquidity_priority \<Rightarrow> int" where
  "priority_value PREVIOUSLY_TRIGGERED_STOP = 0"
| "priority_value MARKET_PRIORITY = 1"
| "priority_value NEWLY_TRIGGERED_STOP = 2"
| "priority_value OLDER_LIMIT = 3"
| "priority_value NEWER_LIMIT = 4"

record liquidity_request =
  lr_order_id :: string
  lr_remaining_quantity :: f64
  lr_execution_price :: f64
  lr_volume_fraction :: f64
  lr_priority :: liquidity_priority
  lr_eligible_index :: int
  lr_reduce_only :: bool
  lr_minimum_notional :: "f64 option"
  lr_minimum_quantity :: f64
  lr_maximum_quantity :: "f64 option"

definition bad_request_rule :: "f64 option \<Rightarrow> bool" where
  "bad_request_rule v = (case v of None \<Rightarrow> False | Some x \<Rightarrow> \<not> isfinite x \<or> flt x (F 0))"

definition liquidity_request_post_init :: "liquidity_request \<Rightarrow> liquidity_request res" where
  "liquidity_request_post_init q = bindr (checks [
     (bad_request_rule (lr_minimum_notional q) \<or> bad_request_rule (Some (lr_minimum_quantity q)) \<or>
        bad_request_rule (lr_maximum_quantity q), liquidity_error ''request rules must be finite and nonnegative''),
     (case lr_maximum_quantity q of None \<Rightarrow> False
        | Some m \<Rightarrow> fle m (F 0) \<or> flt m (lr_minimum_quantity q), liquidity_error ''invalid request quantity bounds'')]) (\<lambda>_.
     bindr (rewrap liquidity_error (require_sha256 ''order_id'' (lr_order_id q))) (\<lambda>_.
     bindr (checks [
       (\<not> isfinite (lr_remaining_quantity q) \<or> fle (fabs (lr_remaining_quantity q)) tolerance,
          liquidity_error ''remaining_quantity must be finite and non-zero''),
       (\<not> isfinite (lr_execution_price q) \<or> fle (lr_execution_price q) (F 0),
          liquidity_error ''execution_price must be finite and positive''),
       (\<not> isfinite (lr_volume_fraction q) \<or> \<not> (fle (F 0) (lr_volume_fraction q) \<and> fle (lr_volume_fraction q) (F 1)),
          liquidity_error ''available volume fraction must be within [0, 1]''),
       (lr_eligible_index q < 0, liquidity_error ''eligible_index must be a non-negative integer'')]) (\<lambda>_. Inr q)))"

definition priority_key :: "liquidity_request \<Rightarrow> int \<times> int \<times> string" where
  "priority_key q = (priority_value (lr_priority q), lr_eligible_index q, lr_order_id q)"

record liquidity_allocation =
  la_order_id :: string
  la_requested_quantity :: f64
  la_filled_quantity :: f64
  la_requested_notional :: f64
  la_filled_notional :: f64
  la_capacity_before :: f64
  la_accessible_capacity :: f64
  la_capacity_after :: f64
  la_participation_rate :: f64
  la_no_fill_reason :: "string option"
  la_lot_count :: "int option"
  la_lot_size :: f64
  la_exhausted :: bool

record capacity_evidence =
  ce_processing_volume :: f64
  ce_reference_price :: f64
  ce_multiplier :: f64
  ce_participation_limit :: f64
  ce_market_notional :: f64
  ce_initial_capacity :: f64
  ce_consumed_capacity :: f64
  ce_remaining_capacity :: f64

section \<open>The quantity that fits\<close>

definition sign_of_count :: "int \<Rightarrow> int" where
  "sign_of_count n = (if n < 0 then -1 else 1)"

text \<open>The largest number of lots up to a bound, by bisection; \<open>fits\<close> evaluates one candidate.\<close>

function lot_search :: "(int \<Rightarrow> bool res) \<Rightarrow> int \<Rightarrow> int \<Rightarrow> int res" where
  "lot_search fits lower upper = (if lower < upper
     then bindr (fits ((lower + upper + 1) div 2)) (\<lambda>ok.
       if ok then lot_search fits ((lower + upper + 1) div 2) upper
       else lot_search fits lower ((lower + upper + 1) div 2 - 1))
     else Inr lower)"
  by pat_completeness auto
termination
  by (relation "measure (\<lambda>(fits, lower, upper). nat (upper - lower))") auto

declare lot_search.simps [simp del]

text \<open>At most eight steps of \<open>nextafter\<close> towards zero.\<close>

fun back_off :: "nat \<Rightarrow> (f64 \<Rightarrow> bool) \<Rightarrow> f64 \<Rightarrow> f64" where
  "back_off 0 fits x = x"
| "back_off (Suc n) fits x = (if fits x then x else back_off n fits (toward_zero x))"

definition costs :: "f64 \<Rightarrow> f64 \<Rightarrow> f64 \<Rightarrow> f64" where
  "costs quantity price multiplier = fmul (fmul quantity price) multiplier"

text \<open>A reduce-only request is first bounded by the position.\<close>

definition reduce_bound ::
  "liquidity_request \<Rightarrow> f64 \<Rightarrow> rat option \<Rightarrow> f64 \<times> int option \<Rightarrow> (f64 \<times> int option) res" where
  "reduce_bound q lot_size position = (\<lambda>(quantity, lots).
     if \<not> lr_reduce_only q then Inr (quantity, lots)
     else (case position of
         None \<Rightarrow> Inl (Raise AssertionError [])
       | Some held \<Rightarrow> bindr (exact_quantity quantity) (\<lambda>exact.
           if \<not> held * exact \<le> 0 then Inl (Raise AssertionError [])
           else (case lots of
               None \<Rightarrow> bindr (project_quantity \<bar>held\<bar>) (\<lambda>p.
                 Inr (copysign (fmin (fabs quantity) p) quantity, None))
             | Some n \<Rightarrow> bindr (exact_quantity lot_size) (\<lambda>step.
                 let n' = min \<bar>n\<bar> \<lfloor>\<bar>held\<bar> / step\<rfloor> * sign_of_count n in
                 bindr (project_quantity (of_int n' * step)) (\<lambda>p. Inr (p, Some n')))))))"

definition quantity_bound ::
  "f64 \<Rightarrow> f64 option \<Rightarrow> f64 \<times> int option \<Rightarrow> (f64 \<times> int option) res" where
  "quantity_bound lot_size capacity = (\<lambda>(quantity, lots). case capacity of
      None \<Rightarrow> Inr (quantity, lots)
    | Some c \<Rightarrow> if \<not> isfinite c \<or> flt c (F 0)
        then Inl (liquidity_error ''quantity_capacity must be finite and non-negative'')
        else (case lots of
            None \<Rightarrow> Inr (copysign (fmin (fabs quantity) c) quantity, None)
          | Some n \<Rightarrow> bindr (exact_quantity lot_size) (\<lambda>step. bindr (exact_quantity c) (\<lambda>exact.
              let n' = min \<bar>n\<bar> \<lfloor>exact / step\<rfloor> * sign_of_count n in
              bindr (project_quantity (of_int n' * step)) (\<lambda>p. Inr (p, Some n'))))))"

definition lots_fit :: "f64 \<Rightarrow> f64 \<Rightarrow> f64 \<Rightarrow> rat \<Rightarrow> int \<Rightarrow> bool res" where
  "lots_fit price multiplier capacity step n = bindr (project_quantity (of_int n * step)) (\<lambda>p.
     Inr (fle (costs p price multiplier) capacity))"

text \<open>The request in whole lots, bounded by the position and by the quantity capacity.\<close>

definition bounded_quantity ::
  "liquidity_request \<Rightarrow> f64 \<Rightarrow> rat option \<Rightarrow> f64 option \<Rightarrow> (f64 \<times> int option) res" where
  "bounded_quantity q lot_size position quantity_capacity =
     bindr (quantize_quantity (lr_remaining_quantity q) lot_size) (\<lambda>r0.
     bindr (reduce_bound q lot_size position r0) (\<lambda>r1.
     quantity_bound lot_size quantity_capacity r1))"

definition capacity_quantity ::
  "liquidity_request \<Rightarrow> f64 \<Rightarrow> f64 \<Rightarrow> f64 \<Rightarrow> rat option \<Rightarrow> f64 option \<Rightarrow> (f64 \<times> int option) res" where
  "capacity_quantity q capacity lot_size multiplier position quantity_capacity =
    (let price = lr_execution_price q in
     bindr (bounded_quantity q lot_size position quantity_capacity) (\<lambda>(quantity, lots).
     if fle (costs (fabs quantity) price multiplier) capacity then Inr (quantity, lots)
     else (case lots of
         None \<Rightarrow> bindr (py_div capacity (fmul price multiplier)) (\<lambda>raw.
           let fits = (\<lambda>x. fle (costs x price multiplier) capacity);
               x = back_off 8 fits (fmin raw (fabs quantity)) in
           if flt capacity (costs x price multiplier)
           then Inl (liquidity_error ''capacity-derived quantity cannot be represented within symbol capacity'')
           else Inr (copysign x quantity, None))
       | Some n \<Rightarrow> bindr (exact_quantity lot_size) (\<lambda>step.
           bindr (lot_search (lots_fit price multiplier capacity step) 0 (\<bar>n\<bar> - 1)) (\<lambda>lower.
           let signed = (if 0 < n then lower else - lower) in
           bindr (project_quantity (of_int signed * step)) (\<lambda>p. Inr (p, Some signed)))))))"

section \<open>The shared pool\<close>

record liquidity_terms =
  lt_volume :: f64
  lt_market_notional :: "f64 option"
  lt_quantity_capacity :: "f64 option"
  lt_price :: f64
  lt_multiplier :: f64
  lt_participation :: f64
  lt_lot_size :: f64
  lt_minimum_notional :: f64
  lt_position :: "rat option"

record liquidity_pool =
  lp_capacity :: f64
  lp_quantity :: "f64 option"
  lp_position :: "rat option"
  lp_allocations :: "liquidity_allocation list"

definition bad_capacity :: "f64 option \<Rightarrow> bool" where
  "bad_capacity c = (case c of None \<Rightarrow> False | Some x \<Rightarrow> \<not> isfinite x \<or> flt x (F 0))"

definition terms_checks :: "liquidity_terms \<Rightarrow> unit res" where
  "terms_checks t =
    (let finite_term = (\<lambda>name x. (\<not> isfinite x, liquidity_error (name @ '' must be finite''))) in checks [
       finite_term ''processing_volume'' (lt_volume t), finite_term ''price'' (lt_price t),
       finite_term ''contract_multiplier'' (lt_multiplier t),
       finite_term ''participation_limit'' (lt_participation t),
       finite_term ''lot_size'' (lt_lot_size t), finite_term ''minimum_notional'' (lt_minimum_notional t),
       (flt (lt_volume t) (F 0), liquidity_error ''processing_volume must be non-negative''),
       (bad_capacity (lt_market_notional t),
          liquidity_error ''processing_market_notional must be finite and non-negative''),
       (bad_capacity (lt_quantity_capacity t),
          liquidity_error ''processing_quantity_capacity must be finite and non-negative''),
       (fle (lt_price t) (F 0), liquidity_error ''price must be positive''),
       (fle (lt_multiplier t) (F 0), liquidity_error ''contract_multiplier must be positive''),
       (\<not> (flt (F 0) (lt_participation t) \<and> fle (lt_participation t) (F 1)),
          liquidity_error ''participation_limit must be within (0, 1]''),
       (flt (lt_lot_size t) (F 0), liquidity_error ''lot_size must be non-negative''),
       (flt (lt_minimum_notional t) (F 0), liquidity_error ''minimum_notional must be non-negative'')])"

definition market_notional_of :: "liquidity_terms \<Rightarrow> f64" where
  "market_notional_of t = (case lt_market_notional t of
      None \<Rightarrow> fmul (fmul (lt_volume t) (lt_price t)) (lt_multiplier t) | Some n \<Rightarrow> n)"

definition initial_capacity_of :: "liquidity_terms \<Rightarrow> f64" where
  "initial_capacity_of t = fmul (market_notional_of t) (lt_participation t)"

definition initial_quantity_of :: "liquidity_terms \<Rightarrow> f64 option" where
  "initial_quantity_of t = map_option (\<lambda>c. fmul c (lt_participation t)) (lt_quantity_capacity t)"

definition zero_allocation :: "liquidity_request \<Rightarrow> f64 \<Rightarrow> f64 \<Rightarrow> f64 \<Rightarrow> string \<Rightarrow> liquidity_allocation" where
  "zero_allocation q requested prior accessible reason =
     \<lparr>la_order_id = lr_order_id q, la_requested_quantity = lr_remaining_quantity q, la_filled_quantity = F 0,
      la_requested_notional = requested, la_filled_notional = F 0, la_capacity_before = prior,
      la_accessible_capacity = accessible, la_capacity_after = prior, la_participation_rate = F 0,
      la_no_fill_reason = Some reason, la_lot_count = None, la_lot_size = F 0, la_exhausted = False\<rparr>"

text \<open>The requested notional is regrouped when its first product overflows.\<close>

definition requested_notional :: "liquidity_request \<Rightarrow> f64 \<Rightarrow> f64 res" where
  "requested_notional q multiplier =
    (let n = costs (fabs (lr_remaining_quantity q)) (lr_execution_price q) multiplier;
         regrouped = fmul (fabs (lr_remaining_quantity q)) (fmul (lr_execution_price q) multiplier);
         n' = (if \<not> isfinite n \<and> isfinite regrouped \<and> flt (F 0) regrouped then regrouped else n)
     in if \<not> isfinite n' then Inl (liquidity_error ''requested notional is non-finite'') else Inr n')"

text \<open>The reasons not to fill that are decided before a quantity is sought.\<close>

definition early_reason ::
  "liquidity_request \<Rightarrow> rat option \<Rightarrow> f64 \<Rightarrow> f64 option \<Rightarrow> string option res" where
  "early_reason q position accessible accessible_quantity =
     bindr (case lr_maximum_quantity q of None \<Rightarrow> Inr False
       | Some m \<Rightarrow> bindr (exact_quantity (lr_remaining_quantity q)) (\<lambda>r. bindr (exact_quantity m) (\<lambda>x. Inr (x < \<bar>r\<bar>))))
       (\<lambda>above.
     if above then Inr (Some ''above_maximum_quantity'')
     else bindr (if \<not> lr_reduce_only q then Inr False
         else (case position of None \<Rightarrow> Inl (Raise AssertionError [])
           | Some held \<Rightarrow> bindr (exact_quantity (lr_remaining_quantity q)) (\<lambda>r. Inr (0 \<le> held * r))))
       (\<lambda>exhausted.
     Inr (if exhausted then Some ''reduce_only_exhausted''
       else if fle (lr_volume_fraction q) tolerance then Some ''zero_volume_fraction''
       else if fle accessible tolerance \<or> (case accessible_quantity of None \<Rightarrow> False | Some c \<Rightarrow> fle c tolerance)
         then Some ''no_capacity'' else None)))"

definition participation_of :: "liquidity_terms \<Rightarrow> f64 \<Rightarrow> f64 \<Rightarrow> f64" where
  "participation_of t notional quantity = fmax
     (if fle (market_notional_of t) tolerance then F 0 else fdiv notional (market_notional_of t))
     (case lt_quantity_capacity t of None \<Rightarrow> F 0
       | Some c \<Rightarrow> if flt tolerance c then fdiv (fabs quantity) c else F 0)"

text \<open>The minima an otherwise possible fill must reach.\<close>

definition late_reason ::
  "liquidity_terms \<Rightarrow> liquidity_request \<Rightarrow> rat \<Rightarrow> f64 \<Rightarrow> string option res" where
  "late_reason t q filled_exact notional = bindr (exact_quantity (lr_minimum_quantity q)) (\<lambda>minimum.
     Inr (if \<bar>filled_exact\<bar> < minimum then Some ''below_minimum_quantity''
       else if flt (fadd notional tolerance)
         (case lr_minimum_notional q of None \<Rightarrow> lt_minimum_notional t | Some m \<Rightarrow> m)
       then Some ''below_minimum_notional'' else None))"

definition fill_request ::
  "liquidity_terms \<Rightarrow> liquidity_request \<Rightarrow> f64 \<Rightarrow> f64 \<Rightarrow> f64 option \<Rightarrow> liquidity_pool \<Rightarrow> liquidity_pool res" where
  "fill_request t q requested accessible accessible_quantity pool =
    (let prior = lp_capacity pool;
         skip = (\<lambda>reason. Inr (pool\<lparr>lp_allocations := lp_allocations pool @ [zero_allocation q requested prior accessible reason]\<rparr>))
     in bindr (capacity_quantity q accessible (lt_lot_size t) (lt_multiplier t) (lp_position pool) accessible_quantity)
       (\<lambda>(filled, lots).
     if flt (fabs (lr_remaining_quantity q)) (fabs filled)
     then Inl (liquidity_error ''rounded fill exceeds the order remaining quantity'')
     else if fle (fabs filled) tolerance then skip ''below_lot_size''
     else (let notional = costs (fabs filled) (lr_execution_price q) (lt_multiplier t);
               fill_lot = (if lots = None then F 0 else lt_lot_size t) in
       if \<not> isfinite notional then Inl (liquidity_error ''filled notional is non-finite'')
       else bindr (accepted_fill_quantity filled fill_lot lots) (\<lambda>exact.
         bindr (late_reason t q exact notional) (\<lambda>reason. case reason of
           Some m \<Rightarrow> skip m
         | None \<Rightarrow>
             if flt (fadd prior tolerance) notional
             then Inl (liquidity_error ''rounded fill exceeds remaining symbol capacity'')
             else (let after = fmax (F 0) (fsub prior notional);
                       position = map_option (\<lambda>p. p + exact) (lp_position pool) in
               Inr \<lparr>lp_capacity = after,
                 lp_quantity = map_option (\<lambda>c. fmax (F 0) (fsub c (fabs filled))) (lp_quantity pool),
                 lp_position = position,
                 lp_allocations = lp_allocations pool @ [\<lparr>la_order_id = lr_order_id q,
                   la_requested_quantity = lr_remaining_quantity q, la_filled_quantity = filled,
                   la_requested_notional = requested, la_filled_notional = notional, la_capacity_before = prior,
                   la_accessible_capacity = accessible, la_capacity_after = after,
                   la_participation_rate = participation_of t notional filled, la_no_fill_reason = None,
                   la_lot_count = lots, la_lot_size = fill_lot,
                   la_exhausted = (lr_reduce_only q \<and> position = Some 0)\<rparr>]\<rparr>))))))"

definition allocate_request :: "liquidity_terms \<Rightarrow> liquidity_pool \<Rightarrow> liquidity_request \<Rightarrow> liquidity_pool res" where
  "allocate_request t pool q =
    (let accessible = fmin (lp_capacity pool) (fmul (initial_capacity_of t) (lr_volume_fraction q)) in
     bindr (case initial_quantity_of t of None \<Rightarrow> Inr None
       | Some c \<Rightarrow> (case lp_quantity pool of None \<Rightarrow> Inl (Raise AssertionError [])
           | Some left \<Rightarrow> Inr (Some (fmin left (fmul c (lr_volume_fraction q)))))) (\<lambda>accessible_quantity.
     bindr (requested_notional q (lt_multiplier t)) (\<lambda>requested.
     bindr (early_reason q (lp_position pool) accessible accessible_quantity) (\<lambda>reason. case reason of
       Some m \<Rightarrow> Inr (pool\<lparr>lp_allocations := lp_allocations pool @
         [zero_allocation q requested (lp_capacity pool) accessible m]\<rparr>)
     | None \<Rightarrow> fill_request t q requested accessible accessible_quantity pool))))"

section \<open>The closing accounts\<close>

definition capacity_slack :: f64 where
  "capacity_slack = rnd (1 / 10 ^ 9)"

definition quantity_accounts :: "liquidity_terms \<Rightarrow> liquidity_pool \<Rightarrow> unit res" where
  "quantity_accounts t pool = (case initial_quantity_of t of None \<Rightarrow> Inr ()
    | Some initial \<Rightarrow> (case lp_quantity pool of None \<Rightarrow> Inl (Raise AssertionError [])
      | Some left \<Rightarrow>
        (let filled = py_sum (map (\<lambda>a. fabs (la_filled_quantity a)) (lp_allocations pool));
             slack = fmax tolerance (fmul (F 8) (ulp initial))
         in checks [
           (\<not> isclose_abs (fsub initial left) filled slack,
              liquidity_error ''native quantity capacity accounting is inconsistent''),
           (flt (fadd initial slack) filled, liquidity_error ''native quantity capacity was over-allocated'')])))"

definition capacity_accounts :: "liquidity_terms \<Rightarrow> liquidity_pool \<Rightarrow> unit res" where
  "capacity_accounts t pool =
    (let initial = initial_capacity_of t; filled = py_sum (map la_filled_notional (lp_allocations pool));
         slack = fmax (fmax capacity_slack (fmul (F 8) (ulp initial))) (fmul (F 8) (ulp (lp_capacity pool)))
     in checks [
       (\<not> isclose_abs (fsub initial (lp_capacity pool)) filled slack,
          liquidity_error ''symbol capacity accounting is inconsistent''),
       (flt (fadd initial slack) filled, liquidity_error ''symbol capacity was over-allocated'')])"

definition pool_checks :: "liquidity_terms \<Rightarrow> liquidity_request list \<Rightarrow> unit res" where
  "pool_checks t ordered = checks [
     (list_ex lr_reduce_only ordered \<and> lt_position t = None,
        liquidity_error ''reduce-only allocation requires exact Fraction initial_position''),
     (has_dup (map lr_order_id ordered), liquidity_error ''duplicate liquidity request order IDs are not allowed''),
     (\<not> isfinite (market_notional_of t) \<or> \<not> isfinite (initial_capacity_of t) \<or>
        (case initial_quantity_of t of None \<Rightarrow> False | Some c \<Rightarrow> \<not> isfinite c),
        liquidity_error ''symbol capacity or market notional is non-finite'')]"

definition initial_pool :: "liquidity_terms \<Rightarrow> liquidity_pool" where
  "initial_pool t = \<lparr>lp_capacity = initial_capacity_of t, lp_quantity = initial_quantity_of t,
     lp_position = lt_position t, lp_allocations = []\<rparr>"

definition allocate_symbol_capacity ::
  "liquidity_request list \<Rightarrow> liquidity_terms \<Rightarrow> (liquidity_allocation list \<times> capacity_evidence) res" where
  "allocate_symbol_capacity requests t =
     bindr (terms_checks t) (\<lambda>_.
     let ordered = sort_key priority_key requests in
     bindr (pool_checks t ordered) (\<lambda>_.
     bindr (foldr_res (allocate_request t) (initial_pool t) ordered) (\<lambda>pool.
     bindr (quantity_accounts t pool) (\<lambda>_.
     bindr (capacity_accounts t pool) (\<lambda>_.
     Inr (lp_allocations pool, \<lparr>ce_processing_volume = lt_volume t, ce_reference_price = lt_price t,
       ce_multiplier = lt_multiplier t, ce_participation_limit = lt_participation t,
       ce_market_notional = market_notional_of t, ce_initial_capacity = initial_capacity_of t,
       ce_consumed_capacity = fsub (initial_capacity_of t) (lp_capacity pool),
       ce_remaining_capacity = lp_capacity pool\<rparr>))))))"

section \<open>The quantity found\<close>

lemma lot_search_found:
  assumes "lot_search fits lower upper = Inr n" and "lower \<le> upper"
  shows "lower \<le> n \<and> n \<le> upper \<and> (n = lower \<or> fits n = Inr True) \<and> (n = upper \<or> fits (n + 1) = Inr False)"
  using assms
proof (induction fits lower upper arbitrary: n rule: lot_search.induct)
  case (1 fits lower upper)
  show ?case
  proof (cases "lower < upper")
    case False
    then have "n = lower" using "1.prems"(1) by (subst (asm) lot_search.simps) simp
    then show ?thesis using False "1.prems"(2) by simp
  next
    case True
    let ?m = "(lower + upper + 1) div 2"
    have m: "lower < ?m" "?m \<le> upper" using True by simp_all
    from "1.prems"(1) True obtain ok where ok: "fits ?m = Inr ok"
      and rest: "(if ok then lot_search fits ?m upper else lot_search fits lower (?m - 1)) = Inr n"
      by (auto simp: lot_search.simps [of fits lower upper] res_iff)
    show ?thesis
    proof (cases ok)
      case True
      then have "lot_search fits ?m upper = Inr n" using rest by simp
      from "1.IH"(1) [OF \<open>lower < upper\<close> ok True this m(2)] show ?thesis using m ok True by auto
    next
      case False
      then have "lot_search fits lower (?m - 1) = Inr n" using rest by simp
      from "1.IH"(2) [OF \<open>lower < upper\<close> ok False this] have
        "lower \<le> n \<and> n \<le> ?m - 1 \<and> (n = lower \<or> fits n = Inr True) \<and> (n = ?m - 1 \<or> fits (n + 1) = Inr False)"
        using m by simp
      moreover have "n = ?m - 1 \<Longrightarrow> fits (n + 1) = Inr False" using ok False by simp
      ultimately show ?thesis using m by fastforce
    qed
  qed
qed

lemma lot_search_total:
  assumes "lower \<le> upper" and "\<forall>n. lower < n \<and> n \<le> upper \<longrightarrow> (\<exists>ok. fits n = Inr ok)"
  shows "\<exists>n. lot_search fits lower upper = Inr n \<and> lower \<le> n \<and> n \<le> upper"
  using assms
proof (induction fits lower upper rule: lot_search.induct)
  case (1 fits lower upper)
  let ?m = "(lower + upper + 1) div 2"
  show ?case
  proof (cases "lower < upper")
    case True
    then have m: "lower < ?m" "?m \<le> upper" by simp_all
    then obtain ok where ok: "fits ?m = Inr ok" using "1.prems"(2) by blast
    show ?thesis
    proof (cases ok)
      case True
      with "1.IH"(1) [OF \<open>lower < upper\<close> ok this] "1.prems" m ok show ?thesis
        by (fastforce simp: lot_search.simps [of fits lower upper])
    next
      case False
      with "1.IH"(2) [OF \<open>lower < upper\<close> ok this] "1.prems" m ok show ?thesis
        by (fastforce simp: lot_search.simps [of fits lower upper])
    qed
  qed (use "1.prems" in \<open>simp add: lot_search.simps\<close>)
qed

lemma back_off_facts:
  assumes "is_f64 x" and "isfinite x" and "0 \<le> val x"
  shows "is_f64 (back_off n fits x) \<and> isfinite (back_off n fits x) \<and> 0 \<le> val (back_off n fits x) \<and>
    val (back_off n fits x) \<le> val x"
  using assms
proof (induction n fits x rule: back_off.induct)
  case (2 n fits x)
  have "val (toward_zero x) \<le> val x" if "\<not> fits x"
    using "2.prems" pred_mag_less [of "val x"] by (cases x) auto
  then show ?case using 2 toward_zero_sign [of x] by fastforce
qed simp

text \<open>
  \<open>within\<close>: a candidate fill moves in the direction of an exact amount and not beyond it.
\<close>

definition within_amount :: "rat \<Rightarrow> rat \<Rightarrow> bool" where
  "within_amount x bound \<longleftrightarrow> \<bar>x\<bar> \<le> \<bar>bound\<bar> \<and> 0 \<le> x * bound"

text \<open>The exact amount a quantity with its lot count stands for.\<close>

definition exact_of :: "f64 \<Rightarrow> f64 \<times> int option \<Rightarrow> rat" where
  "exact_of lot_size = (\<lambda>(quantity, lots). case lots of None \<Rightarrow> dec_of_float quantity | Some n \<Rightarrow> of_int n * dec_of_float lot_size)"

text \<open>What every stage of \<open>capacity_quantity\<close> keeps of the stage before.\<close>

definition sized :: "f64 \<Rightarrow> f64 \<times> int option \<Rightarrow> bool" where
  "sized lot_size = (\<lambda>(quantity, lots). is_f64 quantity \<and> isfinite quantity \<and>
     (case lots of None \<Rightarrow> dec_of_float lot_size = 0
      | Some n \<Rightarrow> 0 < dec_of_float lot_size \<and> project_quantity (of_int n * dec_of_float lot_size) = Inr quantity))"

lemma within_trans: "within_amount x y \<Longrightarrow> within_amount y z \<Longrightarrow> within_amount x z"
  by (auto simp: within_amount_def zero_le_mult_iff abs_if split: if_splits)

lemma within_count:
  assumes "0 < step" and "\<bar>m\<bar> \<le> \<bar>n\<bar>" and "0 \<le> m * n"
  shows "within_amount (of_int m * step) (of_int n * step :: rat)"
proof -
  have "\<bar>of_int m * step\<bar> \<le> \<bar>of_int n * step\<bar>"
    using assms(1,2) by (simp add: abs_mult flip: of_int_abs)
  moreover have "0 \<le> (of_int (m * n) :: rat)" using assms(3) by (simp only: of_int_0_le_iff)
  then have "0 \<le> (of_int (m * n) :: rat) * (step * step)" using assms(1) by simp
  ultimately show ?thesis by (simp add: within_amount_def mult.commute mult.left_commute)
qed

lemma signed_min:
  assumes "0 \<le> b" shows "\<bar>min \<bar>n\<bar> b * sign_of_count n\<bar> \<le> \<bar>n\<bar> \<and> \<bar>min \<bar>n\<bar> b * sign_of_count n\<bar> \<le> b \<and>
    0 \<le> min \<bar>n\<bar> b * sign_of_count n * n"
  using assms by (auto simp: sign_of_count_def min_def zero_le_mult_iff mult_le_0_iff)

lemma quantized_sized:
  assumes "quantize_quantity x lot_size = Inr r" and "is_f64 x"
  shows "sized lot_size r \<and> within_amount (exact_of lot_size r) (dec_of_float x)"
proof -
  obtain p lots where r: "r = (p, lots)" by (cases r)
  show ?thesis
  proof (cases lots)
    case None
    then show ?thesis using assms
      by (auto simp: r quantize_quantity_def sized_def exact_of_def within_amount_def res_iff Let_def split: if_splits)
  next
    case (Some n)
    with assms(1) r have q: "quantize_quantity x lot_size = Inr (p, Some n)" by simp
    show ?thesis using quantize_count [OF q] project_quantity_f64
      by (auto simp: r Some sized_def exact_of_def within_amount_def)
  qed
qed

text \<open>Bounding a quantity without lots.\<close>

lemma bounded_float:
  assumes "is_f64 x" "isfinite x" "is_f64 c" "isfinite c" "0 \<le> val c"
  shows "is_f64 (copysign (fmin (fabs x) c) x)" "isfinite (copysign (fmin (fabs x) c) x)"
    "within_amount (dec_of_float (copysign (fmin (fabs x) c) x)) (dec_of_float x)"
    "\<bar>dec_of_float (copysign (fmin (fabs x) c) x)\<bar> \<le> dec_of_float c"
proof -
  let ?m = "fmin (fabs x) c"
  have m: "is_f64 ?m" "isfinite ?m" using assms by (simp_all add: fmin_def)
  have v: "0 \<le> val ?m" "val ?m \<le> val (fabs x)" "val ?m \<le> val c" using assms by (auto simp: fmin_def flt_def fle_def [symmetric])
  show "is_f64 (copysign ?m x)" "isfinite (copysign ?m x)" using m copysign_facts [OF m(2)] by simp_all
  have d: "0 \<le> dec_of_float ?m" using dec_val_sign [OF m] v by simp
  have "dec_of_float ?m \<le> dec_of_float (fabs x)" by (rule dec_of_float_mono) (use m v assms in simp_all)
  then show "within_amount (dec_of_float (copysign ?m x)) (dec_of_float x)"
    using dec_copysign [OF m assms(1,2)] d assms(1) by (simp add: within_amount_def)
  have "dec_of_float ?m \<le> dec_of_float c" by (rule dec_of_float_mono) (use m v assms in simp_all)
  then show "\<bar>dec_of_float (copysign ?m x)\<bar> \<le> dec_of_float c" using dec_copysign(1) [OF m assms(1,2)] d by simp
qed

lemma reduce_bounded:
  assumes "reduce_bound q lot_size position r = Inr r'" and "sized lot_size r"
  shows "sized lot_size r' \<and> within_amount (exact_of lot_size r') (exact_of lot_size r) \<and>
    (lr_reduce_only q \<longrightarrow> (\<exists>held. position = Some held \<and> \<bar>exact_of lot_size r'\<bar> \<le> \<bar>held\<bar>)) \<and>
    (snd r' = None \<longleftrightarrow> snd r = None)"
proof -
  obtain x lots where r: "r = (x, lots)" by (cases r)
  show ?thesis
  proof (cases "lr_reduce_only q")
    case False
    then show ?thesis using assms by (auto simp: r reduce_bound_def within_amount_def)
  next
    case True
    then obtain held where held: "position = Some held" using assms(1) by (auto simp: r reduce_bound_def split: option.splits)
    show ?thesis
    proof (cases lots)
      case None
      with assms True held r obtain p where p: "project_quantity \<bar>held\<bar> = Inr p" and r': "r' = (copysign (fmin (fabs x) p) x, None)"
        by (auto simp: reduce_bound_def res_iff split: if_splits)
      have x: "is_f64 x" "isfinite x" "dec_of_float lot_size = 0" using assms(2) r None by (simp_all add: sized_def)
      have pf: "is_f64 p" "isfinite p" "0 \<le> val p" using project_quantity_f64 [OF p] project_quantity_sign [OF p] by simp_all
      have "dec_of_float p \<le> \<bar>held\<bar>" using project_quantity_le [OF p] by simp
      then show ?thesis using bounded_float [OF x(1,2) pf] x(3) held
        by (auto simp: r r' None sized_def exact_of_def)
    next
      case (Some n)
      let ?s = "dec_of_float lot_size"
      let ?n = "min \<bar>n\<bar> \<lfloor>\<bar>held\<bar> / ?s\<rfloor> * sign_of_count n"
      from assms True held r Some obtain p where p: "project_quantity (of_int ?n * ?s) = Inr p" and r': "r' = (p, Some ?n)"
        by (auto simp: reduce_bound_def res_iff Let_def split: if_splits)
      have s: "0 < ?s" using assms(2) r Some by (simp add: sized_def)
      then have "0 \<le> \<lfloor>\<bar>held\<bar> / ?s\<rfloor>" by simp
      note m = signed_min [OF this, of n]
      have "\<bar>of_int ?n\<bar> * ?s \<le> of_int \<lfloor>\<bar>held\<bar> / ?s\<rfloor> * ?s"
      proof (rule mult_right_mono)
        have "(of_int \<bar>?n\<bar> :: rat) \<le> of_int \<lfloor>\<bar>held\<bar> / ?s\<rfloor>" using m by (simp only: of_int_le_iff)
        then show "\<bar>of_int ?n :: rat\<bar> \<le> of_int \<lfloor>\<bar>held\<bar> / ?s\<rfloor>" by (simp only: of_int_abs)
      qed (use s in simp)
      also have "\<dots> \<le> \<bar>held\<bar> / ?s * ?s" using s by (intro mult_right_mono) simp_all
      finally have "\<bar>of_int ?n * ?s\<bar> \<le> \<bar>held\<bar>" using s by (simp add: abs_mult)
      then show ?thesis using within_count [OF s, of ?n n] m s p held project_quantity_f64 [OF p]
        by (auto simp: r r' Some sized_def exact_of_def)
    qed
  qed
qed

lemma quantity_bounded:
  assumes "quantity_bound lot_size capacity r = Inr r'" and "sized lot_size r"
    and "\<And>c. capacity = Some c \<Longrightarrow> is_f64 c"
  shows "sized lot_size r' \<and> within_amount (exact_of lot_size r') (exact_of lot_size r) \<and>
    (snd r' = None \<longleftrightarrow> snd r = None)"
proof -
  obtain x lots where r: "r = (x, lots)" by (cases r)
  show ?thesis
  proof (cases capacity)
    case None
    then show ?thesis using assms by (auto simp: r quantity_bound_def within_amount_def)
  next
    case (Some c)
    with assms(1) r have c: "isfinite c" "0 \<le> val c" by (auto simp: quantity_bound_def split: if_splits)
    have cf: "is_f64 c" using assms(3) Some by simp
    show ?thesis
    proof (cases lots)
      case None
      with assms Some r have r': "r' = (copysign (fmin (fabs x) c) x, None)" by (auto simp: quantity_bound_def split: if_splits)
      have x: "is_f64 x" "isfinite x" "dec_of_float lot_size = 0" using assms(2) r None by (simp_all add: sized_def)
      then show ?thesis using bounded_float [OF x(1,2) cf c] by (auto simp: r r' None sized_def exact_of_def)
    next
      case (Some n)
      let ?s = "dec_of_float lot_size"
      let ?n = "min \<bar>n\<bar> \<lfloor>dec_of_float c / ?s\<rfloor> * sign_of_count n"
      from assms \<open>capacity = Some c\<close> r Some obtain p where p: "project_quantity (of_int ?n * ?s) = Inr p" and r': "r' = (p, Some ?n)"
        by (auto simp: quantity_bound_def res_iff Let_def split: if_splits)
      have s: "0 < ?s" using assms(2) r Some by (simp add: sized_def)
      have "0 \<le> dec_of_float c" using dec_val_sign [OF cf c(1)] c(2) by simp
      then have "0 \<le> \<lfloor>dec_of_float c / ?s\<rfloor>" using s by simp
      note m = signed_min [OF this, of n]
      then show ?thesis using within_count [OF s, of ?n n] s p project_quantity_f64 [OF p]
        by (auto simp: r r' Some sized_def exact_of_def)
    qed
  qed
qed

lemma bounded_quantity_sized:
  assumes "bounded_quantity q lot_size position quantity_capacity = Inr r" and "is_f64 (lr_remaining_quantity q)"
    and "\<And>c. quantity_capacity = Some c \<Longrightarrow> is_f64 c"
  shows "sized lot_size r \<and> within_amount (exact_of lot_size r) (dec_of_float (lr_remaining_quantity q)) \<and>
    (lr_reduce_only q \<longrightarrow> (\<exists>held. position = Some held \<and> \<bar>exact_of lot_size r\<bar> \<le> \<bar>held\<bar>))"
proof -
  from assms(1) obtain r0 r1 where r: "quantize_quantity (lr_remaining_quantity q) lot_size = Inr r0"
    "reduce_bound q lot_size position r0 = Inr r1" "quantity_bound lot_size quantity_capacity r1 = Inr r"
    by (auto simp: bounded_quantity_def res_iff)
  note s0 = quantized_sized [OF r(1) assms(2)]
  note s1 = reduce_bounded [OF r(2) conjunct1 [OF s0]]
  note s2 = quantity_bounded [OF r(3) conjunct1 [OF s1] assms(3)]
  have "within_amount (exact_of lot_size r) (dec_of_float (lr_remaining_quantity q))"
    using s0 s1 s2 within_trans by blast
  moreover have "\<bar>exact_of lot_size r\<bar> \<le> \<bar>exact_of lot_size r1\<bar>" using s2 by (simp add: within_amount_def)
  ultimately show ?thesis using s1 s2 by fastforce
qed

lemma costs_zero: "isfinite x \<Longrightarrow> isfinite price \<Longrightarrow> isfinite multiplier \<Longrightarrow> val x = 0 \<Longrightarrow>
    isfinite (costs x price multiplier) \<and> val (costs x price multiplier) = 0"
  using fmul_zero [of x price] fmul_zero [of "fmul x price" multiplier] by (simp add: costs_def)

lemma fdiv_capacity:
  assumes c: "isfinite capacity" "0 < val capacity" "is_f64 capacity" and u: "nonneg unit" "\<not> feq unit (F 0)"
  shows "nonneg (fdiv capacity unit) \<and> is_f64 (fdiv capacity unit)"
proof (cases "isfinite unit")
  case True
  then have v: "0 < val unit" using u by (cases unit) (auto simp: nonneg_def feq_def)
  then show ?thesis using fdiv_fin [OF c(1) True] c(2) nonneg_rnd [of "val capacity / val unit"] by simp
next
  case False
  then have "unit = PosInf" using u(1) by (simp add: nonneg_def)
  then show ?thesis using c by (cases capacity) (auto simp: fdiv_def Let_def signed_zero_def nonneg_def rep_def)
qed

definition capacity_inputs :: "liquidity_request \<Rightarrow> f64 \<Rightarrow> f64 \<Rightarrow> f64 option \<Rightarrow> bool" where
  "capacity_inputs q capacity multiplier quantity_capacity \<longleftrightarrow> is_f64 (lr_remaining_quantity q) \<and>
     isfinite (lr_execution_price q) \<and> 0 < val (lr_execution_price q) \<and> isfinite multiplier \<and> 0 < val multiplier \<and>
     isfinite capacity \<and> 0 < val capacity \<and> is_f64 capacity \<and> (\<forall>c. quantity_capacity = Some c \<longrightarrow> is_f64 c)"

lemma capacity_quantity_cases:
  assumes run: "capacity_quantity q capacity lot_size multiplier position quantity_capacity = Inr (filled, lots)"
    and i: "capacity_inputs q capacity multiplier quantity_capacity"
  obtains (bounded) "bounded_quantity q lot_size position quantity_capacity = Inr (filled, lots)"
  | (float) quantity where "bounded_quantity q lot_size position quantity_capacity = Inr (quantity, None)" "lots = None"
      "filled = copysign (back_off 8 (\<lambda>x. fle (costs x (lr_execution_price q) multiplier) capacity)
        (fmin (fdiv capacity (fmul (lr_execution_price q) multiplier)) (fabs quantity))) quantity"
      "nonneg (fdiv capacity (fmul (lr_execution_price q) multiplier))"
      "is_f64 (fdiv capacity (fmul (lr_execution_price q) multiplier))"
  | (lots) quantity n m where "bounded_quantity q lot_size position quantity_capacity = Inr (quantity, Some n)"
      "lot_search (lots_fit (lr_execution_price q) multiplier capacity (dec_of_float lot_size)) 0 (\<bar>n\<bar> - 1) = Inr m"
      "lots = Some (if 0 < n then m else - m)" "n \<noteq> 0"
      "\<not> fle (costs (fabs quantity) (lr_execution_price q) multiplier) capacity"
      "project_quantity (of_int (if 0 < n then m else - m) * dec_of_float lot_size) = Inr filled"
proof -
  from run obtain quantity lots0 where b: "bounded_quantity q lot_size position quantity_capacity = Inr (quantity, lots0)"
    by (auto simp: capacity_quantity_def res_iff Let_def)
  have f: "is_f64 quantity" "isfinite quantity" using bounded_quantity_sized [OF b] i
    by (auto simp: capacity_inputs_def sized_def)
  show thesis
  proof (cases "fle (costs (fabs quantity) (lr_execution_price q) multiplier) capacity")
    case True
    then show thesis using run b bounded by (simp add: capacity_quantity_def)
  next
    case False
    show thesis
    proof (cases lots0)
      case None
      have unit: "nonneg (fmul (lr_execution_price q) multiplier)"
        using i by (intro nonneg_fmul) (auto simp: capacity_inputs_def nonneg_def)
      from run b False None have d: "py_div capacity (fmul (lr_execution_price q) multiplier) =
          Inr (fdiv capacity (fmul (lr_execution_price q) multiplier))" and nz: "\<not> feq (fmul (lr_execution_price q) multiplier) (F 0)"
        by (auto simp: capacity_quantity_def res_iff py_div_def Let_def split: if_splits)
      show thesis
      proof (rule float)
        show "bounded_quantity q lot_size position quantity_capacity = Inr (quantity, None)" using b None by simp
        show "lots = None" "filled = copysign (back_off 8 (\<lambda>x. fle (costs x (lr_execution_price q) multiplier) capacity)
          (fmin (fdiv capacity (fmul (lr_execution_price q) multiplier)) (fabs quantity))) quantity"
          using run False unfolding capacity_quantity_def b None Let_def d
          by (simp_all del: back_off.simps split: if_splits)
        show "nonneg (fdiv capacity (fmul (lr_execution_price q) multiplier))"
          "is_f64 (fdiv capacity (fmul (lr_execution_price q) multiplier))"
          using fdiv_capacity [OF _ _ _ unit nz] i by (auto simp: capacity_inputs_def)
      qed
    next
      case (Some n)
      have "n \<noteq> 0"
      proof
        assume "n = 0"
        then have "quantity = F 0" using bounded_quantity_sized [OF b] i Some by (auto simp: capacity_inputs_def sized_def)
        then show False using False costs_zero [of "F 0"] i by (auto simp: capacity_inputs_def)
      qed
      from run b False Some obtain m where
        "lot_search (lots_fit (lr_execution_price q) multiplier capacity (dec_of_float lot_size)) 0 (\<bar>n\<bar> - 1) = Inr m"
        "project_quantity (of_int (if 0 < n then m else - m) * dec_of_float lot_size) = Inr filled"
        "lots = Some (if 0 < n then m else - m)"
        unfolding capacity_quantity_def b Some Let_def by (auto simp: res_iff)
      then show thesis using lots b Some \<open>n \<noteq> 0\<close> False by blast
    qed
  qed
qed

lemma capacity_quantity_found:
  assumes run: "capacity_quantity q capacity lot_size multiplier position quantity_capacity = Inr (filled, lots)"
    and i: "capacity_inputs q capacity multiplier quantity_capacity"
  shows "sized lot_size (filled, lots) \<and>
    within_amount (exact_of lot_size (filled, lots)) (dec_of_float (lr_remaining_quantity q)) \<and>
    (lr_reduce_only q \<longrightarrow> (\<exists>held. position = Some held \<and> \<bar>exact_of lot_size (filled, lots)\<bar> \<le> \<bar>held\<bar>))"
proof -
  have rem: "is_f64 (lr_remaining_quantity q)" and cap: "\<And>c. quantity_capacity = Some c \<Longrightarrow> is_f64 c"
    using i by (simp_all add: capacity_inputs_def)
  have smaller: ?thesis if b: "bounded_quantity q lot_size position quantity_capacity = Inr r"
    and z: "sized lot_size (filled, lots)" and w: "within_amount (exact_of lot_size (filled, lots)) (exact_of lot_size r)" for r
  proof -
    note s = bounded_quantity_sized [OF b rem cap]
    from w have "\<bar>exact_of lot_size (filled, lots)\<bar> \<le> \<bar>exact_of lot_size r\<bar>" by (simp add: within_amount_def)
    then show ?thesis using s z within_trans [OF w] by fastforce
  qed
  from run i show ?thesis
  proof (cases rule: capacity_quantity_cases)
    case bounded
    then show ?thesis using bounded_quantity_sized [OF _ rem cap] by blast
  next
    case (float quantity)
    let ?raw = "fdiv capacity (fmul (lr_execution_price q) multiplier)" and ?fits = "\<lambda>x. fle (costs x (lr_execution_price q) multiplier) capacity"
    have x: "is_f64 quantity" "isfinite quantity" "dec_of_float lot_size = 0"
      using bounded_quantity_sized [OF float(1) rem cap] by (simp_all add: sized_def)
    let ?m = "fmin ?raw (fabs quantity)" let ?y = "back_off 8 ?fits ?m"
    have m: "is_f64 ?m" "isfinite ?m" "0 \<le> val ?m" "val ?m \<le> val (fabs quantity)"
      using x float(4,5) by (auto simp: fmin_def nonneg_def flt_def fle_def [symmetric])
        (cases quantity; simp add: fle_def)+
    note y = back_off_facts [OF m(1-3), of 8 ?fits]
    have le: "dec_of_float ?y \<le> dec_of_float (fabs quantity)"
      by (rule dec_of_float_mono) (use y m x in auto)
    have nn: "0 \<le> dec_of_float ?y" using dec_val_sign [of ?y] y by simp
    have "within_amount (dec_of_float filled) (dec_of_float quantity)"
      using dec_copysign [of ?y quantity] y x le nn float(3) by (simp add: within_amount_def)
    moreover have "is_f64 filled" "isfinite filled" using y copysign_facts [of ?y quantity] float(3) by auto
    ultimately show ?thesis using float(1,2) x(3) by (intro smaller) (auto simp: sized_def exact_of_def)
  next
    case (lots quantity n m)
    have s: "0 < dec_of_float lot_size" using bounded_quantity_sized [OF lots(1) rem cap] by (simp add: sized_def)
    have "0 \<le> \<bar>n\<bar> - 1" using lots(4) by simp
    from lot_search_found [OF lots(2) this] have m: "0 \<le> m" "m \<le> \<bar>n\<bar> - 1" by simp_all
    have "within_amount (of_int (if 0 < n then m else - m) * dec_of_float lot_size) (of_int n * dec_of_float lot_size)"
      using m by (intro within_count [OF s]) (auto simp: mult_nonpos_nonpos mult_nonneg_nonpos)
    then show ?thesis using lots(1,3,6) s project_quantity_f64 [OF lots(6)]
      by (intro smaller) (auto simp: sized_def exact_of_def)
  qed
qed

lemma capacity_quantity_maximal:
  assumes run: "capacity_quantity q capacity lot_size multiplier position quantity_capacity = Inr (filled, Some m)"
    and i: "capacity_inputs q capacity multiplier quantity_capacity"
  shows "\<exists>quantity n. bounded_quantity q lot_size position quantity_capacity = Inr (quantity, Some n) \<and>
    \<bar>m\<bar> \<le> \<bar>n\<bar> \<and> (m = n \<or> m = 0 \<or> lots_fit (lr_execution_price q) multiplier capacity (dec_of_float lot_size) \<bar>m\<bar> = Inr True) \<and>
    (m = n \<or> \<bar>m\<bar> + 1 = \<bar>n\<bar> \<and> \<not> fle (costs (fabs quantity) (lr_execution_price q) multiplier) capacity \<or>
       lots_fit (lr_execution_price q) multiplier capacity (dec_of_float lot_size) (\<bar>m\<bar> + 1) = Inr False)"
  using run i
proof (cases rule: capacity_quantity_cases)
  case (lots quantity n k)
  have "0 \<le> \<bar>n\<bar> - 1" using lots(4) by simp
  note k = lot_search_found [OF lots(2) this]
  have "\<bar>m\<bar> = k" using k lots(3) by auto
  then show ?thesis using k lots(1,4,5) by (intro exI [of _ quantity] exI [of _ n]) auto
qed auto

section \<open>The allocation of one request\<close>

lemma is_f64_ops [simp]:
  "is_f64 (fmul x y)" "is_f64 x \<Longrightarrow> is_f64 y \<Longrightarrow> is_f64 (fadd x y)" "is_f64 x \<Longrightarrow> is_f64 y \<Longrightarrow> is_f64 (fsub x y)"
proof -
  have z: "is_f64 (F 0)" by (simp add: rep_def)
  show "is_f64 (fmul x y)" using z by (auto simp: fmul_def Let_def signed_inf_def signed_zero_def)
  show add: "is_f64 x \<Longrightarrow> is_f64 y \<Longrightarrow> is_f64 (fadd x y)" for x y by (auto simp: fadd_def)
  show "is_f64 x \<Longrightarrow> is_f64 y \<Longrightarrow> is_f64 (fsub x y)" using add [of x "fneg y"] by (simp add: fsub_def)
qed

definition request_ok :: "liquidity_request \<Rightarrow> bool" where
  "request_ok q \<longleftrightarrow> liquidity_request_post_init q = Inr q \<and> is_f64 (lr_remaining_quantity q)"

lemma request_ok_facts:
  assumes "request_ok q"
  shows "is_f64 (lr_remaining_quantity q)" "isfinite (lr_remaining_quantity q)" "dec_of_float (lr_remaining_quantity q) \<noteq> 0"
    "isfinite (lr_execution_price q)" "0 < val (lr_execution_price q)"
    "isfinite (lr_volume_fraction q)" "0 \<le> val (lr_volume_fraction q)" "val (lr_volume_fraction q) \<le> 1"
proof -
  from assms have f: "is_f64 (lr_remaining_quantity q)" "isfinite (lr_remaining_quantity q)"
    "\<not> fle (fabs (lr_remaining_quantity q)) tolerance" "isfinite (lr_execution_price q)" "\<not> fle (lr_execution_price q) (F 0)"
    "isfinite (lr_volume_fraction q)" "fle (F 0) (lr_volume_fraction q)" "fle (lr_volume_fraction q) (F 1)"
    by (auto simp: request_ok_def liquidity_request_post_init_def res_iff)
  then show "is_f64 (lr_remaining_quantity q)" "isfinite (lr_remaining_quantity q)" "isfinite (lr_execution_price q)"
    "0 < val (lr_execution_price q)" "isfinite (lr_volume_fraction q)" "0 \<le> val (lr_volume_fraction q)"
    "val (lr_volume_fraction q) \<le> 1" by simp_all
  from f have "val (lr_remaining_quantity q) \<noteq> 0" using tolerance_pos by auto
  then show "dec_of_float (lr_remaining_quantity q) \<noteq> 0" using dec_of_float_0_iff f by blast
qed

text \<open>What holds of the terms after their checks, and of the pool throughout the loop.\<close>

definition terms_ok :: "liquidity_terms \<Rightarrow> bool" where
  "terms_ok t \<longleftrightarrow> terms_checks t = Inr () \<and> isfinite (initial_capacity_of t)"

definition alloc_exact :: "liquidity_allocation \<Rightarrow> rat" where
  "alloc_exact a = exact_of (la_lot_size a) (la_filled_quantity a, la_lot_count a)"

definition pool_ok :: "liquidity_terms \<Rightarrow> liquidity_pool \<Rightarrow> bool" where
  "pool_ok t pool \<longleftrightarrow> is_f64 (lp_capacity pool) \<and> isfinite (lp_capacity pool) \<and>
     (\<forall>c. lp_quantity pool = Some c \<longrightarrow> is_f64 c) \<and>
     lp_position pool = map_option (\<lambda>p. p + sum_list (map alloc_exact (lp_allocations pool))) (lt_position t)"

text \<open>One allocation answers one request.\<close>

definition answers :: "liquidity_request \<Rightarrow> rat option \<Rightarrow> liquidity_allocation \<Rightarrow> bool" where
  "answers q position a \<longleftrightarrow> la_order_id a = lr_order_id q \<and> la_requested_quantity a = lr_remaining_quantity q \<and>
     within_amount (alloc_exact a) (dec_of_float (lr_remaining_quantity q)) \<and>
     (if la_no_fill_reason a = None
      then alloc_exact a \<noteq> 0 \<and> accepted_fill_quantity (la_filled_quantity a) (la_lot_size a) (la_lot_count a) = Inr (alloc_exact a) \<and>
        isfinite (la_filled_notional a) \<and> \<not> flt (fadd (la_capacity_before a) tolerance) (la_filled_notional a)
      else la_filled_quantity a = F 0 \<and> la_filled_notional a = F 0 \<and> la_capacity_after a = la_capacity_before a \<and> alloc_exact a = 0) \<and>
     (lr_reduce_only q \<longrightarrow> (\<exists>held. position = Some held \<and> \<bar>alloc_exact a\<bar> \<le> \<bar>held\<bar> \<and> held * alloc_exact a \<le> 0) \<or>
        la_no_fill_reason a \<noteq> None)"

lemma zero_answers: "answers q position (zero_allocation q requested prior accessible reason)"
  by (simp add: answers_def zero_allocation_def alloc_exact_def exact_of_def within_amount_def dec_mag_def)

lemma zero_exact [simp]: "alloc_exact (zero_allocation q requested prior accessible reason) = 0"
  by (simp add: zero_allocation_def alloc_exact_def exact_of_def dec_mag_def)

lemma accepted_exact_of:
  assumes "accepted_fill_quantity x lot lots = Inr e"
  shows "e = exact_of lot (x, lots) \<and> (lots \<noteq> None \<longrightarrow> e \<noteq> 0)"
proof (cases lots)
  case None
  then show ?thesis using assms accepted_fill_no_lot [of x lot e] by (simp add: exact_of_def)
next
  case (Some n)
  then show ?thesis using assms accepted_fill_project [of x lot n e] by (auto simp: exact_of_def)
qed

lemma finite_difference:
  assumes "is_f64 x" "isfinite x" "0 \<le> val x" "is_f64 y" "isfinite y" "0 \<le> val y"
  shows "isfinite (fsub x y)"
proof -
  have bound: "isfinite (rnd v)" if v: "\<bar>v\<bar> \<le> w" and w: "is_f64 (F w)" for v w
  proof -
    have "rmag \<bar>v\<bar> \<le> rmag w" using v by (rule rmag_mono)
    moreover have "0 \<le> w" using v by simp
    then have "rep w" "w < max_f64" using w by simp_all
    then have "rmag w = w" "w < max_f64" by (simp_all add: Float64.rep_def)
    ultimately show ?thesis by (auto simp: rnd_def Let_def)
  qed
  have f: "is_f64 (F (val z))" if "is_f64 z" "isfinite z" for z using that by (cases z) (auto simp: Float64.rep_def)
  have "isfinite (rnd (val x - val y))"
  proof (cases "val y \<le> val x")
    case True
    then show ?thesis using assms by (intro bound [OF _ f [of x]]) simp_all
  next
    case False
    then show ?thesis using assms by (intro bound [OF _ f [of y]]) simp_all
  qed
  then show ?thesis using assms(2,5) by (cases x; cases y) (auto simp: fsub_def fadd_def)
qed

lemma fill_request_cases:
  assumes "fill_request t q requested accessible accessible_quantity pool = Inr pool'"
  obtains (skipped) reason where
      "pool' = pool\<lparr>lp_allocations := lp_allocations pool @ [zero_allocation q requested (lp_capacity pool) accessible reason]\<rparr>"
  | (filled) x lots e notional where
      "capacity_quantity q accessible (lt_lot_size t) (lt_multiplier t) (lp_position pool) accessible_quantity = Inr (x, lots)"
      "notional = costs (fabs x) (lr_execution_price q) (lt_multiplier t)" "isfinite notional"
      "accepted_fill_quantity x (if lots = None then F 0 else lt_lot_size t) lots = Inr e"
      "\<not> flt (fadd (lp_capacity pool) tolerance) notional" "\<not> fle (fabs x) tolerance"
      "lp_capacity pool' = fmax (F 0) (fsub (lp_capacity pool) notional)"
      "lp_quantity pool' = map_option (\<lambda>c. fmax (F 0) (fsub c (fabs x))) (lp_quantity pool)"
      "lp_position pool' = map_option (\<lambda>p. p + e) (lp_position pool)"
      "lp_allocations pool' = lp_allocations pool @ [\<lparr>la_order_id = lr_order_id q,
         la_requested_quantity = lr_remaining_quantity q, la_filled_quantity = x,
         la_requested_notional = requested, la_filled_notional = notional, la_capacity_before = lp_capacity pool,
         la_accessible_capacity = accessible, la_capacity_after = lp_capacity pool',
         la_participation_rate = participation_of t notional x, la_no_fill_reason = None,
         la_lot_count = lots, la_lot_size = (if lots = None then F 0 else lt_lot_size t),
         la_exhausted = (lr_reduce_only q \<and> lp_position pool' = Some 0)\<rparr>]"
proof -
  from assms obtain x lots where c: "capacity_quantity q accessible (lt_lot_size t) (lt_multiplier t) (lp_position pool)
      accessible_quantity = Inr (x, lots)" by (auto simp: fill_request_def Let_def res_iff)
  note run = assms [unfolded fill_request_def Let_def c bindr_simps prod.case]
  show thesis
  proof (cases "fle (fabs x) tolerance")
    case True
    then show thesis using run skipped by (auto split: if_splits)
  next
    case False
    from run False obtain e reason where e: "accepted_fill_quantity x (if lots = None then F 0 else lt_lot_size t) lots = Inr e"
      and r: "late_reason t q e (costs (fabs x) (lr_execution_price q) (lt_multiplier t)) = Inr reason"
      by (auto simp: res_iff split: if_splits)
    show thesis
    proof (cases reason)
      case None
      show thesis
        by (rule filled [OF c refl _ e]) (use run False r None e in \<open>auto split: if_splits\<close>)
    next
      case (Some m)
      then show thesis using run False r e skipped by (auto split: if_splits)
    qed
  qed
qed

lemma nonneg_costs:
  assumes "isfinite x" "0 \<le> val x" and "isfinite p" "0 < val p" "isfinite m" "0 < val m"
  shows "nonneg (costs x p m)"
  unfolding costs_def by (intro nonneg_fmul) (use assms in \<open>simp_all add: nonneg_def\<close>)

lemma terms_ok_facts:
  assumes "terms_ok t"
  shows "isfinite (lt_multiplier t)" "0 < val (lt_multiplier t)" "isfinite (initial_capacity_of t)"
  using assms by (auto simp: terms_ok_def terms_checks_def Let_def)

lemma share_finite:
  assumes "isfinite c" "is_f64 c" and "isfinite f" "0 \<le> val f" "val f \<le> 1"
  shows "isfinite (fmul c f)"
proof (cases "val c = 0 \<or> val f = 0")
  case True
  then show ?thesis using fmul_zero [OF assms(1,3)] by simp
next
  case False
  have le: "\<bar>val c * val f\<bar> \<le> \<bar>val c\<bar>" using assms(4,5) by (simp add: abs_mult mult_left_le)
  have c: "rep \<bar>val c\<bar>" "\<bar>val c\<bar> < max_f64" using assms(1,2) False by (cases c; simp)+
  have "rmag \<bar>val c * val f\<bar> \<le> rmag \<bar>val c\<bar>" using le by (rule rmag_mono)
  also have "rmag \<bar>val c\<bar> = \<bar>val c\<bar>" using c(1) by (simp add: Float64.rep_def)
  finally have "isfinite (rnd (val c * val f))" using c(2) by (auto simp: rnd_def Let_def)
  then show ?thesis using False fmul_fin [OF assms(1,3)] by simp
qed

lemma allocate_request_step:
  assumes t: "terms_ok t" and q: "request_ok q" and pool: "pool_ok t pool"
    and run: "allocate_request t pool q = Inr pool'"
  shows "\<exists>a. lp_allocations pool' = lp_allocations pool @ [a] \<and> answers q (lp_position pool) a \<and>
    la_capacity_before a = lp_capacity pool \<and> la_capacity_after a = lp_capacity pool' \<and> pool_ok t pool'"
proof -
  let ?acc = "fmin (lp_capacity pool) (fmul (initial_capacity_of t) (lr_volume_fraction q))"
  note qf = request_ok_facts [OF q] and tf = terms_ok_facts [OF t]
  from run obtain accq requested reason where
    accq: "(case initial_quantity_of t of None \<Rightarrow> Inr None
       | Some c \<Rightarrow> (case lp_quantity pool of None \<Rightarrow> Inl (Raise AssertionError [])
           | Some left \<Rightarrow> Inr (Some (fmin left (fmul c (lr_volume_fraction q)))))) = Inr accq"
    and early: "early_reason q (lp_position pool) ?acc accq = Inr reason"
    and rest: "(case reason of Some m \<Rightarrow> Inr (pool\<lparr>lp_allocations := lp_allocations pool @
         [zero_allocation q requested (lp_capacity pool) ?acc m]\<rparr>)
       | None \<Rightarrow> fill_request t q requested ?acc accq pool) = Inr pool'"
    by (auto simp: allocate_request_def Let_def res_iff)
  have skip: ?thesis if "pool' = pool\<lparr>lp_allocations := lp_allocations pool @
      [zero_allocation q requested (lp_capacity pool) ?acc m]\<rparr>" for m
    using pool zero_answers by (auto simp: that pool_ok_def) (simp_all add: zero_allocation_def)
  show ?thesis
  proof (cases reason)
    case (Some m)
    then show ?thesis using rest by (intro skip [of m]) simp
  next
    case None
    with rest have fill: "fill_request t q requested ?acc accq pool = Inr pool'" by simp
    from fill show ?thesis
    proof (cases rule: fill_request_cases)
      case (skipped m)
      then show ?thesis by (rule skip)
    next
      case (filled x lots e notional)
      have cap: "is_f64 (lp_capacity pool)" "isfinite (lp_capacity pool)" using pool by (simp_all add: pool_ok_def)
      have share: "isfinite (fmul (initial_capacity_of t) (lr_volume_fraction q))"
        using qf tf by (intro share_finite) (simp_all add: initial_capacity_of_def)
      have acc: "isfinite ?acc" "is_f64 ?acc" using cap share by (simp_all add: fmin_def)
      have "\<not> fle ?acc tolerance" using early None by (auto simp: early_reason_def res_iff split: if_splits)
      then have pos: "0 < val ?acc" using acc(1) tolerance_pos by simp
      have "is_f64 c" if "accq = Some c" for c using accq that pool
        by (auto simp: pool_ok_def fmin_def split: option.splits)
      then have inputs: "capacity_inputs q ?acc (lt_multiplier t) accq"
        using qf tf acc pos by (auto simp: capacity_inputs_def)
      note found = capacity_quantity_found [OF filled(1) inputs]
      have x: "is_f64 x" "isfinite x" using found by (simp_all add: sized_def)
      have ex: "e = exact_of (lt_lot_size t) (x, lots)" and e0: "e \<noteq> 0"
      proof -
        show "e = exact_of (lt_lot_size t) (x, lots)" using accepted_exact_of [OF filled(4)]
          by (cases lots) (simp_all add: exact_of_def)
        show "e \<noteq> 0"
        proof (cases lots)
          case None
          have "val x \<noteq> 0" using filled(6) x tolerance_pos by auto
          then show ?thesis using dec_of_float_0_iff [OF x] accepted_exact_of [OF filled(4)] None by (simp add: exact_of_def)
        next
          case (Some n)
          then show ?thesis using accepted_exact_of [OF filled(4)] by simp
        qed
      qed
      have red: "\<exists>held. lp_position pool = Some held \<and> \<bar>e\<bar> \<le> \<bar>held\<bar> \<and> held * e \<le> 0" if "lr_reduce_only q"
      proof -
        from found that ex obtain held where h: "lp_position pool = Some held" "\<bar>e\<bar> \<le> \<bar>held\<bar>" by auto
        have "held * dec_of_float (lr_remaining_quantity q) < 0" using early None that h(1)
          by (auto simp: early_reason_def res_iff split: if_splits)
        moreover have "0 \<le> e * dec_of_float (lr_remaining_quantity q)" using found ex by (simp add: within_amount_def)
        ultimately have "held * e \<le> 0" by (auto simp: mult_less_0_iff zero_le_mult_iff mult_le_0_iff)
        then show ?thesis using h by blast
      qed
      have nn: "nonneg notional" using filled(2) x qf tf by (auto intro: nonneg_costs)
      then have n: "0 \<le> val notional" using filled(3) by (auto simp: nonneg_def)
      have after: "isfinite (lp_capacity pool') \<and> is_f64 (lp_capacity pool')"
      proof -
        have "0 < val (lp_capacity pool)" using pos cap share by (auto simp: fmin_def flt_def fle_def [symmetric] split: if_splits)
        then have "isfinite (fsub (lp_capacity pool) notional)" using cap filled(2,3) n
          by (intro finite_difference) (simp_all add: costs_def)
        then show ?thesis using cap filled(2) by (simp add: filled(7) fmax_def costs_def)
      qed
      let ?a = "last (lp_allocations pool')"
      have a: "alloc_exact ?a = e" using ex by (cases lots) (simp_all add: filled(10) alloc_exact_def exact_of_def)
      have "answers q (lp_position pool) ?a" unfolding answers_def a
        using found ex e0 filled(3,4,5) red by (auto simp: filled(10))
      moreover have "pool_ok t pool'" using pool after a x
        by (auto simp: pool_ok_def filled(8,9,10) map_option.compositionality comp_def algebra_simps fmax_def)
      ultimately show ?thesis by (intro exI [of _ ?a]) (simp add: filled(10))
    qed
  qed
qed

section \<open>The whole allocation\<close>

text \<open>The allocations answer the requests one by one, each at the position the earlier ones left.\<close>

fun answered :: "liquidity_request list \<Rightarrow> rat option \<Rightarrow> f64 \<Rightarrow> liquidity_allocation list \<Rightarrow> bool" where
  "answered [] position capacity [] \<longleftrightarrow> True"
| "answered (q # qs) position capacity (a # as) \<longleftrightarrow> answers q position a \<and> la_capacity_before a = capacity \<and>
     answered qs (map_option (\<lambda>p. p + alloc_exact a) position) (la_capacity_after a) as"
| "answered _ _ _ _ \<longleftrightarrow> False"

lemma allocations_answered:
  assumes "foldr_res (allocate_request t) pool qs = Inr pool'" and "terms_ok t" and "pool_ok t pool"
    and "\<forall>q \<in> set qs. request_ok q"
  shows "\<exists>as. lp_allocations pool' = lp_allocations pool @ as \<and> answered qs (lp_position pool) (lp_capacity pool) as \<and> pool_ok t pool'"
  using assms
proof (induction qs arbitrary: pool)
  case (Cons q qs)
  from Cons.prems(1) obtain mid where mid: "allocate_request t pool q = Inr mid"
    and rest: "foldr_res (allocate_request t) mid qs = Inr pool'" by (auto simp: res_iff)
  from allocate_request_step [OF Cons.prems(2) _ Cons.prems(3) mid] Cons.prems(4) obtain a where a:
    "lp_allocations mid = lp_allocations pool @ [a]" "answers q (lp_position pool) a" "la_capacity_before a = lp_capacity pool"
    "la_capacity_after a = lp_capacity mid" "pool_ok t mid" by auto
  have p: "lp_position mid = map_option (\<lambda>p. p + alloc_exact a) (lp_position pool)"
    using a(1,5) Cons.prems(3) by (simp add: pool_ok_def map_option.compositionality comp_def algebra_simps)
  from Cons.IH [OF rest Cons.prems(2) a(5)] Cons.prems(4) obtain as where
    "lp_allocations pool' = lp_allocations mid @ as" "answered qs (lp_position mid) (lp_capacity mid) as" "pool_ok t pool'"
    by auto
  then show ?case using a p by (intro exI [of _ "a # as"]) simp
qed simp

lemma allocate_answered:
  assumes run: "allocate_symbol_capacity requests t = Inr (as, ev)" and ok: "\<forall>q \<in> set requests. request_ok q"
  shows "answered (sort_key priority_key requests) (lt_position t) (initial_capacity_of t) as"
proof -
  from run obtain pool where checks: "terms_checks t = Inr ()" "pool_checks t (sort_key priority_key requests) = Inr ()"
    and loop: "foldr_res (allocate_request t) (initial_pool t) (sort_key priority_key requests) = Inr pool"
    and as: "as = lp_allocations pool"
    by (auto simp: allocate_symbol_capacity_def Let_def res_iff)
  have t: "terms_ok t" using checks by (auto simp: terms_ok_def pool_checks_def)
  have init: "pool_ok t (initial_pool t)" using t
    by (auto simp: pool_ok_def initial_pool_def initial_capacity_of_def initial_quantity_of_def terms_ok_def option.map_ident)
  from allocations_answered [OF loop t init] ok as show ?thesis
    by (auto simp: initial_pool_def)
qed

text \<open>A pool never sells out a position: no reduce-only fill changes its sign.\<close>

lemma answered_length: "answered qs p c as \<Longrightarrow> length as = length qs"
  by (induction qs p c as rule: answered.induct) auto

lemma answered_nth:
  "answered qs p c as \<Longrightarrow> i < length qs \<Longrightarrow>
    answers (qs ! i) (map_option (\<lambda>x. x + sum_list (map alloc_exact (take i as))) p) (as ! i)"
proof (induction qs p c as arbitrary: i rule: answered.induct)
  case (2 q qs p c a as)
  show ?case
  proof (cases i)
    case 0
    then show ?thesis using "2.prems" by (simp add: option.map_ident)
  next
    case (Suc j)
    then show ?thesis using 2 by (auto simp: map_option.compositionality comp_def add.assoc)
  qed
qed auto

end
