(* ===== verification/TradeExamples.thy ===== *)
theory TradeExamples
  imports Examples Reconciliation Liquidity
begin

text \<open>
  Concrete accounts, admission inputs and targets at which the trading properties are
  instantiated.  Numpy's sum is instantiated by a left-to-right sum.
\<close>

section \<open>Evaluation\<close>

text \<open>
  The definitions that are unfolded on concrete accounts; the floats of the examples are small
  integers, so \<open>f64_eval\<close> computes them.
\<close>

lemmas account_eval = Let_def finite_vector_def checks.simps all_finite_def vmul_def vec_at_def add_at_def
  book_field_checks_def proposed_equity_def exact_strings_def exact_agrees_def refresh_def portfolio_value_def
  position_values_def not_positive_def bad_number_def fzero_def quantity_value_def quantity_values_def terminate_def
  execution_leg_def signed_notional_def amount_checks_def execution_checks_def accepted_delta_def
  accepted_fill_quantity_def quantize_quantity_def executed_book_def set_quantity_values_def execution_marks_def
  gross_notional_def sign1_def

lemma ex_strings: "fraction_str 2 = ''2''" "fraction_str 5 = ''5''"
  by code_simp+

lemma ex_slack: "flt (fadd (F 1200) (fmax (fmax tolerance (fmul (F 1200) tolerance)) (fmul (F 1200) tolerance))) (F 1200) = False"
proof -
  have "nonneg (fmul (F 1200) tolerance)" using tolerance_pos by (intro nonneg_fmul) simp_all
  then show ?thesis by (intro plus_slack) (simp_all add: f64_eval nonneg_fmax)
qed

lemma tolerance_below: "dec_of_float tolerance < 3"
proof -
  have "is_f64 tolerance" by (simp add: tolerance_def)
  moreover have "isfinite tolerance" "0 \<le> val tolerance" "val tolerance \<le> 1" by (simp_all add: tolerance_eq)
  ultimately have "dec_of_float tolerance \<le> dec_of_float (F 1)"
    by (intro dec_of_float_mono) (simp_all add: f64_eval)
  then show ?thesis by (simp add: f64_eval)
qed

lemma ex_fsum: "fsum [F 300] = Inr (F 300)"
  by code_simp

section \<open>An account\<close>

definition ex_sum :: "f64 list \<Rightarrow> f64" where
  "ex_sum = foldl fadd (F 0)"

definition ex_dot :: "f64 list \<Rightarrow> f64 list \<Rightarrow> f64" where
  "ex_dot xs ys = ex_sum (vmul xs ys)"

definition ex_account :: book where
  "ex_account = \<lparr>bs_quantities = [F 2], bs_cash = F 1000, bs_marks = [F 100], bs_peak = F 1200,
     bs_multipliers = [F 1], bs_max_drawdown = F 0, bs_turnover = F 0, bs_total_cost = F 0, bs_funding_pnl = F 0,
     bs_fill_count = 0, bs_rebalances = 0, bs_returns = [], bs_borrow_cost = F 0, bs_margin_used = F 0,
     bs_maintenance_margin = F 0, bs_maintenance_requirement = F 0, bs_margin_deficit = F 0,
     bs_insolvent = False, bs_termination = None, bs_exact = [''2'']\<rparr>"

lemma ex_opened: "account_post_init ex_sum (Some [F 1]) None ex_account = Inr ex_account"
  by (simp add: account_post_init_def account_eval ex_account_def ex_sum_def ex_slack ex_strings f64_eval)

lemma ex_account_reachable: "account_reachable ex_sum ex_dot ex_account"
  using ex_opened by (rule account_reachable.opened) code_simp

lemma ex_account_valid: "book_valid ex_sum ex_account"
  by (rule account_reachable_valid [OF ex_account_reachable])

lemma ex_account_shape: "book_shape ex_account"
  using ex_account_valid by (simp add: book_valid_def)

lemma ex_account_exact: "exact_values ex_account = [2]"
  by code_simp

lemma ex_values: "quantity_values ex_account = Inr ([2], ex_account)"
  using quantity_values_shape [OF ex_account_shape] by (simp add: ex_account_exact)

text \<open>Buying three units at the mark, without costs.\<close>

definition ex_bought :: book where
  "ex_bought = ex_account\<lparr>bs_quantities := [F 5], bs_cash := F 700, bs_exact := [''5''], bs_turnover := F 300,
     bs_fill_count := 1, bs_rebalances := 1\<rparr>"

lemma fmax_min_equity: "isfinite x \<Longrightarrow> 1 \<le> val x \<Longrightarrow> fmax x min_equity = x"
proof -
  assume x: "isfinite x" "1 \<le> val x"
  have "(2::rat) powi (-1022) \<le> 1" by (simp add: power_int_def power_le_one)
  then have "val min_equity \<le> val x" using x by (simp add: min_equity_def)
  then show ?thesis using x by (simp add: fmax_def flt_def min_equity_def fle_def [symmetric])
qed

lemma ex_drawdown: "update_drawdown ex_sum False ex_bought = ex_bought"
proof -
  have "fmax (F 1200) min_equity = F 1200" by (rule fmax_min_equity) simp_all
  then show ?thesis
    by (simp add: update_drawdown_def account_eval ex_bought_def ex_account_def ex_sum_def f64_eval)
qed

lemma ex_buy: "execute_fill ex_sum 0 (F 3) [F 100] (F 0) (F 300) (F 0) None None ex_account = Inr ex_bought"
proof -
  note account = ex_account_def ex_sum_def ex_strings
  have a: "accepted_delta (F 3) (F 0) None 2 = Inr 3" by (simp add: account_eval f64_eval)
  have q: "finite_vector ''fill_prices'' [F 100] = Inr [F 100]" "project_quantity 5 = Inr (F 5)"
    "execution_checks ex_account [F 100] [F 5] = Inr ()" "amount_checks [F 100] [F 100] (F 0) (F 300) = Inr ()"
    "signed_notional [3] [F 100] (bs_multipliers ex_account) = Inr (F 300)"
    by (simp_all add: account_eval account finite_fsum_def ex_fsum f64_eval)
  have c: "fsub (bs_cash ex_account) (fadd (F 300) (F 0)) = F 700" "fadd (bs_turnover ex_account) (F 300) = F 300"
    "fadd (bs_total_cost ex_account) (F 0) = F 0"
    "proposed_equity ex_sum (F 700) [F 5] [F 100] (bs_multipliers ex_account) = Inr (F 1200)"
    by (simp_all add: account_eval account f64_eval)
  have e: "executed_book [F 5] [5] [F 100] (F 700) (F 300) (F 0) (count_filled [3]) ex_account = ex_bought"
    by (simp add: account_eval account ex_bought_def count_filled_def tolerance_below)
  have z: "fle (fsub (fmax (portfolio_value ex_sum ex_account) (F 0)) tolerance) (F 0) = False"
    "refresh ex_sum ex_bought = Inr ex_bought"
    by (simp_all add: account_eval account ex_bought_def f64_eval)
  have n: "length (bs_quantities ex_account) = 1" by (simp add: ex_account_def)
  show ?thesis
    by (simp add: execute_fill_def record_execution_def execution_marks_def checks.simps ex_values a q c e z n
      ex_drawdown Let_def)
qed

section \<open>Admission\<close>

definition ex_policy :: admission_policy where
  "ex_policy = \<lparr>ap_dataset_id = ''dataset'', ap_digest = ex_digest, ap_allow_short = False, ap_max_leverage = F 2\<rparr>"

definition ex_view :: book_view where
  "ex_view = \<lparr>bv_quantities = [F 0], bv_multipliers = [F 1], bv_portfolio_value = F 1000, bv_insolvent = False,
     bv_exact = Some [0]\<rparr>"

definition ex_inputs :: admission_inputs where
  "ex_inputs = \<lparr>ai_remaining = None, ai_processing_index = 1, ai_asset_active = True, ai_tradable = True,
     ai_buy_allowed = True, ai_sell_allowed = True, ai_borrow_available = False, ai_tick_size = F 0,
     ai_lot_size = F 1, ai_minimum_notional = F 0, ai_reference_prices = [F 100], ai_actual_position = None,
     ai_minimum_quantity = F 0, ai_maximum_quantity = None, ai_market_only = False, ai_allow_over_cap = False\<rparr>"

definition ex_accepted :: admission_decision where
  "ex_accepted = \<lparr>ad_accepted = True, ad_reason = None, ad_quantity = F 10, ad_notional = F 1000, ad_exact = 10\<rparr>"

lemma ex_admission: "evaluate_admission ex_sum ex_policy ex_raw ex_view ex_inputs = Inr ex_accepted"
  by (simp add: projection_tolerance_def divides_exactly_def price_on_tick_grid_def reject_decision_def admission_shape_checks_def requested_of_def eligibility_refusals_def requested_check_def bad_rule_def rule_refusals_def bound_price_def bound_on_grid_def maximum_refusals_def reducible_position_def reduce_refusals_def short_refusals_def notional_price_def leverage_refusals_def admit_quantity_def evaluate_admission_def ex_policy_def ex_view_def
    ex_inputs_def ex_raw_def ex_accepted_def f64_eval checks.simps quantize_quantity_def accepted_fill_quantity_def
    ex_sum_def all_finite_def refusals.simps vec_at_def add_at_def sign1_def gross_notional_def vmul_def Let_def)

section \<open>Closing a position\<close>

definition ex_target :: reconciliation_inputs where
  "ex_target = \<lparr>ri_dataset_id = ''dataset'', ri_target_identity = ''target'', ri_digest = ex_digest,
     ri_weights = [F 0], ri_reference_prices = [F 100], ri_decision_equity = F 1200, ri_submit_index = 0,
     ri_latency_bars = 1, ri_order_type = MARKET, ri_time_in_force = GTC, ri_expiry_index = None,
     ri_offset_rate = F 0, ri_tick_sizes = None, ri_maximum_gross = F 1, ri_reduce_only_symbols = None,
     ri_hold_symbols = [], ri_valuation_prices = None\<rparr>"

definition ex_close_raw :: order_intent where
  "ex_close_raw = intent_of ex_target 0 (F (-2)) None None None True"

definition ex_close :: order_intent where
  "ex_close = (case order_intent_create ex_close_raw of Inr i \<Rightarrow> i | Inl e \<Rightarrow> ex_close_raw)"

lemmas target_eval = ex_target_def ri_eligible_index_def ri_sizing_prices_def ri_ticks_def intent_of_def ex_close_raw_def

lemma ex_close_create: "order_intent_create ex_close_raw = Inr ex_close"
proof -
  have "create_checks ex_close_raw = Inr ()"
    by (simp add: create_checks_def create_price_checks_def validate_digest_Inr validate_positive_def bindr_Inr target_eval f64_eval)
  moreover have "\<exists>b. canonical_json_bytes (identity_payload ex_close_raw) = Inr b"
    by (simp add: ex_close_raw_def intent_of_def ex_target_def identity_payload_def canonical_json_bytes_def)
  ultimately have "\<exists>i. order_intent_create ex_close_raw = Inr i"
    by (auto simp: order_intent_create_def intent_post_init_def ex_close_raw_def intent_of_def ex_target_def)
  then show ?thesis by (auto simp: ex_close_def)
qed

definition ex_no_orders :: order_book where
  "ex_no_orders = \<lparr>ob_active = [], ob_terminal = No_Node\<rparr>"

lemma ex_no_orders_ok: "book_ok ex_no_orders"
  using book_reachable.empty [OF empty_book_eq] unfolding ex_no_orders_def by (rule book_reachable_inv)

lemma ex_plan: "symbol_plan ex_account ex_target over [F 0] ex_no_orders 0 = Inr ([], Some ex_close)"
proof -
  have t: "symbol_target ex_account ex_target over [F 0] 0 = Inr (True, F (-2))"
    by (simp add: symbol_target_def is_reduce_only_def ex_account_exact target_eval f64_eval)
  have "fmul (F 0) (F (-2)) = NegZero" by (simp add: fmul_def signed_zero_def)
  then have k: "keeps_orders ex_target True (F (-2)) [] 0 = False"
    by (simp add: keeps_orders_def py_sum_def isclose_abs_def target_eval f64_eval)
  have a: "active_for_symbol 0 ex_no_orders = []" by (simp add: active_for_symbol_def ex_no_orders_def)
  have d: "fle (fabs (F (-2))) tolerance = False" by (simp add: f64_eval)
  have p: "planned_intent ex_target 0 (F (-2)) True [] = Inr (Some ex_close)"
    using ex_close_create unfolding ex_close_raw_def
    by (simp add: planned_intent_def d [simplified] type_prices_def ex_target_def [THEN arg_cong, of ri_order_type])
  show ?thesis by (simp add: symbol_plan_def t a k superseded_orders_def p)
qed

lemma ex_reconcile: "reconcile_target ex_sum 0 ex_account ex_no_orders ex_target =
    Inr (planned_result 0 ex_no_orders [F 0] [([], Some ex_close)])"
proof -
  have c: "scalar_checks ex_target = Inr ()" "vector_checks ex_sum ex_account ex_target = Inr ()"
    "length (ri_weights ex_target) = 1" "desired_quantity ex_account ex_target 0 = Inr (F 0)"
    by (simp_all add: scalar_checks_def vector_checks_def desired_quantity_def target_quantity_from_weight_def bad_symbols_def
      validate_reconciliation_digest_def require_sha256_def rewrap_def target_eval account_eval ex_account_def ex_sum_def f64_eval)
  show ?thesis unfolding reconcile_planned [OF ex_no_orders_ok] planned_reconciliation_def
    by (simp add: c ex_values ex_plan)
qed

section \<open>Sharing a bar's liquidity\<close>

text \<open>Selling ten units, reduce-only, from a position of three.\<close>

definition ex_request :: liquidity_request where
  "ex_request = \<lparr>lr_order_id = ex_digest, lr_remaining_quantity = F (-10), lr_execution_price = F 100,
     lr_volume_fraction = F 1, lr_priority = MARKET_PRIORITY, lr_eligible_index = 1, lr_reduce_only = True,
     lr_minimum_notional = None, lr_minimum_quantity = F 0, lr_maximum_quantity = None\<rparr>"

definition ex_terms :: liquidity_terms where
  "ex_terms = \<lparr>lt_volume = F 10, lt_market_notional = None, lt_quantity_capacity = None, lt_price = F 100,
     lt_multiplier = F 1, lt_participation = F (1 / 2), lt_lot_size = F 1, lt_minimum_notional = F 0,
     lt_position = Some 3\<rparr>"

definition ex_allocation :: liquidity_allocation where
  "ex_allocation = \<lparr>la_order_id = ex_digest, la_requested_quantity = F (-10), la_filled_quantity = F (-3),
     la_requested_notional = F 1000, la_filled_notional = F 300, la_capacity_before = F 500,
     la_accessible_capacity = F 500, la_capacity_after = F 200,
     la_participation_rate = participation_of ex_terms (F 300) (F (-3)), la_no_fill_reason = None,
     la_lot_count = Some (-3), la_lot_size = F 1, la_exhausted = True\<rparr>"

lemma ex_request_ok: "request_ok ex_request"
proof -
  have "liquidity_request_post_init ex_request = Inr ex_request"
    by (simp add: liquidity_request_post_init_def bad_request_rule_def require_sha256_def rewrap_def ex_request_def account_eval f64_eval)
  moreover have "is_f64 (lr_remaining_quantity ex_request)" by (simp add: ex_request_def f64_eval)
  ultimately show ?thesis by (simp add: request_ok_def)
qed

lemmas liquidity_eval = account_eval capacity_quantity_def bounded_quantity_def reduce_bound_def quantity_bound_def
  costs_def lots_fit_def sign_of_count_def terms_checks_def pool_checks_def bad_capacity_def market_notional_of_def
  initial_capacity_of_def initial_quantity_of_def requested_notional_def early_reason_def late_reason_def

lemma ex_half: "fmul (F 1000) (F (1 / 2)) = F 500"
  by (simp add: f64_eval)

lemma ex_capacity:
  "capacity_quantity ex_request (F 500) (F 1) (F 1) (Some 3) None = Inr (F (-3), Some (-3))"
  "capacity_quantity (ex_request\<lparr>lr_reduce_only := False\<rparr>) (F 500) (F 1) (F 1) None None = Inr (F (-5), Some (-5))"
  by (simp_all add: liquidity_eval lot_search.simps ex_request_def f64_eval)

lemma ex_allocate: "\<exists>ev. allocate_symbol_capacity [ex_request] ex_terms = Inr ([ex_allocation], ev)"
proof -
  let ?pool = "\<lparr>lp_capacity = F 200, lp_quantity = None, lp_position = Some 0, lp_allocations = [ex_allocation]\<rparr>"
  have k: "terms_checks ex_terms = Inr ()" "pool_checks ex_terms [ex_request] = Inr ()"
    "quantity_accounts ex_terms ?pool = Inr ()"
    by (simp_all add: liquidity_eval quantity_accounts_def ex_terms_def ex_request_def f64_eval)
  have "nonneg (fmax (fmax capacity_slack (fmul (F 8) (ulp (F 500)))) (fmul (F 8) (ulp (F 200))))"
    by (intro nonneg_fmax nonneg_fmul) (simp_all add: capacity_slack_def nonneg_rnd power_int_def)
  then have a: "capacity_accounts ex_terms ?pool = Inr ()"
    by (simp add: capacity_accounts_def py_sum_def isclose_abs_def liquidity_eval ex_terms_def ex_allocation_def f64_eval del: ulp.simps)
  have c: "initial_capacity_of ex_terms = F 500" "fmin (F 500) (fmul (F 500) (F 1)) = F 500"
    "flt (fabs (F (-10))) (fabs (F (-3))) = False" "fle (fabs (F (-3))) tolerance = False"
    "costs (fabs (F (-3))) (F 100) (F 1) = F 300" "flt (fadd (F 500) tolerance) (F 300) = False"
    "fmax (F 0) (fsub (F 500) (F 300)) = F 200"
    by (simp_all add: liquidity_eval ex_terms_def f64_eval)
  have q: "requested_notional ex_request (F 1) = Inr (F 1000)" "early_reason ex_request (Some 3) (F 500) None = Inr None"
    "accepted_fill_quantity (F (-3)) (F 1) (Some (-3)) = Inr (-3)" "late_reason ex_terms ex_request (-3) (F 300) = Inr None"
    by (simp_all add: liquidity_eval ex_terms_def ex_request_def f64_eval)
  have t: "lt_multiplier ex_terms = F 1" "lt_lot_size ex_terms = F 1" "lt_position ex_terms = Some 3" "initial_quantity_of ex_terms = None"
    by (simp_all add: ex_terms_def initial_quantity_of_def)
  have r: "lr_remaining_quantity ex_request = F (-10)" "lr_execution_price ex_request = F 100" "lr_volume_fraction ex_request = F 1"
    "lr_order_id ex_request = ex_digest" "lr_reduce_only ex_request" by (simp_all add: ex_request_def)
  have "allocate_request ex_terms (initial_pool ex_terms) ex_request = Inr ?pool"
    unfolding allocate_request_def fill_request_def initial_pool_def Let_def liquidity_pool.simps c t r q option.case bindr_simps
      ex_capacity prod.case by (simp add: ex_allocation_def r q)
  then show ?thesis by (auto simp: allocate_symbol_capacity_def k a)
qed

end
