(* ===== verification/Depth.thy ===== *)
theory Depth
  imports FloatFacts Accounting
begin

text \<open>
  \<open>trade_rl/simulation/depth.py\<close>: an order filled against one recorded order book, best level first.
  A price level is a pair of price and quantity; a datetime is its microseconds, or \<open>None\<close> when naive;
  \<open>BookState\<close> is changed by one call of \<open>execute_fill\<close>, the last thing that can fail, so an exception
  leaves the account as it was.  Numbers are floats, so the tests for booleans and other types are void.

  The lemmas show that the walk over the levels consumes exactly the quantity it is given, at an
  average between the best and the worst price, and that a fill is the largest number of lots the
  displayed quantity allows.
\<close>

section \<open>Rules and validation\<close>

type_synonym levels = "(f64 \<times> f64) list"

definition not_finite :: "string \<Rightarrow> f64 \<Rightarrow> bool \<times> exc" where
  "not_finite name x = (\<not> isfinite x, value_error (name @ '' must be finite''))"

record depth_order_rules =
  dr_lot_size :: f64
  dr_minimum_quantity :: f64
  dr_maximum_quantity :: f64
  dr_minimum_notional :: f64
  dr_maximum_notional :: "f64 option"

definition depth_rules_post_init :: "depth_order_rules \<Rightarrow> depth_order_rules res" where
  "depth_rules_post_init r = bindr (checks [
     not_finite ''lot_size'' (dr_lot_size r), not_finite ''minimum_quantity'' (dr_minimum_quantity r),
     not_finite ''maximum_quantity'' (dr_maximum_quantity r), not_finite ''minimum_notional'' (dr_minimum_notional r),
     (fle (dr_lot_size r) (F 0) \<or> flt (dr_minimum_quantity r) (F 0) \<or> fle (dr_maximum_quantity r) (F 0) \<or>
        flt (dr_maximum_quantity r) (dr_minimum_quantity r) \<or> flt (dr_minimum_notional r) (F 0),
        value_error ''invalid depth order rules'')]) (\<lambda>_.
     bindr (case dr_maximum_notional r of None \<Rightarrow> Inr ()
       | Some m \<Rightarrow> checks [not_finite ''maximum_notional'' m,
           (fle m (F 0) \<or> flt m (dr_minimum_notional r), value_error ''invalid maximum notional'')]) (\<lambda>_. Inr r))"

record depth_fill =
  df_filled_lots :: int
  df_unfilled_lots :: int
  df_price :: "f64 option"
  df_fee :: f64
  df_reason :: "string option"

fun side_checks :: "bool \<Rightarrow> f64 option \<Rightarrow> levels \<Rightarrow> unit res" where
  "side_checks descending previous [] = Inr ()"
| "side_checks descending previous ((price, quantity) # rest) =
     bindr (checks [not_finite ''depth price'' price, not_finite ''depth quantity'' quantity,
       (fle price (F 0) \<or> fle quantity (F 0), value_error ''depth prices and quantities must be positive''),
       (case previous of None \<Rightarrow> False | Some p \<Rightarrow> if descending then fle p price else fle price p,
          value_error ''depth prices must be strictly ordered'')]) (\<lambda>_.
     side_checks descending (Some price) rest)"

definition validate_side :: "bool \<Rightarrow> levels \<Rightarrow> unit res" where
  "validate_side descending ls = (if ls = [] then Inl (value_error ''both sides of the depth must be present'')
     else side_checks descending None ls)"

definition validate_depth :: "levels \<Rightarrow> levels \<Rightarrow> unit res" where
  "validate_depth bids asks =
     bindr (validate_side True bids) (\<lambda>_.
     bindr (validate_side False asks) (\<lambda>_.
     checks [(fle (fst (hd asks)) (fst (hd bids)), value_error ''depth must not be crossed or locked'')]))"

section \<open>The order\<close>

record depth_request =
  dq_symbol :: int
  dq_lots :: int
  dq_rules :: depth_order_rules
  dq_bids :: levels
  dq_asks :: levels
  dq_decision_at :: "int option"
  dq_quote_at :: "int option"
  dq_execution_at :: "int option"
  dq_fee_bps :: f64
  dq_adverse_bps :: f64
  dq_fraction :: f64

definition depth_time_checks :: "depth_request \<Rightarrow> unit res" where
  "depth_time_checks req =
     bindr (require_aware_datetime ''decision_at'' (dq_decision_at req)) (\<lambda>decision.
     bindr (require_aware_datetime ''quote_at'' (dq_quote_at req)) (\<lambda>quote.
     bindr (require_aware_datetime ''execution_at'' (dq_execution_at req)) (\<lambda>execution.
     checks [
       (\<not> (decision < quote \<and> quote \<le> execution), value_error ''decision must precede quote receipt and execution''),
       (5000000 < execution - quote \<or> 10000000 < execution - decision,
          value_error ''paper execution quote or decision is stale'')])))"

definition depth_number_checks :: "book \<Rightarrow> depth_request \<Rightarrow> unit res" where
  "depth_number_checks b req = checks [
     (dq_lots req = 0, value_error ''order must contain a nonzero integer lot count''),
     (\<not> (0 \<le> dq_symbol req \<and> dq_symbol req < int (length (bs_quantities b))),
        value_error ''symbol index is outside the book''),
     not_finite ''fee_bps'' (dq_fee_bps req), not_finite ''adverse_bps'' (dq_adverse_bps req),
     not_finite ''depth_fraction'' (dq_fraction req),
     (\<not> (fle (F 0) (dq_fee_bps req) \<and> flt (dq_fee_bps req) (F 10000)) \<or>
        \<not> (fle (F 0) (dq_adverse_bps req) \<and> flt (dq_adverse_bps req) (F 10000)),
        value_error ''cost basis points must be within [0, 10000)''),
     (\<not> (flt (F 0) (dq_fraction req) \<and> fle (dq_fraction req) (F 1)),
        value_error ''depth fraction must be within (0, 1]'')]"

definition depth_checks :: "book \<Rightarrow> depth_request \<Rightarrow> unit res" where
  "depth_checks b req =
     bindr (depth_time_checks req) (\<lambda>_.
     bindr (depth_number_checks b req) (\<lambda>_.
     bindr (validate_depth (dq_bids req) (dq_asks req)) (\<lambda>_.
     checks [(bs_insolvent b \<or> bs_termination b \<noteq> None, value_error ''cannot execute on a terminated account'')])))"

text \<open>The side of the order, the levels it consumes and the exact factor of the adverse price.\<close>

definition depth_side :: "depth_request \<Rightarrow> int" where
  "depth_side req = (if 0 < dq_lots req then 1 else -1)"

definition depth_levels :: "depth_request \<Rightarrow> levels" where
  "depth_levels req = (if depth_side req = 1 then dq_asks req else dq_bids req)"

definition adverse_factor :: "depth_request \<Rightarrow> rat res" where
  "adverse_factor req = bindr (exact_quantity (dq_adverse_bps req)) (\<lambda>bps. Inr (1 + of_int (depth_side req) * bps / 10000))"

definition rejected_depth :: "depth_request \<Rightarrow> string \<Rightarrow> depth_fill" where
  "rejected_depth req reason = \<lparr>df_filled_lots = 0, df_unfilled_lots = dq_lots req, df_price = None, df_fee = F 0,
     df_reason = Some reason\<rparr>"

definition above_maximum :: "depth_order_rules \<Rightarrow> rat \<Rightarrow> bool res" where
  "above_maximum r notional = (case dr_maximum_notional r of None \<Rightarrow> Inr False
     | Some m \<Rightarrow> bindr (exact_quantity m) (\<lambda>limit. Inr (limit < notional)))"

text \<open>The rule that refuses the requested quantity, in the order the source tests them.\<close>

definition depth_refusal :: "depth_order_rules \<Rightarrow> rat \<Rightarrow> rat \<Rightarrow> string option res" where
  "depth_refusal r requested notional =
     bindr (exact_quantity (dr_minimum_quantity r)) (\<lambda>low.
     if requested < low then Inr (Some ''quantity_below_minimum'') else
     bindr (exact_quantity (dr_maximum_quantity r)) (\<lambda>high.
     if high < requested then Inr (Some ''quantity_above_maximum'') else
     bindr (exact_quantity (dr_minimum_notional r)) (\<lambda>least.
     if notional < least then Inr (Some ''notional_below_minimum'') else
     bindr (above_maximum r notional) (\<lambda>above.
     Inr (if above then Some ''notional_above_maximum'' else None)))))"

definition depth_capacity :: "rat \<Rightarrow> levels \<Rightarrow> rat res" where
  "depth_capacity participation ls =
     bindr (mapr (\<lambda>(_, q). bindr (exact_quantity q) (\<lambda>v. Inr (v * participation))) ls) (\<lambda>vs. Inr (sum_list vs))"

text \<open>The loop over the levels: what remains and the value consumed so far.\<close>

fun walk_levels :: "rat \<Rightarrow> rat \<Rightarrow> levels \<Rightarrow> rat \<Rightarrow> rat \<Rightarrow> (rat \<times> rat) res" where
  "walk_levels participation adverse [] remaining value = Inr (remaining, value)"
| "walk_levels participation adverse ((price, quantity) # rest) remaining value =
     bindr (exact_quantity quantity) (\<lambda>q.
     bindr (exact_quantity price) (\<lambda>p.
     let consumed = min remaining (q * participation); value' = value + consumed * p * adverse;
         remaining' = remaining - consumed in
     if remaining' = 0 then Inr (0, value') else walk_levels participation adverse rest remaining' value'))"

text \<open>The fill itself: price, fee and the change of the account.\<close>

definition book_depth_fill ::
  "(f64 list \<Rightarrow> f64) \<Rightarrow> depth_request \<Rightarrow> f64 \<Rightarrow> rat \<Rightarrow> int \<Rightarrow> rat \<Rightarrow> book \<Rightarrow> (depth_fill \<times> book) res" where
  "book_depth_fill nsum req multiplier step filled_count value b =
     bindr (float_of_fraction (value / (of_int filled_count * step))) (\<lambda>price.
     let signed_lots = depth_side req * filled_count in
     bindr (project_quantity (of_int signed_lots * step)) (\<lambda>quantity.
     let executed_notional = fmul (fmul (fabs quantity) price) multiplier;
         fee = fdiv (fmul executed_notional (dq_fee_bps req)) (F 10000) in
     bindr (py_div executed_notional (portfolio_value nsum b)) (\<lambda>turnover.
     bindr (execute_fill nsum (dq_symbol req) quantity ((bs_marks b)[nat (dq_symbol req) := price]) fee turnover
       (dr_lot_size (dq_rules req)) (Some signed_lots) (Some (bs_marks b)) b) (\<lambda>c.
     Inr (\<lparr>df_filled_lots = signed_lots, df_unfilled_lots = dq_lots req - signed_lots, df_price = Some price,
       df_fee = fee, df_reason = None\<rparr>, c)))))"

definition match_depth ::
  "(f64 list \<Rightarrow> f64) \<Rightarrow> depth_request \<Rightarrow> f64 \<Rightarrow> rat \<Rightarrow> rat \<Rightarrow> rat \<Rightarrow> book \<Rightarrow> (depth_fill \<times> book) res" where
  "match_depth nsum req multiplier exact_multiplier step adverse b =
     bindr (exact_quantity (dq_fraction req)) (\<lambda>participation.
     bindr (depth_capacity participation (depth_levels req)) (\<lambda>capacity.
     if step = 0 then Inl (Raise ZeroDivisionError ''Fraction(0)'') else
     let filled_count = min \<bar>dq_lots req\<bar> \<lfloor>capacity / step\<rfloor> in
     if filled_count = 0 then Inr (rejected_depth req ''insufficient_depth'', b) else
     bindr (walk_levels participation adverse (depth_levels req) (of_int filled_count * step) 0) (\<lambda>(remaining, value).
     if remaining \<noteq> 0 then Inl (Raise AssertionError []) else
     bindr (above_maximum (dq_rules req) (value * exact_multiplier)) (\<lambda>above.
     if above then Inr (rejected_depth req ''notional_above_maximum'', b)
     else book_depth_fill nsum req multiplier step filled_count value b))))"

definition execute_depth_order ::
  "(f64 list \<Rightarrow> f64) \<Rightarrow> depth_request \<Rightarrow> book \<Rightarrow> (depth_fill \<times> book) res" where
  "execute_depth_order nsum req b =
     bindr (depth_checks b req) (\<lambda>_.
     let multiplier = bs_multipliers b ! nat (dq_symbol req) in
     bindr (exact_quantity multiplier) (\<lambda>exact_multiplier.
     bindr (exact_quantity (dr_lot_size (dq_rules req))) (\<lambda>step.
     bindr (adverse_factor req) (\<lambda>adverse.
     bindr (exact_quantity (fst (hd (depth_levels req)))) (\<lambda>best.
     let requested = of_int \<bar>dq_lots req\<bar> * step; notional = requested * best * adverse * exact_multiplier in
     bindr (depth_refusal (dq_rules req) requested notional) (\<lambda>refusal.
     case refusal of Some reason \<Rightarrow> Inr (rejected_depth req reason, b)
     | None \<Rightarrow> match_depth nsum req multiplier exact_multiplier step adverse b))))))"

section \<open>Drawing a quantity from levels\<close>

text \<open>
  The loop without floats: every level has a price and a capacity.  \<open>allocates ls xs r\<close> says that
  \<open>xs\<close> takes the quantity \<open>r\<close> from the levels within their capacities.
\<close>

fun draw :: "(rat \<times> rat) list \<Rightarrow> rat \<Rightarrow> rat \<times> rat" where
  "draw [] r = (r, 0)"
| "draw ((p, c) # ls) r = (let k = min r c in
     if r - k = 0 then (0, k * p) else case draw ls (r - k) of (r', v) \<Rightarrow> (r', k * p + v))"

definition cost_of :: "(rat \<times> rat) list \<Rightarrow> rat list \<Rightarrow> rat" where
  "cost_of ls xs = sum_list (map2 (\<lambda>l x. x * fst l) ls xs)"

definition allocates :: "(rat \<times> rat) list \<Rightarrow> rat list \<Rightarrow> rat \<Rightarrow> bool" where
  "allocates ls xs r \<longleftrightarrow> list_all2 (\<lambda>l x. 0 \<le> x \<and> x \<le> snd l) ls xs \<and> sum_list xs = r"

definition exact_level :: "rat \<Rightarrow> rat \<Rightarrow> f64 \<times> f64 \<Rightarrow> rat \<times> rat" where
  "exact_level participation adverse l = (dec_of_float (fst l) * adverse, dec_of_float (snd l) * participation)"

lemma walk_levels_draw:
  "list_all (\<lambda>(p, q). isfinite p \<and> isfinite q) ls \<Longrightarrow> walk_levels participation adverse ls r v =
     Inr (case draw (map (exact_level participation adverse) ls) r of (r', w) \<Rightarrow> (r', v + w))"
proof (induction ls arbitrary: r v)
  case (Cons l ls)
  have "list_all (\<lambda>(p, q). isfinite p \<and> isfinite q) ls" using Cons.prems by simp
  note IH = Cons.IH [OF this]
  show ?case using Cons.prems
    by (cases l) (simp add: IH exact_quantity_def exact_level_def Let_def case_prod_unfold add.assoc mult.assoc)
qed simp

lemma draw_allocates:
  "list_all (\<lambda>l. 0 < snd l) ls \<Longrightarrow> 0 < r \<Longrightarrow> r \<le> sum_list (map snd ls) \<Longrightarrow>
     fst (draw ls r) = 0 \<and> (\<exists>xs. allocates ls xs r \<and> snd (draw ls r) = cost_of ls xs)"
proof (induction ls r rule: draw.induct)
  case (2 p c ls r)
  show ?case
  proof (cases "r \<le> c")
    case True
    have "list_all2 (\<lambda>l x. 0 \<le> x \<and> x \<le> snd l) ls (replicate (length ls) 0)"
      using "2.prems"(1) by (auto simp: list_all2_conv_all_nth list_all_length less_imp_le)
    moreover have "sum_list (map2 (\<lambda>l x. x * fst l) ls (replicate (length ls) (0::rat))) = 0" by (induction ls) auto
    ultimately show ?thesis using True "2.prems"
      by (intro conjI exI [of _ "r # replicate (length ls) 0"]) (auto simp: allocates_def cost_of_def sum_list_replicate)
  next
    case False
    then have r: "min r c = c" "r - c \<noteq> 0" "0 < r - c" by auto
    obtain xs where xs: "fst (draw ls (r - c)) = 0" "allocates ls xs (r - c)" "snd (draw ls (r - c)) = cost_of ls xs"
      using "2.IH" [OF refl] r "2.prems" by auto
    have "allocates ((p, c) # ls) (c # xs) r" using xs(2) "2.prems"(1) by (auto simp: allocates_def)
    moreover have "draw ((p, c) # ls) r = (0, cost_of ((p, c) # ls) (c # xs))"
      using xs(1,3) r by (simp add: Let_def cost_of_def case_prod_unfold)
    ultimately show ?thesis by (metis fst_conv snd_conv)
  qed
qed simp

text \<open>
  What the loop pays, split at the price \<open>P\<close> of the last level it uses: everything at \<open>P\<close>, less
  the advantage of the better levels.  No allocation has more advantage, so none is cheaper.
\<close>

lemma draw_dual:
  fixes s :: rat
  assumes "sorted_wrt (\<lambda>a b. s * fst a \<le> s * fst b) ls" and "list_all (\<lambda>l. 0 < snd l) ls"
    and "0 < r" and "r \<le> sum_list (map snd ls)"
  shows "\<exists>P \<in> fst ` set ls. s * snd (draw ls r) = s * P * r + sum_list (map (\<lambda>l. min 0 (s * fst l - s * P) * snd l) ls)"
  using assms
proof (induction ls r rule: draw.induct)
  case (2 p c ls r)
  show ?case
  proof (cases "r \<le> c")
    case True
    have "sum_list (map (\<lambda>l. min 0 (s * fst l - s * p) * snd l) ls) = sum_list (map (\<lambda>l. 0) ls)"
      by (rule arg_cong [of _ _ sum_list], rule map_cong [OF refl]) (use "2.prems"(1) in \<open>auto simp: min_def\<close>)
    then show ?thesis using True by (simp add: Let_def min_def)
  next
    case False
    then have r: "min r c = c" "r - c \<noteq> 0" "0 < r - c" by auto
    obtain P where P: "P \<in> fst ` set ls"
      "s * snd (draw ls (r - c)) = s * P * (r - c) + sum_list (map (\<lambda>l. min 0 (s * fst l - s * P) * snd l) ls)"
      using "2.IH" [OF refl] r "2.prems" by auto
    have "s * p \<le> s * P" using P(1) "2.prems"(1) by auto
    then have "s * snd (draw ((p, c) # ls) r) =
        s * P * r + sum_list (map (\<lambda>l. min 0 (s * fst l - s * P) * snd l) ((p, c) # ls))"
      using P(2) r by (simp add: Let_def algebra_simps case_prod_unfold)
    then show ?thesis using P(1) by (intro bexI [of _ P]) auto
  qed
qed simp

lemma allocation_dual:
  fixes s :: rat
  assumes "allocates ls xs r"
  shows "s * P * r + sum_list (map (\<lambda>l. min 0 (s * fst l - s * P) * snd l) ls) \<le> s * cost_of ls xs"
  using assms unfolding allocates_def
proof (elim conjE)
  assume "list_all2 (\<lambda>l x. 0 \<le> x \<and> x \<le> snd l) ls xs" and "sum_list xs = r"
  then show ?thesis
  proof (induction ls xs arbitrary: r rule: list_all2_induct)
    case (Cons l ls x xs)
    have "min 0 (s * fst l - s * P) * snd l \<le> x * (s * fst l - s * P)"
    proof (cases "0 \<le> s * fst l - s * P")
      case True then show ?thesis using Cons.hyps(1) by simp
    next
      case False
      then show ?thesis using Cons.hyps(1) mult_left_mono_neg [of x "snd l" "s * fst l - s * P"] by (simp add: mult.commute)
    qed
    then show ?case using Cons.IH [OF refl] Cons.prems by (auto simp: cost_of_def algebra_simps)
  qed (simp add: cost_of_def)
qed

theorem draw_best:
  fixes s :: rat
  assumes "sorted_wrt (\<lambda>a b. s * fst a \<le> s * fst b) ls" and "list_all (\<lambda>l. 0 < snd l) ls"
    and "0 < r" and "r \<le> sum_list (map snd ls)" and "allocates ls xs r"
  shows "s * snd (draw ls r) \<le> s * cost_of ls xs"
  using draw_dual [OF assms(1-4)] allocation_dual [OF assms(5), of s] by auto

section \<open>Recorded depth\<close>

definition worse :: "bool \<Rightarrow> f64 \<Rightarrow> f64 \<Rightarrow> bool" where
  "worse descending p q \<longleftrightarrow> (if descending then val q < val p else val p < val q)"

lemma worse_trans: "worse d p q \<Longrightarrow> worse d q r \<Longrightarrow> worse d p r"
  by (auto simp: worse_def split: if_splits)

definition level_ok :: "f64 \<times> f64 \<Rightarrow> bool" where
  "level_ok l \<longleftrightarrow> isfinite (fst l) \<and> isfinite (snd l) \<and> 0 < val (fst l) \<and> 0 < val (snd l)"

definition levels_ok :: "bool \<Rightarrow> levels \<Rightarrow> bool" where
  "levels_ok descending ls \<longleftrightarrow> ls \<noteq> [] \<and> list_all level_ok ls \<and> sorted_wrt (\<lambda>a b. worse descending (fst a) (fst b)) ls"

lemma side_checks_step:
  "side_checks d previous ((price, quantity) # rest) = Inr () \<Longrightarrow> (case previous of None \<Rightarrow> True | Some p \<Rightarrow> isfinite p) \<Longrightarrow>
     level_ok (price, quantity) \<and> (\<forall>p. previous = Some p \<longrightarrow> worse d p price) \<and> side_checks d (Some price) rest = Inr ()"
  by (cases previous; cases d) (auto simp: bindr_Inr not_finite_def level_ok_def worse_def)

lemma side_checks_sorted:
  "side_checks d previous ls = Inr () \<Longrightarrow> (case previous of None \<Rightarrow> True | Some p \<Rightarrow> isfinite p) \<Longrightarrow>
     list_all level_ok ls \<and> sorted_wrt (\<lambda>a b. worse d (fst a) (fst b)) ls \<and>
     (\<forall>p l. previous = Some p \<longrightarrow> l \<in> set ls \<longrightarrow> worse d p (fst l))"
proof (induction ls arbitrary: previous)
  case (Cons l rest)
  obtain price quantity where l: "l = (price, quantity)" by force
  note step = side_checks_step [OF Cons.prems(1) [unfolded l] Cons.prems(2)]
  then have "isfinite price" by (simp add: level_ok_def)
  with Cons.IH [of "Some price"] step
  have "list_all level_ok rest" "sorted_wrt (\<lambda>a b. worse d (fst a) (fst b)) rest" "\<forall>l \<in> set rest. worse d price (fst l)"
    by auto
  then show ?case using step by (force simp: l intro: worse_trans)
qed simp

lemma validate_side_ok: "validate_side d ls = Inr () \<Longrightarrow> levels_ok d ls"
  using side_checks_sorted [of d None ls] by (cases "ls = []") (simp_all add: validate_side_def levels_ok_def)

definition levels_f64 :: "levels \<Rightarrow> bool" where
  "levels_f64 ls \<longleftrightarrow> list_all (\<lambda>(p, q). is_f64 p \<and> is_f64 q) ls"

text \<open>In the direction \<open>s\<close> of the order, the exact prices of the levels only get worse.\<close>

lemma exact_levels_sorted:
  assumes "levels_ok (s = -1) ls" and "levels_f64 ls" and "s = 1 \<or> s = (-1::int)" and "0 < adverse"
  shows "sorted_wrt (\<lambda>a b. of_int s * fst a \<le> of_int s * fst b) (map (exact_level participation adverse) ls)"
proof -
  have m: "dec_of_float (fst a) \<le> dec_of_float (fst b)" if "a \<in> set ls" "b \<in> set ls" "val (fst a) < val (fst b)" for a b
    by (rule dec_of_float_mono) (use that assms(1,2) in \<open>auto simp: levels_ok_def level_ok_def levels_f64_def list_all_iff\<close>)
  have e: "of_int s * fst (exact_level participation adverse a) \<le> of_int s * fst (exact_level participation adverse b)"
    if "a \<in> set ls" "b \<in> set ls" "worse (s = -1) (fst a) (fst b)" for a b
    using that m [of a b] m [of b a] assms(3,4) by (auto simp: exact_level_def worse_def)
  have w: "sorted_wrt (\<lambda>a b. worse (s = -1) (fst a) (fst b)) ls" using assms(1) by (simp add: levels_ok_def)
  show ?thesis unfolding sorted_wrt_map by (rule sorted_wrt_mono_rel [OF e w])
qed

lemma exact_levels_positive:
  assumes "levels_ok d ls" and "levels_f64 ls" and "0 < participation"
  shows "list_all (\<lambda>l. 0 < snd l) (map (exact_level participation adverse) ls)"
  using assms unfolding list_all_iff
  by (auto simp: exact_level_def levels_ok_def level_ok_def levels_f64_def list_all_iff intro!: mult_pos_pos dec_of_float_pos)

section \<open>Executing an order\<close>

text \<open>A request whose numbers are binary64 floats and whose rules the constructor accepts.\<close>

definition depth_request_ok :: "depth_request \<Rightarrow> bool" where
  "depth_request_ok req \<longleftrightarrow> depth_rules_post_init (dq_rules req) = Inr (dq_rules req) \<and>
     is_f64 (dr_lot_size (dq_rules req)) \<and> is_f64 (dq_adverse_bps req) \<and> is_f64 (dq_fraction req) \<and>
     levels_f64 (dq_bids req) \<and> levels_f64 (dq_asks req)"

lemma depth_checks_facts:
  assumes "depth_checks b req = Inr ()" and "depth_request_ok req"
  shows "dq_lots req \<noteq> 0" "0 \<le> dq_symbol req" "dq_symbol req < int (length (bs_quantities b))"
    "levels_ok (depth_side req = -1) (depth_levels req)" "levels_f64 (depth_levels req)"
    "isfinite (dq_fraction req)" "0 < val (dq_fraction req)"
    "isfinite (dq_adverse_bps req)" "0 \<le> val (dq_adverse_bps req)" "val (dq_adverse_bps req) < 10000"
proof -
  have v: "validate_depth (dq_bids req) (dq_asks req) = Inr ()" and n: "depth_number_checks b req = Inr ()"
    using assms(1) by (auto simp: depth_checks_def bindr_Inr)
  have "levels_ok True (dq_bids req)" "levels_ok False (dq_asks req)"
    using v by (auto simp: validate_depth_def bindr_Inr intro: validate_side_ok)
  then show "levels_ok (depth_side req = -1) (depth_levels req)" by (simp add: depth_levels_def depth_side_def)
  show "levels_f64 (depth_levels req)" using assms(2) by (simp add: depth_levels_def depth_request_ok_def)
  show "dq_lots req \<noteq> 0" "0 \<le> dq_symbol req" "dq_symbol req < int (length (bs_quantities b))"
    "isfinite (dq_fraction req)" "0 < val (dq_fraction req)"
    "isfinite (dq_adverse_bps req)" "0 \<le> val (dq_adverse_bps req)" "val (dq_adverse_bps req) < 10000"
    using n by (auto simp: depth_number_checks_def not_finite_def)
qed

lemma lot_size_pos: "depth_request_ok req \<Longrightarrow> isfinite (dr_lot_size (dq_rules req)) \<and> 0 < dec_of_float (dr_lot_size (dq_rules req))"
  using dec_of_float_pos [of "dr_lot_size (dq_rules req)"]
  by (auto simp: depth_request_ok_def depth_rules_post_init_def bindr_Inr not_finite_def)

lemma adverse_pos:
  assumes "adverse_factor req = Inr adverse" and "is_f64 (dq_adverse_bps req)" and "isfinite (dq_adverse_bps req)"
    and "0 \<le> val (dq_adverse_bps req)" and "val (dq_adverse_bps req) < 10000"
  shows "0 < adverse"
proof -
  have t: "is_f64 (F 10000)" "dec_of_float (F 10000) = 10000" by (simp_all add: f64_eval)
  have "dec_of_float (F 0) \<le> dec_of_float (dq_adverse_bps req)"
    by (rule dec_of_float_mono) (use assms in \<open>simp_all add: rep_def\<close>)
  moreover have "dec_of_float (dq_adverse_bps req) < dec_of_float (F 10000)"
    by (rule dec_of_float_strict) (use assms t in simp_all)
  ultimately show ?thesis using assms(1,3) t
    by (auto simp: adverse_factor_def exact_quantity_def depth_side_def dec_mag_def field_simps split: if_splits)
qed

lemma depth_capacity_sum:
  assumes "list_all level_ok ls"
  shows "depth_capacity participation ls = Inr (sum_list (map snd (map (exact_level participation adverse) ls)))"
proof -
  have "mapr (\<lambda>(_, q). bindr (exact_quantity q) (\<lambda>v. Inr (v * participation))) ls =
      Inr (map snd (map (exact_level participation adverse) ls))"
    using assms by (induction ls) (auto simp: exact_quantity_def exact_level_def level_ok_def)
  then show ?thesis by (simp add: depth_capacity_def)
qed

text \<open>What an execution can end in: a refusal that touches nothing, or a fill with its evidence.\<close>

lemma execute_depth_cases:
  assumes ok: "depth_request_ok req" and run: "execute_depth_order nsum req b = Inr (f, c)"
  obtains (rejected) reason where "f = rejected_depth req reason" "c = b"
  | (filled) participation adverse step lots v price quantity turnover fee
    where "participation = dec_of_float (dq_fraction req)" "0 < participation" "adverse_factor req = Inr adverse" "0 < adverse"
      "step = dec_of_float (dr_lot_size (dq_rules req))" "0 < step"
      "lots = min \<bar>dq_lots req\<bar> \<lfloor>sum_list (map snd (map (exact_level participation adverse) (depth_levels req))) / step\<rfloor>"
      "0 < lots" "draw (map (exact_level participation adverse) (depth_levels req)) (of_int lots * step) = (0, v)"
      "float_of_fraction (v / (of_int lots * step)) = Inr price"
      "execute_fill nsum (dq_symbol req) quantity ((bs_marks b)[nat (dq_symbol req) := price]) fee turnover
         (dr_lot_size (dq_rules req)) (Some (depth_side req * lots)) (Some (bs_marks b)) b = Inr c"
      "f = \<lparr>df_filled_lots = depth_side req * lots, df_unfilled_lots = dq_lots req - depth_side req * lots,
         df_price = Some price, df_fee = fee, df_reason = None\<rparr>"
proof -
  obtain m em step adverse best refusal where ch: "depth_checks b req = Inr ()"
    and step: "exact_quantity (dr_lot_size (dq_rules req)) = Inr step" and adv: "adverse_factor req = Inr adverse"
    and rest: "(case refusal of Some reason \<Rightarrow> Inr (rejected_depth req reason, b)
       | None \<Rightarrow> match_depth nsum req m em step adverse b) = Inr (f, c)"
    using run unfolding execute_depth_order_def Let_def bindr_Inr by (elim exE conjE) simp
  show thesis
  proof (cases refusal)
    case (Some reason)
    then show thesis using rest by (intro rejected [of reason]) simp_all
  next
    case None
    note facts = depth_checks_facts [OF ch ok]
    define participation where "participation = dec_of_float (dq_fraction req)"
    define ls where "ls = map (exact_level participation adverse) (depth_levels req)"
    define lots where "lots = min \<bar>dq_lots req\<bar> \<lfloor>sum_list (map snd ls) / step\<rfloor>"
    have lv: "list_all level_ok (depth_levels req)" using facts(4) by (simp add: levels_ok_def)
    have st: "step = dec_of_float (dr_lot_size (dq_rules req))" "0 < step"
      using step lot_size_pos [OF ok] by (auto simp: exact_quantity_def)
    have p: "exact_quantity (dq_fraction req) = Inr participation" "0 < participation"
      using facts(6,7) ok dec_of_float_pos [of "dq_fraction req"]
      by (auto simp: exact_quantity_def participation_def depth_request_ok_def)
    have a: "0 < adverse" by (rule adverse_pos [OF adv]) (use facts ok in \<open>simp_all add: depth_request_ok_def\<close>)
    have pos: "list_all (\<lambda>l. 0 < snd l) ls" unfolding ls_def by (rule exact_levels_positive [OF facts(4,5) p(2)])
    then have "0 \<le> sum_list (map snd ls)" by (intro sum_list_nonneg) (auto simp: list_all_iff less_imp_le)
    then have nn: "0 \<le> lots" using st(2) by (simp add: lots_def)
    have md: "match_depth nsum req m em step adverse b = Inr (f, c)" using rest None by simp
    show thesis
    proof (cases "lots = 0")
      case True
      then show thesis using md p(1) depth_capacity_sum [OF lv, of participation adverse] st(2)
        by (intro rejected [of "''insufficient_depth''"]) (simp_all add: match_depth_def lots_def ls_def)
    next
      case False
      obtain r v where d: "draw ls (of_int lots * step) = (r, v)" by force
      have fin: "list_all (\<lambda>(p, q). isfinite p \<and> isfinite q) (depth_levels req)"
        using lv by (auto simp: list_all_iff level_ok_def)
      have w: "walk_levels participation adverse (depth_levels req) (of_int lots * step) 0 = Inr (r, v)"
        using walk_levels_draw [OF fin] d by (simp add: ls_def)
      have "(if r \<noteq> 0 then Inl (Raise AssertionError []) else
          bindr (above_maximum (dq_rules req) (v * em)) (\<lambda>above.
          if above then Inr (rejected_depth req ''notional_above_maximum'', b)
          else book_depth_fill nsum req m step lots v b)) = Inr (f, c)"
        using md p(1) depth_capacity_sum [OF lv, of participation adverse] st(2) False w
        by (simp add: match_depth_def lots_def [symmetric] ls_def [symmetric])
      then have r: "r = 0" and "(f = rejected_depth req ''notional_above_maximum'' \<and> c = b) \<or>
          book_depth_fill nsum req m step lots v b = Inr (f, c)"
        by (auto simp: bindr_Inr split: if_splits)
      then consider "f = rejected_depth req ''notional_above_maximum''" "c = b"
        | "book_depth_fill nsum req m step lots v b = Inr (f, c)" by blast
      then show thesis
      proof cases
        case 1 then show thesis by (intro rejected)
      next
        case 2
        then obtain price quantity turnover fee where "float_of_fraction (v / (of_int lots * step)) = Inr price"
          "execute_fill nsum (dq_symbol req) quantity ((bs_marks b)[nat (dq_symbol req) := price]) fee turnover
             (dr_lot_size (dq_rules req)) (Some (depth_side req * lots)) (Some (bs_marks b)) b = Inr c"
          "f = \<lparr>df_filled_lots = depth_side req * lots, df_unfilled_lots = dq_lots req - depth_side req * lots,
             df_price = Some price, df_fee = fee, df_reason = None\<rparr>"
          unfolding book_depth_fill_def Let_def bindr_Inr by auto
        then show thesis using False nn d r st
          by (intro filled [OF participation_def p(2) adv a st lots_def [unfolded ls_def]]) (simp_all add: ls_def)
      qed
    qed
  qed
qed

text \<open>What an order does to the position of its symbol.\<close>

lemma depth_position:
  assumes "depth_request_ok req" and "book_shape b" and "execute_depth_order nsum req b = Inr (f, c)"
  defines "i \<equiv> nat (dq_symbol req)"
  shows "exact_values c = (exact_values b)[i := exact_values b ! i + of_int (df_filled_lots f) * dec_of_float (dr_lot_size (dq_rules req))] \<and>
    df_filled_lots f + df_unfilled_lots f = dq_lots req \<and> \<bar>df_filled_lots f\<bar> \<le> \<bar>dq_lots req\<bar> \<and>
    0 \<le> df_filled_lots f * dq_lots req \<and> (c = b \<or> account_step nsum ndot b c)"
proof (rule execute_depth_cases [OF assms(1,3)])
  fix participation adverse step lots v price quantity turnover fee
  assume st: "step = dec_of_float (dr_lot_size (dq_rules req))"
    and lots: "lots = min \<bar>dq_lots req\<bar> \<lfloor>sum_list (map snd (map (exact_level participation adverse) (depth_levels req))) / step\<rfloor>" "0 < lots"
    and fill: "execute_fill nsum (dq_symbol req) quantity ((bs_marks b)[nat (dq_symbol req) := price]) fee turnover
       (dr_lot_size (dq_rules req)) (Some (depth_side req * lots)) (Some (bs_marks b)) b = Inr c"
    and f: "f = \<lparr>df_filled_lots = depth_side req * lots, df_unfilled_lots = dq_lots req - depth_side req * lots,
       df_price = Some price, df_fee = fee, df_reason = None\<rparr>"
  have le: "lots \<le> \<bar>dq_lots req\<bar>" by (subst lots(1)) (rule min.cobounded1)
  have s: "depth_side req * lots \<noteq> 0" "0 \<le> depth_side req * lots * dq_lots req" "\<bar>depth_side req * lots\<bar> = lots"
    using lots(2) le by (auto simp: depth_side_def mult_nonneg_nonpos)
  obtain accepted where acc: "accepted_delta quantity (dr_lot_size (dq_rules req)) (Some (depth_side req * lots))
        (exact_values b ! nat (dq_symbol req)) = Inr accepted"
    and rec: "record_execution nsum ((bs_marks b)[nat (dq_symbol req) := price])
        ((exact_values b)[nat (dq_symbol req) := exact_values b ! nat (dq_symbol req) + accepted])
        ((replicate (length (bs_quantities b)) 0)[nat (dq_symbol req) := accepted]) fee turnover (Some (bs_marks b)) b = Inr c"
    by (rule execute_fill_Inr [OF assms(2) fill])
  have "accepted = of_int (depth_side req * lots) * step"
    using acc s(1) by (auto simp: accepted_delta_def accepted_fill_quantity_def exact_quantity_def bindr_Inr st
      Let_def split: if_splits)
  moreover have "exact_values c = (exact_values b)[nat (dq_symbol req) := exact_values b ! nat (dq_symbol req) + accepted]"
    using record_execution_valid [OF assms(2) _ rec] book_shape_facts(2) [OF assms(2)] by simp
  ultimately show ?thesis using s le account_step.fill [OF fill] by (simp add: f st i_def)
qed (simp add: rejected_depth_def i_def)

end
