(* ===== verification/CostModel.thy ===== *)
theory CostModel
  imports Liquidity
begin

text \<open>
  The configuration of the executor: \<open>ExecutionRuleStress\<close> and \<open>ExecutionCostConfig\<close> of
  \<open>trade_rl/simulation/execution.py\<close> with their checks and digests, and the source-verified rules of
  \<open>trade_rl/data/market_order_rules.py\<close>.
\<close>

section \<open>Rule stress\<close>

record rule_stress =
  rs_name :: string
  rs_tick_factor :: f64
  rs_lot_factor :: f64
  rs_minimum_factor :: f64
  rs_adverse :: bool

definition rule_stress_post_init :: "rule_stress \<Rightarrow> rule_stress res" where
  "rule_stress_post_init s = bindr (checks (
     (rs_name s = [], value_error ''execution-rule stress name must be non-empty'') #
     map (\<lambda>(name, v). (\<not> isfinite v \<or> flt v (F 1), value_error (name @ '' must be finite and at least 1.0'')))
       [(''tick_size_factor'', rs_tick_factor s), (''lot_size_factor'', rs_lot_factor s),
        (''minimum_notional_factor'', rs_minimum_factor s)])) (\<lambda>_. Inr s)"

definition stress_enabled :: "rule_stress \<Rightarrow> bool" where
  "stress_enabled s \<longleftrightarrow> flt (F 1) (rs_tick_factor s) \<or> flt (F 1) (rs_lot_factor s) \<or>
     flt (F 1) (rs_minimum_factor s) \<or> rs_adverse s"

definition stress_payload :: "rule_stress \<Rightarrow> pyobj" where
  "stress_payload s = PMapping (map (\<lambda>(k, v). (PStr k, v)) [
     (''adverse_tick_rounding'', PBool (rs_adverse s)), (''lot_size_factor'', PFloat (rs_lot_factor s)),
     (''minimum_notional_factor'', PFloat (rs_minimum_factor s)), (''name'', PStr (rs_name s)),
     (''schema_version'', PStr ''execution_rule_stress_v1''), (''tick_size_factor'', PFloat (rs_tick_factor s))])"

section \<open>Cost configuration\<close>

record cost_config =
  cc_fee_rate :: f64
  cc_maker_fee_rate :: f64
  cc_taker_fee_rate :: f64
  cc_spread_rate :: f64
  cc_impact_rate :: f64
  cc_multiplier :: f64
  cc_max_participation :: f64
  cc_slippage_std :: f64
  cc_tail_probability :: f64
  cc_tail_multiplier :: f64
  cc_random_seed :: int
  cc_minimum_notional :: f64
  cc_lot_size :: f64
  cc_tick_size :: f64
  cc_allow_short :: bool
  cc_borrow_multiplier :: f64
  cc_max_leverage :: f64
  cc_maintenance_rate :: f64
  cc_haircut :: f64
  cc_margin_mode :: string
  cc_latency_bars :: int
  cc_order_type :: string
  cc_limit_offset :: f64
  cc_path_mode :: string
  cc_bar_capacity :: bool
  cc_partial_carry :: bool
  cc_trigger_fractions :: "f64 list"

definition finite_fields :: "cost_config \<Rightarrow> (string \<times> f64) list" where
  "finite_fields c = [(''fee_rate'', cc_fee_rate c), (''maker_fee_rate'', cc_maker_fee_rate c),
     (''taker_fee_rate'', cc_taker_fee_rate c), (''spread_rate'', cc_spread_rate c),
     (''impact_rate'', cc_impact_rate c), (''multiplier'', cc_multiplier c),
     (''max_participation_rate'', cc_max_participation c), (''slippage_std'', cc_slippage_std c),
     (''tail_slippage_probability'', cc_tail_probability c), (''tail_slippage_multiplier'', cc_tail_multiplier c),
     (''minimum_notional'', cc_minimum_notional c), (''lot_size'', cc_lot_size c), (''tick_size'', cc_tick_size c),
     (''borrow_rate_multiplier'', cc_borrow_multiplier c), (''max_leverage'', cc_max_leverage c),
     (''maintenance_margin_rate'', cc_maintenance_rate c), (''collateral_haircut'', cc_haircut c),
     (''limit_offset_rate'', cc_limit_offset c)]"

definition smallest_rate :: "cost_config \<Rightarrow> f64" where
  "smallest_rate c = foldl fmin (cc_fee_rate c) [cc_maker_fee_rate c, cc_taker_fee_rate c, cc_spread_rate c,
     cc_impact_rate c, cc_multiplier c, cc_slippage_std c, cc_tail_multiplier c, cc_minimum_notional c,
     cc_lot_size c, cc_tick_size c, cc_borrow_multiplier c, cc_limit_offset c]"

definition fractions_ok :: "f64 list \<Rightarrow> bool" where
  "fractions_ok fs \<longleftrightarrow> length fs = 4 \<and> list_all isfinite fs \<and>
     list_all (\<lambda>v. fle (F 0) v \<and> fle v (F 1)) fs \<and> list_all (\<lambda>i. fle (fs ! (i + 1)) (fs ! i)) [0, 1, 2]"

definition within_unit_interval :: "bool \<Rightarrow> f64 \<Rightarrow> bool" where
  "within_unit_interval zero_allowed v \<longleftrightarrow> (if zero_allowed then fle (F 0) v else flt (F 0) v) \<and> fle v (F 1)"

definition cost_config_post_init :: "cost_config \<Rightarrow> cost_config res" where
  "cost_config_post_init c = bindr (checks (
     map (\<lambda>(name, v). (\<not> isfinite v, value_error (name @ '' must be finite''))) (finite_fields c) @ [
     (flt (smallest_rate c) (F 0), value_error ''execution rates and constraints must be non-negative''),
     (\<not> within_unit_interval False (cc_max_participation c), value_error ''max_participation_rate must be within (0, 1]''),
     (\<not> within_unit_interval True (cc_tail_probability c),
        value_error ''tail_slippage_probability must be within [0, 1]''),
     (flt (F 0) (cc_tail_probability c) \<and> flt (cc_tail_multiplier c) (F 1),
        value_error ''tail_slippage_multiplier must be at least 1.0 when tail events are enabled''),
     (\<not> flt (F 0) (cc_max_leverage c), value_error ''max_leverage must be positive''),
     (\<not> within_unit_interval True (cc_maintenance_rate c), value_error ''maintenance_margin_rate must be within [0, 1]''),
     (\<not> within_unit_interval False (cc_haircut c), value_error ''collateral_haircut must be within (0, 1]''),
     (cc_margin_mode c \<notin> {''cross'', ''isolated''}, value_error (''margin_mode must be 'cross' or 'isolated'' @ [CHR 39])),
     (cc_random_seed c < 0, value_error ''random_seed must be a non-negative integer''),
     (cc_latency_bars c < 0, value_error ''order_latency_bars must be a non-negative integer''),
     (cc_order_type c \<notin> {''market'', ''limit'', ''stop_market''},
        value_error (''order_type must be 'market', 'limit' or 'stop_market'' @ [CHR 39])),
     (fle (F 1) (cc_limit_offset c), value_error ''limit_offset_rate must be below one''),
     (cc_path_mode c \<notin> {''optimistic'', ''neutral'', ''conservative''},
        value_error ''path_mode must be optimistic, neutral or conservative''),
     (\<not> fractions_ok (cc_trigger_fractions c), value_error ''trigger_volume_fractions must be four non-increasing rates'')]))
     (\<lambda>_. Inr c)"

definition policy_payload :: "cost_config \<Rightarrow> (string \<times> pyobj) list" where
  "policy_payload c = [
     (''allow_short'', PBool (cc_allow_short c)), (''borrow_rate_multiplier'', PFloat (cc_borrow_multiplier c)),
     (''collateral_haircut'', PFloat (cc_haircut c)), (''fee_rate'', PFloat (cc_fee_rate c)),
     (''impact_rate'', PFloat (cc_impact_rate c)), (''limit_offset_rate'', PFloat (cc_limit_offset c)),
     (''lot_size'', PFloat (cc_lot_size c)), (''maintenance_margin_rate'', PFloat (cc_maintenance_rate c)),
     (''maker_fee_rate'', PFloat (cc_maker_fee_rate c)), (''margin_mode'', PStr (cc_margin_mode c)),
     (''max_leverage'', PFloat (cc_max_leverage c)), (''max_participation_rate'', PFloat (cc_max_participation c)),
     (''minimum_notional'', PFloat (cc_minimum_notional c)), (''multiplier'', PFloat (cc_multiplier c)),
     (''order_latency_bars'', PInt (cc_latency_bars c)), (''order_type'', PStr (cc_order_type c)),
     (''partial_fill_carry'', PBool (cc_partial_carry c)), (''path_mode'', PStr (cc_path_mode c)),
     (''processing_bar_volume_capacity'', PBool (cc_bar_capacity c)), (''random_seed'', PInt (cc_random_seed c)),
     (''schema_version'', PStr ''execution_policy_v2''), (''slippage_std'', PFloat (cc_slippage_std c)),
     (''spread_rate'', PFloat (cc_spread_rate c)), (''tail_slippage_multiplier'', PFloat (cc_tail_multiplier c)),
     (''tail_slippage_probability'', PFloat (cc_tail_probability c)), (''taker_fee_rate'', PFloat (cc_taker_fee_rate c)),
     (''tick_size'', PFloat (cc_tick_size c)),
     (''trigger_volume_fractions'', PSequence (map PFloat (cc_trigger_fractions c)))]"

section \<open>Market-order rules\<close>

record order_rule =
  mr_symbol_index :: int
  mr_symbol :: string
  mr_lot_size :: f64
  mr_minimum_quantity :: f64
  mr_maximum_quantity :: f64
  mr_minimum_notional :: f64

definition nonnegative_fraction :: "f64 \<Rightarrow> rat res" where
  "nonnegative_fraction v = (if \<not> isfinite v \<or> flt v (F 0)
     then Inl (value_error ''quantity rules must be finite and nonnegative'') else Inr (dec_of_float v))"

definition lcm_int :: "int list \<Rightarrow> int" where
  "lcm_int xs = foldr lcm xs 1"

definition denominator_of :: "rat \<Rightarrow> int" where
  "denominator_of q = snd (quotient_of q)"

text \<open>\<open>_lcm\<close>: the least common multiple of fractions.\<close>

definition lcm_fraction :: "rat list \<Rightarrow> rat" where
  "lcm_fraction steps = (let d = lcm_int (map denominator_of steps)
     in of_int (lcm_int (map (\<lambda>s. \<lfloor>s * of_int d\<rfloor>) steps)) / of_int d)"

definition joint_lot_size :: "f64 list \<Rightarrow> f64 \<Rightarrow> f64 res" where
  "joint_lot_size steps stress_factor =
     bindr (mapr nonnegative_fraction steps) (\<lambda>all.
     bindr (nonnegative_fraction stress_factor) (\<lambda>factor.
     let values = filter (\<lambda>v. v \<noteq> 0) all in
     if values = [] \<or> factor < 1 then Inl (value_error ''joint lot requires a positive grid and stress >= 1'')
     else (let base = lcm_fraction values; quantum = lcm_fraction [base, base * factor] in
       bindr (float_of_fraction quantum) (\<lambda>x.
       if dec_of_float x \<noteq> quantum then Inl (value_error ''joint lot precision exceeds decimal representation'')
       else Inr x))))"

definition order_rule_post_init :: "order_rule \<Rightarrow> order_rule res" where
  "order_rule_post_init r = bindr (checks [
     (mr_symbol_index r < 0, value_error ''rule symbol index must be a nonnegative integer''),
     (mr_symbol r = [], value_error ''rule symbol must be nonempty'')]) (\<lambda>_.
     bindr (nonnegative_fraction (mr_lot_size r)) (\<lambda>lot.
     bindr (nonnegative_fraction (mr_minimum_quantity r)) (\<lambda>low.
     bindr (nonnegative_fraction (mr_maximum_quantity r)) (\<lambda>high.
     bindr (nonnegative_fraction (mr_minimum_notional r)) (\<lambda>_.
     if lot \<le> 0 \<or> high \<le> 0 \<or> high < of_int (max 1 \<lceil>low / lot\<rceil>) * lot
     then Inl (value_error ''quantity rules have no admissible lot'') else Inr r)))))"

record order_profile =
  op_dataset_id :: string
  op_dataset_symbols :: "string list"
  op_rules :: "order_rule list"
  op_source_uri :: string
  op_source_sha256 :: string
  op_retrieved_at :: "int option"
  op_account_mode :: string
  op_reduce_only_exits :: bool

text \<open>The check of the private factory capability is not modelled: a profile is one the factory built.\<close>

definition order_profile_post_init :: "order_profile \<Rightarrow> order_profile res" where
  "order_profile_post_init p =
     bindr (require_sha256 ''dataset_id'' (op_dataset_id p)) (\<lambda>_.
     bindr (require_sha256 ''source_sha256'' (op_source_sha256 p)) (\<lambda>_.
     bindr (checks [
       (op_dataset_symbols p = [] \<or> [] \<in> set (op_dataset_symbols p) \<or> has_dup (op_dataset_symbols p) \<or> op_rules p = [],
          value_error ''profile requires immutable unique symbols and rules''),
       (\<not> sorted_wrt (<) (map mr_symbol_index (op_rules p)) \<or>
          list_ex (\<lambda>r. int (length (op_dataset_symbols p)) \<le> mr_symbol_index r \<or>
            op_dataset_symbols p ! nat (mr_symbol_index r) \<noteq> mr_symbol r) (op_rules p),
          value_error ''profile rules must match ordered dataset symbols''),
       (op_account_mode p \<noteq> ''one_way'', value_error ''profile requires one-way mode and boolean reduce-only''),
       (op_source_uri p = [] \<or> op_retrieved_at p = None, value_error ''profile requires source URI and aware retrieval time'')])
     (\<lambda>_. Inr p)))"

definition rule_for :: "order_profile \<Rightarrow> int \<Rightarrow> order_rule option" where
  "rule_for p symbol = find (\<lambda>r. mr_symbol_index r = symbol) (op_rules p)"

definition rule_payload :: "order_rule \<Rightarrow> pyobj" where
  "rule_payload r = PMapping (map (\<lambda>(k, v). (PStr k, v)) [
     (''symbol_index'', PInt (mr_symbol_index r)), (''symbol'', PStr (mr_symbol r)),
     (''lot_size'', PFloat (mr_lot_size r)), (''minimum_quantity'', PFloat (mr_minimum_quantity r)),
     (''maximum_quantity'', PFloat (mr_maximum_quantity r)), (''minimum_notional'', PFloat (mr_minimum_notional r))])"

text \<open>\<open>retrieved_at.astimezone(UTC).isoformat()\<close> prints the offset \<open>+00:00\<close>.\<close>

definition profile_payload :: "order_profile \<Rightarrow> pyobj" where
  "profile_payload p = PMapping (map (\<lambda>(k, v). (PStr k, v)) [
     (''schema'', PStr ''market_order_profile_v1''), (''venue'', PStr ''binance_usdm_perpetual''),
     (''historical_application'', PStr ''current_snapshot_assumption''),
     (''dataset_minimum_role'', PStr ''venue_constraint''), (''reversal_mode'', PStr ''ordinary''),
     (''dataset_id'', PStr (op_dataset_id p)), (''dataset_symbols'', PSequence (map PStr (op_dataset_symbols p))),
     (''rules'', PSequence (map rule_payload (op_rules p))), (''source_uri'', PStr (op_source_uri p)),
     (''source_sha256'', PStr (op_source_sha256 p)),
     (''retrieved_at'', PStr (case op_retrieved_at p of None \<Rightarrow> [] | Some us \<Rightarrow> isoformat_utc us)),
     (''account_mode'', PStr (op_account_mode p)), (''reduce_only_exits'', PBool (op_reduce_only_exits p))])"

definition profile_digest :: "order_profile \<Rightarrow> string res" where
  "profile_digest p = bindr (canonical_json_bytes (profile_payload p)) (\<lambda>b. Inr (sha256_hex b))"

section \<open>The digest of a whole policy\<close>

definition digest_of :: "(string \<times> pyobj) list \<Rightarrow> string res" where
  "digest_of entries = content_digest (PMapping (map (\<lambda>(k, v). (PStr k, v)) entries))"

definition base_policy :: "cost_config \<Rightarrow> rule_stress \<Rightarrow> order_profile option \<Rightarrow> string res" where
  "base_policy c s profile = (case profile of
      Some p \<Rightarrow> bindr (execution_policy_digest (policy_payload c)) (\<lambda>base. bindr (profile_digest p) (\<lambda>d.
        digest_of [(''schema_version'', PStr ''profile_market_execution_v1''), (''base_policy_digest'', PStr base),
          (''market_order_profile_digest'', PStr d), (''rule_stress'', stress_payload s)]))
    | None \<Rightarrow> if stress_enabled s
        then bindr (execution_policy_digest (policy_payload c)) (\<lambda>base.
          digest_of [(''schema_version'', PStr ''stressed_execution_policy_v1''), (''base_policy_digest'', PStr base),
            (''rule_stress'', stress_payload s)])
        else execution_policy_digest (policy_payload c))"

definition executor_policy_digest ::
  "cost_config \<Rightarrow> rule_stress \<Rightarrow> order_profile option \<Rightarrow> bool \<Rightarrow> bool \<Rightarrow> string res" where
  "executor_policy_digest c s profile retain_debt priced_funding =
     bindr (base_policy c s profile) (\<lambda>d0.
     bindr (if retain_debt then digest_of [(''schema_version'', PStr ''insolvency_execution_policy_v2''),
         (''base_policy_digest'', PStr d0), (''insolvency_valuation'', PStr ''retain_debt''),
         (''loss_metric_semantics'', PStr ''unbounded_simple_return_drawdown_v1'')] else Inr d0) (\<lambda>d1.
     if priced_funding then digest_of [(''schema_version'', PStr ''funding_execution_policy_v1''),
         (''base_policy_digest'', PStr d1), (''funding_semantics'', PStr ''dataset_funding_price_rate_v1'')] else Inr d1))"

end
