(* ===== verification/Market.thy ===== *)
theory Market
  imports CostModel
begin

text \<open>
  The rows of \<open>trade_rl/data/market.py\<close> that the executor reads, with its accessors, and the
  methods of \<open>MarketExecutor\<close> (\<open>trade_rl/simulation/execution.py\<close>) that the stateful engine calls.

  A two-dimensional array is the list of its rows.  Times are nanoseconds; \<open>mk_show_time\<close> stands for
  numpy's text of one.  The fields \<open>ex_nsum\<close>, \<open>ex_ndot\<close> and
  \<open>ex_log1p\<close> stand for numpy's reductions and the C library's \<open>log1p\<close>; \<open>ex_normal k\<close> and
  \<open>ex_random k\<close> are the value of the k-th call of the seeded numpy generator, whose state the engine
  carries as the number of calls made so far.
\<close>

section \<open>The dataset\<close>

datatype volume_unit = BASE_ASSET | QUOTE_NOTIONAL | CONTRACTS

record market =
  mk_dataset_id :: string
  mk_symbols :: nat
  mk_names :: "string list"
  mk_timestamps :: "int list"
  mk_available :: "int list list"
  mk_show_time :: "int \<Rightarrow> string"
  mk_bar_hours :: f64
  mk_units :: "volume_unit list"
  mk_multipliers :: "f64 list"
  mk_open :: "f64 list list"
  mk_high :: "f64 list list"
  mk_low :: "f64 list list"
  mk_close :: "f64 list list"
  mk_volume :: "f64 list list"
  mk_mark :: "f64 list list"
  mk_tradable :: "bool list list"
  mk_active :: "bool list list"
  mk_buy_allowed :: "bool list list"
  mk_sell_allowed :: "bool list list"
  mk_borrow_available :: "bool list list"
  mk_tick :: "f64 list list"
  mk_lot :: "f64 list list"
  mk_minimum :: "f64 list list"
  mk_participation :: "f64 list list"
  mk_fee :: "f64 list list"
  mk_maker_fee :: "f64 list list"
  mk_taker_fee :: "f64 list list"
  mk_spread :: "f64 list list"
  mk_borrow_rate :: "f64 list list"
  mk_cash_rate :: "f64 list"
  mk_split :: "f64 list list"
  mk_dividend :: "f64 list list"
  mk_recovery :: "f64 list list"
  mk_funding_due :: "bool list list"
  mk_funding_rate :: "f64 list list"
  mk_funding_price_rate :: "f64 list list option"

definition n_bars :: "market \<Rightarrow> int" where
  "n_bars m = int (length (mk_timestamps m))"

definition cell :: "'a list list \<Rightarrow> int \<Rightarrow> int \<Rightarrow> 'a res" where
  "cell rows i j = bindr (vec_at rows i) (\<lambda>row. vec_at row j)"

definition ns_per_hour :: int where
  "ns_per_hour = 3600000000000"

definition elapsed_hours :: "market \<Rightarrow> int \<Rightarrow> int \<Rightarrow> f64 res" where
  "elapsed_hours m start_index end_index =
    (if \<not> (0 \<le> start_index \<and> start_index < end_index \<and> end_index < n_bars m)
     then Inl (value_error ''elapsed-hour indices are outside the dataset'')
     else float_of_fraction (of_int (mk_timestamps m ! nat end_index - mk_timestamps m ! nat start_index) / of_int ns_per_hour))"

definition elapsed_year_fraction :: "market \<Rightarrow> int \<Rightarrow> int \<Rightarrow> f64 res" where
  "elapsed_year_fraction m start_index end_index =
     bindr (elapsed_hours m start_index end_index) (\<lambda>h. Inr (fdiv h (F 8760)))"

definition quantity_notional :: "market \<Rightarrow> int \<Rightarrow> f64 list \<Rightarrow> f64 list option \<Rightarrow> f64 list res" where
  "quantity_notional m index quantities prices =
    (if \<not> (0 \<le> index \<and> index < n_bars m) then Inl (Raise IndexError ''quantity-notional index is outside the dataset'')
     else bindr (case prices of None \<Rightarrow> vec_at (mk_mark m) index | Some p \<Rightarrow> Inr p) (\<lambda>price_vector.
       let result = vmul (vmul quantities price_vector) (mk_multipliers m) in
       bindr (checks [
         (length quantities \<noteq> mk_symbols m \<or> length price_vector \<noteq> mk_symbols m \<or> \<not> all_finite quantities \<or>
            \<not> all_finite price_vector \<or> list_ex not_positive price_vector,
            value_error ''quantities and prices must match symbols and be finite''),
         (\<not> all_finite result, value_error ''quantity notional must be finite''),
         (list_ex (\<lambda>(q, v). \<not> feq q (F 0) \<and> feq v (F 0)) (zip quantities result),
            value_error ''nonzero quantity notional cannot be represented'')]) (\<lambda>_. Inr result)))"

text \<open>\<open>market_notional\<close>: quote-notional liquidity under explicit volume units.\<close>

fun unit_notional :: "volume_unit \<Rightarrow> f64 \<Rightarrow> f64 \<Rightarrow> f64 \<Rightarrow> f64" where
  "unit_notional QUOTE_NOTIONAL raw price multiplier = raw"
| "unit_notional BASE_ASSET raw price multiplier = fmul raw price"
| "unit_notional CONTRACTS raw price multiplier = fmul (fmul raw price) multiplier"

definition market_notional :: "market \<Rightarrow> int \<Rightarrow> f64 list option \<Rightarrow> f64 list option \<Rightarrow> f64 list res" where
  "market_notional m index prices volume =
    (if \<not> (0 \<le> index \<and> index < n_bars m) then Inl (Raise IndexError ''market notional index is outside the dataset'')
     else bindr (case prices of None \<Rightarrow> vec_at (mk_open m) index | Some p \<Rightarrow> Inr p) (\<lambda>price_vector.
     bindr (checks [(length price_vector \<noteq> mk_symbols m \<or> \<not> all_finite price_vector \<or> list_ex not_positive price_vector,
       value_error ''market notional prices must be finite and positive'')]) (\<lambda>_.
     bindr (case volume of None \<Rightarrow> vec_at (mk_volume m) index | Some v \<Rightarrow> Inr v) (\<lambda>raw_volume.
     let result = map (\<lambda>(u, raw, price, k). unit_notional u raw price k)
       (zip (mk_units m) (zip raw_volume (zip price_vector (mk_multipliers m)))) in
     bindr (checks [
       (length raw_volume \<noteq> mk_symbols m \<or> \<not> all_finite raw_volume \<or> list_ex (\<lambda>v. flt v (F 0)) raw_volume,
          value_error ''market volume must match symbols and be non-negative''),
       (\<not> all_finite result, value_error ''market notional must be finite''),
       (list_ex (\<lambda>(raw, v). \<not> feq raw (F 0) \<and> feq v (F 0)) (zip raw_volume result),
          value_error ''nonzero market notional cannot be represented'')]) (\<lambda>_. Inr result)))))"

section \<open>The executor\<close>

datatype insolvency_valuation = FLOOR_ZERO | RETAIN_DEBT

record executor =
  ex_market :: market
  ex_cost :: cost_config
  ex_stress :: rule_stress
  ex_profile :: "order_profile option"
  ex_valuation :: insolvency_valuation
  ex_nsum :: "f64 list \<Rightarrow> f64"
  ex_ndot :: "f64 list \<Rightarrow> f64 list \<Rightarrow> f64"
  ex_log1p :: "f64 \<Rightarrow> f64"
  ex_normal :: "nat \<Rightarrow> f64"
  ex_random :: "nat \<Rightarrow> f64"

abbreviation retain_debt :: "executor \<Rightarrow> bool" where
  "retain_debt ex \<equiv> ex_valuation ex = RETAIN_DEBT"

definition policy_digest :: "executor \<Rightarrow> string res" where
  "policy_digest ex = executor_policy_digest (ex_cost ex) (ex_stress ex) (ex_profile ex) (retain_debt ex)
     (mk_funding_price_rate (ex_market ex) \<noteq> None)"

text \<open>Elementwise \<open>np.maximum\<close> and \<open>np.minimum\<close> propagate NaN.\<close>

definition np_maximum :: "f64 \<Rightarrow> f64 \<Rightarrow> f64" where
  "np_maximum x y = (if x = NaN \<or> y = NaN then NaN else if fle y x then x else y)"

definition np_minimum :: "f64 \<Rightarrow> f64 \<Rightarrow> f64" where
  "np_minimum x y = (if x = NaN \<or> y = NaN then NaN else if fle x y then x else y)"

section \<open>Effective rules\<close>

definition base_rule :: "f64 list \<Rightarrow> f64 \<Rightarrow> f64 \<Rightarrow> f64 list" where
  "base_rule row floor_value factor = map (\<lambda>v. fmul (np_maximum v floor_value) factor) row"

definition rule_step ::
  "executor \<Rightarrow> int \<Rightarrow> f64 list \<times> f64 list \<Rightarrow> order_rule \<Rightarrow> (f64 list \<times> f64 list) res" where
  "rule_step ex index = (\<lambda>(lot, minimum) rule. let symbol = mr_symbol_index rule in
     bindr (cell (mk_lot (ex_market ex)) index symbol) (\<lambda>dataset_lot.
     bindr (joint_lot_size [dataset_lot, cc_lot_size (ex_cost ex), mr_lot_size rule] (rs_lot_factor (ex_stress ex))) (\<lambda>joint.
     bindr (vec_at minimum symbol) (\<lambda>current.
     Inr (lot[nat symbol := joint],
       minimum[nat symbol := fmax current (fmul (mr_minimum_notional rule) (rs_minimum_factor (ex_stress ex)))])))))"

text \<open>The tick, lot and minimum-notional rows; the two-entry cache of the rows is left out.\<close>

definition effective_rules :: "executor \<Rightarrow> int \<Rightarrow> (f64 list \<times> f64 list \<times> f64 list) res" where
  "effective_rules ex index = (let m = ex_market ex; c = ex_cost ex; s = ex_stress ex in
     if \<not> (0 \<le> index \<and> index < n_bars m) then Inl (Raise IndexError ''execution-rule index is outside the dataset'')
     else bindr (vec_at (mk_tick m) index) (\<lambda>tick_row.
     bindr (vec_at (mk_lot m) index) (\<lambda>lot_row.
     bindr (vec_at (mk_minimum m) index) (\<lambda>minimum_row.
     let tick = base_rule tick_row (cc_tick_size c) (rs_tick_factor s);
         lot = base_rule lot_row (cc_lot_size c) (rs_lot_factor s);
         minimum = base_rule minimum_row (cc_minimum_notional c) (rs_minimum_factor s) in
     bindr (case ex_profile ex of None \<Rightarrow> Inr (lot, minimum)
       | Some p \<Rightarrow> foldr_res (rule_step ex index) (lot, minimum) (op_rules p)) (\<lambda>(lot', minimum').
     Inr (tick, lot', minimum'))))))"

definition market_order_rule :: "executor \<Rightarrow> int \<Rightarrow> order_rule option" where
  "market_order_rule ex symbol = (case ex_profile ex of None \<Rightarrow> None | Some p \<Rightarrow> rule_for p symbol)"

definition order_minimum_notional :: "executor \<Rightarrow> order_intent \<Rightarrow> f64 \<Rightarrow> f64" where
  "order_minimum_notional ex intent ordinary = (case ex_profile ex of
      None \<Rightarrow> ordinary
    | Some p \<Rightarrow> if op_reduce_only_exits p \<and> oi_reduce_only intent \<and> rule_for p (oi_symbol_index intent) \<noteq> None
        then fmul (cc_minimum_notional (ex_cost ex)) (rs_minimum_factor (ex_stress ex)) else ordinary)"

definition reduce_only_symbols :: "executor \<Rightarrow> int list option" where
  "reduce_only_symbols ex = map_option (\<lambda>p. if op_reduce_only_exits p then map mr_symbol_index (op_rules p) else [])
     (ex_profile ex)"

section \<open>Slippage and price rounding\<close>

text \<open>\<open>_slippage_rates(1)[0]\<close> with the number of generator calls before and after.\<close>

definition slippage_rate :: "executor \<Rightarrow> nat \<Rightarrow> f64 \<times> nat" where
  "slippage_rate ex k = (let c = ex_cost ex in
     if feq (cc_slippage_std c) (F 0) then (F 0, k)
     else (let rate = fabs (ex_normal ex k) in
       if flt (F 0) (cc_tail_probability c)
       then (if flt (ex_random ex (k + 1)) (cc_tail_probability c) then fmul rate (cc_tail_multiplier c) else rate, k + 2)
       else (rate, k + 1)))"

text \<open>Rounding a float to an integral float; a zero result keeps the sign of the argument.\<close>

definition integral :: "(rat \<Rightarrow> int) \<Rightarrow> f64 \<Rightarrow> f64" where
  "integral r x = (if \<not> isfinite x then x
     else let n = r (val x) in if n = 0 then (if signbit x then NegZero else F 0) else rnd (of_int n))"

definition round_cell :: "bool \<Rightarrow> f64 \<times> f64 \<times> f64 \<Rightarrow> f64" where
  "round_cell adverse = (\<lambda>(price, tick, direction).
     if \<not> flt (F 0) tick then price
     else (let scaled = fdiv price tick;
               steps = (if adverse \<and> flt (F 0) direction then integral ceiling scaled
                        else if adverse \<and> flt direction (F 0) then integral floor scaled
                        else integral rne scaled)
           in np_maximum (fmul steps tick) tick))"

definition round_prices :: "executor \<Rightarrow> f64 list \<Rightarrow> int \<Rightarrow> f64 list \<Rightarrow> f64 list res" where
  "round_prices ex prices index directions =
     bindr (effective_rules ex index) (\<lambda>(tick, _, _).
     bindr (checks [(rs_adverse (ex_stress ex) \<and> length directions \<noteq> length prices,
       value_error ''price-rounding directions do not match symbols'')]) (\<lambda>_.
     let rounded = map (round_cell (rs_adverse (ex_stress ex))) (zip prices (zip tick directions)) in
     bindr (checks [(list_ex (\<lambda>p. fle p (F 0)) rounded \<or> \<not> all_finite rounded,
       value_error ''rounded execution prices must remain finite and positive'')]) (\<lambda>_. Inr rounded)))"

section \<open>Account operations of the executor\<close>

definition flatten_after_termination :: "executor \<Rightarrow> book \<Rightarrow> f64 list \<Rightarrow> book" where
  "flatten_after_termination ex b prices =
    (let value = portfolio_value (ex_nsum ex) b;
         kept = (if retain_debt ex then value else fmax value (F 0));
         c = b\<lparr>bs_quantities := map (\<lambda>_. F 0) (bs_quantities b), bs_marks := prices, bs_cash := kept,
               bs_margin_used := F 0, bs_maintenance_margin := F 0, bs_maintenance_requirement := F 0\<rparr>
     in if retain_debt ex then update_drawdown (ex_nsum ex) True c else c)"

text \<open>The deficit of single-asset isolated margin, per symbol.\<close>

definition isolated_deficits :: "cost_config \<Rightarrow> f64 list \<Rightarrow> f64 \<Rightarrow> f64 \<Rightarrow> f64 list" where
  "isolated_deficits c values gross collateral = map (\<lambda>v. np_maximum
     (fsub (fmul (cc_maintenance_rate c) (fabs v)) (fmul collateral (fdiv (fabs v) gross))) (F 0)) values"

definition update_margin :: "executor \<Rightarrow> book \<Rightarrow> book res" where
  "update_margin ex b = (let c = ex_cost ex; nsum = ex_nsum ex; values = position_values b;
       gross = nsum (map fabs values); required = fmul (cc_maintenance_rate c) gross in
     bindr (py_div gross (cc_max_leverage c)) (\<lambda>margin_used.
     bindr (set_margin nsum margin_used (cc_maintenance_rate c) (Some required) b) (\<lambda>b1.
     let collateral = fadd (fadd (bs_cash b1) (nsum (map (\<lambda>v. np_minimum v (F 0)) values)))
           (fmul (cc_haircut c) (nsum (map (\<lambda>v. np_maximum v (F 0)) values)));
         b2 = b1\<lparr>bs_margin_deficit := fmax (fmax (bs_margin_deficit b1) (fsub required collateral)) (F 0)\<rparr>;
         deficits = isolated_deficits c values gross collateral;
         b3 = (if cc_margin_mode c = ''isolated'' \<and> flt (F 0) gross
           then (let b' = b2\<lparr>bs_margin_deficit := fmax (bs_margin_deficit b2) (foldl np_maximum (F 0) deficits)\<rparr>
             in if list_ex (\<lambda>d. flt tolerance d) deficits then terminate MARGIN_CALL b' else b')
           else if flt (fadd collateral tolerance) required then terminate MARGIN_CALL b2 else b2)
     in Inr (if bs_insolvent b3 then flatten_after_termination ex b3 (bs_marks b3) else b3))))"

definition charge_borrow_at :: "executor \<Rightarrow> int \<Rightarrow> f64 \<Rightarrow> book \<Rightarrow> (f64 \<times> book) res" where
  "charge_borrow_at ex index year_fraction b =
     bindr (checks [(\<not> isfinite year_fraction \<or> flt year_fraction (F 0),
       value_error ''borrow year_fraction must be finite and non-negative'')]) (\<lambda>_.
     bindr (vec_at (mk_borrow_rate (ex_market ex)) index) (\<lambda>rates.
     let short_values = map (\<lambda>v. np_maximum (fneg v) (F 0)) (position_values b);
         amount = fmul (fmul (ex_nsum ex (vmul short_values rates)) year_fraction) (cc_borrow_multiplier (ex_cost ex)) in
     if flt (F 0) amount then bindr (charge_borrow (ex_nsum ex) amount b) (\<lambda>c. Inr (amount, c))
     else Inr (amount, b)))"

text \<open>\<open>_charge_carry\<close> with the year fraction given: the funding amount, the borrow amount and the account.\<close>

definition charge_carry :: "executor \<Rightarrow> int \<Rightarrow> f64 \<Rightarrow> book \<Rightarrow> (f64 \<times> f64 \<times> book) res" where
  "charge_carry ex index year_fraction b = (let m = ex_market ex in
     bindr (vec_at (mk_funding_due m) index) (\<lambda>due.
     bindr (case mk_funding_price_rate m of
         None \<Rightarrow> bindr (quantity_notional m index (bs_quantities b) None) (\<lambda>n.
           bindr (vec_at (mk_funding_rate m) index) (\<lambda>r. Inr (n, r)))
       | Some rates \<Rightarrow> bindr (vec_at rates index) (\<lambda>r. Inr (vmul (bs_quantities b) (mk_multipliers m), r)))
       (\<lambda>(notional, rate).
     let funding = fneg (ex_ndot ex notional (vmul rate (map (\<lambda>d. if d then F 1 else F 0) due))) in
     bindr (charge_borrow_at ex index year_fraction b) (\<lambda>(borrow, c). Inr (funding, borrow, c)))))"

end
