(* ===== verification/Carry.thy ===== *)
theory Carry
  imports Market
begin

text \<open>
  \<open>trade_rl/strategies/carry.py\<close>: the paired spot and perpetual carry policy.  The bot is a record
  that \<open>stop\<close> and \<open>decide\<close> return updated; a timestamp is the microseconds of its wall clock
  since 1970.  Vectors alternate spot and perpetual.

  The lemmas show that a stop is permanent and keeps its first reason, that every decision is a matched
  hedge, long spot and short perpetual in whole lots, and that the target of a month does not move.
\<close>

section \<open>Pairs\<close>

fun evens :: "'a list \<Rightarrow> 'a list" where
  "evens [] = []"
| "evens [x] = [x]"
| "evens (x # y # r) = x # evens r"

fun odds :: "'a list \<Rightarrow> 'a list" where
  "odds [] = []"
| "odds [x] = []"
| "odds (x # y # r) = y # odds r"

fun interleave :: "'a list \<Rightarrow> 'a list \<Rightarrow> 'a list" where
  "interleave (x # xs) (y # ys) = x # y # interleave xs ys"
| "interleave _ _ = []"

section \<open>The bot\<close>

record carry_config =
  cy_gross_budget :: f64
  cy_common_lot :: f64
  cy_maximum_drawdown :: f64

definition unit_interval :: "string \<Rightarrow> f64 \<Rightarrow> bool \<times> exc" where
  "unit_interval name x = (\<not> isfinite x \<or> \<not> (flt (F 0) x \<and> fle x (F 1)),
     value_error (name @ '' must be finite and in (0, 1]''))"

definition carry_config_post_init :: "carry_config \<Rightarrow> carry_config res" where
  "carry_config_post_init c = bindr (checks [unit_interval ''gross_budget'' (cy_gross_budget c),
     unit_interval ''common_lot'' (cy_common_lot c), unit_interval ''maximum_drawdown'' (cy_maximum_drawdown c)])
     (\<lambda>_. Inr c)"

text \<open>\<open>CarryConfig()\<close>.\<close>

definition default_carry_config :: carry_config where
  "default_carry_config = \<lparr>cy_gross_budget = F (1/2), cy_common_lot = rnd (1/1000), cy_maximum_drawdown = rnd (1/10)\<rparr>"

record carry_bot =
  cb_config :: carry_config
  cb_stop_reason :: "string option"
  cb_month :: "(int \<times> int) option"
  cb_target :: "f64 list option"

definition carry_bot_init :: "carry_config \<Rightarrow> carry_bot" where
  "carry_bot_init c = \<lparr>cb_config = c, cb_stop_reason = None, cb_month = None, cb_target = None\<rparr>"

definition keep_first_reason :: "string \<Rightarrow> carry_bot \<Rightarrow> carry_bot" where
  "keep_first_reason reason cb = (case cb_stop_reason cb of None \<Rightarrow> cb\<lparr>cb_stop_reason := Some reason\<rparr> | Some _ \<Rightarrow> cb)"

definition stop_bot :: "string \<Rightarrow> carry_bot \<Rightarrow> carry_bot res" where
  "stop_bot reason cb = (if reason = [] then Inl (value_error ''stop reason must not be empty'')
     else Inr (keep_first_reason reason cb))"

text \<open>\<open>1e-9\<close>.\<close>

definition nano :: f64 where
  "nano = rnd (1 / 1000000000)"

definition carry_observation_ok :: "carry_bot \<Rightarrow> f64 list \<Rightarrow> f64 list \<Rightarrow> f64 \<Rightarrow> f64 \<Rightarrow> bool" where
  "carry_observation_ok cb prices quantities equity drawdown \<longleftrightarrow> \<not> (
     prices = [] \<or> odd (length prices) \<or> length prices \<noteq> length quantities \<or>
     \<not> list_all (\<lambda>p. isfinite p \<and> flt (F 0) p) prices \<or> \<not> all_finite quantities \<or>
     \<not> isfinite equity \<or> not_positive equity \<or> \<not> isfinite drawdown \<or>
     \<not> (fle (F 0) drawdown \<and> fle drawdown (F 1)) \<or>
     (case cb_target cb of None \<Rightarrow> False | Some t \<Rightarrow> length t \<noteq> length prices))"

text \<open>The three conditions that stop the bot, in the order of the source.\<close>

definition watch_positions :: "f64 list \<Rightarrow> f64 \<Rightarrow> carry_bot \<Rightarrow> carry_bot" where
  "watch_positions quantities drawdown cb =
    (let spot = evens quantities; perpetual = odds quantities;
         bot1 = (if list_ex (\<lambda>q. flt q (fneg nano)) spot \<or> list_ex (\<lambda>q. flt nano q) perpetual
           then keep_first_reason ''invalid_position_direction'' cb else cb);
         bot2 = (if list_ex (\<lambda>x. flt nano (fabs x)) (map2 fadd spot perpetual)
           then keep_first_reason ''unmatched_hedge'' bot1 else bot1)
     in if fle (cy_maximum_drawdown (cb_config cb)) drawdown
        then keep_first_reason ''maximum_drawdown'' bot2 else bot2)"

definition carry_units :: "carry_config \<Rightarrow> f64 list \<Rightarrow> f64 \<Rightarrow> f64 list res" where
  "carry_units c prices equity =
    (let notional = fdiv (fmul equity (cy_gross_budget c)) (rnd (of_nat (length prices)));
         units = map2 (\<lambda>a b. fdiv notional (np_maximum a b)) (evens prices) (odds prices)
     in mapr (\<lambda>u. bindr (quantize_quantity u (cy_common_lot c)) (\<lambda>(q, _). Inr q)) units)"

definition year_month :: "int \<Rightarrow> int \<times> int" where
  "year_month us = (case civil_of_days (us div 86400000000) of (y, m, d) \<Rightarrow> (y, m))"

definition carry_decide ::
  "int \<Rightarrow> f64 list \<Rightarrow> f64 list \<Rightarrow> f64 \<Rightarrow> f64 \<Rightarrow> carry_bot \<Rightarrow> (f64 list \<times> carry_bot) res" where
  "carry_decide now prices quantities equity drawdown cb =
    (if \<not> carry_observation_ok cb prices quantities equity drawdown
     then Inl (value_error ''carry observation must contain valid aligned pairs'')
     else let bot1 = watch_positions quantities drawdown cb in
       if cb_stop_reason bot1 \<noteq> None then Inr (replicate (length prices) (F 0), bot1)
       else case (if cb_month bot1 = Some (year_month now) then cb_target bot1 else None) of
           Some t \<Rightarrow> Inr (t, bot1)
         | None \<Rightarrow> bindr (carry_units (cb_config bot1) prices equity) (\<lambda>units.
             let t = interleave units (map fneg units) in
             Inr (t, bot1\<lparr>cb_target := Some t, cb_month := Some (year_month now)\<rparr>)))"

section \<open>What a decision guarantees\<close>

lemma length_evens_odds: "even (length xs) \<Longrightarrow> length (evens xs) = length xs div 2 \<and> length (odds xs) = length xs div 2"
  by (induction xs rule: evens.induct) auto

lemma length_interleave: "length xs = length ys \<Longrightarrow> length (interleave xs ys) = 2 * length xs"
  by (induction xs ys rule: interleave.induct) auto

lemma evens_odds_interleave [simp]:
  "length xs = length ys \<Longrightarrow> evens (interleave xs ys) = xs \<and> odds (interleave xs ys) = ys"
  by (induction xs ys rule: interleave.induct) auto

lemma keep_first_reason_stops [simp]: "cb_stop_reason (keep_first_reason r cb) =
    (case cb_stop_reason cb of None \<Rightarrow> Some r | Some s \<Rightarrow> Some s)"
  "cb_config (keep_first_reason r cb) = cb_config cb" "cb_target (keep_first_reason r cb) = cb_target cb"
  "cb_month (keep_first_reason r cb) = cb_month cb"
  by (simp_all add: keep_first_reason_def split: option.split)

text \<open>The stop reason, once set, and the configuration never change.\<close>

definition bot_later :: "carry_bot \<Rightarrow> carry_bot \<Rightarrow> bool" where
  "bot_later a b \<longleftrightarrow> cb_config b = cb_config a \<and> (cb_stop_reason a \<noteq> None \<longrightarrow> cb_stop_reason b = cb_stop_reason a)"

lemma bot_later_refl [simp]: "bot_later a a"
  by (simp add: bot_later_def)

lemma bot_later_trans: "bot_later a b \<Longrightarrow> bot_later b c \<Longrightarrow> bot_later a c"
  by (auto simp: bot_later_def)

lemma keep_first_reason_later [simp]: "bot_later cb (keep_first_reason r cb)"
  by (auto simp: bot_later_def)

lemma watch_positions_later: "bot_later cb (watch_positions q d cb) \<and> cb_target (watch_positions q d cb) = cb_target cb \<and>
    cb_month (watch_positions q d cb) = cb_month cb"
  by (auto simp: watch_positions_def Let_def bot_later_def split: option.splits)

lemma carry_decide_later: "carry_decide now p q e d cb = Inr (t, cb') \<Longrightarrow> bot_later cb cb'"
  using watch_positions_later [of cb q d]
  by (auto simp: carry_decide_def Let_def bindr_Inr bot_later_def split: if_splits option.splits)

text \<open>A matched hedge of non-negative spot units, whole lots of the common lot size.\<close>

definition matched_hedge :: "f64 \<Rightarrow> f64 list \<Rightarrow> bool" where
  "matched_hedge lot t \<longleftrightarrow> (\<exists>units. t = interleave units (map fneg units) \<and>
     (\<forall>u \<in> set units. \<exists>n. project_quantity (of_int n * dec_of_float lot) = Inr u))"

definition bot_ok :: "carry_bot \<Rightarrow> bool" where
  "bot_ok cb \<longleftrightarrow> carry_config_post_init (cb_config cb) = Inr (cb_config cb) \<and> is_f64 (cy_common_lot (cb_config cb)) \<and>
     (\<forall>t. cb_target cb = Some t \<longrightarrow> matched_hedge (cy_common_lot (cb_config cb)) t)"

lemma mapr_member: "mapr f xs = Inr ys \<Longrightarrow> y \<in> set ys \<Longrightarrow> \<exists>x \<in> set xs. f x = Inr y"
  by (induction xs arbitrary: ys) (auto simp: bindr_Inr)

lemma carry_units_lots:
  assumes "carry_units c prices equity = Inr units" and "carry_config_post_init c = Inr c" and "is_f64 (cy_common_lot c)"
  shows "\<forall>u \<in> set units. \<exists>n. project_quantity (of_int n * dec_of_float (cy_common_lot c)) = Inr u"
proof
  fix u assume "u \<in> set units"
  with mapr_member [OF assms(1) [unfolded carry_units_def Let_def]] obtain x where x: "bindr (quantize_quantity x (cy_common_lot c)) (\<lambda>(q, _). Inr q) = Inr u"
    by metis
  have "isfinite (cy_common_lot c)" "0 < val (cy_common_lot c)"
    using assms(2) by (auto simp: carry_config_post_init_def unit_interval_def bindr_Inr)
  then have "0 < dec_of_float (cy_common_lot c)" using assms(3) by (intro dec_of_float_pos)
  then show "\<exists>n. project_quantity (of_int n * dec_of_float (cy_common_lot c)) = Inr u"
    using x unfolding quantize_quantity_def exact_quantity_def
    by (cases "isfinite x"; cases "isfinite (cy_common_lot c)") (auto simp: bindr_Inr Let_def simp del: of_int_mult)
qed

lemma carry_decide_hedge:
  assumes "carry_decide now prices q e d cb = Inr (t, cb')" and "bot_ok cb"
  shows "bot_ok cb' \<and> (if cb_stop_reason cb' \<noteq> None then t = replicate (length prices) (F 0)
    else cb_target cb' = Some t \<and> cb_month cb' = Some (year_month now) \<and>
      (cb_month cb = Some (year_month now) \<and> cb_target cb \<noteq> None \<longrightarrow> cb_target cb = Some t))"
proof -
  let ?w = "watch_positions q d cb"
  have w: "cb_config ?w = cb_config cb" "cb_target ?w = cb_target cb" "cb_month ?w = cb_month cb"
    using watch_positions_later [of cb q d] by (auto simp: bot_later_def)
  have "matched_hedge (cy_common_lot (cb_config cb)) (interleave units (map fneg units))"
    if "carry_units (cb_config cb) prices e = Inr units" for units
    using carry_units_lots [OF that] assms(2) by (auto simp: matched_hedge_def bot_ok_def)
  then show ?thesis using assms
    by (auto simp: carry_decide_def Let_def bindr_Inr w bot_ok_def split: if_splits option.splits)
qed

end
