(* ===== verification/PaperAccount.thy ===== *)
theory PaperAccount
  imports Depth Carry
begin

text \<open>
  \<open>trade_rl/evaluation/paper/account.py\<close> and \<open>futures_collateral\<close> of \<open>evaluation/carry.py\<close>: the
  commands of a paper-trading account.  \<open>PaperAccount\<close> is a record; a command returns the outcome and the
  account, or an exception (callers replay on a copy and drop it when a command raises).

  An instant is its microseconds since 1970 UTC, so every datetime is aware.  A snapshot and the venue rules
  are the parsed evidence of \<open>integrations/binance\<close>: \<open>float(\<dots>)\<close> and \<open>Fraction(str(\<dots>))\<close> of its
  strings are fields of type \<open>f64\<close> and \<open>rat\<close>, and a canonical fraction string is the fraction.
  A symbol is its index in \<open>SYMBOLS\<close>, whose order is that of the names; funding times are milliseconds,
  and \<open>fromtimestamp(ms / 1000)\<close> is exact on the range of \<open>datetime\<close>.  Payments are ordered by their
  instant, as their ISO texts are.  Sets are lists without duplicates.
\<close>

section \<open>Settings and evidence\<close>

definition paper_symbols :: "string list" where
  "paper_symbols = [''BTCUSDT'', ''ETHUSDT'']"

definition paper_venues :: "string list" where
  "paper_venues = [''spot'', ''perpetual'']"

record paper_settings =
  st_start_at :: int
  st_close_at :: int
  st_initial_capital :: f64
  st_maximum_gap :: f64
  st_spot_fee :: f64
  st_perpetual_fee :: f64
  st_adverse :: f64
  st_fraction :: f64

definition finite_numeric :: "string \<Rightarrow> f64 \<Rightarrow> bool \<times> exc" where
  "finite_numeric name x = (\<not> isfinite x, value_error (name @ '' must be finite numeric''))"

definition paper_settings_post_init :: "paper_settings \<Rightarrow> paper_settings res" where
  "paper_settings_post_init s = bindr (checks [
     (st_close_at s \<le> st_start_at s, value_error ''paper close must follow start''),
     finite_numeric ''initial_capital'' (st_initial_capital s), finite_numeric ''maximum_gap_seconds'' (st_maximum_gap s),
     finite_numeric ''spot_fee_bps'' (st_spot_fee s), finite_numeric ''perpetual_fee_bps'' (st_perpetual_fee s),
     finite_numeric ''adverse_bps'' (st_adverse s), finite_numeric ''depth_fraction'' (st_fraction s),
     (fle (st_initial_capital s) (F 0) \<or> \<not> (flt (F 0) (st_maximum_gap s) \<and> fle (st_maximum_gap s) (F 180)),
        value_error ''invalid paper capital or maximum gap''),
     (list_ex (\<lambda>fee. \<not> (fle (F 0) fee \<and> flt fee (F 10000))) [st_spot_fee s, st_perpetual_fee s, st_adverse s] \<or>
        \<not> (flt (F 0) (st_fraction s) \<and> fle (st_fraction s) (F 1)),
        value_error ''invalid paper cost or depth assumptions'')]) (\<lambda>_. Inr s)"

record funding_row =
  fw_time :: int
  fw_rate :: rat
  fw_mark :: rat

record market_row =
  mw_spot_bids :: levels
  mw_spot_asks :: levels
  mw_perpetual_bids :: levels
  mw_perpetual_asks :: levels
  mw_mark_price :: f64
  mw_next_funding :: int
  mw_settled :: "funding_row list"

record market_snapshot =
  sp_started_at :: int
  sp_market :: "string \<rightharpoonup> market_row"
  sp_responses :: "(string \<times> int) list"

type_synonym venue_rules = "string \<times> string \<rightharpoonup> depth_order_rules"

definition lookup_key :: "string \<Rightarrow> 'a option \<Rightarrow> 'a res" where
  "lookup_key name v = (case v of None \<Rightarrow> Inl (Raise KeyError name) | Some x \<Rightarrow> Inr x)"

definition market_of :: "market_snapshot \<Rightarrow> nat \<Rightarrow> market_row res" where
  "market_of sn pair = lookup_key (paper_symbols ! pair) (sp_market sn (paper_symbols ! pair))"

text \<open>Position \<open>i\<close> of the account is the venue \<open>i % 2\<close> of the symbol \<open>i // 2\<close>.\<close>

definition rule_of :: "venue_rules \<Rightarrow> nat \<Rightarrow> depth_order_rules res" where
  "rule_of rules i = lookup_key (paper_symbols ! (i div 2)) (rules (paper_venues ! (i mod 2), paper_symbols ! (i div 2)))"

section \<open>State\<close>

record paper_order =
  pw_symbol :: nat
  pw_lots :: int

record pending_decision =
  pd_at :: int
  pd_orders :: "paper_order list"
  pd_rules :: string

record funding_payment =
  fp_pair :: nat
  fp_at :: int
  fp_known_at :: int
  fp_quantity :: rat
  fp_rate :: rat
  fp_mark :: rat
  fp_amount :: f64

record paper_account =
  ac_settings :: paper_settings
  ac_book :: book
  ac_bot :: carry_bot
  ac_last_at :: int
  ac_observed_at :: "int option"
  ac_pending :: "pending_decision option"
  ac_failures :: "string list"
  ac_settlements :: "nat \<times> int \<rightharpoonup> rat \<times> rat"
  ac_expected :: "(nat \<times> int) list"
  ac_holdings :: "(int \<times> rat list) list"
  ac_observations :: int
  ac_watermark :: "int option"

definition paper_account_init :: "(f64 list \<Rightarrow> f64) \<Rightarrow> paper_settings \<Rightarrow> paper_account res" where
  "paper_account_init nsum s =
     bindr (book_zero nsum 4 (st_initial_capital s) None None) (\<lambda>b.
     bindr (carry_config_post_init default_carry_config) (\<lambda>config.
     Inr \<lparr>ac_settings = s, ac_book = b, ac_bot = carry_bot_init config, ac_last_at = st_start_at s, ac_observed_at = None,
       ac_pending = None, ac_failures = [], ac_settlements = Map.empty, ac_expected = [], ac_holdings = [],
       ac_observations = 0, ac_watermark = None\<rparr>))"

text \<open>\<open>_fail\<close>: the reasons in this file are never empty, so \<open>stop\<close> does not raise.\<close>

definition paper_fail :: "string \<Rightarrow> string \<Rightarrow> paper_account \<Rightarrow> paper_account" where
  "paper_fail reason message a = a\<lparr>ac_bot := keep_first_reason reason (ac_bot a),
     ac_failures := (if message \<in> set (ac_failures a) then ac_failures a else ac_failures a @ [message])\<rparr>"

definition fail_when :: "bool \<Rightarrow> string \<Rightarrow> string \<Rightarrow> paper_account \<Rightarrow> paper_account" where
  "fail_when c reason message a = (if c then paper_fail reason message a else a)"

definition futures_collateral :: "(f64 list \<Rightarrow> f64 list \<Rightarrow> f64) \<Rightarrow> f64 \<Rightarrow> f64 list \<Rightarrow> f64 list \<Rightarrow> f64" where
  "futures_collateral ndot cash quantities prices = fadd cash (ndot (odds quantities) (odds prices))"

definition paper_risk :: "(f64 list \<Rightarrow> f64) \<Rightarrow> (f64 list \<Rightarrow> f64 list \<Rightarrow> f64) \<Rightarrow> paper_account \<Rightarrow> paper_account" where
  "paper_risk nsum ndot a =
    (let b = ac_book a; collateral = futures_collateral ndot (bs_cash b) (bs_quantities b) (bs_marks b);
         requirement = nsum (map fabs (odds (position_values b))) in
     fail_when (flt collateral (fmul requirement (F (1/2)))) ''maintenance_breach'' ''maintenance_breach''
    (fail_when (flt collateral requirement) ''collateral_guard'' ''collateral_guard''
    (fail_when (fle (cy_maximum_drawdown (cb_config (ac_bot a))) (bs_max_drawdown b)) ''maximum_drawdown'' ''maximum_drawdown''
    (fail_when (bs_insolvent b \<or> not_positive (portfolio_value nsum b)) ''insolvent'' ''insolvent'' a))))"

definition paper_clock :: "int \<Rightarrow> paper_account \<Rightarrow> unit res" where
  "paper_clock now a = checks [(now \<le> ac_last_at a, value_error ''paper command must follow the previous command'')]"

section \<open>Funding\<close>

definition seconds_between :: "int \<Rightarrow> int \<Rightarrow> f64" where
  "seconds_between now earlier = rnd (of_int (now - earlier) / 1000000)"

text \<open>\<open>int(at.timestamp() * 1000)\<close>.\<close>

definition truncated :: "rat \<Rightarrow> int" where
  "truncated q = (if 0 \<le> q then \<lfloor>q\<rfloor> else \<lceil>q\<rceil>)"

definition milliseconds_of :: "int \<Rightarrow> int res" where
  "milliseconds_of now = to_integer truncated (fmul (rnd (of_int now / 1000000)) (F 1000))"

text \<open>The exact holdings of the last fill before an instant.\<close>

definition held_before :: "(int \<times> rat list) list \<Rightarrow> int \<Rightarrow> nat \<Rightarrow> rat" where
  "held_before holdings t i = (case find (\<lambda>h. fst h < t) (rev holdings) of None \<Rightarrow> 0 | Some h \<Rightarrow> snd h ! i)"

definition sorted_keys :: "(nat \<times> int) list \<Rightarrow> (nat \<times> int) list" where
  "sorted_keys ks = sort_key fst (sort_key snd ks)"

definition unsettled_funding :: "paper_account \<Rightarrow> (nat \<times> int \<times> rat) list" where
  "unsettled_funding a = map (\<lambda>(pair, ms). (pair, ms * 1000, held_before (ac_holdings a) (ms * 1000) (2 * pair + 1)))
     (filter (\<lambda>(pair, ms). ms * 1000 \<le> ac_last_at a \<and> ac_settlements a (pair, ms) = None \<and>
        held_before (ac_holdings a) (ms * 1000) (2 * pair + 1) \<noteq> 0) (sorted_keys (ac_expected a)))"

definition funding_message :: "string \<Rightarrow> nat \<Rightarrow> int \<Rightarrow> string" where
  "funding_message reason pair ms = reason @ '':'' @ (paper_symbols ! pair) @ '':'' @ int_str ms"

text \<open>One settled funding rate: the payment, unless the key was settled before.\<close>

definition settle_funding ::
  "nat \<Rightarrow> int \<Rightarrow> funding_row \<Rightarrow> paper_account \<Rightarrow> (funding_payment option \<times> paper_account) res" where
  "settle_funding pair now row a =
    (let ms = fw_time row; key = (pair, ms); settled_at = ms * 1000; terms = (fw_rate row, fw_mark row) in
     if now < settled_at then Inl (value_error ''cannot pay future funding'') else
     let a1 = a\<lparr>ac_expected := removeAll key (ac_expected a)\<rparr> in
     case ac_settlements a1 key of
       Some previous \<Rightarrow> Inr (None, fail_when (previous \<noteq> terms) ''funding_revision'' (funding_message ''funding_revision'' pair ms) a1)
     | None \<Rightarrow>
         let a2 = a1\<lparr>ac_settlements := (ac_settlements a1)(key \<mapsto> terms)\<rparr>;
             quantity = held_before (ac_holdings a2) settled_at (2 * pair + 1) in
         bindr (float_of_fraction (- quantity * fw_rate row * fw_mark row)) (\<lambda>amount.
         let late_order = \<not> fzero amount \<and> (case ac_watermark a2 of None \<Rightarrow> False | Some w \<Rightarrow> settled_at \<le> w);
             a3 = fail_when late_order ''funding_out_of_order'' (funding_message ''funding_out_of_order'' pair ms) a2;
             late = st_start_at (ac_settings a) \<le> settled_at \<and>
               flt (st_maximum_gap (ac_settings a)) (seconds_between now settled_at);
             a4 = fail_when late ''late_funding'' (funding_message ''late_funding'' pair ms) a3 in
         Inr (Some \<lparr>fp_pair = pair, fp_at = settled_at, fp_known_at = now, fp_quantity = quantity,
           fp_rate = fw_rate row, fp_mark = fw_mark row, fp_amount = amount\<rparr>, a4)))"

definition settle_rows ::
  "nat \<Rightarrow> int \<Rightarrow> funding_row list \<Rightarrow> funding_payment list \<times> paper_account \<Rightarrow> (funding_payment list \<times> paper_account) res" where
  "settle_rows pair now rows s = foldr_res (\<lambda>(ps, a) row. bindr (settle_funding pair now row a) (\<lambda>(p, a1).
     Inr (case p of None \<Rightarrow> ps | Some x \<Rightarrow> ps @ [x], a1))) s rows"

text \<open>The next announced funding replaces the announcements of the symbol that are not yet due.\<close>

definition announce_funding :: "nat \<Rightarrow> int \<Rightarrow> int \<Rightarrow> paper_account \<Rightarrow> paper_account" where
  "announce_funding pair now_ms next_ms a =
    (let kept = filter (\<lambda>k. fst k \<noteq> pair \<or> snd k \<le> now_ms) (ac_expected a)
     in a\<lparr>ac_expected := (if (pair, next_ms) \<in> set kept then kept else kept @ [(pair, next_ms)])\<rparr>)"

definition settle_market ::
  "market_snapshot \<Rightarrow> int \<Rightarrow> int \<Rightarrow> funding_payment list \<times> paper_account \<Rightarrow> nat \<Rightarrow> (funding_payment list \<times> paper_account) res" where
  "settle_market sn now now_ms s pair =
     bindr (market_of sn pair) (\<lambda>m.
     bindr (settle_rows pair now (mw_settled m) s) (\<lambda>(ps, a).
     Inr (ps, announce_funding pair now_ms (mw_next_funding m) a)))"

text \<open>A key is missing when its milliseconds lie further back than the gap; an integer is compared with a
  float exactly.\<close>

definition note_missing :: "int \<Rightarrow> paper_account \<Rightarrow> paper_account" where
  "note_missing now_ms a = foldl (\<lambda>a (pair, ms).
     fail_when (val (fmul (st_maximum_gap (ac_settings a)) (F 1000)) < of_int (now_ms - ms))
       ''missing_funding'' (funding_message ''missing_funding'' pair ms) a) a (sorted_keys (ac_expected a))"

text \<open>\<open>groupby\<close> of the sorted payments.\<close>

function same_time_groups :: "funding_payment list \<Rightarrow> funding_payment list list" where
  "same_time_groups [] = []"
| "same_time_groups (p # ps) = (p # takeWhile (\<lambda>q. fp_at q = fp_at p) ps) #
     same_time_groups (dropWhile (\<lambda>q. fp_at q = fp_at p) ps)"
  by pat_completeness auto
termination
  by (relation "measure length") (auto simp: le_imp_less_Suc length_dropWhile_le)

definition pay_group ::
  "(f64 list \<Rightarrow> f64) \<Rightarrow> (f64 list \<Rightarrow> f64 list \<Rightarrow> f64) \<Rightarrow> paper_account \<Rightarrow> funding_payment list \<Rightarrow> paper_account res" where
  "pay_group nsum ndot a payments =
     bindr (fsum (map fp_amount payments)) (\<lambda>amount.
     bindr (if fzero amount then Inr (ac_book a)
       else let worth = portfolio_value nsum (ac_book a) in
         bindr (mark_to_market nsum (bs_marks (ac_book a)) amount
           (Some (if flt (F 0) worth then worth else st_initial_capital (ac_settings a))) False (ac_book a)) (\<lambda>(_, b). Inr b))
       (\<lambda>b. Inr (paper_risk nsum ndot (a\<lparr>ac_book := b\<rparr>))))"

definition raise_watermark :: "funding_payment list \<Rightarrow> paper_account \<Rightarrow> paper_account" where
  "raise_watermark payments a = (let times = map fp_at (filter (\<lambda>p. \<not> fzero (fp_amount p)) payments) in
     if times = [] then a
     else a\<lparr>ac_watermark := Some (Max (set (times @ (case ac_watermark a of None \<Rightarrow> [] | Some w \<Rightarrow> [w]))))\<rparr>)"

definition paper_funding ::
  "(f64 list \<Rightarrow> f64) \<Rightarrow> (f64 list \<Rightarrow> f64 list \<Rightarrow> f64) \<Rightarrow> market_snapshot \<Rightarrow> int \<Rightarrow> paper_account \<Rightarrow>
     (funding_payment list \<times> paper_account) res" where
  "paper_funding nsum ndot sn now a =
     bindr (milliseconds_of now) (\<lambda>now_ms.
     bindr (foldr_res (settle_market sn now now_ms) ([], a) [0 ..< length paper_symbols]) (\<lambda>(found, a1).
     let a2 = note_missing now_ms a1; payments = sort_key fp_at (sort_key fp_pair found) in
     bindr (foldr_res (pay_group nsum ndot) a2 (same_time_groups payments)) (\<lambda>a3.
     Inr (payments, raise_watermark payments a3))))"

section \<open>Observation\<close>

definition best_price :: "levels \<Rightarrow> f64 res" where
  "best_price ls = (case ls of [] \<Rightarrow> Inl (Raise IndexError ''list index out of range'') | l # _ \<Rightarrow> Inr (fst l))"

definition snapshot_marks :: "market_snapshot \<Rightarrow> f64 list res" where
  "snapshot_marks sn = bindr (mapr (\<lambda>pair.
     bindr (market_of sn pair) (\<lambda>m.
     bindr (best_price (mw_spot_bids m)) (\<lambda>bid.
     bindr (best_price (mw_spot_asks m)) (\<lambda>ask.
     Inr [fdiv (fadd bid ask) (F 2), mw_mark_price m])))) [0 ..< length paper_symbols]) (\<lambda>rows. Inr (concat rows))"

definition paper_observe ::
  "(f64 list \<Rightarrow> f64) \<Rightarrow> (f64 list \<Rightarrow> f64 list \<Rightarrow> f64) \<Rightarrow> market_snapshot \<Rightarrow> int \<Rightarrow> paper_account \<Rightarrow>
     (funding_payment list \<times> paper_account) res" where
  "paper_observe nsum ndot sn now a =
     bindr (paper_clock now a) (\<lambda>_.
     bindr (checks [(sp_started_at sn \<le> ac_last_at a,
       value_error ''new market capture must start after the previous command'')]) (\<lambda>_.
     let a1 = fail_when (flt (st_maximum_gap (ac_settings a)) (seconds_between now (ac_last_at a)))
           ''data_gap'' ''observation_gap'' a in
     bindr (snapshot_marks sn) (\<lambda>marks.
     bindr (revalue nsum marks (ac_book a1)) (\<lambda>b.
     let a2 = paper_risk nsum ndot (a1\<lparr>ac_book := update_drawdown nsum False b\<rparr>);
         a3 = (if st_close_at (ac_settings a2) \<le> now
           then a2\<lparr>ac_bot := keep_first_reason ''terminal_close'' (ac_bot a2)\<rparr> else a2) in
     bindr (paper_funding nsum ndot sn now a3) (\<lambda>(payments, a4).
     Inr (payments, a4\<lparr>ac_last_at := now, ac_observed_at := Some now, ac_observations := ac_observations a4 + 1\<rparr>))))))"

section \<open>Commands\<close>

record paper_result =
  pr_orders :: "paper_order list"
  pr_funding :: "funding_payment list"
  pr_fills :: "(paper_order \<times> depth_fill) list"
  pr_cancelled :: bool

definition whole :: "rat \<Rightarrow> bool" where
  "whole q \<longleftrightarrow> of_int \<lfloor>q\<rfloor> = q"

text \<open>The lots that take position \<open>i\<close> from its exact quantity to the target.\<close>

definition order_lots :: "venue_rules \<Rightarrow> carry_config \<Rightarrow> f64 list \<Rightarrow> nat \<times> rat \<Rightarrow> paper_order option res" where
  "order_lots rules config target = (\<lambda>(i, quantity).
     bindr (rule_of rules i) (\<lambda>rule.
     bindr (exact_quantity (dr_lot_size rule)) (\<lambda>step.
     bindr (exact_quantity (cy_common_lot config)) (\<lambda>common.
     bindr (checks [(step = 0, Raise ZeroDivisionError ''Fraction(0)''),
       (\<not> whole (common / step), value_error ''venue lot is incompatible with the fixed carry lot'')]) (\<lambda>_.
     bindr (vec_at target (int i)) (\<lambda>t.
     bindr (exact_quantity t) (\<lambda>wanted.
     let lots = (wanted - quantity) / step in
     if \<not> whole lots then Inl (value_error ''residual cannot be expressed as exact venue lots'')
     else Inr (if lots = 0 then None else Some \<lparr>pw_symbol = i, pw_lots = \<lfloor>lots\<rfloor>\<rparr>))))))))"

definition decision_target :: "(f64 list \<Rightarrow> f64) \<Rightarrow> int \<Rightarrow> paper_account \<Rightarrow> (f64 list \<times> paper_account) res" where
  "decision_target nsum now a = (let b = ac_book a in
     if bs_insolvent b then Inr (replicate 4 (F 0), a)
     else bindr (carry_decide now (bs_marks b) (bs_quantities b) (portfolio_value nsum b) (bs_max_drawdown b) (ac_bot a))
       (\<lambda>(t, cb). Inr (t, a\<lparr>ac_bot := cb\<rparr>)))"

definition paper_decide ::
  "(f64 list \<Rightarrow> f64) \<Rightarrow> (f64 list \<Rightarrow> f64 list \<Rightarrow> f64) \<Rightarrow> market_snapshot \<Rightarrow> venue_rules \<Rightarrow> string \<Rightarrow> int \<Rightarrow> paper_account \<Rightarrow>
     (paper_result \<times> paper_account) res" where
  "paper_decide nsum ndot sn rules rule_ref now a =
     bindr (checks [(ac_pending a \<noteq> None, value_error ''pending decision must execute or be cancelled by a gap'')]) (\<lambda>_.
     bindr (paper_observe nsum ndot sn now a) (\<lambda>(payments, a1).
     bindr (decision_target nsum now a1) (\<lambda>(target, a2).
     bindr (quantity_values (ac_book a2)) (\<lambda>(held, b).
     bindr (mapr (order_lots rules (cb_config (ac_bot a2)) target) (enumerate 0 held)) (\<lambda>found.
     let orders = List.map_filter (\<lambda>x. x) found; a3 = a2\<lparr>ac_book := b\<rparr>;
         a4 = (if orders \<noteq> [] \<and> \<not> bs_insolvent b
           then a3\<lparr>ac_pending := Some \<lparr>pd_at = now, pd_orders = orders, pd_rules = rule_ref\<rparr>\<rparr> else a3) in
     Inr (\<lparr>pr_orders = orders, pr_funding = payments, pr_fills = [], pr_cancelled = False\<rparr>, a4))))))"

text \<open>Whether an order moves its position away from zero, and the quantities all orders would lead to.\<close>

definition order_increases :: "venue_rules \<Rightarrow> rat list \<Rightarrow> paper_order \<Rightarrow> bool res" where
  "order_increases rules held w =
     bindr (vec_at held (int (pw_symbol w))) (\<lambda>h.
     bindr (rule_of rules (pw_symbol w)) (\<lambda>rule.
     bindr (exact_quantity (dr_lot_size rule)) (\<lambda>step.
     Inr (\<bar>h\<bar> < \<bar>h + of_int (pw_lots w) * step\<bar>))))"

definition desired_quantities :: "venue_rules \<Rightarrow> paper_order list \<Rightarrow> f64 list \<Rightarrow> f64 list res" where
  "desired_quantities rules ws quantities = foldr_res (\<lambda>qs w.
     bindr (rule_of rules (pw_symbol w)) (\<lambda>rule.
     bindr (int_times (pw_lots w) (dr_lot_size rule)) (\<lambda>x. add_at qs (int (pw_symbol w)) x))) quantities ws"

definition depth_label :: "nat \<Rightarrow> string" where
  "depth_label i = (paper_symbols ! (i div 2)) @ (if even i then ''_spot_depth'' else ''_perp_depth'')"

definition venue_request_of ::
  "paper_settings \<Rightarrow> market_snapshot \<Rightarrow> venue_rules \<Rightarrow> int \<Rightarrow> int \<Rightarrow> paper_order \<Rightarrow> depth_request res" where
  "venue_request_of s sn rules decision_at now w = (let i = pw_symbol w in
     bindr (market_of sn (i div 2)) (\<lambda>m.
     bindr (rule_of rules i) (\<lambda>raw.
     bindr (depth_rules_post_init raw) (\<lambda>rule.
     bindr (lookup_key (depth_label i) (map_of (rev (sp_responses sn)) (depth_label i))) (\<lambda>quote.
     Inr \<lparr>dq_symbol = int i, dq_lots = pw_lots w, dq_rules = rule,
       dq_bids = (if even i then mw_spot_bids m else mw_perpetual_bids m),
       dq_asks = (if even i then mw_spot_asks m else mw_perpetual_asks m),
       dq_decision_at = Some decision_at, dq_quote_at = Some quote, dq_execution_at = Some now,
       dq_fee_bps = (if even i then st_spot_fee s else st_perpetual_fee s), dq_adverse_bps = st_adverse s,
       dq_fraction = st_fraction s\<rparr>)))))"

text \<open>The loop over the pending orders; it breaks off once the account must not grow any more.\<close>

fun fill_orders ::
  "(f64 list \<Rightarrow> f64) \<Rightarrow> (f64 list \<Rightarrow> f64 list \<Rightarrow> f64) \<Rightarrow> market_snapshot \<Rightarrow> venue_rules \<Rightarrow> int \<Rightarrow> int \<Rightarrow> bool \<Rightarrow>
     paper_order list \<Rightarrow> paper_account \<Rightarrow> ((paper_order \<times> depth_fill) list \<times> paper_account) res" where
  "fill_orders nsum ndot sn rules decision_at now increasing [] a = Inr ([], a)"
| "fill_orders nsum ndot sn rules decision_at now increasing (w # ws) a =
     bindr (venue_request_of (ac_settings a) sn rules decision_at now w) (\<lambda>req.
     bindr (execute_depth_order nsum req (ac_book a)) (\<lambda>(fill, b).
     let a1 = paper_risk nsum ndot (a\<lparr>ac_book := b\<rparr>) in
     if bs_insolvent b \<or> increasing \<and> cb_stop_reason (ac_bot a1) \<noteq> None then Inr ([(w, fill)], a1)
     else bindr (fill_orders nsum ndot sn rules decision_at now increasing ws a1) (\<lambda>(fills, a2).
       Inr ((w, fill) # fills, a2))))"

definition record_holdings :: "int \<Rightarrow> paper_account \<Rightarrow> paper_account res" where
  "record_holdings now a = bindr (quantity_values (ac_book a)) (\<lambda>(held, b).
     Inr (fail_when (list_ex (\<lambda>i. held ! i + held ! (i + 1) \<noteq> 0) [0, 2]) ''unmatched_hedge'' ''unmatched_hedge''
       (a\<lparr>ac_book := b, ac_holdings := ac_holdings a @ [(now, held)]\<rparr>)))"

text \<open>The collateral guard before the fills, and what happens to the pending orders.\<close>

definition guard_collateral :: "(f64 list \<Rightarrow> f64) \<Rightarrow> bool \<Rightarrow> f64 list \<Rightarrow> paper_account \<Rightarrow> paper_account" where
  "guard_collateral nsum increasing desired a = fail_when
     (increasing \<and> flt (portfolio_value nsum (ac_book a)) (nsum (map fabs (vmul desired (bs_marks (ac_book a))))))
     ''projected_collateral_guard'' ''projected_collateral_guard'' a"

definition carry_out ::
  "(f64 list \<Rightarrow> f64) \<Rightarrow> (f64 list \<Rightarrow> f64 list \<Rightarrow> f64) \<Rightarrow> market_snapshot \<Rightarrow> venue_rules \<Rightarrow> int \<Rightarrow> pending_decision \<Rightarrow>
     funding_payment list \<Rightarrow> bool \<Rightarrow> paper_account \<Rightarrow> (paper_result \<times> paper_account) res" where
  "carry_out nsum ndot sn rules now pending payments increasing a =
    (if bs_insolvent (ac_book a) \<or> cb_stop_reason (ac_bot a) \<noteq> None \<and> increasing
     then Inr (\<lparr>pr_orders = [], pr_funding = payments, pr_fills = [], pr_cancelled = True\<rparr>, a\<lparr>ac_pending := None\<rparr>)
     else bindr (fill_orders nsum ndot sn rules (pd_at pending) now increasing (pd_orders pending) a) (\<lambda>(fills, a1).
       bindr (record_holdings now a1) (\<lambda>a2.
       Inr (\<lparr>pr_orders = [], pr_funding = payments, pr_fills = fills, pr_cancelled = False\<rparr>, a2\<lparr>ac_pending := None\<rparr>))))"

definition paper_execute ::
  "(f64 list \<Rightarrow> f64) \<Rightarrow> (f64 list \<Rightarrow> f64 list \<Rightarrow> f64) \<Rightarrow> market_snapshot \<Rightarrow> venue_rules \<Rightarrow> int \<Rightarrow> paper_account \<Rightarrow>
     (paper_result \<times> paper_account) res" where
  "paper_execute nsum ndot sn rules now a = (case ac_pending a of
     None \<Rightarrow> Inl (value_error ''no saved pending decision'')
   | Some pending \<Rightarrow>
     bindr (checks [(10000000 < now - pd_at pending, value_error ''paper execution decision is stale'')]) (\<lambda>_.
     bindr (paper_observe nsum ndot sn now a) (\<lambda>(payments, a1).
     bindr (quantity_values (ac_book a1)) (\<lambda>(held, b).
     bindr (any_res (order_increases rules held) (pd_orders pending)) (\<lambda>increasing.
     bindr (desired_quantities rules (pd_orders pending) (bs_quantities b)) (\<lambda>desired.
     carry_out nsum ndot sn rules now pending payments increasing
       (guard_collateral nsum increasing desired (a1\<lparr>ac_book := b\<rparr>))))))))"

definition paper_gap :: "int \<Rightarrow> string \<Rightarrow> paper_account \<Rightarrow> (paper_result \<times> paper_account) res" where
  "paper_gap now reason a =
     bindr (paper_clock now a) (\<lambda>_.
     bindr (checks [(strip reason = [] \<or> 1000 < length reason, value_error ''paper gap requires a bounded nonempty reason'')]) (\<lambda>_.
     Inr (\<lparr>pr_orders = [], pr_funding = [], pr_fills = [], pr_cancelled = False\<rparr>,
       (paper_fail ''data_gap'' reason a)\<lparr>ac_pending := None, ac_last_at := now\<rparr>)))"

section \<open>Reports\<close>

text \<open>\<open>PaperAccount.status\<close>: reading the exact quantities may rebase the book, so the report comes with
  the account.  Instants stay numbers, and \<open>production_eligible\<close> is always False.  The commands above
  return their own part of the outcome only: \<open>PaperFacts\<close> shows that on their accounts the report neither
  raises nor changes anything.\<close>

record paper_report =
  rp_cash :: f64
  rp_equity :: f64
  rp_quantities :: "f64 list"
  rp_exact :: "string list"
  rp_marks :: "f64 list"
  rp_peak :: f64
  rp_maximum_drawdown :: f64
  rp_total_cost :: f64
  rp_funding_pnl :: f64
  rp_fill_count :: int
  rp_turnover :: f64
  rp_insolvent :: bool
  rp_collateral :: f64
  rp_stop_reason :: "string option"
  rp_failures :: "string list"
  rp_pending :: bool
  rp_terminal_flat :: bool
  rp_observed_at :: "int option"
  rp_last_command_at :: int
  rp_observations :: int
  rp_watermark :: "int option"
  rp_production_eligible :: bool

definition paper_status ::
  "(f64 list \<Rightarrow> f64) \<Rightarrow> (f64 list \<Rightarrow> f64 list \<Rightarrow> f64) \<Rightarrow> paper_account \<Rightarrow> (paper_report \<times> paper_account) res" where
  "paper_status nsum ndot a =
     bindr (quantity_values (ac_book a)) (\<lambda>(held, b).
     Inr (\<lparr>rp_cash = bs_cash b, rp_equity = portfolio_value nsum b, rp_quantities = bs_quantities b,
       rp_exact = map fraction_str held, rp_marks = bs_marks b, rp_peak = bs_peak b,
       rp_maximum_drawdown = bs_max_drawdown b, rp_total_cost = bs_total_cost b, rp_funding_pnl = bs_funding_pnl b,
       rp_fill_count = bs_fill_count b, rp_turnover = bs_turnover b, rp_insolvent = bs_insolvent b,
       rp_collateral = futures_collateral ndot (bs_cash b) (bs_quantities b) (bs_marks b),
       rp_stop_reason = cb_stop_reason (ac_bot a), rp_failures = ac_failures a, rp_pending = (ac_pending a \<noteq> None),
       rp_terminal_flat = (\<not> list_ex (\<lambda>q. q \<noteq> 0) held \<and> ac_pending a = None),
       rp_observed_at = ac_observed_at a, rp_last_command_at = ac_last_at a, rp_observations = ac_observations a,
       rp_watermark = ac_watermark a, rp_production_eligible = False\<rparr>, a\<lparr>ac_book := b\<rparr>))"

end
