(* ===== verification/PaperFacts.thy ===== *)
theory PaperFacts
  imports PaperAccount "HOL-Library.Sublist"
begin

text \<open>
  What the commands of a paper account keep: \<open>calm\<close> relates the account before and after everything that
  is neither a fill nor the end of a command.  Then the commands one by one, and runs of commands.
\<close>

section \<open>Between fills\<close>

definition calm :: "(f64 list \<Rightarrow> f64) \<Rightarrow> (f64 list \<Rightarrow> f64 list \<Rightarrow> f64) \<Rightarrow> paper_account \<Rightarrow> paper_account \<Rightarrow> bool" where
  "calm nsum ndot a c \<longleftrightarrow> ac_settings c = ac_settings a \<and> ac_pending c = ac_pending a \<and> ac_holdings c = ac_holdings a \<and>
     ac_last_at c = ac_last_at a \<and> bot_later (ac_bot a) (ac_bot c) \<and> cb_target (ac_bot c) = cb_target (ac_bot a) \<and>
     prefix (ac_failures a) (ac_failures c) \<and> ac_settlements a \<subseteq>\<^sub>m ac_settlements c \<and>
     (account_reachable nsum ndot (ac_book a) \<longrightarrow> account_reachable nsum ndot (ac_book c) \<and>
        bs_exact (ac_book c) = bs_exact (ac_book a) \<and> (bs_insolvent (ac_book a) \<longrightarrow> bs_insolvent (ac_book c)))"

lemma calm_refl [simp]: "calm nsum ndot a a"
  by (simp add: calm_def)

lemma calm_trans: "calm nsum ndot a b \<Longrightarrow> calm nsum ndot b c \<Longrightarrow> calm nsum ndot a c"
  unfolding calm_def by (auto intro: bot_later_trans map_le_trans prefix_order.trans)

lemma paper_fail_calm [simp]: "calm nsum ndot a (paper_fail r m a)"
  by (simp add: calm_def paper_fail_def)

lemma fail_when_calm [simp]: "calm nsum ndot a (fail_when c r m a)"
  by (simp add: fail_when_def)

lemma paper_fail_keeps [simp]: "ac_book (paper_fail r m a) = ac_book a" "ac_settlements (paper_fail r m a) = ac_settlements a"
  by (simp_all add: paper_fail_def)

lemma fail_when_keeps [simp]: "ac_book (fail_when c r m a) = ac_book a" "ac_settlements (fail_when c r m a) = ac_settlements a"
  by (simp_all add: fail_when_def)

lemma fail_when_calm_step: "calm nsum ndot a b \<Longrightarrow> calm nsum ndot a (fail_when c r m b)"
  by (rule calm_trans [OF _ fail_when_calm])

lemma paper_risk_calm [simp]: "calm nsum ndot a (paper_risk nsum ndot a)"
  by (simp add: paper_risk_def Let_def fail_when_calm_step)

lemma paper_risk_keeps [simp]: "ac_book (paper_risk nsum ndot a) = ac_book a"
  "ac_settlements (paper_risk nsum ndot a) = ac_settlements a"
  by (simp_all add: paper_risk_def Let_def)

lemma announce_calm [simp]: "calm nsum ndot a (announce_funding pair now next a)"
  by (simp add: calm_def announce_funding_def Let_def)

lemma announce_keeps [simp]: "ac_settlements (announce_funding pair now next a) = ac_settlements a"
  by (simp add: announce_funding_def Let_def)

lemma note_missing_calm [simp]: "calm nsum ndot a (note_missing now a) \<and> ac_settlements (note_missing now a) = ac_settlements a"
proof -
  have "calm nsum ndot a (foldl (\<lambda>a (pair, ms). fail_when (g a pair ms) r (f pair ms) a) b ks) \<and>
      ac_settlements (foldl (\<lambda>a (pair, ms). fail_when (g a pair ms) r (f pair ms) a) b ks) = ac_settlements a"
    if "calm nsum ndot a b" "ac_settlements b = ac_settlements a" for g r f ks b
    using that by (induction ks arbitrary: b) (auto simp: fail_when_calm_step)
  from this [OF calm_refl refl] show ?thesis unfolding note_missing_def by this
qed

lemma raise_watermark_calm [simp]: "calm nsum ndot a (raise_watermark ps a)" "ac_settlements (raise_watermark ps a) = ac_settlements a"
  by (simp_all add: calm_def raise_watermark_def Let_def)

section \<open>Payments\<close>

definition payment_key :: "funding_payment \<Rightarrow> nat \<times> int" where
  "payment_key p = (fp_pair p, fp_at p div 1000)"

text \<open>The payments found since \<open>a\<close>: new keys, each once, recorded in \<open>c\<close>, each at the quantity held before it.\<close>

definition settles :: "int \<Rightarrow> paper_account \<Rightarrow> funding_payment list \<Rightarrow> paper_account \<Rightarrow> bool" where
  "settles now a ps c \<longleftrightarrow> distinct (map payment_key ps) \<and> (\<forall>p \<in> set ps. ac_settlements a (payment_key p) = None \<and>
     ac_settlements c (payment_key p) = Some (fp_rate p, fp_mark p) \<and> fp_at p \<le> now \<and>
     fp_quantity p = held_before (ac_holdings a) (fp_at p) (2 * fp_pair p + 1) \<and>
     float_of_fraction (- fp_quantity p * fp_rate p * fp_mark p) = Inr (fp_amount p))"

lemma settle_funding_facts:
  assumes "settle_funding pair now row a = Inr (p, c)"
  shows "calm nsum ndot a c \<and> settles now a (case p of None \<Rightarrow> [] | Some x \<Rightarrow> [x]) c"
proof (cases "ac_settlements a (pair, fw_time row)")
  case None
  have n: "ac_settlements a \<subseteq>\<^sub>m (ac_settlements a)((pair, fw_time row) \<mapsto> x)" for x
    using None by (auto simp: map_le_def)
  then have "calm nsum ndot a (a\<lparr>ac_expected := e, ac_settlements := (ac_settlements a)((pair, fw_time row) \<mapsto> x)\<rparr>)" for e x
    by (simp add: calm_def)
  then show ?thesis using assms None
    by (auto simp: settle_funding_def Let_def bindr_Inr settles_def payment_key_def
      intro!: fail_when_calm_step split: if_splits)
next
  case (Some t)
  have "calm nsum ndot a (a\<lparr>ac_expected := e\<rparr>)" for e by (simp add: calm_def)
  then show ?thesis using assms Some
    by (auto simp: settle_funding_def Let_def settles_def intro!: fail_when_calm_step split: if_splits)
qed

lemma settles_Nil [simp]: "settles now a [] c"
  by (simp add: settles_def)

lemma settles_append:
  assumes "settles now a ps b" and "settles now b qs c" and "calm nsum ndot a b" and "calm nsum ndot b c"
  shows "settles now a (ps @ qs) c"
proof -
  have le: "ac_settlements a \<subseteq>\<^sub>m ac_settlements b" "ac_settlements b \<subseteq>\<^sub>m ac_settlements c" "ac_holdings b = ac_holdings a"
    using assms(3,4) by (simp_all add: calm_def)
  have up: "ac_settlements a k = None" if "ac_settlements b k = None" for k
    using that le(1) by (metis map_le_def domIff)
  have down: "ac_settlements c k = Some x" if "ac_settlements b k = Some x" for k x
    using that le(2) by (metis map_le_def domI)
  have "set (map payment_key ps) \<inter> set (map payment_key qs) = {}"
    using assms(1,2) unfolding settles_def by (fastforce simp: image_def)
  then have "distinct (map payment_key (ps @ qs))" using assms(1,2) by (simp add: settles_def)
  then show ?thesis using assms(1,2) up down by (simp only: settles_def le(3) set_append) blast
qed

lemma settles_later: "settles now a ps b \<Longrightarrow> calm nsum ndot a b \<Longrightarrow> calm nsum ndot b c \<Longrightarrow> settles now a ps c"
  using settles_append [of now a ps b "[]" c] by simp

lemma settle_rows_facts:
  "settle_rows pair now rows (ps, a) = Inr (qs, c) \<Longrightarrow> \<exists>new. qs = ps @ new \<and> calm nsum ndot a c \<and> settles now a new c"
proof (induction rows arbitrary: ps a)
  case (Cons row rows)
  obtain p a1 where p: "settle_funding pair now row a = Inr (p, a1)"
    and r: "settle_rows pair now rows (case p of None \<Rightarrow> ps | Some x \<Rightarrow> ps @ [x], a1) = Inr (qs, c)"
    using Cons.prems by (auto simp: settle_rows_def bindr_Inr)
  note f = settle_funding_facts [OF p, of nsum ndot]
  obtain new where new: "qs = (case p of None \<Rightarrow> ps | Some x \<Rightarrow> ps @ [x]) @ new" "calm nsum ndot a1 c" "settles now a1 new c"
    using Cons.IH [OF r] by blast
  have "settles now a ((case p of None \<Rightarrow> [] | Some x \<Rightarrow> [x]) @ new) c" using settles_append f new(2,3) by blast
  then show ?case using new(1,2) f calm_trans [of nsum ndot a a1 c] by (cases p) auto
qed (simp add: settle_rows_def)

lemma settle_markets_facts:
  "foldr_res (settle_market sn now now_ms) (ps, a) pairs = Inr (qs, c) \<Longrightarrow>
     \<exists>new. qs = ps @ new \<and> calm nsum ndot a c \<and> settles now a new c"
proof (induction pairs arbitrary: ps a)
  case (Cons pair pairs)
  obtain s where s: "settle_market sn now now_ms (ps, a) pair = Inr s"
    and s': "foldr_res (settle_market sn now now_ms) s pairs = Inr (qs, c)"
    using Cons.prems by (auto simp only: foldr_res.simps bindr_Inr)
  obtain m :: market_row and ps1 a1 where r: "settle_rows pair now (mw_settled m) (ps, a) = Inr (ps1, a1)"
    and rest: "s = (ps1, announce_funding pair now_ms (mw_next_funding m) a1)"
    using s unfolding settle_market_def bindr_Inr split_paired_Ex prod.case by auto
  note rest = s' [unfolded rest]
  let ?a2 = "announce_funding pair now_ms (mw_next_funding m) a1"
  obtain new where n: "ps1 = ps @ new" "calm nsum ndot a a1" "settles now a new a1" using settle_rows_facts [OF r] by blast
  obtain more where m: "qs = ps1 @ more" "calm nsum ndot ?a2 c" "settles now ?a2 more c" using Cons.IH [OF rest] by blast
  have c2: "calm nsum ndot a ?a2" using n(2) by (rule calm_trans) simp
  have "settles now a new ?a2" by (rule settles_later [OF n(3,2) announce_calm])
  then have "settles now a (new @ more) c" using settles_append c2 m(2,3) by blast
  then show ?case using n(1) m(1) calm_trans [OF c2 m(2)] by auto
qed simp

lemma pay_group_facts:
  assumes "pay_group nsum ndot a ps = Inr c" shows "calm nsum ndot a c \<and> ac_settlements c = ac_settlements a"
proof -
  obtain amount b where b: "c = paper_risk nsum ndot (a\<lparr>ac_book := b\<rparr>)"
    and d: "b = ac_book a \<or> (\<exists>start x. mark_to_market nsum (bs_marks (ac_book a)) amount (Some start) False (ac_book a) = Inr (x, b))"
  proof -
    obtain amount b where "c = paper_risk nsum ndot (a\<lparr>ac_book := b\<rparr>)" and e: "(if fzero amount then Inr (ac_book a)
       else let worth = portfolio_value nsum (ac_book a) in
         bindr (mark_to_market nsum (bs_marks (ac_book a)) amount
           (Some (if flt (F 0) worth then worth else st_initial_capital (ac_settings a))) False (ac_book a)) (\<lambda>(_, b). Inr b)) = Inr b"
      using assms unfolding pay_group_def bindr_Inr by auto
    with that show thesis by (cases "fzero amount") (auto simp: Let_def bindr_Inr)
  qed
  have "account_reachable nsum ndot b \<and> bs_exact b = bs_exact (ac_book a) \<and> (bs_insolvent (ac_book a) \<longrightarrow> bs_insolvent b)"
    if r: "account_reachable nsum ndot (ac_book a)"
  proof -
    have "book_shape (ac_book a)" using account_reachable_valid [OF r] by (simp add: book_valid_def)
    then show ?thesis using d r mark_to_market_valid account_reachable.step [OF r account_step.mark] by blast
  qed
  then have "calm nsum ndot a (a\<lparr>ac_book := b\<rparr>)" by (simp add: calm_def)
  then show ?thesis using calm_trans [OF _ paper_risk_calm] by (auto simp: b)
qed

lemma pay_groups_facts:
  "foldr_res (pay_group nsum ndot) a gs = Inr c \<Longrightarrow> calm nsum ndot a c \<and> ac_settlements c = ac_settlements a"
proof (induction gs arbitrary: a)
  case (Cons g gs)
  obtain b where b: "pay_group nsum ndot a g = Inr b" and r: "foldr_res (pay_group nsum ndot) b gs = Inr c"
    using Cons.prems by (auto simp: bindr_Inr)
  show ?case using pay_group_facts [OF b] Cons.IH [OF r] calm_trans by metis
qed simp

lemma settles_mset:
  assumes "settles now a ps c" and m: "mset qs = mset ps" shows "settles now a qs c"
proof -
  have "set qs = set ps" using m by (rule mset_eq_setD)
  moreover have "distinct (map payment_key qs) \<longleftrightarrow> distinct (map payment_key ps)"
    by (rule mset_eq_imp_distinct_iff) (simp add: m)
  ultimately show ?thesis using assms(1) by (auto simp only: settles_def)
qed

lemma paper_funding_facts:
  assumes "paper_funding nsum ndot sn now a = Inr (ps, c)" shows "calm nsum ndot a c \<and> settles now a ps c"
proof -
  obtain now_ms found a1 a3 where f: "foldr_res (settle_market sn now now_ms) ([], a) [0 ..< length paper_symbols] = Inr (found, a1)"
    and ps: "ps = sort_key fp_at (sort_key fp_pair found)"
    and g: "foldr_res (pay_group nsum ndot) (note_missing now_ms a1) (same_time_groups ps) = Inr a3"
    and c: "c = raise_watermark ps a3"
    using assms unfolding paper_funding_def Let_def bindr_Inr split_paired_Ex prod.case by auto
  have a1: "calm nsum ndot a a1" "settles now a found a1" using settle_markets_facts [OF f] by auto
  have "calm nsum ndot a1 c"
    unfolding c by (rule calm_trans [OF _ raise_watermark_calm(1)], rule calm_trans [OF _ conjunct1 [OF pay_groups_facts [OF g]]]) simp
  moreover have "settles now a ps c"
    by (rule settles_mset [OF settles_later [OF a1(2,1) calculation]]) (simp add: ps)
  ultimately show ?thesis using calm_trans [OF a1(1)] by blast
qed

section \<open>Observation\<close>

text \<open>An observation is calm up to the clock.\<close>

definition observed :: "int \<Rightarrow> paper_account \<Rightarrow> paper_account" where
  "observed now a = a\<lparr>ac_last_at := now, ac_observed_at := Some now, ac_observations := ac_observations a + 1\<rparr>"

lemma revalued_calm:
  assumes "revalue nsum marks (ac_book a) = Inr b"
  shows "calm nsum ndot a (a\<lparr>ac_book := update_drawdown nsum False b\<rparr>)"
proof -
  have "account_reachable nsum ndot (update_drawdown nsum False b) \<and> bs_exact b = bs_exact (ac_book a) \<and>
      (bs_insolvent (ac_book a) \<longrightarrow> bs_insolvent b)" if r: "account_reachable nsum ndot (ac_book a)"
  proof -
    have "book_shape (ac_book a)" using account_reachable_valid [OF r] by (simp add: book_valid_def)
    moreover have "account_reachable nsum ndot b" by (rule account_reachable.step [OF r account_step.revalue [OF assms]])
    then have "account_reachable nsum ndot (update_drawdown nsum False b)"
      by (rule account_reachable.step [OF _ account_step.drawdown])
    ultimately show ?thesis using revalue_valid [OF _ assms] by blast
  qed
  then show ?thesis using update_drawdown_same [of b nsum False] by (simp add: calm_def same_position_def)
qed

lemma stop_calm: "calm nsum ndot a (a\<lparr>ac_bot := keep_first_reason r (ac_bot a)\<rparr>)"
  by (simp add: calm_def)

lemma paper_observe_facts:
  assumes "paper_observe nsum ndot sn now a = Inr (ps, c)"
  obtains d where "ac_last_at a < now" "calm nsum ndot a d" "settles now a ps d" "c = observed now d"
proof -
  let ?a1 = "fail_when (flt (st_maximum_gap (ac_settings a)) (seconds_between now (ac_last_at a))) ''data_gap'' ''observation_gap'' a"
  let ?a2 = "\<lambda>b. paper_risk nsum ndot (?a1\<lparr>ac_book := update_drawdown nsum False b\<rparr>)"
  let ?a3 = "\<lambda>b. if st_close_at (ac_settings (?a2 b)) \<le> now
      then (?a2 b)\<lparr>ac_bot := keep_first_reason ''terminal_close'' (ac_bot (?a2 b))\<rparr> else ?a2 b"
  obtain marks b d where t: "ac_last_at a < now" and v: "revalue nsum marks (ac_book ?a1) = Inr b"
    and f: "paper_funding nsum ndot sn now (?a3 b) = Inr (ps, d)" and c: "c = observed now d"
    using assms unfolding paper_observe_def paper_clock_def observed_def Let_def bindr_Inr split_paired_Ex prod.case
    by (auto simp: not_le)
  have "calm nsum ndot a (?a2 b)"
    by (rule calm_trans [OF fail_when_calm], rule calm_trans [OF revalued_calm [OF v]], rule paper_risk_calm)
  then have a3: "calm nsum ndot a (?a3 b)" by (simp add: calm_trans [OF _ stop_calm])
  have e: "ac_settlements (?a3 b) = ac_settlements a" by simp
  from paper_funding_facts [OF f] have fd: "calm nsum ndot (?a3 b) d" "settles now (?a3 b) ps d" by auto
  have "settles now a ps d" using settles_append [OF settles_Nil fd(2) a3 fd(1)] by simp
  then show thesis using that [OF t calm_trans [OF a3 fd(1)] _ c] by blast
qed

lemma calm_bot: "calm nsum ndot a c \<Longrightarrow> bot_ok (ac_bot a) \<Longrightarrow> bot_ok (ac_bot c)"
  by (simp add: calm_def bot_later_def bot_ok_def)

lemma calm_exact: "calm nsum ndot a c \<Longrightarrow> account_reachable nsum ndot (ac_book a) \<Longrightarrow>
    account_reachable nsum ndot (ac_book c) \<and> exact_values (ac_book c) = exact_values (ac_book a)"
  by (simp add: calm_def exact_values_def)

lemma reachable_shape: "account_reachable nsum ndot b \<Longrightarrow> book_shape b"
  using account_reachable_valid by (auto simp: book_valid_def)

section \<open>Deciding\<close>

text \<open>The lots ordered for a position, and the exact quantity they lead to when they fill completely.\<close>

definition ordered_lots :: "paper_order list \<Rightarrow> nat \<Rightarrow> int" where
  "ordered_lots ws i = sum_list (map pw_lots (filter (\<lambda>w. pw_symbol w = i) ws))"

definition venue_step :: "venue_rules \<Rightarrow> nat \<Rightarrow> rat" where
  "venue_step rules i = (case rule_of rules i of Inl e \<Rightarrow> 0 | Inr rule \<Rightarrow> dec_of_float (dr_lot_size rule))"

definition planned :: "venue_rules \<Rightarrow> rat list \<Rightarrow> paper_order list \<Rightarrow> nat \<Rightarrow> rat" where
  "planned rules held ws i = held ! i + of_int (ordered_lots ws i) * venue_step rules i"

lemma order_lots_exact:
  assumes "order_lots rules config target (i, q) = Inr w"
  shows "int i < int (length target) \<and> (\<forall>x. w = Some x \<longrightarrow> pw_symbol x = i) \<and>
    q + of_int (case w of None \<Rightarrow> 0 | Some x \<Rightarrow> pw_lots x) * venue_step rules i = dec_of_float (target ! i)"
proof -
  obtain rule step t wanted where r: "rule_of rules i = Inr rule" "exact_quantity (dr_lot_size rule) = Inr step" "step \<noteq> 0"
    and t: "i < length target" "exact_quantity (target ! i) = Inr wanted" "whole ((wanted - q) / step)"
    and w: "w = (if (wanted - q) / step = 0 then None else Some \<lparr>pw_symbol = i, pw_lots = \<lfloor>(wanted - q) / step\<rfloor>\<rparr>)"
    using assms unfolding order_lots_def Let_def prod.case bindr_Inr by (auto simp: vec_at_Inr Let_def split: if_splits)
  have s: "venue_step rules i = step" "wanted = dec_of_float (target ! i)"
    using r t(2) by (auto simp: venue_step_def exact_quantity_def split: if_splits)
  have "of_int (case w of None \<Rightarrow> 0 | Some x \<Rightarrow> pw_lots x) * step = wanted - q"
    using t(3) r(3) by (auto simp: w whole_def field_simps)
  then show ?thesis using t(1) s w by auto
qed

lemma ordered_lots_found:
  assumes "mapr (order_lots rules config target) (enumerate n held) = Inr found"
  shows "(\<forall>i < length held. n + i < length target \<and>
      held ! i + of_int (ordered_lots (List.map_filter (\<lambda>x. x) found) (n + i)) * venue_step rules (n + i) = dec_of_float (target ! (n + i))) \<and>
    (\<forall>w \<in> set (List.map_filter (\<lambda>x. x) found). n \<le> pw_symbol w)"
  using assms
proof (induction held arbitrary: n found)
  case (Cons q held)
  obtain w rest where w: "order_lots rules config target (n, q) = Inr w"
    and rest: "mapr (order_lots rules config target) (enumerate (Suc n) held) = Inr rest" and f: "found = w # rest"
    using Cons.prems by (auto simp: bindr_Inr)
  note e = order_lots_exact [OF w] and IH = Cons.IH [OF rest]
  let ?ws = "List.map_filter (\<lambda>x. x) rest"
  have mf: "List.map_filter (\<lambda>x. x) found = (case w of None \<Rightarrow> ?ws | Some x \<Rightarrow> x # ?ws)"
    by (simp add: f List.map_filter_simps split: option.split)
  have "filter (\<lambda>w. pw_symbol w = n) ?ws = []" using IH by (auto simp: filter_empty_conv)
  then have first: "ordered_lots (List.map_filter (\<lambda>x. x) found) n = (case w of None \<Rightarrow> 0 | Some x \<Rightarrow> pw_lots x)"
    using e by (auto simp: mf ordered_lots_def split: option.split)
  have later: "ordered_lots (List.map_filter (\<lambda>x. x) found) (Suc n + i) = ordered_lots ?ws (Suc n + i)" for i
    using e by (auto simp: mf ordered_lots_def split: option.split)
  have ge: "\<forall>w \<in> set (List.map_filter (\<lambda>x. x) found). n \<le> pw_symbol w"
    using e IH by (auto simp: mf split: option.splits)
  have "n + i < length target \<and> (q # held) ! i + of_int (ordered_lots (List.map_filter (\<lambda>x. x) found) (n + i)) * venue_step rules (n + i) =
      dec_of_float (target ! (n + i))" if "i < length (q # held)" for i
  proof (cases i)
    case 0 then show ?thesis using e first by simp
  next
    case (Suc j) then show ?thesis using IH later [of j] that by simp
  qed
  then show ?case using ge by blast
qed (simp add: List.map_filter_simps)

text \<open>What every command does to the account, besides filling.\<close>

definition command_keeps ::
  "(f64 list \<Rightarrow> f64) \<Rightarrow> (f64 list \<Rightarrow> f64 list \<Rightarrow> f64) \<Rightarrow> int \<Rightarrow> paper_account \<Rightarrow> paper_result \<Rightarrow> paper_account \<Rightarrow> bool" where
  "command_keeps nsum ndot now a r c \<longleftrightarrow> ac_settings c = ac_settings a \<and> ac_last_at a < now \<and> ac_last_at c = now \<and>
     bot_later (ac_bot a) (ac_bot c) \<and> bot_ok (ac_bot c) \<and> prefix (ac_failures a) (ac_failures c) \<and>
     ac_settlements a \<subseteq>\<^sub>m ac_settlements c \<and> settles now a (pr_funding r) c \<and>
     account_reachable nsum ndot (ac_book c) \<and>
     (\<exists>new. ac_holdings c = ac_holdings a @ new \<and> (\<forall>h \<in> set new. fst h = now))"

lemma settles_cong: "settles now a ps c \<Longrightarrow> ac_settlements c' = ac_settlements c \<Longrightarrow> settles now a ps c'"
  by (auto simp only: settles_def)

lemma matched_pair:
  assumes "matched_hedge lot t" and "2 * k + 1 < length t"
  shows "dec_of_float (t ! (2 * k)) + dec_of_float (t ! (2 * k + 1)) = 0"
proof -
  obtain units where t: "t = interleave units (map fneg units)"
    and u: "\<forall>u \<in> set units. \<exists>n. project_quantity (of_int n * dec_of_float lot) = Inr u"
    using assms(1) by (auto simp: matched_hedge_def)
  have nth: "k < length us \<Longrightarrow> interleave us (map fneg us) ! (2 * k) = us ! k \<and>
      interleave us (map fneg us) ! (2 * k + 1) = fneg (us ! k)" for us k
    by (induction us arbitrary: k) (auto simp: nth_Cons split: nat.splits)
  have k: "k < length units" using assms(2) length_interleave [of units "map fneg units"] by (simp add: t)
  then have "is_f64 (units ! k)" using u project_quantity_f64 by (meson nth_mem)
  then show ?thesis using nth [OF k] by (simp add: t)
qed

lemma decision_target_facts:
  assumes "decision_target nsum now a = Inr (t, c)" and "bot_ok (ac_bot a)"
  obtains cb where "c = a\<lparr>ac_bot := cb\<rparr>" "bot_later (ac_bot a) cb" "bot_ok cb"
    "(\<forall>x \<in> set t. x = F 0) \<or> \<not> bs_insolvent (ac_book a) \<and> cb_stop_reason cb = None \<and> matched_hedge (cy_common_lot (cb_config cb)) t"
proof (cases "bs_insolvent (ac_book a)")
  case True
  then show thesis using assms by (intro that [of "ac_bot a"]) (auto simp: decision_target_def)
next
  case False
  then obtain cb where d: "carry_decide now (bs_marks (ac_book a)) (bs_quantities (ac_book a))
      (portfolio_value nsum (ac_book a)) (bs_max_drawdown (ac_book a)) (ac_bot a) = Inr (t, cb)" and c: "c = a\<lparr>ac_bot := cb\<rparr>"
    using assms(1) by (auto simp: decision_target_def Let_def bindr_Inr)
  note h = carry_decide_hedge [OF d assms(2)]
  show thesis
    by (rule that [OF c carry_decide_later [OF d]])
      (use h False in \<open>auto simp: bot_ok_def split: if_splits\<close>)
qed

lemma paper_decide_facts:
  assumes run: "paper_decide nsum ndot sn rules reference now a = Inr (r, c)"
    and reach: "account_reachable nsum ndot (ac_book a)" and bot: "bot_ok (ac_bot a)"
  obtains target where "command_keeps nsum ndot now a r c" "exact_values (ac_book c) = exact_values (ac_book a)"
    "\<forall>i < length (exact_values (ac_book c)). i < length target \<and>
       planned rules (exact_values (ac_book c)) (pr_orders r) i = dec_of_float (target ! i)"
    "(\<forall>x \<in> set target. x = F 0) \<or> \<not> bs_insolvent (ac_book c) \<and> cb_stop_reason (ac_bot c) = None \<and>
       matched_hedge (cy_common_lot (cb_config (ac_bot c))) target"
    "pr_fills r = []" "ac_holdings c = ac_holdings a"
proof -
  obtain payments a1 target a2 held b found where o: "paper_observe nsum ndot sn now a = Inr (payments, a1)"
    and t: "decision_target nsum now a1 = Inr (target, a2)" and q: "quantity_values (ac_book a2) = Inr (held, b)"
    and l: "mapr (order_lots rules (cb_config (ac_bot a2)) target) (enumerate 0 held) = Inr found"
    and r: "r = \<lparr>pr_orders = List.map_filter (\<lambda>x. x) found, pr_funding = payments, pr_fills = [], pr_cancelled = False\<rparr>"
    and c: "c = (if List.map_filter (\<lambda>x. x) found \<noteq> [] \<and> \<not> bs_insolvent b
      then a2\<lparr>ac_book := b, ac_pending := Some \<lparr>pd_at = now, pd_orders = List.map_filter (\<lambda>x. x) found, pd_rules = reference\<rparr>\<rparr>
      else a2\<lparr>ac_book := b\<rparr>)"
    using run unfolding paper_decide_def Let_def bindr_Inr split_paired_Ex prod.case by (elim exE conjE) simp
  have "a2\<lparr>ac_book := b\<rparr> = a2\<lparr>ac_book := b, ac_pending := ac_pending a2\<rparr>" by simp
  then have c: "\<exists>p. c = a2\<lparr>ac_book := b, ac_pending := p\<rparr>" using c by metis
  obtain d where d: "ac_last_at a < now" "calm nsum ndot a d" "settles now a payments d" "a1 = observed now d"
    using paper_observe_facts [OF o] by blast
  note calm = d(2) [unfolded calm_def]
  have b1: "bot_ok (ac_bot a1)" using calm_bot [OF d(2) bot] by (simp add: d(4) observed_def)
  obtain cb where cb: "a2 = a1\<lparr>ac_bot := cb\<rparr>" "bot_later (ac_bot a1) cb" "bot_ok cb"
    "(\<forall>x \<in> set target. x = F 0) \<or> \<not> bs_insolvent (ac_book a1) \<and> cb_stop_reason cb = None \<and>
       matched_hedge (cy_common_lot (cb_config cb)) target"
    by (rule decision_target_facts [OF t b1])
  have rd: "account_reachable nsum ndot (ac_book d)" "exact_values (ac_book d) = exact_values (ac_book a)"
    using calm_exact [OF d(2) reach] by auto
  have q': "held = exact_values (ac_book d)" "b = ac_book d"
    using q quantity_values_shape [OF reachable_shape [OF rd(1)]] by (auto simp: cb(1) d(4) observed_def)
  obtain p where p: "c = (observed now d)\<lparr>ac_bot := cb, ac_pending := p\<rparr>"
    using c by (auto simp: cb(1) d(4) q'(2) observed_def)
  have "command_keeps nsum ndot now a r c"
    using calm d(1) d(3) cb(2,3) rd(1) reach
    by (auto simp: command_keeps_def p r observed_def d(4) intro: bot_later_trans settles_cong)
  moreover have "\<forall>i < length (exact_values (ac_book c)). i < length target \<and>
       planned rules (exact_values (ac_book c)) (pr_orders r) i = dec_of_float (target ! i)"
    using ordered_lots_found [OF l] by (simp add: planned_def r p observed_def q'(1))
  moreover have "exact_values (ac_book c) = exact_values (ac_book a)" by (simp add: p observed_def rd(2))
  ultimately show thesis using cb(4) calm
    by (intro that [of target]) (auto simp: p r observed_def d(4))
qed

section \<open>Executing\<close>

text \<open>Everything but the book and the fields that only the end of a command changes.\<close>

definition steady :: "paper_account \<Rightarrow> paper_account \<Rightarrow> bool" where
  "steady a c \<longleftrightarrow> ac_settings c = ac_settings a \<and> ac_last_at c = ac_last_at a \<and> bot_later (ac_bot a) (ac_bot c) \<and>
     cb_target (ac_bot c) = cb_target (ac_bot a) \<and> prefix (ac_failures a) (ac_failures c) \<and>
     ac_settlements c = ac_settlements a"

lemma steady_refl [simp]: "steady a a"
  by (simp add: steady_def)

lemma steady_trans: "steady a b \<Longrightarrow> steady b c \<Longrightarrow> steady a c"
  unfolding steady_def by (auto intro: bot_later_trans prefix_order.trans)

lemma steady_book [simp]: "steady a (b\<lparr>ac_book := x\<rparr>) \<longleftrightarrow> steady a b" "steady a (b\<lparr>ac_holdings := hs\<rparr>) \<longleftrightarrow> steady a b"
  by (simp_all add: steady_def)

lemma fail_when_steady [simp]: "steady a (fail_when c r m a)" "ac_holdings (fail_when c r m a) = ac_holdings a"
  by (simp_all add: steady_def fail_when_def paper_fail_def)

lemma fail_when_steady_step: "steady a b \<Longrightarrow> steady a (fail_when c r m b)"
  by (rule steady_trans [OF _ fail_when_steady(1)])

lemma paper_risk_steady [simp]: "steady a b \<Longrightarrow> steady a (paper_risk nsum ndot b)"
  "ac_holdings (paper_risk nsum ndot b) = ac_holdings b"
  by (simp_all add: paper_risk_def Let_def fail_when_steady_step)

text \<open>The numbers of the evidence are binary64 floats.\<close>

definition evidence_ok :: "paper_settings \<Rightarrow> market_snapshot \<Rightarrow> venue_rules \<Rightarrow> bool" where
  "evidence_ok s sn rules \<longleftrightarrow> is_f64 (st_adverse s) \<and> is_f64 (st_fraction s) \<and>
     (\<forall>k rule. rules k = Some rule \<longrightarrow> is_f64 (dr_lot_size rule)) \<and>
     (\<forall>k m. sp_market sn k = Some m \<longrightarrow> levels_f64 (mw_spot_bids m) \<and> levels_f64 (mw_spot_asks m) \<and>
        levels_f64 (mw_perpetual_bids m) \<and> levels_f64 (mw_perpetual_asks m))"

lemma depth_rules_same: "depth_rules_post_init r = Inr r' \<Longrightarrow> r' = r"
  by (auto simp: depth_rules_post_init_def bindr_Inr)

lemma venue_request_ok:
  assumes "venue_request_of s sn rules decided now w = Inr req" and "evidence_ok s sn rules"
  shows "depth_request_ok req \<and> dq_symbol req = int (pw_symbol w) \<and> dq_lots req = pw_lots w \<and>
    dec_of_float (dr_lot_size (dq_rules req)) = venue_step rules (pw_symbol w)"
proof -
  obtain m raw rule where m: "market_of sn (pw_symbol w div 2) = Inr m" and raw: "rule_of rules (pw_symbol w) = Inr raw"
    "depth_rules_post_init raw = Inr rule"
    and f: "dq_symbol req = int (pw_symbol w)" "dq_lots req = pw_lots w" "dq_rules req = rule"
      "dq_bids req = (if even (pw_symbol w) then mw_spot_bids m else mw_perpetual_bids m)"
      "dq_asks req = (if even (pw_symbol w) then mw_spot_asks m else mw_perpetual_asks m)"
      "dq_adverse_bps req = st_adverse s" "dq_fraction req = st_fraction s"
    using assms(1) unfolding venue_request_of_def Let_def bindr_Inr by auto
  have r: "rule_of rules (pw_symbol w) = Inr rule" "depth_rules_post_init rule = Inr rule"
    using raw depth_rules_same [OF raw(2)] by simp_all
  have "\<exists>k. sp_market sn k = Some m" "\<exists>k. rules k = Some rule"
    using m r by (auto simp: market_of_def rule_of_def lookup_key_def split: option.splits)
  then show ?thesis using assms(2) f r by (auto simp: evidence_ok_def depth_request_ok_def venue_step_def)
qed

definition fill_position :: "venue_rules \<Rightarrow> rat list \<Rightarrow> paper_order \<times> depth_fill \<Rightarrow> rat list" where
  "fill_position rules held x = (case x of (w, f) \<Rightarrow> held[pw_symbol w := held ! pw_symbol w +
     of_int (df_filled_lots f) * venue_step rules (pw_symbol w)])"

text \<open>A fill answers its order: all lots accounted for, none in the wrong direction.\<close>

definition fill_within :: "paper_order \<times> depth_fill \<Rightarrow> bool" where
  "fill_within x \<longleftrightarrow> (case x of (w, f) \<Rightarrow> df_filled_lots f + df_unfilled_lots f = pw_lots w \<and>
     \<bar>df_filled_lots f\<bar> \<le> \<bar>pw_lots w\<bar> \<and> 0 \<le> df_filled_lots f * pw_lots w)"

lemma fill_orders_facts:
  assumes "fill_orders nsum ndot sn rules decided now inc ws a = Inr (fills, c)" and "evidence_ok (ac_settings a) sn rules"
    and "account_reachable nsum ndot (ac_book a)"
  shows "prefix (map fst fills) ws \<and> (\<forall>x \<in> set fills. fill_within x) \<and> steady a c \<and> ac_holdings c = ac_holdings a \<and>
    account_reachable nsum ndot (ac_book c) \<and>
    exact_values (ac_book c) = foldl (fill_position rules) (exact_values (ac_book a)) fills"
  using assms
proof (induction ws arbitrary: a fills)
  case (Cons w ws)
  obtain req fill b where req: "venue_request_of (ac_settings a) sn rules decided now w = Inr req"
    and ex: "execute_depth_order nsum req (ac_book a) = Inr (fill, b)"
    and rest: "(let a1 = paper_risk nsum ndot (a\<lparr>ac_book := b\<rparr>) in
       if bs_insolvent b \<or> inc \<and> cb_stop_reason (ac_bot a1) \<noteq> None then Inr ([(w, fill)], a1)
       else bindr (fill_orders nsum ndot sn rules decided now inc ws a1) (\<lambda>(fills, a2). Inr ((w, fill) # fills, a2))) = Inr (fills, c)"
    using Cons.prems(1) unfolding fill_orders.simps bindr_Inr split_paired_Ex prod.case by (elim exE conjE) (rule that)
  let ?a1 = "paper_risk nsum ndot (a\<lparr>ac_book := b\<rparr>)"
  note q = venue_request_ok [OF req Cons.prems(2)]
  note d = depth_position [OF conjunct1 [OF q] reachable_shape [OF Cons.prems(3)] ex, of ndot]
  have w: "fill_within (w, fill)" "exact_values b = fill_position rules (exact_values (ac_book a)) (w, fill)"
    using d q by (auto simp: fill_within_def fill_position_def)
  have b: "account_reachable nsum ndot b" using d Cons.prems(3) account_reachable.step by blast
  have s: "steady a ?a1" "ac_settings ?a1 = ac_settings a" using paper_risk_steady(1) [of a "a\<lparr>ac_book := b\<rparr>"] by (auto simp: steady_def)
  show ?case
  proof (cases "bs_insolvent b \<or> inc \<and> cb_stop_reason (ac_bot ?a1) \<noteq> None")
    case True
    then have "fills = [(w, fill)]" "c = ?a1" using rest by (simp_all add: Let_def)
    then show ?thesis using w b s by simp
  next
    case False
    then obtain more where more: "fill_orders nsum ndot sn rules decided now inc ws ?a1 = Inr (more, c)" "fills = (w, fill) # more"
      using rest by (auto simp: Let_def bindr_Inr)
    have "evidence_ok (ac_settings ?a1) sn rules" "account_reachable nsum ndot (ac_book ?a1)" using s(2) Cons.prems(2) b by simp_all
    from Cons.IH [OF more(1) this] show ?thesis using w more(2) steady_trans [OF s(1)] by auto
  qed
qed simp

lemma record_holdings_facts:
  assumes "record_holdings now a = Inr c" and "account_reachable nsum ndot (ac_book a)"
  shows "steady a c \<and> ac_book c = ac_book a \<and> ac_holdings c = ac_holdings a @ [(now, exact_values (ac_book a))]"
proof -
  have q: "quantity_values (ac_book a) = Inr (exact_values (ac_book a), ac_book a)"
    by (rule quantity_values_shape [OF reachable_shape [OF assms(2)]])
  have "c = fail_when (list_ex (\<lambda>i. exact_values (ac_book a) ! i + exact_values (ac_book a) ! (i + 1) \<noteq> 0) [0, 2])
      ''unmatched_hedge'' ''unmatched_hedge'' (a\<lparr>ac_book := ac_book a, ac_holdings := ac_holdings a @ [(now, exact_values (ac_book a))]\<rparr>)"
    using assms(1) by (simp add: record_holdings_def q)
  then show ?thesis by (simp add: fail_when_steady_step)
qed

lemma paper_execute_facts:
  assumes run: "paper_execute nsum ndot sn rules now a = Inr (r, c)" and pending: "ac_pending a = Some pending"
    and ev: "evidence_ok (ac_settings a) sn rules"
    and reach: "account_reachable nsum ndot (ac_book a)" and bot: "bot_ok (ac_bot a)"
  shows "command_keeps nsum ndot now a r c" "ac_pending c = None"
    "exact_values (ac_book c) = foldl (fill_position rules) (exact_values (ac_book a)) (pr_fills r)"
    "prefix (map fst (pr_fills r)) (pd_orders pending)" "\<forall>x \<in> set (pr_fills r). fill_within x"
    "pr_cancelled r \<longrightarrow> pr_fills r = []"
    "ac_holdings c = ac_holdings a @ (if pr_cancelled r then [] else [(now, exact_values (ac_book c))])"
proof -
  obtain payments a1 held b inc desired where o: "paper_observe nsum ndot sn now a = Inr (payments, a1)"
    and q: "quantity_values (ac_book a1) = Inr (held, b)"
    and fl: "carry_out nsum ndot sn rules now pending payments inc
        (guard_collateral nsum inc desired (a1\<lparr>ac_book := b\<rparr>)) = Inr (r, c)"
    using run unfolding paper_execute_def pending option.case bindr_Inr split_paired_Ex prod.case
    by (elim exE conjE) (rule that)
  define a2 where "a2 = guard_collateral nsum inc desired (a1\<lparr>ac_book := b\<rparr>)"
  obtain d where d: "ac_last_at a < now" "calm nsum ndot a d" "settles now a payments d" "a1 = observed now d"
    using paper_observe_facts [OF o] by blast
  note calm = d(2) [unfolded calm_def]
  have rd: "account_reachable nsum ndot (ac_book d)" "exact_values (ac_book d) = exact_values (ac_book a)"
    using calm_exact [OF d(2) reach] by auto
  have q': "b = ac_book d"
    using q quantity_values_shape [OF reachable_shape [OF rd(1)]] by (auto simp: d(4) observed_def)
  have s2: "steady (observed now d) a2" "ac_book a2 = ac_book d" "ac_holdings a2 = ac_holdings a"
    using calm by (simp_all add: a2_def guard_collateral_def d(4) q' fail_when_steady_step observed_def)
  have ok: "evidence_ok (ac_settings a2) sn rules" "account_reachable nsum ndot (ac_book a2)"
    using s2 calm ev rd(1) by (simp_all add: steady_def observed_def)
  obtain a5 where c: "c = a5\<lparr>ac_pending := None\<rparr>" and pf: "pr_funding r = payments"
    and fin: "steady a2 a5" "account_reachable nsum ndot (ac_book a5)"
      "exact_values (ac_book a5) = foldl (fill_position rules) (exact_values (ac_book a2)) (pr_fills r)"
      "prefix (map fst (pr_fills r)) (pd_orders pending)" "\<forall>x \<in> set (pr_fills r). fill_within x"
      "pr_cancelled r \<longrightarrow> pr_fills r = []"
      "ac_holdings a5 = ac_holdings a2 @ (if pr_cancelled r then [] else [(now, exact_values (ac_book a5))])"
  proof (cases "bs_insolvent (ac_book a2) \<or> cb_stop_reason (ac_bot a2) \<noteq> None \<and> inc")
    case True
    then show thesis using fl ok(2) by (intro that [of a2]) (auto simp: carry_out_def a2_def [symmetric])
  next
    case False
    then obtain fills a3 a4 where f: "fill_orders nsum ndot sn rules (pd_at pending) now inc (pd_orders pending) a2 = Inr (fills, a3)"
      and h: "record_holdings now a3 = Inr a4" and rc: "r = \<lparr>pr_orders = [], pr_funding = payments, pr_fills = fills, pr_cancelled = False\<rparr>"
        "c = a4\<lparr>ac_pending := None\<rparr>"
      using fl by (auto simp: carry_out_def a2_def [symmetric] bindr_Inr)
    note ff = fill_orders_facts [OF f ok]
    have "account_reachable nsum ndot (ac_book a3)" using ff by blast
    note hh = record_holdings_facts [OF h this]
    show thesis
      by (rule that [OF rc(2)]) (use ff hh in \<open>auto simp: rc(1) intro: steady_trans\<close>)
  qed
  have "steady (observed now d) a5" using steady_trans [OF s2(1) fin(1)] .
  then have st: "ac_settings a5 = ac_settings a" "ac_last_at a5 = now" "bot_later (ac_bot d) (ac_bot a5)"
      "cb_target (ac_bot a5) = cb_target (ac_bot a)" "prefix (ac_failures d) (ac_failures a5)" "ac_settlements a5 = ac_settlements d"
    using calm by (simp_all add: steady_def observed_def)
  have later: "bot_later (ac_bot a) (ac_bot a5)" using calm st(3) bot_later_trans by blast
  then have "bot_ok (ac_bot a5)" using bot st(4) by (simp add: bot_ok_def bot_later_def)
  then show "command_keeps nsum ndot now a r c"
    using calm d(1,3) st later fin s2(3)
    by (auto simp: command_keeps_def c pf intro: settles_cong prefix_order.trans)
  show "ac_pending c = None" "exact_values (ac_book c) = foldl (fill_position rules) (exact_values (ac_book a)) (pr_fills r)"
    "prefix (map fst (pr_fills r)) (pd_orders pending)" "\<forall>x \<in> set (pr_fills r). fill_within x"
    "pr_cancelled r \<longrightarrow> pr_fills r = []"
    "ac_holdings c = ac_holdings a @ (if pr_cancelled r then [] else [(now, exact_values (ac_book c))])"
    using fin rd(2) s2(2,3) by (simp_all add: c)
qed

lemma paper_gap_facts:
  assumes "paper_gap now reason a = Inr (r, c)" and "account_reachable nsum ndot (ac_book a)" and "bot_ok (ac_bot a)"
  shows "command_keeps nsum ndot now a r c \<and> ac_book c = ac_book a \<and> cb_stop_reason (ac_bot c) \<noteq> None \<and>
    ac_pending c = None \<and> pr_fills r = []"
  using assms by (auto simp: paper_gap_def paper_clock_def bindr_Inr command_keeps_def paper_fail_def bot_ok_def split: option.splits)

section \<open>Runs of commands\<close>

inductive paper_command ::
  "(f64 list \<Rightarrow> f64) \<Rightarrow> (f64 list \<Rightarrow> f64 list \<Rightarrow> f64) \<Rightarrow> int \<Rightarrow> paper_account \<Rightarrow> paper_result \<Rightarrow> paper_account \<Rightarrow> bool"
  for nsum ndot now where
  decide: "paper_decide nsum ndot sn rules reference now a = Inr (r, c) \<Longrightarrow> paper_command nsum ndot now a r c"
| execute: "paper_execute nsum ndot sn rules now a = Inr (r, c) \<Longrightarrow> evidence_ok (ac_settings a) sn rules \<Longrightarrow>
    paper_command nsum ndot now a r c"
| gap: "paper_gap now reason a = Inr (r, c) \<Longrightarrow> paper_command nsum ndot now a r c"

text \<open>A run collects the funding payments of its commands.\<close>

inductive paper_run ::
  "(f64 list \<Rightarrow> f64) \<Rightarrow> (f64 list \<Rightarrow> f64 list \<Rightarrow> f64) \<Rightarrow> paper_account \<Rightarrow> funding_payment list \<Rightarrow> paper_account \<Rightarrow> bool"
  for nsum ndot where
  start: "paper_run nsum ndot a [] a"
| command: "paper_run nsum ndot a ps b \<Longrightarrow> paper_command nsum ndot now b r c \<Longrightarrow> paper_run nsum ndot a (ps @ pr_funding r) c"

lemma paper_command_keeps:
  assumes "paper_command nsum ndot now a r c" and "account_reachable nsum ndot (ac_book a)" and "bot_ok (ac_bot a)"
  shows "command_keeps nsum ndot now a r c"
  using assms(1)
proof cases
  case (decide sn rules reference)
  then show ?thesis using paper_decide_facts assms(2,3) by blast
next
  case (execute sn rules)
  then obtain pending where "ac_pending a = Some pending" by (auto simp: paper_execute_def split: option.splits)
  then show ?thesis using paper_execute_facts(1) [OF execute(1) _ execute(2)] assms(2,3) by blast
next
  case (gap reason)
  then show ?thesis using paper_gap_facts assms(2,3) by blast
qed

lemma paper_run_keeps:
  assumes "paper_run nsum ndot a ps c" and "account_reachable nsum ndot (ac_book a)" and "bot_ok (ac_bot a)"
  shows "account_reachable nsum ndot (ac_book c) \<and> bot_ok (ac_bot c) \<and> bot_later (ac_bot a) (ac_bot c) \<and>
    ac_last_at a \<le> ac_last_at c \<and> prefix (ac_failures a) (ac_failures c) \<and> ac_settings c = ac_settings a \<and>
    ac_settlements a \<subseteq>\<^sub>m ac_settlements c"
  using assms
proof (induction rule: paper_run.induct)
  case (command a ps b now r c)
  then have "command_keeps nsum ndot now b r c" using paper_command_keeps by blast
  then show ?case using command unfolding command_keeps_def
    by (auto intro: bot_later_trans prefix_order.trans map_le_trans)
qed simp

text \<open>Fills after an instant do not change what was held before it.\<close>

lemma find_append: "find P (xs @ ys) = (case find P xs of None \<Rightarrow> find P ys | Some x \<Rightarrow> Some x)"
  by (induction xs) auto

lemma held_before_append:
  assumes "\<forall>h \<in> set new. t \<le> fst h" shows "held_before (holdings @ new) t i = held_before holdings t i"
proof -
  have "find (\<lambda>h. fst h < t) (rev new) = None" using assms by (auto simp: find_None_iff not_less)
  then show ?thesis by (simp add: held_before_def find_append)
qed

text \<open>The payments of a run, judged by the account at its end.\<close>

definition paid_once :: "paper_account \<Rightarrow> funding_payment list \<Rightarrow> paper_account \<Rightarrow> bool" where
  "paid_once a ps c \<longleftrightarrow> distinct (map payment_key ps) \<and> (\<forall>p \<in> set ps. ac_settlements a (payment_key p) = None \<and>
     ac_settlements c (payment_key p) = Some (fp_rate p, fp_mark p) \<and> fp_at p \<le> ac_last_at c \<and>
     fp_quantity p = held_before (ac_holdings c) (fp_at p) (2 * fp_pair p + 1) \<and>
     float_of_fraction (- fp_quantity p * fp_rate p * fp_mark p) = Inr (fp_amount p))"

lemma paid_once_command:
  assumes ab: "paid_once a ps b" and le: "ac_settlements a \<subseteq>\<^sub>m ac_settlements b" and bc: "command_keeps nsum ndot now b r c"
  shows "paid_once a (ps @ pr_funding r) c"
proof -
  obtain new where new: "ac_holdings c = ac_holdings b @ new" "\<forall>h \<in> set new. fst h = now"
    and k: "ac_last_at b < now" "ac_last_at c = now" "ac_settlements b \<subseteq>\<^sub>m ac_settlements c" "settles now b (pr_funding r) c"
    using bc by (auto simp: command_keeps_def)
  have held: "held_before (ac_holdings c) t i = held_before (ac_holdings b) t i" if "t \<le> now" for t i
    using held_before_append [of new t "ac_holdings b" i] new that by simp
  have up: "ac_settlements a key = None" if "ac_settlements b key = None" for key
    using that le by (metis map_le_def domIff)
  have down: "ac_settlements c key = Some x" if "ac_settlements b key = Some x" for key x
    using that k(3) by (metis map_le_def domI)
  have old: "\<forall>p \<in> set ps. ac_settlements b (payment_key p) \<noteq> None \<and> fp_at p \<le> now" "distinct (map payment_key ps)"
    using ab k(1) by (auto simp: paid_once_def)
  have fresh: "\<forall>p \<in> set (pr_funding r). ac_settlements b (payment_key p) = None \<and> fp_at p \<le> now" "distinct (map payment_key (pr_funding r))"
    using k(4) by (auto simp: settles_def)
  have "payment_key p \<noteq> payment_key q" if "p \<in> set ps" "q \<in> set (pr_funding r)" for p q
    using that old(1) fresh(1) by metis
  then have "payment_key ` set ps \<inter> payment_key ` set (pr_funding r) = {}" by blast
  then have dist: "distinct (map payment_key (ps @ pr_funding r))" using old(2) fresh(2) by simp
  have "\<forall>p \<in> set ps. ac_settlements a (payment_key p) = None \<and>
      ac_settlements c (payment_key p) = Some (fp_rate p, fp_mark p) \<and> fp_at p \<le> ac_last_at c \<and>
      fp_quantity p = held_before (ac_holdings c) (fp_at p) (2 * fp_pair p + 1) \<and>
      float_of_fraction (- fp_quantity p * fp_rate p * fp_mark p) = Inr (fp_amount p)"
  proof
    fix p assume p: "p \<in> set ps"
    then have n: "fp_at p \<le> now" using old(1) by blast
    show "ac_settlements a (payment_key p) = None \<and>
      ac_settlements c (payment_key p) = Some (fp_rate p, fp_mark p) \<and> fp_at p \<le> ac_last_at c \<and>
      fp_quantity p = held_before (ac_holdings c) (fp_at p) (2 * fp_pair p + 1) \<and>
      float_of_fraction (- fp_quantity p * fp_rate p * fp_mark p) = Inr (fp_amount p)"
      using ab p n down k(2) unfolding paid_once_def held [OF n] by blast
  qed
  moreover have "\<forall>p \<in> set (pr_funding r). ac_settlements a (payment_key p) = None \<and>
      ac_settlements c (payment_key p) = Some (fp_rate p, fp_mark p) \<and> fp_at p \<le> ac_last_at c \<and>
      fp_quantity p = held_before (ac_holdings c) (fp_at p) (2 * fp_pair p + 1) \<and>
      float_of_fraction (- fp_quantity p * fp_rate p * fp_mark p) = Inr (fp_amount p)"
  proof
    fix p assume p: "p \<in> set (pr_funding r)"
    then have n: "fp_at p \<le> now" using fresh(1) by blast
    show "ac_settlements a (payment_key p) = None \<and>
      ac_settlements c (payment_key p) = Some (fp_rate p, fp_mark p) \<and> fp_at p \<le> ac_last_at c \<and>
      fp_quantity p = held_before (ac_holdings c) (fp_at p) (2 * fp_pair p + 1) \<and>
      float_of_fraction (- fp_quantity p * fp_rate p * fp_mark p) = Inr (fp_amount p)"
      using k(4) p up k(2) unfolding settles_def held [OF n] by blast
  qed
  ultimately show ?thesis using dist unfolding paid_once_def set_append by blast
qed

lemma paper_run_payments:
  assumes "paper_run nsum ndot a ps c" and "account_reachable nsum ndot (ac_book a)" and "bot_ok (ac_bot a)"
  shows "paid_once a ps c"
  using assms
proof (induction rule: paper_run.induct)
  case (start a)
  then show ?case by (simp add: paid_once_def)
next
  case (command a ps b now r c)
  note b = paper_run_keeps [OF command.hyps(1) command.prems]
  then have k: "command_keeps nsum ndot now b r c" using paper_command_keeps [OF command.hyps(2)] by blast
  show ?case by (rule paid_once_command [OF command.IH [OF command.prems] _ k]) (use b in blast)
qed

text \<open>A new account.\<close>

lemma default_config_ok: "carry_config_post_init default_carry_config = Inr default_carry_config"
  by code_simp

lemma paper_account_init_facts:
  assumes "paper_account_init nsum s = Inr a"
  shows "account_reachable nsum ndot (ac_book a) \<and> bot_ok (ac_bot a) \<and> ac_settlements a = Map.empty \<and> ac_holdings a = []"
proof -
  obtain b where b: "book_zero nsum 4 (st_initial_capital s) None None = Inr b" and a: "ac_book a = b"
    "ac_bot a = carry_bot_init default_carry_config" "ac_settlements a = Map.empty" "ac_holdings a = []"
    using assms by (auto simp: paper_account_init_def bindr_Inr default_config_ok)
  obtain c where "account_post_init nsum None None c = Inr b" "bs_quantities c = replicate 4 (F 0)"
    using b by (auto simp: book_zero_def bindr_Inr)
  then have "account_reachable nsum ndot b" by (intro account_reachable.opened) (auto simp: list_all_iff rep_def)
  moreover have "is_f64 (cy_common_lot default_carry_config)" by (simp add: default_carry_config_def)
  ultimately show ?thesis by (simp add: a carry_bot_init_def bot_ok_def default_config_ok)
qed

text \<open>A report reads: on an account of a session it does not raise and changes nothing, and it says
  terminally flat exactly when no exact quantity and no decision is left.\<close>

lemma paper_status_reads:
  assumes "account_reachable nsum ndot (ac_book a)"
  obtains report where "paper_status nsum ndot a = Inr (report, a)"
    "rp_terminal_flat report \<longleftrightarrow> (\<forall>q \<in> set (exact_values (ac_book a)). q = 0) \<and> ac_pending a = None"
    "rp_exact report = map fraction_str (exact_values (ac_book a))"
  using quantity_values_shape [OF reachable_shape [OF assms]]
  by (auto simp: paper_status_def list_ex_iff)

end
