(* ===== verification/FundingEvidence.thy ===== *)
theory FundingEvidence
  imports Market
begin

text \<open>
  \<open>FundingBoundaryEvidence\<close> of \<open>trade_rl/simulation/diagnostics/funding.py\<close>: the inputs of one
  funding boundary, which the constructor recomputes.
\<close>

section \<open>Python's \<open>math.isclose\<close> and \<open>math.fsum\<close>\<close>

definition isclose :: "f64 \<Rightarrow> f64 \<Rightarrow> f64 \<Rightarrow> f64 \<Rightarrow> bool" where
  "isclose a b rel_tol abs_tol \<longleftrightarrow> feq a b \<or>
     (\<not> (a \<in> {PosInf, NegInf} \<or> b \<in> {PosInf, NegInf}) \<and>
      (let d = fabs (fsub b a) in
       fle d (fabs (fmul rel_tol b)) \<or> fle d (fabs (fmul rel_tol a)) \<or> fle d abs_tol))"

text \<open>
  \<open>fsum\<close> on any floats: an infinity or NaN among the items resets the partial sums and is summed
  apart; \<open>fsum_state\<close> holds the partials, that sum and the sum of the infinities.
\<close>

record fsum_state =
  fs_partials :: "f64 list"
  fs_special :: f64
  fs_infinite :: f64

definition math_fsum_step :: "fsum_state \<Rightarrow> f64 \<Rightarrow> fsum_state res" where
  "math_fsum_step s x = (if isfinite x
     then bindr (fsum_step (fs_partials s) x) (\<lambda>ps. Inr (s\<lparr>fs_partials := ps\<rparr>))
     else Inr \<lparr>fs_partials = [], fs_special = fadd (fs_special s) x,
       fs_infinite = (if x = NaN then fs_infinite s else fadd (fs_infinite s) x)\<rparr>)"

definition math_fsum :: "f64 list \<Rightarrow> f64 res" where
  "math_fsum xs =
     bindr (foldr_res math_fsum_step \<lparr>fs_partials = [], fs_special = F 0, fs_infinite = F 0\<rparr> xs) (\<lambda>s.
     if \<not> feq (fs_special s) (F 0)
     then (if fs_infinite s = NaN then Inl (value_error ''-inf + inf in fsum'') else Inr (fs_special s))
     else Inr (rnd (sum_list (map val (fs_partials s)))))"

section \<open>Evidence\<close>

record funding_evidence =
  fe_processing_index :: int
  fe_timestamp_ns :: int
  fe_due :: "bool list"
  fe_quantities :: "f64 list"
  fe_marks :: "f64 list"
  fe_multipliers :: "f64 list"
  fe_rates :: "f64 list"
  fe_amount :: f64
  fe_before :: f64
  fe_after :: f64
  fe_price_rates :: "f64 list option"

definition not_finite_positive :: "f64 \<Rightarrow> bool" where
  "not_finite_positive v \<longleftrightarrow> \<not> isfinite v \<or> fle v (F 0)"

text \<open>The payments of the symbols that are due, as the constructor recomputes them.\<close>

definition due_payments :: "funding_evidence \<Rightarrow> f64 list" where
  "due_payments e = (case fe_price_rates e of
      None \<Rightarrow> map (\<lambda>(d, q, m, k, r). fmul (fmul (fmul q m) k) r) (filter fst
        (zip (fe_due e) (zip (fe_quantities e) (zip (fe_marks e) (zip (fe_multipliers e) (fe_rates e))))))
    | Some rates \<Rightarrow> map (\<lambda>(d, q, k, r). fmul (fmul q k) r) (filter fst
        (zip (fe_due e) (zip (fe_quantities e) (zip (fe_multipliers e) rates)))))"

definition literal_1e_12 :: f64 where
  "literal_1e_12 = tolerance"

definition literal_1e_9 :: f64 where
  "literal_1e_9 = rnd (1 / 10 ^ 9)"

definition funding_vector_checks :: "funding_evidence \<Rightarrow> unit res" where
  "funding_vector_checks e = (let size = length (fe_due e) in checks [
     (fe_processing_index e < 0, value_error ''processing_index must be a non-negative integer''),
     (size = 0, value_error ''funding boundary evidence must contain at least one symbol''),
     (\<not> list_ex id (fe_due e), value_error ''funding boundary evidence requires at least one due symbol''),
     (list_ex (\<lambda>n. n \<noteq> size) [length (fe_quantities e), length (fe_marks e), length (fe_multipliers e), length (fe_rates e)],
        value_error ''funding boundary evidence vectors must have equal length''),
     (\<not> all_finite (fe_quantities e), value_error ''signed_quantities must be finite''),
     (list_ex not_finite_positive (fe_marks e), value_error ''mark_prices must be finite and positive''),
     (list_ex not_finite_positive (fe_multipliers e), value_error ''contract_multipliers must be finite and positive''),
     (\<not> all_finite (fe_rates e), value_error ''funding_rates must be finite''),
     (case fe_price_rates e of None \<Rightarrow> False | Some rs \<Rightarrow> length rs \<noteq> size,
        value_error ''funding_price_rates must match symbol count''),
     (case fe_price_rates e of None \<Rightarrow> False | Some rs \<Rightarrow> \<not> all_finite rs,
        value_error ''funding_price_rates must be finite''),
     (\<not> isfinite (fe_amount e), value_error ''funding_amount must be finite''),
     (\<not> isfinite (fe_before e), value_error ''equity_before_funding must be finite''),
     (\<not> isfinite (fe_after e), value_error ''equity_after_funding must be finite'')])"

definition funding_evidence_post_init :: "funding_evidence \<Rightarrow> funding_evidence res" where
  "funding_evidence_post_init e =
     bindr (funding_vector_checks e) (\<lambda>_.
     bindr (math_fsum (due_payments e)) (\<lambda>total.
     bindr (checks [
       (\<not> isclose (fe_amount e) (fneg total) literal_1e_12 literal_1e_12,
          value_error (if fe_price_rates e = None then ''funding_amount does not match boundary mark notional''
            else ''funding_amount does not match boundary event-price rates'')),
       (\<not> isclose (fe_after e) (fadd (fe_before e) (fe_amount e)) literal_1e_12 literal_1e_9,
          value_error ''funding boundary equity closure is inconsistent'')]) (\<lambda>_. Inr e)))"

end
