(* ===== verification/Runtime.thy ===== *)
theory Runtime
  imports FundingEvidence OrderEvents BarPath
begin

text \<open>
  \<open>StatefulExecutionRuntime\<close> of \<open>trade_rl/simulation/stateful/runtime.py\<close>: the state of one
  execution, its events and its totals.  The methods mutate the object; here they return it updated.
  \<open>rt_next_node\<close> is the identity the next archive node gets and \<open>rt_draws\<close> the number of calls of
  the random generator so far.
\<close>

record runtime =
  rt_book :: book
  rt_orders :: order_book
  rt_next_node :: nat
  rt_draws :: nat
  rt_events :: "order_event list"
  rt_capacities :: "capacity_evidence list"
  rt_funding_evidence :: "funding_evidence list"
  rt_starting_value :: f64
  rt_starting_rebalances :: int
  rt_requested :: f64
  rt_filled :: f64
  rt_filled_reference :: f64
  rt_cost :: f64
  rt_funding :: f64
  rt_borrow :: f64
  rt_dividend :: f64
  rt_interest :: f64
  rt_completed :: int
  rt_rejected :: int
  rt_expired :: int
  rt_fills :: int
  rt_max_participation :: f64
  rt_requested_by :: "f64 list"
  rt_filled_by :: "f64 list"
  rt_participation_by :: "f64 list"
  rt_cost_by :: "f64 list"

text \<open>\<open>values[i] = x\<close> of a numpy vector.\<close>

definition set_at :: "'a list \<Rightarrow> int \<Rightarrow> 'a \<Rightarrow> 'a list res" where
  "set_at values i x = (let n = int (length values); k = (if i < 0 then i + n else i)
     in if k < 0 \<or> n \<le> k then Inl (Raise IndexError ''index out of bounds'') else Inr (values[nat k := x]))"

definition timestamp_ns :: "executor \<Rightarrow> int \<Rightarrow> int res" where
  "timestamp_ns ex index = vec_at (mk_timestamps (ex_market ex)) index"

definition create_runtime :: "executor \<Rightarrow> nat \<Rightarrow> nat \<Rightarrow> book \<Rightarrow> order_book \<Rightarrow> runtime res" where
  "create_runtime ex new draws b orders = (let zeros = replicate (mk_symbols (ex_market ex)) (F 0) in
     bindr (clone_book (ex_nsum ex) b) (\<lambda>c. Inr
       \<lparr>rt_book = c, rt_orders = orders, rt_next_node = new, rt_draws = draws, rt_events = [], rt_capacities = [],
        rt_funding_evidence = [], rt_starting_value = F 0, rt_starting_rebalances = bs_rebalances c,
        rt_requested = F 0, rt_filled = F 0, rt_filled_reference = F 0, rt_cost = F 0, rt_funding = F 0,
        rt_borrow = F 0, rt_dividend = F 0, rt_interest = F 0, rt_completed = 0, rt_rejected = 0, rt_expired = 0,
        rt_fills = 0, rt_max_participation = F 0, rt_requested_by = zeros, rt_filled_by = zeros,
        rt_participation_by = zeros, rt_cost_by = zeros\<rparr>))"

section \<open>Events\<close>

text \<open>The optional keyword arguments of \<open>append_event\<close>, with their defaults.\<close>

record event_details =
  ed_filled_quantity :: f64
  ed_execution_price :: "f64 option"
  ed_filled_notional :: f64
  ed_capacity_before :: f64
  ed_capacity_after :: f64
  ed_participation :: f64
  ed_segment :: "trigger_segment option"
  ed_fraction :: f64
  ed_reason :: "string option"
  ed_path :: "bar_path option"

definition no_details :: event_details where
  "no_details = \<lparr>ed_filled_quantity = F 0, ed_execution_price = None, ed_filled_notional = F 0,
     ed_capacity_before = F 0, ed_capacity_after = F 0, ed_participation = F 0, ed_segment = None,
     ed_fraction = F 0, ed_reason = None, ed_path = None\<rparr>"

fun path_mode_value :: "path_mode \<Rightarrow> string" where
  "path_mode_value OPTIMISTIC = ''optimistic''"
| "path_mode_value NEUTRAL = ''neutral''"
| "path_mode_value CONSERVATIVE = ''conservative''"

fun segment_value :: "trigger_segment \<Rightarrow> string" where
  "segment_value OPEN = ''open''"
| "segment_value FIRST_EXTREME = ''first_extreme''"
| "segment_value SECOND_EXTREME = ''second_extreme''"
| "segment_value CLOSE = ''close''"

definition event_of ::
  "executor \<Rightarrow> runtime \<Rightarrow> pending_order \<Rightarrow> pending_order \<Rightarrow> string \<Rightarrow> int \<Rightarrow> int \<Rightarrow> event_details \<Rightarrow> order_event" where
  "event_of ex r previous updated event_type processing_index ts d = (let i = po_intent updated in
     \<lparr>oe_schema_version = ''order_event_v1'', oe_sequence = int (length (rt_events r)), oe_order_id = po_order_id updated,
      oe_replaced_order_id = oi_replaced_order_id i, oe_dataset_id = oi_dataset_id i,
      oe_execution_policy_digest = oi_execution_policy_digest i, oe_symbol_index = oi_symbol_index i,
      oe_event_type = event_type, oe_processing_index = processing_index, oe_timestamp_ns = ts,
      oe_previous_status = po_status previous, oe_new_status = po_status updated,
      oe_requested_quantity = oi_requested_quantity i, oe_remaining_quantity = po_remaining_quantity updated,
      oe_filled_quantity = ed_filled_quantity d, oe_execution_price = ed_execution_price d,
      oe_filled_notional = ed_filled_notional d, oe_capacity_before = ed_capacity_before d,
      oe_capacity_after = ed_capacity_after d, oe_participation_rate = ed_participation d,
      oe_trigger_segment = map_option segment_value (ed_segment d),
      oe_available_volume_fraction = ed_fraction d, oe_reason = ed_reason d,
      oe_path_mode = (case ed_path d of None \<Rightarrow> cc_path_mode (ex_cost ex) | Some p \<Rightarrow> path_mode_value (bp_mode p)),
      oe_path_points = (case ed_path d of None \<Rightarrow> [] | Some p \<Rightarrow> bp_points p),
      oe_reduce_only = oi_reduce_only i\<rparr>)"

definition append_event ::
  "executor \<Rightarrow> pending_order \<Rightarrow> pending_order \<Rightarrow> string \<Rightarrow> int \<Rightarrow> event_details \<Rightarrow> runtime \<Rightarrow> runtime res" where
  "append_event ex previous updated event_type processing_index d r =
     bindr (timestamp_ns ex processing_index) (\<lambda>ts.
     bindr (event_post_init (event_of ex r previous updated event_type processing_index ts d)) (\<lambda>e.
     Inr (r\<lparr>rt_events := rt_events r @ [e]\<rparr>)))"

text \<open>\<open>order_book.replace\<close>; a terminal order takes a fresh archive node.\<close>

definition replace_order :: "pending_order \<Rightarrow> runtime \<Rightarrow> runtime res" where
  "replace_order updated r = bindr (book_replace (rt_next_node r) updated (rt_orders r)) (\<lambda>ob.
     Inr (r\<lparr>rt_orders := ob, rt_next_node := Suc (rt_next_node r)\<rparr>))"

definition submit_intent :: "executor \<Rightarrow> runtime \<Rightarrow> order_intent \<Rightarrow> runtime res" where
  "submit_intent ex r intent =
     bindr (pending_from_intent intent) (\<lambda>p.
     bindr (add_generated [p] (rt_orders r)) (\<lambda>ob.
     append_event ex p p ''submitted'' (oi_submit_index intent) no_details (r\<lparr>rt_orders := ob\<rparr>)))"

definition submit_intents :: "executor \<Rightarrow> order_intent list \<Rightarrow> runtime \<Rightarrow> runtime res" where
  "submit_intents ex intents r = foldr_res (submit_intent ex) r intents"

section \<open>Requested notional\<close>

definition requested_step :: "runtime \<Rightarrow> pending_order \<Rightarrow> runtime res" where
  "requested_step r order = (let symbol = oi_symbol_index (po_intent order) in
     bindr (vec_at (bs_multipliers (rt_book r)) symbol) (\<lambda>multiplier.
     let notional = fmul (fmul (fabs (po_remaining_quantity order))
           (oi_submission_reference_price (po_intent order))) multiplier in
     bindr (checks [(\<not> feq (po_remaining_quantity order) (F 0) \<and> (\<not> isfinite notional \<or> feq notional (F 0)),
       value_error ''nonzero requested reference notional cannot be represented'')]) (\<lambda>_.
     bindr (vec_at (rt_requested_by r) symbol) (\<lambda>so_far.
     let requested = fadd (rt_requested r) notional; by_symbol = fadd so_far notional in
     bindr (checks [(\<not> isfinite requested \<or> \<not> isfinite by_symbol,
       value_error ''requested reference notional total became non-finite'')]) (\<lambda>_.
     bindr (set_at (rt_requested_by r) symbol by_symbol) (\<lambda>bys.
     Inr (r\<lparr>rt_requested := requested, rt_requested_by := bys\<rparr>)))))))"

definition initialize_metrics :: "executor \<Rightarrow> runtime \<Rightarrow> runtime res" where
  "initialize_metrics ex r = (let value = portfolio_value (ex_nsum ex) (rt_book r) in
     bindr (checks [(\<not> isfinite value \<or> not_positive value,
       value_error ''stateful execution requires positive starting equity'')]) (\<lambda>_.
     foldr_res requested_step (r\<lparr>rt_starting_value := value\<rparr>) (ob_active (rt_orders r))))"

section \<open>Funding boundaries\<close>

definition record_funding_boundary :: "executor \<Rightarrow> int \<Rightarrow> f64 \<Rightarrow> f64 \<Rightarrow> runtime \<Rightarrow> runtime res" where
  "record_funding_boundary ex processing_index funding_amount observed r = (let m = ex_market ex in
     bindr (vec_at (mk_funding_due m) processing_index) (\<lambda>due.
     if \<not> list_ex id due then Inr r
     else bindr (vec_at (mk_mark m) processing_index) (\<lambda>marks.
     bindr (vec_at (mk_funding_rate m) processing_index) (\<lambda>rates.
     let after = portfolio_value (ex_nsum ex) (rt_book r) in
     bindr (checks [(\<not> isclose after (fadd observed funding_amount) literal_1e_12 literal_1e_12,
       value_error ''funding book equity does not reconcile with pre-funding state'')]) (\<lambda>_.
     bindr (timestamp_ns ex processing_index) (\<lambda>ts.
     bindr (case mk_funding_price_rate m of None \<Rightarrow> Inr None
       | Some rows \<Rightarrow> bindr (vec_at rows processing_index) (\<lambda>row. Inr (Some row))) (\<lambda>price_rates.
     bindr (funding_evidence_post_init
       \<lparr>fe_processing_index = processing_index, fe_timestamp_ns = ts, fe_due = due,
        fe_quantities = bs_quantities (rt_book r), fe_marks = marks, fe_multipliers = mk_multipliers m,
        fe_rates = rates, fe_amount = funding_amount,
        fe_before = (if mk_funding_price_rate m \<noteq> None then observed else fsub after funding_amount),
        fe_after = after, fe_price_rates = price_rates\<rparr>) (\<lambda>e.
     Inr (r\<lparr>rt_funding_evidence := rt_funding_evidence r @ [e]\<rparr>)))))))))"

section \<open>Cancelling and finding orders\<close>

definition cancel_one :: "executor \<Rightarrow> int \<Rightarrow> string \<Rightarrow> runtime \<Rightarrow> pending_order \<Rightarrow> runtime res" where
  "cancel_one ex processing_index reason r order =
     bindr (cancel processing_index reason order) (\<lambda>updated.
     bindr (replace_order updated r) (\<lambda>r1.
     append_event ex order updated ''cancelled'' processing_index (no_details\<lparr>ed_reason := Some reason\<rparr>) r1))"

definition cancel_masked ::
  "executor \<Rightarrow> int \<Rightarrow> string \<Rightarrow> bool list option \<Rightarrow> runtime \<Rightarrow> pending_order \<Rightarrow> runtime res" where
  "cancel_masked ex processing_index reason symbol_mask r order =
     bindr (case symbol_mask of None \<Rightarrow> Inr True | Some m \<Rightarrow> vec_at m (oi_symbol_index (po_intent order))) (\<lambda>selected.
     if selected then cancel_one ex processing_index reason r order else Inr r)"

definition cancel_active_orders ::
  "executor \<Rightarrow> int \<Rightarrow> string \<Rightarrow> bool list option \<Rightarrow> runtime \<Rightarrow> runtime res" where
  "cancel_active_orders ex processing_index reason symbol_mask r =
     foldr_res (cancel_masked ex processing_index reason symbol_mask) r (ob_active (rt_orders r))"

definition active_order :: "string \<Rightarrow> runtime \<Rightarrow> pending_order option" where
  "active_order order_id r = find (\<lambda>p. po_order_id p = order_id) (ob_active (rt_orders r))"

definition require_active_order :: "string \<Rightarrow> runtime \<Rightarrow> pending_order res" where
  "require_active_order order_id r = (case active_order order_id r of
      None \<Rightarrow> Inl (Raise StopIteration []) | Some p \<Rightarrow> Inr p)"

section \<open>The result\<close>

record stateful_result =
  sr_book :: book
  sr_order_book :: order_book
  sr_next_index :: int
  sr_bars_advanced :: int
  sr_order_events :: "order_event list"
  sr_capacity_evidence :: "capacity_evidence list"
  sr_funding_evidence :: "funding_evidence list"
  sr_interval_cost :: f64
  sr_interval_funding :: f64
  sr_interval_borrow_cost :: f64
  sr_interval_dividend :: f64
  sr_interval_cash_interest :: f64
  sr_gross_return :: f64
  sr_net_return :: f64
  sr_log_return :: f64
  sr_requested_notional :: f64
  sr_filled_notional :: f64
  sr_requested_turnover :: f64
  sr_filled_turnover :: f64
  sr_unfilled_turnover :: f64
  sr_fill_ratio :: f64
  sr_rebalance_events :: int
  sr_completed_fill_count :: int
  sr_rejected_count :: int
  sr_expired_count :: int
  sr_fill_count :: int
  sr_max_participation :: f64
  sr_requested_by :: "f64 list"
  sr_filled_by :: "f64 list"
  sr_participation_by :: "f64 list"
  sr_cost_by :: "f64 list"
  sr_termination_reason :: "termination_reason option"

definition loss_floor :: f64 where
  "loss_floor = fadd (F (-1)) tolerance"

definition interval_returns :: "executor \<Rightarrow> runtime \<Rightarrow> (f64 \<times> f64 \<times> f64) res" where
  "interval_returns ex r = (let value = portfolio_value (ex_nsum ex) (rt_book r);
       ending = (if retain_debt ex then value else fmax value (F 0));
       gross_value = fsub (fsub (fadd (fsub (fadd ending (rt_cost r)) (rt_funding r)) (rt_borrow r)) (rt_dividend r)) (rt_interest r)
     in bindr (py_div ending (rt_starting_value r)) (\<lambda>ratio.
     bindr (py_div gross_value (rt_starting_value r)) (\<lambda>gross_ratio.
     let raw = fsub ratio (F 1); net = (if retain_debt ex then raw else fmax raw loss_floor);
         gross = fsub gross_ratio (F 1) in
     if \<not> isfinite gross then Inl (value_error ''stateful gross return became non-finite'')
     else Inr (gross, net, ex_log1p ex (fmax net loss_floor)))))"

definition result_payload :: "executor \<Rightarrow> int \<Rightarrow> int \<Rightarrow> runtime \<Rightarrow> stateful_result res" where
  "result_payload ex start_index bars r =
     bindr (interval_returns ex r) (\<lambda>(gross, net, log_return).
     let base = fmax (rt_starting_value r) tolerance in
     bindr (py_div (rt_requested r) base) (\<lambda>requested_turnover.
     bindr (py_div (rt_filled r) base) (\<lambda>filled_turnover.
     bindr (py_div (rt_filled_reference r) base) (\<lambda>reference_turnover.
     bindr (if feq (rt_requested r) (F 0) then Inr (F 1)
       else bindr (py_div (rt_filled_reference r) (rt_requested r)) (\<lambda>q. Inr (fmin (F 1) q))) (\<lambda>ratio.
     Inr \<lparr>sr_book = rt_book r, sr_order_book = rt_orders r, sr_next_index = start_index + bars,
       sr_bars_advanced = bars, sr_order_events = rt_events r, sr_capacity_evidence = rt_capacities r,
       sr_funding_evidence = rt_funding_evidence r, sr_interval_cost = rt_cost r,
       sr_interval_funding = rt_funding r, sr_interval_borrow_cost = rt_borrow r,
       sr_interval_dividend = rt_dividend r, sr_interval_cash_interest = rt_interest r,
       sr_gross_return = gross, sr_net_return = net, sr_log_return = log_return,
       sr_requested_notional = rt_requested r, sr_filled_notional = rt_filled r,
       sr_requested_turnover = requested_turnover, sr_filled_turnover = filled_turnover,
       sr_unfilled_turnover = fmax (F 0) (fsub requested_turnover reference_turnover), sr_fill_ratio = ratio,
       sr_rebalance_events = bs_rebalances (rt_book r) - rt_starting_rebalances r,
       sr_completed_fill_count = rt_completed r, sr_rejected_count = rt_rejected r,
       sr_expired_count = rt_expired r, sr_fill_count = rt_fills r, sr_max_participation = rt_max_participation r,
       sr_requested_by = rt_requested_by r, sr_filled_by = rt_filled_by r,
       sr_participation_by = rt_participation_by r, sr_cost_by = rt_cost_by r,
       sr_termination_reason = bs_termination (rt_book r)\<rparr>)))))"

end
