(* ===== verification/BarLifecycle.thy ===== *)
theory BarLifecycle
  imports Runtime
begin

text \<open>
  \<open>StatefulBarLifecycle\<close> of \<open>trade_rl/simulation/stateful/bar_lifecycle.py\<close>: the accounting
  before and after the fills of one bar.  A call on \<open>runtime.book\<close> is the account operation, with
  the account stored back.
\<close>

record bar_context =
  bc_previous_index :: int
  bc_processing_index :: int
  bc_period_start_value :: f64
  bc_open_prices :: "f64 list"
  bc_tick_size :: "f64 list"
  bc_lot_size :: "f64 list"
  bc_minimum_notional :: "f64 list"
  bc_year_fraction :: f64
  bc_gap_delta :: f64

definition absorbed :: "executor \<Rightarrow> runtime \<Rightarrow> bool" where
  "absorbed ex r \<longleftrightarrow> retain_debt ex \<and> bs_insolvent (rt_book r)"

definition set_book :: "book \<Rightarrow> runtime \<Rightarrow> runtime" where
  "set_book b r = r\<lparr>rt_book := b\<rparr>"

definition flatten_runtime :: "executor \<Rightarrow> f64 list \<Rightarrow> runtime \<Rightarrow> runtime" where
  "flatten_runtime ex prices r = set_book (flatten_after_termination ex (rt_book r) prices) r"

text \<open>The year fraction of the bar itself and of the gap before it.\<close>

definition year_fractions :: "executor \<Rightarrow> int \<Rightarrow> int \<Rightarrow> (f64 \<times> f64) res" where
  "year_fractions ex previous_index processing_index = (let m = ex_market ex in
     bindr (elapsed_hours m previous_index processing_index) (\<lambda>hours.
     bindr (elapsed_year_fraction m previous_index processing_index) (\<lambda>years.
     if fle hours (fadd (mk_bar_hours m) tolerance) then Inr (years, F 0)
     else bindr (py_div (fmul years (mk_bar_hours m)) hours) (\<lambda>processing. Inr (processing, fsub years processing)))))"

text \<open>Interest and borrow cost of the gap: the change of cash and the runtime.\<close>

definition gap_carry :: "executor \<Rightarrow> int \<Rightarrow> f64 \<Rightarrow> runtime \<Rightarrow> (f64 \<times> runtime) res" where
  "gap_carry ex index gap r = (let nsum = ex_nsum ex in
     bindr (vec_at (mk_cash_rate (ex_market ex)) index) (\<lambda>rate.
     bindr (apply_cash_interest nsum rate None (Some gap) (rt_book r)) (\<lambda>(interest, b1).
     bindr (if retain_debt ex \<and> bs_insolvent b1 then Inr (rt_borrow r, b1)
       else bindr (charge_borrow_at ex index gap b1) (\<lambda>(borrow, b2). Inr (fadd (rt_borrow r) borrow, b2))) (\<lambda>(borrow, b2).
     Inr (fsub (bs_cash b2) (bs_cash (rt_book r)),
       r\<lparr>rt_book := update_drawdown nsum False b2, rt_interest := fadd (rt_interest r) interest, rt_borrow := borrow\<rparr>)))))"

definition split_mask :: "f64 list \<Rightarrow> bool list" where
  "split_mask split = map (\<lambda>s. flt tolerance (fabs (fsub s (F 1)))) split"

definition adjust_splits :: "executor \<Rightarrow> int \<Rightarrow> runtime \<Rightarrow> runtime res" where
  "adjust_splits ex index r =
     bindr (vec_at (mk_split (ex_market ex)) index) (\<lambda>split.
     if \<not> list_ex (\<lambda>s. \<not> feq s (F 1)) split then Inr r
     else bindr (if list_ex id (split_mask split)
         then cancel_active_orders ex index ''split_adjustment_required'' (Some (split_mask split)) r else Inr r) (\<lambda>r1.
       bindr (apply_split (ex_nsum ex) split (rt_book r1)) (\<lambda>b. Inr (set_book b r1))))"

definition settle_inactive :: "executor \<Rightarrow> int \<Rightarrow> runtime \<Rightarrow> runtime res" where
  "settle_inactive ex index r = (let m = ex_market ex in
     bindr (vec_at (mk_active m) index) (\<lambda>active.
     let inactive = map Not active in
     if \<not> list_ex id inactive then Inr r
     else bindr (cancel_active_orders ex index ''inactive_asset'' (Some inactive) r) (\<lambda>r1.
       if list_ex (\<lambda>(i, q). i \<and> flt tolerance (fabs q)) (zip inactive (bs_quantities (rt_book r1)))
       then bindr (vec_at (mk_open m) index) (\<lambda>prices.
         bindr (vec_at (mk_recovery m) index) (\<lambda>recovery.
         bindr (settle_positions (ex_nsum ex) inactive prices recovery (rt_book r1)) (\<lambda>(_, b). Inr (set_book b r1))))
       else Inr r1)))"

definition cancel_and_flatten :: "executor \<Rightarrow> int \<Rightarrow> f64 list \<Rightarrow> runtime \<Rightarrow> runtime res" where
  "cancel_and_flatten ex index prices r =
     bindr (cancel_active_orders ex index ''economic_termination'' None r) (\<lambda>r1. Inr (flatten_runtime ex prices r1))"

text \<open>Revaluation at the open; after a gap the margin is checked as well.\<close>

definition revalue_open :: "executor \<Rightarrow> int \<Rightarrow> f64 \<Rightarrow> f64 list \<Rightarrow> runtime \<Rightarrow> runtime res" where
  "revalue_open ex index gap prices r =
     bindr (revalue (ex_nsum ex) prices (rt_book r)) (\<lambda>b.
     let r1 = set_book (update_drawdown (ex_nsum ex) False b) r in
     if \<not> flt (F 0) gap then Inr r1
     else bindr (update_margin ex (rt_book r1)) (\<lambda>b2.
       if bs_insolvent b2 then cancel_and_flatten ex index prices (set_book b2 r1) else Inr (set_book b2 r1)))"

definition bar_context_of ::
  "executor \<Rightarrow> int \<Rightarrow> int \<Rightarrow> f64 \<Rightarrow> f64 list \<Rightarrow> f64 \<Rightarrow> f64 \<Rightarrow> bar_context res" where
  "bar_context_of ex previous_index processing_index start_value prices years delta =
     bindr (effective_rules ex processing_index) (\<lambda>(tick, lot, minimum). Inr
       \<lparr>bc_previous_index = previous_index, bc_processing_index = processing_index,
        bc_period_start_value = start_value, bc_open_prices = prices, bc_tick_size = tick, bc_lot_size = lot,
        bc_minimum_notional = minimum, bc_year_fraction = years, bc_gap_delta = delta\<rparr>)"

definition begin_bar :: "executor \<Rightarrow> int \<Rightarrow> int \<Rightarrow> runtime \<Rightarrow> (bar_context \<times> runtime) res" where
  "begin_bar ex previous_index processing_index r =
    (let start_value = fmax (portfolio_value (ex_nsum ex) (rt_book r)) tolerance;
         context = bar_context_of ex previous_index processing_index start_value in
     bindr (year_fractions ex previous_index processing_index) (\<lambda>(years, gap).
     bindr (if flt (F 0) gap then gap_carry ex processing_index gap r else Inr (F 0, r)) (\<lambda>(delta, r1).
     if flt (F 0) gap \<and> absorbed ex r1
     then bindr (context (bs_marks (rt_book r1)) years delta) (\<lambda>c. Inr (c, r1))
     else bindr (adjust_splits ex processing_index r1) (\<lambda>r2.
       bindr (settle_inactive ex processing_index r2) (\<lambda>r3.
       bindr (vec_at (mk_open (ex_market ex)) processing_index) (\<lambda>prices.
       bindr (revalue_open ex processing_index gap prices r3) (\<lambda>r4.
       bindr (context prices years delta) (\<lambda>c. Inr (c, r4)))))))))"

section \<open>The end of a bar\<close>

definition processing_cash_interest :: "executor \<Rightarrow> bar_context \<Rightarrow> runtime \<Rightarrow> (f64 \<times> book) res" where
  "processing_cash_interest ex c r = (let b = rt_book r; nsum = ex_nsum ex in
     bindr (vec_at (mk_cash_rate (ex_market ex)) (bc_processing_index c)) (\<lambda>rate.
     if fle (fabs (bc_gap_delta c)) tolerance
     then apply_cash_interest nsum rate None (Some (bc_year_fraction c)) b
     else bindr (cash_interest_amount (fsub (bs_cash b) (bc_gap_delta c)) rate (bc_year_fraction c)) (\<lambda>amount.
       bindr (revalue nsum (bs_marks b) (b\<lparr>bs_cash := fadd (bs_cash b) amount\<rparr>)) (\<lambda>b1. Inr (amount, b1)))))"

text \<open>\<open>_finish_retained_termination\<close>: \<open>None\<close> where it returns \<open>False\<close>.\<close>

definition finish_retained_termination :: "executor \<Rightarrow> bar_context \<Rightarrow> runtime \<Rightarrow> runtime option res" where
  "finish_retained_termination ex c r = (if \<not> absorbed ex r then Inr None
     else bindr (cancel_and_flatten ex (bc_processing_index c) (bs_marks (rt_book r)) r) (\<lambda>r1.
       bindr (mark_to_market (ex_nsum ex) (bs_marks (rt_book r1)) (F 0) (Some (bc_period_start_value c)) True (rt_book r1))
         (\<lambda>(_, b). Inr (Some (set_book b r1)))))"

text \<open>The phase after a possible early return.\<close>

definition unless_terminated ::
  "executor \<Rightarrow> bar_context \<Rightarrow> runtime \<Rightarrow> (runtime \<Rightarrow> runtime res) \<Rightarrow> runtime res" where
  "unless_terminated ex c r continue = bindr (finish_retained_termination ex c r) (\<lambda>finished.
     case finished of Some r1 \<Rightarrow> Inr r1 | None \<Rightarrow> continue r)"

definition mark_and_fund :: "executor \<Rightarrow> bar_context \<Rightarrow> f64 \<Rightarrow> runtime \<Rightarrow> runtime res" where
  "mark_and_fund ex c funding r = (let nsum = ex_nsum ex; m = ex_market ex; index = bc_processing_index c in
     bindr (vec_at (mk_mark m) index) (\<lambda>marks.
     let observed = fadd (bs_cash (rt_book r))
           (nsum (vmul (vmul (bs_quantities (rt_book r)) marks) (bs_multipliers (rt_book r)))) in
     bindr (mark_to_market nsum marks funding (Some (bc_period_start_value c)) (retain_debt ex) (rt_book r)) (\<lambda>(_, b).
     bindr (record_funding_boundary ex index funding observed (set_book b r)) (\<lambda>r1.
     bindr (update_margin ex (rt_book r1)) (\<lambda>b2.
     if bs_insolvent b2 then cancel_and_flatten ex index marks (set_book b2 r1) else Inr (set_book b2 r1))))))"

definition finish_bar :: "executor \<Rightarrow> bar_context \<Rightarrow> runtime \<Rightarrow> runtime res" where
  "finish_bar ex c r = (let nsum = ex_nsum ex; m = ex_market ex; index = bc_processing_index c in
     unless_terminated ex c r (\<lambda>r0.
     bindr (if bs_insolvent (rt_book r0) then cancel_and_flatten ex index (bc_open_prices c) r0 else Inr r0) (\<lambda>r1.
     bindr (vec_at (mk_dividend m) index) (\<lambda>dividend_row.
     bindr (apply_dividend nsum (ex_ndot ex) dividend_row (rt_book r1)) (\<lambda>(dividend, b1).
     unless_terminated ex c (r1\<lparr>rt_book := b1, rt_dividend := fadd (rt_dividend r1) dividend\<rparr>) (\<lambda>r2.
     bindr (processing_cash_interest ex c r2) (\<lambda>(interest, b2).
     unless_terminated ex c (r2\<lparr>rt_book := b2, rt_interest := fadd (rt_interest r2) interest\<rparr>) (\<lambda>r3.
     bindr (charge_carry ex index (bc_year_fraction c) (rt_book r3)) (\<lambda>(funding, borrow, b3).
     unless_terminated ex c (r3\<lparr>rt_book := b3, rt_borrow := fadd (rt_borrow r3) borrow\<rparr>) (\<lambda>r4.
     mark_and_fund ex c funding (r4\<lparr>rt_funding := fadd (rt_funding r4) funding\<rparr>)))))))))))"

end
