(* ===== verification/OrderTransitions.thy ===== *)
theory OrderTransitions
  imports BarLifecycle Admission
begin

text \<open>
  \<open>trade_rl/simulation/stateful/order_transitions.py\<close>: the admission of the active orders of a bar
  against a projected account, and the expiry of what is left of the attempted ones.
\<close>

section \<open>The projected account\<close>

record projection =
  pj_quantities :: "f64 list"
  pj_cash :: f64
  pj_marks :: "f64 list"
  pj_multipliers :: "f64 list"
  pj_insolvent :: bool

definition projected_positions :: "projection \<Rightarrow> f64 list" where
  "projected_positions j = vmul (vmul (pj_quantities j) (pj_marks j)) (pj_multipliers j)"

definition projected_value :: "(f64 list \<Rightarrow> f64) \<Rightarrow> projection \<Rightarrow> f64" where
  "projected_value nsum j = fadd (pj_cash j) (nsum (projected_positions j))"

definition project_book :: "(f64 list \<Rightarrow> f64) \<Rightarrow> book \<Rightarrow> f64 list \<Rightarrow> projection res" where
  "project_book nsum b mark_prices =
    (let j = \<lparr>pj_quantities = bs_quantities b, pj_cash = bs_cash b, pj_marks = mark_prices,
           pj_multipliers = bs_multipliers b, pj_insolvent = bs_insolvent b\<rparr>;
         equity = projected_value nsum j
     in if \<not> isfinite equity then Inl (value_error ''portfolio value became non-finite'')
        else Inr (j\<lparr>pj_insolvent := bs_insolvent b \<or> fle equity (F 0)\<rparr>))"

definition apply_admitted_order ::
  "(f64 list \<Rightarrow> f64) \<Rightarrow> int \<Rightarrow> f64 \<Rightarrow> f64 \<Rightarrow> projection \<Rightarrow> projection res" where
  "apply_admitted_order nsum symbol quantity price j =
     bindr (add_at (pj_quantities j) symbol quantity) (\<lambda>quantities.
     bindr (vec_at (pj_multipliers j) symbol) (\<lambda>multiplier.
     let k = j\<lparr>pj_quantities := quantities, pj_cash := fsub (pj_cash j) (fmul (fmul quantity price) multiplier)\<rparr>;
         equity = projected_value nsum k
     in if \<not> isfinite equity then Inl (value_error ''portfolio value became non-finite'')
        else Inr (if \<not> pj_insolvent k \<and> fle equity (F 0) then k\<lparr>pj_insolvent := True\<rparr> else k)))"

definition projection_view :: "(f64 list \<Rightarrow> f64) \<Rightarrow> projection \<Rightarrow> book_view" where
  "projection_view nsum j = \<lparr>bv_quantities = pj_quantities j, bv_multipliers = pj_multipliers j,
     bv_portfolio_value = projected_value nsum j, bv_insolvent = pj_insolvent j, bv_exact = None\<rparr>"

section \<open>Moving one order\<close>

text \<open>
  Every transition ends the same way: the order book takes the updated order and an event records it.
\<close>

definition settle_order ::
  "executor \<Rightarrow> pending_order \<Rightarrow> pending_order \<Rightarrow> string \<Rightarrow> int \<Rightarrow> event_details \<Rightarrow> runtime \<Rightarrow> runtime res" where
  "settle_order ex previous updated event_type index d r =
     bindr (replace_order updated r) (append_event ex previous updated event_type index d)"

definition expire_order :: "executor \<Rightarrow> int \<Rightarrow> string \<Rightarrow> pending_order \<Rightarrow> runtime \<Rightarrow> runtime res" where
  "expire_order ex index reason order r =
     bindr (expire index reason order) (\<lambda>updated.
     settle_order ex order updated ''expired'' index (no_details\<lparr>ed_reason := po_terminal_reason updated\<rparr>)
       (r\<lparr>rt_expired := rt_expired r + 1\<rparr>))"

definition reject_order :: "executor \<Rightarrow> int \<Rightarrow> string \<Rightarrow> pending_order \<Rightarrow> runtime \<Rightarrow> runtime res" where
  "reject_order ex index reason order r =
     bindr (reject index reason order) (\<lambda>updated.
     settle_order ex order updated ''rejected'' index (no_details\<lparr>ed_reason := po_terminal_reason updated\<rparr>)
       (r\<lparr>rt_rejected := rt_rejected r + 1\<rparr>))"

definition wait_order :: "executor \<Rightarrow> int \<Rightarrow> pending_order \<Rightarrow> runtime \<Rightarrow> runtime res" where
  "wait_order ex index order r =
     bindr (mark_latency_wait index order) (\<lambda>updated.
     settle_order ex order updated ''latency_wait'' index (no_details\<lparr>ed_reason := Some ''latency_wait''\<rparr>) r)"

definition refuse_order :: "executor \<Rightarrow> int \<Rightarrow> string \<Rightarrow> pending_order \<Rightarrow> runtime \<Rightarrow> runtime res" where
  "refuse_order ex index reason order r =
    (if po_status order \<in> {TRIGGERED, PARTIALLY_FILLED} then expire_order ex index reason order r
     else reject_order ex index reason order r)"

definition make_eligible :: "executor \<Rightarrow> int \<Rightarrow> pending_order \<Rightarrow> runtime \<Rightarrow> (pending_order \<times> runtime) res" where
  "make_eligible ex index order r = (if po_status order \<notin> {SUBMITTED, LATENCY_WAIT} then Inr (order, r)
     else bindr (mark_eligible index order) (\<lambda>current.
       bindr (settle_order ex order current ''eligible'' index no_details r) (\<lambda>r1. Inr (current, r1))))"

section \<open>Admission of a bar's orders\<close>

definition executor_admission :: "executor \<Rightarrow> admission_policy res" where
  "executor_admission ex = bindr (policy_digest ex) (\<lambda>d. admission_policy_post_init
     \<lparr>ap_dataset_id = mk_dataset_id (ex_market ex), ap_digest = d, ap_allow_short = cc_allow_short (ex_cost ex),
      ap_max_leverage = cc_max_leverage (ex_cost ex)\<rparr>)"

text \<open>The state of the loop of \<open>prepare_orders\<close>.\<close>

record preparation =
  pp_runtime :: runtime
  pp_projection :: projection
  pp_remaining :: "rat list"
  pp_accepted :: "pending_order list"

definition over_cap :: "executor \<Rightarrow> admission_policy \<Rightarrow> projection \<Rightarrow> bool" where
  "over_cap ex pol j = (let equity = projected_value (ex_nsum ex) j; gross = ex_nsum ex (map fabs (projected_positions j)) in
     \<not> pj_insolvent j \<and> isfinite equity \<and> flt tolerance equity \<and> isfinite gross \<and>
     flt (fadd (fmul equity (ap_max_leverage pol)) tolerance) gross)"

definition admission_inputs_of ::
  "executor \<Rightarrow> bar_context \<Rightarrow> rat \<Rightarrow> bool \<Rightarrow> pending_order \<Rightarrow> admission_inputs res" where
  "admission_inputs_of ex c position over order =
    (let m = ex_market ex; index = bc_processing_index c; symbol = oi_symbol_index (po_intent order);
         rule = market_order_rule ex symbol in
     bindr (cell (mk_active m) index symbol) (\<lambda>active.
     bindr (cell (mk_tradable m) index symbol) (\<lambda>tradable.
     bindr (cell (mk_buy_allowed m) index symbol) (\<lambda>buy.
     bindr (cell (mk_sell_allowed m) index symbol) (\<lambda>sell.
     bindr (cell (mk_borrow_available m) index symbol) (\<lambda>borrow.
     bindr (vec_at (bc_tick_size c) symbol) (\<lambda>tick.
     bindr (vec_at (bc_lot_size c) symbol) (\<lambda>lot.
     bindr (vec_at (bc_minimum_notional c) symbol) (\<lambda>minimum. Inr
       \<lparr>ai_remaining = Some (po_remaining_quantity order), ai_processing_index = index, ai_asset_active = active,
        ai_tradable = tradable, ai_buy_allowed = buy, ai_sell_allowed = sell, ai_borrow_available = borrow,
        ai_tick_size = tick, ai_lot_size = lot,
        ai_minimum_notional = order_minimum_notional ex (po_intent order) minimum,
        ai_reference_prices = bc_open_prices c, ai_actual_position = Some position,
        ai_minimum_quantity = (case rule of None \<Rightarrow> F 0 | Some x \<Rightarrow> mr_minimum_quantity x),
        ai_maximum_quantity = map_option mr_maximum_quantity rule, ai_market_only = (rule \<noteq> None),
        ai_allow_over_cap = over\<rparr>)))))))))"

text \<open>The inventory an admitted reduce-only order reserves while the account is over its leverage cap.\<close>

definition reserve_inventory ::
  "bar_context \<Rightarrow> pending_order \<Rightarrow> admission_decision \<Rightarrow> rat list \<Rightarrow> rat list res" where
  "reserve_inventory c order d remaining_positions = (let symbol = oi_symbol_index (po_intent order) in
     bindr (vec_at remaining_positions symbol) (\<lambda>remaining.
     bindr (vec_at (bc_lot_size c) symbol) (\<lambda>lot.
     bindr (if feq lot (F 0) then bindr (project_quantity remaining) (\<lambda>p. Inr (feq (ad_quantity d) (fneg p)))
       else Inr False) (\<lambda>closes.
     set_at remaining_positions symbol (if closes then 0 else remaining + ad_exact d)))))"

definition is_closing :: "f64 \<Rightarrow> f64 \<Rightarrow> bool" where
  "is_closing position admitted \<longleftrightarrow> flt (fmul position admitted) (F 0) \<and> fle (fabs admitted) (fabs position)"

definition accept_order ::
  "executor \<Rightarrow> bar_context \<Rightarrow> bool \<Rightarrow> pending_order \<Rightarrow> admission_decision \<Rightarrow> preparation \<Rightarrow> preparation res" where
  "accept_order ex c over order d p = (let symbol = oi_symbol_index (po_intent order); admitted = ad_quantity d in
     bindr (make_eligible ex (bc_processing_index c) order (pp_runtime p)) (\<lambda>(current, r).
     bindr (vec_at (pj_quantities (pp_projection p)) symbol) (\<lambda>position.
     bindr (if over \<and> oi_reduce_only (po_intent order) then reserve_inventory c order d (pp_remaining p)
       else Inr (pp_remaining p)) (\<lambda>remaining.
     bindr (if is_closing position admitted then Inr (pp_projection p)
       else bindr (vec_at (bc_open_prices c) symbol) (\<lambda>price.
         apply_admitted_order (ex_nsum ex) symbol admitted price (pp_projection p))) (\<lambda>j.
     Inr \<lparr>pp_runtime = r, pp_projection = j, pp_remaining = remaining, pp_accepted = pp_accepted p @ [current]\<rparr>)))))"

definition admit_order ::
  "executor \<Rightarrow> admission_policy \<Rightarrow> bar_context \<Rightarrow> bool \<Rightarrow> rat list \<Rightarrow> preparation \<Rightarrow> pending_order \<Rightarrow> preparation res" where
  "admit_order ex pol c over actual_positions p order = (let symbol = oi_symbol_index (po_intent order) in
     bindr (vec_at (if over then pp_remaining p else actual_positions) symbol) (\<lambda>position.
     bindr (admission_inputs_of ex c position over order) (\<lambda>a.
     bindr (evaluate_admission (ex_nsum ex) pol (po_intent order) (projection_view (ex_nsum ex) (pp_projection p)) a) (\<lambda>d.
     if ad_accepted d then accept_order ex c over order d p
     else bindr (refuse_order ex (bc_processing_index c)
         (case ad_reason d of None \<Rightarrow> ''admission_rejected'' | Some m \<Rightarrow> if m = [] then ''admission_rejected'' else m)
         order (pp_runtime p)) (\<lambda>r. Inr (p\<lparr>pp_runtime := r\<rparr>))))))"

definition past_expiry :: "int \<Rightarrow> order_intent \<Rightarrow> bool" where
  "past_expiry index i = (case oi_expiry_index i of None \<Rightarrow> False | Some e \<Rightarrow> e < index)"

definition prepare_order ::
  "executor \<Rightarrow> admission_policy \<Rightarrow> bar_context \<Rightarrow> bool \<Rightarrow> rat list \<Rightarrow> preparation \<Rightarrow> pending_order \<Rightarrow> preparation res" where
  "prepare_order ex pol c over actual_positions p order = (let index = bc_processing_index c; i = po_intent order in
     if past_expiry index i
     then bindr (expire_order ex index ''time_in_force_expired'' order (pp_runtime p)) (\<lambda>r. Inr (p\<lparr>pp_runtime := r\<rparr>))
     else if index < oi_eligible_index i
     then bindr (wait_order ex index order (pp_runtime p)) (\<lambda>r. Inr (p\<lparr>pp_runtime := r\<rparr>))
     else admit_order ex pol c over actual_positions p order)"

definition admission_key :: "pending_order \<Rightarrow> int \<times> string" where
  "admission_key p = (oi_eligible_index (po_intent p), po_order_id p)"

text \<open>Reading \<open>exact_quantities\<close> also stores the strings it returns.\<close>

definition read_exact :: "runtime \<Rightarrow> (rat list \<times> runtime) res" where
  "read_exact r = bindr (quantity_values (rt_book r)) (\<lambda>(values, b). Inr (values, set_book b r))"

definition prepare_orders ::
  "executor \<Rightarrow> admission_policy \<Rightarrow> bar_context \<Rightarrow> runtime \<Rightarrow> (pending_order list \<times> runtime) res" where
  "prepare_orders ex pol c r = (if ob_active (rt_orders r) = []
     then (if bs_insolvent (rt_book r) then bindr (read_exact r) (\<lambda>(_, r1). Inr ([], r1)) else Inr ([], r))
     else bindr (read_exact r) (\<lambda>(actual_positions, r1).
       bindr (project_book (ex_nsum ex) (rt_book r1) (bc_open_prices c)) (\<lambda>j.
       bindr (foldr_res (prepare_order ex pol c (over_cap ex pol j) actual_positions)
         \<lparr>pp_runtime = r1, pp_projection = j, pp_remaining = actual_positions, pp_accepted = []\<rparr>
         (sort_key admission_key (ob_active (rt_orders r1)))) (\<lambda>p.
       Inr (pp_accepted p, pp_runtime p)))))"

section \<open>Expiry after the fills\<close>

definition remainder_reason :: "executor \<Rightarrow> pending_order \<Rightarrow> string option" where
  "remainder_reason ex order =
    (if oi_time_in_force (po_intent order) = IOC then Some ''ioc_remainder''
     else if \<not> cc_partial_carry (ex_cost ex) \<and> po_status order = PARTIALLY_FILLED
     then Some ''partial_fill_carry_disabled'' else None)"

definition expire_attempted :: "executor \<Rightarrow> int \<Rightarrow> runtime \<Rightarrow> string \<Rightarrow> runtime res" where
  "expire_attempted ex index r order_id = (case active_order order_id r of
      None \<Rightarrow> Inr r
    | Some order \<Rightarrow> (case remainder_reason ex order of
        None \<Rightarrow> Inr r | Some reason \<Rightarrow> expire_order ex index reason order r))"

definition expire_attempted_remainders :: "executor \<Rightarrow> int \<Rightarrow> string list \<Rightarrow> runtime \<Rightarrow> runtime res" where
  "expire_attempted_remainders ex index attempted r = foldr_res (expire_attempted ex index) r (sort (remdups attempted))"

end
