(* ===== verification/SymbolFills.thy ===== *)
theory SymbolFills
  imports OrderTransitions
begin

text \<open>
  \<open>trade_rl/simulation/stateful/symbol_fills.py\<close>: the trigger path of a bar, the requests of the
  accepted orders of each symbol, the shared capacity and the fills.
\<close>

section \<open>Square roots\<close>

text \<open>
  \<open>math.sqrt\<close> is correctly rounded.  The argument is scaled by \<open>4 ^ 600\<close>, where it is an
  integer of more than 120 bits; half a unit is added to a root that is not exact.
\<close>

definition isqrt :: "int \<Rightarrow> int" where
  "isqrt m = (case lot_search (\<lambda>n. Inr (n * n \<le> m)) 0 m of Inr n \<Rightarrow> n | Inl _ \<Rightarrow> 0)"

definition scaled_root :: "int \<Rightarrow> rat" where
  "scaled_root m = (let s = isqrt m in if s * s = m then of_int s else of_int s + 1 / 2)"

definition math_sqrt :: "f64 \<Rightarrow> f64 res" where
  "math_sqrt x = (if x = NaN \<or> x = PosInf \<or> feq x (F 0) then Inr x
     else if flt x (F 0) then Inl (value_error ''math domain error'')
     else Inr (rnd (scaled_root \<lfloor>val x * 2 ^ 1200\<rfloor> / 2 ^ 600)))"

section \<open>Requests\<close>

definition fill_priority :: "int \<Rightarrow> bool \<Rightarrow> pending_order \<Rightarrow> liquidity_priority" where
  "fill_priority index newly_triggered order = (let i = po_intent order in case oi_order_type i of
      STOP_MARKET \<Rightarrow> if newly_triggered then NEWLY_TRIGGERED_STOP else PREVIOUSLY_TRIGGERED_STOP
    | MARKET \<Rightarrow> MARKET_PRIORITY
    | LIMIT \<Rightarrow> if oi_eligible_index i < index then OLDER_LIMIT else NEWER_LIMIT)"

fun segment_index :: "trigger_segment \<Rightarrow> int" where
  "segment_index OPEN = 0"
| "segment_index FIRST_EXTREME = 1"
| "segment_index SECOND_EXTREME = 2"
| "segment_index CLOSE = 3"

definition configured_fraction :: "executor \<Rightarrow> trigger_segment option \<Rightarrow> f64 res" where
  "configured_fraction ex segment = (case segment of None \<Rightarrow> Inr (F 0)
     | Some s \<Rightarrow> vec_at (cc_trigger_fractions (ex_cost ex)) (segment_index s))"

text \<open>The volume, its notional, the price it is taken at and the quantity of it.\<close>

definition capacity_reference ::
  "executor \<Rightarrow> bar_context \<Rightarrow> int \<Rightarrow> (f64 \<times> f64 \<times> f64 \<times> f64 option) res" where
  "capacity_reference ex c symbol = (let m = ex_market ex; index = bc_processing_index c;
       current = cc_bar_capacity (ex_cost ex); reference_index = (if current then index else index - 1) in
     if reference_index < 0
     then bindr (vec_at (bc_open_prices c) symbol) (\<lambda>p. Inr (F 0, F 0, p, None))
     else bindr (if current then Inr (bc_open_prices c) else vec_at (mk_close m) reference_index) (\<lambda>prices.
       bindr (market_notional m reference_index (Some prices) None) (\<lambda>notionals.
       bindr (vec_at notionals symbol) (\<lambda>notional.
       bindr (cell (mk_volume m) reference_index symbol) (\<lambda>volume.
       bindr (vec_at (mk_units m) symbol) (\<lambda>unit.
       bindr (vec_at (mk_multipliers m) symbol) (\<lambda>multiplier.
       bindr (case unit of
           BASE_ASSET \<Rightarrow> bindr (py_div volume multiplier) (\<lambda>q. Inr (Some q))
         | CONTRACTS \<Rightarrow> Inr (Some volume)
         | QUOTE_NOTIONAL \<Rightarrow> Inr None) (\<lambda>quantity.
       bindr (vec_at prices symbol) (\<lambda>price. Inr (volume, notional, price, quantity))))))))))"

definition is_maker :: "trigger_decision \<Rightarrow> int \<Rightarrow> order_intent \<Rightarrow> bool" where
  "is_maker t index i \<longleftrightarrow> oi_order_type i = LIMIT \<and> \<not> (td_segment t = Some OPEN \<and> oi_eligible_index i = index)"

text \<open>The cost of a fill and the number of generator calls after it.\<close>

definition execution_cost ::
  "executor \<Rightarrow> nat \<Rightarrow> pending_order \<Rightarrow> trigger_decision \<Rightarrow> int \<Rightarrow> f64 \<Rightarrow> f64 \<Rightarrow> (f64 \<times> nat) res" where
  "execution_cost ex draws order t index filled_notional participation =
    (let c = ex_cost ex; m = ex_market ex; symbol = oi_symbol_index (po_intent order);
         maker = is_maker t index (po_intent order) in
     bindr (if maker then bindr (cell (mk_maker_fee m) index symbol) (\<lambda>f. Inr (fadd (cc_maker_fee_rate c) f))
       else bindr (cell (mk_taker_fee m) index symbol) (\<lambda>f. Inr (fadd (cc_taker_fee_rate c) f))) (\<lambda>venue_fee.
     bindr (math_sqrt participation) (\<lambda>root.
     let impact = fmul (cc_impact_rate c) root; (slippage, draws') = slippage_rate ex draws;
         spread_multiplier = (if maker then F (1 / 2) else F 1) in
     bindr (cell (mk_fee m) index symbol) (\<lambda>fee.
     bindr (cell (mk_spread m) index symbol) (\<lambda>spread.
     Inr (fmul filled_notional (fmul (cc_multiplier c) (fadd (fadd (fadd (fadd (fadd (cc_fee_rate c) fee) venue_fee)
       (fmul spread_multiplier (fadd (cc_spread_rate c) spread))) impact) slippage)), draws'))))))"

section \<open>The orders of one symbol\<close>

record fill_entry =
  fn_order :: pending_order
  fn_trigger :: trigger_decision
  fn_path :: bar_path
  fn_price :: f64

text \<open>The state of the loop over the accepted orders of a symbol.\<close>

record gathering =
  ga_runtime :: runtime
  ga_requests :: "liquidity_request list"
  ga_metadata :: "(string \<times> fill_entry) list"
  ga_attempted :: "string list"

definition path_mode_of :: "string \<Rightarrow> path_mode res" where
  "path_mode_of = enum_of path_mode_value [OPTIMISTIC, NEUTRAL, CONSERVATIVE]"

definition symbol_path :: "executor \<Rightarrow> int \<Rightarrow> int \<Rightarrow> pending_order list \<Rightarrow> bar_path res" where
  "symbol_path ex index symbol orders = (let m = ex_market ex in
     bindr (cell (mk_open m) index symbol) (\<lambda>open_price.
     bindr (cell (mk_high m) index symbol) (\<lambda>high.
     bindr (cell (mk_low m) index symbol) (\<lambda>low.
     bindr (cell (mk_close m) index symbol) (\<lambda>close.
     bindr (path_mode_of (cc_path_mode (ex_cost ex))) (\<lambda>mode.
     select_bar_path open_price high low close mode
       (set (map (\<lambda>p. if flt (F 0) (po_remaining_quantity p) then 1 else -1) orders))))))))"

definition trigger_of :: "executor \<Rightarrow> pending_order \<Rightarrow> bar_path \<Rightarrow> trigger_decision res" where
  "trigger_of ex order path =
     bindr (evaluate_trigger order path) (\<lambda>t.
     bindr (configured_fraction ex (td_segment t)) (\<lambda>fraction.
     decision_post_init (t\<lparr>td_available_volume_fraction := fraction\<rparr>)))"

definition trigger_details :: "trigger_decision \<Rightarrow> bar_path \<Rightarrow> event_details" where
  "trigger_details t path = no_details\<lparr>ed_segment := td_segment t,
     ed_fraction := td_available_volume_fraction t, ed_path := Some path\<rparr>"

definition record_trigger ::
  "executor \<Rightarrow> int \<Rightarrow> trigger_decision \<Rightarrow> bar_path \<Rightarrow> bool \<Rightarrow> pending_order \<Rightarrow> runtime \<Rightarrow> (pending_order \<times> runtime) res" where
  "record_trigger ex index t path newly_triggered order r = (if \<not> newly_triggered then Inr (order, r)
     else bindr (mark_triggered index order) (\<lambda>updated.
       bindr (settle_order ex order updated ''triggered'' index (trigger_details t path) r) (\<lambda>r1. Inr (updated, r1))))"

definition rounded_price ::
  "executor \<Rightarrow> bar_context \<Rightarrow> int \<Rightarrow> f64 \<Rightarrow> f64 \<Rightarrow> f64 res" where
  "rounded_price ex c symbol execution_price remaining =
     bindr (set_at (bc_open_prices c) symbol execution_price) (\<lambda>prices.
     bindr (set_at (replicate (mk_symbols (ex_market ex)) (F 0)) symbol remaining) (\<lambda>directions.
     bindr (round_prices ex prices (bc_processing_index c) directions) (\<lambda>rounded. vec_at rounded symbol)))"

definition request_of ::
  "executor \<Rightarrow> bar_context \<Rightarrow> int \<Rightarrow> trigger_decision \<Rightarrow> bool \<Rightarrow> f64 \<Rightarrow> pending_order \<Rightarrow> liquidity_request res" where
  "request_of ex c symbol t newly_triggered price order = (let i = po_intent order; rule = market_order_rule ex symbol in
     bindr (vec_at (bc_minimum_notional c) symbol) (\<lambda>minimum. liquidity_request_post_init
       \<lparr>lr_order_id = po_order_id order, lr_remaining_quantity = po_remaining_quantity order, lr_execution_price = price,
        lr_volume_fraction = td_available_volume_fraction t,
        lr_priority = fill_priority (bc_processing_index c) newly_triggered order,
        lr_eligible_index = oi_eligible_index i, lr_reduce_only = oi_reduce_only i,
        lr_minimum_notional = Some (order_minimum_notional ex i minimum),
        lr_minimum_quantity = (case rule of None \<Rightarrow> F 0 | Some x \<Rightarrow> mr_minimum_quantity x),
        lr_maximum_quantity = map_option mr_maximum_quantity rule\<rparr>))"

definition gather_order ::
  "executor \<Rightarrow> bar_context \<Rightarrow> int \<Rightarrow> bar_path \<Rightarrow> gathering \<Rightarrow> pending_order \<Rightarrow> gathering res" where
  "gather_order ex c symbol path g accepted_order = (let index = bc_processing_index c in
     bindr (require_active_order (po_order_id accepted_order) (ga_runtime g)) (\<lambda>order0.
     bindr (trigger_of ex order0 path) (\<lambda>t.
     let newly_triggered = (td_triggered t \<and> po_trigger_index order0 = None) in
     bindr (record_trigger ex index t path newly_triggered order0 (ga_runtime g)) (\<lambda>(order, r1).
     let g1 = g\<lparr>ga_runtime := r1, ga_attempted := ga_attempted g @ [po_order_id order]\<rparr> in
     if \<not> td_executable t
     then bindr (append_event ex order order ''no_fill'' index
         (no_details\<lparr>ed_reason := td_reason t, ed_path := Some path\<rparr>) r1) (\<lambda>r2. Inr (g1\<lparr>ga_runtime := r2\<rparr>))
     else (case td_execution_price t of None \<Rightarrow> Inl (Raise AssertionError [])
       | Some execution_price \<Rightarrow>
         bindr (rounded_price ex c symbol execution_price (po_remaining_quantity order)) (\<lambda>price.
         bindr (request_of ex c symbol t newly_triggered price order) (\<lambda>q.
         Inr (g1\<lparr>ga_requests := ga_requests g @ [q],
           ga_metadata := (po_order_id order, \<lparr>fn_order = order, fn_trigger = t, fn_path = path, fn_price = price\<rparr>) #
             ga_metadata g\<rparr>))))))))"

section \<open>Fills\<close>

definition recheck_closing_allocation ::
  "pending_order \<Rightarrow> liquidity_allocation \<Rightarrow> runtime \<Rightarrow> (liquidity_allocation \<times> runtime) res" where
  "recheck_closing_allocation order a r = (if \<not> oi_reduce_only (po_intent order) then Inr (a, r)
     else bindr (read_exact r) (\<lambda>(values, r1).
       bindr (vec_at values (oi_symbol_index (po_intent order))) (\<lambda>position.
       bindr (accepted_fill_quantity (la_filled_quantity a) (la_lot_size a) (la_lot_count a)) (\<lambda>filled.
       bindr (exact_quantity (po_remaining_quantity order)) (\<lambda>remaining.
       let reason = (if 0 \<le> position * remaining then Some ''reduce_only_exhausted''
             else if \<bar>position\<bar> < \<bar>filled\<bar> then Some ''reduce_only_inventory_changed'' else None)
       in Inr (case reason of None \<Rightarrow> a
         | Some _ \<Rightarrow> a\<lparr>la_filled_quantity := F 0, la_filled_notional := F 0, la_participation_rate := F 0,
             la_no_fill_reason := reason, la_lot_count := None, la_lot_size := F 0, la_exhausted := True\<rparr>, r1))))))"

definition allocation_details :: "liquidity_allocation \<Rightarrow> fill_entry \<Rightarrow> event_details" where
  "allocation_details a e = (trigger_details (fn_trigger e) (fn_path e))\<lparr>ed_capacity_before := la_capacity_before a,
     ed_capacity_after := la_capacity_after a\<rparr>"

definition record_no_fill ::
  "executor \<Rightarrow> int \<Rightarrow> fill_entry \<Rightarrow> liquidity_allocation \<Rightarrow> pending_order \<Rightarrow> runtime \<Rightarrow> runtime res" where
  "record_no_fill ex index e a order r =
     bindr (append_event ex order order ''no_fill'' index
       ((allocation_details a e)\<lparr>ed_reason := la_no_fill_reason a\<rparr>) r) (\<lambda>r1.
     case la_no_fill_reason a of None \<Rightarrow> Inr r1
     | Some reason \<Rightarrow> if reason \<in> {''reduce_only_exhausted'', ''reduce_only_inventory_changed''}
         then expire_order ex index reason order r1 else Inr r1)"

definition reference_notional :: "runtime \<Rightarrow> int \<Rightarrow> liquidity_allocation \<Rightarrow> pending_order \<Rightarrow> f64 res" where
  "reference_notional r symbol a order =
     bindr (vec_at (bs_multipliers (rt_book r)) symbol) (\<lambda>multiplier.
     let notional = fmul (fmul (fabs (la_filled_quantity a)) (oi_submission_reference_price (po_intent order))) multiplier in
     bindr (checks [(\<not> feq (la_filled_quantity a) (F 0) \<and> (\<not> isfinite notional \<or> feq notional (F 0)),
       value_error ''nonzero filled reference notional cannot be represented'')]) (\<lambda>_. Inr notional))"

definition fill_account ::
  "executor \<Rightarrow> bar_context \<Rightarrow> int \<Rightarrow> f64 \<Rightarrow> f64 \<Rightarrow> liquidity_allocation \<Rightarrow> book \<Rightarrow> book res" where
  "fill_account ex c symbol price cost_amount a b =
     bindr (set_at (bc_open_prices c) symbol price) (\<lambda>fill_prices.
     bindr (set_at (bs_marks b) symbol price) (\<lambda>valuation_prices.
     bindr (py_div (la_filled_notional a) (bc_period_start_value c)) (\<lambda>turnover.
     bindr (execute_fill (ex_nsum ex) symbol (la_filled_quantity a) fill_prices cost_amount turnover
       (la_lot_size a) (la_lot_count a) (Some valuation_prices) b) (update_margin ex))))"

text \<open>The totals after a fill.\<close>

definition count_fill ::
  "int \<Rightarrow> f64 \<Rightarrow> f64 \<Rightarrow> liquidity_allocation \<Rightarrow> runtime \<Rightarrow> runtime res" where
  "count_fill symbol cost_amount reference_amount a r = (let reference = fadd (rt_filled_reference r) reference_amount in
     bindr (checks [(\<not> isfinite reference, value_error ''filled reference notional total became non-finite'')]) (\<lambda>_.
     bindr (add_at (rt_filled_by r) symbol (la_filled_notional a)) (\<lambda>filled_by.
     bindr (vec_at (rt_participation_by r) symbol) (\<lambda>participation.
     bindr (set_at (rt_participation_by r) symbol (fmax participation (la_participation_rate a))) (\<lambda>participation_by.
     bindr (add_at (rt_cost_by r) symbol cost_amount) (\<lambda>cost_by.
     Inr (r\<lparr>rt_cost := fadd (rt_cost r) cost_amount, rt_filled := fadd (rt_filled r) (la_filled_notional a),
       rt_filled_reference := reference, rt_filled_by := filled_by, rt_participation_by := participation_by,
       rt_cost_by := cost_by, rt_fills := rt_fills r + 1,
       rt_max_participation := fmax (rt_max_participation r) (la_participation_rate a)\<rparr>)))))))"

definition apply_allocation ::
  "executor \<Rightarrow> bar_context \<Rightarrow> int \<Rightarrow> fill_entry \<Rightarrow> liquidity_allocation \<Rightarrow> pending_order \<Rightarrow> runtime \<Rightarrow> runtime res" where
  "apply_allocation ex c symbol e a order r = (let index = bc_processing_index c in
     bindr (reference_notional r symbol a order) (\<lambda>reference_amount.
     bindr (execution_cost ex (rt_draws r) order (fn_trigger e) index (la_filled_notional a) (la_participation_rate a))
       (\<lambda>(cost_amount, draws).
     bindr (apply_fill (la_filled_quantity a) (la_filled_notional a) index (la_lot_size a) (la_lot_count a) order) (\<lambda>updated.
     bindr (fill_account ex c symbol (fn_price e) cost_amount a (rt_book r)) (\<lambda>b.
     bindr (settle_order ex order updated (if po_status updated = FILLED then ''filled'' else ''partial_fill'') index
       ((allocation_details a e)\<lparr>ed_filled_quantity := la_filled_quantity a, ed_execution_price := Some (fn_price e),
         ed_filled_notional := la_filled_notional a, ed_participation := la_participation_rate a,
         ed_reason := po_terminal_reason updated\<rparr>) (r\<lparr>rt_book := b, rt_draws := draws\<rparr>)) (\<lambda>r1.
     bindr (count_fill symbol cost_amount reference_amount a r1) (\<lambda>r2.
     if po_status updated = FILLED then Inr (r2\<lparr>rt_completed := rt_completed r2 + 1\<rparr>)
     else if la_exhausted a then expire_order ex index ''reduce_only_exhausted'' updated r2 else Inr r2)))))))"

text \<open>
  One round of the loop over the allocations, with the remaining capacity.  The loop breaks where the
  account is absorbed; the rounds after that change nothing.
\<close>

definition fill_allocation ::
  "executor \<Rightarrow> bar_context \<Rightarrow> int \<Rightarrow> (string \<times> fill_entry) list \<Rightarrow> runtime \<times> f64 \<Rightarrow> liquidity_allocation \<Rightarrow>
     (runtime \<times> f64) res" where
  "fill_allocation ex c symbol metadata = (\<lambda>(r, remaining_capacity) a0. if absorbed ex r then Inr (r, remaining_capacity)
     else (case map_of metadata (la_order_id a0) of None \<Rightarrow> Inl (Raise KeyError (la_order_id a0))
     | Some e \<Rightarrow>
       bindr (require_active_order (la_order_id a0) r) (\<lambda>order.
       bindr (recheck_closing_allocation order a0 r) (\<lambda>(a1, r1).
       let after = fmax (F 0) (fsub remaining_capacity (la_filled_notional a1));
           a = a1\<lparr>la_capacity_before := remaining_capacity, la_capacity_after := after\<rparr> in
       bindr (if fle (fabs (la_filled_quantity a)) tolerance then record_no_fill ex (bc_processing_index c) e a order r1
         else apply_allocation ex c symbol e a order r1) (\<lambda>r2. Inr (r2, after))))))"

definition terms_of ::
  "executor \<Rightarrow> bar_context \<Rightarrow> int \<Rightarrow> rat list \<Rightarrow> liquidity_terms res" where
  "terms_of ex c symbol values = (let m = ex_market ex in
     bindr (capacity_reference ex c symbol) (\<lambda>(volume, notional, price, quantity).
     bindr (vec_at (mk_multipliers m) symbol) (\<lambda>multiplier.
     bindr (cell (mk_participation m) (bc_processing_index c) symbol) (\<lambda>participation.
     bindr (vec_at (bc_lot_size c) symbol) (\<lambda>lot.
     bindr (vec_at (bc_minimum_notional c) symbol) (\<lambda>minimum.
     bindr (vec_at values symbol) (\<lambda>position. Inr
       \<lparr>lt_volume = volume, lt_market_notional = Some notional, lt_quantity_capacity = quantity, lt_price = price,
        lt_multiplier = multiplier, lt_participation = fmin (cc_max_participation (ex_cost ex)) participation,
        lt_lot_size = lot, lt_minimum_notional = minimum, lt_position = Some position\<rparr>)))))))"

definition fill_symbol ::
  "executor \<Rightarrow> bar_context \<Rightarrow> int \<Rightarrow> gathering \<Rightarrow> runtime res" where
  "fill_symbol ex c symbol g = (if ga_requests g = [] then Inr (ga_runtime g)
     else bindr (read_exact (ga_runtime g)) (\<lambda>(values, r1).
       bindr (terms_of ex c symbol values) (\<lambda>t.
       bindr (allocate_symbol_capacity (ga_requests g) t) (\<lambda>(allocations, evidence).
       bindr (foldr_res (fill_allocation ex c symbol (ga_metadata g)) (r1, ce_initial_capacity evidence) allocations)
         (\<lambda>(r2, remaining_capacity).
       Inr (r2\<lparr>rt_capacities := rt_capacities r2 @ [evidence\<lparr>
         ce_consumed_capacity := fsub (ce_initial_capacity evidence) remaining_capacity,
         ce_remaining_capacity := remaining_capacity\<rparr>]\<rparr>))))))"

section \<open>All symbols\<close>

definition process_symbol ::
  "executor \<Rightarrow> bar_context \<Rightarrow> pending_order list \<Rightarrow> string list \<times> runtime \<Rightarrow> int \<Rightarrow> (string list \<times> runtime) res" where
  "process_symbol ex c accepted = (\<lambda>(attempted, r) symbol. if absorbed ex r then Inr (attempted, r)
     else (let orders = filter (\<lambda>p. oi_symbol_index (po_intent p) = symbol) accepted in
       bindr (symbol_path ex (bc_processing_index c) symbol orders) (\<lambda>path.
       bindr (foldr_res (gather_order ex c symbol path)
         \<lparr>ga_runtime = r, ga_requests = [], ga_metadata = [], ga_attempted = attempted\<rparr> orders) (\<lambda>g.
       bindr (fill_symbol ex c symbol g) (\<lambda>r1. Inr (ga_attempted g, r1))))))"

text \<open>The symbols in ascending order, of the accepted orders that name one of the dataset.\<close>

definition order_symbols :: "executor \<Rightarrow> pending_order list \<Rightarrow> int list" where
  "order_symbols ex accepted = sort (remdups (filter (\<lambda>s. 0 \<le> s \<and> s < int (mk_symbols (ex_market ex)))
     (map (\<lambda>p. oi_symbol_index (po_intent p)) accepted)))"

definition process_symbols ::
  "executor \<Rightarrow> bar_context \<Rightarrow> pending_order list \<Rightarrow> runtime \<Rightarrow> (string list \<times> runtime) res" where
  "process_symbols ex c accepted r =
     foldr_res (process_symbol ex c accepted) ([], r) (order_symbols ex accepted)"

section \<open>Facts on the square root\<close>

lemma isqrt_correct:
  assumes "0 \<le> m"
  shows "0 \<le> isqrt m" "isqrt m * isqrt m \<le> m" "m < (isqrt m + 1) * (isqrt m + 1)"
proof -
  let ?fits = "\<lambda>n. Inr (n * n \<le> m) :: bool res"
  obtain n where n: "lot_search ?fits 0 m = Inr n" using lot_search_total [of 0 m ?fits] assms by auto
  note k = lot_search_found [OF n assms]
  have "isqrt m = n" by (simp add: isqrt_def n)
  moreover have "m < (m + 1) * (m + 1)" using assms by (simp add: algebra_simps add_pos_nonneg)
  ultimately show "0 \<le> isqrt m" "isqrt m * isqrt m \<le> m" "m < (isqrt m + 1) * (isqrt m + 1)"
    using k assms by auto
qed

lemma isqrt_square: "0 \<le> n \<Longrightarrow> isqrt (n * n) = n"
proof -
  assume n: "0 \<le> n"
  let ?k = "isqrt (n * n)"
  note k = isqrt_correct [of "n * n"]
  have "?k \<le> n" using k(2) n by (metis linorder_not_less mult_strict_mono' zero_le_square k(1))
  moreover have "n < ?k + 1" using k(1,3) n by (smt (verit) mult_mono zero_le_square)
  ultimately show ?thesis by simp
qed

text \<open>The root of a square of a float whose scaled value is an integer is exact up to rounding.\<close>

lemma math_sqrt_square:
  assumes "val x = r * r" and "0 < r" and "r * 2 ^ 600 = of_int n" and "isfinite x"
  shows "math_sqrt x = Inr (rnd r)"
proof -
  have n: "0 \<le> n" using assms(2,3) by (metis mult_pos_pos of_int_0_less_iff order_less_imp_le zero_less_numeral zero_less_power)
  have "(2::rat) ^ 1200 = 2 ^ 600 * 2 ^ 600" by simp
  then have "val x * 2 ^ 1200 = (r * 2 ^ 600) * (r * 2 ^ 600)" unfolding assms(1) by (simp only: ac_simps)
  also have "\<dots> = of_int (n * n)" unfolding assms(3) by simp
  finally have "\<lfloor>val x * 2 ^ 1200\<rfloor> = n * n" by (simp only: floor_of_int)
  then have s: "scaled_root \<lfloor>val x * 2 ^ 1200\<rfloor> / 2 ^ 600 = r"
    using isqrt_square [OF n] assms(3) by (simp add: scaled_root_def divide_eq_eq)
  have "0 < r * r" using assms(2) by simp
  then show ?thesis using assms(1,4) unfolding math_sqrt_def s by (cases x) auto
qed

end
