(* ===== verification/Engine.thy ===== *)
theory Engine
  imports SymbolFills
begin

text \<open>
  \<open>trade_rl/simulation/stateful/execution.py\<close>: the orchestration of one execution over its bars,
  and the facts observed after it.
\<close>

section \<open>Cancellations of the reconciliation\<close>

text \<open>Equality of orders as dataclasses: field by field, where the two zeros are equal floats.\<close>

definition unsigned :: "f64 \<Rightarrow> f64" where
  "unsigned x = (if feq x (F 0) then F 0 else x)"

definition unsigned_order :: "pending_order \<Rightarrow> pending_order" where
  "unsigned_order p = (let i = po_intent p in
     p\<lparr>po_remaining_quantity := unsigned (po_remaining_quantity p),
       po_cumulative_filled_quantity := unsigned (po_cumulative_filled_quantity p),
       po_cumulative_filled_notional := unsigned (po_cumulative_filled_notional p),
       po_intent := i\<lparr>oi_requested_quantity := unsigned (oi_requested_quantity i),
         oi_limit_price := map_option unsigned (oi_limit_price i), oi_stop_price := map_option unsigned (oi_stop_price i),
         oi_submission_reference_price := unsigned (oi_submission_reference_price i),
         oi_decision_equity := unsigned (oi_decision_equity i)\<rparr>\<rparr>)"

definition equal_orders :: "pending_order \<Rightarrow> pending_order \<Rightarrow> bool" where
  "equal_orders p q \<longleftrightarrow> unsigned_order p = unsigned_order q"

definition transition_checks :: "pending_order \<times> pending_order \<Rightarrow> runtime \<Rightarrow> string list \<Rightarrow> (int \<times> string) res" where
  "transition_checks = (\<lambda>(previous, updated) r seen.
     bindr (checks [
       (po_order_id previous \<in> set seen, value_error ''duplicate reconciliation cancellation transition''),
       (po_terminal previous, value_error ''reconciliation cancellation source is terminal''),
       (po_order_id previous \<noteq> po_order_id updated, value_error ''reconciliation cancellation changed order identity''),
       (po_status updated \<noteq> CANCELLED, value_error ''reconciliation transition is not a cancellation'')]) (\<lambda>_.
     case (po_last_processed_index updated, po_terminal_reason updated) of
       (Some index, Some reason) \<Rightarrow>
         bindr (cancel index reason previous) (\<lambda>expected.
         bindr (checks [
           (\<not> equal_orders updated expected, value_error ''reconciliation cancellation state is inconsistent''),
           (\<not> list_ex (equal_orders updated) (archive_list (ob_terminal (rt_orders r))),
              value_error ''reconciliation cancellation is absent from order book'')]) (\<lambda>_. Inr (index, reason)))
     | _ \<Rightarrow> Inl (value_error ''reconciliation cancellation evidence is incomplete'')))"

definition record_cancellation ::
  "executor \<Rightarrow> string list \<times> runtime \<Rightarrow> pending_order \<times> pending_order \<Rightarrow> (string list \<times> runtime) res" where
  "record_cancellation ex = (\<lambda>(seen, r) t.
     bindr (transition_checks t r seen) (\<lambda>(index, reason).
     bindr (append_event ex (fst t) (snd t) ''cancelled'' index (no_details\<lparr>ed_reason := Some reason\<rparr>) r) (\<lambda>r1.
     Inr (po_order_id (fst t) # seen, r1))))"

section \<open>The bars\<close>

definition execute_bar :: "executor \<Rightarrow> admission_policy \<Rightarrow> int \<Rightarrow> runtime \<Rightarrow> runtime res" where
  "execute_bar ex pol previous_index r = (let index = previous_index + 1 in
     bindr (begin_bar ex previous_index index r) (\<lambda>(c, r1).
     bindr (if absorbed ex r1 then Inr r1
       else bindr (prepare_orders ex pol c r1) (\<lambda>(accepted, r2).
         bindr (process_symbols ex c accepted r2) (\<lambda>(attempted, r3).
         if absorbed ex r3 then Inr r3 else expire_attempted_remainders ex index attempted r3))) (\<lambda>r4.
     finish_bar ex c r4)))"

text \<open>The loop over the bars: the number of bars advanced and the runtime.\<close>

fun execute_bars :: "executor \<Rightarrow> admission_policy \<Rightarrow> int \<Rightarrow> nat \<Rightarrow> runtime \<Rightarrow> (int \<times> runtime) res" where
  "execute_bars ex pol previous_index 0 r = Inr (0, r)"
| "execute_bars ex pol previous_index (Suc n) r =
     bindr (execute_bar ex pol previous_index r) (\<lambda>r1.
     if absorbed ex r1 then Inr (1, r1)
     else bindr (execute_bars ex pol (previous_index + 1) n r1) (\<lambda>(k, r2). Inr (k + 1, r2)))"

definition interval_checks :: "executor \<Rightarrow> book \<Rightarrow> int \<Rightarrow> int \<Rightarrow> unit res" where
  "interval_checks ex b start_index bars = checks [
     (bars \<le> 0, value_error ''bars must be positive''),
     (start_index < 0 \<or> n_bars (ex_market ex) \<le> start_index + bars,
        value_error ''execution interval is outside the dataset''),
     (length (bs_quantities b) \<noteq> mk_symbols (ex_market ex), value_error ''book quantities do not match market symbols''),
     (retain_debt ex \<and> bs_insolvent b,
        value_error ''retain_debt execution cannot restart from an already terminated book'')]"

text \<open>\<open>new\<close> is the first unused archive identity and \<open>draws\<close> the generator calls made before.\<close>

definition start_runtime ::
  "executor \<Rightarrow> nat \<Rightarrow> nat \<Rightarrow> book \<Rightarrow> order_book \<Rightarrow> order_intent list \<Rightarrow> (pending_order \<times> pending_order) list \<Rightarrow> runtime res" where
  "start_runtime ex new draws b orders intents cancellations =
     bindr (create_runtime ex new draws b orders) (\<lambda>r0.
     bindr (foldr_res (record_cancellation ex) ([], r0) cancellations) (\<lambda>(_, r1).
     bindr (submit_intents ex intents r1) (initialize_metrics ex)))"

definition run_stateful ::
  "executor \<Rightarrow> nat \<Rightarrow> nat \<Rightarrow> book \<Rightarrow> order_book \<Rightarrow> order_intent list \<Rightarrow> int \<Rightarrow> int \<Rightarrow>
     (pending_order \<times> pending_order) list \<Rightarrow> (int \<times> runtime) res" where
  "run_stateful ex new draws b orders intents start_index bars cancellations =
     bindr (interval_checks ex b start_index bars) (\<lambda>_.
     bindr (start_runtime ex new draws b orders intents cancellations) (\<lambda>r.
     bindr (executor_admission ex) (\<lambda>pol.
     execute_bars ex pol start_index (nat bars) r)))"

definition execute_stateful_orders ::
  "executor \<Rightarrow> nat \<Rightarrow> nat \<Rightarrow> book \<Rightarrow> order_book \<Rightarrow> order_intent list \<Rightarrow> int \<Rightarrow> int \<Rightarrow>
     (pending_order \<times> pending_order) list \<Rightarrow> stateful_result res" where
  "execute_stateful_orders ex new draws b orders intents start_index bars cancellations =
     bindr (run_stateful ex new draws b orders intents start_index bars cancellations) (\<lambda>(advanced, r).
     result_payload ex start_index advanced r)"

section \<open>Observations\<close>

record observation =
  ob_next_index :: int
  ob_events :: "order_event list"
  ob_capacities :: "capacity_evidence list"
  ob_funding :: "funding_evidence list"
  ob_remainders :: "(string \<times> f64) list"
  ob_reasons :: "(string \<times> string) list"

definition reason_pair :: "pending_order \<Rightarrow> (string \<times> string) res" where
  "reason_pair p = (case po_terminal_reason p of
      None \<Rightarrow> Inl (Raise RuntimeError ''terminal order observation is missing its reason'')
    | Some m \<Rightarrow> Inr (po_order_id p, m))"

definition observe_with :: "stateful_result \<Rightarrow> (string \<times> string) list \<Rightarrow> observation" where
  "observe_with s reasons = \<lparr>ob_next_index = sr_next_index s, ob_events = sr_order_events s,
     ob_capacities = sr_capacity_evidence s, ob_funding = sr_funding_evidence s,
     ob_remainders = map (\<lambda>p. (po_order_id p, po_remaining_quantity p)) (ob_active (sr_order_book s)),
     ob_reasons = reasons\<rparr>"

definition from_result :: "stateful_result \<Rightarrow> observation res" where
  "from_result s = bindr (mapr reason_pair (archive_list (ob_terminal (sr_order_book s)))) (\<lambda>reasons.
     Inr (observe_with s reasons))"

definition from_result_since :: "stateful_result \<Rightarrow> archive \<Rightarrow> observation res" where
  "from_result_since s previous =
     bindr (suffix_since (ob_terminal (sr_order_book s)) previous) (\<lambda>suffix.
     bindr (mapr reason_pair suffix) (\<lambda>reasons. Inr (observe_with s reasons)))"

end
