(* ===== verification/EngineTrace.thy ===== *)
theory EngineTrace
  imports Engine
begin

text \<open>
  The engine as a step relation on runtimes.  A step moves the account, notes an order that did not
  fill, or advances one active order by a transition of \<open>PendingOrders\<close> and appends the event of
  that transition.  Every phase of a bar is a sequence of such steps, so what the steps preserve holds
  of every run.
\<close>

section \<open>The log and its totals\<close>

text \<open>The counters of a runtime: rejected, expired, fills, completed fills, filled notional.\<close>

type_synonym totals = "int \<times> int \<times> int \<times> int \<times> f64"

definition totals_of :: "runtime \<Rightarrow> totals" where
  "totals_of r = (rt_rejected r, rt_expired r, rt_fills r, rt_completed r, rt_filled r)"

definition is_fill_event :: "order_event \<Rightarrow> bool" where
  "is_fill_event e \<longleftrightarrow> oe_event_type e \<in> {''filled'', ''partial_fill''}"

definition count_event :: "totals \<Rightarrow> order_event \<Rightarrow> totals" where
  "count_event = (\<lambda>(rejected, expired, fills, completed, notional) e. let t = oe_event_type e in
     (rejected + of_bool (t = ''rejected''), expired + of_bool (t = ''expired''),
      fills + of_bool (is_fill_event e), completed + of_bool (t = ''filled''),
      if is_fill_event e then fadd notional (oe_filled_notional e) else notional))"

definition log_state :: "runtime \<Rightarrow> order_book \<times> nat \<times> order_event list \<times> totals" where
  "log_state r = (rt_orders r, rt_next_node r, rt_events r, totals_of r)"

text \<open>The event \<open>e\<close> records the move of an order from \<open>p\<close> to \<open>q\<close> at the end of the log of \<open>r\<close>.\<close>

definition records :: "int \<Rightarrow> runtime \<Rightarrow> order_event \<Rightarrow> pending_order \<Rightarrow> pending_order \<Rightarrow> bool" where
  "records index r e p q \<longleftrightarrow> event_wf e \<and> oe_sequence e = int (length (rt_events r)) \<and> oe_processing_index e = index \<and>
     oe_order_id e = po_order_id q \<and> oe_previous_status e = po_status p \<and> oe_new_status e = po_status q \<and>
     oe_remaining_quantity e = po_remaining_quantity q \<and> oe_symbol_index e = oi_symbol_index (po_intent q)"

fun action_event :: "order_action \<Rightarrow> pending_order \<Rightarrow> string" where
  "action_event (Latency_Wait _) q = ''latency_wait''"
| "action_event (Eligible _) q = ''eligible''"
| "action_event (Trigger _) q = ''triggered''"
| "action_event (Fill _ _ _ _ _) q = (if po_status q = FILLED then ''filled'' else ''partial_fill'')"
| "action_event (Reject _ _) q = ''rejected''"
| "action_event (Expire _ _) q = ''expired''"
| "action_event (Cancel _ _) q = ''cancelled''"

text \<open>The notional an action adds to its order.\<close>

fun action_notional :: "order_action \<Rightarrow> f64 option" where
  "action_notional (Fill _ n _ _ _) = Some n"
| "action_notional _ = None"

section \<open>Steps\<close>

inductive engine_step :: "int \<Rightarrow> runtime \<Rightarrow> runtime \<Rightarrow> bool" for index where
  account: "log_state r' = log_state r \<Longrightarrow> engine_step index r r'"
| observe: "p \<in> set (ob_active (rt_orders r)) \<Longrightarrow> records index r e p p \<Longrightarrow> oe_event_type e = ''no_fill'' \<Longrightarrow>
    log_state r' = (rt_orders r, rt_next_node r, rt_events r @ [e], totals_of r) \<Longrightarrow> engine_step index r r'"
| advance: "p \<in> set (ob_active (rt_orders r)) \<Longrightarrow> order_step p a q \<Longrightarrow> action_index a = index \<Longrightarrow>
    (action_notional a \<noteq> None \<longrightarrow> oi_eligible_index (po_intent p) \<le> index) \<Longrightarrow>
    book_replace (rt_next_node r) q (rt_orders r) = Inr ob \<Longrightarrow>
    records index r e p q \<Longrightarrow> oe_event_type e = action_event a q \<Longrightarrow>
    oe_filled_notional e = (case action_notional a of None \<Rightarrow> F 0 | Some n \<Rightarrow> n) \<Longrightarrow>
    log_state r' = (ob, Suc (rt_next_node r), rt_events r @ [e], count_event (totals_of r) e) \<Longrightarrow>
    engine_step index r r'"

definition live :: "runtime \<Rightarrow> bool" where
  "live r \<longleftrightarrow> book_ok (rt_orders r)"

lemma live_active: "live r \<Longrightarrow> p \<in> set (ob_active (rt_orders r)) \<Longrightarrow> pending_ok p \<and> \<not> po_terminal p"
  by (simp add: live_def book_ok_def)

lemma live_distinct: "live r \<Longrightarrow> distinct (map po_order_id (ob_active (rt_orders r)))"
  by (simp add: live_def book_ok_def book_ids_def)

lemma log_stateD:
  assumes "log_state r' = (ob, n, es, t)"
  shows "rt_orders r' = ob" "rt_next_node r' = n" "rt_events r' = es" "totals_of r' = t"
  using assms by (simp_all add: log_state_def)

lemma log_state_same:
  assumes "log_state r' = log_state r"
  shows "rt_orders r' = rt_orders r" "rt_next_node r' = rt_next_node r" "rt_events r' = rt_events r" "totals_of r' = totals_of r"
  using assms by (simp_all add: log_state_def)

lemma replaced_active:
  assumes "book_replace new q b = Inr c" and "p \<in> set (ob_active b)" and "po_order_id p \<noteq> po_order_id q"
  shows "p \<in> set (ob_active c)"
  using assms(1) by (rule book_replace_Inr) (use assms(2,3) in auto)

lemma engine_step_live: "engine_step index r r' \<Longrightarrow> live r \<Longrightarrow> live r'"
proof (induction rule: engine_step.induct)
  case (account r' r)
  then show ?case by (simp add: live_def log_state_def)
next
  case (observe p r e r')
  then show ?case by (auto simp: live_def log_state_def)
next
  case (advance p r a q ob e r')
  note p = live_active [OF advance.prems advance.hyps(1)]
  have q: "pending_ok q" using order_step_frame advance.hyps(2) p by blast
  have "book_ok ob" using book_replace_ok advance.hyps(5) advance.prems q by (auto simp: live_def)
  then show ?case using log_stateD(1) [OF advance.hyps(9)] by (simp add: live_def)
qed

text \<open>A run of steps from a live runtime that touches no active order outside the identities \<open>S\<close>.\<close>

definition runs :: "string set \<Rightarrow> int \<Rightarrow> runtime \<Rightarrow> runtime \<Rightarrow> bool" where
  "runs S index r r' \<longleftrightarrow> (live r \<longrightarrow> (engine_step index)\<^sup>*\<^sup>* r r' \<and> live r' \<and>
     (\<forall>x \<in> set (ob_active (rt_orders r)). po_order_id x \<notin> S \<longrightarrow> x \<in> set (ob_active (rt_orders r'))))"

lemma runs_refl [simp, intro]: "runs S index r r"
  by (simp add: runs_def)

lemma runs_trans [trans]: "runs S index r s \<Longrightarrow> runs S index s t \<Longrightarrow> runs S index r t"
  by (auto simp: runs_def)

lemma runs_mono: "runs S index r s \<Longrightarrow> S \<subseteq> T \<Longrightarrow> runs T index r s"
  by (auto simp: runs_def)

lemma runs_any: "runs S index r s \<Longrightarrow> runs UNIV index r s"
  by (erule runs_mono) simp

lemma runs_liveD: "runs S index r s \<Longrightarrow> live r \<Longrightarrow> live s"
  by (simp add: runs_def)

lemma runs_keeps: "runs S index r s \<Longrightarrow> live r \<Longrightarrow> x \<in> set (ob_active (rt_orders r)) \<Longrightarrow> po_order_id x \<notin> S \<Longrightarrow>
    x \<in> set (ob_active (rt_orders s))"
  by (simp add: runs_def)

lemma runs_account:
  assumes "log_state r' = log_state r"
  shows "runs S index r r'"
proof -
  have "engine_step index r r'" using assms by (rule engine_step.account)
  then show ?thesis using engine_step_live [of index r r'] by (simp add: runs_def log_state_same(1) [OF assms] r_into_rtranclp)
qed

text \<open>An update of fields outside the log.\<close>

lemma runs_set_book [simp, intro]: "runs S index r (set_book b r)"
  by (rule runs_account) (simp add: set_book_def log_state_def totals_of_def)

lemma runs_fold:
  assumes "foldr_res f s xs = Inr t" and "\<And>s x s'. x \<in> set xs \<Longrightarrow> f s x = Inr s' \<Longrightarrow> runs S index (g s) (g s')"
  shows "runs S index (g s) (g t)"
  using foldr_res_inv [OF assms(1), of "\<lambda>u. runs S index (g s) (g u)"] assms(2) runs_trans by blast

text \<open>
  A loop over a snapshot of active orders, each round touching the order it is at; \<open>Q\<close> is an
  invariant of the loop.
\<close>

lemma runs_snapshot_inv:
  assumes "foldr_res f s xs = Inr t" and "live (g s)" and "set xs \<subseteq> set (ob_active (rt_orders (g s)))"
    and "distinct (map po_order_id xs)" and "Q s"
    and "\<And>s x s'. x \<in> set xs \<Longrightarrow> live (g s) \<Longrightarrow> x \<in> set (ob_active (rt_orders (g s))) \<Longrightarrow> Q s \<Longrightarrow> f s x = Inr s' \<Longrightarrow>
      runs {po_order_id x} index (g s) (g s') \<and> Q s'"
  shows "runs (po_order_id ` set xs) index (g s) (g t) \<and> Q t"
  using assms
proof (induction xs arbitrary: s)
  case (Cons x xs)
  obtain s' where s': "f s x = Inr s'" and rest: "foldr_res f s' xs = Inr t"
    using Cons.prems(1) by (auto simp: res_iff)
  have one: "runs {po_order_id x} index (g s) (g s')" and q: "Q s'"
    using Cons.prems(6) [OF _ Cons.prems(2) _ Cons.prems(5) s'] Cons.prems(3) by auto
  have kept: "set xs \<subseteq> set (ob_active (rt_orders (g s')))"
  proof
    fix y assume y: "y \<in> set xs"
    with Cons.prems(4) have "po_order_id y \<noteq> po_order_id x" by (metis distinct.simps(2) image_eqI list.simps(9) set_map)
    then show "y \<in> set (ob_active (rt_orders (g s')))" using y Cons.prems(2,3) by (intro runs_keeps [OF one]) auto
  qed
  have rec: "runs (po_order_id ` set xs) index (g s') (g t) \<and> Q t"
    using kept Cons.prems(4,6) runs_liveD [OF one Cons.prems(2)] by (intro Cons.IH [OF rest _ _ _ q]) auto
  then have "runs (po_order_id ` set (x # xs)) index (g s') (g t)" by (auto intro: runs_mono)
  moreover from one have "runs (po_order_id ` set (x # xs)) index (g s) (g s')" by (rule runs_mono) auto
  ultimately show ?case using rec by (blast intro: runs_trans)
qed simp

lemma runs_snapshot:
  assumes "foldr_res f s xs = Inr t" and "live (g s)" and "set xs \<subseteq> set (ob_active (rt_orders (g s)))"
    and "distinct (map po_order_id xs)"
    and "\<And>s x s'. x \<in> set xs \<Longrightarrow> live (g s) \<Longrightarrow> x \<in> set (ob_active (rt_orders (g s))) \<Longrightarrow> f s x = Inr s' \<Longrightarrow>
      runs {po_order_id x} index (g s) (g s')"
  shows "runs (po_order_id ` set xs) index (g s) (g t)"
  using runs_snapshot_inv [where g = g and Q = "\<lambda>_. True", OF assms(1-4)] assms(5) by blast

section \<open>Operations that advance one order\<close>

lemma append_event_records:
  assumes "append_event ex p q t index d r = Inr r'"
  obtains e where "records index r e p q" "oe_event_type e = t" "oe_filled_notional e = ed_filled_notional d"
    "r' = r\<lparr>rt_events := rt_events r @ [e]\<rparr>"
proof -
  obtain ts e where "event_post_init (event_of ex r p q t index ts d) = Inr e" "r' = r\<lparr>rt_events := rt_events r @ [e]\<rparr>"
    using assms by (auto simp: append_event_def res_iff)
  with event_post_init_same [OF this(1)] show thesis
    by (intro that [of e]) (auto simp: records_def event_of_def Let_def)
qed

text \<open>Runtimes with the same orders and events, whatever their totals.\<close>

definition same_log :: "runtime \<Rightarrow> runtime \<Rightarrow> bool" where
  "same_log r s \<longleftrightarrow> rt_orders s = rt_orders r \<and> rt_next_node s = rt_next_node r \<and> rt_events s = rt_events r"

lemma settle_runs:
  assumes settle: "settle_order ex p q t index d s = Inr s1"
    and p: "p \<in> set (ob_active (rt_orders r))" and st: "order_step p a q" and a: "action_index a = index" "t = action_event a q"
    and due: "action_notional a \<noteq> None \<longrightarrow> oi_eligible_index (po_intent p) \<le> index"
    and d: "ed_filled_notional d = (case action_notional a of None \<Rightarrow> F 0 | Some n \<Rightarrow> n)"
    and pre: "same_log r s" and post: "same_log s1 r'"
    and tot: "\<And>e. oe_event_type e = t \<Longrightarrow> oe_filled_notional e = ed_filled_notional d \<Longrightarrow>
      totals_of r' = count_event (totals_of r) e"
  shows "runs {po_order_id p} index r r'"
    and "live r \<Longrightarrow> \<not> po_terminal q \<Longrightarrow> q \<in> set (ob_active (rt_orders r'))"
proof -
  obtain ob where ob: "book_replace (rt_next_node r) q (rt_orders r) = Inr ob"
    and ev: "append_event ex p q t index d (s\<lparr>rt_orders := ob, rt_next_node := Suc (rt_next_node r)\<rparr>) = Inr s1"
    using settle pre by (auto simp: settle_order_def replace_order_def res_iff same_log_def)
  obtain e where e: "records index r e p q" "oe_event_type e = t" "oe_filled_notional e = ed_filled_notional d"
    and s1: "rt_orders s1 = ob" "rt_next_node s1 = Suc (rt_next_node r)" "rt_events s1 = rt_events r @ [e]"
    by (rule append_event_records [OF ev]) (use pre in \<open>auto simp: records_def same_log_def\<close>)
  have step: "engine_step index r r'"
  proof (rule engine_step.advance [OF p st a(1) due ob e(1)])
    show "log_state r' = (ob, Suc (rt_next_node r), rt_events r @ [e], count_event (totals_of r) e)"
      using tot [OF e(2,3)] post s1 by (simp add: log_state_def same_log_def)
  qed (use e a d in simp_all)
  have r': "rt_orders r' = ob" using post s1 by (simp add: same_log_def)
  have id: "po_order_id q = po_order_id p" if "live r"
    using order_step_frame [OF _ st] live_active [OF that p] by (simp add: po_order_id_def)
  show "runs {po_order_id p} index r r'" unfolding runs_def
    using step engine_step_live [OF step] replaced_active [OF ob] id by (auto simp: r')
  show "live r \<Longrightarrow> \<not> po_terminal q \<Longrightarrow> q \<in> set (ob_active (rt_orders r'))"
    unfolding r' using ob by (rule book_replace_Inr) auto
qed

lemma count_event_simps:
  "count_event (a, b, c, d, x) e = (a + of_bool (oe_event_type e = ''rejected''), b + of_bool (oe_event_type e = ''expired''),
     c + of_bool (is_fill_event e), d + of_bool (oe_event_type e = ''filled''),
     if is_fill_event e then fadd x (oe_filled_notional e) else x)"
  by (simp add: count_event_def Let_def)

lemma no_details_notional [simp]: "ed_filled_notional no_details = F 0"
  by (simp add: no_details_def)

lemma settle_order_totals:
  assumes "settle_order ex p q t index d s = Inr s1"
  shows "totals_of s1 = totals_of s" "rt_book s1 = rt_book s"
  using assms by (auto simp: settle_order_def replace_order_def res_iff totals_of_def append_event_def)

text \<open>The transitions that carry no amount, with the totals they start from.\<close>

lemma settle_plain:
  assumes "settle_order ex p q (action_event a q) index d s = Inr r'" and "p \<in> set (ob_active (rt_orders r))"
    and "order_step p a q" and "action_index a = index" and "action_notional a = None" and "ed_filled_notional d = F 0"
    and "same_log r s" and "\<And>e. oe_event_type e = action_event a q \<Longrightarrow> totals_of s = count_event (totals_of r) e"
  shows "runs {po_order_id p} index r r'" and "live r \<Longrightarrow> \<not> po_terminal q \<Longrightarrow> q \<in> set (ob_active (rt_orders r'))"
  using settle_runs [OF assms(1,2,3,4) refl _ _ assms(7)] assms(5,6,8) settle_order_totals(1) [OF assms(1)]
  by (simp_all add: same_log_def)

lemmas transition_runs = same_log_def totals_of_def count_event_simps is_fill_event_def

lemma expire_order_runs:
  assumes "expire_order ex index reason p r = Inr r'" and "p \<in> set (ob_active (rt_orders r))"
  shows "runs {po_order_id p} index r r'"
proof -
  obtain q where "expire index reason p = Inr q"
    and s: "settle_order ex p q (action_event (Expire index reason) q) index (no_details\<lparr>ed_reason := po_terminal_reason q\<rparr>)
      (r\<lparr>rt_expired := rt_expired r + 1\<rparr>) = Inr r'"
    using assms(1) by (auto simp: expire_order_def res_iff)
  then show ?thesis by (intro settle_plain(1) [OF s assms(2)]) (simp_all add: transition_runs)
qed

lemma reject_order_runs:
  assumes "reject_order ex index reason p r = Inr r'" and "p \<in> set (ob_active (rt_orders r))"
  shows "runs {po_order_id p} index r r'"
proof -
  obtain q where "reject index reason p = Inr q"
    and s: "settle_order ex p q (action_event (Reject index reason) q) index (no_details\<lparr>ed_reason := po_terminal_reason q\<rparr>)
      (r\<lparr>rt_rejected := rt_rejected r + 1\<rparr>) = Inr r'"
    using assms(1) by (auto simp: reject_order_def res_iff)
  then show ?thesis by (intro settle_plain(1) [OF s assms(2)]) (simp_all add: transition_runs)
qed

lemma refuse_order_runs:
  assumes "refuse_order ex index reason p r = Inr r'" and "p \<in> set (ob_active (rt_orders r))"
  shows "runs {po_order_id p} index r r'"
  using assms expire_order_runs reject_order_runs unfolding refuse_order_def by (metis (no_types, lifting))

lemma wait_order_runs:
  assumes "wait_order ex index p r = Inr r'" and "p \<in> set (ob_active (rt_orders r))"
  shows "runs {po_order_id p} index r r'"
proof -
  obtain q where "mark_latency_wait index p = Inr q"
    and s: "settle_order ex p q (action_event (Latency_Wait index) q) index (no_details\<lparr>ed_reason := Some ''latency_wait''\<rparr>) r = Inr r'"
    using assms(1) by (auto simp: wait_order_def res_iff)
  then show ?thesis by (intro settle_plain(1) [OF s assms(2)]) (simp_all add: transition_runs)
qed

lemma cancel_one_runs:
  assumes "cancel_one ex index reason r p = Inr r'" and "p \<in> set (ob_active (rt_orders r))"
  shows "runs {po_order_id p} index r r'"
proof -
  obtain q where "cancel index reason p = Inr q"
    and s: "settle_order ex p q (action_event (Cancel index reason) q) index (no_details\<lparr>ed_reason := Some reason\<rparr>) r = Inr r'"
    using assms(1) by (auto simp: cancel_one_def settle_order_def res_iff)
  then show ?thesis by (intro settle_plain(1) [OF s assms(2)]) (simp_all add: transition_runs)
qed

lemma make_eligible_runs:
  assumes "make_eligible ex index p r = Inr (q, r')" and "p \<in> set (ob_active (rt_orders r))"
  shows "runs {po_order_id p} index r r'" and "live r \<Longrightarrow> po_intent q = po_intent p"
proof -
  have "runs {po_order_id p} index r r' \<and> (live r \<longrightarrow> po_intent q = po_intent p)"
  proof (cases "po_status p \<in> {SUBMITTED, LATENCY_WAIT}")
    case True
    then have q: "mark_eligible index p = Inr q"
      and s: "settle_order ex p q (action_event (Eligible index) q) index no_details r = Inr r'"
      using assms(1) by (auto simp: make_eligible_def res_iff split: if_splits)
    have "runs {po_order_id p} index r r'"
      using q by (intro settle_plain(1) [OF s assms(2)]) (simp_all add: transition_runs)
    moreover have "live r \<longrightarrow> po_intent q = po_intent p"
      using order_step_frame [of p "Eligible index" q] q live_active [OF _ assms(2)] by auto
    ultimately show ?thesis by simp
  qed (use assms(1) in \<open>auto simp: make_eligible_def\<close>)
  then show "runs {po_order_id p} index r r'" "live r \<Longrightarrow> po_intent q = po_intent p" by simp_all
qed

lemma record_trigger_runs:
  assumes "record_trigger ex index t path newly p r = Inr (q, r')" and "p \<in> set (ob_active (rt_orders r))"
  shows "runs {po_order_id p} index r r'" and "live r \<Longrightarrow> q \<in> set (ob_active (rt_orders r')) \<and> po_intent q = po_intent p"
proof -
  have "runs {po_order_id p} index r r' \<and> (live r \<longrightarrow> q \<in> set (ob_active (rt_orders r')) \<and> po_intent q = po_intent p)"
  proof (cases newly)
    case True
    then have q: "mark_triggered index p = Inr q"
      and s: "settle_order ex p q (action_event (Trigger index) q) index (trigger_details t path) r = Inr r'"
      using assms(1) by (auto simp: record_trigger_def res_iff)
    have st: "order_step p (Trigger index) q" using q by simp
    have run: "runs {po_order_id p} index r r'"
      and act: "live r \<Longrightarrow> \<not> po_terminal q \<Longrightarrow> q \<in> set (ob_active (rt_orders r'))"
      using st by (intro settle_plain [OF s assms(2)]; simp add: transition_runs trigger_details_def)+
    have "\<not> po_terminal q \<and> po_intent q = po_intent p" if "live r"
      using live_active [OF that assms(2)] q order_step_frame [OF _ st]
      by (auto simp: mark_triggered_def transition_Inr po_terminal_def status_terminal_def split: if_splits)
    then show ?thesis using run act by simp
  qed (use assms in \<open>auto simp: record_trigger_def\<close>)
  then show "runs {po_order_id p} index r r'" "live r \<Longrightarrow> q \<in> set (ob_active (rt_orders r')) \<and> po_intent q = po_intent p"
    by simp_all
qed

end
