(* ===== verification/EngineRuns.thy ===== *)
theory EngineRuns
  imports EngineTrace
begin

text \<open>
  Every phase of a bar is a run of engine steps: the loops over orders, the fills of a symbol, the
  lifecycle of the bar, and the bar itself.
\<close>

section \<open>Intents do not change\<close>

lemma engine_step_intents:
  "engine_step index r r' \<Longrightarrow> live r \<Longrightarrow> x \<in> set (ob_active (rt_orders r')) \<Longrightarrow>
     \<exists>y \<in> set (ob_active (rt_orders r)). po_intent y = po_intent x"
proof (induction rule: engine_step.induct)
  case (advance p r a q ob e r')
  have q: "po_intent q = po_intent p" using order_step_frame [OF _ advance.hyps(2)] live_active [OF advance.prems(1) advance.hyps(1)] by blast
  have "x \<in> set (ob_active ob)" using advance.prems(2) log_stateD(1) [OF advance.hyps(9)] by simp
  with advance.hyps(5) have "x = q \<or> x \<in> set (ob_active (rt_orders r))"
    by (auto elim!: book_replace_Inr split: if_splits)
  then show ?case using q advance.hyps(1) by auto
qed (auto simp: log_state_def)

lemma steps_intents:
  assumes "(engine_step index)\<^sup>*\<^sup>* r r'" and "live r" and "x \<in> set (ob_active (rt_orders r'))"
  shows "\<exists>y \<in> set (ob_active (rt_orders r)). po_intent y = po_intent x"
proof -
  have "live r' \<and> (\<forall>x \<in> set (ob_active (rt_orders r')). \<exists>y \<in> set (ob_active (rt_orders r)). po_intent y = po_intent x)"
    using assms(1)
  proof (induction rule: rtranclp_induct)
    case (step s t)
    then show ?case using engine_step_live engine_step_intents by metis
  qed (use assms(2) in auto)
  then show ?thesis using assms(3) by blast
qed

text \<open>The active order of an identity, if there is one, may fill at \<open>index\<close>.\<close>

definition due :: "int \<Rightarrow> string \<Rightarrow> runtime \<Rightarrow> bool" where
  "due index i r \<longleftrightarrow> (\<forall>x \<in> set (ob_active (rt_orders r)). po_order_id x = i \<longrightarrow> oi_eligible_index (po_intent x) \<le> index)"

lemma runs_due: "runs S index r s \<Longrightarrow> live r \<Longrightarrow> due index i r \<Longrightarrow> due index i s"
  unfolding due_def runs_def po_order_id_def using steps_intents by (metis (no_types, lifting))

lemma active_unique: "live r \<Longrightarrow> x \<in> set (ob_active (rt_orders r)) \<Longrightarrow> y \<in> set (ob_active (rt_orders r)) \<Longrightarrow>
    po_order_id x = po_order_id y \<Longrightarrow> x = y"
  using live_distinct by (metis distinct_map inj_onD)

lemma due_order: "live r \<Longrightarrow> p \<in> set (ob_active (rt_orders r)) \<Longrightarrow> oi_eligible_index (po_intent p) \<le> index \<Longrightarrow>
    due index (po_order_id p) r"
  unfolding due_def using active_unique by blast

lemma require_active_Inr [res_iff]:
  "require_active_order i r = Inr p \<longleftrightarrow> active_order i r = Some p"
  by (auto simp: require_active_order_def split: option.splits)

lemma active_order_Some: "active_order i r = Some p \<Longrightarrow> p \<in> set (ob_active (rt_orders r)) \<and> po_order_id p = i"
  by (auto simp: active_order_def find_Some_iff)

section \<open>Loops over orders\<close>

lemma cancel_active_runs:
  assumes "cancel_active_orders ex index reason selection r = Inr r'"
  shows "runs UNIV index r r'"
proof (cases "live r")
  case True
  have "runs (po_order_id ` set (ob_active (rt_orders r))) index r r'"
  proof (rule runs_snapshot [where g = id, simplified, OF assms [unfolded cancel_active_orders_def] True])
    show "distinct (map po_order_id (ob_active (rt_orders r)))" using live_distinct [OF True] .
  next
    fix s x s'
    assume "x \<in> set (ob_active (rt_orders s))" "cancel_masked ex index reason selection s x = Inr s'"
    then show "runs {po_order_id x} index s s'"
      by (auto simp: cancel_masked_def res_iff split: if_splits intro: cancel_one_runs)
  qed simp
  then show ?thesis by (rule runs_any)
qed (simp add: runs_def)

lemma read_exact_same: "read_exact r = Inr (vs, r') \<Longrightarrow> log_state r' = log_state r"
  by (auto simp: read_exact_def res_iff set_book_def log_state_def totals_of_def)

lemmas read_exact_runs = read_exact_same [THEN runs_account]

text \<open>What one round of \<open>prepare_orders\<close> does: it may accept the order it is at, if it is due.\<close>

definition prepares :: "int \<Rightarrow> pending_order \<Rightarrow> preparation \<Rightarrow> preparation \<Rightarrow> bool" where
  "prepares index order p p' \<longleftrightarrow> runs {po_order_id order} index (pp_runtime p) (pp_runtime p') \<and>
     (pp_accepted p' = pp_accepted p \<or> (oi_eligible_index (po_intent order) \<le> index \<and>
       (\<exists>q. pp_accepted p' = pp_accepted p @ [q] \<and> (live (pp_runtime p) \<longrightarrow> po_intent q = po_intent order))))"

lemma preparesI: "runs {po_order_id order} index (pp_runtime p) r \<Longrightarrow> prepares index order p (p\<lparr>pp_runtime := r\<rparr>)"
  by (simp add: prepares_def)

lemma accept_order_prepares:
  assumes "accept_order ex c over order d p = Inr p'" and "order \<in> set (ob_active (rt_orders (pp_runtime p)))"
    and "oi_eligible_index (po_intent order) \<le> bc_processing_index c"
  shows "prepares (bc_processing_index c) order p p'"
proof -
  obtain q r where "make_eligible ex (bc_processing_index c) order (pp_runtime p) = Inr (q, r)"
    "pp_runtime p' = r" "pp_accepted p' = pp_accepted p @ [q]"
    using assms(1) by (auto simp: accept_order_def Let_def res_iff)
  with make_eligible_runs [OF this(1) assms(2)] show ?thesis using assms(3) by (auto simp: prepares_def)
qed

lemma prepare_order_prepares:
  assumes "prepare_order ex pol c over actual p order = Inr p'" and act: "order \<in> set (ob_active (rt_orders (pp_runtime p)))"
  shows "prepares (bc_processing_index c) order p p'"
proof -
  let ?index = "bc_processing_index c"
  consider r where "expire_order ex ?index ''time_in_force_expired'' order (pp_runtime p) = Inr r" "p' = p\<lparr>pp_runtime := r\<rparr>"
    | r where "wait_order ex ?index order (pp_runtime p) = Inr r" "p' = p\<lparr>pp_runtime := r\<rparr>"
    | "oi_eligible_index (po_intent order) \<le> ?index" "admit_order ex pol c over actual p order = Inr p'"
    using assms(1) by (auto simp: prepare_order_def Let_def res_iff split: if_splits)
  then show ?thesis
  proof cases
    case 3
    then consider d where "accept_order ex c over order d p = Inr p'"
      | m r where "refuse_order ex ?index m order (pp_runtime p) = Inr r" "p' = p\<lparr>pp_runtime := r\<rparr>"
      unfolding admit_order_def Let_def bindr_Inr by (auto simp: bindr_Inr split: if_splits)
    then show ?thesis
      by cases (use 3(1) act in \<open>auto intro: accept_order_prepares preparesI refuse_order_runs\<close>)
  qed (use act in \<open>auto intro: preparesI expire_order_runs wait_order_runs\<close>)
qed

lemma prepares_due:
  assumes "prepares index order p p'" and live: "live (pp_runtime p)" and act: "order \<in> set (ob_active (rt_orders (pp_runtime p)))"
    and acc: "\<forall>q \<in> set (pp_accepted p). due index (po_order_id q) (pp_runtime p)"
  shows "\<forall>q \<in> set (pp_accepted p'). due index (po_order_id q) (pp_runtime p')"
proof -
  have run: "runs {po_order_id order} index (pp_runtime p) (pp_runtime p')" using assms(1) by (simp add: prepares_def)
  note keep = runs_due [OF run live]
  consider "pp_accepted p' = pp_accepted p"
    | q where "oi_eligible_index (po_intent order) \<le> index" "pp_accepted p' = pp_accepted p @ [q]" "po_intent q = po_intent order"
    using assms(1) live unfolding prepares_def by blast
  then show ?thesis
  proof cases
    case (2 q)
    then have "po_order_id q = po_order_id order" by (simp add: po_order_id_def)
    then show ?thesis using keep acc due_order [OF live act 2(1)] 2(2) by auto
  qed (use keep acc in auto)
qed

lemma prepare_orders_runs:
  assumes "prepare_orders ex pol c r = Inr (accepted, r')" and live: "live r"
  shows "runs UNIV (bc_processing_index c) r r' \<and> (\<forall>q \<in> set accepted. due (bc_processing_index c) (po_order_id q) r')"
proof (cases "ob_active (rt_orders r) = []")
  case True
  then have "log_state r' = log_state r" "accepted = []"
    using assms(1) by (auto simp: prepare_orders_def res_iff dest: read_exact_same split: if_splits)
  then show ?thesis by (simp add: runs_account)
next
  case False
  let ?index = "bc_processing_index c"
  obtain actual r1 j p where r1: "read_exact r = Inr (actual, r1)"
    and run: "foldr_res (prepare_order ex pol c (over_cap ex pol j) actual)
      \<lparr>pp_runtime = r1, pp_projection = j, pp_remaining = actual, pp_accepted = []\<rparr>
      (sort_key admission_key (ob_active (rt_orders r1))) = Inr p"
    and r': "accepted = pp_accepted p" "r' = pp_runtime p"
    using assms(1) False by (auto simp: prepare_orders_def res_iff)
  have l1: "live r1" using runs_liveD [OF read_exact_runs [OF r1] live] .
  have "distinct (map po_order_id (sort_key admission_key (ob_active (rt_orders r1))))"
    using live_distinct [OF l1] by (simp add: distinct_map)
  note snap = runs_snapshot_inv [where g = pp_runtime and index = ?index
      and Q = "\<lambda>p. \<forall>q \<in> set (pp_accepted p). due ?index (po_order_id q) (pp_runtime p)", OF run _ _ this, simplified, OF l1]
  have "runs (po_order_id ` set (ob_active (rt_orders r1))) ?index r1 r' \<and> (\<forall>q \<in> set accepted. due ?index (po_order_id q) r')"
    unfolding r'
  proof (rule snap)
    fix s x s'
    assume s: "live (pp_runtime s)" "x \<in> set (ob_active (rt_orders (pp_runtime s)))"
      "\<forall>q \<in> set (pp_accepted s). due ?index (po_order_id q) (pp_runtime s)"
      "prepare_order ex pol c (over_cap ex pol j) actual s x = Inr s'"
    note p = prepare_order_prepares [OF s(4,2)]
    then show "runs {po_order_id x} ?index (pp_runtime s) (pp_runtime s') \<and>
      (\<forall>q \<in> set (pp_accepted s'). due ?index (po_order_id q) (pp_runtime s'))"
      using prepares_due [OF p s(1,2,3)] by (simp add: prepares_def)
  qed
  then show ?thesis using read_exact_runs [OF r1] by (blast intro: runs_any runs_trans)
qed

lemma expire_attempted_runs:
  assumes "expire_attempted_remainders ex index attempted r = Inr r'"
  shows "runs UNIV index r r'"
proof (rule runs_fold [where g = id, simplified, OF assms [unfolded expire_attempted_remainders_def]])
  fix s i s'
  assume "expire_attempted ex index s i = Inr s'"
  then show "runs UNIV index s s'"
    by (auto simp: expire_attempted_def split: option.splits dest!: active_order_Some intro: runs_any expire_order_runs)
qed

section \<open>Fills\<close>

lemma observe_runs:
  assumes "append_event ex p p ''no_fill'' index d r = Inr r'" and "p \<in> set (ob_active (rt_orders r))"
    and "ed_filled_notional d = F 0"
  shows "runs {} index r r'" and "rt_orders r' = rt_orders r"
proof -
  obtain e where e: "records index r e p p" "oe_event_type e = ''no_fill''" "r' = r\<lparr>rt_events := rt_events r @ [e]\<rparr>"
    by (rule append_event_records [OF assms(1)])
  have "engine_step index r r'"
    by (rule engine_step.observe [OF assms(2) e(1,2)]) (simp add: e(3) log_state_def totals_of_def)
  then show "runs {} index r r'" using engine_step_live [of index r r'] by (auto simp: runs_def e(3))
  show "rt_orders r' = rt_orders r" by (simp add: e(3))
qed

lemma trigger_details_notional [simp]: "ed_filled_notional (trigger_details t path) = F 0"
  by (simp add: trigger_details_def)

lemma allocation_details_notional [simp]: "ed_filled_notional (allocation_details a e) = F 0"
  by (simp add: allocation_details_def)

lemma gather_order_runs:
  assumes run: "gather_order ex c symbol path g accepted_order = Inr g'" and live: "live (ga_runtime g)"
  shows "runs UNIV (bc_processing_index c) (ga_runtime g) (ga_runtime g') \<and>
    fst ` set (ga_metadata g') \<subseteq> insert (po_order_id accepted_order) (fst ` set (ga_metadata g))"
proof -
  let ?index = "bc_processing_index c"
  obtain order0 t order r1 where o0: "active_order (po_order_id accepted_order) (ga_runtime g) = Some order0"
    and rt: "record_trigger ex ?index t path (td_triggered t \<and> po_trigger_index order0 = None) order0 (ga_runtime g) = Inr (order, r1)"
    and rest: "(\<exists>d. append_event ex order order ''no_fill'' ?index d r1 = Inr (ga_runtime g') \<and>
        ed_filled_notional d = F 0 \<and> ga_metadata g' = ga_metadata g) \<or>
      (ga_runtime g' = r1 \<and> (\<exists>e. ga_metadata g' = (po_order_id order, e) # ga_metadata g))"
    using run by (fastforce simp: gather_order_def Let_def bindr_Inr require_active_Inr split: if_splits option.splits)
  note o0 = active_order_Some [OF o0]
  have act: "order \<in> set (ob_active (rt_orders r1))" "po_order_id order = po_order_id accepted_order"
    and first: "runs UNIV ?index (ga_runtime g) r1"
    using record_trigger_runs [OF rt] o0 live by (auto simp: po_order_id_def intro: runs_any)
  from rest show ?thesis
  proof (elim disjE exE conjE)
    fix d assume "append_event ex order order ''no_fill'' ?index d r1 = Inr (ga_runtime g')" "ed_filled_notional d = F 0"
      "ga_metadata g' = ga_metadata g"
    then show ?thesis using observe_runs(1) [of ex order ?index d r1] act first by (auto intro: runs_any runs_trans)
  qed (use first act in auto)
qed

lemma recheck_same:
  "recheck_closing_allocation order a r = Inr (a', r') \<Longrightarrow> log_state r' = log_state r"
  unfolding recheck_closing_allocation_def bindr_Inr
  by (auto simp: bindr_Inr dest: read_exact_same split: if_splits)

lemma record_no_fill_runs:
  assumes "record_no_fill ex index e a order r = Inr r'" and act: "order \<in> set (ob_active (rt_orders r))"
  shows "runs UNIV index r r'"
proof -
  obtain r1 where r1: "append_event ex order order ''no_fill'' index ((allocation_details a e)\<lparr>ed_reason := la_no_fill_reason a\<rparr>) r = Inr r1"
    and then_expire: "(case la_no_fill_reason a of None \<Rightarrow> Inr r1
     | Some reason \<Rightarrow> if reason \<in> {''reduce_only_exhausted'', ''reduce_only_inventory_changed''}
         then expire_order ex index reason order r1 else Inr r1) = Inr r'"
    using assms(1) unfolding record_no_fill_def bindr_Inr by blast
  then have rest: "r' = r1 \<or> (\<exists>reason. expire_order ex index reason order r1 = Inr r')"
    by (auto split: option.splits if_splits)
  note one = observe_runs [OF r1 act]
  have "runs UNIV index r r1" using one(1) by (auto intro: runs_any)
  moreover have "runs UNIV index r1 r'" using rest
  proof (elim disjE exE)
    fix reason assume "expire_order ex index reason order r1 = Inr r'"
    then show ?thesis by (rule runs_any [OF expire_order_runs]) (simp add: act one(2))
  qed simp
  ultimately show ?thesis by (rule runs_trans)
qed

lemma apply_fill_status:
  assumes "pending_ok p" and "apply_fill x n index lot k p = Inr q"
  shows "po_status q = FILLED \<or> po_status q = PARTIALLY_FILLED"
proof -
  obtain a where "filled_state (exact_cumulative p + a) n index p = Inr q" by (rule apply_fill_Inr [OF assms])
  then show ?thesis by (cases rule: filled_state_cases) auto
qed

lemma count_fill_same:
  assumes "count_fill symbol cost ref a r = Inr r'"
  shows "same_log r r' \<and> totals_of r' = (case totals_of r of (x, y, f, d, n) \<Rightarrow> (x, y, f + 1, d, fadd n (la_filled_notional a)))"
  using assms by (auto simp: count_fill_def Let_def bindr_Inr same_log_def totals_of_def)

lemma apply_allocation_runs:
  assumes run: "apply_allocation ex c symbol e a order r = Inr r'" and act: "order \<in> set (ob_active (rt_orders r))"
    and el: "oi_eligible_index (po_intent order) \<le> bc_processing_index c" and live: "live r"
  shows "runs UNIV (bc_processing_index c) r r'"
proof -
  let ?index = "bc_processing_index c"
  let ?a = "Fill (la_filled_quantity a) (la_filled_notional a) ?index (la_lot_size a) (la_lot_count a)"
  obtain ref cost draws q b r1 r2 where q: "apply_fill (la_filled_quantity a) (la_filled_notional a) ?index
      (la_lot_size a) (la_lot_count a) order = Inr q"
    and s: "settle_order ex order q (if po_status q = FILLED then ''filled'' else ''partial_fill'') ?index
      ((allocation_details a e)\<lparr>ed_filled_quantity := la_filled_quantity a, ed_execution_price := Some (fn_price e),
         ed_filled_notional := la_filled_notional a, ed_participation := la_participation_rate a,
         ed_reason := po_terminal_reason q\<rparr>) (r\<lparr>rt_book := b, rt_draws := draws\<rparr>) = Inr r1"
    and r2: "count_fill symbol cost ref a r1 = Inr r2"
    and rest: "(if po_status q = FILLED then Inr (r2\<lparr>rt_completed := rt_completed r2 + 1\<rparr>)
      else if la_exhausted a then expire_order ex ?index ''reduce_only_exhausted'' q r2 else Inr r2) = Inr r'"
    using run unfolding apply_allocation_def Let_def bindr_Inr split_paired_Ex prod.case by blast
  have st: "order_step order ?a q" using q by simp
  have stat: "po_status q = FILLED \<or> po_status q = PARTIALLY_FILLED"
    using apply_fill_status [OF _ q] live_active [OF live act] by blast
  define r3 where "r3 = (if po_status q = FILLED then r2\<lparr>rt_completed := rt_completed r2 + 1\<rparr> else r2)"
  have base: "totals_of r1 = totals_of r"
    using settle_order_totals(1) [OF s] by (simp add: totals_of_def)
  have tot: "totals_of r3 = count_event (totals_of r) ev"
    if "oe_event_type ev = (if po_status q = FILLED then ''filled'' else ''partial_fill'')"
      "oe_filled_notional ev = la_filled_notional a" for ev
    using that count_fill_same [OF r2] base stat
    by (auto simp: r3_def totals_of_def count_event_simps is_fill_event_def)
  have log: "same_log r1 r3" using count_fill_same [OF r2] by (simp add: r3_def same_log_def)
  have pre: "same_log r (r\<lparr>rt_book := b, rt_draws := draws\<rparr>)" by (simp add: same_log_def)
  have a: "action_index ?a = ?index" "action_notional ?a \<noteq> None \<longrightarrow> oi_eligible_index (po_intent order) \<le> ?index"
    "(if po_status q = FILLED then ''filled'' else ''partial_fill'') = action_event ?a q" using el by simp_all
  have one: "runs UNIV ?index r r3"
    by (rule runs_any, rule settle_runs(1) [OF s act st a(1,3,2) _ pre log]) (use tot in simp_all)
  show ?thesis
  proof (cases "r' = r3")
    case False
    with rest stat have ex: "po_status q = PARTIALLY_FILLED" "expire_order ex ?index ''reduce_only_exhausted'' q r3 = Inr r'"
      by (auto simp: r3_def split: if_splits)
    have "\<not> po_terminal q" using ex(1) by (simp add: po_terminal_def status_terminal_def)
    then have "q \<in> set (ob_active (rt_orders r3))"
      by (intro settle_runs(2) [OF s act st a(1,3,2) _ pre log _ live]) (use tot in simp_all)
    from expire_order_runs [OF ex(2) this] one show ?thesis by (blast intro: runs_any runs_trans)
  qed (use one in simp)
qed

lemma fill_allocation_runs:
  assumes run: "fill_allocation ex c symbol metadata (r, remaining) a0 = Inr (r', remaining')" and live: "live r"
    and meta: "\<forall>i \<in> fst ` set metadata. due (bc_processing_index c) i r"
  shows "runs UNIV (bc_processing_index c) r r'"
proof (cases "absorbed ex r")
  case False
  let ?index = "bc_processing_index c"
  obtain e order a1 r1 a where e: "map_of metadata (la_order_id a0) = Some e"
    and order: "active_order (la_order_id a0) r = Some order"
    and r1: "recheck_closing_allocation order a0 r = Inr (a1, r1)"
    and rest: "record_no_fill ex ?index e a order r1 = Inr r' \<or> apply_allocation ex c symbol e a order r1 = Inr r'"
    using run False by (fastforce simp: fill_allocation_def Let_def bindr_Inr require_active_Inr split: if_splits option.splits)
  note order = active_order_Some [OF order]
  note same = recheck_same [OF r1]
  have l1: "live r1" using live by (simp add: live_def log_state_same(1) [OF same])
  have act: "order \<in> set (ob_active (rt_orders r1))" using order by (simp add: log_state_same(1) [OF same])
  have "la_order_id a0 \<in> fst ` set metadata" using e by (metis domI dom_map_of_conv_image_fst)
  then have el: "oi_eligible_index (po_intent order) \<le> ?index" using meta order by (auto simp: due_def)
  have "runs UNIV ?index r1 r'"
    using rest record_no_fill_runs act apply_allocation_runs [OF _ act el l1] by blast
  then show ?thesis using runs_account [OF same] by (blast intro: runs_trans)
qed (use run in \<open>simp add: fill_allocation_def\<close>)

end
