(* ===== verification/EngineBars.thy ===== *)
theory EngineBars
  imports EngineRuns
begin

text \<open>
  The bar as a run of engine steps, and the loop over the bars.  The facts on what a run preserves are
  proved on single steps, in \<open>EngineTrace\<close>, and collected here.
\<close>

section \<open>The symbols of a bar\<close>

lemma gather_orders_runs:
  assumes "foldr_res (gather_order ex c symbol path) g orders = Inr g'" and live: "live (ga_runtime g)"
  shows "runs UNIV (bc_processing_index c) (ga_runtime g) (ga_runtime g') \<and>
    fst ` set (ga_metadata g') \<subseteq> fst ` set (ga_metadata g) \<union> po_order_id ` set orders"
  using assms(1)
proof (rule foldr_res_inv)
  fix s x s'
  assume IH: "runs UNIV (bc_processing_index c) (ga_runtime g) (ga_runtime s) \<and>
      fst ` set (ga_metadata s) \<subseteq> fst ` set (ga_metadata g) \<union> po_order_id ` set orders"
    and x: "x \<in> set orders" and run: "gather_order ex c symbol path s x = Inr s'"
  have "live (ga_runtime s)" using IH live runs_liveD by blast
  from gather_order_runs [OF run this] IH x
  show "runs UNIV (bc_processing_index c) (ga_runtime g) (ga_runtime s') \<and>
      fst ` set (ga_metadata s') \<subseteq> fst ` set (ga_metadata g) \<union> po_order_id ` set orders"
    by (blast intro: runs_trans)
qed simp

lemma fill_symbol_runs:
  assumes run: "fill_symbol ex c symbol g = Inr r'" and live: "live (ga_runtime g)"
    and meta: "\<forall>i \<in> fst ` set (ga_metadata g). due (bc_processing_index c) i (ga_runtime g)"
  shows "runs UNIV (bc_processing_index c) (ga_runtime g) r'"
proof (cases "ga_requests g = []")
  case False
  let ?index = "bc_processing_index c" and ?r = "ga_runtime g"
  obtain vals r1 allocations r2 remaining xs and evidence :: capacity_evidence where r1: "read_exact ?r = Inr (vals, r1)"
    and fold: "foldr_res (fill_allocation ex c symbol (ga_metadata g)) (r1, ce_initial_capacity evidence) allocations = Inr (r2, remaining)"
    and "Inr (r2\<lparr>rt_capacities := xs\<rparr>) = Inr r'"
    using run unfolding fill_symbol_def if_not_P [OF False] bindr_Inr split_paired_Ex prod.case
    by blast
  then have r': "log_state r' = log_state r2" by (auto simp: log_state_def totals_of_def)
  note first = read_exact_runs [OF r1]
  have "runs UNIV ?index ?r (fst (r2, remaining))"
    using fold
  proof (rule foldr_res_inv)
    show "runs UNIV ?index ?r (fst (r1, ce_initial_capacity evidence))" using first by simp
  next
    fix s x s'
    assume IH: "runs UNIV ?index ?r (fst s)" and step: "fill_allocation ex c symbol (ga_metadata g) s x = Inr s'"
    obtain u k u' k' where s: "s = (u, k)" "s' = (u', k')" by (cases s, cases s')
    have "live u" using IH live runs_liveD s by fastforce
    moreover have "\<forall>i \<in> fst ` set (ga_metadata g). due ?index i u" using runs_due [OF IH live] meta s by simp
    ultimately have "runs UNIV ?index u u'" using step unfolding s by (intro fill_allocation_runs)
    with IH show "runs UNIV ?index ?r (fst s')" unfolding s fst_conv by (rule runs_trans)
  qed
  then show ?thesis using runs_account [OF r'] by (auto intro: runs_trans)
qed (use run in \<open>simp add: fill_symbol_def\<close>)

lemma process_symbol_runs:
  assumes run: "process_symbol ex c accepted (attempted, r) symbol = Inr (attempted', r')" and live: "live r"
    and acc: "\<forall>p \<in> set accepted. due (bc_processing_index c) (po_order_id p) r"
  shows "runs UNIV (bc_processing_index c) r r'"
proof (cases "absorbed ex r")
  case False
  let ?index = "bc_processing_index c" and ?orders = "filter (\<lambda>p. oi_symbol_index (po_intent p) = symbol) accepted"
  obtain path g where gather: "foldr_res (gather_order ex c symbol path)
       \<lparr>ga_runtime = r, ga_requests = [], ga_metadata = [], ga_attempted = attempted\<rparr> ?orders = Inr g"
    and fill: "fill_symbol ex c symbol g = Inr r'"
    using run False by (auto simp: process_symbol_def Let_def bindr_Inr)
  have one: "runs UNIV ?index r (ga_runtime g)" and keys: "fst ` set (ga_metadata g) \<subseteq> po_order_id ` set ?orders"
    using gather_orders_runs [OF gather] live by auto
  have "\<forall>i \<in> fst ` set (ga_metadata g). due ?index i (ga_runtime g)"
    using keys acc runs_due [OF one live] by fastforce
  with fill runs_liveD [OF one live] have "runs UNIV ?index (ga_runtime g) r'" by (rule fill_symbol_runs)
  with one show ?thesis by (rule runs_trans)
qed (use run in \<open>simp add: process_symbol_def\<close>)

lemma process_symbols_runs:
  assumes run: "process_symbols ex c accepted r = Inr (attempted, r')" and live: "live r"
    and acc: "\<forall>p \<in> set accepted. due (bc_processing_index c) (po_order_id p) r"
  shows "runs UNIV (bc_processing_index c) r r'"
proof -
  have "runs UNIV (bc_processing_index c) r (snd (attempted, r'))"
    using run [unfolded process_symbols_def]
  proof (rule foldr_res_inv)
    fix s x s'
    assume IH: "runs UNIV (bc_processing_index c) r (snd s)" and step: "process_symbol ex c accepted s x = Inr s'"
    obtain a u a' u' where s: "s = (a, u)" "s' = (a', u')" by (cases s, cases s')
    have "live u" "\<forall>p \<in> set accepted. due (bc_processing_index c) (po_order_id p) u"
      using runs_liveD [OF IH live] runs_due [OF IH live] acc by (simp_all add: s)
    with step have "runs UNIV (bc_processing_index c) u u'" unfolding s by (intro process_symbol_runs)
    with IH show "runs UNIV (bc_processing_index c) r (snd s')" unfolding s snd_conv by (rule runs_trans)
  qed simp
  then show ?thesis by simp
qed

section \<open>The lifecycle of a bar\<close>

lemma cancel_and_flatten_runs:
  assumes "cancel_and_flatten ex index prices r = Inr r'"
  shows "runs UNIV index r r'"
proof -
  obtain r1 where r1: "cancel_active_orders ex index ''economic_termination'' None r = Inr r1" "r' = flatten_runtime ex prices r1"
    using assms by (auto simp: cancel_and_flatten_def bindr_Inr)
  show ?thesis unfolding r1(2) flatten_runtime_def by (rule runs_trans [OF cancel_active_runs [OF r1(1)]]) simp
qed

lemma gap_carry_runs: "gap_carry ex index gap r = Inr (d, r') \<Longrightarrow> runs UNIV index r r'"
  by (rule runs_account) (auto simp: gap_carry_def Let_def bindr_Inr log_state_def totals_of_def split: if_splits)

lemma adjust_splits_runs:
  assumes "adjust_splits ex index r = Inr r'"
  shows "runs UNIV index r r'"
proof -
  consider "r' = r" | s r1 b where "r1 = r \<or> cancel_active_orders ex index ''split_adjustment_required'' s r = Inr r1"
      "r' = set_book b r1"
    using assms by (auto simp: adjust_splits_def bindr_Inr split: if_splits)
  then show ?thesis
    by cases (auto intro: runs_trans [OF cancel_active_runs])
qed

lemma settle_inactive_runs:
  assumes "settle_inactive ex index r = Inr r'"
  shows "runs UNIV index r r'"
proof -
  consider "r' = r" | s r1 b where "cancel_active_orders ex index ''inactive_asset'' s r = Inr r1" "r' = r1 \<or> r' = set_book b r1"
    using assms by (auto simp: settle_inactive_def Let_def bindr_Inr split: if_splits)
  then show ?thesis
    by cases (auto intro: cancel_active_runs runs_trans [OF cancel_active_runs])
qed

lemma revalue_open_runs:
  assumes "revalue_open ex index gap prices r = Inr r'"
  shows "runs UNIV index r r'"
proof -
  consider b where "r' = set_book b r" | b c where "r' = set_book c (set_book b r)"
    | b c where "cancel_and_flatten ex index prices (set_book c (set_book b r)) = Inr r'"
    using assms by (auto simp: revalue_open_def Let_def bindr_Inr split: if_splits)
  then show ?thesis
  proof cases
    case (3 b c)
    from cancel_and_flatten_runs [OF this] show ?thesis by (rule runs_trans [OF runs_set_book runs_trans [OF runs_set_book]])
  qed (auto intro: runs_trans [OF runs_set_book])
qed

lemma begin_bar_runs:
  assumes "begin_bar ex previous_index index r = Inr (c, r')"
  shows "runs UNIV index r r'" "bc_processing_index c = index"
proof -
  obtain d r1 gap where r1: "(if flt (F 0) gap then gap_carry ex index gap r else Inr (F 0, r)) = Inr (d, r1)"
    and rest: "r' = r1 \<or> (\<exists>r2 r3 prices. adjust_splits ex index r1 = Inr r2 \<and> settle_inactive ex index r2 = Inr r3 \<and>
      revalue_open ex index gap prices r3 = Inr r')"
    and c: "bc_processing_index c = index"
    using assms by (fastforce simp: begin_bar_def bar_context_of_def Let_def bindr_Inr split: if_splits)
  have "runs UNIV index r r1" using r1 gap_carry_runs by (auto split: if_splits)
  then show "runs UNIV index r r'"
    using rest adjust_splits_runs settle_inactive_runs revalue_open_runs by (blast intro: runs_trans)
  show "bc_processing_index c = index" by (rule c)
qed

lemma unless_terminated_runs:
  assumes "unless_terminated ex c r continue = Inr r'"
    and "continue r = Inr r' \<Longrightarrow> runs UNIV (bc_processing_index c) r r'"
  shows "runs UNIV (bc_processing_index c) r r'"
proof -
  let ?index = "bc_processing_index c"
  consider "continue r = Inr r'"
    | r1 b where "cancel_and_flatten ex ?index (bs_marks (rt_book r)) r = Inr r1" "r' = set_book b r1"
    using assms(1) by (auto simp: unless_terminated_def finish_retained_termination_def bindr_Inr split: if_splits)
  then show ?thesis
    by cases (auto intro: assms(2) runs_trans [OF cancel_and_flatten_runs])
qed

lemma record_funding_runs: "record_funding_boundary ex index funding observed r = Inr r' \<Longrightarrow> runs S i r r'"
  by (rule runs_account)
    (auto simp: record_funding_boundary_def Let_def bindr_Inr log_state_def totals_of_def split: if_splits)

lemma mark_and_fund_runs:
  assumes "mark_and_fund ex c funding r = Inr r'"
  shows "runs UNIV (bc_processing_index c) r r'"
proof -
  let ?index = "bc_processing_index c"
  obtain b observed r1 b2 marks where r1: "record_funding_boundary ex ?index funding observed (set_book b r) = Inr r1"
    and flat: "(if bs_insolvent b2 then cancel_and_flatten ex ?index marks (set_book b2 r1) else Inr (set_book b2 r1)) = Inr r'"
    using assms unfolding mark_and_fund_def Let_def bindr_Inr split_paired_Ex prod.case by blast
  from flat have rest: "r' = set_book b2 r1 \<or> cancel_and_flatten ex ?index marks (set_book b2 r1) = Inr r'"
    by (simp split: if_splits)
  have "runs UNIV ?index r r1" by (rule runs_trans [OF runs_set_book record_funding_runs [OF r1]])
  moreover have "runs UNIV ?index (set_book b2 r1) r'" using rest cancel_and_flatten_runs by auto
  ultimately show ?thesis by (meson runs_set_book runs_trans)
qed

text \<open>The totals that are not of the log.\<close>

lemma runs_accounts [simp, intro]:
  "runs S index r (r\<lparr>rt_book := b, rt_dividend := x\<rparr>)" "runs S index r (r\<lparr>rt_book := b, rt_interest := x\<rparr>)"
  "runs S index r (r\<lparr>rt_book := b, rt_borrow := x\<rparr>)" "runs S index r (r\<lparr>rt_funding := x\<rparr>)"
  by (rule runs_account; simp add: log_state_def totals_of_def)+

lemma finish_bar_runs:
  assumes "finish_bar ex c r = Inr r'"
  shows "runs UNIV (bc_processing_index c) r r'"
proof (rule unless_terminated_runs [OF assms [unfolded finish_bar_def Let_def]])
  let ?index = "bc_processing_index c"
  let ?run = "runs UNIV ?index"
  let ?flat = "if bs_insolvent (rt_book r) then cancel_and_flatten ex ?index (bc_open_prices c) r else Inr r"
  let ?fund = "\<lambda>r3. bindr (charge_carry ex ?index (bc_year_fraction c) (rt_book r3)) (\<lambda>(funding, borrow, b3).
     unless_terminated ex c (r3\<lparr>rt_book := b3, rt_borrow := fadd (rt_borrow r3) borrow\<rparr>) (\<lambda>r4.
     mark_and_fund ex c funding (r4\<lparr>rt_funding := fadd (rt_funding r4) funding\<rparr>)))"
  let ?earn = "\<lambda>r2. bindr (processing_cash_interest ex c r2) (\<lambda>(interest, b2).
     unless_terminated ex c (r2\<lparr>rt_book := b2, rt_interest := fadd (rt_interest r2) interest\<rparr>) ?fund)"
  have fund: "?run r3 r'" if f: "?fund r3 = Inr r'" for r3
  proof -
    obtain funding borrow b3 where "unless_terminated ex c (r3\<lparr>rt_book := b3, rt_borrow := fadd (rt_borrow r3) borrow\<rparr>)
        (\<lambda>r4. mark_and_fund ex c funding (r4\<lparr>rt_funding := fadd (rt_funding r4) funding\<rparr>)) = Inr r'"
      using f unfolding bindr_Inr split_paired_Ex prod.case by blast
    then show ?thesis
      by (rule runs_trans [OF runs_accounts(3) unless_terminated_runs])
        (rule runs_trans [OF runs_accounts(4) mark_and_fund_runs])
  qed
  have earn: "?run r2 r'" if f: "?earn r2 = Inr r'" for r2
  proof -
    obtain interest b2 where
        "unless_terminated ex c (r2\<lparr>rt_book := b2, rt_interest := fadd (rt_interest r2) interest\<rparr>) ?fund = Inr r'"
      using f unfolding bindr_Inr split_paired_Ex prod.case by blast
    then show ?thesis by (rule runs_trans [OF runs_accounts(2) unless_terminated_runs]) (rule fund)
  qed
  assume "bindr ?flat (\<lambda>r1. bindr (vec_at (mk_dividend (ex_market ex)) ?index) (\<lambda>dividend_row.
     bindr (apply_dividend (ex_nsum ex) (ex_ndot ex) dividend_row (rt_book r1)) (\<lambda>(dividend, b1).
     unless_terminated ex c (r1\<lparr>rt_book := b1, rt_dividend := fadd (rt_dividend r1) dividend\<rparr>) ?earn))) = Inr r'"
  then obtain r1 dividend b1 where r1: "?flat = Inr r1" and
      div: "unless_terminated ex c (r1\<lparr>rt_book := b1, rt_dividend := fadd (rt_dividend r1) dividend\<rparr>) ?earn = Inr r'"
    unfolding bindr_Inr split_paired_Ex prod.case by blast
  have "?run r r1" using r1 cancel_and_flatten_runs by (auto split: if_splits)
  moreover from div have "?run r1 r'"
    by (rule runs_trans [OF runs_accounts(1) unless_terminated_runs]) (rule earn)
  ultimately show "?run r r'" by (rule runs_trans)
qed

section \<open>The bars\<close>

text \<open>From the admission to the expiries.\<close>

lemma mid_bar_runs:
  assumes mid: "(if absorbed ex r1 then Inr r1
       else bindr (prepare_orders ex pol c r1) (\<lambda>(accepted, r2).
         bindr (process_symbols ex c accepted r2) (\<lambda>(attempted, r3).
         if absorbed ex r3 then Inr r3 else expire_attempted_remainders ex (bc_processing_index c) attempted r3))) = Inr r4"
  shows "runs UNIV (bc_processing_index c) r1 r4"
proof (cases "live r1 \<and> \<not> absorbed ex r1")
  case True
  let ?index = "bc_processing_index c"
  from True have l1: "live r1" and no: "\<not> absorbed ex r1" by simp_all
  obtain accepted r2 attempted r3 where p: "prepare_orders ex pol c r1 = Inr (accepted, r2)"
    and s: "process_symbols ex c accepted r2 = Inr (attempted, r3)"
    and x: "(if absorbed ex r3 then Inr r3 else expire_attempted_remainders ex ?index attempted r3) = Inr r4"
    using mid unfolding if_not_P [OF no] bindr_Inr split_paired_Ex prod.case by blast
  note p = prepare_orders_runs [OF p l1]
  have "runs UNIV ?index r2 r3"
    using process_symbols_runs [OF s runs_liveD [OF conjunct1 [OF p] l1] conjunct2 [OF p]] .
  moreover have "runs UNIV ?index r3 r4" using x expire_attempted_runs by (auto split: if_splits)
  ultimately show ?thesis using p by (metis runs_trans)
qed (use mid in \<open>auto simp: runs_def\<close>)

lemma execute_bar_runs:
  assumes run: "execute_bar ex pol previous_index r = Inr r'"
  shows "runs UNIV (previous_index + 1) r r'"
proof -
  let ?index = "previous_index + 1"
  obtain c r1 r4 where b: "begin_bar ex previous_index ?index r = Inr (c, r1)"
    and mid: "(if absorbed ex r1 then Inr r1
       else bindr (prepare_orders ex pol c r1) (\<lambda>(accepted, r2).
         bindr (process_symbols ex c accepted r2) (\<lambda>(attempted, r3).
         if absorbed ex r3 then Inr r3 else expire_attempted_remainders ex ?index attempted r3))) = Inr r4"
    and f: "finish_bar ex c r4 = Inr r'"
    using run unfolding execute_bar_def Let_def bindr_Inr split_paired_Ex prod.case by blast
  note b = begin_bar_runs [OF b]
  show ?thesis
    by (rule runs_trans [OF b(1) runs_trans [OF mid_bar_runs [of ex r1 pol c r4, unfolded b(2), OF mid]
      finish_bar_runs [OF f, unfolded b(2)]]])
qed

end
