(* ===== verification/EngineHistory.thy ===== *)
theory EngineHistory
  imports EngineBars
begin

text \<open>
  What every run of the engine preserves: the events are a consistent history of the orders, the
  totals are the fold of the events, and no order is lost.  Each fact is proved for one step and
  carried over runs and bars.
\<close>

section \<open>Reading the log\<close>

text \<open>The status each order was last seen in, and a log whose events continue where the order was left.\<close>

definition replay :: "order_event list \<Rightarrow> string \<Rightarrow> order_status option" where
  "replay es = foldl (\<lambda>m e. m(oe_order_id e \<mapsto> oe_new_status e)) Map.empty es"

fun chained :: "order_event list \<Rightarrow> bool" where
  "chained [] \<longleftrightarrow> True"
| "chained (e # es) \<longleftrightarrow> (\<forall>f. find (\<lambda>f. oe_order_id f = oe_order_id e) es = Some f \<longrightarrow> oe_previous_status f = oe_new_status e) \<and>
     chained es"

text \<open>The events that close an order.\<close>

definition closes :: "order_event \<Rightarrow> bool" where
  "closes e \<longleftrightarrow> status_terminal (oe_new_status e)"

text \<open>The notionals of the fills of one order, in order; the order's own total is their running sum.\<close>

definition fills_of :: "order_event list \<Rightarrow> string \<Rightarrow> f64 list" where
  "fills_of es i = map oe_filled_notional (filter (\<lambda>e. is_fill_event e \<and> oe_order_id e = i) es)"

lemma fills_of_simps [simp]:
  "fills_of [] i = []" "fills_of (es @ fs) i = fills_of es i @ fills_of fs i"
  "fills_of [e] i = (if is_fill_event e \<and> oe_order_id e = i then [oe_filled_notional e] else [])"
  by (simp_all add: fills_of_def)

definition accounted :: "order_event list \<Rightarrow> pending_order list \<Rightarrow> pending_order \<Rightarrow> bool" where
  "accounted es ps q \<longleftrightarrow> (\<exists>p \<in> set ps. po_intent p = po_intent q \<and>
     po_cumulative_filled_notional q = foldl fadd (po_cumulative_filled_notional p) (fills_of es (po_order_id q)))"

lemma accounted_trans:
  assumes "accounted fs (all_orders s) q" and "\<forall>x \<in> set (all_orders s). accounted es ps x"
  shows "accounted (es @ fs) ps q"
proof -
  obtain x where x: "x \<in> set (all_orders s)" "po_intent x = po_intent q"
    "po_cumulative_filled_notional q = foldl fadd (po_cumulative_filled_notional x) (fills_of fs (po_order_id q))"
    using assms(1) by (auto simp: accounted_def)
  have id: "po_order_id x = po_order_id q" using x(2) by (simp add: po_order_id_def)
  obtain y where y: "y \<in> set ps" "po_intent y = po_intent x"
    "po_cumulative_filled_notional x = foldl fadd (po_cumulative_filled_notional y) (fills_of es (po_order_id x))"
    using assms(2) x(1) by (auto simp: accounted_def)
  show ?thesis unfolding accounted_def by (rule bexI [OF _ y(1)]) (simp add: x y id)
qed

lemma accounted_self: "q \<in> set ps \<Longrightarrow> fills_of es (po_order_id q) = [] \<Longrightarrow> accounted es ps q"
  by (auto simp: accounted_def)

lemma replay_simps [simp]:
  "replay [] = Map.empty" "replay (es @ [e]) = (replay es)(oe_order_id e \<mapsto> oe_new_status e)"
  by (simp_all add: replay_def)

lemma replay_None: "replay es i = None \<longleftrightarrow> i \<notin> oe_order_id ` set es"
  by (induction es rule: rev_induct) auto

lemma chained_snoc:
  assumes "chained es" and "replay es (oe_order_id e) \<in> {None, Some (oe_previous_status e)}"
  shows "chained (es @ [e])"
proof -
  have last: "find (\<lambda>f. oe_order_id f = i) (xs @ [e]) = Some f \<Longrightarrow> find (\<lambda>f. oe_order_id f = i) xs = Some f \<or>
      (f = e \<and> oe_order_id e = i \<and> i \<notin> oe_order_id ` set xs)" for i f xs
    by (induction xs) (auto split: if_splits)
  have fresh: "replay (d # xs) (oe_order_id d) = Some (oe_new_status d)"
    if "oe_order_id d \<notin> oe_order_id ` set xs" for d and xs :: "order_event list"
    using that by (induction xs rule: rev_induct) (auto simp: replay_def)
  have tail: "replay (d # xs) i = (if i \<in> oe_order_id ` set xs then replay xs i
      else if i = oe_order_id d then Some (oe_new_status d) else None)" for d i and xs :: "order_event list"
    by (induction xs rule: rev_induct) (auto simp: replay_def)
  from assms show ?thesis
  proof (induction es)
    case (Cons d ds)
    have "replay ds (oe_order_id e) \<in> {None, Some (oe_previous_status e)}"
      using Cons.prems(2) replay_None [of ds "oe_order_id e"] by (auto simp: tail split: if_splits)
    moreover have "oe_previous_status f = oe_new_status d" if "find (\<lambda>f. oe_order_id f = oe_order_id d) (ds @ [e]) = Some f" for f
      using last [OF that] Cons.prems fresh by (auto simp: tail)
    ultimately show ?case using Cons by simp
  qed simp
qed

text \<open>The log of a runtime tells the status of its orders.\<close>

definition consistent :: "runtime \<Rightarrow> bool" where
  "consistent r \<longleftrightarrow> chained (rt_events r) \<and> oe_order_id ` set (rt_events r) \<subseteq> set (book_ids (rt_orders r)) \<and>
     (\<forall>p \<in> set (all_orders (rt_orders r)). replay (rt_events r) (po_order_id p) \<in> {None, Some (po_status p)})"

lemma order_id_in_book: "x \<in> set (all_orders b) \<Longrightarrow> po_order_id x \<in> set (book_ids b)"
  by (simp add: book_ids_def all_orders_def del: map_append set_append)

section \<open>One step\<close>

text \<open>What a step adds: the events, and the orders it archives.\<close>

definition extends :: "int \<Rightarrow> runtime \<Rightarrow> runtime \<Rightarrow> order_event list \<Rightarrow> bool" where
  "extends index r r' es \<longleftrightarrow> rt_events r' = rt_events r @ es \<and>
     (\<forall>e \<in> set es. event_wf e \<and> oe_processing_index e = index) \<and>
     map oe_sequence es = map int [length (rt_events r) ..< length (rt_events r')] \<and>
     totals_of r' = foldl count_event (totals_of r) es \<and>
     mset (book_ids (rt_orders r')) = mset (book_ids (rt_orders r)) \<and>
     (\<exists>s. archive_list (ob_terminal (rt_orders r')) = archive_list (ob_terminal (rt_orders r)) @ s \<and>
        map po_order_id s = map oe_order_id (filter closes es)) \<and>
     (\<forall>x \<in> set (all_orders (rt_orders r')). accounted es (all_orders (rt_orders r)) x) \<and>
     (\<forall>e \<in> set es. is_fill_event e \<longrightarrow> (\<exists>p \<in> set (all_orders (rt_orders r)). po_order_id p = oe_order_id e \<and>
        oi_eligible_index (po_intent p) \<le> index))"

lemma extends_refl: "rt_events r' = rt_events r \<Longrightarrow> totals_of r' = totals_of r \<Longrightarrow> rt_orders r' = rt_orders r \<Longrightarrow>
    extends index r r' []"
  by (auto simp: extends_def intro: accounted_self)

lemma upt_join: "i \<le> j \<Longrightarrow> j \<le> k \<Longrightarrow> [i ..< k] = [i ..< j] @ [j ..< k]"
  using upt_add_eq_append [of i j "k - j"] by simp

lemma extends_trans:
  assumes "extends index r s es" and "extends index s t fs"
  shows "extends index r t (es @ fs)"
proof -
  have n: "[length (rt_events r) ..< length (rt_events t)] =
      [length (rt_events r) ..< length (rt_events s)] @ [length (rt_events s) ..< length (rt_events t)]"
    using assms by (intro upt_join) (simp_all add: extends_def)
  have fills: "\<exists>p \<in> set (all_orders (rt_orders r)). po_order_id p = oe_order_id e \<and> oi_eligible_index (po_intent p) \<le> index"
    if "e \<in> set fs" "is_fill_event e" for e
    using assms that unfolding extends_def accounted_def po_order_id_def by (metis (no_types, lifting))
  have intents: "accounted (es @ fs) (all_orders (rt_orders r)) x" if "x \<in> set (all_orders (rt_orders t))" for x
    using assms that unfolding extends_def by (intro accounted_trans) auto
  obtain u v where "archive_list (ob_terminal (rt_orders s)) = archive_list (ob_terminal (rt_orders r)) @ u"
    "map po_order_id u = map oe_order_id (filter closes es)"
    "archive_list (ob_terminal (rt_orders t)) = archive_list (ob_terminal (rt_orders s)) @ v"
    "map po_order_id v = map oe_order_id (filter closes fs)"
    using assms by (auto simp: extends_def)
  then have "\<exists>s'. archive_list (ob_terminal (rt_orders t)) = archive_list (ob_terminal (rt_orders r)) @ s' \<and>
      map po_order_id s' = map oe_order_id (filter closes (es @ fs))"
    by (intro exI [of _ "u @ v"]) simp
  then show ?thesis using assms fills intents unfolding extends_def n by auto
qed

lemma action_fill: "is_fill_event e \<Longrightarrow> oe_event_type e = action_event a q \<Longrightarrow> action_notional a \<noteq> None"
  by (cases a) (auto simp: is_fill_event_def split: if_splits)

lemma fill_action: "oe_event_type e = action_event a q \<Longrightarrow> is_fill_event e \<longleftrightarrow> action_notional a \<noteq> None"
  by (cases a) (auto simp: is_fill_event_def split: if_splits)

lemma order_step_notional:
  assumes "pending_ok p" and "order_step p a q"
  shows "po_cumulative_filled_notional q = (case action_notional a of None \<Rightarrow> po_cumulative_filled_notional p
    | Some n \<Rightarrow> fadd (po_cumulative_filled_notional p) n)"
proof (cases "\<exists>x n i lot k. a = Fill x n i lot k")
  case True
  then obtain x n i lot k where a: "a = Fill x n i lot k" by blast
  with assms(2) have f: "apply_fill x n i lot k p = Inr q" by simp
  obtain b where "filled_state (exact_cumulative p + b) n i p = Inr q" by (rule apply_fill_Inr [OF assms(1) f])
  then show ?thesis using filled_state_frame by (auto simp: a)
next
  case False
  then obtain st r t where "q = moved st (action_index a) r t p" using order_step_moved [OF assms] by metis
  with False show ?thesis by (cases a) (simp_all add: moved_def)
qed

lemma all_orders_replace:
  assumes "book_replace new q b = Inr c" and "p \<in> set (ob_active b)" and "po_order_id p = po_order_id q" and "book_ok b"
  shows "set (all_orders c) = insert q (set (all_orders b) - {p})" and "po_terminal q \<Longrightarrow> q \<in> set (archive_list (ob_terminal c))"
proof -
  obtain l p' r where b: "ob_active b = l @ p' # r" "po_order_id p' = po_order_id q"
    and c: "c = (if po_terminal q then \<lparr>ob_active = l @ r, ob_terminal = archive_append new q (ob_terminal b)\<rparr>
          else b\<lparr>ob_active := l @ q # r\<rparr>)"
    using assms(1) by (rule book_replace_Inr)
  have d: "distinct (map po_order_id (all_orders b))" using assms(4) by (simp add: book_ok_def book_ids_def all_orders_def)
  moreover have "p' \<in> set (all_orders b)" "p \<in> set (all_orders b)" using assms(2) b by (auto simp: all_orders_def)
  ultimately have "p' = p" using assms(3) b(2) by (metis distinct_map inj_onD)
  moreover have "distinct (all_orders b)" using d by (simp add: distinct_map)
  ultimately show "set (all_orders c) = insert q (set (all_orders b) - {p})"
    using b c by (auto simp: all_orders_def)
  show "po_terminal q \<Longrightarrow> q \<in> set (archive_list (ob_terminal c))" using c by simp
qed

lemma engine_step_extends:
  assumes "engine_step index r r'" and live: "live r"
  shows "\<exists>es. extends index r r' es"
  using assms(1)
proof cases
  case account
  then show ?thesis using extends_refl log_state_same by blast
next
  case (observe p e)
  note l = log_stateD [OF observe(4)]
  have "\<not> po_terminal p" using live_active [OF live observe(1)] by simp
  then have "extends index r r' [e]" using observe(2,3) l
    by (auto simp: extends_def records_def closes_def po_terminal_def is_fill_event_def count_event_def fills_of_def Let_def
      intro: accounted_self split: prod.splits)
  then show ?thesis by blast
next
  case (advance p a q ob e)
  note l = log_stateD [OF advance(9)]
  have q: "po_intent q = po_intent p" "\<not> po_terminal p"
    using order_step_frame [OF _ advance(2)] live_active [OF live advance(1)] by auto
  then have id: "po_order_id p = po_order_id q" by (simp add: po_order_id_def)
  note all = all_orders_replace [OF advance(5,1) id live [unfolded live_def]]
  have arch: "archive_list (ob_terminal ob) = archive_list (ob_terminal (rt_orders r)) @ (if po_terminal q then [q] else [])"
    using advance(5) by (rule book_replace_Inr) auto
  have p: "p \<in> set (all_orders (rt_orders r))" using advance(1) by (simp add: all_orders_def)
  have e: "event_wf e" "oe_processing_index e = index" "oe_sequence e = int (length (rt_events r))" "oe_order_id e = po_order_id q"
    "closes e \<longleftrightarrow> po_terminal q"
    using advance(6) by (simp_all add: records_def closes_def po_terminal_def)
  have "extends index r r' [e]" unfolding extends_def l
  proof (intro conjI)
    show "mset (book_ids ob) = mset (book_ids (rt_orders r))" using advance(5) by (rule book_replace_ids)
    show "\<exists>s. archive_list (ob_terminal ob) = archive_list (ob_terminal (rt_orders r)) @ s \<and>
        map po_order_id s = map oe_order_id (filter closes [e])"
      using arch e by (intro exI [of _ "if po_terminal q then [q] else []"]) simp
    show "\<forall>x \<in> set (all_orders ob). accounted [e] (all_orders (rt_orders r)) x"
    proof
      fix x
      assume "x \<in> set (all_orders ob)"
      then consider "x = q" | "x \<in> set (all_orders (rt_orders r))" "x \<noteq> p" using all(1) by auto
      then show "accounted [e] (all_orders (rt_orders r)) x"
      proof cases
        case 1
        show ?thesis unfolding accounted_def 1
          using p q(1) e(4) order_step_notional [OF _ advance(2)] live_active [OF live advance(1)] fill_action [OF advance(7)] advance(8)
          by (intro bexI [OF _ p]) (auto split: option.splits)
      next
        case 2
        then have "po_order_id x \<noteq> po_order_id p"
          using live p unfolding live_def book_ok_def book_ids_def all_orders_def by (metis distinct_map inj_onD)
        then show ?thesis using 2 e(4) id by (intro accounted_self) auto
      qed
    qed
    show "\<forall>f \<in> set [e]. is_fill_event f \<longrightarrow> (\<exists>p \<in> set (all_orders (rt_orders r)). po_order_id p = oe_order_id f \<and>
        oi_eligible_index (po_intent p) \<le> index)"
      using action_fill [OF _ advance(7)] advance(4) p e(4) id by auto
  qed (use e in simp_all)
  then show ?thesis by blast
qed

lemma engine_step_consistent:
  assumes "engine_step index r r'" and live: "live r" and con: "consistent r"
  shows "consistent r'"
  using assms(1)
proof cases
  case account
  then show ?thesis using con log_state_same [OF account] by (simp add: consistent_def)
next
  case (observe p e)
  note l = log_stateD [OF observe(4)]
  have p: "p \<in> set (all_orders (rt_orders r))" using observe(1) by (simp add: all_orders_def)
  have uniq: "x = p" if "x \<in> set (all_orders (rt_orders r))" "po_order_id x = po_order_id p" for x
    using live that p unfolding live_def book_ok_def book_ids_def all_orders_def by (metis distinct_map inj_onD)
  have e: "oe_order_id e = po_order_id p" "oe_previous_status e = po_status p" "oe_new_status e = po_status p"
    using observe(2) by (simp_all add: records_def)
  have "chained (rt_events r @ [e])" using con p e by (intro chained_snoc) (auto simp: consistent_def)
  moreover have "po_order_id p \<in> set (book_ids (rt_orders r))" using p by (auto simp: book_ids_def all_orders_def)
  ultimately show ?thesis using con e uniq unfolding consistent_def l by auto
next
  case (advance p a q ob e)
  note l = log_stateD [OF advance(9)]
  have "po_intent q = po_intent p" using order_step_frame [OF _ advance(2)] live_active [OF live advance(1)] by auto
  then have id: "po_order_id p = po_order_id q" by (simp add: po_order_id_def)
  have p: "p \<in> set (all_orders (rt_orders r))" using advance(1) by (simp add: all_orders_def)
  have uniq: "x = p" if "x \<in> set (all_orders (rt_orders r))" "po_order_id x = po_order_id p" for x
    using live that p unfolding live_def book_ok_def book_ids_def all_orders_def by (metis distinct_map inj_onD)
  note all = all_orders_replace [OF advance(5,1) id live [unfolded live_def]]
  have e: "oe_order_id e = po_order_id q" "oe_previous_status e = po_status p" "oe_new_status e = po_status q"
    using advance(6) by (simp_all add: records_def)
  have ch: "chained (rt_events r @ [e])" using con p e id by (intro chained_snoc) (auto simp: consistent_def)
  have ids: "set (book_ids ob) = set (book_ids (rt_orders r))"
    using book_replace_ids [OF advance(5)] by (metis set_mset_mset)
  have "po_order_id p \<in> set (book_ids (rt_orders r))" using p by (auto simp: book_ids_def all_orders_def)
  moreover have "replay (rt_events r @ [e]) (po_order_id x) \<in> {None, Some (po_status x)}" if "x \<in> set (all_orders ob)" for x
    using that con e id uniq unfolding all(1) consistent_def by auto
  ultimately show ?thesis using con e id ch unfolding consistent_def l ids by auto
qed

section \<open>Runs\<close>

lemma steps_extend:
  assumes "(engine_step index)\<^sup>*\<^sup>* r r'" and "live r"
  shows "live r' \<and> (\<exists>es. extends index r r' es) \<and> (consistent r \<longrightarrow> consistent r')"
  using assms(1)
proof (induction rule: rtranclp_induct)
  case base
  then show ?case using assms(2) extends_refl by blast
next
  case (step s t)
  then show ?case using engine_step_live engine_step_extends extends_trans engine_step_consistent by metis
qed

text \<open>A number of bars from a previous index on, each a run of steps at its own index.\<close>

inductive bar_runs :: "int \<Rightarrow> nat \<Rightarrow> runtime \<Rightarrow> runtime \<Rightarrow> bool" where
  none: "bar_runs start 0 r r"
| bar: "(engine_step (start + 1))\<^sup>*\<^sup>* r s \<Longrightarrow> bar_runs (start + 1) k s t \<Longrightarrow> bar_runs start (Suc k) r t"

inductive_cases bar_runs_cases: "bar_runs start k r t"

text \<open>The events of several bars.\<close>

definition extends_bars :: "int \<Rightarrow> nat \<Rightarrow> runtime \<Rightarrow> runtime \<Rightarrow> order_event list \<Rightarrow> bool" where
  "extends_bars start k r r' es \<longleftrightarrow> rt_events r' = rt_events r @ es \<and> (\<forall>e \<in> set es. event_wf e) \<and>
     map oe_sequence es = map int [length (rt_events r) ..< length (rt_events r')] \<and>
     totals_of r' = foldl count_event (totals_of r) es \<and>
     mset (book_ids (rt_orders r')) = mset (book_ids (rt_orders r)) \<and>
     (\<exists>s. archive_list (ob_terminal (rt_orders r')) = archive_list (ob_terminal (rt_orders r)) @ s \<and>
        map po_order_id s = map oe_order_id (filter closes es)) \<and>
     (\<forall>x \<in> set (all_orders (rt_orders r')). accounted es (all_orders (rt_orders r)) x) \<and>
     sorted (map oe_processing_index es) \<and>
     (\<forall>e \<in> set es. start < oe_processing_index e \<and> oe_processing_index e \<le> start + int k) \<and>
     (\<forall>e \<in> set es. is_fill_event e \<longrightarrow> (\<exists>p \<in> set (all_orders (rt_orders r)). po_order_id p = oe_order_id e \<and>
        oi_eligible_index (po_intent p) \<le> oe_processing_index e))"

lemma extends_bars_Suc:
  assumes a: "extends (start + 1) r s es" and b: "extends_bars (start + 1) k s t fs"
  shows "extends_bars start (Suc k) r t (es @ fs)"
proof -
  have n: "[length (rt_events r) ..< length (rt_events t)] =
      [length (rt_events r) ..< length (rt_events s)] @ [length (rt_events s) ..< length (rt_events t)]"
    using assms by (intro upt_join) (simp_all add: extends_def extends_bars_def)
  have fills: "\<exists>p \<in> set (all_orders (rt_orders r)). po_order_id p = oe_order_id e \<and> oi_eligible_index (po_intent p) \<le> oe_processing_index e"
    if "e \<in> set fs" "is_fill_event e" for e
    using assms that unfolding extends_def extends_bars_def accounted_def po_order_id_def by (metis (no_types, lifting))
  have intents: "accounted (es @ fs) (all_orders (rt_orders r)) x" if "x \<in> set (all_orders (rt_orders t))" for x
    using assms that unfolding extends_def extends_bars_def by (intro accounted_trans) auto
  obtain u v where "archive_list (ob_terminal (rt_orders s)) = archive_list (ob_terminal (rt_orders r)) @ u"
    "map po_order_id u = map oe_order_id (filter closes es)"
    "archive_list (ob_terminal (rt_orders t)) = archive_list (ob_terminal (rt_orders s)) @ v"
    "map po_order_id v = map oe_order_id (filter closes fs)"
    using assms by (auto simp: extends_def extends_bars_def)
  then have arch: "\<exists>s'. archive_list (ob_terminal (rt_orders t)) = archive_list (ob_terminal (rt_orders r)) @ s' \<and>
      map po_order_id s' = map oe_order_id (filter closes (es @ fs))"
    by (intro exI [of _ "u @ v"]) simp
  have idx: "\<forall>e \<in> set es. oe_processing_index e = start + 1"
    "\<forall>e \<in> set fs. start + 1 < oe_processing_index e \<and> oe_processing_index e \<le> start + 1 + int k"
    using assms by (auto simp: extends_def extends_bars_def)
  then have "sorted (map oe_processing_index es)" by (induction es) auto
  then have sorted: "sorted (map oe_processing_index (es @ fs))"
    using b idx by (force simp: sorted_append extends_bars_def)
  have fills': "\<exists>p \<in> set (all_orders (rt_orders r)). po_order_id p = oe_order_id e \<and> oi_eligible_index (po_intent p) \<le> oe_processing_index e"
    if "e \<in> set (es @ fs)" "is_fill_event e" for e
    using that a idx fills unfolding extends_def by fastforce
  show ?thesis unfolding extends_bars_def
    using a b n arch sorted fills' intents idx by (auto simp: extends_def extends_bars_def)
qed

lemma bar_runs_extend:
  assumes "bar_runs start k r r'" and "live r"
  shows "live r' \<and> (\<exists>es. extends_bars start k r r' es) \<and> (consistent r \<longrightarrow> consistent r')"
  using assms
proof (induction rule: bar_runs.induct)
  case (none start r)
  have "extends_bars start 0 r r []" by (auto simp: extends_bars_def intro: accounted_self)
  then show ?case using none by blast
next
  case (bar start r s k t)
  then show ?case using steps_extend extends_bars_Suc by metis
qed

end
