(* ===== verification/EngineOutcome.thy ===== *)
theory EngineOutcome
  imports EngineHistory
begin

text \<open>
  From the start of an execution to its result: the recorded cancellations and submissions, the bars,
  and how an execution ends.
\<close>

section \<open>Submissions\<close>

text \<open>
  What the order book and the submitted intents have to satisfy: intents as
  \<open>order_intent_create\<close> makes them, whose identity digests the submission index.
\<close>

definition submission_ok :: "order_book \<Rightarrow> order_intent list \<Rightarrow> bool" where
  "submission_ok orders intents \<longleftrightarrow> (let all = map po_intent (all_orders orders) @ intents in
     (\<forall>i \<in> set intents. requested_ok i) \<and> (\<forall>i \<in> set all. 0 \<le> oi_submit_index i) \<and>
     (\<forall>i \<in> set all. \<forall>j \<in> set all. oi_order_id i = oi_order_id j \<longrightarrow> oi_submit_index i = oi_submit_index j))"

definition submitted_ids :: "order_intent list \<Rightarrow> string list" where
  "submitted_ids intents = map oi_order_id intents"

lemma submission_ok_sub:
  "submission_ok b is \<Longrightarrow> set (map po_intent (all_orders c) @ js) \<subseteq> set (map po_intent (all_orders b) @ is) \<Longrightarrow>
     set js \<subseteq> set is \<Longrightarrow> submission_ok c js"
  unfolding submission_ok_def Let_def by blast

lemma submit_intent_facts:
  assumes run: "submit_intent ex r i = Inr r'" and live: "live r" and ok: "submission_ok (rt_orders r) (i # is)"
    and con: "consistent r"
  obtains p e where "pending_from_intent i = Inr p" "po_intent p = i" "rt_events r' = rt_events r @ [e]"
    "records (oi_submit_index i) r e p p" "oe_event_type e = ''submitted''" "totals_of r' = totals_of r"
    "rt_orders r' = (rt_orders r)\<lparr>ob_active := ob_active (rt_orders r) @ [p]\<rparr>" "live r'" "consistent r'"
    "submission_ok (rt_orders r') is" "po_cumulative_filled_notional p = F 0"
proof -
  obtain p ob where p: "pending_from_intent i = Inr p" and g: "add_generated [p] (rt_orders r) = Inr ob"
    and a: "append_event ex p p ''submitted'' (oi_submit_index i) no_details (r\<lparr>rt_orders := ob\<rparr>) = Inr r'"
    using run by (auto simp: submit_intent_def bindr_Inr)
  have req: "requested_ok i" using ok by (simp add: submission_ok_def Let_def)
  note st = from_intent_state [OF req p]
  have pi: "po_intent p = i" "po_status p = SUBMITTED" "po_cumulative_filled_notional p = F 0" using st by simp_all
  obtain e where e: "records (oi_submit_index i) (r\<lparr>rt_orders := ob\<rparr>) e p p" "oe_event_type e = ''submitted''"
    "r' = r\<lparr>rt_orders := ob, rt_events := rt_events r @ [e]\<rparr>"
    by (rule append_event_records [OF a]) simp
  have ob: "ob = (rt_orders r)\<lparr>ob_active := ob_active (rt_orders r) @ [p]\<rparr>" using g by (simp add: add_generated_Inr)
  have "book_add [p] (rt_orders r) = Inr ob"
  proof (rule add_generated_add [OF _ _ _ g])
    have mem: "po_intent x \<in> set (map po_intent (all_orders (rt_orders r)) @ i # is)"
      if "x \<in> set (all_orders (rt_orders r) @ [p])" for x using that pi by auto
    show "\<forall>q \<in> set (all_orders (rt_orders r) @ [p]). 0 \<le> submit_of q"
      using ok mem unfolding submission_ok_def Let_def submit_of_def by blast
    show "ids_determine_submit (all_orders (rt_orders r) @ [p])"
      using ok mem unfolding submission_ok_def Let_def submit_of_def po_order_id_def ids_determine_submit_def by blast
  qed (use live in \<open>simp add: live_def\<close>)
  then have ok': "book_ok ob" using book_add_ok live from_intent_ok [OF req p] by (auto simp: live_def)
  have fresh: "po_order_id p \<notin> set (book_ids (rt_orders r))"
    using ok' by (auto simp: book_ok_def book_ids_def ob)
  have ev: "oe_order_id e = po_order_id p" "oe_previous_status e = po_status p" "oe_new_status e = po_status p"
    using e(1) by (simp_all add: records_def)
  have "replay (rt_events r) (po_order_id p) = None" using con fresh by (auto simp: consistent_def replay_None)
  then have "chained (rt_events r @ [e])" using con ev by (intro chained_snoc) (simp_all add: consistent_def)
  moreover have "po_order_id x \<noteq> po_order_id p" if "x \<in> set (all_orders (rt_orders r))" for x
    using order_id_in_book [OF that] fresh by auto
  moreover have allob: "set (all_orders ob) = insert p (set (all_orders (rt_orders r)))"
    and "set (book_ids ob) = insert (po_order_id p) (set (book_ids (rt_orders r)))"
    by (auto simp: ob all_orders_def book_ids_def)
  ultimately have "consistent r'" using con ev unfolding consistent_def e(3) by auto
  moreover have "submission_ok ob is"
  proof (rule submission_ok_sub [OF ok])
    show "set (map po_intent (all_orders ob) @ is) \<subseteq> set (map po_intent (all_orders (rt_orders r)) @ i # is)"
      unfolding set_append set_map allob using pi(1) by auto
  qed auto
  ultimately show thesis using that [of p e] p pi e ob ok' by (simp add: live_def records_def totals_of_def)
qed

lemma submit_intents_facts:
  assumes "submit_intents ex intents r = Inr r'" and "live r" and "submission_ok (rt_orders r) intents" and "consistent r"
  shows "live r' \<and> consistent r' \<and> totals_of r' = totals_of r \<and>
    (\<exists>ps es. rt_orders r' = (rt_orders r)\<lparr>ob_active := ob_active (rt_orders r) @ ps\<rparr> \<and> map po_intent ps = intents \<and>
       (\<forall>p \<in> set ps. po_cumulative_filled_notional p = F 0) \<and>
       rt_events r' = rt_events r @ es \<and> map oe_order_id es = submitted_ids intents \<and>
       (\<forall>e \<in> set es. event_wf e \<and> oe_event_type e = ''submitted'') \<and>
       map oe_sequence es = map int [length (rt_events r) ..< length (rt_events r')])"
  using assms
proof (induction intents arbitrary: r)
  case Nil
  then show ?case by (auto simp: submit_intents_def submitted_ids_def)
next
  case (Cons i "is")
  obtain s where s: "submit_intent ex r i = Inr s" and rest: "submit_intents ex is s = Inr r'"
    using Cons.prems(1) by (auto simp: submit_intents_def bindr_Inr)
  obtain p e where p: "po_intent p = i" and e: "rt_events s = rt_events r @ [e]" "records (oi_submit_index i) r e p p"
    "oe_event_type e = ''submitted''" "totals_of s = totals_of r"
    and o: "rt_orders s = (rt_orders r)\<lparr>ob_active := ob_active (rt_orders r) @ [p]\<rparr>"
    and s': "live s" "consistent s" "submission_ok (rt_orders s) is" "po_cumulative_filled_notional p = F 0"
    by (rule submit_intent_facts [OF s Cons.prems(2,3,4)])
  obtain ps es where ps: "rt_orders r' = (rt_orders s)\<lparr>ob_active := ob_active (rt_orders s) @ ps\<rparr>" "map po_intent ps = is"
    "\<forall>p \<in> set ps. po_cumulative_filled_notional p = F 0" "rt_events r' = rt_events s @ es" "map oe_order_id es = submitted_ids is"
    "\<forall>e \<in> set es. event_wf e \<and> oe_event_type e = ''submitted''"
    "map oe_sequence es = map int [length (rt_events s) ..< length (rt_events r')]"
    and fin: "live r'" "consistent r'" "totals_of r' = totals_of s"
    using Cons.IH [OF rest s'(1,3,2)] by blast
  have n: "[length (rt_events r) ..< length (rt_events r')] = length (rt_events r) # [length (rt_events s) ..< length (rt_events r')]"
  proof -
    have "length (rt_events s) = Suc (length (rt_events r))" "length (rt_events r) < length (rt_events r')"
      using e(1) ps(4) by simp_all
    then show ?thesis by (simp add: upt_conv_Cons)
  qed
  show ?case
    by (intro conjI exI [of _ "p # ps"] exI [of _ "e # es"])
      (use p e o ps fin n s'(4) in \<open>auto simp: records_def submitted_ids_def po_order_id_def\<close>)
qed

section \<open>Recorded cancellations\<close>

lemma unsigned_order_frame: "po_status (unsigned_order p) = po_status p" "po_order_id (unsigned_order p) = po_order_id p"
  by (simp_all add: unsigned_order_def po_order_id_def Let_def)

lemma record_cancellation_facts:
  assumes run: "record_cancellation ex (seen, r) t = Inr (seen', r')" and live: "live r" and con: "consistent r"
    and seen: "oe_order_id ` set (rt_events r) \<subseteq> set seen"
  shows "live r' \<and> consistent r' \<and> totals_of r' = totals_of r \<and> rt_orders r' = rt_orders r \<and>
    (\<exists>e. rt_events r' = rt_events r @ [e] \<and> event_wf e \<and> oe_sequence e = int (length (rt_events r)) \<and>
       oe_event_type e = ''cancelled'' \<and> oe_order_id e = po_order_id (fst t)) \<and>
    oe_order_id ` set (rt_events r') \<subseteq> set seen'"
proof -
  obtain p q where t: "t = (p, q)" by (cases t)
  obtain index reason where ck: "transition_checks (p, q) r seen = Inr (index, reason)"
    and ev: "append_event ex p q ''cancelled'' index (no_details\<lparr>ed_reason := Some reason\<rparr>) r = Inr r'"
    and seen': "seen' = po_order_id p # seen"
    using run unfolding record_cancellation_def t prod.case bindr_Inr split_paired_Ex fst_conv snd_conv by blast
  have q: "po_order_id p \<notin> set seen" "po_order_id p = po_order_id q" "po_status q = CANCELLED"
    "list_ex (equal_orders q) (archive_list (ob_terminal (rt_orders r)))"
    using ck by (auto simp: transition_checks_def bindr_Inr split: option.splits)
  then obtain a where a: "a \<in> set (archive_list (ob_terminal (rt_orders r)))" "equal_orders q a" by (auto simp: list_ex_iff)
  from a(2) have same: "po_status a = CANCELLED" "po_order_id a = po_order_id q"
    using q(3) unfolding equal_orders_def by (metis unsigned_order_frame)+
  obtain e where e: "records index r e p q" "oe_event_type e = ''cancelled''" "r' = r\<lparr>rt_events := rt_events r @ [e]\<rparr>"
    by (rule append_event_records [OF ev])
  have ids: "oe_order_id e = po_order_id q" "oe_new_status e = CANCELLED" "event_wf e" "oe_sequence e = int (length (rt_events r))"
    using e(1) q(3) by (simp_all add: records_def)
  have all: "a \<in> set (all_orders (rt_orders r))" using a by (simp add: all_orders_def)
  have uniq: "x = a" if "x \<in> set (all_orders (rt_orders r))" "po_order_id x = po_order_id q" for x
    using live that all same(2) unfolding live_def book_ok_def book_ids_def all_orders_def by (metis distinct_map inj_onD)
  have "replay (rt_events r) (oe_order_id e) = None" using q seen ids by (auto simp: replay_None)
  then have "chained (rt_events r @ [e])" using con by (intro chained_snoc) (auto simp: consistent_def)
  moreover have "po_order_id q \<in> set (book_ids (rt_orders r))" using order_id_in_book [OF all] same(2) by simp
  ultimately have "consistent r'" using con ids uniq same unfolding consistent_def e(3) by auto
  then show ?thesis using live e ids q seen seen' by (auto simp: live_def totals_of_def t)
qed

text \<open>All of them, in the given order, from a runtime without events.\<close>

lemma record_cancellations_facts:
  assumes "foldr_res (record_cancellation ex) (seen, r) cs = Inr (seen', r')" and "live r" and "consistent r"
    and "oe_order_id ` set (rt_events r) \<subseteq> set seen"
  shows "live r' \<and> consistent r' \<and> totals_of r' = totals_of r \<and> rt_orders r' = rt_orders r \<and>
    (\<exists>es. rt_events r' = rt_events r @ es \<and> map oe_order_id es = map (\<lambda>t. po_order_id (fst t)) cs \<and>
       (\<forall>e \<in> set es. event_wf e \<and> oe_event_type e = ''cancelled'') \<and>
       map oe_sequence es = map int [length (rt_events r) ..< length (rt_events r')])"
  using assms
proof (induction cs arbitrary: seen r)
  case Nil
  then show ?case by auto
next
  case (Cons t cs)
  obtain seen1 s where one: "record_cancellation ex (seen, r) t = Inr (seen1, s)"
    and rest: "foldr_res (record_cancellation ex) (seen1, s) cs = Inr (seen', r')"
    using Cons.prems(1) by (auto simp: bindr_Inr)
  note f = record_cancellation_facts [OF one Cons.prems(2,3,4)]
  then obtain e where e: "rt_events s = rt_events r @ [e]" "event_wf e" "oe_sequence e = int (length (rt_events r))"
    "oe_event_type e = ''cancelled''" "oe_order_id e = po_order_id (fst t)" by blast
  have g: "live r' \<and> consistent r' \<and> totals_of r' = totals_of s \<and> rt_orders r' = rt_orders s \<and>
    (\<exists>es. rt_events r' = rt_events s @ es \<and> map oe_order_id es = map (\<lambda>t. po_order_id (fst t)) cs \<and>
       (\<forall>e \<in> set es. event_wf e \<and> oe_event_type e = ''cancelled'') \<and>
       map oe_sequence es = map int [length (rt_events s) ..< length (rt_events r')])"
    using f by (intro Cons.IH [OF rest]) simp_all
  then obtain es where es: "rt_events r' = rt_events s @ es" "map oe_order_id es = map (\<lambda>t. po_order_id (fst t)) cs"
    "\<forall>e \<in> set es. event_wf e \<and> oe_event_type e = ''cancelled''"
    "map oe_sequence es = map int [length (rt_events s) ..< length (rt_events r')]" by blast
  have n: "[length (rt_events r) ..< length (rt_events r')] = length (rt_events r) # [length (rt_events s) ..< length (rt_events r')]"
  proof -
    have "length (rt_events s) = Suc (length (rt_events r))" "length (rt_events r) < length (rt_events r')"
      using e(1) es(1) by simp_all
    then show ?thesis by (simp add: upt_conv_Cons)
  qed
  show ?case using f g es e n by (intro conjI exI [of _ "e # es"]) auto
qed

section \<open>The start of an execution\<close>

lemma initialize_metrics_log:
  assumes "initialize_metrics ex r = Inr r'"
  shows "log_state r' = log_state r"
proof -
  have "foldr_res requested_step (r\<lparr>rt_starting_value := portfolio_value (ex_nsum ex) (rt_book r)\<rparr>) (ob_active (rt_orders r)) = Inr r'"
    using assms by (auto simp: initialize_metrics_def Let_def bindr_Inr)
  then have "log_state r' = log_state (r\<lparr>rt_starting_value := portfolio_value (ex_nsum ex) (rt_book r)\<rparr>)"
    by (rule foldr_res_inv) (auto simp: requested_step_def Let_def bindr_Inr log_state_def totals_of_def)
  then show ?thesis by (simp add: log_state_def totals_of_def)
qed

definition no_totals :: totals where
  "no_totals = (0, 0, 0, 0, F 0)"

lemma start_runtime_facts:
  assumes run: "start_runtime ex new draws b orders intents cs = Inr r" and ok: "book_ok orders" and sub: "submission_ok orders intents"
  obtains ps es where "live r" "consistent r" "totals_of r = no_totals" "map po_intent ps = intents"
    "\<forall>p \<in> set ps. po_cumulative_filled_notional p = F 0" "rt_orders r = orders\<lparr>ob_active := ob_active orders @ ps\<rparr>" "rt_events r = es"
    "map oe_order_id es = map (\<lambda>t. po_order_id (fst t)) cs @ submitted_ids intents"
    "\<forall>e \<in> set es. event_wf e \<and> oe_event_type e \<in> {''cancelled'', ''submitted''}"
    "map oe_sequence es = map int [0 ..< length es]"
proof -
  obtain r0 seen r1 r2 where r0: "create_runtime ex new draws b orders = Inr r0"
    and r1: "foldr_res (record_cancellation ex) ([], r0) cs = Inr (seen, r1)"
    and r2: "submit_intents ex intents r1 = Inr r2" and r: "initialize_metrics ex r2 = Inr r"
    using run unfolding start_runtime_def bindr_Inr split_paired_Ex prod.case by blast
  have start: "rt_orders r0 = orders" "rt_events r0 = []" "totals_of r0 = no_totals"
    using r0 by (auto simp: create_runtime_def Let_def bindr_Inr totals_of_def no_totals_def)
  then have l0: "live r0" "consistent r0" using ok by (simp_all add: live_def consistent_def)
  note f = record_cancellations_facts [OF r1 l0, simplified start, simplified]
  then obtain es where es: "rt_events r1 = es" "map oe_order_id es = map (\<lambda>t. po_order_id (fst t)) cs"
    "\<forall>e \<in> set es. event_wf e \<and> oe_event_type e = ''cancelled''" "map oe_sequence es = map int [0 ..< length es]" by auto
  have l1: "live r1" "consistent r1" "submission_ok (rt_orders r1) intents" using f sub by simp_all
  note g = submit_intents_facts [OF r2 l1(1,3,2)]
  then obtain ps fs where fs: "rt_orders r2 = orders\<lparr>ob_active := ob_active orders @ ps\<rparr>" "map po_intent ps = intents" "\<forall>p \<in> set ps. po_cumulative_filled_notional p = F 0"
    "rt_events r2 = es @ fs" "map oe_order_id fs = submitted_ids intents"
    "\<forall>e \<in> set fs. event_wf e \<and> oe_event_type e = ''submitted''"
    "map oe_sequence fs = map int [length es ..< length (es @ fs)]"
    using f es(1) by auto
  note log = log_state_same [OF initialize_metrics_log [OF r]]
  have c: "live r" "consistent r" using g log by (simp_all add: live_def consistent_def)
  have "map oe_sequence (es @ fs) = map int [0 ..< length (es @ fs)]"
    using es(4) fs(7) upt_join [of 0 "length es" "length (es @ fs)"] by simp
  then show thesis
    by (intro that [of ps "es @ fs"]) (use c f g log es fs in auto)
qed

section \<open>The bars of an execution\<close>

lemma execute_bars_runs:
  "execute_bars ex pol start n r = Inr (k, r') \<Longrightarrow> live r \<Longrightarrow>
     0 \<le> k \<and> k \<le> int n \<and> (0 < n \<longrightarrow> 0 < k) \<and> (k < int n \<longrightarrow> absorbed ex r') \<and> bar_runs start (nat k) r r'"
proof (induction ex pol start n r arbitrary: k rule: execute_bars.induct)
  case (1 ex pol start r)
  then show ?case by (auto intro: bar_runs.none)
next
  case (2 ex pol start n r)
  obtain s where s: "execute_bar ex pol start r = Inr s"
    and rest: "(if absorbed ex s then Inr (1, s)
      else bindr (execute_bars ex pol (start + 1) n s) (\<lambda>(k, r2). Inr (k + 1, r2))) = Inr (k, r')"
    using "2.prems"(1) by (auto simp: bindr_Inr)
  note one = execute_bar_runs [OF s, unfolded runs_def]
  show ?case
  proof (cases "absorbed ex s")
    case True
    with rest have "k = 1" "r' = s" by simp_all
    moreover have "bar_runs start (Suc 0) r s" using one "2.prems"(2) by (blast intro: bar_runs.intros)
    ultimately show ?thesis using True by simp
  next
    case False
    with rest obtain j where j: "execute_bars ex pol (start + 1) n s = Inr (j, r')" "k = j + 1"
      by (auto simp: bindr_Inr)
    note ih = "2.IH" [OF s False j(1)]
    have "live s" using one "2.prems"(2) by blast
    with ih one "2.prems"(2) show ?thesis unfolding j(2)
      by (auto simp: nat_add_distrib intro: bar_runs.intros)
  qed
qed

text \<open>A successful execution: the start, and the bars it advanced.\<close>

lemma run_stateful_facts:
  assumes run: "run_stateful ex new draws b orders intents start bars cs = Inr (k, r)"
    and ok: "book_ok orders" and sub: "submission_ok orders intents"
  obtains r0 es where "start_runtime ex new draws b orders intents cs = Inr r0" "live r0" "consistent r0"
    "extends_bars start (nat k) r0 r es" "live r" "consistent r" "0 < k" "k \<le> bars" "k < bars \<longrightarrow> absorbed ex r"
    "bar_runs start (nat k) r0 r"
proof -
  obtain r0 pol where r0: "start_runtime ex new draws b orders intents cs = Inr r0"
    and ck: "interval_checks ex b start bars = Inr ()" and bars: "execute_bars ex pol start (nat bars) r0 = Inr (k, r)"
    using run by (auto simp: run_stateful_def bindr_Inr)
  obtain ps es where s: "live r0" "consistent r0" by (rule start_runtime_facts [OF r0 ok sub])
  have "0 < bars" using ck by (simp add: interval_checks_def)
  then have e: "0 < k" "k \<le> bars" "k < bars \<longrightarrow> absorbed ex r" "bar_runs start (nat k) r0 r"
    using execute_bars_runs [OF bars s(1)] by auto
  with bar_runs_extend [OF e(4) s(1)] s r0 show thesis using that by blast
qed

section \<open>The end of a bar on a terminated account\<close>

lemma cancel_all_empties:
  assumes "foldr_res (cancel_masked ex index reason None) r (ob_active (rt_orders r)) = Inr r'"
    and "\<forall>p \<in> set (ob_active (rt_orders r)). pending_ok p"
  shows "ob_active (rt_orders r') = []"
  using assms
proof (induction "ob_active (rt_orders r)" arbitrary: r)
  case Nil
  then show ?case by simp
next
  case (Cons p ps)
  obtain s where s: "cancel_one ex index reason r p = Inr s"
    and rest: "foldr_res (cancel_masked ex index reason None) s ps = Inr r'"
    using Cons.prems(1) unfolding Cons.hyps(2) [symmetric] by (auto simp: bindr_Inr cancel_masked_def)
  obtain q ob where q: "cancel index reason p = Inr q" and ob: "book_replace (rt_next_node r) q (rt_orders r) = Inr ob"
    and s': "rt_orders s = ob"
    using s by (auto simp: cancel_one_def replace_order_def append_event_def bindr_Inr)
  have p: "pending_ok p" using Cons.prems(2) Cons.hyps(2) [symmetric] by simp
  have "po_terminal q" "po_order_id q = po_order_id p"
    using q p by (auto simp: cancel_def transition_Inr po_terminal_def status_terminal_def po_order_id_def)
  then have "ob_active (rt_orders s) = ps" using ob s' Cons.hyps(2) [symmetric] by (auto simp: book_replace_def Let_def)
  with rest Cons.hyps(1) [of s] Cons.prems(2) Cons.hyps(2) [symmetric] show ?case by simp
qed

text \<open>Flat: nothing is active and no position is left.\<close>

definition flat :: "runtime \<Rightarrow> bool" where
  "flat r \<longleftrightarrow> ob_active (rt_orders r) = [] \<and> list_all (\<lambda>q. q = F 0) (bs_quantities (rt_book r)) \<and>
     bs_margin_used (rt_book r) = F 0 \<and> bs_maintenance_requirement (rt_book r) = F 0"

lemma cancel_and_flatten_flat:
  assumes "cancel_and_flatten ex index prices r = Inr r'" and live: "live r"
  shows "flat r'"
proof -
  obtain r1 where r1: "foldr_res (cancel_masked ex index ''economic_termination'' None) r (ob_active (rt_orders r)) = Inr r1"
    "r' = flatten_runtime ex prices r1"
    using assms(1) by (auto simp: cancel_and_flatten_def cancel_active_orders_def bindr_Inr)
  have "ob_active (rt_orders r1) = []"
    using r1(1) live by (intro cancel_all_empties) (auto simp: live_def book_ok_def)
  then show ?thesis
    by (auto simp: r1(2) flat_def flatten_runtime_def set_book_def flatten_after_termination_def Let_def
      update_drawdown_def list_all_iff)
qed

lemma flat_book:
  assumes "flat r" and "bs_quantities b = bs_quantities (rt_book r)" and "bs_margin_used b = bs_margin_used (rt_book r)"
    and "bs_maintenance_requirement b = bs_maintenance_requirement (rt_book r)"
  shows "flat (set_book b r)"
  using assms by (simp add: flat_def set_book_def)

lemma mark_to_market_frame:
  assumes "mark_to_market nsum marks funding start u b = Inr (x, c)"
  shows "bs_quantities c = bs_quantities b \<and> bs_margin_used c = bs_margin_used b \<and>
    bs_maintenance_requirement c = bs_maintenance_requirement b \<and> (bs_insolvent b \<longrightarrow> bs_insolvent c)"
proof -
  obtain d p rs ms where d: "revalue nsum ms (b\<lparr>bs_cash := fadd (bs_cash b) funding\<rparr>) = Inr d"
    and c: "c = (update_drawdown nsum u d)\<lparr>bs_funding_pnl := p, bs_returns := rs\<rparr>"
    using assms by (auto simp: mark_to_market_def Let_def bindr_Inr)
  from d have "bs_quantities d = bs_quantities b" "bs_margin_used d = bs_margin_used b"
    "bs_maintenance_requirement d = bs_maintenance_requirement b" "bs_insolvent b \<longrightarrow> bs_insolvent d"
    by (auto simp: revalue_def bindr_Inr refresh_Inr terminate_def)
  then show ?thesis by (simp add: c update_drawdown_def Let_def)
qed

lemma finish_retained_flat:
  assumes "finish_retained_termination ex c r = Inr (Some r')" and "live r"
  shows "flat r'"
proof -
  obtain r1 x b where r1: "cancel_and_flatten ex (bc_processing_index c) (bs_marks (rt_book r)) r = Inr r1"
    and m: "mark_to_market (ex_nsum ex) (bs_marks (rt_book r1)) (F 0) (Some (bc_period_start_value c)) True (rt_book r1) = Inr (x, b)"
    and r': "r' = set_book b r1"
    using assms(1) by (auto simp: finish_retained_termination_def bindr_Inr split: if_splits)
  show ?thesis unfolding r' using cancel_and_flatten_flat [OF r1 assms(2)] mark_to_market_frame [OF m]
    by (intro flat_book) auto
qed

lemma unless_terminated_flat:
  "unless_terminated ex c r continue = Inr r' \<Longrightarrow> live r \<Longrightarrow> flat r' \<or> continue r = Inr r'"
  by (auto simp: unless_terminated_def bindr_Inr intro: finish_retained_flat split: option.splits)

lemma mark_and_fund_flat:
  assumes run: "mark_and_fund ex c funding r = Inr r'" and live: "live r" and ins: "bs_insolvent (rt_book r')"
  shows "flat r'"
proof -
  let ?index = "bc_processing_index c"
  obtain b observed r1 b2 marks where r1: "record_funding_boundary ex ?index funding observed (set_book b r) = Inr r1"
    and fl: "(if bs_insolvent b2 then cancel_and_flatten ex ?index marks (set_book b2 r1) else Inr (set_book b2 r1)) = Inr r'"
    using run unfolding mark_and_fund_def Let_def bindr_Inr split_paired_Ex prod.case by blast
  have "bs_insolvent b2" using fl ins by (auto simp: set_book_def split: if_splits)
  moreover have "live (set_book b2 r1)"
    using live runs_liveD [OF record_funding_runs [OF r1, of UNIV 0]] by (simp add: live_def set_book_def)
  ultimately show ?thesis using fl cancel_and_flatten_flat by simp
qed

lemma live_updates [simp]:
  "live (r\<lparr>rt_book := b, rt_dividend := x\<rparr>) = live r" "live (r\<lparr>rt_book := b, rt_interest := x\<rparr>) = live r"
  "live (r\<lparr>rt_book := b, rt_borrow := x\<rparr>) = live r" "live (r\<lparr>rt_funding := x\<rparr>) = live r"
  by (simp_all add: live_def)

lemma finish_bar_flat:
  assumes run: "finish_bar ex c r = Inr r'" and live: "live r" and ins: "bs_insolvent (rt_book r')"
  shows "flat r'"
proof (rule ccontr)
  assume open_account: "\<not> flat r'"
  let ?index = "bc_processing_index c"
  let ?fund = "\<lambda>r3. bindr (charge_carry ex ?index (bc_year_fraction c) (rt_book r3)) (\<lambda>(funding, borrow, b3).
     unless_terminated ex c (r3\<lparr>rt_book := b3, rt_borrow := fadd (rt_borrow r3) borrow\<rparr>) (\<lambda>r4.
     mark_and_fund ex c funding (r4\<lparr>rt_funding := fadd (rt_funding r4) funding\<rparr>)))"
  let ?earn = "\<lambda>r2. bindr (processing_cash_interest ex c r2) (\<lambda>(interest, b2).
     unless_terminated ex c (r2\<lparr>rt_book := b2, rt_interest := fadd (rt_interest r2) interest\<rparr>) ?fund)"
  let ?flat = "if bs_insolvent (rt_book r) then cancel_and_flatten ex ?index (bc_open_prices c) r else Inr r"
  have "bindr ?flat (\<lambda>r1. bindr (vec_at (mk_dividend (ex_market ex)) ?index) (\<lambda>dividend_row.
     bindr (apply_dividend (ex_nsum ex) (ex_ndot ex) dividend_row (rt_book r1)) (\<lambda>(dividend, b1).
     unless_terminated ex c (r1\<lparr>rt_book := b1, rt_dividend := fadd (rt_dividend r1) dividend\<rparr>) ?earn))) = Inr r'"
    using unless_terminated_flat [OF run [unfolded finish_bar_def Let_def] live] open_account by blast
  then obtain r1 dividend b1 where r1: "?flat = Inr r1" and
      div: "unless_terminated ex c (r1\<lparr>rt_book := b1, rt_dividend := fadd (rt_dividend r1) dividend\<rparr>) ?earn = Inr r'"
    unfolding bindr_Inr split_paired_Ex prod.case by blast
  have l1: "live r1" using r1 live runs_liveD [OF cancel_and_flatten_runs] by (auto split: if_splits)
  define r2 where "r2 = r1\<lparr>rt_book := b1, rt_dividend := fadd (rt_dividend r1) dividend\<rparr>"
  have r2: "live r2" "?earn r2 = Inr r'"
    using unless_terminated_flat [OF div [folded r2_def]] l1 open_account by (simp_all add: r2_def)
  from r2(2) obtain interest b2 where i: "unless_terminated ex c (r2\<lparr>rt_book := b2, rt_interest := fadd (rt_interest r2) interest\<rparr>) ?fund = Inr r'"
    unfolding bindr_Inr split_paired_Ex prod.case by blast
  define r3 where "r3 = r2\<lparr>rt_book := b2, rt_interest := fadd (rt_interest r2) interest\<rparr>"
  have r3: "live r3" "?fund r3 = Inr r'"
    using unless_terminated_flat [OF i [folded r3_def]] r2(1) open_account by (simp_all add: r3_def)
  from r3(2) obtain funding borrow b3 where "unless_terminated ex c (r3\<lparr>rt_book := b3, rt_borrow := fadd (rt_borrow r3) borrow\<rparr>)
        (\<lambda>r4. mark_and_fund ex c funding (r4\<lparr>rt_funding := fadd (rt_funding r4) funding\<rparr>)) = Inr r'"
    unfolding bindr_Inr split_paired_Ex prod.case by blast
  from unless_terminated_flat [OF this] r3(1) open_account
  have "mark_and_fund ex c funding (r3\<lparr>rt_book := b3, rt_borrow := fadd (rt_borrow r3) borrow,
      rt_funding := fadd (rt_funding r3) funding\<rparr>) = Inr r'" by simp
  from mark_and_fund_flat [OF this _ ins] r3(1) open_account show False by (simp add: live_def)
qed

lemma execute_bar_flat:
  assumes "execute_bar ex pol start r = Inr r'" and "live r" and "bs_insolvent (rt_book r')"
  shows "flat r'"
proof -
  let ?index = "start + 1"
  obtain c r1 r4 where b: "begin_bar ex start ?index r = Inr (c, r1)"
    and mid: "(if absorbed ex r1 then Inr r1
       else bindr (prepare_orders ex pol c r1) (\<lambda>(accepted, r2).
         bindr (process_symbols ex c accepted r2) (\<lambda>(attempted, r3).
         if absorbed ex r3 then Inr r3 else expire_attempted_remainders ex ?index attempted r3))) = Inr r4"
    and f: "finish_bar ex c r4 = Inr r'"
    using assms(1) unfolding execute_bar_def Let_def bindr_Inr split_paired_Ex prod.case by blast
  note b = begin_bar_runs [OF b]
  have "runs UNIV ?index r r4"
    by (rule runs_trans [OF b(1) mid_bar_runs [of ex r1 pol c r4, unfolded b(2), OF mid]])
  then have "live r4" using assms(2) by (rule runs_liveD)
  then show ?thesis using finish_bar_flat [OF f] assms(3) by blast
qed

lemma execute_bars_flat:
  "execute_bars ex pol start n r = Inr (k, r') \<Longrightarrow> live r \<Longrightarrow> 0 < n \<Longrightarrow> bs_insolvent (rt_book r') \<Longrightarrow> flat r'"
proof (induction ex pol start n r arbitrary: k rule: execute_bars.induct)
  case (2 ex pol start n r)
  obtain s where s: "execute_bar ex pol start r = Inr s"
    and rest: "(if absorbed ex s then Inr (1, s)
      else bindr (execute_bars ex pol (start + 1) n s) (\<lambda>(k, r2). Inr (k + 1, r2))) = Inr (k, r')"
    using "2.prems"(1) by (auto simp: bindr_Inr)
  have ls: "live s" using runs_liveD [OF execute_bar_runs [OF s] "2.prems"(2)] .
  show ?case
  proof (cases "absorbed ex s \<or> n = 0")
    case True
    then have "r' = s" using rest by (auto simp: bindr_Inr split: if_splits)
    then show ?thesis using execute_bar_flat [OF s "2.prems"(2)] "2.prems"(4) by simp
  next
    case False
    with rest obtain j where "execute_bars ex pol (start + 1) n s = Inr (j, r')" by (auto simp: bindr_Inr)
    from "2.IH" [OF s _ this ls] False "2.prems"(4) show ?thesis by simp
  qed
qed simp

end
