(* ===== verification/TargetExecution.thy ===== *)
theory TargetExecution
  imports Engine Reconciliation
begin

text \<open>
  \<open>trade_rl/simulation/targets/execution.py\<close>: one target is reconciled against the holdings and the
  active orders, and the reconciled orders are executed.
\<close>

section \<open>Marks known at the decision\<close>

text \<open>
  \<open>_require_available_marks_at_row\<close> of \<open>trade_rl/data/market.py\<close>, without its optional
  \<open>held_quantities\<close>.
\<close>

definition late_symbols :: "market \<Rightarrow> int \<Rightarrow> int list \<Rightarrow> int list res" where
  "late_symbols m row_index selected =
     bindr (vec_at (mk_timestamps m) row_index) (\<lambda>timestamp.
     bindr (mapr (\<lambda>s. bindr (cell (mk_available m) row_index s) (\<lambda>a. Inr (timestamp < a, s))) (sort (remdups selected)))
       (\<lambda>flags. Inr (map snd (filter fst flags))))"

definition require_available_marks :: "market \<Rightarrow> int \<Rightarrow> int list \<Rightarrow> unit res" where
  "require_available_marks m row_index selected =
    (if \<not> (0 \<le> row_index \<and> row_index < n_bars m)
     then Inl (value_error ''decision-time mark row index is outside the dataset'')
     else bindr (late_symbols m row_index selected) (\<lambda>late. case late of [] \<Rightarrow> Inr ()
     | first # _ \<Rightarrow>
       bindr (mapr (vec_at (mk_names m)) late) (\<lambda>names.
       bindr (cell (mk_available m) row_index first) (\<lambda>a.
       bindr (vec_at (mk_timestamps m) row_index) (\<lambda>timestamp.
       Inl (value_error (''decision-time mark unavailable for '' @ join '', '' names @ '' at row '' @ int_str row_index @
         '': available_at='' @ mk_show_time m a @ '', timestamp='' @ mk_show_time m timestamp)))))))"

section \<open>Execution of a target\<close>

definition target_checks :: "executor \<Rightarrow> book \<Rightarrow> int \<Rightarrow> int \<Rightarrow> string \<Rightarrow> unit res" where
  "target_checks ex b start_index bars identity = (let value = portfolio_value (ex_nsum ex) b; m = ex_market ex in checks [
     (identity = [], value_error ''target_identity must be non-empty''),
     (bars \<le> 0, value_error ''bars must be positive''),
     (start_index < 0 \<or> n_bars m \<le> start_index + bars, value_error ''target execution interval is outside the dataset''),
     (length (book_weights (ex_nsum ex) b) \<noteq> mk_symbols m, value_error ''book weights shape does not match market symbols''),
     (length (bs_multipliers b) \<noteq> length (mk_multipliers m) \<or>
        list_ex (\<lambda>(x, y). \<not> feq x y) (zip (bs_multipliers b) (mk_multipliers m)),
        value_error ''book contract multipliers do not match market dataset''),
     (\<not> isfinite value \<or> not_positive value, value_error ''stateful execution requires positive starting equity'')])"

text \<open>A target the reconciliation will not refuse for its shape, its numbers or its gross.\<close>

definition plain_target :: "executor \<Rightarrow> f64 list \<Rightarrow> bool" where
  "plain_target ex target \<longleftrightarrow> length target = mk_symbols (ex_market ex) \<and> all_finite target \<and>
     fle (ex_nsum ex (map fabs target)) (fadd (cc_max_leverage (ex_cost ex)) tolerance)"

definition decision_symbols :: "f64 list \<Rightarrow> rat list \<Rightarrow> int list" where
  "decision_symbols target held =
     map int (filter (\<lambda>k. \<not> feq (target ! k) (F 0)) [0 ..< length target]) @
     map int (filter (\<lambda>k. held ! k \<noteq> 0) [0 ..< length held])"

definition check_marks :: "executor \<Rightarrow> int \<Rightarrow> f64 list \<Rightarrow> rat list \<Rightarrow> unit res" where
  "check_marks ex start_index target held = (let symbols = decision_symbols target held in
     if plain_target ex target \<and> symbols \<noteq> [] then require_available_marks (ex_market ex) start_index symbols else Inr ())"

definition target_inputs ::
  "executor \<Rightarrow> book \<Rightarrow> rat list \<Rightarrow> f64 list \<Rightarrow> int \<Rightarrow> string \<Rightarrow> time_in_force \<Rightarrow> int option \<Rightarrow> int list \<Rightarrow>
     reconciliation_inputs res" where
  "target_inputs ex b held target start_index identity tif expiry_index hold_symbols = (let m = ex_market ex; c = ex_cost ex in
     bindr (if list_ex (\<lambda>q. q \<noteq> 0) held then Inr (bs_marks b) else vec_at (mk_mark m) start_index) (\<lambda>valuation.
     bindr (effective_rules ex start_index) (\<lambda>(ticks, _, _).
     bindr (policy_digest ex) (\<lambda>digest.
     bindr (vec_at (mk_close m) start_index) (\<lambda>references.
     bindr (order_type_of (cc_order_type c)) (\<lambda>ot. Inr
       \<lparr>ri_dataset_id = mk_dataset_id m, ri_target_identity = identity, ri_digest = digest, ri_weights = target,
        ri_reference_prices = references,
        ri_decision_equity = fmax (portfolio_value (ex_nsum ex) b) tolerance,
        ri_submit_index = start_index, ri_latency_bars = cc_latency_bars c, ri_order_type = ot,
        ri_time_in_force = tif, ri_expiry_index = expiry_index, ri_offset_rate = cc_limit_offset c,
        ri_tick_sizes = Some ticks, ri_maximum_gross = cc_max_leverage c,
        ri_reduce_only_symbols = reduce_only_symbols ex, ri_hold_symbols = hold_symbols,
        ri_valuation_prices = Some valuation\<rparr>))))))"

text \<open>The active order each cancelled one comes from.\<close>

definition cancellation_of :: "order_book \<Rightarrow> pending_order \<Rightarrow> (pending_order \<times> pending_order) res" where
  "cancellation_of orders cancelled =
    (case map_of (rev (map (\<lambda>p. (po_order_id p, p)) (ob_active orders))) (po_order_id cancelled) of
       None \<Rightarrow> Inl (Raise RuntimeError ''reconciliation cancelled an unknown active order'')
     | Some previous \<Rightarrow> Inr (previous, cancelled))"

text \<open>
  \<open>new\<close> is the first unused archive identity.  The reconciliation takes one per cancelled order,
  the engine the ones after.
\<close>

definition reconciled_target ::
  "executor \<Rightarrow> nat \<Rightarrow> book \<Rightarrow> order_book \<Rightarrow> f64 list \<Rightarrow> int \<Rightarrow> int \<Rightarrow> string \<Rightarrow> time_in_force \<Rightarrow> int option \<Rightarrow> int list \<Rightarrow>
     (book \<times> reconciliation_result \<times> (pending_order \<times> pending_order) list) res" where
  "reconciled_target ex new b orders target start_index bars identity tif expiry_index hold_symbols =
     bindr (target_checks ex b start_index bars identity) (\<lambda>_.
     bindr (quantity_values b) (\<lambda>(held, b1).
     bindr (check_marks ex start_index target held) (\<lambda>_.
     bindr (target_inputs ex b1 held target start_index identity tif expiry_index hold_symbols) (\<lambda>inputs.
     bindr (reconcile_target (ex_nsum ex) new b1 orders inputs) (\<lambda>res.
     bindr (mapr (cancellation_of orders) (rr_cancelled res)) (\<lambda>cancellations. Inr (b1, res, cancellations)))))))"

definition execute_target_statefully ::
  "executor \<Rightarrow> nat \<Rightarrow> nat \<Rightarrow> book \<Rightarrow> order_book \<Rightarrow> f64 list \<Rightarrow> int \<Rightarrow> int \<Rightarrow> string \<Rightarrow> time_in_force \<Rightarrow> int option \<Rightarrow>
     int list \<Rightarrow> stateful_result res" where
  "execute_target_statefully ex new draws b orders target start_index bars identity tif expiry_index hold_symbols =
     bindr (reconciled_target ex new b orders target start_index bars identity tif expiry_index hold_symbols)
       (\<lambda>(b1, res, cancellations).
     execute_stateful_orders ex (new + length (rr_cancelled res)) draws b1 (rr_order_book res) (rr_new_intents res)
       start_index bars cancellations)"

end
