(* ===== verification/EngineExample.thy ===== *)
theory EngineExample
  imports TradeExamples EngineOutcome TargetExecution
begin

text \<open>
  One execution at which the properties of the engine are instantiated: a market of one symbol and two
  bars a year apart, a free executor, and a market order that buys ten units.  The digest of the
  execution policy stays symbolic.
\<close>

section \<open>The inputs\<close>

definition ex_market_data :: market where
  "ex_market_data = \<lparr>mk_dataset_id = ''dataset'', mk_symbols = 1, mk_names = [''A''],
     mk_timestamps = [0, 31536000000000000], mk_available = [[0], [0]], mk_show_time = (\<lambda>_. ''''),
     mk_bar_hours = F 8760, mk_units = [BASE_ASSET], mk_multipliers = [F 1],
     mk_open = [[F 100], [F 100]], mk_high = [[F 100], [F 100]], mk_low = [[F 100], [F 100]],
     mk_close = [[F 100], [F 100]], mk_volume = [[F 10], [F 10]], mk_mark = [[F 100], [F 100]],
     mk_tradable = [[True], [True]], mk_active = [[True], [True]], mk_buy_allowed = [[True], [True]],
     mk_sell_allowed = [[True], [True]], mk_borrow_available = [[True], [True]],
     mk_tick = [[F 0], [F 0]], mk_lot = [[F 1], [F 1]], mk_minimum = [[F 0], [F 0]],
     mk_participation = [[F 1], [F 1]], mk_fee = [[F 0], [F 0]], mk_maker_fee = [[F 0], [F 0]],
     mk_taker_fee = [[F 0], [F 0]], mk_spread = [[F 0], [F 0]], mk_borrow_rate = [[F 0], [F 0]],
     mk_cash_rate = [F 0, F 0], mk_split = [[F 1], [F 1]], mk_dividend = [[F 0], [F 0]],
     mk_recovery = [[F 0], [F 0]], mk_funding_due = [[False], [False]], mk_funding_rate = [[F 0], [F 0]],
     mk_funding_price_rate = None\<rparr>"

definition ex_cost_config :: cost_config where
  "ex_cost_config = \<lparr>cc_fee_rate = F 0, cc_maker_fee_rate = F 0, cc_taker_fee_rate = F 0, cc_spread_rate = F 0,
     cc_impact_rate = F 0, cc_multiplier = F 1, cc_max_participation = F 1, cc_slippage_std = F 0,
     cc_tail_probability = F 0, cc_tail_multiplier = F 0, cc_random_seed = 0, cc_minimum_notional = F 0,
     cc_lot_size = F 0, cc_tick_size = F 0, cc_allow_short = True, cc_borrow_multiplier = F 0,
     cc_max_leverage = F 2, cc_maintenance_rate = F 0, cc_haircut = F 1, cc_margin_mode = ''cross'',
     cc_latency_bars = 1, cc_order_type = ''market'', cc_limit_offset = F 0, cc_path_mode = ''neutral'',
     cc_bar_capacity = True, cc_partial_carry = True, cc_trigger_fractions = [F 1, F 1, F 1, F 1]\<rparr>"

definition ex_executor :: executor where
  "ex_executor = \<lparr>ex_market = ex_market_data, ex_cost = ex_cost_config,
     ex_stress = \<lparr>rs_name = ''baseline'', rs_tick_factor = F 1, rs_lot_factor = F 1, rs_minimum_factor = F 1, rs_adverse = False\<rparr>,
     ex_profile = None, ex_valuation = RETAIN_DEBT, ex_nsum = ex_sum, ex_ndot = ex_dot, ex_log1p = (\<lambda>_. F 0),
     ex_normal = (\<lambda>_. F 0), ex_random = (\<lambda>_. F 0)\<rparr>"

definition ex_policy_sha :: string where
  "ex_policy_sha = (case policy_digest ex_executor of Inr d \<Rightarrow> d | Inl _ \<Rightarrow> [])"

definition ex_buy_raw :: order_intent where
  "ex_buy_raw = ex_raw\<lparr>oi_execution_policy_digest := ex_policy_sha\<rparr>"

definition ex_buy_intent :: order_intent where
  "ex_buy_intent = (case order_intent_create ex_buy_raw of Inr i \<Rightarrow> i | Inl e \<Rightarrow> ex_buy_raw)"

definition ex_cash :: book where
  "ex_cash = ex_account\<lparr>bs_quantities := [F 0], bs_peak := F 1000, bs_exact := [''0'']\<rparr>"

section \<open>Digests and the order\<close>

lemma ex_policy: "policy_digest ex_executor = Inr ex_policy_sha \<and> is_sha256 ex_policy_sha"
proof -
  have "\<exists>b. canonical_json_bytes (PMapping (map (\<lambda>(k, v). (PStr k, v)) (policy_payload ex_cost_config))) = Inr b"
    by (simp add: policy_payload_def ex_cost_config_def canonical_json_bytes_def)
  then obtain d where d: "execution_policy_digest (policy_payload ex_cost_config) = Inr d"
    by (auto simp: execution_policy_digest_def)
  have "\<exists>b. digest_of [(''schema_version'', PStr ''insolvency_execution_policy_v2''),
         (''base_policy_digest'', PStr d), (''insolvency_valuation'', PStr ''retain_debt''),
         (''loss_metric_semantics'', PStr ''unbounded_simple_return_drawdown_v1'')] = Inr (sha256_hex b)"
    by (simp add: digest_of_def content_digest_def canonical_json_bytes_def) blast
  then obtain b where "policy_digest ex_executor = Inr (sha256_hex b)"
    by (auto simp: policy_digest_def executor_policy_digest_def base_policy_def stress_enabled_def ex_executor_def
        ex_market_data_def d f64_eval)
  then show ?thesis using sha256_hex_shape [of b] by (simp add: ex_policy_sha_def is_sha256_def)
qed

lemma ex_buy_create: "order_intent_create ex_buy_raw = Inr ex_buy_intent"
proof -
  have "create_checks ex_buy_raw = Inr ()"
    using ex_not_tolerance ex_policy by (simp add: ex_buy_raw_def ex_raw_def create_checks_def create_price_checks_def
        bindr_Inr validate_digest_Inr validate_positive_def)
  moreover have "\<exists>b. canonical_json_bytes (identity_payload ex_buy_raw) = Inr b"
    by (simp add: ex_buy_raw_def ex_raw_def identity_payload_def canonical_json_bytes_def)
  ultimately have "\<exists>i. order_intent_create ex_buy_raw = Inr i"
    by (auto simp: order_intent_create_def intent_post_init_def ex_buy_raw_def ex_raw_def)
  then show ?thesis by (auto simp: ex_buy_intent_def)
qed

lemma ex_buy_wf: "intent_wf ex_buy_intent"
  using create_Inr_wf [OF ex_buy_create] by simp

lemma ex_buy_eq: "ex_buy_intent = ex_raw\<lparr>oi_execution_policy_digest := ex_policy_sha, oi_order_id := oi_order_id ex_buy_intent\<rparr>"
proof -
  obtain d where "ex_buy_intent = ex_buy_raw\<lparr>oi_order_id := d\<rparr>" using create_Inr_wf [OF ex_buy_create] by blast
  then have eq: "ex_buy_intent = ex_raw\<lparr>oi_execution_policy_digest := ex_policy_sha, oi_order_id := d\<rparr>"
    by (simp add: ex_buy_raw_def)
  have "oi_order_id ex_buy_intent = d" by (subst eq) simp
  then show ?thesis by (simp only: eq [symmetric])
qed

lemma ex_buy_fields [simp]:
  "oi_dataset_id ex_buy_intent = ''dataset''" "oi_target_identity ex_buy_intent = ''target''"
  "oi_execution_policy_digest ex_buy_intent = ex_policy_sha" "oi_symbol_index ex_buy_intent = 0"
  "oi_requested_quantity ex_buy_intent = F 10" "oi_order_type ex_buy_intent = MARKET"
  "oi_time_in_force ex_buy_intent = GTC" "oi_limit_price ex_buy_intent = None" "oi_stop_price ex_buy_intent = None"
  "oi_submit_index ex_buy_intent = 0" "oi_eligible_index ex_buy_intent = 1" "oi_expiry_index ex_buy_intent = None"
  "oi_submission_reference_price ex_buy_intent = F 100" "oi_decision_equity ex_buy_intent = F 1000"
  "oi_replaced_order_id ex_buy_intent = None" "oi_reduce_only ex_buy_intent = False"
  by (subst ex_buy_eq, simp add: ex_raw_def)+

lemma ex_buy_requested: "requested_ok ex_buy_intent"
  using ex_not_tolerance by (simp add: requested_ok_def f64_eval)

text \<open>The order with \<open>n\<close> of its ten units bought.\<close>

definition ex_buy_order :: "rat \<Rightarrow> order_status \<Rightarrow> int \<Rightarrow> f64 \<Rightarrow> pending_order" where
  "ex_buy_order n st v x = (ex_order n st v x)\<lparr>po_intent := ex_buy_intent\<rparr>"

lemma ex_buy_order_simps [simp]:
  "po_intent (ex_buy_order n st v x) = ex_buy_intent" "po_status (ex_buy_order n st v x) = st"
  "po_evidence_version (ex_buy_order n st v x) = v" "po_exact (ex_buy_order n st v x) = Some (fraction_str n)"
  "po_remaining_quantity (ex_buy_order n st v x) = F (10 - n)" "po_requested (ex_buy_order n st v x) = F 10"
  "po_cumulative_filled_quantity (ex_buy_order n st v x) = F n" "po_cumulative_filled_notional (ex_buy_order n st v x) = x"
  "po_last_processed_index (ex_buy_order n st v x) = (if v = 0 then None else Some 1)"
  "po_trigger_index (ex_buy_order n st v x) = None"
  "po_terminal_reason (ex_buy_order n st v x) = (if status_terminal st then Some ''filled'' else None)"
  "po_order_id (ex_buy_order n st v x) = oi_order_id ex_buy_intent"
  by (simp_all add: ex_buy_order_def ex_order_def po_requested_def po_order_id_def)

lemma ex_buy_submitted: "pending_from_intent ex_buy_intent = Inr (ex_buy_order 0 SUBMITTED 0 (F 0))"
proof -
  let ?p = "(ex_order 0 SUBMITTED 0 (F 0))\<lparr>po_intent := ex_buy_intent, po_exact := None\<rparr>"
  have q: "pending_quantity_checks ?p = Inr ()"
    using tolerance_pos by (simp add: pending_quantity_checks_def Let_def ex_sum wrong_direction_def po_requested_def)
  have z: "dec_of_float (F 0) = 0" by (simp add: dec_mag_def)
  have "pending_from_intent ex_buy_intent = pending_post_init ?p"
    by (simp add: pending_from_intent_def ex_order_def status_terminal_def)
  also have "\<dots> = Inr (ex_buy_order 0 SUBMITTED 0 (F 0))"
    using q by (simp add: pending_post_init_def pending_status_checks_def po_terminal_def status_terminal_def
        exact_quantity_def exact_view_check_def ex_order_def ex_buy_order_def po_requested_def checks_Cons_False z)
  finally show ?thesis .
qed

lemma ex_buy_submitted_ok: "pending_ok (ex_buy_order 0 SUBMITTED 0 (F 0))"
  by (rule from_intent_ok [OF ex_buy_requested ex_buy_submitted])

lemma ex_buy_eligible: "mark_eligible 1 (ex_buy_order 0 SUBMITTED 0 (F 0)) = Inr (ex_buy_order 0 ELIGIBLE 1 (F 0))"
  by (simp add: mark_eligible_def transition_Inr [OF ex_buy_submitted_ok] po_terminal_def status_terminal_def
      index_ok_def reason_ok_def moved_def)

lemma ex_buy_fill: "apply_fill (F 10) (F 1000) 1 (F 1) (Some 10) (ex_buy_order 0 ELIGIBLE 1 (F 0)) =
  Inr (ex_buy_order 10 FILLED 2 (F 1000))"
proof -
  let ?p = "ex_buy_order 0 ELIGIBLE 1 (F 0)" and ?q = "ex_buy_order 10 FILLED 2 (F 1000)"
  have a: "parse_quantity (fraction_str 0) = Inr 0" "validate_processing_index ?p 1 = Inr ()" "ensure_active ?p = Inr ()"
    by (simp_all add: res_iff index_ok_def po_terminal_def status_terminal_def)
  have c: "accepted_fill_quantity (F 10) (F 1) (Some 10) = Inr 10"
    by (simp add: accepted_fill_quantity_def quantize_quantity_def exact_quantity_def f64_eval Let_def)
  have "\<not> flt tolerance (fmul quantity_ulps (ulp (fabs (F 10))))" by code_simp
  then have t: "quantity_tolerance [F 10, F 10, F 0, F 10] = tolerance" "quantity_tolerance [F 10, F 10, F 0] = tolerance"
    using zero_tolerance by (intro small_tolerance; auto)+
  moreover have "\<not> fle (F 10) tolerance" "\<not> flt (fadd (F 10) tolerance) (F 10)" by (simp_all add: f64_eval)
  ultimately have k: "fill_checks (F 10) (F 1000) ?p = Inr ()" using tolerance_pos by (simp add: fill_checks_def Let_def)
  have "fle (fabs (F 0)) (quantity_tolerance [F 10, F 10, F 0])" using t tolerance_pos by simp
  moreover have sums: "fadd (F 0) (F 1000) = F 1000" "fadd (F 10) (F 0) = F 10" by (simp_all add: f64_eval)
  ultimately have f: "filled_state 10 (F 1000) 1 ?p = Inr ?q"
    by (simp add: filled_state_def exact_quantity_def Let_def) (simp add: ex_buy_order_def ex_order_def status_terminal_def)
  have "pending_post_init ?q = Inr ?q"
  proof -
    have "pending_quantity_checks ?q = Inr ()" using t tolerance_pos sums
      by (simp add: pending_quantity_checks_def wrong_direction_def Let_def ex_sum(2))
    moreover have "pending_status_checks ?q = Inr ()"
      by (simp add: pending_status_checks_def po_terminal_def status_terminal_def no_reason_def)
    moreover have "pending_post_init ?q = bindr (pending_quantity_checks ?q) (\<lambda>_. bindr (pending_status_checks ?q) (\<lambda>_. Inr ?q))"
      by (rule post_init_projected [of _ 10]) simp_all
    ultimately show ?thesis by simp
  qed
  then show ?thesis by (simp add: apply_fill_def a c k f)
qed

section \<open>The account\<close>

text \<open>The account after the fill, and at the end of the bar.\<close>

definition ex_own :: book where
  "ex_own = ex_cash\<lparr>bs_quantities := [F 10], bs_cash := F 0, bs_exact := [''10''], bs_turnover := F 1,
     bs_fill_count := 1, bs_rebalances := 1, bs_margin_used := F 500\<rparr>"

definition ex_end :: book where
  "ex_end = ex_own\<lparr>bs_returns := [F 0]\<rparr>"

lemmas ex_books = ex_end_def ex_own_def ex_cash_def ex_account_def

lemma ex_strings2: "fraction_str 0 = ''0''" "fraction_str 10 = ''10''" "parse_quantity ''0'' = Inr 0" "parse_quantity ''10'' = Inr 10"
  by code_simp+

lemma ex_slack2: "flt (fadd (F 1000) (fmax (fmax tolerance (fmul (F 1000) tolerance)) (fmul (F 1000) tolerance))) (F 1000) = False"
proof -
  have "nonneg (fmul (F 1000) tolerance)" using tolerance_pos by (intro nonneg_fmul) simp_all
  then show ?thesis by (intro plus_slack) (simp_all add: f64_eval nonneg_fmax)
qed

lemma ex_executor_simps [simp]:
  "ex_market ex_executor = ex_market_data" "ex_cost ex_executor = ex_cost_config" "ex_nsum ex_executor = ex_sum"
  "ex_ndot ex_executor = ex_dot" "ex_profile ex_executor = None" "ex_valuation ex_executor = RETAIN_DEBT"
  "rs_tick_factor (ex_stress ex_executor) = F 1" "rs_lot_factor (ex_stress ex_executor) = F 1"
  "rs_minimum_factor (ex_stress ex_executor) = F 1" "rs_adverse (ex_stress ex_executor) = False"
  by (simp_all add: ex_executor_def)

lemma ex_values2: "quantity_values ex_cash = Inr ([0], ex_cash)" "quantity_values ex_own = Inr ([10], ex_own)"
  by (simp_all add: account_eval ex_books ex_strings2 f64_eval)

lemma ex_clone: "clone_book ex_sum ex_cash = Inr ex_cash"
  by (simp add: clone_book_def ex_values2)
    (simp add: account_post_init_def account_eval ex_books ex_sum_def ex_slack2 ex_strings2 f64_eval)

lemma ex_value: "portfolio_value ex_sum ex_cash = F 1000" "portfolio_value ex_sum ex_own = F 1000"
  by (simp_all add: account_eval ex_books ex_sum_def f64_eval)

lemma ex_drawdowns: "update_drawdown ex_sum False ex_cash = ex_cash" "update_drawdown ex_sum False ex_own = ex_own"
  "update_drawdown ex_sum True ex_own = ex_own"
proof -
  have "fmax (F 1000) min_equity = F 1000" by (rule fmax_min_equity) simp_all
  then show "update_drawdown ex_sum False ex_cash = ex_cash" "update_drawdown ex_sum False ex_own = ex_own"
    "update_drawdown ex_sum True ex_own = ex_own"
    by (simp_all add: update_drawdown_def ex_value Let_def) (simp_all add: ex_books f64_eval)
qed

lemma ex_revalue: "revalue ex_sum [F 100] ex_cash = Inr ex_cash" "revalue ex_sum [F 100] ex_own = Inr ex_own"
  by (simp_all add: revalue_def book_marks_def account_eval ex_books ex_sum_def f64_eval)

lemma ex_margin: "update_margin ex_executor ex_own = Inr ex_own"
    "update_margin ex_executor (ex_own\<lparr>bs_margin_used := F 0\<rparr>) = Inr ex_own"
    "update_margin ex_executor ex_end = Inr ex_end"
  by (simp_all add: update_margin_def set_margin_def np_maximum_def np_minimum_def py_div_def plus_slack account_eval
      ex_books ex_sum_def ex_cost_config_def f64_eval)

lemma ex_fill_account: "execute_fill ex_sum 0 (F 10) [F 100] (F 0) (F 1) (F 1) (Some 10) (Some [F 100]) ex_cash =
    Inr (ex_own\<lparr>bs_margin_used := F 0\<rparr>)"
proof -
  have fs: "fsum [F 1000] = Inr (F 1000)" by code_simp
  have tb: "dec_of_float tolerance < 10" using tolerance_below by simp
  have a: "accepted_delta (F 10) (F 1) (Some 10) 0 = Inr 10" by (simp add: account_eval f64_eval)
  have q: "finite_vector ''fill_prices'' [F 100] = Inr [F 100]" "finite_vector ''valuation_prices'' [F 100] = Inr [F 100]"
    "project_quantity 10 = Inr (F 10)"
    "execution_checks ex_cash [F 100] [F 10] = Inr ()" "amount_checks [F 100] [F 100] (F 0) (F 1) = Inr ()"
    "signed_notional [10] [F 100] (bs_multipliers ex_cash) = Inr (F 1000)"
    by (simp_all add: account_eval ex_books finite_fsum_def fs f64_eval)
  have c: "fsub (bs_cash ex_cash) (fadd (F 1000) (F 0)) = F 0" "fadd (bs_turnover ex_cash) (F 1) = F 1"
    "fadd (bs_total_cost ex_cash) (F 0) = F 0"
    "proposed_equity ex_sum (F 0) [F 10] [F 100] (bs_multipliers ex_cash) = Inr (F 1000)"
    by (simp_all add: account_eval ex_books ex_sum_def f64_eval)
  let ?b = "ex_own\<lparr>bs_margin_used := F 0\<rparr>"
  have e: "executed_book [F 10] [10] [F 100] (F 0) (F 1) (F 0) (count_filled [10]) ex_cash = ?b"
    by (simp add: account_eval ex_books ex_strings2 count_filled_def tb)
  have z: "fle (fsub (fmax (portfolio_value ex_sum ex_cash) (F 0)) tolerance) (F 0) = False"
    "refresh ex_sum ?b = Inr ?b" "update_drawdown ex_sum False ?b = ?b"
    using ex_drawdowns by (simp_all add: account_eval ex_books ex_sum_def f64_eval update_drawdown_def)
  have n: "length (bs_quantities ex_cash) = 1" by (simp add: ex_books)
  show ?thesis
    by (simp add: execute_fill_def record_execution_def execution_marks_def checks.simps ex_values2 a q c e z n Let_def)
qed

section \<open>The start\<close>

text \<open>A runtime with the example order in state \<open>p\<close> and the account \<open>b\<close>.\<close>

definition ex_run :: "book \<Rightarrow> order_book \<Rightarrow> nat \<Rightarrow> order_event list \<Rightarrow> runtime" where
  "ex_run b orders new es =
     \<lparr>rt_book = b, rt_orders = orders, rt_next_node = new, rt_draws = 0, rt_events = es, rt_capacities = [],
      rt_funding_evidence = [], rt_starting_value = F 1000, rt_starting_rebalances = 0, rt_requested = F 1000,
      rt_filled = F 0, rt_filled_reference = F 0, rt_cost = F 0, rt_funding = F 0, rt_borrow = F 0, rt_dividend = F 0,
      rt_interest = F 0, rt_completed = 0, rt_rejected = 0, rt_expired = 0, rt_fills = 0, rt_max_participation = F 0,
      rt_requested_by = [F 1000], rt_filled_by = [F 0], rt_participation_by = [F 0], rt_cost_by = [F 0]\<rparr>"

lemma ex_run_simps [simp]:
  "rt_book (ex_run b orders new es) = b" "rt_orders (ex_run b orders new es) = orders"
  "rt_next_node (ex_run b orders new es) = new" "rt_events (ex_run b orders new es) = es"
  "rt_draws (ex_run b orders new es) = 0"
  "(ex_run b orders new es)\<lparr>rt_book := c\<rparr> = ex_run c orders new es"
  "(ex_run b orders new es)\<lparr>rt_orders := os, rt_next_node := n\<rparr> = ex_run b os n es"
  "(ex_run b orders new es)\<lparr>rt_events := fs\<rparr> = ex_run b orders new fs"
  by (simp_all add: ex_run_def)

definition ex_active :: "order_status \<Rightarrow> int \<Rightarrow> order_book" where
  "ex_active st v = \<lparr>ob_active = [ex_buy_order 0 st v (F 0)], ob_terminal = No_Node\<rparr>"

text \<open>The event that records the example order, the \<open>n\<close>-th of the log.\<close>

definition ex_event_of :: "nat \<Rightarrow> pending_order \<Rightarrow> pending_order \<Rightarrow> string \<Rightarrow> int \<Rightarrow> event_details \<Rightarrow> order_event" where
  "ex_event_of n p q event_type index d = event_of ex_executor (ex_run ex_cash ex_no_orders 0 (replicate n undefined)) p q event_type index
     (if index = 0 then 0 else 31536000000000000) d"

lemma event_of_cong: "length (rt_events r) = length (rt_events s) \<Longrightarrow> event_of ex r p q t i ts d = event_of ex s p q t i ts d"
  by (simp add: event_of_def)

lemma ex_append:
  assumes "event_post_init (ex_event_of n p q t index d) = Inr e" and "length (rt_events r) = n" and "index \<in> {0, 1}"
  shows "append_event ex_executor p q t index d r = Inr (r\<lparr>rt_events := rt_events r @ [e]\<rparr>)"
proof -
  have "event_of ex_executor r p q t index (if index = 0 then 0 else 31536000000000000) d =
      ex_event_of n p q t index d"
    unfolding ex_event_of_def using assms(2) by (intro event_of_cong) simp
  then show ?thesis using assms
    by (auto simp: append_event_def timestamp_ns_def ex_market_data_def vec_at_def)
qed

lemmas ex_event_eval = event_post_init_def ex_event_of_def event_of_def event_number_checks_def event_path_checks_def
  no_details_def checks.simps within_unit_def event_types_def validate_digest_Inr ex_policy ex_not_tolerance
  intent_wf_id [OF ex_buy_wf] Let_def

lemma ex_submit_event: "event_post_init (ex_event_of 0 (ex_buy_order 0 SUBMITTED 0 (F 0)) (ex_buy_order 0 SUBMITTED 0 (F 0))
    ''submitted'' 0 no_details) = Inr (ex_event_of 0 (ex_buy_order 0 SUBMITTED 0 (F 0)) (ex_buy_order 0 SUBMITTED 0 (F 0))
    ''submitted'' 0 no_details)"
  by (simp add: ex_event_eval ex_cost_config_def bindr_Inr f64_eval)

lemma ex_create_runtime: "create_runtime ex_executor 0 0 ex_cash ex_no_orders =
    Inr (ex_run ex_cash ex_no_orders 0 []\<lparr>rt_starting_value := F 0, rt_requested := F 0, rt_requested_by := [F 0]\<rparr>)"
  by (simp add: create_runtime_def ex_clone ex_run_def ex_market_data_def Let_def) (simp add: ex_books)

definition ex_logged :: "order_event list" where
  "ex_logged = [ex_event_of 0 (ex_buy_order 0 SUBMITTED 0 (F 0)) (ex_buy_order 0 SUBMITTED 0 (F 0)) ''submitted'' 0 no_details]"

lemma ex_start: "start_runtime ex_executor 0 0 ex_cash ex_no_orders [ex_buy_intent] [] =
    Inr (ex_run ex_cash (ex_active SUBMITTED 0) 0 ex_logged)"
proof -
  let ?p = "ex_buy_order 0 SUBMITTED 0 (F 0)"
  have g: "add_generated [?p] ex_no_orders = Inr (ex_active SUBMITTED 0)"
    by (simp add: add_generated_Inr ex_no_orders_def ex_active_def latest_submit_def submit_of_def po_terminal_def status_terminal_def)
  show ?thesis
    by (simp add: start_runtime_def ex_create_runtime submit_intents_def submit_intent_def ex_buy_submitted g
      ex_append [OF ex_submit_event])
     (simp add: initialize_metrics_def requested_step_def set_at_def account_eval ex_run_def ex_active_def ex_logged_def
      ex_books ex_sum_def f64_eval)
qed

section \<open>The bar\<close>

definition ex_context :: bar_context where
  "ex_context = \<lparr>bc_previous_index = 0, bc_processing_index = 1, bc_period_start_value = F 1000,
     bc_open_prices = [F 100], bc_tick_size = [F 0], bc_lot_size = [F 1], bc_minimum_notional = [F 0],
     bc_year_fraction = F 1, bc_gap_delta = F 0\<rparr>"

lemma ex_context_simps [simp]:
  "bc_previous_index ex_context = 0" "bc_processing_index ex_context = 1" "bc_period_start_value ex_context = F 1000"
  "bc_open_prices ex_context = [F 100]" "bc_tick_size ex_context = [F 0]" "bc_lot_size ex_context = [F 1]"
  "bc_minimum_notional ex_context = [F 0]" "bc_year_fraction ex_context = F 1" "bc_gap_delta ex_context = F 0"
  by (simp_all add: ex_context_def)

lemma ex_active_simps [simp]: "ob_active (ex_active st v) = [ex_buy_order 0 st v (F 0)]" "ob_terminal (ex_active st v) = No_Node"
  by (simp_all add: ex_active_def)

lemma ex_years: "year_fractions ex_executor 0 1 = Inr (F 1, F 0)"
proof -
  have "elapsed_hours ex_market_data 0 1 = Inr (F 8760)"
    by (simp add: elapsed_hours_def n_bars_def ex_market_data_def vec_at_def ns_per_hour_def
        float_of_fraction_def f64_eval)
  moreover have "mk_bar_hours ex_market_data = F 8760" by (simp add: ex_market_data_def)
  moreover have "fle (F 8760) (fadd (F 8760) tolerance)" by (simp add: f64_eval)
  ultimately show ?thesis by (simp add: year_fractions_def elapsed_year_fraction_def py_div_def f64_eval)
qed

lemma ex_rules: "effective_rules ex_executor 1 = Inr ([F 0], [F 1], [F 0])"
  by (simp add: effective_rules_def n_bars_def ex_market_data_def ex_cost_config_def vec_at_def base_rule_def np_maximum_def f64_eval)

lemma ex_begin: "begin_bar ex_executor 0 1 (ex_run ex_cash orders new es) = Inr (ex_context, ex_run ex_cash orders new es)"
proof -
  have "bar_context_of ex_executor 0 1 (F 1000) [F 100] (F 1) (F 0) = Inr ex_context"
    by (simp add: bar_context_of_def ex_rules ex_context_def)
  moreover have "adjust_splits ex_executor 1 r = Inr r" "settle_inactive ex_executor 1 r = Inr r" for r
    by (simp_all add: adjust_splits_def settle_inactive_def ex_market_data_def vec_at_def)
  moreover have "revalue_open ex_executor 1 (F 0) [F 100] (ex_run ex_cash orders new es) = Inr (ex_run ex_cash orders new es)"
    by (simp add: revalue_open_def ex_revalue set_book_def ex_drawdowns)
  moreover have "vec_at (mk_open ex_market_data) 1 = Inr [F 100]" by (simp add: ex_market_data_def vec_at_def)
  moreover have "fmax (F 1000) tolerance = F 1000" by (simp add: fmax_def tolerance_eq flt_def)
  ultimately show ?thesis by (simp add: begin_bar_def ex_years ex_value)
qed

lemma ex_sqrt: "math_sqrt (F 1) = Inr (F 1)"
  using math_sqrt_square [of "F 1" 1 "2 ^ 600"] by (simp add: f64_eval)

text \<open>The order becomes eligible.\<close>

definition ex_eligible_event :: order_event where
  "ex_eligible_event = ex_event_of 1 (ex_buy_order 0 SUBMITTED 0 (F 0)) (ex_buy_order 0 ELIGIBLE 1 (F 0)) ''eligible'' 1 no_details"

lemma ex_eligible_appended: "event_post_init ex_eligible_event = Inr ex_eligible_event"
  by (simp add: ex_eligible_event_def ex_event_eval ex_cost_config_def bindr_Inr f64_eval)

definition ex_admission_policy :: admission_policy where
  "ex_admission_policy = \<lparr>ap_dataset_id = ''dataset'', ap_digest = ex_policy_sha, ap_allow_short = True, ap_max_leverage = F 2\<rparr>"

lemma ex_executor_admission: "executor_admission ex_executor = Inr ex_admission_policy"
  using ex_policy by (simp add: executor_admission_def admission_policy_post_init_def ex_admission_policy_def
      is_sha256_def checks.simps ex_market_data_def ex_cost_config_def)

lemma ex_prepare: "prepare_orders ex_executor ex_admission_policy ex_context (ex_run ex_cash (ex_active SUBMITTED 0) 0 ex_logged) =
    Inr ([ex_buy_order 0 ELIGIBLE 1 (F 0)], ex_run ex_cash (ex_active ELIGIBLE 1) 1 (ex_logged @ [ex_eligible_event]))"
proof -
  let ?p = "ex_buy_order 0 SUBMITTED 0 (F 0)" and ?q = "ex_buy_order 0 ELIGIBLE 1 (F 0)"
  let ?r = "ex_run ex_cash (ex_active SUBMITTED 0) 0 ex_logged"
  let ?j = "\<lparr>pj_quantities = [F 0], pj_cash = F 1000, pj_marks = [F 100], pj_multipliers = [F 1], pj_insolvent = False\<rparr>"
  have x: "read_exact ?r = Inr ([0], ?r)" by (simp add: read_exact_def ex_values2 set_book_def)
  have j: "project_book ex_sum ex_cash [F 100] = Inr ?j"
    by (simp add: project_book_def projected_value_def projected_positions_def account_eval ex_books ex_sum_def f64_eval)
  have o: "over_cap ex_executor ex_admission_policy ?j = False"
    by (simp add: over_cap_def projected_value_def projected_positions_def ex_admission_policy_def account_eval ex_sum_def f64_eval)
  have e: "make_eligible ex_executor 1 ?p ?r = Inr (?q, ex_run ex_cash (ex_active ELIGIBLE 1) 1 (ex_logged @ [ex_eligible_event]))"
  proof -
    have "book_replace 0 ?q (ex_active SUBMITTED 0) = Inr (ex_active ELIGIBLE 1)"
      by (simp add: book_replace_def ex_active_def po_terminal_def status_terminal_def)
    moreover have "length ex_logged = 1" by (simp add: ex_logged_def)
    ultimately show ?thesis
      by (simp add: make_eligible_def ex_buy_eligible settle_order_def replace_order_def
          ex_append [OF ex_eligible_appended [unfolded ex_eligible_event_def]] ex_eligible_event_def)
  qed
  obtain a where a: "admission_inputs_of ex_executor ex_context 0 False ?p = Inr a"
    and ai: "a = ex_inputs\<lparr>ai_remaining := Some (F 10), ai_borrow_available := True, ai_actual_position := Some 0\<rparr>"
    by (simp add: admission_inputs_of_def cell_def vec_at_def ex_market_data_def ex_context_def order_minimum_notional_def
        market_order_rule_def ex_inputs_def Let_def)
  let ?d = "\<lparr>ad_accepted = True, ad_reason = None, ad_quantity = F 10, ad_notional = F 1000, ad_exact = 10\<rparr>"
  have d: "evaluate_admission ex_sum ex_admission_policy ex_buy_intent (projection_view ex_sum ?j) a = Inr ?d"
    by (simp add: ai projection_tolerance_def divides_exactly_def price_on_tick_grid_def reject_decision_def
      admission_shape_checks_def requested_of_def eligibility_refusals_def requested_check_def bad_rule_def rule_refusals_def
      bound_price_def bound_on_grid_def maximum_refusals_def reducible_position_def reduce_refusals_def short_refusals_def
      notional_price_def leverage_refusals_def admit_quantity_def evaluate_admission_def ex_admission_policy_def
      projection_view_def projected_value_def projected_positions_def ex_inputs_def f64_eval checks.simps
      quantize_quantity_def accepted_fill_quantity_def ex_sum_def all_finite_def refusals.simps vec_at_def add_at_def
      sign1_def gross_notional_def vmul_def Let_def)
  obtain k where k: "apply_admitted_order ex_sum 0 (F 10) (F 100) ?j = Inr k"
    by (simp add: apply_admitted_order_def projected_value_def projected_positions_def account_eval ex_sum_def f64_eval)
  have c: "is_closing (F 0) (F 10) = False" by (simp add: is_closing_def f64_eval)
  let ?prep = "\<lparr>pp_runtime = ?r, pp_projection = ?j, pp_remaining = [0], pp_accepted = []\<rparr>"
  have "admit_order ex_executor ex_admission_policy ex_context False [0] ?prep ?p = Inr \<lparr>pp_runtime =
      ex_run ex_cash (ex_active ELIGIBLE 1) 1 (ex_logged @ [ex_eligible_event]), pp_projection = k, pp_remaining = [0], pp_accepted = [?q]\<rparr>"
    by (simp add: admit_order_def accept_order_def a d e c k vec_at_def
        Let_def)
  then show ?thesis
    by (simp add: prepare_orders_def x j o prepare_order_def past_expiry_def Let_def)
qed

section \<open>The fill\<close>

definition ex_bar_path :: bar_path where
  "ex_bar_path = \<lparr>bp_mode = NEUTRAL, bp_points = [F 100, F 100, F 100, F 100], bp_mixed_direction_fallback = False\<rparr>"

definition ex_trigger :: trigger_decision where
  "ex_trigger = \<lparr>td_executable = True, td_triggered = False, td_execution_price = Some (F 100), td_segment = Some OPEN,
     td_available_volume_fraction = F 1, td_reason = None\<rparr>"

definition ex_fill_request :: liquidity_request where
  "ex_fill_request = \<lparr>lr_order_id = oi_order_id ex_buy_intent, lr_remaining_quantity = F 10, lr_execution_price = F 100,
     lr_volume_fraction = F 1, lr_priority = MARKET_PRIORITY, lr_eligible_index = 1, lr_reduce_only = False,
     lr_minimum_notional = Some (F 0), lr_minimum_quantity = F 0, lr_maximum_quantity = None\<rparr>"

definition ex_fill_terms :: liquidity_terms where
  "ex_fill_terms = \<lparr>lt_volume = F 10, lt_market_notional = Some (F 1000), lt_quantity_capacity = Some (F 10), lt_price = F 100,
     lt_multiplier = F 1, lt_participation = F 1, lt_lot_size = F 1, lt_minimum_notional = F 0, lt_position = Some 0\<rparr>"

definition ex_fill_allocation :: liquidity_allocation where
  "ex_fill_allocation = \<lparr>la_order_id = oi_order_id ex_buy_intent, la_requested_quantity = F 10, la_filled_quantity = F 10,
     la_requested_notional = F 1000, la_filled_notional = F 1000, la_capacity_before = F 1000, la_accessible_capacity = F 1000,
     la_capacity_after = F 0, la_participation_rate = F 1, la_no_fill_reason = None, la_lot_count = Some 10,
     la_lot_size = F 1, la_exhausted = False\<rparr>"

lemma ex_path_selected: "symbol_path ex_executor 1 0 [ex_buy_order 0 ELIGIBLE 1 (F 0)] = Inr ex_bar_path"
proof -
  have m: "path_mode_of ''neutral'' = Inr NEUTRAL" by code_simp
  show ?thesis
    by (simp add: symbol_path_def cell_def vec_at_def ex_market_data_def ex_cost_config_def m select_bar_path_def checks.simps
      bad_price_def bar_path_post_init_def neutral_points_def ex_bar_path_def f64_eval Let_def)
qed

lemma ex_triggered: "trigger_of ex_executor (ex_buy_order 0 ELIGIBLE 1 (F 0)) ex_bar_path = Inr ex_trigger"
  by (simp add: trigger_of_def evaluate_trigger_def decision_at_open_def decision_post_init_def checks.simps bad_price_def
    configured_fraction_def vec_at_def ex_cost_config_def ex_bar_path_def ex_trigger_def po_terminal_def status_terminal_def f64_eval Let_def)

lemma ex_allocated: "\<exists>ev. allocate_symbol_capacity [ex_fill_request] ex_fill_terms = Inr ([ex_fill_allocation], ev) \<and>
    ce_initial_capacity ev = F 1000"
proof -
  let ?pool = "\<lparr>lp_capacity = F 0, lp_quantity = Some (F 0), lp_position = Some 10, lp_allocations = [ex_fill_allocation]\<rparr>"
  have c: "initial_capacity_of ex_fill_terms = F 1000" "initial_quantity_of ex_fill_terms = Some (F 10)"
    "market_notional_of ex_fill_terms = F 1000"
    by (simp_all add: liquidity_eval ex_fill_terms_def f64_eval)
  have k: "terms_checks ex_fill_terms = Inr ()" "pool_checks ex_fill_terms [ex_fill_request] = Inr ()"
    by (simp_all add: liquidity_eval ex_fill_terms_def ex_fill_request_def f64_eval)
  have "nonneg tolerance" using tolerance_pos by (simp add: nonneg_def)
  then have n: "nonneg (fmax (fmax capacity_slack (fmul (F 8) (ulp (F 1000)))) (fmul (F 8) (ulp (F 0))))"
    "nonneg (fmax tolerance (fmul (F 8) (ulp (F 10))))"
    by (intro nonneg_fmax nonneg_fmul; simp add: capacity_slack_def nonneg_rnd power_int_def)+
  then have a: "capacity_accounts ex_fill_terms ?pool = Inr ()" "quantity_accounts ex_fill_terms ?pool = Inr ()"
    by (simp_all add: capacity_accounts_def quantity_accounts_def c py_sum_def isclose_abs_def checks.simps ex_fill_allocation_def
        Let_def f64_eval del: ulp.simps)
  have "allocate_request ex_fill_terms (initial_pool ex_fill_terms) ex_fill_request = Inr ?pool"
    by (simp add: allocate_request_def fill_request_def initial_pool_def c liquidity_eval participation_of_def
        ex_fill_terms_def ex_fill_request_def ex_fill_allocation_def f64_eval)
  then show ?thesis by (simp add: allocate_symbol_capacity_def k a c)
qed

lemma ex_terms_read: "terms_of ex_executor ex_context 0 [0] = Inr ex_fill_terms"
  by (simp add: terms_of_def capacity_reference_def market_notional_def n_bars_def cell_def vec_at_def ex_market_data_def
    ex_cost_config_def checks.simps all_finite_def not_positive_def py_div_def ex_fill_terms_def f64_eval Let_def)

lemma ex_gathered: "gather_order ex_executor ex_context 0 ex_bar_path
    \<lparr>ga_runtime = ex_run ex_cash (ex_active ELIGIBLE 1) new es, ga_requests = [], ga_metadata = [], ga_attempted = []\<rparr>
    (ex_buy_order 0 ELIGIBLE 1 (F 0)) = Inr \<lparr>ga_runtime = ex_run ex_cash (ex_active ELIGIBLE 1) new es,
      ga_requests = [ex_fill_request], ga_metadata = [(oi_order_id ex_buy_intent, \<lparr>fn_order = ex_buy_order 0 ELIGIBLE 1 (F 0),
        fn_trigger = ex_trigger, fn_path = ex_bar_path, fn_price = F 100\<rparr>)], ga_attempted = [oi_order_id ex_buy_intent]\<rparr>"
proof -
  have p: "rounded_price ex_executor ex_context 0 (F 100) (F 10) = Inr (F 100)"
    by (simp add: rounded_price_def set_at_def round_prices_def ex_rules round_cell_def checks.simps vec_at_def all_finite_def
      ex_market_data_def f64_eval Let_def)
  have q: "request_of ex_executor ex_context 0 ex_trigger False (F 100) (ex_buy_order 0 ELIGIBLE 1 (F 0)) = Inr ex_fill_request"
    using intent_wf_id [OF ex_buy_wf]
    by (simp add: request_of_def vec_at_def order_minimum_notional_def market_order_rule_def fill_priority_def ex_trigger_def
      liquidity_request_post_init_def bad_request_rule_def require_sha256_def rewrap_def checks.simps ex_fill_request_def f64_eval Let_def)
  show ?thesis
    by (simp add: gather_order_def require_active_order_def active_order_def ex_triggered record_trigger_def
      ex_trigger_def [THEN arg_cong, of td_triggered] ex_trigger_def [THEN arg_cong, of td_executable]
      ex_trigger_def [THEN arg_cong, of td_execution_price] p q Let_def)
qed

definition ex_fill_details :: event_details where
  "ex_fill_details = no_details\<lparr>ed_segment := Some OPEN, ed_fraction := F 1, ed_path := Some ex_bar_path,
     ed_capacity_before := F 1000, ed_capacity_after := F 0, ed_filled_quantity := F 10, ed_execution_price := Some (F 100),
     ed_filled_notional := F 1000, ed_participation := F 1, ed_reason := Some ''filled''\<rparr>"

definition ex_filled_event :: order_event where
  "ex_filled_event = ex_event_of 2 (ex_buy_order 0 ELIGIBLE 1 (F 0)) (ex_buy_order 10 FILLED 2 (F 1000)) ''filled'' 1 ex_fill_details"

lemma ex_filled_appended: "event_post_init ex_filled_event = Inr ex_filled_event"
  by (simp add: ex_filled_event_def ex_fill_details_def ex_event_eval ex_bar_path_def bindr_Inr f64_eval)

definition ex_done :: order_book where
  "ex_done = \<lparr>ob_active = [], ob_terminal = archive_append 1 (ex_buy_order 10 FILLED 2 (F 1000)) No_Node\<rparr>"

text \<open>The runtime after the fill, up to the capacity evidence.\<close>

definition ex_filled_run :: "order_event list \<Rightarrow> runtime" where
  "ex_filled_run es = (ex_run ex_own ex_done 2 (es @ [ex_filled_event]))\<lparr>rt_filled := F 1000, rt_filled_reference := F 1000,
     rt_completed := 1, rt_fills := 1, rt_max_participation := F 1, rt_filled_by := [F 1000], rt_participation_by := [F 1]\<rparr>"

lemma ex_fill_applied:
  assumes "length es = 2"
  shows "apply_allocation ex_executor ex_context 0
    \<lparr>fn_order = ex_buy_order 0 ELIGIBLE 1 (F 0), fn_trigger = ex_trigger, fn_path = ex_bar_path, fn_price = F 100\<rparr>
    ex_fill_allocation (ex_buy_order 0 ELIGIBLE 1 (F 0)) (ex_run ex_cash (ex_active ELIGIBLE 1) 1 es) = Inr (ex_filled_run es)"
proof -
  let ?p = "ex_buy_order 0 ELIGIBLE 1 (F 0)" and ?q = "ex_buy_order 10 FILLED 2 (F 1000)"
  have n: "reference_notional (ex_run ex_cash (ex_active ELIGIBLE 1) (Suc 0) es) 0 ex_fill_allocation ?p = Inr (F 1000)"
    by (simp add: reference_notional_def vec_at_def checks.simps ex_books ex_fill_allocation_def f64_eval Let_def)
  have c: "execution_cost ex_executor 0 ?p ex_trigger 1 (F 1000) (F 1) = Inr (F 0, 0)"
    by (simp add: execution_cost_def is_maker_def cell_def vec_at_def ex_sqrt slippage_rate_def ex_market_data_def
      ex_cost_config_def f64_eval Let_def)
  have b: "fill_account ex_executor ex_context 0 (F 100) (F 0) ex_fill_allocation ex_cash = Inr ex_own"
    by (simp add: fill_account_def set_at_def py_div_def ex_books [THEN arg_cong, of bs_marks] ex_fill_allocation_def
      ex_fill_account ex_margin ex_account_def f64_eval Let_def)
  have o: "settle_order ex_executor ?p ?q ''filled'' 1 ex_fill_details (ex_run ex_own (ex_active ELIGIBLE 1) (Suc 0) es) =
      Inr (ex_run ex_own ex_done 2 (es @ [ex_filled_event]))"
  proof -
    have "book_replace 1 ?q (ex_active ELIGIBLE 1) = Inr ex_done"
      by (simp add: book_replace_def ex_active_def ex_done_def po_terminal_def status_terminal_def)
    then show ?thesis using assms
      by (simp add: settle_order_def replace_order_def ex_append [OF ex_filled_appended [unfolded ex_filled_event_def]]
        ex_filled_event_def numeral_2_eq_2)
  qed
  have d: "(allocation_details ex_fill_allocation \<lparr>fn_order = ?p, fn_trigger = ex_trigger, fn_path = ex_bar_path, fn_price = F 100\<rparr>)
      \<lparr>ed_filled_quantity := F 10, ed_execution_price := Some (F 100), ed_filled_notional := F 1000, ed_participation := F 1,
       ed_reason := Some ''filled''\<rparr> = ex_fill_details"
    by (simp add: allocation_details_def trigger_details_def no_details_def ex_fill_details_def ex_fill_allocation_def ex_trigger_def)
  have f: "(count_fill 0 (F 0) (F 1000) ex_fill_allocation (ex_run ex_own ex_done 2 (es @ [ex_filled_event]))) =
      Inr ((ex_filled_run es)\<lparr>rt_completed := 0\<rparr>)"
    by (simp add: count_fill_def checks.simps add_at_def vec_at_def set_at_def ex_run_def ex_filled_run_def
      ex_fill_allocation_def f64_eval Let_def)
  have a: "la_filled_quantity ex_fill_allocation = F 10" "la_filled_notional ex_fill_allocation = F 1000"
    "la_lot_size ex_fill_allocation = F 1" "la_lot_count ex_fill_allocation = Some 10"
    "la_participation_rate ex_fill_allocation = F 1"
    by (simp_all add: ex_fill_allocation_def)
  have z: "(ex_filled_run es)\<lparr>rt_completed := 1\<rparr> = ex_filled_run es" "rt_completed ((ex_filled_run es)\<lparr>rt_completed := 0\<rparr>) = 0"
    by (simp_all add: ex_filled_run_def)
  have w: "(ex_run b os k es)\<lparr>rt_draws := 0\<rparr> = ex_run b os k es" for b os k by (simp add: ex_run_def)
  show ?thesis by (simp add: apply_allocation_def n a c ex_buy_fill b w d status_terminal_def o f z Let_def)
qed

lemma ex_processed:
  assumes "length es = 2"
  shows "\<exists>ev. process_symbols ex_executor ex_context [ex_buy_order 0 ELIGIBLE 1 (F 0)] (ex_run ex_cash (ex_active ELIGIBLE 1) 1 es) =
    Inr ([oi_order_id ex_buy_intent], (ex_filled_run es)\<lparr>rt_capacities := [ev]\<rparr>)"
proof -
  let ?p = "ex_buy_order 0 ELIGIBLE 1 (F 0)" and ?r = "ex_run ex_cash (ex_active ELIGIBLE 1) (Suc 0) es"
  let ?n = "\<lparr>fn_order = ?p, fn_trigger = ex_trigger, fn_path = ex_bar_path, fn_price = F 100\<rparr>"
  have s: "order_symbols ex_executor [?p] = [0]" by (simp add: order_symbols_def ex_market_data_def)
  have x: "read_exact ?r = Inr ([0], ?r)" by (simp add: read_exact_def ex_values2 set_book_def)
  have ab: "absorbed ex_executor ?r = False" by (simp add: absorbed_def ex_books)
  obtain ev where al: "allocate_symbol_capacity [ex_fill_request] ex_fill_terms = Inr ([ex_fill_allocation], ev)"
    "ce_initial_capacity ev = F 1000" using ex_allocated by blast
  have a: "ex_fill_allocation\<lparr>la_capacity_before := F 1000, la_capacity_after := F 0\<rparr> = ex_fill_allocation"
    "la_order_id ex_fill_allocation = oi_order_id ex_buy_intent" "la_filled_notional ex_fill_allocation = F 1000"
    "la_filled_quantity ex_fill_allocation = F 10" by (simp_all add: ex_fill_allocation_def)
  have fa: "fill_allocation ex_executor ex_context 0 [(oi_order_id ex_buy_intent, ?n)] (?r, F 1000) ex_fill_allocation =
      Inr (ex_filled_run es, F 0)"
    using ex_fill_applied [OF assms] by (simp add: fill_allocation_def ab a require_active_order_def active_order_def
      recheck_closing_allocation_def f64_eval Let_def)
  have c: "rt_capacities (ex_filled_run es) = []" by (simp add: ex_filled_run_def ex_run_def)
  show ?thesis
    by (intro exI [of _ "ev\<lparr>ce_consumed_capacity := fsub (F 1000) (F 0), ce_remaining_capacity := F 0\<rparr>"])
      (simp add: process_symbols_def s process_symbol_def ab ex_path_selected ex_gathered fill_symbol_def x ex_terms_read al fa c
      Let_def)
qed

section \<open>The end of the bar\<close>

lemma ex_finish:
  assumes r: "rt_book r = ex_own" "rt_dividend r = F 0" "rt_interest r = F 0" "rt_borrow r = F 0" "rt_funding r = F 0"
  shows "finish_bar ex_executor ex_context r = Inr (r\<lparr>rt_book := ex_end\<rparr>)"
proof -
  have u: "unless_terminated ex_executor ex_context s k = k s" if "rt_book s \<in> {ex_own, ex_end}" for s k
    using that by (auto simp: unless_terminated_def finish_retained_termination_def absorbed_def ex_books)
  have d: "apply_dividend ex_sum ex_dot [F 0] ex_own = Inr (F 0, ex_own)"
    by (simp add: apply_dividend_def account_eval ex_books ex_sum_def ex_dot_def f64_eval)
  have i: "processing_cash_interest ex_executor ex_context s = Inr (F 0, ex_own)" if "rt_book s = ex_own" for s
    using that tolerance_pos by (simp add: processing_cash_interest_def apply_cash_interest_def resolved_fraction_def
      cash_interest_amount_def account_eval ex_books ex_market_data_def ex_sum_def f64_eval)
  have c: "charge_carry ex_executor 1 (F 1) ex_own = Inr (NegZero, F 0, ex_own)"
    by (simp add: charge_carry_def charge_borrow_at_def quantity_notional_def np_maximum_def n_bars_def account_eval ex_books
      ex_market_data_def ex_cost_config_def ex_sum_def ex_dot_def f64_eval)
  have m: "mark_to_market ex_sum [F 100] NegZero (Some (F 1000)) True ex_own = Inr (F 0, ex_end)"
  proof -
    have "fadd (F 0) NegZero = F 0" by (simp add: fadd_def f64_eval)
    moreover have "fmax (F 1000) min_equity = F 1000" by (rule fmax_min_equity) simp_all
    ultimately show ?thesis
      by (simp add: mark_to_market_def net_return_of_def projected_drawdown_def update_drawdown_def revalue_def book_marks_def
        account_eval ex_books ex_sum_def f64_eval)
  qed
  have e: "bs_insolvent ex_end = False" by (simp add: ex_books)
  have f: "mark_and_fund ex_executor ex_context NegZero s = Inr (s\<lparr>rt_book := ex_end\<rparr>)" if "rt_book s = ex_own" for s
    using that by (simp add: mark_and_fund_def vec_at_def ex_market_data_def m record_funding_boundary_def ex_margin set_book_def
      e Let_def)
  have z: "fadd (F 0) (F 0) = F 0" "fadd (F 0) NegZero = F 0" "bs_insolvent ex_own = False"
    by (simp_all add: fadd_def ex_books f64_eval)
  have m: "vec_at (mk_dividend ex_market_data) 1 = Inr [F 0]" by (simp add: ex_market_data_def vec_at_def)
  have same: "r\<lparr>rt_book := ex_own\<rparr> = r" "r\<lparr>rt_dividend := F 0\<rparr> = r" "r\<lparr>rt_interest := F 0\<rparr> = r" "r\<lparr>rt_borrow := F 0\<rparr> = r"
    "r\<lparr>rt_funding := F 0\<rparr> = r" using r by (cases r; simp)+
  show ?thesis by (simp add: finish_bar_def u r z d i c f m same Let_def)
qed

section \<open>The run\<close>

lemma ex_submission: "submission_ok ex_no_orders [ex_buy_intent]"
  using ex_buy_requested by (simp add: submission_ok_def ex_no_orders_def all_orders_def Let_def)

lemma ex_ran: "\<exists>r. run_stateful ex_executor 0 0 ex_cash ex_no_orders [ex_buy_intent] 0 1 [] = Inr (1, r) \<and>
    rt_events r = ex_logged @ [ex_eligible_event, ex_filled_event] \<and> rt_orders r = ex_done \<and> rt_book r = ex_end \<and>
    (\<exists>ev. r = (ex_filled_run (ex_logged @ [ex_eligible_event]))\<lparr>rt_capacities := [ev], rt_book := ex_end\<rparr>)"
proof -
  let ?r = "ex_run ex_cash (ex_active SUBMITTED 0) 0 ex_logged" and ?es = "ex_logged @ [ex_eligible_event]"
  have "length ?es = 2" by (simp add: ex_logged_def)
  from ex_processed [OF this] obtain ev where p: "process_symbols ex_executor ex_context [ex_buy_order 0 ELIGIBLE 1 (F 0)]
      (ex_run ex_cash (ex_active ELIGIBLE 1) 1 ?es) = Inr ([oi_order_id ex_buy_intent], (ex_filled_run ?es)\<lparr>rt_capacities := [ev]\<rparr>)"
    by blast
  let ?s = "(ex_filled_run ?es)\<lparr>rt_capacities := [ev]\<rparr>"
  have s: "rt_book ?s = ex_own" "rt_orders ?s = ex_done" "rt_events ?s = ?es @ [ex_filled_event]" "rt_dividend ?s = F 0"
    "rt_interest ?s = F 0" "rt_borrow ?s = F 0" "rt_funding ?s = F 0"
    by (simp_all add: ex_filled_run_def) (simp_all add: ex_run_def)
  have ab: "absorbed ex_executor ?r = False" "absorbed ex_executor ?s = False" "absorbed ex_executor (?s\<lparr>rt_book := ex_end\<rparr>) = False"
    using s(1) by (simp_all add: absorbed_def ex_books)
  have x: "expire_attempted_remainders ex_executor 1 [oi_order_id ex_buy_intent] ?s = Inr ?s"
    using s(2) by (simp add: expire_attempted_remainders_def expire_attempted_def active_order_def ex_done_def)
  have "execute_bar ex_executor ex_admission_policy 0 ?r = Inr (?s\<lparr>rt_book := ex_end\<rparr>)"
    using p s by (simp add: execute_bar_def ex_begin ab ex_prepare x ex_finish Let_def)
  then have "execute_bars ex_executor ex_admission_policy 0 1 ?r = Inr (1, ?s\<lparr>rt_book := ex_end\<rparr>)"
    by (simp add: ab)
  moreover have "interval_checks ex_executor ex_cash 0 1 = Inr ()"
    by (simp add: interval_checks_def checks.simps n_bars_def ex_market_data_def ex_books)
  ultimately have "run_stateful ex_executor 0 0 ex_cash ex_no_orders [ex_buy_intent] 0 1 [] = Inr (1, ?s\<lparr>rt_book := ex_end\<rparr>)"
    by (simp add: run_stateful_def ex_start ex_executor_admission)
  moreover have "rt_events (?s\<lparr>rt_book := ex_end\<rparr>) = ex_logged @ [ex_eligible_event, ex_filled_event]"
    "rt_orders (?s\<lparr>rt_book := ex_end\<rparr>) = ex_done" "rt_book (?s\<lparr>rt_book := ex_end\<rparr>) = ex_end" using s by simp_all
  ultimately show ?thesis by blast
qed

lemma ex_run_types: "map oe_event_type (ex_logged @ [ex_eligible_event, ex_filled_event]) = [''submitted'', ''eligible'', ''filled'']"
  by (simp add: ex_logged_def ex_eligible_event_def ex_filled_event_def ex_event_of_def event_of_def Let_def)

section \<open>An account that goes under\<close>

text \<open>Ten units bought on credit; the price halves at the open of the bar.  Debts are not retained.\<close>

definition ex_crash :: market where
  "ex_crash = ex_market_data\<lparr>mk_open := [[F 100], [F 50]], mk_high := [[F 100], [F 50]], mk_low := [[F 100], [F 50]],
     mk_close := [[F 100], [F 50]], mk_mark := [[F 100], [F 50]]\<rparr>"

definition ex_floor :: executor where
  "ex_floor = ex_executor\<lparr>ex_market := ex_crash, ex_valuation := FLOOR_ZERO\<rparr>"

definition ex_leveraged :: book where
  "ex_leveraged = ex_account\<lparr>bs_quantities := [F 10], bs_cash := F (-900), bs_peak := F 100, bs_exact := [''10'']\<rparr>"

definition ex_broke :: book where
  "ex_broke = ex_leveraged\<lparr>bs_marks := [F 50], bs_max_drawdown := F 1, bs_insolvent := True, bs_termination := Some INSOLVENCY\<rparr>"

definition ex_closed :: book where
  "ex_closed = ex_broke\<lparr>bs_quantities := [F 0], bs_cash := F 0\<rparr>"

lemmas ex_failures = ex_closed_def ex_broke_def ex_leveraged_def ex_account_def

lemma ex_floor_simps [simp]:
  "ex_market ex_floor = ex_crash" "ex_cost ex_floor = ex_cost_config" "ex_nsum ex_floor = ex_sum"
  "ex_ndot ex_floor = ex_dot" "ex_profile ex_floor = None" "ex_valuation ex_floor = FLOOR_ZERO" "ex_stress ex_floor = ex_stress ex_executor"
  by (simp_all add: ex_floor_def)

lemma ex_slack3: "flt (fadd (F 100) (fmax (fmax tolerance (fmul (F 100) tolerance)) (fmul (F 100) tolerance))) (F 100) = False"
proof -
  have "nonneg (fmul (F 100) tolerance)" using tolerance_pos by (intro nonneg_fmul) simp_all
  then show ?thesis by (intro plus_slack) (simp_all add: f64_eval nonneg_fmax)
qed

lemma ex_leveraged_values: "quantity_values ex_leveraged = Inr ([10], ex_leveraged)" "quantity_values ex_broke = Inr ([10], ex_broke)"
  by (simp_all add: account_eval ex_failures ex_strings2 f64_eval)

lemma ex_leveraged_clone: "clone_book ex_sum ex_leveraged = Inr ex_leveraged"
  by (simp add: clone_book_def ex_leveraged_values)
    (simp add: account_post_init_def account_eval ex_failures ex_sum_def ex_slack3 ex_strings2 f64_eval)

lemma min_equity_floor: "fmax (F 100) min_equity = F 100" "fmax (F 100) (F 0) = F 100"
  by (rule fmax_min_equity) (simp_all add: f64_eval)

lemma ex_zero_ratio: "fdiv (F 0) (F 100) = F 0"
  by (simp add: fdiv_def signed_zero_def)

lemma ex_broken: "revalue ex_sum [F 50] ex_leveraged = Inr (ex_broke\<lparr>bs_max_drawdown := F 0\<rparr>)"
    "update_drawdown ex_sum False (ex_broke\<lparr>bs_max_drawdown := F 0\<rparr>) = ex_broke"
  by (simp_all add: revalue_def book_marks_def update_drawdown_def account_eval ex_failures ex_sum_def min_equity_floor ex_zero_ratio f64_eval)

lemma ex_flattened: "flatten_after_termination ex_floor ex_broke [F 50] = ex_closed"
    "flatten_after_termination ex_floor (ex_closed\<lparr>bs_returns := xs\<rparr>) [F 50] = ex_closed\<lparr>bs_returns := xs\<rparr>"
  by (simp_all add: flatten_after_termination_def account_eval ex_failures ex_sum_def f64_eval)

lemma ex_closed_margin: "update_margin ex_floor (ex_closed\<lparr>bs_returns := xs\<rparr>) = Inr (ex_closed\<lparr>bs_returns := xs\<rparr>)"
proof -
  have z: "fdiv (F 0) (F 2) = F 0" by (simp add: fdiv_def signed_zero_def)
  show ?thesis
    by (simp add: update_margin_def set_margin_def np_maximum_def np_minimum_def py_div_def plus_slack account_eval z
      ex_failures ex_sum_def ex_cost_config_def flatten_after_termination_def f64_eval)
qed

end
