(* ===== verification/DepthExample.thy ===== *)
theory DepthExample
  imports Depth EngineExample
begin

text \<open>
  A recorded depth of two ask levels that fills ten of twelve lots at an average between them.
\<close>

definition ex_depth_rules :: depth_order_rules where
  "ex_depth_rules = \<lparr>dr_lot_size = F 1, dr_minimum_quantity = F 1, dr_maximum_quantity = F 100, dr_minimum_notional = F 10,
     dr_maximum_notional = Some (F 2000)\<rparr>"

definition ex_depth_request :: depth_request where
  "ex_depth_request = \<lparr>dq_symbol = 0, dq_lots = 12, dq_rules = ex_depth_rules, dq_bids = [(F 98, F 4)],
     dq_asks = [(F 99, F 5), (F 101, F 5)], dq_decision_at = Some 1000000, dq_quote_at = Some 2000000,
     dq_execution_at = Some 3000000, dq_fee_bps = F 0, dq_adverse_bps = F 0, dq_fraction = F 1\<rparr>"

definition ex_depth_fill :: depth_fill where
  "ex_depth_fill = \<lparr>df_filled_lots = 10, df_unfilled_lots = 2, df_price = Some (F 100), df_fee = F 0, df_reason = None\<rparr>"

lemma ex_depth_ok: "depth_request_ok ex_depth_request"
  by (simp add: depth_request_ok_def ex_depth_request_def ex_depth_rules_def depth_rules_post_init_def not_finite_def
    levels_f64_def checks.simps f64_eval)

lemma ex_depth_checked: "depth_checks ex_cash ex_depth_request = Inr ()"
  by (simp add: depth_checks_def depth_time_checks_def depth_number_checks_def validate_depth_def validate_side_def
    require_aware_datetime_def not_finite_def ex_depth_request_def ex_books checks.simps f64_eval)

lemma ex_depth_sides: "depth_side ex_depth_request = 1" "depth_levels ex_depth_request = [(F 99, F 5), (F 101, F 5)]"
  "adverse_factor ex_depth_request = Inr 1"
  by (simp_all add: depth_levels_def depth_side_def adverse_factor_def exact_quantity_def ex_depth_request_def f64_eval dec_mag_def)

lemma ex_depth_fields: "dq_symbol ex_depth_request = 0" "dq_lots ex_depth_request = 12" "dq_rules ex_depth_request = ex_depth_rules"
  "dq_fee_bps ex_depth_request = F 0" "dq_fraction ex_depth_request = F 1" "dr_lot_size ex_depth_rules = F 1"
  by (simp_all add: ex_depth_request_def ex_depth_rules_def)

lemma ex_depth_filled: "\<exists>c. execute_depth_order ex_sum ex_depth_request ex_cash = Inr (ex_depth_fill, c)"
proof -
  obtain c where c: "execute_fill ex_sum 0 (F 10) [F 100] (F 0) (F 1) (F 1) (Some 10) (Some [F 100]) ex_cash = Inr c"
    using ex_fill_account by blast
  have x: "exact_quantity (F 1) = Inr 1" "exact_quantity (F 5) = Inr 5" "exact_quantity (F 99) = Inr 99"
    "exact_quantity (F 101) = Inr 101" "exact_quantity (F 100) = Inr 100" "exact_quantity (F 10) = Inr 10"
    "exact_quantity (F 2000) = Inr 2000"
    by (simp_all add: exact_quantity_def f64_eval)
  have r: "depth_refusal ex_depth_rules 12 1188 = Inr None"
    by (simp add: depth_refusal_def above_maximum_def ex_depth_rules_def x)
  have cap: "depth_capacity 1 [(F 99, F 5), (F 101, F 5)] = Inr 10" by (simp add: depth_capacity_def x)
  have w: "walk_levels 1 1 [(F 99, F 5), (F 101, F 5)] 10 0 = Inr (0, 1000)" by (simp add: x Let_def)
  have am: "above_maximum ex_depth_rules 1000 = Inr False" by (simp add: above_maximum_def ex_depth_rules_def x)
  have q: "project_quantity 10 = Inr (F 10)" "float_of_fraction 100 = Inr (F 100)"
    by (simp_all add: project_quantity_def float_of_fraction_def project_loop_stop f64_eval)
  have z: "fdiv (F 0) (F 10000) = F 0" by (simp add: fdiv_def Let_def signed_zero_def)
  have b: "book_depth_fill ex_sum ex_depth_request (F 1) 1 10 1000 ex_cash = Inr (ex_depth_fill, c)"
    using c by (simp add: book_depth_fill_def q z ex_depth_sides ex_depth_fill_def ex_value py_div_def ex_depth_fields
      ex_books [THEN arg_cong, of bs_marks] f64_eval ex_account_def Let_def)
  have m: "match_depth ex_sum ex_depth_request (F 1) 1 1 1 ex_cash = Inr (ex_depth_fill, c)"
    using b am w cap x by (simp add: match_depth_def ex_depth_sides ex_depth_fields Let_def)
  show ?thesis
    using m r by (simp add: execute_depth_order_def ex_depth_checked ex_depth_sides x ex_books [THEN arg_cong, of bs_multipliers]
      ex_account_def ex_depth_fields Let_def)
qed

end
