(* ===== verification/EngineFailure.thy ===== *)
theory EngineFailure
  imports EngineExample
begin

text \<open>
  The execution of the leveraged account of the examples: it is insolvent at the open of the bar and
  ends flat.
\<close>

definition ex_failing_run :: "book \<Rightarrow> runtime" where
  "ex_failing_run b = (ex_run b ex_no_orders 0 [])\<lparr>rt_starting_value := F 100, rt_requested := F 0, rt_requested_by := [F 0]\<rparr>"

lemma ex_failing_simps [simp]:
  "rt_book (ex_failing_run b) = b" "rt_orders (ex_failing_run b) = ex_no_orders"
  "(ex_failing_run b)\<lparr>rt_book := c\<rparr> = ex_failing_run c"
  by (simp_all add: ex_failing_run_def) (simp add: ex_run_def)

lemma ex_failing_start: "start_runtime ex_floor 0 0 ex_leveraged ex_no_orders [] [] = Inr (ex_failing_run ex_leveraged)"
proof -
  have "portfolio_value ex_sum ex_leveraged = F 100" "bs_rebalances ex_leveraged = 0" "mk_symbols ex_crash = 1"
    by (simp_all add: account_eval ex_failures ex_sum_def ex_crash_def ex_market_data_def f64_eval)
  then show ?thesis
    by (simp add: start_runtime_def create_runtime_def ex_leveraged_clone submit_intents_def initialize_metrics_def checks.simps
      not_positive_def ex_no_orders_def Let_def) (simp add: ex_failing_run_def ex_run_def ex_no_orders_def)
qed

lemma ex_failing_years: "year_fractions ex_floor 0 1 = Inr (F 1, F 0)"
proof -
  have "elapsed_hours ex_crash 0 1 = Inr (F 8760)"
    by (simp add: elapsed_hours_def n_bars_def ex_crash_def ex_market_data_def vec_at_def ns_per_hour_def
        float_of_fraction_def f64_eval)
  moreover have "mk_bar_hours ex_crash = F 8760" by (simp add: ex_crash_def ex_market_data_def)
  moreover have "fle (F 8760) (fadd (F 8760) tolerance)" by (simp add: f64_eval)
  ultimately show ?thesis by (simp add: year_fractions_def elapsed_year_fraction_def py_div_def f64_eval)
qed

definition ex_failing_context :: bar_context where
  "ex_failing_context = ex_context\<lparr>bc_period_start_value := F 100, bc_open_prices := [F 50]\<rparr>"

lemma ex_failing_begin: "begin_bar ex_floor 0 1 (ex_failing_run ex_leveraged) = Inr (ex_failing_context, ex_failing_run ex_broke)"
proof -
  have "effective_rules ex_floor 1 = Inr ([F 0], [F 1], [F 0])"
    by (simp add: effective_rules_def n_bars_def ex_crash_def ex_market_data_def ex_cost_config_def vec_at_def base_rule_def
      np_maximum_def f64_eval)
  then have "bar_context_of ex_floor 0 1 (F 100) [F 50] (F 1) (F 0) = Inr ex_failing_context"
    by (simp add: bar_context_of_def ex_failing_context_def ex_context_def)
  moreover have "adjust_splits ex_floor 1 r = Inr r" "settle_inactive ex_floor 1 r = Inr r" for r
    by (simp_all add: adjust_splits_def settle_inactive_def ex_crash_def ex_market_data_def vec_at_def)
  moreover have "revalue_open ex_floor 1 (F 0) [F 50] (ex_failing_run ex_leveraged) = Inr (ex_failing_run ex_broke)"
    by (simp add: revalue_open_def ex_broken set_book_def)
  moreover have "vec_at (mk_open ex_crash) 1 = Inr [F 50]" by (simp add: ex_crash_def vec_at_def)
  moreover have "portfolio_value ex_sum ex_leveraged = F 100" by (simp add: account_eval ex_failures ex_sum_def f64_eval)
  moreover have "fmax (F 100) tolerance = F 100" by (simp add: fmax_def tolerance_eq flt_def)
  ultimately show ?thesis by (simp add: begin_bar_def ex_failing_years)
qed

lemma ex_failing_cancel: "cancel_and_flatten ex_floor 1 [F 50] (ex_failing_run ex_broke) = Inr (ex_failing_run ex_closed)"
    "cancel_and_flatten ex_floor 1 [F 50] (ex_failing_run (ex_closed\<lparr>bs_returns := xs\<rparr>)) = Inr (ex_failing_run (ex_closed\<lparr>bs_returns := xs\<rparr>))"
  by (simp_all add: cancel_and_flatten_def cancel_active_orders_def flatten_runtime_def set_book_def ex_flattened
    ex_no_orders_def [THEN arg_cong, of ob_active])

lemma ex_failing_finish: "\<exists>xs. finish_bar ex_floor ex_failing_context (ex_failing_run ex_broke) =
    Inr (ex_failing_run (ex_closed\<lparr>bs_returns := xs\<rparr>))"
proof -
  have u: "unless_terminated ex_floor ex_failing_context s k = k s" for s k
    by (simp add: unless_terminated_def finish_retained_termination_def absorbed_def)
  have d: "apply_dividend ex_sum ex_dot [F 0] ex_closed = Inr (F 0, ex_closed)"
    by (simp add: apply_dividend_def account_eval ex_failures ex_sum_def ex_dot_def f64_eval)
  have i: "processing_cash_interest ex_floor ex_failing_context s = Inr (F 0, ex_closed)" if "rt_book s = ex_closed" for s
    using that tolerance_pos by (simp add: processing_cash_interest_def apply_cash_interest_def resolved_fraction_def
      cash_interest_amount_def account_eval ex_failures ex_failing_context_def ex_crash_def ex_market_data_def ex_sum_def f64_eval)
  have nz: "fadd (F 0) NegZero = F 0" "fmul NegZero (F 0) = NegZero"
    by (simp_all add: fadd_def fmul_def signed_zero_def f64_eval)
  have c: "charge_carry ex_floor 1 (F 1) ex_closed = Inr (NegZero, F 0, ex_closed)"
    by (simp add: charge_carry_def charge_borrow_at_def quantity_notional_def np_maximum_def n_bars_def account_eval ex_failures
      ex_crash_def ex_market_data_def ex_cost_config_def ex_sum_def ex_dot_def nz f64_eval)
  obtain n xs where m: "mark_to_market ex_sum [F 50] NegZero (Some (F 100)) False ex_closed = Inr (n, ex_closed\<lparr>bs_returns := xs\<rparr>)"
    using nz by (simp add: mark_to_market_def net_return_of_def projected_drawdown_def update_drawdown_def revalue_def book_marks_def
        min_equity_floor ex_zero_ratio account_eval ex_failures ex_sum_def f64_eval)
  have f: "mark_and_fund ex_floor ex_failing_context NegZero s = Inr (s\<lparr>rt_book := ex_closed\<lparr>bs_returns := xs\<rparr>\<rparr>)"
    if "s = ex_failing_run ex_closed" for s
    using that by (simp add: mark_and_fund_def vec_at_def ex_crash_def ex_market_data_def ex_failing_context_def m
      record_funding_boundary_def ex_closed_margin set_book_def ex_failing_cancel Let_def)
  have z: "fadd (F 0) (F 0) = F 0" "bs_insolvent ex_broke" by (simp_all add: ex_failures f64_eval)
  have q: "vec_at (mk_dividend ex_crash) 1 = Inr [F 0]" "bc_processing_index ex_failing_context = 1"
    "bc_open_prices ex_failing_context = [F 50]" "bc_year_fraction ex_failing_context = F 1"
    by (simp_all add: ex_crash_def ex_market_data_def vec_at_def ex_failing_context_def)
  have t: "rt_dividend (ex_failing_run b) = F 0" "rt_interest (ex_failing_run b) = F 0" "rt_borrow (ex_failing_run b) = F 0"
    "rt_funding (ex_failing_run b) = F 0" "(ex_failing_run b)\<lparr>rt_dividend := F 0\<rparr> = ex_failing_run b"
    "(ex_failing_run b)\<lparr>rt_interest := F 0\<rparr> = ex_failing_run b" "(ex_failing_run b)\<lparr>rt_borrow := F 0\<rparr> = ex_failing_run b"
    "(ex_failing_run b)\<lparr>rt_funding := F 0\<rparr> = ex_failing_run b" for b
    by (simp_all add: ex_failing_run_def ex_run_def)
  have "finish_bar ex_floor ex_failing_context (ex_failing_run ex_broke) = Inr (ex_failing_run (ex_closed\<lparr>bs_returns := xs\<rparr>))"
    by (simp add: finish_bar_def u z q t nz ex_failing_cancel d i c f Let_def)
  then show ?thesis by blast
qed

lemma ex_failing_ran: "\<exists>r. run_stateful ex_floor 0 0 ex_leveraged ex_no_orders [] 0 1 [] = Inr (1, r) \<and> bs_insolvent (rt_book r)"
proof -
  obtain xs where f: "finish_bar ex_floor ex_failing_context (ex_failing_run ex_broke) =
      Inr (ex_failing_run (ex_closed\<lparr>bs_returns := xs\<rparr>))" using ex_failing_finish by blast
  have n: "absorbed ex_floor s = False" "ob_active ex_no_orders = []" for s by (simp_all add: absorbed_def ex_no_orders_def)
  have p: "prepare_orders ex_floor pol ex_failing_context (ex_failing_run ex_broke) = Inr ([], ex_failing_run ex_broke)" for pol
    by (simp add: prepare_orders_def read_exact_def ex_leveraged_values set_book_def n)
  have "execute_bar ex_floor pol 0 (ex_failing_run ex_leveraged) = Inr (ex_failing_run (ex_closed\<lparr>bs_returns := xs\<rparr>))" for pol
    by (simp add: execute_bar_def ex_failing_begin n p process_symbols_def order_symbols_def expire_attempted_remainders_def f Let_def)
  then have "execute_bars ex_floor pol 0 1 (ex_failing_run ex_leveraged) = Inr (1, ex_failing_run (ex_closed\<lparr>bs_returns := xs\<rparr>))" for pol
    by (simp add: n)
  moreover have "interval_checks ex_floor ex_leveraged 0 1 = Inr ()"
    by (simp add: interval_checks_def checks.simps n_bars_def ex_crash_def ex_market_data_def ex_failures)
  moreover obtain pol where "executor_admission ex_floor = Inr pol"
  proof -
    have "\<exists>b. canonical_json_bytes (PMapping (map (\<lambda>(k, v). (PStr k, v)) (policy_payload ex_cost_config))) = Inr b"
      by (simp add: policy_payload_def ex_cost_config_def canonical_json_bytes_def)
    then obtain b where "policy_digest ex_floor = Inr (sha256_hex b)"
      by (auto simp: policy_digest_def executor_policy_digest_def base_policy_def stress_enabled_def execution_policy_digest_def
          ex_crash_def ex_market_data_def f64_eval)
    then show thesis using that sha256_hex_shape [of b]
      by (simp add: executor_admission_def admission_policy_post_init_def checks.simps ex_crash_def ex_market_data_def ex_cost_config_def)
  qed
  ultimately have "run_stateful ex_floor 0 0 ex_leveraged ex_no_orders [] 0 1 [] = Inr (1, ex_failing_run (ex_closed\<lparr>bs_returns := xs\<rparr>))"
    by (simp add: run_stateful_def ex_failing_start)
  then show ?thesis by (simp add: ex_failures)
qed

end
