(* ===== verification/TargetOutcome.thy ===== *)
theory TargetOutcome
  imports EngineOutcome TargetExecution
begin

text \<open>
  What the observers of an execution can rely on: the totals as counts of events, the fields of the
  result, and the execution of a target as a reconciliation followed by an execution of its orders.
\<close>

section \<open>Totals as counts\<close>

lemma count_events:
  "foldl count_event (a, b, c, d, x) es =
     (a + int (length (filter (\<lambda>e. oe_event_type e = ''rejected'') es)),
      b + int (length (filter (\<lambda>e. oe_event_type e = ''expired'') es)),
      c + int (length (filter is_fill_event es)),
      d + int (length (filter (\<lambda>e. oe_event_type e = ''filled'') es)),
      foldl fadd x (map oe_filled_notional (filter is_fill_event es)))"
  by (induction es arbitrary: a b c d x) (auto simp: count_event_def Let_def)

text \<open>The events of the start count for nothing.\<close>

lemma start_events_silent:
  assumes "\<forall>e \<in> set es. oe_event_type e \<in> {''cancelled'', ''submitted''}"
  shows "filter (\<lambda>e. oe_event_type e = ''rejected'') es = []" "filter (\<lambda>e. oe_event_type e = ''expired'') es = []"
    "filter is_fill_event es = []" "filter (\<lambda>e. oe_event_type e = ''filled'') es = []" "fills_of es i = []"
  using assms by (auto simp: filter_empty_conv is_fill_event_def fills_of_def)

section \<open>A whole execution\<close>

text \<open>Start and bars together.\<close>

lemma run_parts:
  assumes run: "run_stateful ex new draws b orders intents start bars cs = Inr (k, r)"
    and ok: "book_ok orders" and sub: "submission_ok orders intents"
  obtains ps r0 fs es where "rt_orders r0 = orders\<lparr>ob_active := ob_active orders @ ps\<rparr>" "map po_intent ps = intents"
    "\<forall>p \<in> set ps. po_cumulative_filled_notional p = F 0" "rt_events r0 = fs"
    "map oe_order_id fs = map (\<lambda>t. po_order_id (fst t)) cs @ submitted_ids intents"
    "\<forall>e \<in> set fs. event_wf e \<and> oe_event_type e \<in> {''cancelled'', ''submitted''}"
    "map oe_sequence fs = map int [0 ..< length fs]" "totals_of r0 = no_totals" "extends_bars start (nat k) r0 r es"
    "live r" "consistent r" "0 < k" "k \<le> bars" "k < bars \<longrightarrow> absorbed ex r" "bar_runs start (nat k) r0 r" "live r0"
proof (rule run_stateful_facts [OF run ok sub])
  fix r0 es
  assume start: "start_runtime ex new draws b orders intents cs = Inr r0"
    and rest: "extends_bars start (nat k) r0 r es" "live r" "consistent r" "0 < k" "k \<le> bars" "k < bars \<longrightarrow> absorbed ex r"
      "bar_runs start (nat k) r0 r"
  obtain ps fs where "map po_intent ps = intents" "\<forall>p \<in> set ps. po_cumulative_filled_notional p = F 0"
    "rt_orders r0 = orders\<lparr>ob_active := ob_active orders @ ps\<rparr>" "totals_of r0 = no_totals"
    "rt_events r0 = fs" "map oe_order_id fs = map (\<lambda>t. po_order_id (fst t)) cs @ submitted_ids intents"
    "\<forall>e \<in> set fs. event_wf e \<and> oe_event_type e \<in> {''cancelled'', ''submitted''}"
    "map oe_sequence fs = map int [0 ..< length fs]" "live r0"
    by (rule start_runtime_facts [OF start ok sub])
  with rest show thesis using that by metis
qed

lemma result_fields:
  "result_payload ex start k r = Inr s \<Longrightarrow> sr_order_events s = rt_events r \<and> sr_order_book s = rt_orders r \<and>
     sr_book s = rt_book r \<and> sr_next_index s = start + k \<and> sr_bars_advanced s = k \<and> sr_rejected_count s = rt_rejected r \<and>
     sr_expired_count s = rt_expired r \<and> sr_fill_count s = rt_fills r \<and> sr_completed_fill_count s = rt_completed r \<and>
     sr_filled_notional s = rt_filled r"
  unfolding result_payload_def Let_def bindr_Inr split_paired_Ex prod.case by auto

section \<open>The execution of a target\<close>

lemma target_parts:
  assumes "execute_target_statefully ex new draws b orders target start bars identity tif expiry holds = Inr s"
    and "reconciled_target ex new b orders target start bars identity tif expiry holds = Inr (b1, res, cs)"
  obtains k r where "run_stateful ex (new + length (rr_cancelled res)) draws b1 (rr_order_book res) (rr_new_intents res)
      start bars cs = Inr (k, r)" "result_payload ex start k r = Inr s"
  using assms unfolding execute_target_statefully_def execute_stateful_orders_def bindr_Inr split_paired_Ex prod.case by auto

lemma cancellation_of_Inr:
  "cancellation_of orders d = Inr t \<longleftrightarrow>
     (\<exists>p. map_of (rev (map (\<lambda>p. (po_order_id p, p)) (ob_active orders))) (po_order_id d) = Some p \<and> t = (p, d))"
  by (auto simp: cancellation_of_def split: option.splits)

lemma cancellation_ids: "mapr (cancellation_of orders) ds = Inr cs \<Longrightarrow>
    map (\<lambda>t. po_order_id (fst t)) cs = map po_order_id ds \<and> map snd cs = ds \<and> fst ` set cs \<subseteq> set (ob_active orders)"
proof (induction ds arbitrary: cs)
  case (Cons d ds)
  obtain p ts where p: "map_of (rev (map (\<lambda>p. (po_order_id p, p)) (ob_active orders))) (po_order_id d) = Some p"
    and ts: "mapr (cancellation_of orders) ds = Inr ts" "cs = (p, d) # ts"
    using Cons.prems by (auto simp: bindr_Inr cancellation_of_Inr)
  have "po_order_id p = po_order_id d" "p \<in> set (ob_active orders)" using map_of_SomeD [OF p] by auto
  then show ?case using Cons.IH [OF ts(1)] ts(2) by simp
qed simp

lemma reconciled_parts:
  assumes "reconciled_target ex new b orders target start bars identity tif expiry holds = Inr (b1, res, cs)"
    and ok: "book_ok orders" and shape: "book_shape b"
  shows "b1 = b \<and> map (\<lambda>t. po_order_id (fst t)) cs = map po_order_id (rr_cancelled res) \<and>
    book_ok (rr_order_book res) \<and> mset (book_ids (rr_order_book res)) = mset (book_ids orders) \<and>
    (\<exists>inputs. reconcile_target (ex_nsum ex) new b orders inputs = Inr res \<and> ri_submit_index inputs = start)"
proof -
  obtain held inputs where q: "quantity_values b = Inr (held, b1)"
    and i: "target_inputs ex b1 held target start identity tif expiry holds = Inr inputs"
    and r: "reconcile_target (ex_nsum ex) new b1 orders inputs = Inr res"
    and c: "mapr (cancellation_of orders) (rr_cancelled res) = Inr cs"
    using assms(1) unfolding reconciled_target_def bindr_Inr split_paired_Ex prod.case by blast
  have b1: "b1 = b" using q quantity_values_shape [OF shape] by simp
  obtain desired plans where plans:
    "mapr (symbol_plan b inputs (reference_over_cap (ex_nsum ex) b inputs) desired orders) [0 ..< length (ri_weights inputs)] = Inr plans"
    and res: "res = planned_result new orders desired plans"
    by (rule reconcile_plans [OF ok shape r [unfolded b1]])
  have srt: "sorted_wrt (<) [0 ..< length (ri_weights inputs)]" by simp
  have "ri_submit_index inputs = start" using i by (auto simp: target_inputs_def Let_def bindr_Inr)
  then show ?thesis using planned_book [OF ok plans srt] cancellation_ids [OF c] r
    by (auto simp: b1 res planned_result_def)
qed

end
