(* ===== verification/TargetExample.thy ===== *)
theory TargetExample
  imports EngineFailure TargetOutcome
begin

text \<open>
  The result of the example execution, and the same execution started from a target: the full
  equity in the one symbol of the market.
\<close>

section \<open>The result\<close>

lemma ex_executed: "\<exists>s. execute_stateful_orders ex_executor 0 0 ex_cash ex_no_orders [ex_buy_intent] 0 1 [] = Inr s \<and>
    map oe_event_type (sr_order_events s) = [''submitted'', ''eligible'', ''filled''] \<and> sr_order_book s = ex_done"
proof -
  obtain r ev where r: "run_stateful ex_executor 0 0 ex_cash ex_no_orders [ex_buy_intent] 0 1 [] = Inr (1, r)"
    "rt_events r = ex_logged @ [ex_eligible_event, ex_filled_event]" "rt_orders r = ex_done"
    and eq: "r = (ex_filled_run (ex_logged @ [ex_eligible_event]))\<lparr>rt_capacities := [ev], rt_book := ex_end\<rparr>"
    using ex_ran by blast
  have v: "portfolio_value ex_sum ex_end = F 1000" by (simp add: account_eval ex_books ex_sum_def f64_eval)
  have f: "rt_book r = ex_end" "rt_starting_value r = F 1000" "rt_cost r = F 0" "rt_funding r = F 0" "rt_borrow r = F 0"
    "rt_dividend r = F 0" "rt_interest r = F 0" "rt_requested r = F 1000" "rt_filled r = F 1000" "rt_filled_reference r = F 1000"
    by (simp_all add: eq ex_filled_run_def) (simp_all add: ex_run_def)
  have "\<exists>g. interval_returns ex_executor r = Inr g"
    by (simp add: interval_returns_def f v py_div_def f64_eval Let_def)
  moreover have "fmax (F 1000) tolerance = F 1000" by (simp add: fmax_def tolerance_eq flt_def)
  ultimately obtain s where s: "result_payload ex_executor 0 1 r = Inr s"
    by (auto simp: result_payload_def f py_div_def f64_eval Let_def)
  then show ?thesis using result_fields [OF s] r ex_run_types by (auto simp: execute_stateful_orders_def)
qed

section \<open>The target\<close>

definition ex_inputs_of_target :: reconciliation_inputs where
  "ex_inputs_of_target = \<lparr>ri_dataset_id = ''dataset'', ri_target_identity = ''target'', ri_digest = ex_policy_sha,
     ri_weights = [F 1], ri_reference_prices = [F 100], ri_decision_equity = F 1000, ri_submit_index = 0,
     ri_latency_bars = 1, ri_order_type = MARKET, ri_time_in_force = GTC, ri_expiry_index = None,
     ri_offset_rate = F 0, ri_tick_sizes = Some [F 0], ri_maximum_gross = F 2, ri_reduce_only_symbols = None,
     ri_hold_symbols = [], ri_valuation_prices = Some [F 100]\<rparr>"

lemma ex_target_inputs: "target_inputs ex_executor ex_cash [0] [F 1] 0 ''target'' GTC None [] = Inr ex_inputs_of_target"
proof -
  have t: "order_type_of ''market'' = Inr MARKET" by code_simp
  have r: "effective_rules ex_executor 0 = Inr ([F 0], [F 1], [F 0])"
    by (simp add: effective_rules_def n_bars_def ex_market_data_def ex_cost_config_def vec_at_def base_rule_def np_maximum_def f64_eval)
  have m: "fmax (F 1000) tolerance = F 1000" by (simp add: fmax_def tolerance_eq flt_def)
  show ?thesis
    by (simp add: target_inputs_def r ex_policy ex_value m vec_at_def Let_def)
      (simp add: ex_market_data_def ex_cost_config_def t ex_inputs_of_target_def reduce_only_symbols_def)
qed

lemma ex_target_reconciled: "reconcile_target ex_sum 0 ex_cash ex_no_orders ex_inputs_of_target =
    Inr (planned_result 0 ex_no_orders [F 10] [([], Some ex_buy_intent)])"
proof -
  note eval = ex_inputs_of_target_def ri_eligible_index_def ri_sizing_prices_def ri_ticks_def
  have c: "scalar_checks ex_inputs_of_target = Inr ()" "vector_checks ex_sum ex_cash ex_inputs_of_target = Inr ()"
    "length (ri_weights ex_inputs_of_target) = 1" "desired_quantity ex_cash ex_inputs_of_target 0 = Inr (F 10)"
    using ex_policy by (simp_all add: scalar_checks_def vector_checks_def desired_quantity_def target_quantity_from_weight_def
      bad_symbols_def validate_reconciliation_digest_def require_sha256_def rewrap_def eval account_eval ex_books ex_sum_def f64_eval)
  have x: "exact_values ex_cash = [0]" by code_simp
  have t: "symbol_target ex_cash ex_inputs_of_target over [F 10] 0 = Inr (False, F 10)" for over
    by (simp add: symbol_target_def is_reduce_only_def x eval) (simp add: ex_books f64_eval)
  have k: "keeps_orders ex_inputs_of_target False (F 10) [] 0 = False"
    by (simp add: keeps_orders_def py_sum_def isclose_abs_def eval f64_eval)
  have a: "active_for_symbol 0 ex_no_orders = []" by (simp add: active_for_symbol_def ex_no_orders_def)
  have i: "intent_of ex_inputs_of_target 0 (F 10) None None None False = ex_buy_raw"
    by (simp add: intent_of_def eval ex_buy_raw_def ex_raw_def)
  have d: "fle (F 10) tolerance = False" by (simp add: f64_eval)
  have p: "planned_intent ex_inputs_of_target 0 (F 10) False [] = Inr (Some ex_buy_intent)"
    by (simp add: planned_intent_def d type_prices_def eval(1) [THEN arg_cong, of ri_order_type] i ex_buy_create)
  have s: "symbol_plan ex_cash ex_inputs_of_target over [F 10] ex_no_orders 0 = Inr ([], Some ex_buy_intent)" for over
    by (simp add: symbol_plan_def t a k superseded_orders_def p)
  show ?thesis unfolding reconcile_planned [OF ex_no_orders_ok] planned_reconciliation_def
    by (simp add: c ex_values2 s)
qed

definition ex_target_result :: reconciliation_result where
  "ex_target_result = planned_result 0 ex_no_orders [F 10] [([], Some ex_buy_intent)]"

lemma ex_target_result_simps [simp]: "rr_cancelled ex_target_result = []" "rr_new_intents ex_target_result = [ex_buy_intent]"
    "rr_order_book ex_target_result = ex_no_orders"
  by (simp_all add: ex_target_result_def planned_result_def map_filter_simps retire_none)

lemma ex_target_plan: "reconciled_target ex_executor 0 ex_cash ex_no_orders [F 1] 0 1 ''target'' GTC None [] =
    Inr (ex_cash, ex_target_result, [])"
proof -
  have c: "target_checks ex_executor ex_cash 0 1 ''target'' = Inr ()"
    by (simp add: target_checks_def ex_value checks.simps n_bars_def book_weights_def not_positive_def Let_def)
      (simp add: ex_market_data_def ex_books position_values_def vmul_def f64_eval)
  have m: "check_marks ex_executor 0 [F 1] [0] = Inr ()"
    by (simp add: check_marks_def decision_symbols_def require_available_marks_def late_symbols_def cell_def vec_at_def n_bars_def
      ex_market_data_def Let_def)
  show ?thesis
    by (simp add: reconciled_target_def c ex_values2 m ex_target_inputs ex_target_reconciled ex_target_result_def [symmetric])
qed

lemma ex_cash_reachable: "account_reachable ex_sum ex_dot ex_cash"
proof (rule account_reachable.opened)
  show "account_post_init ex_sum (Some [F 1]) None ex_cash = Inr ex_cash"
    by (simp add: account_post_init_def account_eval ex_books ex_sum_def ex_slack2 ex_strings2 f64_eval)
qed code_simp

end
