(* ===== verification/PaperExample.thy ===== *)
theory PaperExample
  imports PaperFacts DepthExample TargetExample
begin

text \<open>
  A paper account of 800 that decides on a hedge of one unit per symbol, is paid nothing by the funding that
  settles before it holds anything, and finds the venue refusing its orders at the execution.
\<close>

section \<open>Evidence\<close>

definition ex_paper_settings :: paper_settings where
  "ex_paper_settings = \<lparr>st_start_at = 0, st_close_at = 86400000000, st_initial_capital = F 800, st_maximum_gap = F 180,
     st_spot_fee = F 0, st_perpetual_fee = F 0, st_adverse = F 0, st_fraction = F 1\<rparr>"

definition ex_funding_row :: funding_row where
  "ex_funding_row = \<lparr>fw_time = 30000, fw_rate = 1/1000, fw_mark = 100\<rparr>"

definition ex_market_row :: market_row where
  "ex_market_row = \<lparr>mw_spot_bids = [(F 99, F 5)], mw_spot_asks = [(F 101, F 5)], mw_perpetual_bids = [(F 99, F 5)],
     mw_perpetual_asks = [(F 101, F 5)], mw_mark_price = F 100, mw_next_funding = 90000, mw_settled = [ex_funding_row]\<rparr>"

definition ex_snapshot :: "int \<Rightarrow> market_snapshot" where
  "ex_snapshot t = \<lparr>sp_started_at = t, sp_market = (\<lambda>_. Some ex_market_row), sp_responses =
     [(''BTCUSDT_spot_depth'', t), (''BTCUSDT_perp_depth'', t), (''ETHUSDT_spot_depth'', t), (''ETHUSDT_perp_depth'', t)]\<rparr>"

text \<open>A thousandth of a unit per lot, and at least two units per order.\<close>

definition ex_lot_rules :: depth_order_rules where
  "ex_lot_rules = \<lparr>dr_lot_size = rnd (1/1000), dr_minimum_quantity = F 2, dr_maximum_quantity = F 100, dr_minimum_notional = F 10,
     dr_maximum_notional = None\<rparr>"

definition ex_venue_rules :: venue_rules where
  "ex_venue_rules = (\<lambda>_. Some ex_lot_rules)"

section \<open>Accounts\<close>

definition ex_flat_book :: "f64 \<Rightarrow> book" where
  "ex_flat_book mark = \<lparr>bs_quantities = [F 0, F 0, F 0, F 0], bs_cash = F 800, bs_marks = [mark, mark, mark, mark], bs_peak = F 800,
     bs_multipliers = [F 1, F 1, F 1, F 1], bs_max_drawdown = F 0, bs_turnover = F 0, bs_total_cost = F 0, bs_funding_pnl = F 0,
     bs_fill_count = 0, bs_rebalances = 0, bs_returns = [], bs_borrow_cost = F 0, bs_margin_used = F 0,
     bs_maintenance_margin = F 0, bs_maintenance_requirement = F 0, bs_margin_deficit = F 0,
     bs_insolvent = False, bs_termination = None, bs_exact = [''0'', ''0'', ''0'', ''0'']\<rparr>"

definition ex_fresh_account :: paper_account where
  "ex_fresh_account = \<lparr>ac_settings = ex_paper_settings, ac_book = ex_flat_book (F 1), ac_bot = carry_bot_init default_carry_config,
     ac_last_at = 0, ac_observed_at = None, ac_pending = None, ac_failures = [], ac_settlements = Map.empty, ac_expected = [],
     ac_holdings = [], ac_observations = 0, ac_watermark = None\<rparr>"

lemma ex_slack800: "flt (fadd (F 800) (fmax (fmax tolerance (fmul (F 800) tolerance)) (fmul (F 800) tolerance))) (F 800) = False"
proof -
  have "nonneg (fmul (F 800) tolerance)" using tolerance_pos by (intro nonneg_fmul) simp_all
  then show ?thesis by (intro plus_slack) (simp_all add: f64_eval nonneg_fmax)
qed

lemma ex_zero_string: "fraction_str 0 = ''0''"
  by code_simp

lemma ex_paper_opened: "paper_account_init ex_sum ex_paper_settings = Inr ex_fresh_account"
proof -
  have "book_zero ex_sum 4 (F 800) None None = Inr (ex_flat_book (F 1))"
    by (simp add: book_zero_def account_post_init_def account_eval ex_flat_book_def ex_sum_def ex_slack800 ex_zero_string f64_eval numeral_eq_Suc)
  then show ?thesis by (simp add: paper_account_init_def default_config_ok ex_fresh_account_def ex_paper_settings_def)
qed

section \<open>Observations\<close>

definition ex_paid :: "nat \<Rightarrow> funding_payment" where
  "ex_paid pair = \<lparr>fp_pair = pair, fp_at = 30000000, fp_known_at = 60000000, fp_quantity = 0, fp_rate = 1/1000, fp_mark = 100,
     fp_amount = F 0\<rparr>"

definition ex_settled :: "nat \<times> int \<rightharpoonup> rat \<times> rat" where
  "ex_settled = [(0, 30000) \<mapsto> (1/1000, 100), (1, 30000) \<mapsto> (1/1000, 100)]"

text \<open>The account after an observation at minute one and, once more, a second later.\<close>

definition ex_seen_account :: "int \<Rightarrow> int \<Rightarrow> pending_decision option \<Rightarrow> carry_bot \<Rightarrow> paper_account" where
  "ex_seen_account t n pending cb = \<lparr>ac_settings = ex_paper_settings, ac_book = ex_flat_book (F 100), ac_bot = cb,
     ac_last_at = t, ac_observed_at = Some t, ac_pending = pending, ac_failures = [], ac_settlements = ex_settled,
     ac_expected = [(0, 90000), (1, 90000)], ac_holdings = [], ac_observations = n, ac_watermark = None\<rparr>"

lemma ex_flat_exact: "exact_values (ex_flat_book m) = [0, 0, 0, 0]"
  by (simp add: exact_values_def ex_flat_book_def exact_value_str [of 0, unfolded ex_zero_string])

lemma ex_flat_worth: "portfolio_value ex_sum (ex_flat_book (F 100)) = F 800" "portfolio_value ex_sum (ex_flat_book (F 1)) = F 800"
  by (simp_all add: account_eval ex_flat_book_def ex_sum_def f64_eval)

lemma ex_revalued: "revalue ex_sum [F 100, F 100, F 100, F 100] (ex_flat_book m) = Inr (ex_flat_book (F 100))"
  by (simp add: revalue_def book_marks_def account_eval ex_flat_book_def ex_sum_def f64_eval)

lemma ex_flat_drawdown: "update_drawdown ex_sum False (ex_flat_book (F 100)) = ex_flat_book (F 100)"
proof -
  have "fmax (F 800) min_equity = F 800" by (rule fmax_min_equity) simp_all
  then show ?thesis
    by (simp add: update_drawdown_def account_eval ex_flat_book_def ex_sum_def f64_eval)
qed

lemma ex_tenth: "fle (rnd (1/10)) (F 0) = False"
  by code_simp

lemma ex_no_risk:
  assumes "ac_book a = ex_flat_book (F 100)" and "cb_config (ac_bot a) = default_carry_config"
  shows "paper_risk ex_sum ex_dot a = a"
  using assms by (simp add: paper_risk_def fail_when_def futures_collateral_def ex_flat_worth account_eval
    ex_flat_book_def ex_sum_def ex_dot_def default_carry_config_def ex_tenth f64_eval)

lemma ex_snapshot_marks: "snapshot_marks (ex_snapshot t) = Inr [F 100, F 100, F 100, F 100]"
  by (simp add: snapshot_marks_def market_of_def lookup_key_def best_price_def ex_snapshot_def ex_market_row_def paper_symbols_def
    f64_eval)

lemma ex_fsum_zeros: "fsum [F 0, F 0] = Inr (F 0)"
  by code_simp

lemma ex_minute: "milliseconds_of 60000000 = Inr 60000" "milliseconds_of 61000000 = Inr 61000"
  "seconds_between 60000000 30000000 = F 30" "seconds_between 60000000 0 = F 60" "seconds_between 61000000 60000000 = F 1"
  by (simp_all add: milliseconds_of_def seconds_between_def to_integer_def truncated_def f64_eval)

lemma ex_paid_fields: "fp_pair (ex_paid k) = k" "fp_at (ex_paid k) = 30000000" "fp_amount (ex_paid k) = F 0"
  by (simp_all add: ex_paid_def)

lemma ex_nothing_paid:
  assumes "ac_book a = ex_flat_book (F 100)" and "cb_config (ac_bot a) = default_carry_config"
  shows "pay_group ex_sum ex_dot a [ex_paid 0, ex_paid (Suc 0)] = Inr a" "raise_watermark [ex_paid 0, ex_paid (Suc 0)] a = a"
proof -
  have "a\<lparr>ac_book := ex_flat_book (F 100)\<rparr> = a" using assms(1) by (cases a) simp
  then have "paper_risk ex_sum ex_dot (a\<lparr>ac_book := ex_flat_book (F 100)\<rparr>) = a" by (simp only: ex_no_risk [OF assms])
  then show "pay_group ex_sum ex_dot a [ex_paid 0, ex_paid (Suc 0)] = Inr a" "raise_watermark [ex_paid 0, ex_paid (Suc 0)] a = a"
    using assms(1) by (simp_all add: pay_group_def raise_watermark_def ex_paid_fields ex_fsum_zeros fzero_def)
qed

lemma ex_first_funding:
  assumes "cb_config cb = default_carry_config"
  shows "paper_funding ex_sum ex_dot (ex_snapshot t) 60000000 \<lparr>ac_settings = ex_paper_settings, ac_book = ex_flat_book (F 100),
      ac_bot = cb, ac_last_at = 0, ac_observed_at = None, ac_pending = None, ac_failures = [], ac_settlements = Map.empty,
      ac_expected = [], ac_holdings = [], ac_observations = 0, ac_watermark = None\<rparr> =
    Inr ([ex_paid 0, ex_paid 1], \<lparr>ac_settings = ex_paper_settings, ac_book = ex_flat_book (F 100),
      ac_bot = cb, ac_last_at = 0, ac_observed_at = None, ac_pending = None, ac_failures = [], ac_settlements = ex_settled,
      ac_expected = [(0, 90000), (1, 90000)], ac_holdings = [], ac_observations = 0, ac_watermark = None\<rparr>)"
proof -
  have m: "market_of (ex_snapshot t) 0 = Inr ex_market_row" "market_of (ex_snapshot t) (Suc 0) = Inr ex_market_row"
    by (simp_all add: market_of_def lookup_key_def ex_snapshot_def)
  have z: "float_of_fraction 0 = Inr (F 0)" by (simp add: float_of_fraction_def)
  have g: "same_time_groups [ex_paid 0, ex_paid (Suc 0)] = [[ex_paid 0, ex_paid (Suc 0)]]"
    by (simp add: ex_paid_def)
  have l: "[0 ..< length paper_symbols] = [0, 1]" by (simp add: paper_symbols_def)
  show ?thesis
    using assms
    by (simp add: paper_funding_def l settle_market_def m ex_market_row_def settle_rows_def settle_funding_def ex_funding_row_def
      held_before_def z fail_when_def ex_paper_settings_def ex_minute announce_funding_def note_missing_def sorted_keys_def
      ex_paid_def [symmetric] ex_paid_fields ex_nothing_paid ex_settled_def Let_def f64_eval)
qed

lemma ex_first_seen: "paper_observe ex_sum ex_dot (ex_snapshot 1) 60000000 ex_fresh_account =
    Inr ([ex_paid 0, ex_paid 1], ex_seen_account 60000000 1 None (carry_bot_init default_carry_config))"
proof -
  have cb: "cb_config (carry_bot_init default_carry_config) = default_carry_config" by (simp add: carry_bot_init_def)
  have n: "ex_fresh_account\<lparr>ac_book := ex_flat_book (F 100)\<rparr> = \<lparr>ac_settings = ex_paper_settings, ac_book = ex_flat_book (F 100),
      ac_bot = carry_bot_init default_carry_config, ac_last_at = 0, ac_observed_at = None, ac_pending = None, ac_failures = [],
      ac_settlements = Map.empty, ac_expected = [], ac_holdings = [], ac_observations = 0, ac_watermark = None\<rparr>"
    by (simp add: ex_fresh_account_def)
  have f: "ac_last_at ex_fresh_account = 0" "ac_book ex_fresh_account = ex_flat_book (F 1)" "ac_settings ex_fresh_account = ex_paper_settings"
    by (simp_all add: ex_fresh_account_def)
  show ?thesis
    by (simp add: paper_observe_def paper_clock_def checks.simps f ex_minute fail_when_def ex_paper_settings_def [THEN arg_cong, of st_maximum_gap]
      ex_paper_settings_def [THEN arg_cong, of st_close_at] ex_snapshot_marks ex_revalued ex_flat_drawdown n ex_no_risk cb
      ex_first_funding ex_seen_account_def ex_snapshot_def [THEN arg_cong, of sp_started_at] Let_def f64_eval)
qed

section \<open>A decision\<close>

lemma ex_thousandth: "exact_quantity (rnd (1/1000)) = Inr (1/1000)"
  by code_simp

lemma ex_half_budget: "fmul (F 800) (F (1/2)) = F 400"
  by code_simp

lemma ex_nano: "flt (F 0) (fneg nano) = False" "flt nano (F 0) = False"
  by code_simp+

definition ex_hedge :: "f64 list" where
  "ex_hedge = [F 1, F (-1), F 1, F (-1)]"

definition ex_hedging_bot :: carry_bot where
  "ex_hedging_bot = \<lparr>cb_config = default_carry_config, cb_stop_reason = None, cb_month = Some (1970, 1), cb_target = Some ex_hedge\<rparr>"

lemma ex_hedge_decided: "carry_decide 60000000 [F 100, F 100, F 100, F 100] [F 0, F 0, F 0, F 0] (F 800) (F 0)
    (carry_bot_init default_carry_config) = Inr (ex_hedge, ex_hedging_bot)"
proof -
  have m: "year_month 60000000 = (1970, 1)" by code_simp
  have q: "project_quantity 1 = Inr (F 1)" by (simp add: project_quantity_def float_of_fraction_def project_loop_stop f64_eval)
  have d: "isfinite (rnd (1/1000))" "dec_of_float (rnd (1/1000)) = 1/1000"
    using ex_thousandth by (simp_all add: exact_quantity_def split: if_splits)
  have u: "quantize_quantity (F 1) (rnd (1/1000)) = Inr (F 1, Some 1000)"
    by (simp add: quantize_quantity_def d exact_quantity_def q f64_eval)
  have w: "watch_positions [F 0, F 0, F 0, F 0] (F 0) (carry_bot_init default_carry_config) = carry_bot_init default_carry_config"
    by (simp add: watch_positions_def ex_nano carry_bot_init_def default_carry_config_def ex_tenth f64_eval)
  let ?c = "carry_bot_init default_carry_config"
  have i: "cb_config ?c = default_carry_config" "cb_stop_reason ?c = None" "cb_month ?c = None" "cb_target ?c = None"
    by (simp_all add: carry_bot_init_def)
  have n: "carry_units default_carry_config [F 100, F 100, F 100, F 100] (F 800) = Inr [F 1, F 1]"
    by (simp add: carry_units_def default_carry_config_def np_maximum_def ex_half_budget u f64_eval)
  have o: "carry_observation_ok ?c [F 100, F 100, F 100, F 100] [F 0, F 0, F 0, F 0] (F 800) (F 0)"
    by (simp add: carry_observation_ok_def i all_finite_def not_positive_def f64_eval)
  have e: "?c\<lparr>cb_target := Some ex_hedge, cb_month := Some (1970, 1)\<rparr> = ex_hedging_bot"
    by (simp add: carry_bot_init_def ex_hedging_bot_def)
  show ?thesis
    by (simp add: carry_decide_def o w m i n e ex_hedge_def [symmetric] Let_def)
qed

definition ex_hedge_orders :: "paper_order list" where
  "ex_hedge_orders = [\<lparr>pw_symbol = 0, pw_lots = 1000\<rparr>, \<lparr>pw_symbol = 1, pw_lots = -1000\<rparr>,
     \<lparr>pw_symbol = 2, pw_lots = 1000\<rparr>, \<lparr>pw_symbol = 3, pw_lots = -1000\<rparr>]"

definition ex_hedge_pending :: pending_decision where
  "ex_hedge_pending = \<lparr>pd_at = 60000000, pd_orders = ex_hedge_orders, pd_rules = ''rules''\<rparr>"

definition ex_decided_account :: paper_account where
  "ex_decided_account = ex_seen_account 60000000 1 (Some ex_hedge_pending) ex_hedging_bot"

lemma ex_paper_reachable: "account_reachable ex_sum ex_dot (ex_flat_book (F 1))" "account_reachable ex_sum ex_dot (ex_flat_book (F 100))"
proof -
  show r: "account_reachable ex_sum ex_dot (ex_flat_book (F 1))"
    using paper_account_init_facts [OF ex_paper_opened, of ex_dot] by (simp add: ex_fresh_account_def)
  show "account_reachable ex_sum ex_dot (ex_flat_book (F 100))"
    by (rule account_reachable.step [OF r account_step.revalue [OF ex_revalued]])
qed

lemma ex_flat_values: "quantity_values (ex_flat_book (F 100)) = Inr ([0, 0, 0, 0], ex_flat_book (F 100))"
  using quantity_values_shape [OF reachable_shape [OF ex_paper_reachable(2)]] by (simp add: ex_flat_exact)

lemma ex_venue_rule: "rule_of ex_venue_rules i = Inr ex_lot_rules" "dr_lot_size ex_lot_rules = rnd (1/1000)"
  by (simp_all add: rule_of_def lookup_key_def ex_venue_rules_def ex_lot_rules_def)

lemma ex_whole: "whole 1" "whole 1000" "whole (- 1000)"
proof -
  have w: "whole (of_int n)" for n by (simp add: whole_def)
  show "whole 1" "whole 1000" "whole (- 1000)" using w [of 1] w [of 1000] w [of "- 1000"] by simp_all
qed

lemma ex_ordered: "mapr (order_lots ex_venue_rules default_carry_config ex_hedge) (enumerate 0 [0, 0, 0, 0]) =
    Inr (map Some ex_hedge_orders)"
proof -
  have x: "exact_quantity (F 1) = Inr 1" "exact_quantity (F (-1)) = Inr (-1)" by (simp_all add: exact_quantity_def f64_eval)
  have c: "cy_common_lot default_carry_config = rnd (1/1000)" by (simp add: default_carry_config_def)
  show ?thesis
    by (simp add: order_lots_def ex_venue_rule c ex_thousandth ex_whole checks.simps vec_at_def ex_hedge_def x ex_hedge_orders_def Let_def)
qed

lemma ex_paper_decided: "paper_decide ex_sum ex_dot (ex_snapshot 1) ex_venue_rules ''rules'' 60000000 ex_fresh_account =
    Inr (\<lparr>pr_orders = ex_hedge_orders, pr_funding = [ex_paid 0, ex_paid 1], pr_fills = [], pr_cancelled = False\<rparr>, ex_decided_account)"
proof -
  let ?a = "ex_seen_account 60000000 1 None (carry_bot_init default_carry_config)"
  have p: "ac_pending ex_fresh_account = None" by (simp add: ex_fresh_account_def)
  have b: "bs_insolvent (ex_flat_book m) = False" "bs_marks (ex_flat_book (F 100)) = [F 100, F 100, F 100, F 100]"
    "bs_quantities (ex_flat_book m) = [F 0, F 0, F 0, F 0]" "bs_max_drawdown (ex_flat_book m) = F 0" for m
    by (simp_all add: ex_flat_book_def)
  have t: "decision_target ex_sum 60000000 ?a = Inr (ex_hedge, ex_seen_account 60000000 1 None ex_hedging_bot)"
    by (simp add: decision_target_def ex_seen_account_def b ex_flat_worth ex_hedge_decided)
  have f: "List.map_filter (\<lambda>x. x) (map Some ex_hedge_orders) = ex_hedge_orders" "ex_hedge_orders \<noteq> []"
    by (simp_all add: ex_hedge_orders_def List.map_filter_simps)
  have s: "ac_book (ex_seen_account t n q cb) = ex_flat_book (F 100)" "ac_bot (ex_seen_account t n q cb) = cb"
    "ex_seen_account 60000000 (Suc 0) None ex_hedging_bot\<lparr>ac_book := ex_flat_book (F 100), ac_pending := Some ex_hedge_pending\<rparr> = ex_decided_account" for t n q cb
    by (simp_all add: ex_seen_account_def ex_decided_account_def)
  have g: "cb_config ex_hedging_bot = default_carry_config" by (simp add: ex_hedging_bot_def)
  show ?thesis
    using ex_first_seen t f s(3)
    by (simp add: paper_decide_def checks.simps p s(1,2) g ex_flat_values ex_ordered [simplified] b ex_hedge_pending_def Let_def)
qed

section \<open>An execution\<close>

lemma ex_second_seen: "paper_observe ex_sum ex_dot (ex_snapshot 60500000) 61000000 ex_decided_account =
    Inr ([], ex_seen_account 61000000 2 (Some ex_hedge_pending) ex_hedging_bot)"
proof -
  have cb: "cb_config ex_hedging_bot = default_carry_config" by (simp add: ex_hedging_bot_def)
  have m: "market_of (ex_snapshot t) 0 = Inr ex_market_row" "market_of (ex_snapshot t) (Suc 0) = Inr ex_market_row" for t
    by (simp_all add: market_of_def lookup_key_def ex_snapshot_def)
  have l: "[0 ..< length paper_symbols] = [0, 1]" by (simp add: paper_symbols_def)
  have n: "ex_decided_account\<lparr>ac_book := ex_flat_book (F 100)\<rparr> = ex_decided_account"
    by (simp add: ex_decided_account_def ex_seen_account_def)
  have st: "ex_settled (0, 30000) = Some (1/1000, 100)" "ex_settled (Suc 0, 30000) = Some (1/1000, 100)" by (simp_all add: ex_settled_def)
  have f: "paper_funding ex_sum ex_dot (ex_snapshot 60500000) 61000000 ex_decided_account = Inr ([], ex_decided_account)"
    by (simp add: paper_funding_def l settle_market_def m ex_market_row_def settle_rows_def settle_funding_def ex_funding_row_def
      fail_when_def ex_minute announce_funding_def note_missing_def sorted_keys_def st ex_decided_account_def ex_seen_account_def
      raise_watermark_def ex_paper_settings_def Let_def f64_eval)
  have a: "ac_last_at ex_decided_account = 60000000" "ac_book ex_decided_account = ex_flat_book (F 100)"
    "ac_settings ex_decided_account = ex_paper_settings" "ac_bot ex_decided_account = ex_hedging_bot"
    by (simp_all add: ex_decided_account_def ex_seen_account_def)
  have r: "paper_risk ex_sum ex_dot ex_decided_account = ex_decided_account" by (rule ex_no_risk) (simp_all add: a cb)
  show ?thesis
    by (simp add: paper_observe_def paper_clock_def checks.simps a ex_minute fail_when_def ex_paper_settings_def [THEN arg_cong, of st_maximum_gap]
      ex_paper_settings_def [THEN arg_cong, of st_close_at] ex_snapshot_marks ex_revalued ex_flat_drawdown n r f
      ex_snapshot_def [THEN arg_cong, of sp_started_at] Let_def f64_eval)
     (simp add: ex_decided_account_def ex_seen_account_def)
qed

definition ex_refused :: "paper_order \<Rightarrow> depth_fill" where
  "ex_refused w = \<lparr>df_filled_lots = 0, df_unfilled_lots = pw_lots w, df_price = None, df_fee = F 0, df_reason = Some ''quantity_below_minimum''\<rparr>"

definition ex_venue_request :: "paper_order \<Rightarrow> depth_request" where
  "ex_venue_request w = \<lparr>dq_symbol = int (pw_symbol w), dq_lots = pw_lots w, dq_rules = ex_lot_rules, dq_bids = [(F 99, F 5)],
     dq_asks = [(F 101, F 5)], dq_decision_at = Some 60000000, dq_quote_at = Some 60500000, dq_execution_at = Some 61000000,
     dq_fee_bps = F 0, dq_adverse_bps = F 0, dq_fraction = F 1\<rparr>"

lemma ex_lot_rules_ok: "depth_rules_post_init ex_lot_rules = Inr ex_lot_rules"
proof -
  have "isfinite (rnd (1/1000))" "fle (rnd (1/1000)) (F 0) = False" by code_simp+
  then show ?thesis by (simp add: depth_rules_post_init_def ex_lot_rules_def not_finite_def checks.simps f64_eval)
qed

lemma ex_requested:
  assumes "w \<in> set ex_hedge_orders"
  shows "venue_request_of ex_paper_settings (ex_snapshot 60500000) ex_venue_rules 60000000 61000000 w = Inr (ex_venue_request w)"
  using assms by (auto simp: ex_hedge_orders_def venue_request_of_def market_of_def lookup_key_def ex_venue_rule ex_lot_rules_ok
    depth_label_def paper_symbols_def ex_snapshot_def ex_market_row_def ex_paper_settings_def ex_venue_request_def Let_def)

lemma ex_venue_refuses:
  assumes "w \<in> set ex_hedge_orders"
  shows "execute_depth_order ex_sum (ex_venue_request w) (ex_flat_book (F 100)) = Inr (ex_refused w, ex_flat_book (F 100))"
proof -
  have x: "exact_quantity (F 1) = Inr 1" "exact_quantity (F 2) = Inr 2" "exact_quantity (F 99) = Inr 99" "exact_quantity (F 101) = Inr 101"
    by (simp_all add: exact_quantity_def f64_eval)
  have z: "exact_quantity (F 0) = Inr 0" by (simp add: exact_quantity_def dec_mag_def)
  have c: "depth_checks (ex_flat_book (F 100)) (ex_venue_request w) = Inr ()"
    using assms by (auto simp: depth_checks_def depth_time_checks_def depth_number_checks_def validate_depth_def validate_side_def
      require_aware_datetime_def not_finite_def ex_venue_request_def ex_flat_book_def ex_hedge_orders_def checks.simps f64_eval)
  have lots: "\<bar>rat_of_int (pw_lots w)\<bar> = 1000" "nat (dq_symbol (ex_venue_request w)) < 4"
    using assms by (auto simp: ex_hedge_orders_def ex_venue_request_def)
  then have m: "bs_multipliers (ex_flat_book (F 100)) ! nat (dq_symbol (ex_venue_request w)) = F 1"
    by (auto simp: ex_flat_book_def nth_Cons split: nat.splits)
  have r: "depth_refusal ex_lot_rules 1 n = Inr (Some ''quantity_below_minimum'')" for n
    by (simp add: depth_refusal_def ex_lot_rules_def x)
  have d: "adverse_factor (ex_venue_request w) = Inr 1"
    by (simp add: adverse_factor_def ex_venue_request_def z)
  have l: "\<exists>b. exact_quantity (fst (hd (depth_levels (ex_venue_request w)))) = Inr b"
    by (simp add: depth_levels_def ex_venue_request_def x)
  then show ?thesis
    by (auto simp: execute_depth_order_def c m x d lots ex_venue_rule ex_thousandth r ex_venue_request_def [THEN arg_cong, of dq_rules]
      rejected_depth_def ex_refused_def ex_venue_request_def [THEN arg_cong, of dq_lots] Let_def)
qed

definition ex_executed_fills :: "(paper_order \<times> depth_fill) list" where
  "ex_executed_fills = map (\<lambda>w. (w, ex_refused w)) ex_hedge_orders"

lemma ex_refused_fills:
  "set ws \<subseteq> set ex_hedge_orders \<Longrightarrow>
     fill_orders ex_sum ex_dot (ex_snapshot 60500000) ex_venue_rules 60000000 61000000 increasing ws
       (ex_seen_account 61000000 2 pending ex_hedging_bot) =
     Inr (map (\<lambda>w. (w, ex_refused w)) ws, ex_seen_account 61000000 2 pending ex_hedging_bot)"
proof (induction ws)
  case (Cons w ws)
  let ?a = "ex_seen_account 61000000 2 pending ex_hedging_bot"
  have a: "ac_settings ?a = ex_paper_settings" "ac_book ?a = ex_flat_book (F 100)" "?a\<lparr>ac_book := ex_flat_book (F 100)\<rparr> = ?a"
    "cb_stop_reason (ac_bot ?a) = None" "cb_config (ac_bot ?a) = default_carry_config"
    by (simp_all add: ex_seen_account_def ex_hedging_bot_def)
  have r: "paper_risk ex_sum ex_dot ?a = ?a" by (rule ex_no_risk) (simp_all add: a)
  have i: "bs_insolvent (ex_flat_book (F 100)) = False" by (simp add: ex_flat_book_def)
  have w: "w \<in> set ex_hedge_orders" "set ws \<subseteq> set ex_hedge_orders" using Cons.prems by auto
  show ?case
    by (simp add: a(1,2) ex_requested [OF w(1)] ex_venue_refuses [OF w(1)] a(3) r i a(4) Cons.IH [OF w(2)] Let_def)
qed simp

lemma ex_paper_executed: "\<exists>c. paper_execute ex_sum ex_dot (ex_snapshot 60500000) ex_venue_rules 61000000 ex_decided_account =
    Inr (\<lparr>pr_orders = [], pr_funding = [], pr_fills = ex_executed_fills, pr_cancelled = False\<rparr>, c)"
proof -
  let ?a = "ex_seen_account 61000000 2 (Some ex_hedge_pending) ex_hedging_bot"
  have p: "ac_pending ex_decided_account = Some ex_hedge_pending" "pd_at ex_hedge_pending = 60000000" "pd_orders ex_hedge_pending = ex_hedge_orders"
    by (simp_all add: ex_decided_account_def ex_seen_account_def ex_hedge_pending_def)
  have a: "ac_book ?a = ex_flat_book (F 100)" "?a\<lparr>ac_book := ex_flat_book (F 100)\<rparr> = ?a" "cb_stop_reason (ac_bot ?a) = None"
    by (simp_all add: ex_seen_account_def ex_hedging_bot_def)
  have b: "bs_insolvent (ex_flat_book (F 100)) = False" "bs_quantities (ex_flat_book (F 100)) = [F 0, F 0, F 0, F 0]"
    "bs_marks (ex_flat_book (F 100)) = [F 100, F 100, F 100, F 100]"
    by (simp_all add: ex_flat_book_def)
  have inc: "any_res (order_increases ex_venue_rules [0, 0, 0, 0]) ex_hedge_orders = Inr True"
    by (simp add: ex_hedge_orders_def order_increases_def vec_at_def ex_venue_rule ex_thousandth)
  have t: "int_times 1000 (rnd (1/1000)) = Inr (F 1)" "int_times (- 1000) (rnd (1/1000)) = Inr (F (-1))" by code_simp+
  have d: "desired_quantities ex_venue_rules ex_hedge_orders [F 0, F 0, F 0, F 0] = Inr [F 1, F (-1), F 1, F (-1)]"
    by (simp add: desired_quantities_def ex_hedge_orders_def ex_venue_rule t add_at_def f64_eval)
  have e: "ex_sum [F 100, F 100, F 100, F 100] = F 400" by (simp add: ex_sum_def f64_eval)
  have g: "guard_collateral ex_sum True [F 1, F (-1), F 1, F (-1)] ?a = ?a"
    by (simp add: guard_collateral_def fail_when_def a(1) ex_flat_worth b e vmul_def f64_eval)
  obtain c where c: "record_holdings 61000000 ?a = Inr c" using a(1) by (auto simp: record_holdings_def ex_flat_values)
  have o: "carry_out ex_sum ex_dot (ex_snapshot 60500000) ex_venue_rules 61000000 ex_hedge_pending [] True ?a =
      Inr (\<lparr>pr_orders = [], pr_funding = [], pr_fills = ex_executed_fills, pr_cancelled = False\<rparr>, c\<lparr>ac_pending := None\<rparr>)"
    using c ex_refused_fills [OF subset_refl, of True "Some ex_hedge_pending"]
    by (simp add: carry_out_def a b p ex_executed_fills_def)
  show ?thesis
    by (simp add: paper_execute_def p checks.simps ex_second_seen ex_flat_values a(1) inc b d a(2) g o)
qed

lemma ex_evidence: "evidence_ok ex_paper_settings (ex_snapshot t) ex_venue_rules"
  by (simp add: evidence_ok_def ex_paper_settings_def ex_snapshot_def ex_venue_rules_def ex_lot_rules_def ex_market_row_def
    levels_f64_def f64_eval)

text \<open>The runs of the examples.\<close>

lemma ex_decided_run: "paper_run ex_sum ex_dot ex_fresh_account [ex_paid 0, ex_paid 1] ex_decided_account"
  using paper_run.command [OF paper_run.start paper_command.decide [OF ex_paper_decided]] by simp

end
