(* ===== verification/Spec2Isabelle.thy ===== *)
theory Spec2Isabelle
  imports TradeExamples PaperExample
begin

text \<open>
  A verification library for the trading engine and the coordination tools of this repository.

  Parts of the program.  \<open>trade_rl/simulation\<close> turns target weights into orders, admits and fills
  them, and keeps an account.  \<open>targets/execution.py\<close> reads the account and asks
  \<open>orders/reconciliation.py\<close> to compare a target with it and with the order book
  (\<open>orders/model.py\<close>); the intents that result go to \<open>stateful/execution.py\<close>, which runs bar
  after bar: \<open>bar_lifecycle.py\<close> carries the account (\<open>accounting.py\<close>) over the gap, splits,
  delistings, funding and margin, \<open>order_transitions.py\<close> lets \<open>orders/admission.py\<close> accept or
  refuse the orders that are due, \<open>symbol_fills.py\<close> asks \<open>bar_path.py\<close> where inside the bar an
  order executes and \<open>liquidity.py\<close> how much of the bar's capacity it gets, and books the fills.
  The state of one call is \<open>runtime.py\<close>; the market data are read through \<open>data/market.py\<close>.
  Amounts are exact fractions (\<open>quantities.py\<close>) published as floats.
  Paper trading runs a carry strategy (\<open>strategies/carry.py\<close>) on the same account:
  \<open>evaluation/paper/account.py\<close> marks it to observed quotes, pays settled funding, decides and executes
  against recorded order books, which \<open>depth.py\<close> matches.
  \<open>tools/agent_repo/coordination\<close> lets several agents share one repository: task packets, conflicts
  of their resource keys, a dependency graph, a scheduler, leases with fenced branches, status records
  and a registry of enrolments.

  Theories.
  \<^item> \<open>Prelude\<close>: results (\<open>res\<close>, a sum of an exception and a value), checks, and loops over lists
    that may raise.  \<open>Float64\<close>: IEEE binary64 as rationals with explicit rounding, and the shortest
    decimal that prints a float.  \<open>Text\<close>, \<open>Sha256\<close>, \<open>Json\<close>, \<open>Validation\<close>, \<open>Vectors\<close>:
    the parts of Python's library and of \<open>trade_rl/artifacts\<close> and \<open>_validation.py\<close> the rest uses.
  \<^item> \<open>Quantities\<close> (\<open>simulation/quantities.py\<close>): exact quantities and their float projection.
  \<^item> \<open>OrderIntents\<close>, \<open>PendingOrders\<close>, \<open>OrderBooks\<close>, \<open>OrderEvents\<close>
    (\<open>orders/model.py\<close>): one record per class, one definition per constructor, transition and
    parser; \<open>order_step\<close> and \<open>book_step\<close> are the step relations of an order and of a book.
  \<^item> \<open>BarPath\<close> (\<open>bar_path.py\<close>), \<open>Admission\<close> (\<open>orders/admission.py\<close>), \<open>Accounting\<close>
    (\<open>accounting.py\<close>, with the step relation \<open>account_step\<close>), \<open>Reconciliation\<close>
    (\<open>orders/reconciliation.py\<close>, with the plan per symbol it refines).
  \<^item> \<open>Liquidity\<close> (\<open>liquidity.py\<close>), with \<open>FloatFacts\<close> for the float arithmetic it needs;
    \<open>CostModel\<close> (the cost configuration, order rules and their digest), \<open>Market\<close> (the accessors of
    the dataset and the methods of the executor of \<open>execution.py\<close>), \<open>FundingEvidence\<close>.
  \<^item> The engine, one theory per file of \<open>stateful\<close>: \<open>Runtime\<close>, \<open>BarLifecycle\<close>,
    \<open>OrderTransitions\<close>, \<open>SymbolFills\<close>, \<open>Engine\<close>; and \<open>TargetExecution\<close>
    (\<open>targets/execution.py\<close>).
  \<^item> What the engine guarantees: \<open>EngineTrace\<close> (events and orders: \<open>chained\<close>, \<open>replay\<close>),
    \<open>EngineRuns\<close> (\<open>engine_step\<close> and \<open>bar_runs\<close>, the elementary steps of a bar),
    \<open>EngineBars\<close>, \<open>EngineHistory\<close> and \<open>EngineOutcome\<close> (bars, whole executions and the end of
    an insolvent account), \<open>TargetOutcome\<close>.
  \<^item> \<open>Depth\<close> (\<open>depth.py\<close>, with \<open>draw\<close>, the exact walk over price levels it refines), \<open>Carry\<close>
    (\<open>strategies/carry.py\<close>), \<open>PaperAccount\<close> (\<open>evaluation/paper/account.py\<close>, one definition per
    command) and \<open>PaperFacts\<close> (\<open>paper_command\<close> and \<open>paper_run\<close>, the sessions of an account, and
    what every command keeps).
  \<^item> \<open>Tasks\<close>, \<open>Conflicts\<close>, \<open>Dependencies\<close>, \<open>Scheduler\<close>, \<open>TaskStates\<close>, \<open>Leases\<close>,
    \<open>StatusRecords\<close>, \<open>Enrollment\<close>, \<open>Registry\<close>, \<open>Dashboard\<close>, \<open>Serde\<close>: the modules
    \<open>model\<close>, \<open>conflicts\<close>, \<open>dependencies\<close>, \<open>scheduler\<close>, \<open>state\<close>, \<open>leases\<close>,
    \<open>github_state\<close>, \<open>enrollment\<close>, \<open>registry\<close>, \<open>dashboard\<close> and \<open>serde\<close> of
    \<open>coordination\<close>.
  \<^item> \<open>Examples\<close>, \<open>TradeExamples\<close>, \<open>EngineExample\<close> (a buy order that fills),
    \<open>EngineFailure\<close> (an account that fails), \<open>TargetExample\<close>, \<open>DepthExample\<close> and
    \<open>PaperExample\<close> (a session that pays funding, decides a hedge and executes it): the concrete inputs
    of the witnesses, with the runs evaluated.

  State and operations.  A frozen dataclass is a record and its \<open>__post_init__\<close> a function that
  returns the record or the exception; the mutable \<open>BookState\<close> is a record that its methods return
  updated; an exception is \<open>Inl\<close> with its class and message.  Messages that the source formats
  from values are kept where a caller could observe them.  The linked nodes of the order archive carry
  the identity the allocator gave them, since \<open>suffix_since\<close> compares nodes with \<open>is\<close>.

  What the lemmas show.  Float64: rounding is the identity on floats, monotone and close.  Quantities:
  a projection never exceeds the exact amount.  Orders: every reachable order satisfies its constructor,
  fills add up exactly, a book never loses an order, the shortcut that skips the archive when adding
  generated orders is sound.  Account: every reachable account is valid, fills, splits and settlements are
  exact.  Reconciliation: the loop over symbols refines a plan per symbol, orders are conserved, what is
  submitted passes the admission rules it shares.  Engine: its totals are the counts of its events, every
  fill is accounted for in one order, no order is lost or filled early, an execution stops in the bars
  asked for, and an insolvent account ends flat.  Paper trading: a depth fill takes the best
  division of its quantity over the levels, funding is paid once per symbol and time and for what was held
  then, a decision is a matched hedge or flat, an execution moves positions by its reported fills only, and
  a stop is permanent.  Coordination: conflicts are symmetric, the graph
  construction accepts exactly the acyclic graphs, ready packets neither conflict nor miss a startable
  packet, leases fence earlier holders, payloads round-trip.

  Parameters and bounds.  \<open>nsum\<close> and \<open>ndot\<close> stand for numpy's reductions (their order of
  summation is numpy's choice), \<open>ex_log1p\<close> for the C library's logarithm, the random draws of the
  slippage model for numpy's generator; nothing is assumed of them.  The theorems on depth fills and on
  executions ask that the prices and sizes of the evidence are binary64 values (\<open>depth_request_ok\<close>,
  \<open>evidence_ok\<close>), as the floats of the program are.
  No definition uses fuel: every loop is a recursion that terminates.  Tick-grid results assume quotes of
  at most \<open>2 ^ 49\<close> ticks, beyond which consecutive ticks are no longer told apart by the projection
  tolerance.

  Not modelled.  The size-bounded caches of \<open>quantities.py\<close> (pure memoisation); the calendar bound of
  \<open>datetime\<close>; characters beyond code point 255; the comment markup of \<open>github_state.py\<close>; the
  JSON text parser of \<open>registry.py\<close>; \<open>freeze_json_value\<close>; the construction and the identity of
  a \<open>MarketDataset\<close>; the compatibility wrapper \<open>execute_interval\<close> around the engine; execution
  diagnostics, objectives and risk projections (numpy vectors in and out); the journal and the engine of paper
  trading around its account (files, network captures, processes); the other evaluation studies and
  strategies, data and integrations are numpy, torch, database, file and network code whose results come
  from those libraries.
\<close>

section \<open>Orders\<close>

text \<open>C1: However many partial fills an order takes (\<open>PendingOrder.apply_fill\<close> in sequence), the
  fraction string it stores is the canonical form of the exact sum of the accepted quantities: no
  rounding accumulates; and the floats it publishes never exceed the exact amounts in magnitude.\<close>

theorem partial_fills_exact:
  assumes "order_reachable i p" and "apply_fills fs p = Inr q" and "\<not> po_terminal q"
  shows "po_exact q = Some (fraction_str (exact_cumulative p + sum_list (map accepted_amount fs))) \<and>
    \<bar>dec_of_float (po_cumulative_filled_quantity q)\<bar> \<le> \<bar>exact_cumulative q\<bar> \<and>
    \<bar>dec_of_float (po_remaining_quantity q)\<bar> \<le> \<bar>exact_remaining q\<bar>"
proof -
  have "pending_ok p" using reachable_inv [OF assms(1)] by (simp add: order_inv_def)
  then have "pending_ok q" "exact_cumulative q = exact_cumulative p + sum_list (map accepted_amount fs)"
    using apply_fills_ok apply_fills_exact assms by blast+
  then show ?thesis using pending_ok_iff [of q] pending_ok_conservative [of q] by metis
qed

theorem partial_fills_exact_witness:
  "po_exact (ex_order 4 PARTIALLY_FILLED 2 (F 400)) =
     Some (fraction_str (exact_cumulative (ex_order 0 ELIGIBLE 1 (F 0)) +
       sum_list (map accepted_amount [(F 4, F 400, 1, F 0, None)])))"
proof (rule partial_fills_exact [THEN conjunct1])
  show "order_reachable ex_intent (ex_order 0 ELIGIBLE 1 (F 0))"
    using ex_reachable by (rule order_reachable.step [where a = "Eligible 1"]) (simp add: ex_eligible)
qed (simp_all add: ex_fill po_terminal_def status_terminal_def)



text \<open>C3: No operation leaves a terminal order (FILLED, REJECTED, EXPIRED, CANCELLED), none goes back
  in processing index, and each adds exactly one to the evidence version.\<close>

theorem order_step_safe:
  assumes "order_reachable i p" and "order_step p a q"
  shows "\<not> po_terminal p \<and> po_intent q = i \<and> oi_submit_index i \<le> action_index a \<and>
    (\<forall>l. po_last_processed_index p = Some l \<longrightarrow> l \<le> action_index a) \<and>
    po_last_processed_index q = Some (action_index a) \<and>
    po_evidence_version q = po_evidence_version p + 1"
proof -
  have "pending_ok p" "po_intent p = i" using reachable_inv [OF assms(1)] by (simp_all add: order_inv_def)
  then show ?thesis using order_step_frame [OF _ assms(2)] by (auto simp: index_ok_def)
qed

theorem order_step_safe_witness:
  "\<not> po_terminal (ex_order 0 SUBMITTED 0 (F 0)) \<and> po_evidence_version (ex_order 0 ELIGIBLE 1 (F 0)) = 1"
proof -
  have "order_step (ex_order 0 SUBMITTED 0 (F 0)) (Eligible 1) (ex_order 0 ELIGIBLE 1 (F 0))"
    by (simp add: ex_eligible)
  from order_step_safe [OF ex_reachable this] show ?thesis by simp
qed

text \<open>One accepted fill either leaves the order PARTIALLY\_FILLED with the stored fraction grown by
  exactly the accepted quantity, or FILLED with nothing remaining, exactly and as a float.\<close>

theorem fill_outcome:
  assumes "order_reachable i p" and "apply_fill quantity notional idx lot n p = Inr q"
  shows "\<exists>a. accepted_fill_quantity quantity lot n = Inr a \<and>
    ((po_status q = PARTIALLY_FILLED \<and> exact_cumulative q = exact_cumulative p + a) \<or>
     (po_status q = FILLED \<and> exact_remaining q = 0 \<and> po_remaining_quantity q = F 0))"
proof -
  have ok: "pending_ok p" using reachable_inv [OF assms(1)] by (simp add: order_inv_def)
  obtain a where "accepted_fill_quantity quantity lot n = Inr a" by (rule apply_fill_Inr [OF ok assms(2)])
  then show ?thesis using apply_fill_exact [OF ok assms(2)] by blast
qed

theorem fill_outcome_witness:
  "\<exists>a. accepted_fill_quantity (F 4) (F 0) None = Inr a \<and>
     exact_cumulative (ex_order 4 PARTIALLY_FILLED 2 (F 400)) = exact_cumulative (ex_order 0 ELIGIBLE 1 (F 0)) + a"
proof -
  have "order_reachable ex_intent (ex_order 0 ELIGIBLE 1 (F 0))"
    using ex_reachable by (rule order_reachable.step [where a = "Eligible 1"]) (simp add: ex_eligible)
  from fill_outcome [OF this ex_fill] show ?thesis by simp
qed

text \<open>C4: A constructed intent survives \<open>to_payload\<close> and \<open>from_mapping\<close> unchanged, and the payload
  of a constructed intent under any other order id is refused.\<close>

theorem intent_round_trip:
  assumes "intent_wf i"
  shows "order_intent_from_mapping (intent_payload i) = Inr i \<and>
    (d \<noteq> oi_order_id i \<longrightarrow>
      (\<exists>m. order_intent_from_mapping (intent_payload (i\<lparr>oi_order_id := d\<rparr>)) = Inl (order_error m)))"
proof -
  have "order_intent_create i = Inr i" using assms by (simp add: intent_wf_def)
  then show ?thesis by (simp add: from_mapping_payload create_idem)
qed

theorem intent_round_trip_witness: "order_intent_from_mapping (intent_payload ex_intent) = Inr ex_intent \<and>
  (\<exists>m. order_intent_from_mapping (intent_payload (ex_intent\<lparr>oi_order_id := []\<rparr>)) = Inl (order_error m))"
proof -
  have "is_sha256 (oi_order_id ex_intent)" by (rule intent_wf_id [OF ex_intent_wf])
  then have "[] \<noteq> oi_order_id ex_intent" by (auto simp: is_sha256_def)
  with intent_round_trip [OF ex_intent_wf, of "[]"] show ?thesis by blast
qed

text \<open>C5: Whatever mapping \<open>OrderIntent.from_mapping\<close> accepts, the intent it returns is one that
  \<open>create\<close> builds: its id is the digest of its identity payload, its indices are ordered, its
  quantity is finite and above the tolerance, and exactly the price its order type needs is present.\<close>

theorem intent_parse_sound:
  assumes "order_intent_from_mapping v = Inr i"
  shows "order_intent_create i = Inr i \<and> field as_string v ''order_id'' = Inr (oi_order_id i) \<and>
    (\<exists>b. canonical_json_bytes (identity_payload i) = Inr b \<and> oi_order_id i = sha256_hex b) \<and>
    0 \<le> oi_symbol_index i \<and> 0 \<le> oi_submit_index i \<and> oi_submit_index i \<le> oi_eligible_index i \<and>
    (\<forall>e. oi_expiry_index i = Some e \<longrightarrow> oi_eligible_index i \<le> e) \<and>
    isfinite (oi_requested_quantity i) \<and> \<not> fle (fabs (oi_requested_quantity i)) tolerance \<and>
    (oi_order_type i = LIMIT \<longleftrightarrow> oi_limit_price i \<noteq> None) \<and>
    (oi_order_type i = STOP_MARKET \<longleftrightarrow> oi_stop_price i \<noteq> None)"
proof -
  have wf: "intent_wf i" "field as_string v ''order_id'' = Inr (oi_order_id i)"
    using from_mapping_wf [OF assms] by simp_all
  note facts = wf(1) [unfolded intent_wf_iff]
  show ?thesis using wf facts create_checks_facts [of i] create_price_facts [of i]
    by (auto simp: intent_wf_def)
qed

theorem intent_parse_sound_witness: "order_intent_create ex_intent = Inr ex_intent"
  using intent_parse_sound [OF intent_payload_roundtrip [OF ex_intent_wf]] by simp

text \<open>C6: \<open>project_quantity\<close> publishes the rounded value or its neighbour towards zero, never
  one larger in magnitude than the exact quantity and never of the other sign; a float that came
  from an exact decimal projects back to itself.\<close>

theorem projection_conservative:
  assumes "project_quantity v = Inr r"
  shows "\<bar>dec_of_float r\<bar> \<le> \<bar>v\<bar> \<and> r \<in> {rnd v, toward_zero (rnd v)} \<and> isfinite r \<and>
    (0 \<le> v \<longrightarrow> 0 \<le> val r) \<and> (v \<le> 0 \<longrightarrow> val r \<le> 0) \<and>
    (r \<noteq> NegZero \<longrightarrow> project_quantity (dec_of_float r) = Inr r)"
proof -
  have f: "is_f64 r" "isfinite r" using project_quantity_f64 [OF assms] by simp_all
  have "isfinite (rnd v)" "r = project_loop v (rnd v)" using assms by (simp_all add: project_quantity_Inr)
  then have "r \<in> {rnd v, toward_zero (rnd v)}" using project_loop_steps by blast
  then show ?thesis using f project_quantity_le [OF assms] project_quantity_sign [OF assms]
      project_dec_of_float [OF f] by blast
qed

theorem projection_conservative_witness: "F 4 \<in> {rnd 4, toward_zero (rnd 4)}"
  using projection_conservative [OF ex_projections(1)] by simp

text \<open>A quantity quantised to \<open>n\<close> lots is accepted by the fill path as exactly \<open>n\<close> lots, in
  the direction of the quantity, and less than one lot of it is lost.\<close>

theorem lots_accepted:
  assumes "quantize_quantity x lot = Inr (p, Some n)" and "n \<noteq> 0" and "isfinite lot"
  shows "accepted_fill_quantity p lot (Some n) = Inr (of_int n * dec_of_float lot) \<and>
    \<bar>of_int n * dec_of_float lot\<bar> \<le> \<bar>dec_of_float x\<bar> \<and>
    \<bar>dec_of_float x\<bar> < \<bar>of_int n * dec_of_float lot\<bar> + dec_of_float lot \<and>
    0 \<le> of_int n * dec_of_float lot * dec_of_float x"
  using accepted_of_quantized [OF assms] quantize_count [OF assms(1)] by simp

theorem lots_accepted_witness:
  "\<exists>p n. quantize_quantity (F 10) (F 4) = Inr (p, Some n) \<and>
     accepted_fill_quantity p (F 4) (Some n) = Inr (of_int n * dec_of_float (F 4))"
proof -
  have "quantize_quantity (F 10) (F 4) = Inr (F 8, Some 2)" by code_simp
  with lots_accepted [OF this] show ?thesis by auto
qed

text \<open>C7: \<open>OrderEvent.from_mapping\<close> returns only events whose whole constructor contract holds, and
  such an event survives \<open>to_payload\<close> and \<open>from_mapping\<close> unchanged.\<close>

theorem event_round_trip:
  assumes "event_from_mapping v = Inr e"
  shows "event_from_mapping (event_payload e) = Inr e \<and> oe_event_type e \<in> set event_types \<and>
    is_sha256 (oe_order_id e) \<and> 0 \<le> oe_sequence e \<and> 0 \<le> oe_symbol_index e \<and> 0 \<le> oe_processing_index e \<and>
    within_unit (oe_participation_rate e) \<and> within_unit (oe_available_volume_fraction e) \<and>
    \<not> flt (oe_filled_notional e) (F 0) \<and> oe_path_points e = take 4 (oe_path_points e)"
proof -
  have wf: "event_wf e" by (rule event_from_mapping_wf [OF assms])
  then have "event_from_mapping (event_payload e) = Inr e"
    using event_from_payload by (simp add: event_wf_def)
  moreover have "oe_path_points e = [] \<or> length (oe_path_points e) = 4" using event_wf_facts [OF wf] by blast
  ultimately show ?thesis using event_wf_facts [OF wf] by auto
qed

theorem event_round_trip_witness: "event_from_mapping (event_payload ex_event) = Inr ex_event"
proof -
  have "event_from_mapping (event_payload ex_event) = Inr ex_event"
    using ex_event_wf by (simp add: event_from_payload event_wf_def)
  from event_round_trip [OF this] show ?thesis by simp
qed

section \<open>The engine\<close>

text \<open>C8: The events of an execution are a complete history: they are numbered from zero without a gap, each event
  starts in the status the previous event of its order left, every order of the final book that has events
  is in the status its last event reports, and every submitted intent has one.\<close>

theorem engine_history:
  assumes "book_ok orders" and "submission_ok orders intents"
    and "run_stateful ex new draws b orders intents start bars cancellations = Inr (k, r)"
  shows "map oe_sequence (rt_events r) = map int [0 ..< length (rt_events r)] \<and> chained (rt_events r) \<and>
    (\<forall>p \<in> set (all_orders (rt_orders r)). replay (rt_events r) (po_order_id p) \<in> {None, Some (po_status p)}) \<and>
    (\<forall>i \<in> set intents. replay (rt_events r) (oi_order_id i) \<noteq> None)"
proof (rule run_parts [OF assms(3,1,2)])
  fix r0 fs es
  assume fs: "rt_events r0 = fs" "map oe_sequence fs = map int [0 ..< length fs]"
      "map oe_order_id fs = map (\<lambda>t. po_order_id (fst t)) cancellations @ submitted_ids intents"
    and bars: "extends_bars start (nat k) r0 r es" and con: "consistent r"
  have "map oe_sequence (rt_events r) = map int [0 ..< length (rt_events r)]"
    using bars fs upt_join [of 0 "length fs" "length (rt_events r)"] by (simp add: extends_bars_def)
  moreover have "replay (rt_events r) (oi_order_id i) \<noteq> None" if "i \<in> set intents" for i
  proof -
    have "oi_order_id i \<in> set (map oe_order_id fs)" unfolding fs(3) using that by (simp add: submitted_ids_def)
    then show ?thesis using bars fs(1) by (auto simp: replay_None extends_bars_def)
  qed
  ultimately show ?thesis using con by (simp add: consistent_def)
qed

theorem engine_history_witness:
  "\<exists>r. run_stateful ex_executor 0 0 ex_cash ex_no_orders [ex_buy_intent] 0 1 [] = Inr (1, r) \<and>
     map oe_event_type (rt_events r) = [''submitted'', ''eligible'', ''filled''] \<and>
     replay (rt_events r) (oi_order_id ex_buy_intent) \<noteq> None"
proof -
  obtain r where r: "run_stateful ex_executor 0 0 ex_cash ex_no_orders [ex_buy_intent] 0 1 [] = Inr (1, r)"
    "rt_events r = ex_logged @ [ex_eligible_event, ex_filled_event]" using ex_ran by blast
  from engine_history [OF ex_no_orders_ok ex_submission r(1)] show ?thesis using r ex_run_types by auto
qed

text \<open>C9: The totals of an execution are exactly what its events say: the rejected, expired, filled and completed
  counts are the numbers of such events, and the filled notional is the float sum, in order, of the notionals
  of the fill events.\<close>

theorem engine_counts:
  assumes "book_ok orders" and "submission_ok orders intents"
    and "run_stateful ex new draws b orders intents start bars cancellations = Inr (k, r)"
  shows "rt_rejected r = int (length (filter (\<lambda>e. oe_event_type e = ''rejected'') (rt_events r))) \<and>
    rt_expired r = int (length (filter (\<lambda>e. oe_event_type e = ''expired'') (rt_events r))) \<and>
    rt_fills r = int (length (filter is_fill_event (rt_events r))) \<and>
    rt_completed r = int (length (filter (\<lambda>e. oe_event_type e = ''filled'') (rt_events r))) \<and>
    rt_filled r = foldl fadd (F 0) (map oe_filled_notional (filter is_fill_event (rt_events r)))"
proof (rule run_parts [OF assms(3,1,2)])
  fix r0 fs es
  assume fs: "rt_events r0 = fs" "totals_of r0 = no_totals"
      "\<forall>e \<in> set fs. event_wf e \<and> oe_event_type e \<in> {''cancelled'', ''submitted''}"
    and bars: "extends_bars start (nat k) r0 r es"
  have "totals_of r = foldl count_event (0, 0, 0, 0, F 0) es" "rt_events r = fs @ es"
    using bars fs by (simp_all add: extends_bars_def no_totals_def)
  moreover have "\<forall>e \<in> set fs. oe_event_type e \<in> {''cancelled'', ''submitted''}" using fs(3) by blast
  note start_events_silent [OF this]
  ultimately show ?thesis by (simp add: totals_of_def count_events)
qed

theorem engine_counts_witness:
  "\<exists>r. run_stateful ex_executor 0 0 ex_cash ex_no_orders [ex_buy_intent] 0 1 [] = Inr (1, r) \<and>
     rt_fills r = 1 \<and> rt_completed r = 1 \<and> rt_rejected r = 0"
proof -
  obtain r where r: "run_stateful ex_executor 0 0 ex_cash ex_no_orders [ex_buy_intent] 0 1 [] = Inr (1, r)"
    "rt_events r = ex_logged @ [ex_eligible_event, ex_filled_event]" using ex_ran by blast
  have "oe_event_type ex_filled_event = ''filled''" "oe_event_type ex_eligible_event = ''eligible''"
    "map oe_event_type ex_logged = [''submitted'']" using ex_run_types by auto
  then have "length (filter is_fill_event (rt_events r)) = 1" "length (filter (\<lambda>e. oe_event_type e = ''filled'') (rt_events r)) = 1"
    "length (filter (\<lambda>e. oe_event_type e = ''rejected'') (rt_events r)) = 0"
    by (auto simp: r(2) is_fill_event_def ex_logged_def)
  with engine_counts [OF ex_no_orders_ok ex_submission r(1)] r(1) show ?thesis by auto
qed

text \<open>C10: An execution loses, duplicates and invents no order: the final book is valid, its order ids are those
  of the given book and of the submitted intents, and the archive grows by exactly the orders that an event
  of a bar closes, in the order of those events.\<close>

theorem engine_conserves_orders:
  assumes "book_ok orders" and "submission_ok orders intents"
    and "run_stateful ex new draws b orders intents start bars cancellations = Inr (k, r)"
  shows "book_ok (rt_orders r) \<and> mset (book_ids (rt_orders r)) = mset (book_ids orders) + mset (submitted_ids intents) \<and>
    (\<exists>s. archive_list (ob_terminal (rt_orders r)) = archive_list (ob_terminal orders) @ s \<and>
       map po_order_id s = map oe_order_id (filter closes (drop (length cancellations + length intents) (rt_events r))))"
proof (rule run_parts [OF assms(3,1,2)])
  fix ps r0 fs es
  assume o: "rt_orders r0 = orders\<lparr>ob_active := ob_active orders @ ps\<rparr>" "map po_intent ps = intents" "rt_events r0 = fs"
      "map oe_order_id fs = map (\<lambda>t. po_order_id (fst t)) cancellations @ submitted_ids intents"
    and bars: "extends_bars start (nat k) r0 r es" and live: "live r"
  have n: "length fs = length cancellations + length intents"
    using arg_cong [OF o(4), of length] by (simp add: submitted_ids_def)
  have ids: "map po_order_id ps = submitted_ids intents" using o(2) by (auto simp: submitted_ids_def po_order_id_def)
  have "mset (book_ids (rt_orders r0)) = mset (book_ids orders) + mset (submitted_ids intents)"
    by (simp add: o(1) book_ids_def flip: ids)
  then show ?thesis using bars live o(1,3) by (simp add: extends_bars_def live_def flip: n)
qed

theorem engine_conserves_orders_witness:
  "\<exists>r. run_stateful ex_executor 0 0 ex_cash ex_no_orders [ex_buy_intent] 0 1 [] = Inr (1, r) \<and>
     book_ids (rt_orders r) = [oi_order_id ex_buy_intent]"
proof -
  obtain r where r: "run_stateful ex_executor 0 0 ex_cash ex_no_orders [ex_buy_intent] 0 1 [] = Inr (1, r)" using ex_ran by blast
  have "book_ids ex_no_orders = []" by (simp add: ex_no_orders_def book_ids_def)
  with engine_conserves_orders [OF ex_no_orders_ok ex_submission r, THEN conjunct2, THEN conjunct1]
  have "mset (book_ids (rt_orders r)) = {# oi_order_id ex_buy_intent #}" by (simp add: submitted_ids_def)
  then show ?thesis using r by simp
qed

text \<open>C11: Every fill is accounted for once: the filled notional of each order of the final book is the float sum
  of what it had before (nothing for a new intent) and the notionals of its own fill events, in order.\<close>

theorem engine_fills_accounted:
  assumes "book_ok orders" and "submission_ok orders intents"
    and "run_stateful ex new draws b orders intents start bars cancellations = Inr (k, r)"
    and "q \<in> set (all_orders (rt_orders r))"
  shows "\<exists>x. po_cumulative_filled_notional q = foldl fadd x (fills_of (rt_events r) (po_order_id q)) \<and>
    ((po_intent q \<in> set intents \<and> x = F 0) \<or>
     (\<exists>p \<in> set (all_orders orders). po_intent p = po_intent q \<and> x = po_cumulative_filled_notional p))"
proof (rule run_parts [OF assms(3,1,2)])
  fix ps r0 fs es
  assume o: "rt_orders r0 = orders\<lparr>ob_active := ob_active orders @ ps\<rparr>" "map po_intent ps = intents"
      "\<forall>p \<in> set ps. po_cumulative_filled_notional p = F 0" "rt_events r0 = fs"
      "\<forall>e \<in> set fs. event_wf e \<and> oe_event_type e \<in> {''cancelled'', ''submitted''}"
    and bars: "extends_bars start (nat k) r0 r es"
  have "\<forall>e \<in> set fs. oe_event_type e \<in> {''cancelled'', ''submitted''}" using o(5) by blast
  note silent = start_events_silent(5) [OF this]
  obtain p where p: "p \<in> set (all_orders (rt_orders r0))" "po_intent p = po_intent q"
    "po_cumulative_filled_notional q = foldl fadd (po_cumulative_filled_notional p) (fills_of es (po_order_id q))"
    using bars assms(4) by (auto simp: extends_bars_def accounted_def)
  have "fills_of (rt_events r) (po_order_id q) = fills_of es (po_order_id q)"
    using bars o(4) silent by (simp add: extends_bars_def)
  moreover have "p \<in> set (all_orders orders) \<or> (po_intent p \<in> set intents \<and> po_cumulative_filled_notional p = F 0)"
    using p(1) o(1-3) by (auto simp: all_orders_def)
  ultimately show ?thesis using p(2,3) by auto
qed

theorem engine_fills_accounted_witness:
  "\<exists>r x. run_stateful ex_executor 0 0 ex_cash ex_no_orders [ex_buy_intent] 0 1 [] = Inr (1, r) \<and>
     fills_of (rt_events r) (oi_order_id ex_buy_intent) = [F 1000] \<and> F 1000 = foldl fadd x [F 1000]"
proof -
  obtain r where r: "run_stateful ex_executor 0 0 ex_cash ex_no_orders [ex_buy_intent] 0 1 [] = Inr (1, r)"
    "rt_events r = ex_logged @ [ex_eligible_event, ex_filled_event]" "rt_orders r = ex_done" using ex_ran by blast
  have q: "ex_buy_order 10 FILLED 2 (F 1000) \<in> set (all_orders (rt_orders r))"
    by (simp add: r(3) all_orders_def ex_done_def)
  have "fills_of (rt_events r) (oi_order_id ex_buy_intent) = [F 1000]"
    by (simp add: r(2) fills_of_def ex_logged_def ex_eligible_event_def ex_filled_event_def ex_fill_details_def ex_event_of_def
      event_of_def is_fill_event_def Let_def)
  with engine_fills_accounted [OF ex_no_orders_ok ex_submission r(1) q] r(1) show ?thesis by auto
qed

text \<open>C12: No order is filled before its eligible index, and the events of the bars come in processing order within
  the interval the execution reports.\<close>

theorem engine_no_early_fill:
  assumes "book_ok orders" and "submission_ok orders intents"
    and "run_stateful ex new draws b orders intents start bars cancellations = Inr (k, r)"
  shows "(let es = drop (length cancellations + length intents) (rt_events r) in
      sorted (map oe_processing_index es) \<and> (\<forall>e \<in> set es. start < oe_processing_index e \<and> oe_processing_index e \<le> start + k)) \<and>
    (\<forall>e \<in> set (rt_events r). is_fill_event e \<longrightarrow> (\<exists>q \<in> set (all_orders (rt_orders r)).
       po_order_id q = oe_order_id e \<and> oi_eligible_index (po_intent q) \<le> oe_processing_index e))"
proof (rule run_parts [OF assms(3,1,2)])
  fix r0 fs es
  assume fs: "rt_events r0 = fs" "map oe_order_id fs = map (\<lambda>t. po_order_id (fst t)) cancellations @ submitted_ids intents"
      "\<forall>e \<in> set fs. event_wf e \<and> oe_event_type e \<in> {''cancelled'', ''submitted''}"
    and bars: "extends_bars start (nat k) r0 r es" and k: "0 < k" and live: "live r0"
  have n: "length cancellations + length intents = length fs" "rt_events r = fs @ es"
    using arg_cong [OF fs(2), of length] bars fs(1) by (simp_all add: submitted_ids_def extends_bars_def)
  have "\<exists>q \<in> set (all_orders (rt_orders r)). po_order_id q = oe_order_id e \<and> oi_eligible_index (po_intent q) \<le> oe_processing_index e"
    if e: "e \<in> set (rt_events r)" "is_fill_event e" for e
  proof -
    have "e \<in> set es" using e n(2) fs(3) by (auto simp: is_fill_event_def)
    then obtain p where p: "p \<in> set (all_orders (rt_orders r0))" "po_order_id p = oe_order_id e"
      "oi_eligible_index (po_intent p) \<le> oe_processing_index e" using bars e(2) by (auto simp: extends_bars_def)
    have "set (book_ids (rt_orders r)) = set (book_ids (rt_orders r0))"
      using bars unfolding extends_bars_def by (metis set_mset_mset)
    then have "po_order_id p \<in> set (book_ids (rt_orders r))" using order_id_in_book [OF p(1)] by simp
    then have "po_order_id p \<in> po_order_id ` set (all_orders (rt_orders r))"
      by (simp add: book_ids_def all_orders_def image_Un)
    then obtain q where q: "q \<in> set (all_orders (rt_orders r))" "po_order_id q = po_order_id p" by force
    obtain p' where p': "p' \<in> set (all_orders (rt_orders r0))" "po_intent p' = po_intent q"
      using bars q(1) by (auto simp: extends_bars_def accounted_def)
    have "po_order_id p' = po_order_id p" using p'(2) q(2) by (simp add: po_order_id_def)
    moreover have "distinct (map po_order_id (all_orders (rt_orders r0)))"
      using live by (simp add: live_def book_ok_def book_ids_def all_orders_def)
    ultimately have "p' = p" using p(1) p'(1) by (metis distinct_map inj_onD)
    then show ?thesis using p p' q by (intro bexI [OF _ q(1)]) auto
  qed
  moreover have "sorted (map oe_processing_index es) \<and>
      (\<forall>e \<in> set es. start < oe_processing_index e \<and> oe_processing_index e \<le> start + k)"
    using bars k by (simp add: extends_bars_def)
  ultimately show ?thesis by (simp add: n Let_def)
qed

theorem engine_no_early_fill_witness:
  "\<exists>r. run_stateful ex_executor 0 0 ex_cash ex_no_orders [ex_buy_intent] 0 1 [] = Inr (1, r) \<and>
     (\<exists>q \<in> set (all_orders (rt_orders r)). oi_eligible_index (po_intent q) \<le> oe_processing_index ex_filled_event)"
proof -
  obtain r where r: "run_stateful ex_executor 0 0 ex_cash ex_no_orders [ex_buy_intent] 0 1 [] = Inr (1, r)"
    "rt_events r = ex_logged @ [ex_eligible_event, ex_filled_event]" using ex_ran by blast
  have e: "ex_filled_event \<in> set (rt_events r)" "is_fill_event ex_filled_event"
    using r(2) ex_run_types by (auto simp: is_fill_event_def)
  from engine_no_early_fill [OF ex_no_orders_ok ex_submission r(1)] e
  show ?thesis using r(1) by blast
qed

text \<open>C13: An execution that returns has advanced at least one bar and at most the bars asked for, and it stops early
  only with an account that is terminated with its debt retained.\<close>

theorem engine_stops:
  assumes "book_ok orders" and "submission_ok orders intents"
    and "run_stateful ex new draws b orders intents start bars cancellations = Inr (k, r)"
  shows "0 < k \<and> k \<le> bars \<and> (k < bars \<longrightarrow> retain_debt ex \<and> bs_insolvent (rt_book r))"
  by (rule run_parts [OF assms(3,1,2)]) (simp add: absorbed_def)

theorem engine_stops_witness:
  "\<exists>k r. run_stateful ex_executor 0 0 ex_cash ex_no_orders [ex_buy_intent] 0 1 [] = Inr (k, r) \<and> k = 1"
proof -
  obtain r where r: "run_stateful ex_executor 0 0 ex_cash ex_no_orders [ex_buy_intent] 0 1 [] = Inr (1, r)" using ex_ran by blast
  show ?thesis using engine_stops [OF ex_no_orders_ok ex_submission r] r by auto
qed

text \<open>Every bar of an execution is a sequence of elementary steps at its own index: an account movement, the note
  that an active order did not fill, or one transition of one active order with the event that records it.\<close>

theorem engine_refines_steps:
  assumes "book_ok orders" and "submission_ok orders intents"
    and "run_stateful ex new draws b orders intents start bars cancellations = Inr (k, r)"
  shows "\<exists>r0. start_runtime ex new draws b orders intents cancellations = Inr r0 \<and> bar_runs start (nat k) r0 r"
  by (rule run_stateful_facts [OF assms(3,1,2)]) blast

theorem engine_refines_steps_witness:
  "\<exists>r. bar_runs 0 1 (ex_run ex_cash (ex_active SUBMITTED 0) 0 ex_logged) r \<and> rt_orders r = ex_done"
proof -
  obtain r where r: "run_stateful ex_executor 0 0 ex_cash ex_no_orders [ex_buy_intent] 0 1 [] = Inr (1, r)" "rt_orders r = ex_done"
    using ex_ran by blast
  show ?thesis using engine_refines_steps [OF ex_no_orders_ok ex_submission r(1)] r(2) by (auto simp: ex_start)
qed

text \<open>C14: An account that an execution leaves insolvent is flat: no order is active, every position is zero and no
  margin is used or required.\<close>

theorem insolvent_account_flat:
  assumes "book_ok orders" and "submission_ok orders intents"
    and "run_stateful ex new draws b orders intents start bars cancellations = Inr (k, r)"
    and "bs_insolvent (rt_book r)"
  shows "ob_active (rt_orders r) = [] \<and> list_all (\<lambda>q. q = F 0) (bs_quantities (rt_book r)) \<and>
    bs_margin_used (rt_book r) = F 0 \<and> bs_maintenance_requirement (rt_book r) = F 0"
proof -
  obtain r0 pol where r0: "start_runtime ex new draws b orders intents cancellations = Inr r0"
    and ck: "interval_checks ex b start bars = Inr ()" and run: "execute_bars ex pol start (nat bars) r0 = Inr (k, r)"
    using assms(3) by (auto simp: run_stateful_def bindr_Inr)
  have "live r0" by (rule start_runtime_facts [OF r0 assms(1,2)])
  moreover have "0 < nat bars" using ck by (simp add: interval_checks_def)
  ultimately show ?thesis using execute_bars_flat [OF run] assms(4) by (simp add: flat_def)
qed

theorem insolvent_account_flat_witness:
  "\<exists>r. run_stateful ex_floor 0 0 ex_leveraged ex_no_orders [] 0 1 [] = Inr (1, r) \<and> bs_insolvent (rt_book r) \<and>
     list_all (\<lambda>q. q = F 0) (bs_quantities (rt_book r))"
proof -
  have s: "submission_ok ex_no_orders []" by (simp add: submission_ok_def ex_no_orders_def all_orders_def)
  obtain r where "run_stateful ex_floor 0 0 ex_leveraged ex_no_orders [] 0 1 [] = Inr (1, r)" "bs_insolvent (rt_book r)"
    using ex_failing_ran by blast
  then show ?thesis using insolvent_account_flat [OF ex_no_orders_ok s] by blast
qed

text \<open>C15: The result of an execution is well typed: its order book is valid, every order in it is one the constructor
  accepts unchanged, every event can be read back from its payload, and the counts and the next index agree
  with the interval.\<close>

theorem execution_result_typed:
  assumes "book_ok orders" and "submission_ok orders intents"
    and "execute_stateful_orders ex new draws b orders intents start bars cancellations = Inr s"
  shows "book_ok (sr_order_book s) \<and> (\<forall>p \<in> set (all_orders (sr_order_book s)). pending_ok p) \<and>
    (\<forall>e \<in> set (sr_order_events s). event_from_mapping (event_payload e) = Inr e) \<and>
    sr_next_index s = start + sr_bars_advanced s \<and> 0 < sr_bars_advanced s \<and> sr_bars_advanced s \<le> bars \<and>
    0 \<le> sr_completed_fill_count s \<and> sr_completed_fill_count s \<le> sr_fill_count s"
proof -
  obtain k r where run: "run_stateful ex new draws b orders intents start bars cancellations = Inr (k, r)"
    and res: "result_payload ex start k r = Inr s"
    using assms(3) unfolding execute_stateful_orders_def bindr_Inr split_paired_Ex prod.case by blast
  note f = result_fields [OF res]
  show ?thesis
  proof (rule run_parts [OF run assms(1,2)])
    fix r0 fs es
    assume fs: "rt_events r0 = fs" "totals_of r0 = no_totals"
        "\<forall>e \<in> set fs. event_wf e \<and> oe_event_type e \<in> {''cancelled'', ''submitted''}"
      and bars: "extends_bars start (nat k) r0 r es" and live: "live r" and k: "0 < k" "k \<le> bars"
    have ev: "event_from_mapping (event_payload e) = Inr e" if "e \<in> set (rt_events r)" for e
      using that bars fs by (auto simp: extends_bars_def event_from_payload event_wf_def)
    have "totals_of r = foldl count_event (0, 0, 0, 0, F 0) es" using bars fs by (simp add: extends_bars_def no_totals_def)
    then have c: "rt_completed r = int (length (filter (\<lambda>e. oe_event_type e = ''filled'') es))" "rt_fills r = int (length (filter is_fill_event es))"
      by (simp_all add: totals_of_def count_events)
    have "filter (\<lambda>e. oe_event_type e = ''filled'') es = filter (\<lambda>e. oe_event_type e = ''filled'') (filter is_fill_event es)"
      by (induction es) (auto simp: is_fill_event_def)
    then have "rt_completed r \<le> rt_fills r" unfolding c by (metis length_filter_le of_nat_le_iff)
    then show ?thesis using f ev live k c by (auto simp: live_def book_ok_def all_orders_def)
  qed
qed

theorem execution_result_typed_witness:
  "\<exists>s. execute_stateful_orders ex_executor 0 0 ex_cash ex_no_orders [ex_buy_intent] 0 1 [] = Inr s \<and>
     sr_next_index s = 1 \<and> (\<forall>e \<in> set (sr_order_events s). event_from_mapping (event_payload e) = Inr e)"
proof -
  obtain s where s: "execute_stateful_orders ex_executor 0 0 ex_cash ex_no_orders [ex_buy_intent] 0 1 [] = Inr s"
    using ex_executed by blast
  show ?thesis using execution_result_typed [OF ex_no_orders_ok ex_submission s] s by auto
qed



section \<open>The order book\<close>

text \<open>C17: \<open>suffix_since\<close>: between archives whose nodes agree wherever their identities do, it
  succeeds exactly when the previous archive is an ancestor, and then returns precisely the orders
  appended since, oldest first.\<close>

theorem suffix_since_exact:
  assumes "coherent a b"
  shows "(\<exists>s. suffix_since a b = Inr s) = (b = No_Node \<or> b \<in> set (nodes_of a)) \<and>
    (\<forall>s. suffix_since a b = Inr s \<longrightarrow> archive_list a = archive_list b @ s)"
  using suffix_since_complete [OF assms] suffix_since_sound [OF assms] by blast+

theorem suffix_since_exact_witness:
  "\<exists>s. suffix_since (archive_init 5 [ex_order 10 FILLED 2 (F 1000)]) No_Node = Inr s"
  using suffix_since_exact [of "archive_init 5 [ex_order 10 FILLED 2 (F 1000)]" No_Node]
  by (simp add: coherent_def)

text \<open>\<open>archive[k]\<close> is the element of the archived sequence at \<open>k\<close>, negative positions counting
  from the end, and IndexError outside; every archive built by the constructor qualifies.\<close>

theorem archive_getitem_sequence:
  "archive_getitem (archive_init new ps) k =
     (let n = int (length ps); j = (if k < 0 then k + n else k) in
      if 0 \<le> j \<and> j < n then Inr (ps ! nat j)
      else Inl (Raise IndexError ''terminal order archive index out of range''))"
proof -
  have "archive_ok (archive_init new ps)" by (simp add: archive_init_def)
  then show ?thesis by (simp add: archive_getitem_eq Let_def)
qed

text \<open>C18: Every reachable \<open>OrderBookState\<close> holds valid orders only, active ones not terminal and
  archived ones terminal, with identities that are distinct across both, and an archive whose
  cached length and latest submission index are those of its sequence.\<close>

theorem reachable_books_valid:
  assumes "book_reachable b"
  shows "book_ok b \<and> archive_len (ob_terminal b) = int (length (archive_list (ob_terminal b))) \<and>
    archive_max_submit (ob_terminal b) = foldl max (-1) (map submit_of (archive_list (ob_terminal b)))"
proof -
  have ok: "book_ok b" by (rule book_reachable_inv [OF assms])
  then have "archive_ok (ob_terminal b)" by (simp add: book_ok_def)
  from ok terminal.size_elems [OF this] terminal.latest_elems [OF this] show ?thesis by simp
qed

theorem reachable_books_valid_witness: "book_ok ex_book \<and> archive_len (ob_terminal ex_book) = 0"
  using reachable_books_valid [OF ex_book_reachable] by (simp add: ex_book_def)

text \<open>C19: One step of the book, the admission of new orders or an order operation followed by
  \<open>replace\<close>, keeps the archive as a prefix and never loses or duplicates an order's identity.\<close>

theorem book_step_conserves:
  assumes "book_step b c" and "book_ok b"
  shows "book_ok c \<and> set (book_ids b) \<subseteq> set (book_ids c) \<and> distinct (book_ids c) \<and>
    (\<exists>s. archive_list (ob_terminal c) = archive_list (ob_terminal b) @ s)"
proof -
  have "set (book_ids b) \<subseteq> set (book_ids c)"
    using assms(1)
  proof cases
    case (admit orders)
    then show ?thesis by (auto simp: book_add_Inr book_ids_def)
  next
    case (advance p a q new)
    then have "mset (book_ids c) = mset (book_ids b)" by (intro book_replace_ids)
    then have "set (book_ids c) = set (book_ids b)" by (rule mset_eq_setD)
    then show ?thesis by simp
  qed
  then show ?thesis using book_step_ok [OF assms] book_step_archive [OF assms(1)] by (auto simp: book_ok_def)
qed

theorem book_step_conserves_witness:
  "set (book_ids \<lparr>ob_active = [], ob_terminal = No_Node\<rparr>) \<subseteq> set (book_ids ex_book) \<and> distinct (book_ids ex_book)"
proof -
  have empty: "book_ok \<lparr>ob_active = [], ob_terminal = No_Node\<rparr>"
    by (rule book_reachable_inv) (rule book_reachable.empty [OF empty_book_eq])
  have "book_step \<lparr>ob_active = [], ob_terminal = No_Node\<rparr> ex_book"
    by (rule book_step.admit [where orders = "[ex_order 0 SUBMITTED 0 (F 0)]"])
      (use ex_requested_ok ex_submitted in \<open>auto simp: book_add_Inr ex_book_def book_ids_def po_terminal_def status_terminal_def\<close>)
  from book_step_conserves [OF this empty] show ?thesis by simp
qed

text \<open>The incremental \<open>add_generated\<close>, which never rescans the archive, gives what the full
  \<open>add\<close> gives, on a valid book in which equal order ids imply equal submission indices.\<close>

theorem add_generated_refines_add:
  assumes "book_ok b" and "\<forall>p \<in> set (all_orders b @ orders). 0 \<le> submit_of p"
    and "ids_determine_submit (all_orders b @ orders)" and "add_generated orders b = Inr c"
  shows "book_add orders b = Inr c"
  using assms by (rule add_generated_add)

theorem add_generated_refines_add_witness:
  "book_add [ex_order 0 SUBMITTED 0 (F 0)] \<lparr>ob_active = [], ob_terminal = No_Node\<rparr> = Inr ex_book"
proof (rule add_generated_refines_add)
  show "book_ok \<lparr>ob_active = [], ob_terminal = No_Node\<rparr>"
    by (rule book_reachable_inv) (rule book_reachable.empty [OF empty_book_eq])
  show "add_generated [ex_order 0 SUBMITTED 0 (F 0)] \<lparr>ob_active = [], ob_terminal = No_Node\<rparr> = Inr ex_book"
    by (simp add: add_generated_Inr ex_book_def latest_submit_def submit_of_def po_terminal_def status_terminal_def)
qed (simp_all add: all_orders_def submit_of_def ids_determine_submit_def)

section \<open>The account\<close>



text \<open>C21: A fill (\<open>BookState.execute_fill\<close>) adds exactly the accepted fraction to the position of its
  symbol and to no other, and pays exactly its signed notional and cost out of cash.\<close>

theorem fill_updates_account:
  assumes "account_reachable nsum ndot b"
    and "execute_fill nsum symbol quantity prices cost turnover lot lots valuation b = Inr c"
  shows "\<exists>accepted notional. accepted_delta quantity lot lots (exact_values b ! nat symbol) = Inr accepted \<and>
    exact_values c = (exact_values b)[nat symbol := exact_values b ! nat symbol + accepted] \<and>
    signed_notional ((replicate (length (bs_quantities b)) 0)[nat symbol := accepted]) prices (bs_multipliers b) = Inr notional \<and>
    bs_cash c = fsub (bs_cash b) (fadd notional cost)"
proof -
  have shape: "book_shape b" using account_reachable_valid [OF assms(1)] by (simp add: book_valid_def)
  obtain accepted where a: "accepted_delta quantity lot lots (exact_values b ! nat symbol) = Inr accepted"
    and run: "record_execution nsum prices ((exact_values b)[nat symbol := exact_values b ! nat symbol + accepted])
      ((replicate (length (bs_quantities b)) 0)[nat symbol := accepted]) cost turnover valuation b = Inr c"
    by (rule execute_fill_Inr [OF shape assms(2)])
  have "length ((exact_values b)[nat symbol := exact_values b ! nat symbol + accepted]) = length (bs_quantities b)"
    using book_shape_facts(2) [OF shape] by simp
  from record_execution_valid [OF shape this run] show ?thesis using a by blast
qed

theorem fill_updates_account_witness: "exact_values ex_bought = [5] \<and> exact_values ex_account = [2]"
proof -
  have a: "accepted_delta (F 3) (F 0) None 2 = Inr 3" by code_simp
  from fill_updates_account [OF ex_account_reachable ex_buy] show ?thesis by (simp add: ex_account_exact a)
qed

section \<open>Fills from recorded depth\<close>

text \<open>C22: \<open>execute_depth_order\<close> accounts for every lot it is asked for: filled and unfilled lots add up, a
  refusal has a reason and leaves the account untouched, and a fill goes in the direction of the order by at
  most its size, as many lots as the fraction of the displayed quantity allows, and moves the position by
  exactly those lots.\<close>

theorem depth_order_accounts:
  assumes "depth_request_ok req" and "book_valid nsum b" and "execute_depth_order nsum req b = Inr (f, c)"
  shows "df_filled_lots f + df_unfilled_lots f = dq_lots req \<and>
    (if df_filled_lots f = 0 then c = b \<and> df_price f = None \<and> df_fee f = F 0 \<and> df_reason f \<noteq> None
     else df_reason f = None \<and> sgn (df_filled_lots f) = sgn (dq_lots req) \<and> book_valid nsum c \<and>
       (let step = dec_of_float (dr_lot_size (dq_rules req)); i = nat (dq_symbol req);
            capacity = (\<Sum>(p, q) \<leftarrow> depth_levels req. dec_of_float q * dec_of_float (dq_fraction req)) in
        \<bar>df_filled_lots f\<bar> = min \<bar>dq_lots req\<bar> \<lfloor>capacity / step\<rfloor> \<and>
        exact_values c = (exact_values b)[i := exact_values b ! i + of_int (df_filled_lots f) * step]))"
proof -
  let ?held = "exact_values b" and ?i = "nat (dq_symbol req)"
  define step where "step = dec_of_float (dr_lot_size (dq_rules req))"
  have shape: "book_shape b" using assms(2) by (simp add: book_valid_def)
  note position = depth_position [where ndot = "\<lambda>_ _. F 0", OF assms(1) shape assms(3)]
  then have moved: "exact_values c = ?held[?i := ?held ! ?i + of_int (df_filled_lots f) * step]"
    and valid: "book_valid nsum c" and sum: "df_filled_lots f + df_unfilled_lots f = dq_lots req"
    using account_step_valid [OF _ assms(2)] assms(2) by (auto simp: step_def)
  show ?thesis
  proof (rule execute_depth_cases [OF assms(1,3)])
    fix participation adverse step' lots price fee
    assume "participation = dec_of_float (dq_fraction req)" "step' = dec_of_float (dr_lot_size (dq_rules req))"
      and lots: "lots = min \<bar>dq_lots req\<bar> \<lfloor>sum_list (map snd (map (exact_level participation adverse) (depth_levels req))) / step'\<rfloor>" "0 < lots"
      and f: "f = \<lparr>df_filled_lots = depth_side req * lots, df_unfilled_lots = dq_lots req - depth_side req * lots,
         df_price = Some price, df_fee = fee, df_reason = None\<rparr>"
    then have cap: "lots = min \<bar>dq_lots req\<bar>
        \<lfloor>(\<Sum>(p, q) \<leftarrow> depth_levels req. dec_of_float q * dec_of_float (dq_fraction req)) / step\<rfloor>"
      by (simp add: step_def exact_level_def comp_def case_prod_unfold)
    have le: "lots \<le> \<bar>dq_lots req\<bar>" by (subst lots(1)) (rule min.cobounded1)
    have "depth_side req * lots \<noteq> 0" "sgn (depth_side req * lots) = sgn (dq_lots req)" "\<bar>depth_side req * lots\<bar> = lots"
      using lots(2) le by (auto simp: depth_side_def sgn_if)
    then show ?thesis using moved valid cap by (simp add: f Let_def step_def [symmetric])
  qed (simp add: rejected_depth_def)
qed

theorem depth_order_accounts_witness:
  "\<exists>c. execute_depth_order ex_sum ex_depth_request ex_cash = Inr (ex_depth_fill, c) \<and> exact_values c = [10]"
proof -
  obtain c where c: "execute_depth_order ex_sum ex_depth_request ex_cash = Inr (ex_depth_fill, c)" using ex_depth_filled by blast
  have v: "book_valid ex_sum ex_cash" using account_reachable_valid [OF ex_cash_reachable] by simp
  have "exact_values ex_cash = [0]" by code_simp
  then show ?thesis using depth_order_accounts [OF ex_depth_ok v c] c
    by (simp add: ex_depth_fill_def ex_depth_fields f64_eval Let_def)
qed

text \<open>C23: A fill pays the best price the displayed depth allows: its value is what some division of the filled
  quantity over the levels costs, within the fraction of each that may be used, no other division is cheaper
  for a buy or earns more for a sell, and the reported price is that value per unit, rounded once.\<close>

theorem depth_fill_best:
  assumes "depth_request_ok req" and "execute_depth_order nsum req b = Inr (f, c)" and "df_filled_lots f \<noteq> 0"
    and "adverse_factor req = Inr adverse"
    and "ls = map (exact_level (dec_of_float (dq_fraction req)) adverse) (depth_levels req)"
    and "quantity = \<bar>of_int (df_filled_lots f) * dec_of_float (dr_lot_size (dq_rules req))\<bar>"
  shows "\<exists>xs. allocates ls xs quantity \<and> df_price f = Some (rnd (cost_of ls xs / quantity)) \<and>
    (\<forall>ys. allocates ls ys quantity \<longrightarrow>
       of_int (depth_side req) * cost_of ls xs \<le> of_int (depth_side req) * cost_of ls ys)"
proof (rule execute_depth_cases [OF assms(1,2)])
  fix participation adverse' step lots v price and q turnover fee
  assume p: "participation = dec_of_float (dq_fraction req)" "0 < participation" and a: "adverse_factor req = Inr adverse'" "0 < adverse'"
    and st: "step = dec_of_float (dr_lot_size (dq_rules req))" "0 < step"
    and lots: "lots = min \<bar>dq_lots req\<bar> \<lfloor>sum_list (map snd (map (exact_level participation adverse') (depth_levels req))) / step\<rfloor>" "0 < lots"
    and d: "draw (map (exact_level participation adverse') (depth_levels req)) (of_int lots * step) = (0, v)"
    and price: "float_of_fraction (v / (of_int lots * step)) = Inr price"
    and f: "f = \<lparr>df_filled_lots = depth_side req * lots, df_unfilled_lots = dq_lots req - depth_side req * lots,
         df_price = Some price, df_fee = fee, df_reason = None\<rparr>"
  have ls: "ls = map (exact_level participation adverse') (depth_levels req)" using assms(4,5) p(1) a(1) by simp
  have q: "quantity = of_int lots * step" "0 < quantity"
    using assms(6) st lots(2) by (simp_all add: f abs_mult depth_side_def)
  have ch: "depth_checks b req = Inr ()"
    using assms(2) by (auto simp: execute_depth_order_def bindr_Inr)
  note facts = depth_checks_facts [OF ch assms(1)]
  have side: "depth_side req = 1 \<or> depth_side req = -1" by (simp add: depth_side_def)
  have sorted: "sorted_wrt (\<lambda>a b. of_int (depth_side req) * fst a \<le> of_int (depth_side req) * fst b) ls"
    unfolding ls by (rule exact_levels_sorted [OF facts(4,5) side a(2)])
  have pos: "list_all (\<lambda>l. 0 < snd l) ls" unfolding ls by (rule exact_levels_positive [OF facts(4,5) p(2)])
  have "lots \<le> \<lfloor>sum_list (map snd ls) / step\<rfloor>" unfolding ls by (subst lots(1)) (rule min.cobounded2)
  then have "of_int lots \<le> sum_list (map snd ls) / step" by (simp add: le_floor_iff)
  then have room: "quantity \<le> sum_list (map snd ls)" using st(2) by (simp add: q(1) field_simps)
  obtain xs where xs: "allocates ls xs quantity" "v = cost_of ls xs"
    using draw_allocates [OF pos q(2) room] d by (auto simp: ls q(1))
  have "of_int (depth_side req) * v \<le> of_int (depth_side req) * cost_of ls ys" if "allocates ls ys quantity" for ys
    using draw_best [OF sorted pos q(2) room that] d by (simp add: ls q(1))
  moreover have "price = rnd (cost_of ls xs / quantity)"
    using price by (auto simp: float_of_fraction_def q(1) xs(2) Let_def split: if_splits)
  ultimately show ?thesis using xs by (auto simp: f)
qed (use assms(3) in \<open>simp add: rejected_depth_def\<close>)

theorem depth_fill_best_witness:
  "\<exists>xs. allocates [(99, 5), (101, 5)] xs 10 \<and> Some (F 100) = Some (rnd (cost_of [(99, 5), (101, 5)] xs / 10))"
proof -
  obtain c where c: "execute_depth_order ex_sum ex_depth_request ex_cash = Inr (ex_depth_fill, c)" using ex_depth_filled by blast
  have f: "df_filled_lots ex_depth_fill = 10" "df_price ex_depth_fill = Some (F 100)" by (simp_all add: ex_depth_fill_def)
  have l: "[(99, 5), (101, 5)] = map (exact_level (dec_of_float (dq_fraction ex_depth_request)) 1) (depth_levels ex_depth_request)"
    by (simp add: ex_depth_sides ex_depth_fields exact_level_def f64_eval)
  have q: "10 = \<bar>of_int (df_filled_lots ex_depth_fill) * dec_of_float (dr_lot_size (dq_rules ex_depth_request))\<bar>"
    by (simp add: f ex_depth_fields f64_eval)
  from depth_fill_best [OF ex_depth_ok c _ ex_depth_sides(3) l q] f show ?thesis by auto
qed

section \<open>Paper trading\<close>

text \<open>C24: Along any sequence of decisions, executions and gaps, the account of a paper session stays one that
  \<open>BookState\<close> can reach, its clock never goes back, no recorded failure is dropped, and a bot that was
  stopped stays stopped, for the first reason.\<close>

theorem paper_session_safe:
  assumes "paper_account_init nsum s = Inr a0" and "paper_run nsum ndot a0 ps a" and "paper_run nsum ndot a qs c"
  shows "account_reachable nsum ndot (ac_book c) \<and> ac_last_at a \<le> ac_last_at c \<and> prefix (ac_failures a) (ac_failures c) \<and>
    (\<forall>reason. cb_stop_reason (ac_bot a) = Some reason \<longrightarrow> cb_stop_reason (ac_bot c) = Some reason)"
proof -
  have "account_reachable nsum ndot (ac_book a) \<and> bot_ok (ac_bot a)"
    using paper_run_keeps [OF assms(2)] paper_account_init_facts [OF assms(1)] by blast
  then show ?thesis using paper_run_keeps [OF assms(3)] by (auto simp: bot_later_def)
qed

theorem paper_session_safe_witness:
  "account_reachable ex_sum ex_dot (ac_book ex_decided_account) \<and> ac_last_at ex_fresh_account \<le> ac_last_at ex_decided_account"
  using paper_session_safe [OF ex_paper_opened paper_run.start ex_decided_run] by blast

text \<open>C25: Funding is paid once and for what was held: over a whole session no two payments have the same symbol
  and funding time, each payment is at the settled rate and mark that the account keeps on record, and it
  amounts to the exact quantity held before that time, times rate and mark, rounded once.\<close>

theorem funding_paid_once:
  assumes "paper_account_init nsum s = Inr a" and "paper_run nsum ndot a ps c"
  shows "distinct (map payment_key ps) \<and> (\<forall>p \<in> set ps. fp_at p \<le> ac_last_at c \<and>
    ac_settlements c (payment_key p) = Some (fp_rate p, fp_mark p) \<and>
    fp_amount p = rnd (- held_before (ac_holdings c) (fp_at p) (2 * fp_pair p + 1) * fp_rate p * fp_mark p))"
proof -
  have "paid_once a ps c"
    using paper_run_payments [OF assms(2)] paper_account_init_facts [OF assms(1)] by blast
  moreover have "x = rnd q" if "float_of_fraction q = Inr x" for q x
    using that by (auto simp: float_of_fraction_def Let_def split: if_splits)
  ultimately show ?thesis unfolding paid_once_def by metis
qed

theorem funding_paid_once_witness:
  "payment_key (ex_paid 0) \<noteq> payment_key (ex_paid 1) \<and>
     ac_settlements ex_decided_account (payment_key (ex_paid 0)) = Some (1 / 1000, 100)"
proof -
  have "fp_rate (ex_paid 0) = 1 / 1000" "fp_mark (ex_paid 0) = 100" by (simp_all add: ex_paid_def)
  then show ?thesis using funding_paid_once [OF ex_paper_opened ex_decided_run] by auto
qed

text \<open>C26: What a decision orders is exact: filled completely, the orders take every pair to a matched hedge whose
  exact quantities cancel, and an account that is stopped or insolvent to exactly nothing; deciding itself
  moves no position.\<close>

theorem decision_hedges:
  assumes "paper_account_init nsum s = Inr a0" and "paper_run nsum ndot a0 ps a"
    and "paper_decide nsum ndot sn rules reference now a = Inr (r, c)"
  shows "exact_values (ac_book c) = exact_values (ac_book a) \<and>
    (let held = exact_values (ac_book c); plan = planned rules held (pr_orders r) in
      (\<forall>k. 2 * k + 1 < length held \<longrightarrow> plan (2 * k) + plan (2 * k + 1) = 0) \<and>
      (bs_insolvent (ac_book c) \<or> cb_stop_reason (ac_bot c) \<noteq> None \<longrightarrow> (\<forall>i < length held. plan i = 0)))"
proof -
  have a: "account_reachable nsum ndot (ac_book a)" "bot_ok (ac_bot a)"
    using paper_run_keeps [OF assms(2)] paper_account_init_facts [OF assms(1)] by blast+
  show ?thesis
  proof (rule paper_decide_facts [OF assms(3) a])
    fix target
    assume same: "exact_values (ac_book c) = exact_values (ac_book a)"
      and plan: "\<forall>i < length (exact_values (ac_book c)). i < length target \<and>
         planned rules (exact_values (ac_book c)) (pr_orders r) i = dec_of_float (target ! i)"
      and t: "(\<forall>x \<in> set target. x = F 0) \<or> \<not> bs_insolvent (ac_book c) \<and> cb_stop_reason (ac_bot c) = None \<and>
         matched_hedge (cy_common_lot (cb_config (ac_bot c))) target"
    have zero: "dec_of_float (target ! i) = 0" if "\<forall>x \<in> set target. x = F 0" "i < length target" for i
    proof -
      have "target ! i = F 0" using that by simp
      then show ?thesis by (simp add: dec_mag_def)
    qed
    from t show ?thesis
    proof
      assume z: "\<forall>x \<in> set target. x = F 0"
      then have "\<forall>i < length (exact_values (ac_book c)). planned rules (exact_values (ac_book c)) (pr_orders r) i = 0"
        using plan zero by auto
      then show ?thesis using same by (simp add: Let_def)
    next
      assume m: "\<not> bs_insolvent (ac_book c) \<and> cb_stop_reason (ac_bot c) = None \<and>
         matched_hedge (cy_common_lot (cb_config (ac_bot c))) target"
      then show ?thesis using same plan matched_pair [of "cy_common_lot (cb_config (ac_bot c))" target] by (auto simp: Let_def)
    qed
  qed
qed

theorem decision_hedges_witness:
  "planned ex_venue_rules [0, 0, 0, 0] ex_hedge_orders 0 + planned ex_venue_rules [0, 0, 0, 0] ex_hedge_orders 1 = 0 \<and>
     planned ex_venue_rules [0, 0, 0, 0] ex_hedge_orders 0 = 1"
proof -
  have h: "exact_values (ac_book ex_decided_account) = [0, 0, 0, 0]"
    by (simp add: ex_decided_account_def ex_seen_account_def ex_flat_exact)
  have "dec_of_float (rnd (1/1000)) = 1/1000" using ex_thousandth by (simp add: exact_quantity_def split: if_splits)
  then have one: "planned ex_venue_rules [0, 0, 0, 0] ex_hedge_orders 0 = 1"
    by (simp add: planned_def ordered_lots_def venue_step_def ex_venue_rule ex_hedge_orders_def)
  have "\<forall>k. 2 * k + 1 < length [0 :: rat, 0, 0, 0] \<longrightarrow> planned ex_venue_rules [0, 0, 0, 0] ex_hedge_orders (2 * k) +
      planned ex_venue_rules [0, 0, 0, 0] ex_hedge_orders (2 * k + 1) = 0"
    using conjunct2 [OF decision_hedges [OF ex_paper_opened paper_run.start ex_paper_decided]] unfolding h Let_def by simp
  from spec [OF this, of 0] one show ?thesis by simp
qed

text \<open>C27: An execution moves positions only by the fills it reports: it answers the pending orders in their
  order, as far as it gets, every fill in the direction of its order and within its lots, the exact
  quantities change by exactly those lots, and a cancelled execution fills nothing.\<close>

theorem execution_moves_by_fills:
  assumes "paper_account_init nsum s = Inr a0" and "paper_run nsum ndot a0 ps a" and "ac_pending a = Some pending"
    and "evidence_ok (ac_settings a) sn rules" and "paper_execute nsum ndot sn rules now a = Inr (r, c)"
  shows "prefix (map fst (pr_fills r)) (pd_orders pending) \<and> ac_pending c = None \<and> (pr_cancelled r \<longrightarrow> pr_fills r = []) \<and>
    (\<forall>(w, f) \<in> set (pr_fills r). df_filled_lots f + df_unfilled_lots f = pw_lots w \<and>
       \<bar>df_filled_lots f\<bar> \<le> \<bar>pw_lots w\<bar> \<and> 0 \<le> df_filled_lots f * pw_lots w) \<and>
    exact_values (ac_book c) = foldl (\<lambda>held (w, f). held[pw_symbol w := held ! pw_symbol w +
       of_int (df_filled_lots f) * venue_step rules (pw_symbol w)]) (exact_values (ac_book a)) (pr_fills r)"
proof -
  have a: "account_reachable nsum ndot (ac_book a)" "bot_ok (ac_bot a)"
    using paper_run_keeps [OF assms(2)] paper_account_init_facts [OF assms(1)] by blast+
  have p: "fill_position rules = (\<lambda>held (w, f). held[pw_symbol w := held ! pw_symbol w +
       of_int (df_filled_lots f) * venue_step rules (pw_symbol w)])"
    by (intro ext) (simp add: fill_position_def case_prod_unfold)
  note f = paper_execute_facts [OF assms(5,3,4) a]
  show ?thesis using f(2-6) unfolding p by (auto simp: fill_within_def)
qed

theorem execution_moves_by_fills_witness:
  "\<exists>c. paper_execute ex_sum ex_dot (ex_snapshot 60500000) ex_venue_rules 61000000 ex_decided_account =
       Inr (\<lparr>pr_orders = [], pr_funding = [], pr_fills = ex_executed_fills, pr_cancelled = False\<rparr>, c) \<and>
     prefix (map fst ex_executed_fills) ex_hedge_orders \<and> ac_pending c = None"
proof -
  obtain c where c: "paper_execute ex_sum ex_dot (ex_snapshot 60500000) ex_venue_rules 61000000 ex_decided_account =
       Inr (\<lparr>pr_orders = [], pr_funding = [], pr_fills = ex_executed_fills, pr_cancelled = False\<rparr>, c)"
    using ex_paper_executed by blast
  have p: "ac_pending ex_decided_account = Some ex_hedge_pending" "pd_orders ex_hedge_pending = ex_hedge_orders"
    "ac_settings ex_decided_account = ex_paper_settings"
    by (simp_all add: ex_decided_account_def ex_seen_account_def ex_hedge_pending_def)
  have e: "evidence_ok (ac_settings ex_decided_account) (ex_snapshot 60500000) ex_venue_rules" by (simp add: p ex_evidence)
  from execution_moves_by_fills [OF ex_paper_opened ex_decided_run p(1) e c] c show ?thesis by (auto simp: p(2))
qed

section \<open>Reconciliation\<close>

text \<open>C28: \<open>reconcile_target\<close>, whose loop mutates the order book symbol by symbol, equals the plan in which
  every symbol is decided from the original book alone, and raises the same exceptions.\<close>

theorem reconcile_refines_plan:
  assumes "book_ok orders"
  shows "reconcile_target nsum new_id b orders r = planned_reconciliation nsum new_id b orders r"
  by (rule reconcile_planned [OF assms])

theorem reconcile_refines_plan_witness:
  "reconcile_target ex_sum 0 ex_account ex_no_orders ex_target = planned_reconciliation ex_sum 0 ex_account ex_no_orders ex_target"
  by (rule reconcile_refines_plan [OF ex_no_orders_ok])

text \<open>C29: A reconciliation loses and invents no order: the book stays valid with the same order ids, the
  archive grows by exactly the cancelled orders, each of which was active and is now CANCELLED as
  superseded; it returns at most one intent per symbol, in symbol order, and only for a symbol that has no
  active order left.\<close>

theorem reconcile_conserves_orders:
  assumes "book_ok orders" and "account_reachable nsum ndot b"
    and "reconcile_target nsum new_id b orders r = Inr res"
  shows "book_ok (rr_order_book res) \<and> mset (book_ids (rr_order_book res)) = mset (book_ids orders) \<and>
    archive_list (ob_terminal (rr_order_book res)) = archive_list (ob_terminal orders) @ rr_cancelled res \<and>
    (\<forall>c \<in> set (rr_cancelled res). \<exists>p \<in> set (ob_active orders).
       \<not> po_terminal p \<and> c = moved CANCELLED (ri_submit_index r) (Some ''superseded'') None p) \<and>
    sorted_wrt (<) (map oi_symbol_index (rr_new_intents res)) \<and>
    (\<forall>i \<in> set (rr_new_intents res). intent_wf i \<and> active_for_symbol (oi_symbol_index i) (rr_order_book res) = [])"
proof -
  have shape: "book_shape b" using account_reachable_valid [OF assms(2)] by (simp add: book_valid_def)
  obtain desired plans where plans:
    "mapr (symbol_plan b r (reference_over_cap nsum b r) desired orders) [0 ..< length (ri_weights r)] = Inr plans"
    and res: "res = planned_result new_id orders desired plans"
    by (rule reconcile_plans [OF assms(1) shape assms(3)])
  have srt: "sorted_wrt (<) [0 ..< length (ri_weights r)]" by simp
  note book = planned_book [OF assms(1) plans srt] and intents = plans_intents [OF plans srt]
  show ?thesis using book intents planned_intent_symbol by (auto simp: res planned_result_def)
qed

theorem reconcile_conserves_orders_witness:
  "sorted_wrt (<) (map oi_symbol_index [ex_close]) \<and> intent_wf ex_close"
  using reconcile_conserves_orders [OF ex_no_orders_ok ex_account_reachable ex_reconcile]
  by (simp add: planned_result_def map_filter_simps)

text \<open>C30: What reconciliation submits, admission does not refuse for the rules both apply: a reduce-only intent
  passes the reduce-only tests against the exact position it was sized from, and the limit or stop
  price passes the tick test, where the quotes are at most \<open>2 ^ 49\<close> ticks.\<close>

theorem reconciled_intents_admissible:
  assumes "book_ok orders" and "account_reachable nsum ndot b"
    and "reconcile_target nsum new_id b orders r = Inr res" and "i \<in> set (rr_new_intents res)"
    and "tick = ri_ticks r ! nat (oi_symbol_index i)" and "is_f64 tick" and "price = ri_reference_prices r ! nat (oi_symbol_index i)"
    and "val tick = 0 \<or> val (fmul price (fsub (F 1) (ri_offset_rate r))) \<le> 2 ^ 49 * val tick \<and>
      val (fmul price (fadd (F 1) (ri_offset_rate r))) \<le> 2 ^ 49 * val tick"
  shows "bound_on_grid i tick = Inr True \<and>
    (oi_reduce_only i \<and> ai_actual_position a = Some (exact_values b ! nat (oi_symbol_index i)) \<longrightarrow>
      (\<exists>m. reduce_refusals i view a (oi_requested_quantity i) = Inr m \<and> (\<forall>x \<in> set m. \<not> fst x)))"
proof -
  have shape: "book_shape b" using account_reachable_valid [OF assms(2)] by (simp add: book_valid_def)
  obtain desired plans where plans:
    "mapr (symbol_plan b r (reference_over_cap nsum b r) desired orders) [0 ..< length (ri_weights r)] = Inr plans"
    and res: "res = planned_result new_id orders desired plans"
    by (rule reconcile_plans [OF assms(1) shape assms(3)])
  have srt: "sorted_wrt (<) [0 ..< length (ri_weights r)]" by simp
  from assms(4) have "i \<in> set (List.map_filter snd plans)" by (simp add: res planned_result_def)
  with plans_intents [OF plans srt] obtain k ds where
    plan: "symbol_plan b r (reference_over_cap nsum b r) desired orders k = Inr (ds, Some i)" by blast
  then have k: "nat (oi_symbol_index i) = k" using planned_intent_symbol by fastforce
  show ?thesis using planned_on_grid [OF plan] planned_reduce_admissible [OF plan] assms(5-8) by (auto simp: k)
qed

theorem reconciled_intents_admissible_witness:
  "bound_on_grid ex_close (F 0) = Inr True"
proof -
  have close: "ex_close \<in> set (rr_new_intents (planned_result 0 ex_no_orders [F 0] [([], Some ex_close)]))"
    by (simp add: planned_result_def map_filter_simps)
  have "oi_symbol_index ex_close = 0"
    using created_intent(3) [OF ex_close_create [unfolded ex_close_raw_def]] by simp
  then have tick: "F 0 = ri_ticks ex_target ! nat (oi_symbol_index ex_close)"
    by (simp add: ri_ticks_def ex_target_def)
  have "is_f64 (F 0)" by code_simp
  from reconciled_intents_admissible [OF ex_no_orders_ok ex_account_reachable ex_reconcile close tick this refl, THEN conjunct1]
  show ?thesis by simp
qed

section \<open>Admission\<close>

text \<open>C31: An order that \<open>OrderAdmissionPolicy.evaluate\<close> accepts carries the policy's identity, is in its
  eligibility window, moves in the requested direction by at most the requested amount and at least the
  minimum quantity (exact fractions), has a bound price on the tick grid, and, if it is reduce-only,
  closes against the exact position without passing it.\<close>

theorem accepted_order_safe:
  assumes "evaluate_admission nsum pol intent view a = Inr d" and "ad_accepted d" and "is_f64 (requested_of intent a)"
  shows "ad_reason d = None \<and> oi_dataset_id intent = ap_dataset_id pol \<and>
    oi_execution_policy_digest intent = ap_digest pol \<and> oi_eligible_index intent \<le> ai_processing_index a \<and>
    (\<forall>e. oi_expiry_index intent = Some e \<longrightarrow> ai_processing_index a \<le> e) \<and>
    \<bar>ad_exact d\<bar> \<le> \<bar>dec_of_float (requested_of intent a)\<bar> \<and> 0 < ad_exact d * dec_of_float (requested_of intent a) \<and>
    dec_of_float (ai_minimum_quantity a) \<le> \<bar>ad_exact d\<bar> \<and> bound_on_grid intent (ai_tick_size a) = Inr True \<and>
    (oi_reduce_only intent \<longrightarrow> (\<exists>p. reducible_position intent view a = Inr p \<and>
       p * ad_exact d < 0 \<and> \<bar>ad_exact d\<bar> \<le> \<bar>p\<bar>))"
proof -
  let ?r = "requested_of intent a"
  note acc = admission_accepted [OF assms(1,2)]
  obtain lots minimum where q: "quantize_quantity ?r (ai_lot_size a) = Inr (ad_quantity d, lots)"
    "accepted_fill_quantity (ad_quantity d) (if lots = None then F 0 else ai_lot_size a) lots = Inr (ad_exact d)"
    and m: "exact_quantity (ai_minimum_quantity a) = Inr minimum" "minimum \<le> \<bar>ad_exact d\<bar>" "ad_reason d = None"
    by (rule admit_quantity_accepted [OF acc(9) assms(2)])
  note exact = quantized_exact [OF q]
  have r: "isfinite ?r" "dec_of_float ?r \<noteq> 0" using requested_dec [OF acc(3) assms(3)] by simp_all
  then have pos: "0 < ad_exact d * dec_of_float ?r" using exact by (simp add: less_le)
  have red: "\<exists>p. reducible_position intent view a = Inr p \<and> p * ad_exact d < 0 \<and> \<bar>ad_exact d\<bar> \<le> \<bar>p\<bar>"
    if reduce: "oi_reduce_only intent"
  proof -
    obtain p where p: "reducible_position intent view a = Inr p" "p * dec_of_float ?r < 0" "\<bar>dec_of_float ?r\<bar> \<le> \<bar>p\<bar>"
      using acc(7) reduce r(1) by (auto simp: reduce_refusals_def res_iff not_le not_less)
    then show ?thesis using pos exact by (auto simp: mult_less_0_iff zero_less_mult_iff)
  qed
  show ?thesis using acc(2,5) m exact pos red by (auto simp: eligibility_refusals_def res_iff split: option.splits)
qed

theorem accepted_order_safe_witness:
  "ad_exact ex_accepted = 10 \<and> 0 < ad_exact ex_accepted * dec_of_float (requested_of ex_raw ex_inputs)"
proof -
  have "is_f64 (requested_of ex_raw ex_inputs)" by code_simp
  from accepted_order_safe [OF ex_admission _ this] show ?thesis by (simp add: ex_accepted_def)
qed

text \<open>A price that \<open>snap_price_to_tick\<close> returns is positive and finite and passes
  \<open>price_on_tick_grid\<close> for the same tick, as long as the price is at most \<open>2 ^ 49\<close> ticks.\<close>

theorem snapped_price_on_grid:
  assumes "snap_price_to_tick price tick up = Inr s" and "is_f64 tick"
    and "val price \<le> 2 ^ 49 * val tick \<or> val tick = 0"
  shows "price_on_tick_grid s tick = Inr True \<and> isfinite s \<and> 0 < val s"
  by (rule snapped_on_grid [OF assms])

theorem snapped_price_on_grid_witness:
  "snap_price_to_tick (F (1001 / 8)) (F (1 / 2)) True = Inr (F (251 / 2)) \<and>
     price_on_tick_grid (F (251 / 2)) (F (1 / 2)) = Inr True"
proof -
  have s: "snap_price_to_tick (F (1001 / 8)) (F (1 / 2)) True = Inr (F (251 / 2))" by code_simp
  have t: "is_f64 (F (1 / 2))" by code_simp
  from snapped_price_on_grid [OF s t] show ?thesis using s by simp
qed

section \<open>Sharing a bar's liquidity\<close>

text \<open>C32: \<open>allocate_symbol_capacity\<close> answers every request once, in priority order: the fill moves in the
  requested direction by at most the requested amount, a skipped request changes nothing, a fill is the
  exact amount the account later accepts, and a reduce-only fill is at most the position the earlier fills
  left and against it, so no allocation turns a position around.\<close>

theorem allocation_serves_requests:
  assumes "allocate_symbol_capacity requests t = Inr (as, ev)" and "\<forall>q \<in> set requests. request_ok q"
    and "i < length requests" and "q = sort_key priority_key requests ! i" and "a = as ! i"
    and "held = map_option (\<lambda>p. p + sum_list (map alloc_exact (take i as))) (lt_position t)"
  shows "length as = length requests \<and> la_order_id a = lr_order_id q \<and>
    \<bar>alloc_exact a\<bar> \<le> \<bar>dec_of_float (lr_remaining_quantity q)\<bar> \<and>
    0 \<le> alloc_exact a * dec_of_float (lr_remaining_quantity q) \<and>
    (if la_no_fill_reason a = None
     then accepted_fill_quantity (la_filled_quantity a) (la_lot_size a) (la_lot_count a) = Inr (alloc_exact a) \<and> alloc_exact a \<noteq> 0
     else la_filled_quantity a = F 0 \<and> la_capacity_after a = la_capacity_before a \<and> alloc_exact a = 0) \<and>
    (lr_reduce_only q \<and> la_no_fill_reason a = None \<longrightarrow>
      (\<exists>h. held = Some h \<and> \<bar>alloc_exact a\<bar> \<le> \<bar>h\<bar> \<and> h * alloc_exact a \<le> 0))"
proof -
  note all = allocate_answered [OF assms(1,2)]
  have "i < length (sort_key priority_key requests)" using assms(3) by simp
  from answered_nth [OF all this] answered_length [OF all] show ?thesis
    using assms(4-6) by (auto simp: answers_def within_amount_def)
qed

theorem allocation_serves_requests_witness:
  "\<bar>alloc_exact ex_allocation\<bar> \<le> 3 \<and> la_no_fill_reason ex_allocation = None"
proof -
  obtain ev where run: "allocate_symbol_capacity [ex_request] ex_terms = Inr ([ex_allocation], ev)" using ex_allocate by blast
  have "sort_key priority_key [ex_request] ! 0 = ex_request" "lt_position ex_terms = Some 3" "lr_reduce_only ex_request"
    "la_no_fill_reason ex_allocation = None" by (simp_all add: ex_terms_def ex_request_def ex_allocation_def)
  then show ?thesis
    using allocation_serves_requests [OF run, of 0 ex_request ex_allocation "Some 3"] ex_request_ok by (auto simp: abs_le_iff)
qed



text \<open>The bisection over lots returns whenever every candidate between its bounds can be projected, and
  then in the bounds; no bound on its rounds is needed.\<close>

theorem lot_search_returns:
  assumes "lower \<le> upper" and "\<forall>n. lower < n \<and> n \<le> upper \<longrightarrow> (\<exists>p. project_quantity (of_int n * step) = Inr p)"
  shows "\<exists>n. lot_search (lots_fit price multiplier capacity step) lower upper = Inr n \<and> lower \<le> n \<and> n \<le> upper"
proof (rule lot_search_total [OF assms(1)], intro allI impI)
  fix n assume "lower < n \<and> n \<le> upper"
  then obtain p where "project_quantity (of_int n * step) = Inr p" using assms(2) by blast
  then show "\<exists>ok. lots_fit price multiplier capacity step n = Inr ok" by (simp add: lots_fit_def)
qed

theorem lot_search_returns_witness:
  "\<exists>n. lot_search (lots_fit (F 100) (F 1) (F 500) 1) 0 1 = Inr n"
proof -
  have "project_quantity (of_int n * 1) = Inr (F 1)" if "0 < n \<and> n \<le> 1" for n
  proof -
    have "n = 1" using that by linarith
    moreover have "project_quantity (of_int 1 * 1) = Inr (F 1)" by code_simp
    ultimately show ?thesis by simp
  qed
  with lot_search_returns [of 0 1 1 "F 100" "F 1" "F 500"] show ?thesis by auto
qed

section \<open>Triggers inside a bar\<close>

text \<open>\<open>select_bar_path\<close> accepts a bar exactly when its prices are finite, positive and
  consistent and the directions are among -1 and 1; an accepted path runs from the open over both
  extremes to the close, and the mode is downgraded to NEUTRAL exactly when the directions do
  not determine an adverse order.\<close>

theorem bar_path_selection:
  "(\<exists>b. select_bar_path o' h l c m ds = Inr b) = (bar_ok o' h l c \<and> ds \<subseteq> {-1, 1}) \<and>
   (\<forall>b. select_bar_path o' h l c m ds = Inr b \<longrightarrow>
     bp_points b \<in> {[o', h, l, c], [o', l, h, c]} \<and> bp_mode b = (if ds = {1} \<or> ds = {-1} then m else NEUTRAL) \<and>
     bp_mixed_direction_fallback b = (ds = {-1, 1}))"
proof (intro conjI allI impI)
  show "(\<exists>b. select_bar_path o' h l c m ds = Inr b) = (bar_ok o' h l c \<and> ds \<subseteq> {-1, 1})"
    by (simp add: select_bar_path_Inr)
  fix b assume "select_bar_path o' h l c m ds = Inr b"
  then have b: "b = selected_path o' h l c m ds" "ds \<subseteq> {-1, 1}" by (simp_all add: select_bar_path_Inr)
  then have ds: "ds = {} \<or> ds = {1} \<or> ds = {-1} \<or> ds = {-1, 1}" by blast
  show "bp_points b \<in> {[o', h, l, c], [o', l, h, c]}"
    using selected_path_points [of o' h l c m ds] unfolding b(1) path_points_ok_def by auto
  show "bp_mode b = (if ds = {1} \<or> ds = {-1} then m else NEUTRAL)"
    "bp_mixed_direction_fallback b = (ds = {-1, 1})"
    unfolding b(1) using ds by (auto simp: selected_path_def insert_eq_iff)
qed

theorem bar_path_selection_witness: "bp_mode ex_path = CONSERVATIVE"
proof -
  have "select_bar_path (F 10) (F 12) (F 8) (F 11) CONSERVATIVE {1} = Inr ex_path"
    using ex_bar_ok by (simp add: select_bar_path_Inr selected_path_def ex_path_def insert_eq_iff)
  with bar_path_selection [of "F 10" "F 12" "F 8" "F 11" CONSERVATIVE "{1}"] show ?thesis by simp
qed

text \<open>C34: A limit order on a selected path executes exactly when the bar reaches its limit (the low
  for a buy, the high for a sell), at a price inside the bar that is never worse than the limit.\<close>

theorem limit_execution:
  assumes "bar_ok o' h l c" and "path_points_ok o' h l c (bp_points path)"
    and "isfinite limit" and "0 < val limit" and "evaluate_limit buy limit path = Inr d"
  shows "td_executable d = (if buy then val l \<le> val limit else val limit \<le> val h) \<and>
    (\<forall>p. td_execution_price d = Some p \<longrightarrow> val l \<le> val p \<and> val p \<le> val h \<and>
      (if buy then val p \<le> val limit else val limit \<le> val p))"
  using evaluate_limit_iff [OF assms] by auto

theorem limit_execution_witness: "td_executable (placed (F 9) False SECOND_EXTREME)"
proof -
  have "evaluate_limit True (F 9) ex_path = Inr (placed (F 9) False SECOND_EXTREME)"
    by code_simp
  from limit_execution [OF ex_bar_ok _ _ _ this] show ?thesis
    by (simp add: path_points_ok_def ex_path_def)
qed

text \<open>A stop order that is not yet armed triggers exactly when the bar reaches its stop, at a
  price inside the bar that is never better than the stop, whatever the path mode.\<close>

theorem stop_execution:
  assumes "bar_ok o' h l c" and "path_points_ok o' h l c (bp_points path)"
    and "isfinite stop" and "0 < val stop" and "evaluate_stop False buy stop path = Inr d"
  shows "td_executable d = (if buy then val stop \<le> val h else val l \<le> val stop) \<and>
    td_triggered d = td_executable d \<and>
    (\<forall>p. td_execution_price d = Some p \<longrightarrow> val l \<le> val p \<and> val p \<le> val h \<and>
      (if buy then val stop \<le> val p else val p \<le> val stop))"
  using evaluate_stop_iff [OF assms] by auto

theorem stop_execution_witness: "td_executable (placed (F 12) True FIRST_EXTREME)"
proof -
  have "evaluate_stop False True (F 11) ex_path = Inr (placed (F 12) True FIRST_EXTREME)"
    by code_simp
  from stop_execution [OF ex_bar_ok _ _ _ this] show ?thesis
    by (simp add: path_points_ok_def ex_path_def)
qed

section \<open>Task coordination\<close>

text \<open>\<open>classify_conflict\<close> does not depend on the order of its two tasks: when both orders
  return, they return the same level; and on packets whose keys have known namespaces and whole
  file scopes it always returns.\<close>

theorem conflict_symmetric:
  assumes "keys_valid a" and "keys_valid b"
  shows "\<exists>c. classify_conflict a b = Inr c \<and> classify_conflict b a = Inr c"
  using classify_conflict_total [OF assms] classify_conflict_total [OF assms(2,1)] classify_conflict_agree
  by metis

theorem conflict_symmetric_witness:
  "\<exists>c. classify_conflict ex_a ex_b = Inr c \<and> classify_conflict ex_b ex_a = Inr c"
  by (rule conflict_symmetric [OF ex_keys_valid(1,2)])

text \<open>Two tasks that name the same resource of an exclusive namespace always conflict HARD, unless
  both only read; a shared side effect conflicts HARD even then.\<close>

theorem shared_resource_hard:
  assumes "classify_conflict a b = Inr c"
    and "k \<in> set (tp_resource_keys a)" and "k \<in> set (tp_resource_keys b)"
    and "split_key k = Inr (ns, v)" and "ns \<in> set (''file'' # hard_namespaces)"
    and "tp_execution_mode a = WRITE \<or> tp_execution_mode b = WRITE \<or> ns = ''side-effect''"
    and "ns = ''file'' \<longrightarrow> (\<exists>p. path_prefix v = Inr p)"
  shows "c = HARD"
  using assms by (rule shared_hard)

theorem shared_resource_hard_witness: "classify_conflict ex_c ex_c = Inr HARD"
proof -
  obtain c where c: "classify_conflict ex_c ex_c = Inr c"
    using classify_conflict_total [OF ex_keys_valid(3,3)] by blast
  have k: "split_key ''identity:z'' = Inr (''identity'', ''z'')" by code_simp
  have "c = HARD"
    by (rule shared_resource_hard [OF c _ _ k]) (simp_all add: ex_c_def ex_packet_def hard_namespaces_def)
  with c show ?thesis by simp
qed

text \<open>C35: \<open>dependency_graph\<close> accepts a list of packets exactly when their task ids are distinct,
  every dependency names one of them, and the dependency relation has no cycle.\<close>

theorem dependency_graph_sound_complete:
  "(dependency_graph ps = Inr g) = (g = graph_of ps \<and> distinct (map tp_task_id ps) \<and>
     (\<Union>p \<in> set ps. td_task_id ` set (tp_dependencies p)) \<subseteq> tp_task_id ` set ps \<and> acyclic (dep_rel g))"
  unfolding dependency_graph_Inr by auto

text \<open>\<open>descendant_count\<close> is the number of tasks that depend on the given one, directly or
  not, and on an accepted graph a task has more of them than each task that depends on it.\<close>

theorem descendant_count_correct:
  assumes "dependency_graph ps = Inr g"
  shows "descendant_count g t = int (card (dependents g t)) \<and>
    (\<forall>c. (c, t) \<in> dep_rel g \<longrightarrow> descendant_count g c < descendant_count g t)"
  using assms descendant_count_eq descendant_count_less by (auto simp: dependency_graph_Inr)

theorem descendant_count_correct_witness:
  "descendant_count (graph_of [ex_b, ex_a, ex_c]) ''a'' = int (card (dependents (graph_of [ex_b, ex_a, ex_c]) ''a''))"
  using descendant_count_correct [OF ex_graph] by blast

text \<open>C36: Every packet \<open>ready_packets\<close> offers is a known task that is READY and HEALTHY, not leased,
  with its hard dependencies satisfied and no HARD conflict with a running task; the offered
  packets are pairwise free of HARD conflicts, distinct, and in schedule order.\<close>

theorem ready_packets_safe:
  assumes "ready_packets packets statuses leased = Inr out"
  shows "set out \<subseteq> {p \<in> set packets. startable (graph_of packets) statuses leased p} \<and>
    sorted_wrt (\<lambda>p q. classify_conflict p q \<noteq> Inr HARD \<and> classify_conflict q p \<noteq> Inr HARD) out \<and>
    sorted (map (schedule_key (graph_of packets)) out) \<and> distinct (map tp_task_id out)"
  using ready_packets_startable [OF assms] ready_packets_conflict_free [OF assms] ready_packets_sorted [OF assms]
  by (auto simp: task_conflicts.compatible_def [abs_def])

theorem ready_packets_safe_witness: "startable (graph_of [ex_b, ex_a, ex_c]) ex_statuses [] ex_a"
  using ready_packets_safe [OF ex_ready] by simp

text \<open>C37: Nothing is left idle without cause: a candidate that \<open>ready_packets\<close> does not offer has a
  HARD conflict with one that it does offer.\<close>

theorem ready_packets_maximal:
  assumes "ready_packets packets statuses leased = Inr out" and "p \<in> set packets"
    and "is_candidate (graph_of packets) statuses leased p = Inr True" and "p \<notin> set out"
  shows "\<exists>q \<in> set out. classify_conflict p q = Inr HARD"
proof -
  obtain g cs where g: "dependency_graph packets = Inr g"
    and cs: "cs = filter (\<lambda>p. is_candidate g statuses leased p = Inr True) packets"
    and out: "greedy classify_conflict [] (sort_key (schedule_key g) cs) = Inr out"
    by (rule ready_packets_Inr [OF assms(1)])
  have "g = graph_of packets" using g by (simp add: dependency_graph_Inr)
  then have "p \<in> set (sort_key (schedule_key g) cs)" using assms(2,3) cs by simp
  then show ?thesis using task_conflicts.greedy_maximal [OF out] assms(4) by blast
qed

theorem ready_packets_maximal_witness: "classify_conflict ex_b ex_a = Inr HARD"
proof -
  have "is_candidate (graph_of [ex_b, ex_a, ex_c]) ex_statuses [] ex_b = Inr True" by code_simp
  then have "\<exists>q \<in> set [ex_a]. classify_conflict ex_b q = Inr HARD"
    by (intro ready_packets_maximal [OF ex_ready]) (simp_all add: ex_a_def ex_b_def ex_packet_def)
  then show ?thesis by simp
qed

text \<open>A run of \<open>validate_transition\<close> steps from PLANNED that is in some phase has been through
  every phase required before it, COMPLETE is entered at most once and only last, and COMPLETE can
  be reached from every phase.\<close>

theorem phase_runs:
  assumes "phase_run (b # visited)"
  shows "set (required_before b) \<subseteq> set (b # visited) \<and> COMPLETE \<notin> set visited \<and> phase_step\<^sup>*\<^sup>* b COMPLETE"
  using phase_run_required [OF assms] phase_run_complete_once [OF assms] phase_reaches_complete by simp

theorem phase_runs_witness: "set (required_before READY) \<subseteq> set [READY, PLANNED]"
proof -
  have "phase_run [READY, PLANNED]"
    by (rule phase_run.step [OF phase_run.start]) (simp add: phase_step_iff)
  from phase_runs [OF this] show ?thesis by simp
qed

text \<open>\<open>lease_branch_name\<close> fences: two leases whose branches coincide are of the same task and
  the same epoch, whoever owns them; for a valid task id, epoch and owner it never fails.\<close>

theorem lease_branches_fence:
  assumes "is_task_id t" and "1 \<le> e" and "is_owner o1" and "\<not> has_two_dots o1"
  shows "\<exists>b. lease_branch_name t e o1 = Inr b \<and>
    (\<forall>t' e' o2. lease_branch_name t' e' o2 = Inr b \<longrightarrow> t' = t \<and> e' = e)"
  using lease_branch_name_inj lease_branch_name_total [OF assms] by metis

theorem lease_branches_fence_witness: "\<exists>b. lease_branch_name ''a'' 1 ''bot 1'' = Inr b"
proof -
  have "is_task_id ''a''" by code_simp
  from lease_branches_fence [OF this _ ex_owner, of 1] show ?thesis by auto
qed

text \<open>\<open>grant_lease\<close> without a previous lease succeeds on a valid WRITE packet, epoch, owner, time
  and duration, and the lease it returns is current for that packet from its start until its end.\<close>

theorem fresh_lease_current:
  assumes "packet_wf p" and "tp_execution_mode p = WRITE" and "1 \<le> e" and "is_owner ow"
    and "\<not> has_two_dots ow" and "0 < d" and "d < 2 ^ 33 * 10 ^ 6"
  shows "\<exists>l. grant_lease p ow e (Some t) d None None = Inr l \<and> lr_epoch l = e \<and> lr_owner l = ow \<and>
    lease_is_current l p (Some t) = Inr True \<and> (lease_is_current l p (Some (t + d)) = Inr True) = False"
proof -
  obtain b where b: "lease_branch_name (tp_task_id p) e ow = Inr b"
    and g: "grant_lease p ow e (Some t) d None None = Inr (granted p ow e b None t d)"
    by (rule grant_fresh [OF assms])
  have "lease_wf (granted p ow e b None t d)" by (rule granted_wf [OF assms(1,3) b]) (use assms in simp_all)
  then show ?thesis using g assms(6) by (simp add: lease_is_current_iff)
qed

theorem fresh_lease_current_witness:
  "\<exists>l. grant_lease ex_a ''bot 1'' 1 (Some 0) 60000000 None None = Inr l \<and> lease_is_current l ex_a (Some 0) = Inr True"
proof -
  have "tp_execution_mode ex_a = WRITE" by (simp add: ex_a_def ex_packet_def)
  from fresh_lease_current [OF ex_a_wf this _ ex_owner, of 1 60000000 0] show ?thesis by auto
qed

text \<open>C38: Along any sequence of heartbeats and regrants, two leases that are current at the same
  moment have the same owner, epoch and branch: there is one holder at a time.\<close>

theorem single_holder:
  assumes "lease_step\<^sup>*\<^sup>* l m" and "lease_wf l"
    and "lease_is_current l p (Some t) = Inr True" and "lease_is_current m q (Some t) = Inr True"
  shows "lr_owner l = lr_owner m \<and> lr_epoch l = lr_epoch m \<and> lr_lease_branch l = lr_lease_branch m"
  using assms by (rule one_holder)

theorem single_holder_witness: "lr_owner (ex_lease 0) = lr_owner ex_beaten"
proof -
  have "lease_is_current (ex_lease 0) ex_a (Some 5) = Inr True" "lease_is_current ex_beaten ex_a (Some 5) = Inr True"
    unfolding lease_is_current_iff [OF ex_lease_wf] lease_is_current_iff [OF ex_beaten_wf]
    by (simp_all add: ex_beaten_def ex_lease_def granted_def lease_start_def lease_end_def)
  from single_holder [OF ex_beaten_step ex_lease_wf this] show ?thesis by simp
qed





text \<open>\<open>task_status_record_from_payload\<close> applied to \<open>task_status_record_payload\<close> of a record is the
  record's own constructor: it gives back exactly the records that are valid and refuses the others.\<close>

theorem status_record_payload_round_trip:
  "(task_status_record_from_payload (JObj (status_record_payload r)) = Inr q) = (record_wf r \<and> q = r)"
  using status_record_same by (auto simp: status_record_round_trip record_wf_def)

text \<open>The payload of a valid packet of valid parts, with its title added, decodes to a valid packet that differs only
  in the order of its set-like fields and has the same contract digest.\<close>

theorem packet_payload_decodes:
  assumes "packet_wf p" and "parts_wf p"
  shows "task_packet_from_payload (JObj (titled_payload p)) = Inr (sorted_packet p) \<and>
    packet_wf (sorted_packet p) \<and> contract_digest (sorted_packet p) = contract_digest p"
  using decode_titled [OF assms(2)] sorted_packet_wf [OF assms(1)]
  by (simp add: packet_wf_def sorted_packet_digest)

theorem packet_payload_decodes_witness:
  "task_packet_from_payload (JObj (titled_payload ex_a)) = Inr (sorted_packet ex_a)"
  by (rule packet_payload_decodes [OF ex_a_wf ex_a_parts, THEN conjunct1])

text \<open>The canonical payload itself, which the contract digest is taken over, is never accepted by
  \<open>task_packet_from_payload\<close>: it has no title.\<close>

theorem canonical_payload_has_no_title:
  "task_packet_from_payload (JObj (task_payload p)) = Inl (value_error ''missing field in task packet: title'')"
  by (rule canonical_payload_refused)

text \<open>\<open>render_dashboard\<close> depends on the set of snapshots only, not on their order.\<close>

theorem dashboard_order_independent:
  assumes "mset xs = mset ys"
  shows "render_dashboard parent sha xs = render_dashboard parent sha ys"
  using assms by (rule render_dashboard_order)

theorem dashboard_order_independent_witness:
  "\<forall>s t. render_dashboard ''parent'' ex_sha [s, t] = render_dashboard ''parent'' ex_sha [t, s]"
  by (intro allI dashboard_order_independent) simp

end
